(* ===== verification/Net7_Prelude.thy ===== *)
theory Net7_Prelude
  imports Main "HOL-Library.Word" "HOL-Library.Monad_Syntax"
begin

unbundle bit_operations_syntax

text \<open>
  Shared vocabulary of the development: the fixed-width integer types of the
  server (\<^verbatim>\<open>u8\<close>, \<^verbatim>\<open>u32\<close>, \<^verbatim>\<open>long\<close> on 64-bit Linux), raw memory as byte
  lists with checked access (an access outside an allocated block is undefined
  behaviour in C++ and is the value \<^term>\<open>None\<close> here), the little-endian memory
  image of an integer, C strings, and the list lemmas several components use.
\<close>

section \<open>Collections of rewrite rules\<close>

named_theorems net7_defs \<open>definitions of the model's small accessors\<close>
named_theorems mem_simps \<open>rules for reading back what was written to memory\<close>
named_theorems frame_simps \<open>fields an operation leaves unchanged\<close>

section \<open>Integer types of the server\<close>

type_synonym u8 = "8 word"
type_synonym s16 = "16 word"
type_synonym u32 = "32 word"
type_synonym s32 = "32 word"
type_synonym u64 = "64 word"
type_synonym clong = "64 word"
type_synonym bytes = "8 word list"

text \<open>Account levels (\<^verbatim>\<open>Net7.h\<close>).\<close>

definition GM :: clong where "GM = 50"
definition BETA_PLUS :: clong where "BETA_PLUS = 40"

section \<open>Memory blocks\<close>

definition peek :: "'a list \<Rightarrow> nat \<Rightarrow> nat \<Rightarrow> 'a list option" where
  "peek m i n = (if i + n \<le> length m then Some (take n (drop i m)) else None)"

definition poke :: "'a list \<Rightarrow> nat \<Rightarrow> 'a list \<Rightarrow> 'a list option" where
  "poke m i xs =
     (if i + length xs \<le> length m then Some (take i m @ xs @ drop (i + length xs) m) else None)"

lemma poke_length [mem_simps]: "poke m i xs = Some m' \<Longrightarrow> length m' = length m"
  by (auto simp: poke_def split: if_splits)

lemma poke_Some_iff: "(\<exists>m'. poke m i xs = Some m') \<longleftrightarrow> i + length xs \<le> length m"
  by (simp add: poke_def)

lemma poke_nth:
  assumes "poke m i xs = Some m'" and "j < length m"
  shows "m' ! j = (if i \<le> j \<and> j < i + length xs then xs ! (j - i) else m ! j)"
  using assms by (auto simp: poke_def nth_append min_def split: if_splits)

lemma peek_poke_same [mem_simps]:
  "poke m i xs = Some m' \<Longrightarrow> peek m' i (length xs) = Some xs"
  by (auto simp: poke_def peek_def split: if_splits)

lemma peek_eqI:
  assumes "length xs = n" and "i + n \<le> length m" and "\<And>k. k < n \<Longrightarrow> m ! (i + k) = xs ! k"
  shows "peek m i n = Some xs"
  using assms by (auto simp: peek_def intro: nth_equalityI)

lemma peek_nth: "peek m i n = Some xs \<Longrightarrow> k < n \<Longrightarrow> xs ! k = m ! (i + k)"
  by (auto simp: peek_def split: if_splits)

lemma peek_length: "peek m i n = Some xs \<Longrightarrow> length xs = n"
  by (auto simp: peek_def split: if_splits)

lemma peek_poke_disjoint [mem_simps]:
  assumes "poke m i xs = Some m'" and "j + n \<le> i \<or> i + length xs \<le> j"
  shows "peek m' j n = peek m j n"
proof (cases "j + n \<le> length m")
  case True
  have len: "length m' = length m" using assms(1) by (rule poke_length)
  have "peek m' j n = Some (take n (drop j m))"
  proof (rule peek_eqI)
    fix k assume "k < n"
    then show "m' ! (j + k) = take n (drop j m) ! k"
      using poke_nth [OF assms(1), of "j + k"] assms(2) True by auto
  qed (use True len in auto)
  then show ?thesis using True by (simp add: peek_def)
next
  case False
  then show ?thesis using poke_length [OF assms(1)] by (simp add: peek_def)
qed

lemma peek_append:
  assumes "peek m i (length a + length b) = Some (a @ b)"
  shows "peek m i (length a) = Some a" and "peek m (i + length a) (length b) = Some b"
proof -
  have b: "i + (length a + length b) \<le> length m"
    and t: "take (length a + length b) (drop i m) = a @ b"
    using assms by (auto simp: peek_def split: if_splits)
  have "take (length a) (drop i m) = take (length a) (a @ b)"
    by (simp only: t [symmetric] take_take) simp
  then show "peek m i (length a) = Some a" using b by (simp add: peek_def)
  have "take (length b) (drop (i + length a) m) = drop (length a) (a @ b)"
    by (simp only: t [symmetric] drop_take) (simp add: add.commute)
  then show "peek m (i + length a) (length b) = Some b" using b by (simp add: peek_def)
qed

lemma peek_appendI:
  "peek m i (length a) = Some a \<Longrightarrow> peek m (i + length a) (length b) = Some b \<Longrightarrow>
   peek m i (length a + length b) = Some (a @ b)"
  by (auto simp: peek_def take_add add.assoc split: if_splits) (simp add: add.commute)

section \<open>Little-endian images of integers\<close>

definition le_bytes :: "nat \<Rightarrow> 'a::len word \<Rightarrow> bytes" where
  "le_bytes n w = map (\<lambda>i. ucast (drop_bit (8 * i) w)) [0..<n]"

primrec le_word :: "bytes \<Rightarrow> 'a::len word" where
  "le_word [] = 0"
| "le_word (b # bs) = ucast b OR push_bit 8 (le_word bs)"

lemma length_le_bytes [simp]: "length (le_bytes n w) = n"
  by (simp add: le_bytes_def)

lemma bit_le_word:
  "bit (le_word bs :: 'a::len word) k \<longleftrightarrow>
     k < LENGTH('a) \<and> k div 8 < length bs \<and> bit (bs ! (k div 8)) (k mod 8)"
proof (induction bs arbitrary: k)
  case Nil
  then show ?case by simp
next
  case (Cons b bs)
  show ?case
  proof (cases "k < 8")
    case True
    then show ?thesis
      by (auto simp: bit_or_iff bit_push_bit_iff bit_ucast_iff)
  next
    case False
    then have d: "k div 8 = Suc ((k - 8) div 8)" and m: "(k - 8) mod 8 = k mod 8"
      by (auto simp: le_div_geq le_mod_geq)
    have nb: "\<not> bit b k" using False bit_imp_le_length [of b k] by auto
    show ?thesis using False nb
      by (auto simp: bit_or_iff bit_push_bit_iff bit_ucast_iff Cons.IH d m)
  qed
qed

lemma bit_le_bytes: "i < n \<Longrightarrow> bit (le_bytes n w ! i) j \<longleftrightarrow> j < 8 \<and> bit w (8 * i + j)"
  by (simp add: le_bytes_def bit_ucast_iff bit_drop_bit_eq)

lemma le_word_le_bytes:
  assumes "LENGTH('a) \<le> 8 * n"
  shows "le_word (le_bytes n (w :: 'a::len word)) = w"
proof (rule bit_word_eqI)
  fix k assume k: "k < LENGTH('a)"
  then have "k div 8 < n" using assms by (simp add: less_mult_imp_div_less mult.commute)
  then show "bit (le_word (le_bytes n w) :: 'a word) k = bit w k"
    using k by (simp add: bit_le_word bit_le_bytes)
qed

lemma sint_short_length: "n < 2 ^ 15 \<Longrightarrow> sint (of_nat n :: s16) = int n"
  by (simp add: signed_of_nat signed_take_bit_int_eq_self)

lemma unat_short_length: "n < 2 ^ 15 \<Longrightarrow> unat (of_nat n :: s16) = n"
  by (simp add: unat_of_nat)

lemma le_bytes_le_word:
  assumes "8 * length bs \<le> LENGTH('a)"
  shows "le_bytes (length bs) (le_word bs :: 'a::len word) = bs"
proof (rule nth_equalityI)
  fix i assume i: "i < length (le_bytes (length bs) (le_word bs :: 'a word))"
  show "le_bytes (length bs) (le_word bs :: 'a word) ! i = bs ! i"
  proof (rule bit_word_eqI)
    fix j assume j: "j < LENGTH(8)"
    have "(8 * i + j) div 8 = i" and "(8 * i + j) mod 8 = j" using j by auto
    moreover have "8 * i + j < LENGTH('a)" using i j assms by simp
    ultimately show "bit (le_bytes (length bs) (le_word bs :: 'a word) ! i) j = bit (bs ! i) j"
      using i j by (simp add: bit_le_bytes bit_le_word)
  qed
qed simp

section \<open>C strings\<close>

text \<open>
  A C string is the list of its non-zero bytes; the terminating zero is written
  out where the code copies it. \<open>cstring\<close> is the representation invariant.
\<close>

definition cstring :: "bytes \<Rightarrow> bool" where
  "cstring s \<longleftrightarrow> 0 \<notin> set s"

text \<open>The string that starts a byte block: everything before its first zero.\<close>

definition cstr_of :: "bytes \<Rightarrow> bytes" where
  "cstr_of bs = takeWhile (\<lambda>b. b \<noteq> 0) bs"

lemma cstring_cstr_of [simp]: "cstring (cstr_of bs)"
  by (auto simp: cstring_def cstr_of_def dest: set_takeWhileD)

lemma cstr_of_append_zero: "cstring s \<Longrightarrow> cstr_of (s @ 0 # rest) = s"
  by (induction s) (auto simp: cstring_def cstr_of_def)

section \<open>Lists\<close>

lemma nth_list_update_if: "i < length xs \<Longrightarrow> xs[i := v] ! j = (if i = j then v else xs ! j)"
  by simp

lemma list_all_updateI:
  "list_all P xs \<Longrightarrow> (i < length xs \<Longrightarrow> P v) \<Longrightarrow> list_all P (xs[i := v])"
  by (cases "i < length xs") (auto simp: list_all_length nth_list_update)

lemma length_filter_update:
  assumes "i < length xs"
  shows "length (filter P (xs[i := v])) + of_bool (P (xs ! i)) =
         length (filter P xs) + of_bool (P v)"
  using assms
proof (induction xs arbitrary: i)
  case Nil
  then show ?case by simp
next
  case (Cons a xs)
  then show ?case by (cases i) auto
qed

text \<open>Stepping an index round a ring, the way the code writes it.\<close>

lemma ring_succ: "w < N \<Longrightarrow> (if N \<le> w + 1 then 0 else w + 1) = Suc w mod N"
  by (auto simp: mod_Suc)

lemma ring_distance:
  assumes "r < N" and "n < (N::nat)"
  shows "((r + n) mod N + N - r) mod N = n"
  using assms by (auto simp: mod_if)

text \<open>The first index that satisfies a predicate: the loops that search an array upwards.\<close>

fun first_index :: "('a \<Rightarrow> bool) \<Rightarrow> 'a list \<Rightarrow> nat option" where
  "first_index P [] = None"
| "first_index P (x # xs) = (if P x then Some 0 else map_option Suc (first_index P xs))"

lemma first_index_Some:
  "first_index P xs = Some i \<Longrightarrow> i < length xs \<and> P (xs ! i) \<and> (\<forall>j < i. \<not> P (xs ! j))"
proof (induction xs arbitrary: i)
  case Nil
  then show ?case by simp
next
  case (Cons a xs)
  then show ?case by (auto split: if_splits simp: less_Suc_eq_0_disj)
qed

lemma first_index_None: "first_index P xs = None \<longleftrightarrow> (\<forall>x \<in> set xs. \<not> P x)"
  by (induction xs) auto

lemma first_index_update:
  "i < length xs \<Longrightarrow> P v \<Longrightarrow> \<forall>j < i. \<not> P (xs ! j) \<Longrightarrow> first_index P (xs[i := v]) = Some i"
proof (induction xs arbitrary: i)
  case (Cons a xs)
  show ?case
  proof (cases i)
    case (Suc k)
    have "\<forall>j < k. \<not> P (xs ! j)" using Cons.prems(3) Suc by force
    then show ?thesis using Cons.IH [of k] Cons.prems Suc by force
  qed (use Cons.prems in simp)
qed simp

lemma first_index_le: "i < length xs \<Longrightarrow> P (xs ! i) \<Longrightarrow> \<exists>j \<le> i. first_index P xs = Some j"
proof (induction xs arbitrary: i)
  case (Cons a xs)
  then show ?case by (cases i) fastforce+
qed simp

text \<open>The last index that satisfies a predicate: the loops that overwrite a hit.\<close>

definition last_index :: "('a \<Rightarrow> bool) \<Rightarrow> 'a list \<Rightarrow> nat option" where
  "last_index P xs = map_option (\<lambda>i. length xs - 1 - i) (first_index P (rev xs))"

lemma last_index_Some:
  assumes "last_index P xs = Some i"
  shows "i < length xs \<and> P (xs ! i) \<and> (\<forall>j. i < j \<and> j < length xs \<longrightarrow> \<not> P (xs ! j))"
proof -
  obtain k where k: "first_index P (rev xs) = Some k" and i: "i = length xs - 1 - k"
    using assms by (auto simp: last_index_def)
  from first_index_Some [OF k]
  have kl: "k < length xs" and P: "P (rev xs ! k)" and least: "\<And>j. j < k \<Longrightarrow> \<not> P (rev xs ! j)"
    by auto
  have "\<not> P (xs ! j)" if "i < j" "j < length xs" for j
  proof -
    have "length xs - 1 - j < k" using that i kl by linarith
    then have "\<not> P (rev xs ! (length xs - 1 - j))" by (rule least)
    then show ?thesis using that by (simp add: rev_nth)
  qed
  then show ?thesis using kl P i by (auto simp: rev_nth)
qed

lemma last_index_None: "last_index P xs = None \<longleftrightarrow> (\<forall>x \<in> set xs. \<not> P x)"
  by (simp add: last_index_def first_index_None)

end
