(* ===== verification/CircularBuffer.thy ===== *)
theory CircularBuffer
  imports Net7_Prelude
begin

text \<open>
  Class \<^verbatim>\<open>CircularBuffer\<close> of \<^verbatim>\<open>server/src/MessageQueue.cpp\<close>: one ring of bytes and one
  ring of message descriptors, shared by many queues. Pointers into the byte ring are
  offsets, pointers into the descriptor ring are indices; a null pointer is \<^term>\<open>None\<close>.
  The clock (\<^verbatim>\<open>GetNet7TickCount\<close>) is an argument. The mutexes serialise the methods,
  so every method is one atomic step. The main results: what \<^verbatim>\<open>Write\<close> stored,
  \<^verbatim>\<open>Read\<close> returns, until the writers have gone once round the ring.
\<close>

section \<open>State\<close>

record message_entry =
  message :: "nat option"
  length_of :: nat
  player_id :: clong

definition null_entry :: message_entry where
  "null_entry = \<lparr>message = None, length_of = 0, player_id = 0\<rparr>"

record circular_buffer =
  m_Buffer :: bytes
  m_WritePtr :: nat
  m_FillCount :: clong
  m_Cumulative_Count :: u64
  m_EntryBuffer :: "message_entry list"
  m_EntryIndex :: nat
  cb_EntriesInQueue :: u32
  cb_WarningTimer :: u32
  m_CheckSlots :: bool

definition m_Size :: "circular_buffer \<Rightarrow> nat" where
  "m_Size cb = length (m_Buffer cb)"

definition m_MessageSlots :: "circular_buffer \<Rightarrow> nat" where
  "m_MessageSlots cb = length (m_EntryBuffer cb)"

section \<open>Operations\<close>

text \<open>
  The constructor. \<^verbatim>\<open>new unsigned char[size]\<close> leaves the bytes unspecified (argument
  \<open>mem\<close>), and no statement initialises \<^verbatim>\<open>m_Cumulative_Count\<close> (argument \<open>junk\<close>).
\<close>

definition new_CircularBuffer :: "bytes \<Rightarrow> u64 \<Rightarrow> nat \<Rightarrow> bool \<Rightarrow> circular_buffer" where
  "new_CircularBuffer mem junk message_slots check_slots =
     \<lparr>m_Buffer = mem, m_WritePtr = 0, m_FillCount = 0, m_Cumulative_Count = junk,
      m_EntryBuffer = replicate message_slots null_entry, m_EntryIndex = 0,
      cb_EntriesInQueue = 0, cb_WarningTimer = 0, m_CheckSlots = check_slots\<rparr>"

definition GetNextEntry :: "u32 \<Rightarrow> circular_buffer \<Rightarrow> nat \<times> circular_buffer" where
  "GetNextEntry tick cb =
     (let this_entry = m_EntryIndex cb;
          n = cb_EntriesInQueue cb + 1;
          over = of_nat (m_MessageSlots cb) < n;
          warn = over \<and> m_CheckSlots cb \<and> cb_WarningTimer cb + 5000 < tick;
          n' = (if over \<and> 0xFFFF0000 < n then 0 else n);
          idx = m_EntryIndex cb + 1
      in (this_entry,
          cb\<lparr>cb_EntriesInQueue := n',
             cb_WarningTimer := (if warn then tick else cb_WarningTimer cb),
             m_EntryIndex := (if m_MessageSlots cb \<le> idx then 0 else idx)\<rparr>))"

definition cb_Write :: "bytes \<Rightarrow> circular_buffer \<Rightarrow> (nat \<times> circular_buffer) option" where
  "cb_Write buff cb =
     (let size = length buff;
          cb1 = cb\<lparr>m_Cumulative_Count := m_Cumulative_Count cb + of_nat size,
                   m_FillCount := m_FillCount cb + of_nat size\<rparr>;
          start_write = m_WritePtr cb
      in if m_Size cb < m_WritePtr cb + size
         then let write1 = m_Size cb - m_WritePtr cb
              in do {
                m1 \<leftarrow> poke (m_Buffer cb) (m_WritePtr cb) (take write1 buff);
                m2 \<leftarrow> poke m1 0 (drop write1 buff);
                Some (start_write, cb1\<lparr>m_Buffer := m2, m_WritePtr := size - write1\<rparr>)
              }
         else do {
           m1 \<leftarrow> poke (m_Buffer cb) (m_WritePtr cb) buff;
           Some (start_write, cb1\<lparr>m_Buffer := m1, m_WritePtr := m_WritePtr cb + size\<rparr>)
         })"

text \<open>
  \<^verbatim>\<open>Read\<close> returns \<^verbatim>\<open>false\<close> (here \<^term>\<open>None\<close> as the first component) when the
  pointer lies past the end of the ring, and otherwise copies up to the end and
  then from the beginning.
\<close>

definition cb_Read ::
    "nat option \<Rightarrow> nat \<Rightarrow> circular_buffer \<Rightarrow> (bytes option \<times> circular_buffer) option" where
  "cb_Read read_ptr sz cb =
     (case read_ptr of
        None \<Rightarrow> (if sz = 0 then Some (Some [], cb\<lparr>cb_EntriesInQueue := cb_EntriesInQueue cb - 1\<rparr>)
                 else None)
      | Some rp \<Rightarrow>
          if m_Size cb < rp then Some (None, cb)
          else do {
            data \<leftarrow> (if m_Size cb < rp + sz
                     then let read1 = m_Size cb - rp
                          in do {
                            a \<leftarrow> peek (m_Buffer cb) rp read1;
                            b \<leftarrow> peek (m_Buffer cb) 0 (sz - read1);
                            Some (a @ b)
                          }
                     else peek (m_Buffer cb) rp sz);
            Some (Some data, cb\<lparr>cb_EntriesInQueue := cb_EntriesInQueue cb - 1\<rparr>)
          })"

text \<open>The bodies of the next two are commented out in the source.\<close>

definition cb_RemoveAllPlayerEntries :: "clong \<Rightarrow> circular_buffer \<Rightarrow> circular_buffer" where
  "cb_RemoveAllPlayerEntries pid cb = cb"

definition DeCommit :: "nat option \<Rightarrow> clong \<Rightarrow> circular_buffer \<Rightarrow> bool \<times> circular_buffer" where
  "DeCommit dest sz cb = (True, cb)"

definition Cumulative_Written :: "bool \<Rightarrow> circular_buffer \<Rightarrow> u64 \<times> circular_buffer" where
  "Cumulative_Written clear cb =
     (m_Cumulative_Count cb, if clear then cb\<lparr>m_Cumulative_Count := 0\<rparr> else cb)"

text \<open>The subtraction is signed and clamped at zero.\<close>

definition ToBufferEnd :: "circular_buffer \<Rightarrow> int" where
  "ToBufferEnd cb =
     (let to_end = int (m_Size cb) - (int (m_WritePtr cb) + 1) in if to_end < 0 then 0 else to_end)"

section \<open>Invariant\<close>

definition cb_wf :: "circular_buffer \<Rightarrow> bool" where
  "cb_wf cb \<longleftrightarrow> m_WritePtr cb \<le> m_Size cb \<and> 0 < m_Size cb \<and> m_EntryIndex cb < m_MessageSlots cb"

lemma cb_wf_new: "mem \<noteq> [] \<Longrightarrow> 0 < n \<Longrightarrow> cb_wf (new_CircularBuffer mem junk n chk)"
  by (simp add: cb_wf_def new_CircularBuffer_def m_Size_def m_MessageSlots_def)

lemma GetNextEntry_wf:
  assumes "cb_wf cb" and "GetNextEntry tick cb = (e, cb')"
  shows "cb_wf cb' \<and> e < m_MessageSlots cb \<and> m_Buffer cb' = m_Buffer cb \<and>
         m_WritePtr cb' = m_WritePtr cb \<and> m_EntryBuffer cb' = m_EntryBuffer cb"
  using assms by (auto simp: GetNextEntry_def Let_def cb_wf_def m_Size_def m_MessageSlots_def)

lemma cb_Write_defined:
  assumes "cb_wf cb" and "length buff \<le> m_Size cb"
  shows "\<exists>cb'. cb_Write buff cb = Some (m_WritePtr cb, cb')"
  using assms by (auto simp: cb_Write_def Let_def poke_def cb_wf_def m_Size_def)

lemma cb_Write_frame:
  assumes "cb_Write buff cb = Some (s, cb')"
  shows "s = m_WritePtr cb \<and> m_Size cb' = m_Size cb \<and> m_EntryBuffer cb' = m_EntryBuffer cb \<and>
         m_EntryIndex cb' = m_EntryIndex cb \<and> cb_EntriesInQueue cb' = cb_EntriesInQueue cb \<and>
         cb_WarningTimer cb' = cb_WarningTimer cb \<and> m_CheckSlots cb' = m_CheckSlots cb"
  using assms
  by (auto simp: cb_Write_def Let_def m_Size_def bind_eq_Some_conv dest!: poke_length split: if_splits)

text \<open>
  The ring seen through virtual addresses: the byte with address \<open>t\<close> lives at
  \<open>t mod m_Size\<close>. A write at the virtual position \<open>W\<close> stores its bytes at
  \<open>W, W + 1, \<dots>\<close> and changes none of the \<open>m_Size - length buff\<close> addresses below \<open>W\<close>.
\<close>

lemma cb_Write_nth:
  assumes wf: "cb_wf cb" and len: "length buff \<le> m_Size cb"
    and w: "cb_Write buff cb = Some (s, cb')" and j: "j < m_Size cb"
  shows "m_Buffer cb' ! j =
    (if m_WritePtr cb \<le> j \<and> j < m_WritePtr cb + length buff then buff ! (j - m_WritePtr cb)
     else if j + m_Size cb < m_WritePtr cb + length buff then buff ! (j + m_Size cb - m_WritePtr cb)
     else m_Buffer cb ! j)"
proof (cases "m_Size cb < m_WritePtr cb + length buff")
  case True
  let ?w1 = "m_Size cb - m_WritePtr cb"
  have wp: "m_WritePtr cb \<le> m_Size cb" using wf by (simp add: cb_wf_def)
  obtain m1 m2 where m1: "poke (m_Buffer cb) (m_WritePtr cb) (take ?w1 buff) = Some m1"
    and m2: "poke m1 0 (drop ?w1 buff) = Some m2" and cb': "m_Buffer cb' = m2"
    using w True by (auto simp: cb_Write_def Let_def bind_eq_Some_conv)
  have "length m1 = m_Size cb" using m1 by (auto dest: poke_length simp: m_Size_def)
  then show ?thesis
    using poke_nth [OF m2, of j] poke_nth [OF m1, of j] j True wp len
    by (auto simp: cb' m_Size_def add.commute)
next
  case False
  then obtain m1 where "poke (m_Buffer cb) (m_WritePtr cb) buff = Some m1" and "m_Buffer cb' = m1"
    using w by (auto simp: cb_Write_def Let_def bind_eq_Some_conv)
  then show ?thesis using poke_nth [of _ _ _ m1 j] j False by (auto simp: m_Size_def)
qed

lemma cb_Write_ptr:
  assumes wf: "cb_wf cb" and len: "length buff \<le> m_Size cb"
    and w: "cb_Write buff cb = Some (s, cb')"
  shows "m_WritePtr cb' =
    (if m_Size cb < m_WritePtr cb + length buff then m_WritePtr cb + length buff - m_Size cb
     else m_WritePtr cb + length buff)"
  using assms by (auto simp: cb_Write_def Let_def bind_eq_Some_conv cb_wf_def split: if_splits)

lemma cb_Write_wf:
  assumes "cb_wf cb" and "length buff \<le> m_Size cb" and "cb_Write buff cb = Some (s, cb')"
  shows "cb_wf cb'"
  using cb_Write_ptr [OF assms] cb_Write_frame [OF assms(3)] assms(1,2)
  by (auto simp: cb_wf_def m_MessageSlots_def split: if_splits)

definition at_vpos :: "nat \<Rightarrow> circular_buffer \<Rightarrow> bool" where
  "at_vpos W cb \<longleftrightarrow> m_WritePtr cb mod m_Size cb = W mod m_Size cb"

definition vbyte :: "circular_buffer \<Rightarrow> nat \<Rightarrow> u8" where
  "vbyte cb t = m_Buffer cb ! (t mod m_Size cb)"

lemma mod_window:
  assumes "(w::nat) \<le> N" and "0 < N" and "w mod N = W mod N" and "d < N"
  shows "(W + d) mod N = (if w + d < N then w + d else w + d - N)"
proof -
  have "(W + d) mod N = (w + d) mod N" using assms(3) by (metis mod_add_left_eq)
  then show ?thesis using assms by (auto simp: mod_if)
qed

lemma cb_Write_virtual:
  assumes wf: "cb_wf cb" and len: "length buff \<le> m_Size cb"
    and w: "cb_Write buff cb = Some (s, cb')" and W: "at_vpos W cb"
  shows "at_vpos (W + length buff) cb'"
    and "k < length buff \<Longrightarrow> vbyte cb' (W + k) = buff ! k"
    and "W + length buff \<le> t + m_Size cb \<Longrightarrow> t < W \<Longrightarrow> vbyte cb' t = vbyte cb t"
proof -
  let ?N = "m_Size cb" and ?w = "m_WritePtr cb" and ?n = "length buff"
  have N: "0 < ?N" "?w \<le> ?N" and eq: "?w mod ?N = W mod ?N"
    using wf W by (auto simp: cb_wf_def at_vpos_def)
  have N': "m_Size cb' = ?N" using cb_Write_frame [OF w] by simp
  have "m_WritePtr cb' mod ?N = (?w + ?n) mod ?N"
    using cb_Write_ptr [OF wf len w] by (auto simp: mod_if)
  also have "\<dots> = (W + ?n) mod ?N" using eq by (metis mod_add_left_eq)
  finally show "at_vpos (W + ?n) cb'" by (simp add: at_vpos_def N')
  show "vbyte cb' (W + k) = buff ! k" if k: "k < ?n"
  proof -
    have p: "(W + k) mod ?N = (if ?w + k < ?N then ?w + k else ?w + k - ?N)"
      using N eq k len by (intro mod_window) auto
    show ?thesis
      using cb_Write_nth [OF wf len w, of "(W + k) mod ?N"] k len N p
      by (auto simp: vbyte_def N' split: if_splits)
  qed
  show "vbyte cb' t = vbyte cb t" if t: "W + ?n \<le> t + ?N" "t < W"
  proof -
    define d where "d = t + ?N - W"
    have d: "?n \<le> d" "d < ?N" "W + d = t + ?N" using t by (auto simp: d_def)
    have "t mod ?N = (W + d) mod ?N" by (simp add: d(3))
    then have p: "t mod ?N = (if ?w + d < ?N then ?w + d else ?w + d - ?N)"
      using mod_window [OF N(2,1) eq d(2)] by simp
    show ?thesis
      using cb_Write_nth [OF wf len w, of "t mod ?N"] d N p len
      by (auto simp: vbyte_def N' split: if_splits)
  qed
qed

lemma cb_Read_virtual:
  assumes wf: "cb_wf cb" and rp: "rp \<le> m_Size cb" and n: "n \<le> m_Size cb"
    and R: "rp mod m_Size cb = R mod m_Size cb"
  shows "cb_Read (Some rp) n cb =
    Some (Some (map (\<lambda>k. vbyte cb (R + k)) [0..<n]),
          cb\<lparr>cb_EntriesInQueue := cb_EntriesInQueue cb - 1\<rparr>)"
proof -
  let ?N = "m_Size cb" and ?m = "m_Buffer cb"
  have N: "0 < ?N" using wf by (simp add: cb_wf_def)
  have idx: "(R + k) mod ?N = (if rp + k < ?N then rp + k else rp + k - ?N)" if "k < ?N" for k
    using rp N R that by (rule mod_window)
  have "(if ?N < rp + n then take (?N - rp) (drop rp ?m) @ take (n - (?N - rp)) ?m
         else take n (drop rp ?m)) = map (\<lambda>k. vbyte cb (R + k)) [0..<n]" (is "?d = _")
  proof (rule nth_equalityI)
    show "length ?d = length (map (\<lambda>k. vbyte cb (R + k)) [0..<n])"
      using rp n by (auto simp: m_Size_def)
    fix k assume "k < length ?d"
    then show "?d ! k = map (\<lambda>k. vbyte cb (R + k)) [0..<n] ! k"
      using rp n idx [of k] by (auto simp: vbyte_def m_Size_def nth_append add.commute split: if_splits)
  qed
  then show ?thesis using rp n
    by (auto simp: cb_Read_def peek_def m_Size_def Let_def)
qed

section \<open>Sequences of writes\<close>

fun write_all :: "bytes list \<Rightarrow> circular_buffer \<Rightarrow> circular_buffer option" where
  "write_all [] cb = Some cb"
| "write_all (b # bs) cb =
     (case cb_Write b cb of None \<Rightarrow> None | Some (_, cb') \<Rightarrow> write_all bs cb')"

lemma write_all_keeps:
  assumes "cb_wf cb" and "at_vpos W cb" and "S + n \<le> W" and "n \<le> m_Size cb"
    and "W + sum_list (map length bs) \<le> S + m_Size cb"
  shows "\<exists>cb'. write_all bs cb = Some cb' \<and> cb_wf cb' \<and> m_Size cb' = m_Size cb \<and>
           m_EntryBuffer cb' = m_EntryBuffer cb \<and>
           cb_EntriesInQueue cb' = cb_EntriesInQueue cb \<and>
           (\<forall>t. S \<le> t \<and> t < S + n \<longrightarrow> vbyte cb' t = vbyte cb t)"
  using assms
proof (induction bs arbitrary: cb W)
  case Nil
  then show ?case by auto
next
  case (Cons b bs)
  have lb: "length b \<le> m_Size cb" using Cons.prems by simp
  obtain cb1 where w: "cb_Write b cb = Some (m_WritePtr cb, cb1)"
    using cb_Write_defined [OF Cons.prems(1) lb] by blast
  note fr = cb_Write_frame [OF w] and v = cb_Write_virtual [OF Cons.prems(1) lb w Cons.prems(2)]
  obtain cb' where cb': "write_all bs cb1 = Some cb'" "cb_wf cb'" "m_Size cb' = m_Size cb1"
    "m_EntryBuffer cb' = m_EntryBuffer cb1" "cb_EntriesInQueue cb' = cb_EntriesInQueue cb1"
    "\<forall>t. S \<le> t \<and> t < S + n \<longrightarrow> vbyte cb' t = vbyte cb1 t"
    using Cons.IH [of cb1 "W + length b"] cb_Write_wf [OF Cons.prems(1) lb w] v(1) fr Cons.prems
    by auto
  moreover have "vbyte cb1 t = vbyte cb t" if "S \<le> t" "t < S + n" for t
    using that Cons.prems by (intro v(3)) auto
  ultimately show ?case using w fr by auto
qed

text \<open>A message written to the ring is read back intact after any further writes, in
  any number and of any sizes, as long as those writes and the message together do not
  exceed the size of the ring; none of the operations leaves the ring.\<close>

theorem write_then_read:
  assumes "cb_wf cb" and "length msg + sum_list (map length bs) \<le> m_Size cb"
  shows "\<exists>start cb1 cb2. cb_Write msg cb = Some (start, cb1) \<and> write_all bs cb1 = Some cb2 \<and>
           cb_wf cb2 \<and>
           cb_Read (Some start) (length msg) cb2 =
             Some (Some msg, cb2\<lparr>cb_EntriesInQueue := cb_EntriesInQueue cb - 1\<rparr>)"
proof -
  let ?S = "m_WritePtr cb"
  have len: "length msg \<le> m_Size cb" using assms(2) by simp
  obtain cb1 where w: "cb_Write msg cb = Some (?S, cb1)"
    using cb_Write_defined [OF assms(1) len] by blast
  note v = cb_Write_virtual [OF assms(1) len w, of ?S] and fr = cb_Write_frame [OF w]
  obtain cb2 where cb2: "write_all bs cb1 = Some cb2" "cb_wf cb2" "m_Size cb2 = m_Size cb1"
    "cb_EntriesInQueue cb2 = cb_EntriesInQueue cb1"
    and keep: "\<forall>t. ?S \<le> t \<and> t < ?S + length msg \<longrightarrow> vbyte cb2 t = vbyte cb1 t"
    using write_all_keeps [OF cb_Write_wf [OF assms(1) len w] v(1), of ?S "length msg" bs] fr assms(2)
    by (auto simp: at_vpos_def)
  have "map (\<lambda>k. vbyte cb2 (?S + k)) [0..<length msg] = msg"
    using keep v(2) by (intro nth_equalityI) (auto simp: at_vpos_def)
  moreover have "?S \<le> m_Size cb2" using assms(1) cb2 fr by (simp add: cb_wf_def)
  ultimately have "cb_Read (Some ?S) (length msg) cb2 =
      Some (Some msg, cb2\<lparr>cb_EntriesInQueue := cb_EntriesInQueue cb - 1\<rparr>)"
    using cb_Read_virtual [OF cb2(2), of ?S "length msg" ?S] cb2 fr len by simp
  then show ?thesis using w cb2 by blast
qed

theorem write_then_read_witness:
  "\<exists>start cb1 cb2. cb_Write [7, 8, 9] ((new_CircularBuffer (replicate 8 0) 0 4 True)\<lparr>m_WritePtr := 6\<rparr>)
       = Some (start, cb1) \<and> write_all [[1, 2], [3]] cb1 = Some cb2 \<and> cb_wf cb2 \<and>
     cb_Read (Some start) 3 cb2 = Some (Some [7, 8, 9], cb2\<lparr>cb_EntriesInQueue := -1\<rparr>)"
  using write_then_read [of "(new_CircularBuffer (replicate 8 0) 0 4 True)\<lparr>m_WritePtr := 6\<rparr>"
      "[7, 8, 9]" "[[1, 2], [3]]"]
  by (simp add: cb_wf_def new_CircularBuffer_def m_Size_def m_MessageSlots_def numeral_3_eq_3)

text \<open>The ring does not protect a message that has not been read: once the writes
  after it go past the size of the ring, \<^verbatim>\<open>Read\<close> still succeeds and returns bytes of
  the later messages.\<close>

theorem overrun_returns_other_bytes:
  assumes "cb_wf cb" and "0 < length msg" and "length msg \<le> m_Size cb" and "length b = m_Size cb"
  shows "\<exists>start cb1 s2 cb2 cb3. cb_Write msg cb = Some (start, cb1) \<and>
     cb_Write b cb1 = Some (s2, cb2) \<and>
     cb_Read (Some start) (length msg) cb2 =
       Some (Some (drop (m_Size cb - length msg) b), cb3)"
proof -
  let ?S = "m_WritePtr cb" and ?n = "length msg"
  obtain cb1 where w: "cb_Write msg cb = Some (?S, cb1)"
    using cb_Write_defined [OF assms(1,3)] by blast
  note v = cb_Write_virtual [OF assms(1,3) w, of ?S] and fr = cb_Write_frame [OF w]
  have wf1: "cb_wf cb1" by (rule cb_Write_wf [OF assms(1,3) w])
  have lb: "length b \<le> m_Size cb1" using assms(4) fr by simp
  obtain cb2 where w2: "cb_Write b cb1 = Some (m_WritePtr cb1, cb2)"
    using cb_Write_defined [OF wf1 lb] by blast
  have "at_vpos (?S + ?n) cb1" using v(1) by (simp add: at_vpos_def)
  note v2 = cb_Write_virtual(2) [OF wf1 lb w2 this] and fr2 = cb_Write_frame [OF w2]
  have N: "m_Size cb2 = m_Size cb" using fr fr2 by simp
  have "vbyte cb2 (?S + k) = b ! (m_Size cb - ?n + k)" if "k < ?n" for k
  proof -
    have "?S + ?n + (m_Size cb - ?n + k) = ?S + k + m_Size cb2" using assms(3) N by simp
    then have "vbyte cb2 (?S + k) = vbyte cb2 (?S + ?n + (m_Size cb - ?n + k))"
      unfolding vbyte_def by (simp only: mod_add_self2)
    then show ?thesis using v2 [of "m_Size cb - ?n + k"] that assms(3,4) by simp
  qed
  then have "map (\<lambda>k. vbyte cb2 (?S + k)) [0..<?n] = drop (m_Size cb - ?n) b"
    using assms(3,4) by (intro nth_equalityI) auto
  moreover have "?S \<le> m_Size cb2" using assms(1) N by (simp add: cb_wf_def)
  ultimately show ?thesis
    using cb_Read_virtual [OF cb_Write_wf [OF wf1 lb w2], of ?S ?n ?S] w w2 N assms(3) by auto
qed

theorem overrun_returns_other_bytes_witness:
  "\<exists>start cb1 s2 cb2 cb3. cb_Write [7, 7] (new_CircularBuffer (replicate 3 0) 0 4 True) = Some (start, cb1) \<and>
     cb_Write [1, 2, 3] cb1 = Some (s2, cb2) \<and>
     cb_Read (Some start) 2 cb2 = Some (Some [2, 3], cb3)"
  using overrun_returns_other_bytes [of "new_CircularBuffer (replicate 3 0) 0 4 True" "[7, 7]" "[1, 2, 3]"]
  by (simp add: cb_wf_def new_CircularBuffer_def m_Size_def m_MessageSlots_def numeral_2_eq_2)

end
