(* ===== verification/MessageQueue.thy ===== *)
theory MessageQueue
  imports CircularBuffer
begin

text \<open>
  Class \<^verbatim>\<open>MessageQueue\<close> of \<^verbatim>\<open>server/src/MessageQueue.cpp\<close>: a ring of pointers to the
  message descriptors of a shared \<^verbatim>\<open>CircularBuffer\<close>. The state of an operation is the
  queue and the buffer it points to. The locale \<open>bounded_queue\<close> is the contract of a
  first-in first-out queue with limited room; the model is shown to satisfy it, and the
  behaviour when the room is exceeded is stated separately.
\<close>

section \<open>State\<close>

record message_queue =
  m_Queue :: "nat option list"
  m_ReadIndex :: nat
  m_WriteIndex :: nat
  m_TotalAdded :: u32
  m_TotalAddedToHead :: u32
  m_TotalAddedToTail :: u32
  m_TotalRemoved :: u32
  m_EntriesInQueue :: u32
  m_CheckQueue :: bool
  m_WarningTimer :: u32

definition m_QueueIndexSize :: "message_queue \<Rightarrow> nat" where
  "m_QueueIndexSize q = length (m_Queue q)"

type_synonym queue_state = "message_queue \<times> circular_buffer"

record check_result =
  cr_success :: bool
  cr_length :: nat
  cr_player_id :: clong
  cr_data :: "bytes option"

section \<open>Operations\<close>

definition new_MessageQueue :: "int \<Rightarrow> bool \<Rightarrow> message_queue" where
  "new_MessageQueue queue_slots check =
     \<lparr>m_Queue = replicate (if 0 < queue_slots then nat queue_slots else 200) None,
      m_ReadIndex = 0, m_WriteIndex = 0, m_TotalAdded = 0, m_TotalAddedToHead = 0,
      m_TotalAddedToTail = 0, m_TotalRemoved = 0, m_EntriesInQueue = 0,
      m_CheckQueue = check, m_WarningTimer = 0\<rparr>"

text \<open>
  \<^verbatim>\<open>memset(m_Queue, 0, sizeof(m_Queue))\<close> clears \<^verbatim>\<open>sizeof\<close> of the pointer, that is one
  eight-byte slot, not the array.
\<close>

definition ResetQueue :: "message_queue \<Rightarrow> message_queue" where
  "ResetQueue q =
     q\<lparr>m_TotalAdded := 0, m_TotalAddedToTail := 0, m_EntriesInQueue := 0,
       m_TotalAddedToHead := 0, m_TotalRemoved := 0, m_ReadIndex := 0, m_WriteIndex := 0,
       m_WarningTimer := 0, m_Queue := (m_Queue q)[0 := None]\<rparr>"

text \<open>The index arithmetic shared by \<^verbatim>\<open>Add\<close> and \<^verbatim>\<open>AddHead\<close>.\<close>

definition push_slot :: "nat \<Rightarrow> message_queue \<Rightarrow> message_queue" where
  "push_slot e q =
     (let w = m_WriteIndex q + 1
      in q\<lparr>m_Queue := (m_Queue q)[m_WriteIndex q := Some e],
           m_WriteIndex := (if m_QueueIndexSize q \<le> w then 0 else w),
           m_TotalAdded := m_TotalAdded q + 1,
           m_EntriesInQueue := m_EntriesInQueue q + 1\<rparr>)"

definition Add :: "u32 \<Rightarrow> bytes \<Rightarrow> clong \<Rightarrow> queue_state \<Rightarrow> (nat \<times> queue_state) option" where
  "Add tick buffer pid st =
     (let (q, cb) = st; (new_entry, cb1) = GetNextEntry tick cb
      in do {
        (packet, cb2) \<leftarrow> cb_Write buffer cb1;
        let cb3 = cb2\<lparr>m_EntryBuffer := (m_EntryBuffer cb2)[new_entry :=
                    \<lparr>message = Some packet, length_of = length buffer, player_id = pid\<rparr>]\<rparr>;
        let warn = m_CheckQueue q \<and> m_Queue q ! m_WriteIndex q \<noteq> None \<and>
                   m_WarningTimer q + 5000 < tick;
        let q1 = (if warn then q\<lparr>m_WarningTimer := tick\<rparr> else q);
        let q2 = push_slot new_entry q1;
        Some (packet, q2\<lparr>m_TotalAddedToTail := m_TotalAddedToTail q2 + 1\<rparr>, cb3)
      })"

definition Add_str :: "u32 \<Rightarrow> bytes \<Rightarrow> queue_state \<Rightarrow> (nat \<times> queue_state) option" where
  "Add_str tick s st = Add tick (s @ [0]) 0 st"

text \<open>
  \<^verbatim>\<open>AddHead\<close> stores at the write index like \<^verbatim>\<open>Add\<close>, and leaves the \<^verbatim>\<open>player_id\<close> of
  the recycled descriptor as it was.
\<close>

definition AddHead :: "u32 \<Rightarrow> bytes \<Rightarrow> queue_state \<Rightarrow> queue_state option" where
  "AddHead tick buffer st =
     (let (q, cb) = st; (new_entry, cb1) = GetNextEntry tick cb
      in do {
        (packet, cb2) \<leftarrow> cb_Write buffer cb1;
        let old = m_EntryBuffer cb2 ! new_entry;
        let cb3 = cb2\<lparr>m_EntryBuffer := (m_EntryBuffer cb2)[new_entry :=
                    old\<lparr>message := Some packet, length_of := length buffer\<rparr>]\<rparr>;
        let q2 = push_slot new_entry q;
        Some (q2\<lparr>m_TotalAddedToHead := m_TotalAddedToHead q2 + 1\<rparr>, cb3)
      })"

definition AddHead_str :: "u32 \<Rightarrow> bytes \<Rightarrow> queue_state \<Rightarrow> queue_state option" where
  "AddHead_str tick s st = AddHead tick (s @ [0]) st"

definition CheckNextQueueSize :: "queue_state \<Rightarrow> nat" where
  "CheckNextQueueSize st =
     (let (q, cb) = st
      in if m_ReadIndex q \<noteq> m_WriteIndex q
         then (case m_Queue q ! m_ReadIndex q of
                 None \<Rightarrow> 0
               | Some e \<Rightarrow> length_of (m_EntryBuffer cb ! e))
         else 0)"

text \<open>
  The receiving side. A message longer than the caller's buffer is reported and
  dropped; an empty slot is counted as removed without advancing the read index.
\<close>

definition CheckQueue :: "nat \<Rightarrow> queue_state \<Rightarrow> (check_result \<times> queue_state) option" where
  "CheckQueue buffer_size st =
     (let (q, cb) = st;
          none = \<lparr>cr_success = False, cr_length = 0, cr_player_id = 0, cr_data = None\<rparr>
      in if m_ReadIndex q = m_WriteIndex q then Some (none, st)
         else do {
           (res, q1, cb1) \<leftarrow>
             (case m_Queue q ! m_ReadIndex q of
                None \<Rightarrow> Some (none, q, cb)
              | Some e \<Rightarrow>
                  let this_entry = m_EntryBuffer cb ! e;
                      n = length_of this_entry;
                      q' = q\<lparr>m_Queue := (m_Queue q)[m_ReadIndex q := None],
                             m_ReadIndex := m_ReadIndex q + 1\<rparr>
                  in if buffer_size < n then Some (none\<lparr>cr_length := n\<rparr>, q', cb)
                     else do {
                       (data, cb') \<leftarrow> cb_Read (message this_entry) n cb;
                       let res = (case data of
                                    None \<Rightarrow> none\<lparr>cr_length := n\<rparr>
                                  | Some d \<Rightarrow> \<lparr>cr_success = True, cr_length = n,
                                       cr_player_id = player_id this_entry, cr_data = Some d\<rparr>);
                       Some (res, q', cb'\<lparr>m_EntryBuffer := (m_EntryBuffer cb')[e :=
                              this_entry\<lparr>length_of := 0, message := None\<rparr>]\<rparr>)
                     });
           let q2 = (if m_QueueIndexSize q1 \<le> m_ReadIndex q1 then q1\<lparr>m_ReadIndex := 0\<rparr> else q1);
           Some (res, q2\<lparr>m_TotalRemoved := m_TotalRemoved q2 + 1,
                         m_EntriesInQueue := m_EntriesInQueue q2 - 1\<rparr>, cb1)
         })"

definition CheckQueue_str :: "nat \<Rightarrow> queue_state \<Rightarrow> (bool \<times> bytes option \<times> queue_state) option" where
  "CheckQueue_str buffer_size st =
     map_option (\<lambda>(r, st'). (cr_success r, cr_data r, st')) (CheckQueue buffer_size st)"

definition RetreiveMessage :: "nat \<Rightarrow> nat option \<Rightarrow> queue_state \<Rightarrow> (bytes option \<times> queue_state) option" where
  "RetreiveMessage len pBuffer st =
     (let (q, cb) = st in map_option (\<lambda>(d, cb'). (d, q, cb')) (cb_Read pBuffer len cb))"

definition RemoveAllPlayerEntries :: "clong \<Rightarrow> queue_state \<Rightarrow> queue_state" where
  "RemoveAllPlayerEntries pid st = (fst st, cb_RemoveAllPlayerEntries pid (snd st))"

section \<open>The contract of a bounded queue\<close>

locale bounded_queue =
  fixes abs :: "'s \<Rightarrow> 'a list"
    and invar :: "'s \<Rightarrow> bool"
    and cost :: "'a \<Rightarrow> nat"
    and slots :: "'s \<Rightarrow> nat"
    and capacity :: "'s \<Rightarrow> nat"
    and enq :: "'a \<Rightarrow> 's \<Rightarrow> 's option"
    and deq :: "'s \<Rightarrow> ('a \<times> 's) option"
  assumes enq_ok: "invar s \<Longrightarrow> Suc (length (abs s)) \<le> slots s \<Longrightarrow>
      sum_list (map cost (abs s)) + cost a \<le> capacity s \<Longrightarrow>
      \<exists>s'. enq a s = Some s' \<and> invar s' \<and> abs s' = abs s @ [a] \<and>
           slots s' = slots s \<and> capacity s' = capacity s"
    and deq_ok: "invar s \<Longrightarrow> abs s = a # as \<Longrightarrow>
      \<exists>s'. deq s = Some (a, s') \<and> invar s' \<and> abs s' = as \<and>
           slots s' = slots s \<and> capacity s' = capacity s"
    and deq_empty: "invar s \<Longrightarrow> abs s = [] \<Longrightarrow> deq s = None"
begin

fun enq_all :: "'a list \<Rightarrow> 's \<Rightarrow> 's option" where
  "enq_all [] s = Some s"
| "enq_all (a # as) s = (case enq a s of None \<Rightarrow> None | Some s' \<Rightarrow> enq_all as s')"

fun deq_n :: "nat \<Rightarrow> 's \<Rightarrow> ('a list \<times> 's) option" where
  "deq_n 0 s = Some ([], s)"
| "deq_n (Suc n) s =
     (case deq s of None \<Rightarrow> None
      | Some (a, s') \<Rightarrow> (case deq_n n s' of None \<Rightarrow> None | Some (as, t) \<Rightarrow> Some (a # as, t)))"

lemma enq_all_ok:
  "invar s \<Longrightarrow> length (abs s) + length as \<le> slots s \<Longrightarrow>
   sum_list (map cost (abs s)) + sum_list (map cost as) \<le> capacity s \<Longrightarrow>
   \<exists>s'. enq_all as s = Some s' \<and> invar s' \<and> abs s' = abs s @ as \<and>
        slots s' = slots s \<and> capacity s' = capacity s"
proof (induction as arbitrary: s)
  case Nil
  then show ?case by simp
next
  case (Cons a as)
  then obtain s1 where s1: "enq a s = Some s1" "invar s1" "abs s1 = abs s @ [a]"
    "slots s1 = slots s" "capacity s1 = capacity s"
    using enq_ok [of s a] by auto
  with Cons.IH [of s1] Cons.prems show ?case by auto
qed

lemma deq_n_ok:
  "invar s \<Longrightarrow> abs s = as @ bs \<Longrightarrow>
   \<exists>s'. deq_n (length as) s = Some (as, s') \<and> invar s' \<and> abs s' = bs"
proof (induction as arbitrary: s)
  case Nil
  then show ?case by simp
next
  case (Cons a as)
  then obtain s1 where s1: "deq s = Some (a, s1)" "invar s1" "abs s1 = as @ bs"
    using deq_ok [of s a "as @ bs"] by auto
  with Cons.IH [of s1] show ?case by auto
qed

lemma fifo:
  assumes "invar s" and "length (abs s) + length as \<le> slots s"
    and "sum_list (map cost (abs s)) + sum_list (map cost as) \<le> capacity s"
  shows "\<exists>s1 s2. enq_all as s = Some s1 \<and> deq_n (length (abs s) + length as) s1 = Some (abs s @ as, s2) \<and>
           deq s2 = None"
proof -
  obtain s1 where s1: "enq_all as s = Some s1" "invar s1" "abs s1 = abs s @ as"
    using enq_all_ok [OF assms] by blast
  obtain s2 where s2: "deq_n (length (abs s @ as)) s1 = Some (abs s @ as, s2)" "invar s2" "abs s2 = []"
    using deq_n_ok [of s1 "abs s @ as" "[]"] s1 by auto
  have "deq s2 = None" using s2 by (intro deq_empty)
  with s1 s2 show ?thesis by auto
qed

end

section \<open>Refinement\<close>

subsection \<open>Abstraction\<close>

definition pending :: "message_queue \<Rightarrow> nat" where
  "pending q = (m_WriteIndex q + m_QueueIndexSize q - m_ReadIndex q) mod m_QueueIndexSize q"

definition slot_content :: "circular_buffer \<Rightarrow> nat option \<Rightarrow> bytes \<times> clong" where
  "slot_content cb slot =
     (case slot of None \<Rightarrow> ([], 0)
      | Some e \<Rightarrow>
          (case cb_Read (message (m_EntryBuffer cb ! e)) (length_of (m_EntryBuffer cb ! e)) cb of
             Some (Some d, _) \<Rightarrow> (d, player_id (m_EntryBuffer cb ! e))
           | _ \<Rightarrow> ([], 0)))"

definition queue_abs :: "queue_state \<Rightarrow> (bytes \<times> clong) list" where
  "queue_abs st =
     map (\<lambda>k. slot_content (snd st)
                (m_Queue (fst st) ! ((m_ReadIndex (fst st) + k) mod m_QueueIndexSize (fst st))))
       [0..<pending (fst st)]"

subsection \<open>Invariant\<close>

text \<open>
  The pending messages \<open>xs\<close> lie back to back in the byte ring from the virtual address
  \<open>W0\<close>, and their descriptors in the descriptor ring from the virtual index \<open>E0\<close>.
\<close>

definition offs :: "(bytes \<times> clong) list \<Rightarrow> nat \<Rightarrow> nat" where
  "offs xs k = sum_list (map (length \<circ> fst) (take k xs))"

definition entry_holds :: "circular_buffer \<Rightarrow> nat \<Rightarrow> nat \<Rightarrow> bytes \<times> clong \<Rightarrow> bool" where
  "entry_holds cb e S x \<longleftrightarrow>
     (\<exists>p. m_EntryBuffer cb ! e = \<lparr>message = Some p, length_of = length (fst x), player_id = snd x\<rparr> \<and>
          p \<le> m_Size cb \<and> p mod m_Size cb = S mod m_Size cb) \<and>
     length (fst x) \<le> m_Size cb \<and> (\<forall>i < length (fst x). vbyte cb (S + i) = fst x ! i)"

definition queue_holds ::
    "nat \<Rightarrow> nat \<Rightarrow> (bytes \<times> clong) list \<Rightarrow> message_queue \<Rightarrow> circular_buffer \<Rightarrow> bool" where
  "queue_holds W0 E0 xs q cb \<longleftrightarrow>
     cb_wf cb \<and> at_vpos (W0 + offs xs (length xs)) cb \<and>
     m_EntryIndex cb = (E0 + length xs) mod m_MessageSlots cb \<and>
     m_ReadIndex q < m_QueueIndexSize q \<and> length xs < m_QueueIndexSize q \<and>
     length xs \<le> m_MessageSlots cb \<and> offs xs (length xs) \<le> m_Size cb \<and>
     m_WriteIndex q = (m_ReadIndex q + length xs) mod m_QueueIndexSize q \<and>
     (\<forall>k < length xs.
        m_Queue q ! ((m_ReadIndex q + k) mod m_QueueIndexSize q) =
          Some ((E0 + k) mod m_MessageSlots cb) \<and>
        entry_holds cb ((E0 + k) mod m_MessageSlots cb) (W0 + offs xs k) (xs ! k))"

definition queue_inv :: "queue_state \<Rightarrow> bool" where
  "queue_inv st \<longleftrightarrow> (\<exists>W0 E0 xs. queue_holds W0 E0 xs (fst st) (snd st))"

lemma mod_shift_neq:
  assumes "(k::nat) < n" and "n - k < m"
  shows "(a + k) mod m \<noteq> (a + n) mod m"
proof
  assume "(a + k) mod m = (a + n) mod m"
  then have "m dvd (a + n) - (a + k)"
    using assms(1) by (metis mod_eq_dvd_iff_nat add_le_cancel_left less_imp_le)
  then have "m dvd n - k" by simp
  with assms show False by (auto dest: dvd_imp_le)
qed

lemma pending_queue_holds:
  assumes "queue_holds W0 E0 xs q cb"
  shows "pending q = length xs"
proof -
  let ?N = "m_QueueIndexSize q"
  have r: "m_ReadIndex q < ?N" and l: "length xs < ?N"
    and w: "m_WriteIndex q = (m_ReadIndex q + length xs) mod ?N"
    using assms by (auto simp: queue_holds_def)
  show ?thesis using ring_distance [OF r l] by (simp add: pending_def w)
qed

lemma slot_content_entry_holds:
  assumes "cb_wf cb" and "entry_holds cb e S x"
  shows "slot_content cb (Some e) = x"
    and "cb_Read (message (m_EntryBuffer cb ! e)) (length (fst x)) cb =
         Some (Some (fst x), cb\<lparr>cb_EntriesInQueue := cb_EntriesInQueue cb - 1\<rparr>)"
proof -
  obtain p where e: "m_EntryBuffer cb ! e = \<lparr>message = Some p, length_of = length (fst x), player_id = snd x\<rparr>"
    and p: "p \<le> m_Size cb" "p mod m_Size cb = S mod m_Size cb" and l: "length (fst x) \<le> m_Size cb"
    and b: "\<forall>i < length (fst x). vbyte cb (S + i) = fst x ! i"
    using assms(2) by (auto simp: entry_holds_def)
  have "map (\<lambda>k. vbyte cb (S + k)) [0..<length (fst x)] = fst x"
    using b by (intro nth_equalityI) auto
  then have rd: "cb_Read (Some p) (length (fst x)) cb =
      Some (Some (fst x), cb\<lparr>cb_EntriesInQueue := cb_EntriesInQueue cb - 1\<rparr>)"
    using cb_Read_virtual [OF assms(1) p(1) l p(2)] by simp
  then show "cb_Read (message (m_EntryBuffer cb ! e)) (length (fst x)) cb =
         Some (Some (fst x), cb\<lparr>cb_EntriesInQueue := cb_EntriesInQueue cb - 1\<rparr>)"
    by (simp add: e)
  from rd show "slot_content cb (Some e) = x" by (simp add: slot_content_def e)
qed

lemma queue_abs_holds:
  assumes "queue_holds W0 E0 xs q cb"
  shows "queue_abs (q, cb) = xs"
proof (rule nth_equalityI)
  show "length (queue_abs (q, cb)) = length xs"
    using pending_queue_holds [OF assms] by (simp add: queue_abs_def)
  fix k assume "k < length (queue_abs (q, cb))"
  then have k: "k < length xs" using pending_queue_holds [OF assms] by (simp add: queue_abs_def)
  have wf: "cb_wf cb" and slot: "m_Queue q ! ((m_ReadIndex q + k) mod m_QueueIndexSize q) =
          Some ((E0 + k) mod m_MessageSlots cb)"
    and e: "entry_holds cb ((E0 + k) mod m_MessageSlots cb) (W0 + offs xs k) (xs ! k)"
    using assms k by (auto simp: queue_holds_def)
  have "queue_abs (q, cb) ! k = slot_content cb (m_Queue q ! ((m_ReadIndex q + k) mod m_QueueIndexSize q))"
    using k pending_queue_holds [OF assms] by (simp add: queue_abs_def)
  also have "\<dots> = xs ! k" using slot_content_entry_holds(1) [OF wf e] slot by simp
  finally show "queue_abs (q, cb) ! k = xs ! k" .
qed

lemma offs_snoc: "offs (xs @ [x]) (length xs) = offs xs (length xs)"
  "offs (xs @ [x]) (Suc (length xs)) = offs xs (length xs) + length (fst x)"
  "k \<le> length xs \<Longrightarrow> offs (xs @ [x]) k = offs xs k"
  by (simp_all add: offs_def)

lemma offs_Cons: "offs (x # xs) (Suc k) = length (fst x) + offs xs k"
  by (simp add: offs_def)

lemma offs_le: "k < length xs \<Longrightarrow> offs xs k + length (fst (xs ! k)) \<le> offs xs (length xs)"
proof (induction xs arbitrary: k)
  case Nil
  then show ?case by simp
next
  case (Cons x xs)
  then show ?case by (cases k) (auto simp: offs_Cons offs_def)
qed

subsection \<open>Adding\<close>

text \<open>The bytes and the descriptor of a new message leave every pending message as it is.\<close>

lemma entry_holds_after_write:
  assumes wf: "cb_wf cb" and w: "cb_Write b cb = Some (s, cb')" and b: "length b \<le> m_Size cb"
    and W: "at_vpos W cb" and S: "S + length (fst x) \<le> W" "W + length b \<le> S + m_Size cb"
    and e: "entry_holds cb e S x"
  shows "entry_holds cb' e S x"
proof -
  have "vbyte cb' (S + i) = vbyte cb (S + i)" if "i < length (fst x)" for i
    using that S by (intro cb_Write_virtual(3) [OF wf b w W]) auto
  then show ?thesis using e cb_Write_frame [OF w] by (simp add: entry_holds_def)
qed

lemma entry_holds_update_other:
  "e \<noteq> e' \<Longrightarrow> entry_holds (cb\<lparr>m_EntryBuffer := (m_EntryBuffer cb)[e' := v]\<rparr>) e S x = entry_holds cb e S x"
  by (simp add: entry_holds_def m_Size_def vbyte_def)

lemma GetNextEntry_ring:
  assumes "cb_wf cb" and "m_EntryIndex cb = n mod m_MessageSlots cb"
  shows "\<exists>cb'. GetNextEntry tick cb = (n mod m_MessageSlots cb, cb') \<and> cb_wf cb' \<and>
    m_EntryIndex cb' = Suc n mod m_MessageSlots cb \<and> m_Buffer cb' = m_Buffer cb \<and>
    m_WritePtr cb' = m_WritePtr cb \<and> m_EntryBuffer cb' = m_EntryBuffer cb"
proof -
  obtain e cb' where g: "GetNextEntry tick cb = (e, cb')" by (cases "GetNextEntry tick cb")
  have "m_EntryIndex cb' = Suc n mod m_MessageSlots cb"
    using assms g by (auto simp: GetNextEntry_def Let_def cb_wf_def mod_Suc)
  moreover have "e = n mod m_MessageSlots cb" using assms g by (auto simp: GetNextEntry_def Let_def)
  ultimately show ?thesis using GetNextEntry_wf [OF assms(1) g] g by auto
qed

lemma entry_holds_cong:
  "m_Buffer cb' = m_Buffer cb \<Longrightarrow> m_EntryBuffer cb' = m_EntryBuffer cb \<Longrightarrow>
   entry_holds cb' e S x = entry_holds cb e S x"
  by (simp add: entry_holds_def m_Size_def vbyte_def)

lemma Add_holds:
  assumes h: "queue_holds W0 E0 xs q cb" and N: "Suc (length xs) < m_QueueIndexSize q"
    and E: "length xs < m_MessageSlots cb" and sz: "offs xs (length xs) + length b \<le> m_Size cb"
  shows "\<exists>p q' cb'. Add tick b pid (q, cb) = Some (p, q', cb') \<and>
           queue_holds W0 E0 (xs @ [(b, pid)]) q' cb' \<and>
           m_QueueIndexSize q' = m_QueueIndexSize q \<and> m_MessageSlots cb' = m_MessageSlots cb \<and>
           m_Size cb' = m_Size cb"
proof -
  let ?n = "length xs" and ?W = "W0 + offs xs (length xs)" and ?M = "m_MessageSlots cb"
  let ?e = "(E0 + length xs) mod m_MessageSlots cb" and ?Q = "m_QueueIndexSize q"
  have wf: "cb_wf cb" and vp: "at_vpos ?W cb" and ei: "m_EntryIndex cb = ?e"
    and r: "m_ReadIndex q < ?Q" and wi: "m_WriteIndex q = (m_ReadIndex q + ?n) mod ?Q"
    and ent: "\<And>k. k < ?n \<Longrightarrow> m_Queue q ! ((m_ReadIndex q + k) mod ?Q) = Some ((E0 + k) mod ?M) \<and>
        entry_holds cb ((E0 + k) mod ?M) (W0 + offs xs k) (xs ! k)"
    using h by (auto simp: queue_holds_def)
  have M0: "0 < ?M" using wf by (simp add: cb_wf_def)
  obtain cb1 where g: "GetNextEntry tick cb = (?e, cb1)" and wf1: "cb_wf cb1"
    and ei1: "m_EntryIndex cb1 = Suc (E0 + ?n) mod ?M" and b1: "m_Buffer cb1 = m_Buffer cb"
    and wp1: "m_WritePtr cb1 = m_WritePtr cb" and eb1: "m_EntryBuffer cb1 = m_EntryBuffer cb"
    using GetNextEntry_ring [OF wf ei] by blast
  have s1: "m_Size cb1 = m_Size cb" and M1: "m_MessageSlots cb1 = ?M"
    using b1 eb1 by (simp_all add: m_Size_def m_MessageSlots_def)
  have lb: "length b \<le> m_Size cb1" using sz s1 by simp
  have vp1: "at_vpos ?W cb1" using vp wp1 s1 by (simp add: at_vpos_def)
  obtain cb2 where w: "cb_Write b cb1 = Some (m_WritePtr cb1, cb2)"
    using cb_Write_defined [OF wf1 lb] by blast
  note fr = cb_Write_frame [OF w] and v = cb_Write_virtual [OF wf1 lb w vp1]
  define new where "new = \<lparr>message = Some (m_WritePtr cb1), length_of = length b, player_id = pid\<rparr>"
  define cb3 where "cb3 = cb2\<lparr>m_EntryBuffer := (m_EntryBuffer cb2)[?e := new]\<rparr>"
  have s3: "m_Size cb3 = m_Size cb" and M3: "m_MessageSlots cb3 = ?M"
    using fr s1 M1 eb1 by (simp_all add: cb3_def m_Size_def m_MessageSlots_def)
  obtain q3 where add: "Add tick b pid (q, cb) = Some (m_WritePtr cb1, q3, cb3)"
    and q3: "m_Queue q3 = (m_Queue q)[m_WriteIndex q := Some ?e]" "m_ReadIndex q3 = m_ReadIndex q"
      "m_WriteIndex q3 = (if ?Q \<le> m_WriteIndex q + 1 then 0 else m_WriteIndex q + 1)"
    using g w by (auto simp: Add_def Let_def push_slot_def cb3_def new_def m_QueueIndexSize_def)
  have Q3: "m_QueueIndexSize q3 = ?Q" using q3(1) by (simp add: m_QueueIndexSize_def)
  have old: "entry_holds cb3 ((E0 + k) mod ?M) (W0 + offs xs k) (xs ! k)" if k: "k < ?n" for k
  proof -
    have ne: "(E0 + k) mod ?M \<noteq> ?e" using k E by (intro mod_shift_neq) auto
    have "entry_holds cb1 ((E0 + k) mod ?M) (W0 + offs xs k) (xs ! k)"
      using ent [OF k] b1 eb1 by (simp add: entry_holds_cong [of cb1 cb])
    then have "entry_holds cb2 ((E0 + k) mod ?M) (W0 + offs xs k) (xs ! k)"
      using offs_le [OF k] sz s1
      by (intro entry_holds_after_write [OF wf1 w lb vp1]) auto
    then show ?thesis using ne by (simp add: cb3_def entry_holds_update_other)
  qed
  have "?e < length (m_EntryBuffer cb2)" using fr eb1 M0 by (simp add: m_MessageSlots_def)
  moreover have "m_WritePtr cb1 \<le> m_Size cb1" using wf1 by (simp add: cb_wf_def)
  ultimately have newh: "entry_holds cb3 ?e ?W (b, pid)"
    using vp1 v(2) lb fr by (simp add: entry_holds_def cb3_def new_def at_vpos_def m_Size_def vbyte_def)
  have "at_vpos (?W + length b) cb3" and "cb_wf cb3" and "m_EntryIndex cb3 = Suc (E0 + ?n) mod ?M"
    using v(1) cb_Write_wf [OF wf1 lb w] fr ei1
    by (auto simp: at_vpos_def cb3_def cb_wf_def m_Size_def m_MessageSlots_def)
  moreover have "m_WriteIndex q3 = (m_ReadIndex q3 + Suc ?n) mod ?Q"
    using q3 wi r ring_succ [of "m_WriteIndex q" ?Q] by (simp add: mod_Suc_eq)
  moreover have "m_Queue q3 ! ((m_ReadIndex q3 + k) mod ?Q) = Some ((E0 + k) mod ?M) \<and>
      entry_holds cb3 ((E0 + k) mod ?M) (W0 + offs (xs @ [(b, pid)]) k) ((xs @ [(b, pid)]) ! k)"
    if "k < Suc ?n" for k
  proof (cases "k = ?n")
    case True
    have "m_WriteIndex q < length (m_Queue q)"
      using r by (subst wi) (auto simp: m_QueueIndexSize_def intro!: mod_less_divisor)
    then show ?thesis using True newh q3 wi by (simp add: offs_snoc)
  next
    case False
    then have k: "k < ?n" using that by simp
    have "(m_ReadIndex q + k) mod ?Q \<noteq> m_WriteIndex q"
      using k N wi mod_shift_neq [of k ?n ?Q "m_ReadIndex q"] by auto
    then show ?thesis using k ent [OF k] old [OF k] q3 by (simp add: nth_append offs_snoc)
  qed
  ultimately have "queue_holds W0 E0 (xs @ [(b, pid)]) q3 cb3"
    using r N E sz q3(2) Q3 s3 M3 by (simp add: queue_holds_def offs_snoc add.assoc)
  then show ?thesis using add Q3 s3 M3 by auto
qed

subsection \<open>Taking\<close>

lemma CheckQueue_holds:
  assumes h: "queue_holds W0 E0 ((b, pid) # xs) q cb" and sz: "length b \<le> buffer_size"
  shows "\<exists>q' cb'. CheckQueue buffer_size (q, cb) =
           Some (\<lparr>cr_success = True, cr_length = length b, cr_player_id = pid, cr_data = Some b\<rparr>, q', cb') \<and>
           queue_holds (W0 + length b) (E0 + 1) xs q' cb' \<and>
           m_QueueIndexSize q' = m_QueueIndexSize q \<and> m_MessageSlots cb' = m_MessageSlots cb \<and>
           m_Size cb' = m_Size cb"
proof -
  let ?Q = "m_QueueIndexSize q" and ?M = "m_MessageSlots cb" and ?r = "m_ReadIndex q"
  let ?e = "E0 mod m_MessageSlots cb" and ?x = "(b, pid)"
  have wf: "cb_wf cb" and r: "?r < ?Q" and len: "Suc (length xs) < ?Q"
    and wi: "m_WriteIndex q = (?r + Suc (length xs)) mod ?Q" and lM: "Suc (length xs) \<le> ?M"
    and ent: "\<And>k. k < Suc (length xs) \<Longrightarrow> m_Queue q ! ((?r + k) mod ?Q) = Some ((E0 + k) mod ?M) \<and>
        entry_holds cb ((E0 + k) mod ?M) (W0 + offs (?x # xs) k) ((?x # xs) ! k)"
    using h by (auto simp: queue_holds_def)
  have "(?r + 0) mod ?Q \<noteq> (?r + Suc (length xs)) mod ?Q" using len by (intro mod_shift_neq) auto
  then have ne: "?r \<noteq> m_WriteIndex q" using wi r by simp
  have slot: "m_Queue q ! ?r = Some ?e" and eh: "entry_holds cb ?e W0 ?x"
    using ent [of 0] r by (auto simp: offs_def)
  obtain p where en: "m_EntryBuffer cb ! ?e = \<lparr>message = Some p, length_of = length b, player_id = pid\<rparr>"
    using eh by (auto simp: entry_holds_def)
  have rd: "cb_Read (Some p) (length b) cb =
      Some (Some b, cb\<lparr>cb_EntriesInQueue := cb_EntriesInQueue cb - 1\<rparr>)"
    using slot_content_entry_holds(2) [OF wf eh] en by simp
  obtain q' cb' where c: "CheckQueue buffer_size (q, cb) =
      Some (\<lparr>cr_success = True, cr_length = length b, cr_player_id = pid, cr_data = Some b\<rparr>, q', cb')"
    and q': "m_Queue q' = (m_Queue q)[?r := None]" "m_WriteIndex q' = m_WriteIndex q"
      "m_ReadIndex q' = (if ?Q \<le> ?r + 1 then 0 else ?r + 1)"
    and cb': "m_Buffer cb' = m_Buffer cb" "m_WritePtr cb' = m_WritePtr cb" "m_EntryIndex cb' = m_EntryIndex cb"
      "m_EntryBuffer cb' = (m_EntryBuffer cb)[?e := \<lparr>message = None, length_of = 0, player_id = pid\<rparr>]"
    using ne slot en rd sz by (auto simp: CheckQueue_def Let_def m_QueueIndexSize_def)
  have r': "m_ReadIndex q' = Suc ?r mod ?Q" using q'(3) r by (auto simp: mod_Suc)
  have Q': "m_QueueIndexSize q' = ?Q" and M': "m_MessageSlots cb' = ?M" and S': "m_Size cb' = m_Size cb"
    using q' cb' by (simp_all add: m_QueueIndexSize_def m_MessageSlots_def m_Size_def)
  have idx: "(m_ReadIndex q' + k) mod ?Q = (?r + Suc k) mod ?Q" for k
    using r' by (simp add: mod_add_left_eq)
  have "m_Queue q' ! ((m_ReadIndex q' + k) mod ?Q) = Some ((E0 + 1 + k) mod ?M) \<and>
      entry_holds cb' ((E0 + 1 + k) mod ?M) (W0 + length b + offs xs k) (xs ! k)" if k: "k < length xs" for k
  proof -
    have "(?r + Suc k) mod ?Q \<noteq> ?r"
      using mod_shift_neq [of 0 "Suc k" ?Q ?r] k len r by auto
    moreover have "(E0 + Suc k) mod ?M \<noteq> ?e"
      using mod_shift_neq [of 0 "Suc k" ?M E0] k lM by auto
    moreover have "m_Queue q ! ((?r + Suc k) mod ?Q) = Some ((E0 + Suc k) mod ?M)"
      and "entry_holds cb ((E0 + Suc k) mod ?M) (W0 + length b + offs xs k) (xs ! k)"
      using ent [of "Suc k"] k by (auto simp: offs_Cons add.assoc)
    ultimately show ?thesis using q'(1) cb'
      by (simp add: idx entry_holds_def m_Size_def vbyte_def)
  qed
  moreover have "m_WriteIndex q' = (m_ReadIndex q' + length xs) mod ?Q" using wi q'(2) idx by simp
  moreover have "cb_wf cb'" and "at_vpos (W0 + length b + offs xs (length xs)) cb'"
    and "m_EntryIndex cb' = (E0 + 1 + length xs) mod ?M" and "offs xs (length xs) \<le> m_Size cb"
    using h cb' by (simp_all add: queue_holds_def cb_wf_def at_vpos_def m_Size_def m_MessageSlots_def
        offs_Cons add.assoc)
  ultimately have "queue_holds (W0 + length b) (E0 + 1) xs q' cb'"
    using len lM r r' Q' M' S' by (simp add: queue_holds_def)
  then show ?thesis using c Q' M' S' by blast
qed

section \<open>The model satisfies the contract\<close>

definition mq_enq :: "u32 \<Rightarrow> bytes \<times> clong \<Rightarrow> queue_state \<Rightarrow> queue_state option" where
  "mq_enq tick x st = map_option snd (Add tick (fst x) (snd x) st)"

definition mq_deq :: "queue_state \<Rightarrow> ((bytes \<times> clong) \<times> queue_state) option" where
  "mq_deq st =
     (case CheckQueue (m_Size (snd st)) st of
        Some (r, st') \<Rightarrow> (case cr_data r of Some d \<Rightarrow> Some ((d, cr_player_id r), st') | None \<Rightarrow> None)
      | None \<Rightarrow> None)"

definition mq_slots :: "queue_state \<Rightarrow> nat" where
  "mq_slots st = min (m_QueueIndexSize (fst st) - 1) (m_MessageSlots (snd st))"

lemma offs_length: "offs xs (length xs) = sum_list (map (\<lambda>x. length (fst x)) xs)"
  by (simp add: offs_def comp_def)

interpretation mq: bounded_queue queue_abs queue_inv "\<lambda>x. length (fst x)" mq_slots
  "\<lambda>st. m_Size (snd st)" "mq_enq tick" mq_deq for tick
proof
  fix st :: queue_state and x :: "bytes \<times> clong" and tick
  assume inv: "queue_inv st" and sl: "Suc (length (queue_abs st)) \<le> mq_slots st"
    and sz: "sum_list (map (\<lambda>x. length (fst x)) (queue_abs st)) + length (fst x) \<le> m_Size (snd st)"
  obtain q cb where st: "st = (q, cb)" by (cases st)
  obtain W0 E0 xs where h: "queue_holds W0 E0 xs q cb" using inv by (auto simp: queue_inv_def st)
  have xs: "queue_abs st = xs" using queue_abs_holds [OF h] st by simp
  have "Suc (length xs) < m_QueueIndexSize q" and "length xs < m_MessageSlots cb"
    and "offs xs (length xs) + length (fst x) \<le> m_Size cb"
    using sl sz xs st by (auto simp: mq_slots_def offs_length)
  then obtain p q' cb' where a: "Add tick (fst x) (snd x) (q, cb) = Some (p, q', cb')"
    and h': "queue_holds W0 E0 (xs @ [x]) q' cb'"
    and fr: "m_QueueIndexSize q' = m_QueueIndexSize q" "m_MessageSlots cb' = m_MessageSlots cb"
      "m_Size cb' = m_Size cb"
    using Add_holds [OF h, of "fst x" tick "snd x"] by auto
  show "\<exists>s'. mq_enq tick x st = Some s' \<and> queue_inv s' \<and> queue_abs s' = queue_abs st @ [x] \<and>
      mq_slots s' = mq_slots st \<and> m_Size (snd s') = m_Size (snd st)"
    using a h' fr xs st queue_abs_holds [OF h'] by (auto simp: mq_enq_def queue_inv_def mq_slots_def)
next
  fix st :: queue_state and x :: "bytes \<times> clong" and xs assume inv: "queue_inv st" and abs: "queue_abs st = x # xs"
  obtain q cb where st: "st = (q, cb)" by (cases st)
  obtain W0 E0 where h: "queue_holds W0 E0 (x # xs) q cb"
    using inv abs queue_abs_holds st by (auto simp: queue_inv_def)
  have "length (fst x) \<le> m_Size cb" using h by (auto simp: queue_holds_def entry_holds_def)
  then obtain q' cb' where c: "CheckQueue (m_Size cb) (q, cb) = Some (\<lparr>cr_success = True,
      cr_length = length (fst x), cr_player_id = snd x, cr_data = Some (fst x)\<rparr>, q', cb')"
    and h': "queue_holds (W0 + length (fst x)) (E0 + 1) xs q' cb'"
    and fr: "m_QueueIndexSize q' = m_QueueIndexSize q" "m_MessageSlots cb' = m_MessageSlots cb"
      "m_Size cb' = m_Size cb"
    using CheckQueue_holds [of W0 E0 "fst x" "snd x" xs q cb "m_Size cb"] h by auto
  show "\<exists>s'. mq_deq st = Some (x, s') \<and> queue_inv s' \<and> queue_abs s' = xs \<and>
      mq_slots s' = mq_slots st \<and> m_Size (snd s') = m_Size (snd st)"
    using c h' fr st queue_abs_holds [OF h'] by (auto simp: mq_deq_def queue_inv_def mq_slots_def)
next
  fix st :: queue_state assume inv: "queue_inv st" and abs: "queue_abs st = []"
  obtain q cb where st: "st = (q, cb)" by (cases st)
  obtain W0 E0 where "queue_holds W0 E0 [] q cb"
    using inv abs queue_abs_holds st by (auto simp: queue_inv_def)
  then have "m_ReadIndex q = m_WriteIndex q" by (simp add: queue_holds_def)
  then show "mq_deq st = None" by (simp add: mq_deq_def CheckQueue_def st Let_def)
qed

lemma queue_inv_new:
  assumes "mem \<noteq> []" and "0 < n"
  shows "queue_inv (new_MessageQueue k chk, new_CircularBuffer mem junk n c)"
    and "queue_abs (new_MessageQueue k chk, new_CircularBuffer mem junk n c) = []"
proof -
  have "queue_holds 0 0 [] (new_MessageQueue k chk) (new_CircularBuffer mem junk n c)"
    using assms by (auto simp: queue_holds_def cb_wf_def new_CircularBuffer_def new_MessageQueue_def
        m_Size_def m_MessageSlots_def m_QueueIndexSize_def at_vpos_def offs_def)
  then show "queue_inv (new_MessageQueue k chk, new_CircularBuffer mem junk n c)"
    and "queue_abs (new_MessageQueue k chk, new_CircularBuffer mem junk n c) = []"
    using queue_abs_holds by (auto simp: queue_inv_def)
qed

section \<open>Runs of operations\<close>

fun Add_all :: "u32 \<Rightarrow> (bytes \<times> clong) list \<Rightarrow> queue_state \<Rightarrow> queue_state option" where
  "Add_all tick [] st = Some st"
| "Add_all tick (x # xs) st =
     (case Add tick (fst x) (snd x) st of None \<Rightarrow> None | Some (_, st') \<Rightarrow> Add_all tick xs st')"

fun CheckQueue_n :: "nat \<Rightarrow> queue_state \<Rightarrow> ((bytes \<times> clong) list \<times> queue_state) option" where
  "CheckQueue_n 0 st = Some ([], st)"
| "CheckQueue_n (Suc n) st =
     (case CheckQueue (m_Size (snd st)) st of
        None \<Rightarrow> None
      | Some (r, st') \<Rightarrow>
          (case cr_data r of None \<Rightarrow> None
           | Some d \<Rightarrow> (case CheckQueue_n n st' of None \<Rightarrow> None
                        | Some (xs, t) \<Rightarrow> Some ((d, cr_player_id r) # xs, t))))"

lemma Add_all_enq_all: "Add_all tick xs st = mq.enq_all tick xs st"
  by (induction xs arbitrary: st) (auto simp: mq_enq_def split: option.splits)

lemma CheckQueue_n_deq_n: "CheckQueue_n n st = mq.deq_n n st"
  by (induction n arbitrary: st) (auto simp: mq_deq_def split: option.splits)

lemma Add_indices:
  assumes "Add tick b pid (q, cb) = Some (p, q', cb')" and "m_WriteIndex q < m_QueueIndexSize q"
  shows "m_QueueIndexSize q' = m_QueueIndexSize q \<and> m_ReadIndex q' = m_ReadIndex q \<and>
         m_WriteIndex q' = Suc (m_WriteIndex q) mod m_QueueIndexSize q"
  using assms
  by (auto simp: Add_def Let_def push_slot_def m_QueueIndexSize_def mod_Suc bind_eq_Some_conv
      split: prod.splits if_splits)

lemma Add_all_indices:
  "Add_all tick xs (q, cb) = Some (q', cb') \<Longrightarrow> m_WriteIndex q < m_QueueIndexSize q \<Longrightarrow>
   m_QueueIndexSize q' = m_QueueIndexSize q \<and> m_ReadIndex q' = m_ReadIndex q \<and>
   m_WriteIndex q' = (m_WriteIndex q + length xs) mod m_QueueIndexSize q"
proof (induction xs arbitrary: q cb)
  case Nil
  then show ?case by simp
next
  case (Cons x xs)
  then obtain p q1 cb1 where a: "Add tick (fst x) (snd x) (q, cb) = Some (p, q1, cb1)"
    and r: "Add_all tick xs (q1, cb1) = Some (q', cb')"
    by (auto split: option.splits)
  note i = Add_indices [OF a Cons.prems(2)]
  have "m_WriteIndex q1 < m_QueueIndexSize q1" using i Cons.prems(2) by simp
  with Cons.IH [OF r] i show ?case by (simp add: mod_Suc_eq mod_add_left_eq)
qed

text \<open>\<^verbatim>\<open>AddHead\<close> does what \<^verbatim>\<open>Add\<close> does with the player id of the recycled descriptor.\<close>

definition stale_player_id :: "circular_buffer \<Rightarrow> clong" where
  "stale_player_id cb = player_id (m_EntryBuffer cb ! m_EntryIndex cb)"

lemma AddHead_like_Add:
  assumes "Add tick b (stale_player_id cb) (q, cb) = Some (p, qa, cba)"
  shows "\<exists>qh. AddHead tick b (q, cb) = Some (qh, cba) \<and> m_Queue qh = m_Queue qa \<and>
           m_ReadIndex qh = m_ReadIndex qa \<and> m_WriteIndex qh = m_WriteIndex qa"
proof -
  obtain e cb1 where g: "GetNextEntry tick cb = (e, cb1)" by (cases "GetNextEntry tick cb")
  have e: "e = m_EntryIndex cb" "m_EntryBuffer cb1 = m_EntryBuffer cb"
    using g by (auto simp: GetNextEntry_def Let_def)
  obtain s cb2 where w: "cb_Write b cb1 = Some (s, cb2)"
    using assms g by (auto simp: Add_def Let_def bind_eq_Some_conv)
  have eb: "m_EntryBuffer cb2 = m_EntryBuffer cb" using cb_Write_frame [OF w] e by simp
  show ?thesis using assms g w e eb
    by (cases "m_EntryBuffer cb ! m_EntryIndex cb") (auto simp: Add_def AddHead_def Let_def push_slot_def stale_player_id_def m_QueueIndexSize_def)
qed

lemma queue_holds_cong:
  "m_Queue q = m_Queue q' \<Longrightarrow> m_ReadIndex q = m_ReadIndex q' \<Longrightarrow> m_WriteIndex q = m_WriteIndex q' \<Longrightarrow>
   queue_holds W E xs q cb = queue_holds W E xs q' cb"
  by (simp add: queue_holds_def m_QueueIndexSize_def)

section \<open>Properties\<close>

text \<open>C11: first in, first out. Adding any messages to a queue that satisfies its
  invariant and then taking as many as are pending returns the messages that were
  there and the added ones, in order, with their player ids, and leaves the queue
  empty, as long as the messages fit: one slot of the pointer ring stays free, the
  descriptors suffice and the bytes fit in the byte ring.\<close>

theorem message_queue_fifo:
  assumes "queue_inv st"
    and "length (queue_abs st) + length xs \<le> mq_slots st"
    and "sum_list (map (\<lambda>x. length (fst x)) (queue_abs st)) +
         sum_list (map (\<lambda>x. length (fst x)) xs) \<le> m_Size (snd st)"
  shows "\<exists>s1 s2. Add_all tick xs st = Some s1 \<and>
           CheckQueue_n (length (queue_abs st) + length xs) s1 = Some (queue_abs st @ xs, s2) \<and>
           mq_deq s2 = None"
  using mq.fifo [OF assms] by (simp add: Add_all_enq_all CheckQueue_n_deq_n)

theorem message_queue_fifo_witness:
  "\<exists>s1 s2. Add_all 9 [([1, 2], 5), ([3], 6)]
       (new_MessageQueue 4 True, new_CircularBuffer (replicate 8 0) 0 4 True) = Some s1 \<and>
     CheckQueue_n (Suc 1) s1 = Some ([([1, 2], 5), ([3], 6)], s2) \<and> mq_deq s2 = None"
proof -
  let ?st = "(new_MessageQueue 4 True, new_CircularBuffer (replicate 8 0) 0 4 True)"
  have "mq_slots ?st = 3" and "m_Size (snd ?st) = 8"
    by (simp_all add: mq_slots_def new_MessageQueue_def new_CircularBuffer_def m_QueueIndexSize_def
        m_MessageSlots_def m_Size_def)
  then show ?thesis
    using message_queue_fifo [of ?st "[([1, 2], 5), ([3], 6)]" 9]
      queue_inv_new [of "replicate 8 0" 4 4 True 0 True]
    by (simp del: Add_all.simps CheckQueue_n.simps)
qed

text \<open>The pointer ring does not notice that it is full: after as many successful
  \<^verbatim>\<open>Add\<close>s as it has slots, starting from an empty queue, the queue looks empty and
  \<^verbatim>\<open>CheckQueue\<close> returns none of the messages.\<close>

theorem full_ring_looks_empty:
  assumes "m_ReadIndex q = m_WriteIndex q" and "m_WriteIndex q < m_QueueIndexSize q"
    and "length xs = m_QueueIndexSize q" and "Add_all tick xs (q, cb) = Some st"
  shows "CheckQueue B st =
    Some (\<lparr>cr_success = False, cr_length = 0, cr_player_id = 0, cr_data = None\<rparr>, st)"
proof -
  obtain q' cb' where st: "st = (q', cb')" by (cases st)
  have "m_WriteIndex q' = m_ReadIndex q'"
    using Add_all_indices [of tick xs q cb q' cb'] assms st by simp
  then show ?thesis by (simp add: CheckQueue_def st Let_def)
qed

theorem full_ring_looks_empty_witness:
  "\<exists>st. Add_all 9 [([1], 5), ([2], 6)]
       (new_MessageQueue 2 True, new_CircularBuffer (replicate 8 0) 0 4 True) = Some st \<and>
     CheckQueue 100 st = Some (\<lparr>cr_success = False, cr_length = 0, cr_player_id = 0, cr_data = None\<rparr>, st)"
proof -
  let ?q = "new_MessageQueue 2 True" and ?cb = "new_CircularBuffer (replicate 8 0) 0 4 True"
  obtain st where "Add_all 9 [([1], 5), ([2], 6)] (?q, ?cb) = Some st"
    by (simp add: Add_def GetNextEntry_def cb_Write_def poke_def push_slot_def Let_def
        new_MessageQueue_def new_CircularBuffer_def m_Size_def m_MessageSlots_def
        m_QueueIndexSize_def)
  then show ?thesis
    using full_ring_looks_empty [of ?q "[([1], 5), ([2], 6)]" 9 ?cb st 100]
    by (simp add: new_MessageQueue_def m_QueueIndexSize_def del: Add_all.simps)
qed

text \<open>A message longer than the caller's buffer is lost: \<^verbatim>\<open>CheckQueue\<close> fails,
  reports the length that was needed, and the message is no longer pending.\<close>

theorem CheckQueue_drops_long:
  assumes "queue_inv st" and "queue_abs st = (b, pid) # xs" and "B < length b"
  shows "\<exists>st'. CheckQueue B st =
      Some (\<lparr>cr_success = False, cr_length = length b, cr_player_id = 0, cr_data = None\<rparr>, st') \<and>
      pending (fst st') = length xs"
proof -
  obtain q cb where st: "st = (q, cb)" by (cases st)
  obtain W0 E0 where h: "queue_holds W0 E0 ((b, pid) # xs) q cb"
    using assms queue_abs_holds st by (auto simp: queue_inv_def)
  let ?Q = "m_QueueIndexSize q" and ?r = "m_ReadIndex q"
  have r: "?r < ?Q" and len: "Suc (length xs) < ?Q"
    and wi: "m_WriteIndex q = (?r + Suc (length xs)) mod ?Q"
    and slot: "m_Queue q ! (?r mod ?Q) = Some (E0 mod m_MessageSlots cb)"
    and en: "length_of (m_EntryBuffer cb ! (E0 mod m_MessageSlots cb)) = length b"
    using h by (auto simp: queue_holds_def entry_holds_def)
  have ne: "?r \<noteq> m_WriteIndex q"
    using mod_shift_neq [of 0 "Suc (length xs)" ?Q ?r] len r wi by auto
  obtain q' where c: "CheckQueue B st =
      Some (\<lparr>cr_success = False, cr_length = length b, cr_player_id = 0, cr_data = None\<rparr>, q', cb)"
    and q': "length (m_Queue q') = length (m_Queue q)" "m_WriteIndex q' = m_WriteIndex q"
      "m_ReadIndex q' = (if ?Q \<le> ?r + 1 then 0 else ?r + 1)"
    using ne slot en assms(3) r by (auto simp: CheckQueue_def st Let_def m_QueueIndexSize_def)
  have r': "m_ReadIndex q' = Suc ?r mod ?Q" using q'(3) r ring_succ by simp
  then have "m_WriteIndex q' = (m_ReadIndex q' + length xs) mod ?Q"
    using q'(2) wi by (simp add: mod_add_left_eq)
  moreover have "m_ReadIndex q' < ?Q" using q'(3) r by simp
  ultimately have "pending q' = length xs"
    using ring_distance [of "m_ReadIndex q'" ?Q "length xs"] q'(1) len
    by (simp add: pending_def m_QueueIndexSize_def)
  then show ?thesis using c by auto
qed

theorem CheckQueue_drops_long_witness:
  "\<exists>st0 st'. Add_all 9 [([1, 2], 5)]
       (new_MessageQueue 4 True, new_CircularBuffer (replicate 8 0) 0 4 True) = Some st0 \<and>
     CheckQueue 1 st0 =
      Some (\<lparr>cr_success = False, cr_length = 2, cr_player_id = 0, cr_data = None\<rparr>, st') \<and>
     pending (fst st') = 0"
proof -
  let ?st = "(new_MessageQueue 4 True, new_CircularBuffer (replicate 8 0) 0 4 True)"
  have "mq_slots ?st = 3" and "m_Size (snd ?st) = 8"
    by (simp_all add: mq_slots_def new_MessageQueue_def new_CircularBuffer_def m_QueueIndexSize_def
        m_MessageSlots_def m_Size_def)
  then obtain st0 where st0: "Add_all 9 [([1, 2], 5)] ?st = Some st0" "queue_inv st0"
    "queue_abs st0 = [([1, 2], 5)]"
    using mq.enq_all_ok [of ?st "[([1, 2], 5)]" 9] queue_inv_new [of "replicate 8 0" 4 4 True 0 True]
    by (auto simp: Add_all_enq_all)
  show ?thesis
    using CheckQueue_drops_long [OF st0(2,3), of 1] st0(1)
    by (auto simp: numeral_2_eq_2 simp del: Add_all.simps)
qed

text \<open>\<^verbatim>\<open>AddHead\<close> does not add at the head: the message becomes the last pending
  one, and carries the player id that the recycled descriptor had before.\<close>

theorem AddHead_is_tail:
  assumes "queue_inv (q, cb)" and "Suc (length (queue_abs (q, cb))) \<le> mq_slots (q, cb)"
    and "sum_list (map (\<lambda>x. length (fst x)) (queue_abs (q, cb))) + length b \<le> m_Size cb"
  shows "\<exists>st'. AddHead tick b (q, cb) = Some st' \<and> queue_inv st' \<and>
           queue_abs st' = queue_abs (q, cb) @ [(b, stale_player_id cb)]"
proof -
  obtain p qa cba where a: "Add tick b (stale_player_id cb) (q, cb) = Some (p, qa, cba)"
    and i: "queue_inv (qa, cba)" "queue_abs (qa, cba) = queue_abs (q, cb) @ [(b, stale_player_id cb)]"
    using mq.enq_ok [OF assms(1,2), of "(b, stale_player_id cb)" tick] assms(3)
    by (auto simp: mq_enq_def)
  obtain qh where h: "AddHead tick b (q, cb) = Some (qh, cba)" "m_Queue qh = m_Queue qa"
    "m_ReadIndex qh = m_ReadIndex qa" "m_WriteIndex qh = m_WriteIndex qa"
    using AddHead_like_Add [OF a] by blast
  obtain W E xs where w: "queue_holds W E xs qa cba" using i by (auto simp: queue_inv_def)
  then have "queue_holds W E xs qh cba" using queue_holds_cong [of qh qa] h by simp
  then show ?thesis using h i queue_abs_holds w by (auto simp: queue_inv_def)
qed

theorem AddHead_is_tail_witness:
  "\<exists>st'. AddHead 9 [4] (new_MessageQueue 4 True, new_CircularBuffer (replicate 8 0) 0 4 True) = Some st' \<and>
     queue_inv st' \<and> queue_abs st' = [([4], 0)]"
proof -
  let ?q = "new_MessageQueue 4 True" and ?cb = "new_CircularBuffer (replicate 8 0) 0 4 True"
  have "mq_slots (?q, ?cb) = 3" and "m_Size ?cb = 8" and "stale_player_id ?cb = 0"
    by (simp_all add: mq_slots_def new_MessageQueue_def new_CircularBuffer_def m_QueueIndexSize_def
        m_MessageSlots_def m_Size_def stale_player_id_def null_entry_def)
  then show ?thesis
    using AddHead_is_tail [of ?q ?cb "[4]" 9] queue_inv_new [of "replicate 8 0" 4 4 True 0 True]
    by simp
qed

end
