(* ===== verification/IndexBits.thy ===== *)
theory IndexBits
  imports Net7_Prelude
begin

text \<open>
  The bitmaps that record which players and objects are on a list: the player lists of
  \<^verbatim>\<open>PlayerManager\<close> (32-bit words, \<^verbatim>\<open>server/src/PlayerManager.cpp\<close>), the in-range lists
  of \<^verbatim>\<open>Object\<close> (64-bit words, \<^verbatim>\<open>server/src/ObjectClass.cpp\<close>) and the exploration lists
  of \<^verbatim>\<open>StaticMap\<close> (\<^verbatim>\<open>server/src/NavTypeClass.cpp\<close>). The locale \<open>index_set\<close> states what
  a bitmap promises its clients; all three implementations are shown to keep it.
\<close>

section \<open>Word bitmaps\<close>

definition bm_get :: "'a::len word list \<Rightarrow> nat \<Rightarrow> bool" where
  "bm_get xs i \<longleftrightarrow> (xs ! (i div LENGTH('a))) AND push_bit (i mod LENGTH('a)) 1 \<noteq> 0"

definition bm_set :: "'a::len word list \<Rightarrow> nat \<Rightarrow> 'a word list" where
  "bm_set xs i = xs[i div LENGTH('a) := (xs ! (i div LENGTH('a))) OR push_bit (i mod LENGTH('a)) 1]"

definition bm_unset :: "'a::len word list \<Rightarrow> nat \<Rightarrow> 'a word list" where
  "bm_unset xs i = xs[i div LENGTH('a) := (xs ! (i div LENGTH('a))) AND NOT (push_bit (i mod LENGTH('a)) 1)]"

lemma and_single_bit:
  fixes w :: "'a::len word"
  assumes "k < LENGTH('a)"
  shows "w AND push_bit k 1 \<noteq> 0 \<longleftrightarrow> bit w k"
proof -
  have "w AND push_bit k 1 = (if bit w k then push_bit k 1 else 0)"
    by (rule bit_word_eqI) (auto simp: bit_simps)
  moreover have "bit (push_bit k (1 :: 'a word)) k" using assms by (simp add: bit_simps)
  then have "push_bit k 1 \<noteq> (0 :: 'a word)" by (metis bit_0_eq bot_apply bot_bool_def)
  ultimately show ?thesis by simp
qed

lemma bm_get_bit: "bm_get (xs :: 'a::len word list) i \<longleftrightarrow> bit (xs ! (i div LENGTH('a))) (i mod LENGTH('a))"
  unfolding bm_get_def by (rule and_single_bit) simp

lemma length_bm [simp]: "length (bm_set xs i) = length xs" "length (bm_unset xs i) = length xs"
  by (simp_all add: bm_set_def bm_unset_def)

lemma bm_get_set:
  assumes "i div LENGTH('a) < length (xs :: 'a::len word list)"
  shows "bm_get (bm_set xs i) j \<longleftrightarrow> i = j \<or> bm_get xs j"
proof (cases "i div LENGTH('a) = j div LENGTH('a)")
  case True
  then have "i = j \<longleftrightarrow> i mod LENGTH('a) = j mod LENGTH('a)" by (metis div_mult_mod_eq)
  then show ?thesis using True assms
    by (auto simp: bm_get_bit bm_set_def bit_simps)
next
  case False
  then show ?thesis by (auto simp: bm_get_bit bm_set_def)
qed

lemma bm_get_unset:
  assumes "i div LENGTH('a) < length (xs :: 'a::len word list)"
  shows "bm_get (bm_unset xs i) j \<longleftrightarrow> i \<noteq> j \<and> bm_get xs j"
proof (cases "i div LENGTH('a) = j div LENGTH('a)")
  case True
  then have "i = j \<longleftrightarrow> i mod LENGTH('a) = j mod LENGTH('a)" by (metis div_mult_mod_eq)
  then show ?thesis using True assms
    by (auto simp: bm_get_bit bm_unset_def bit_simps)
next
  case False
  then show ?thesis by (auto simp: bm_get_bit bm_unset_def)
qed

section \<open>Player lists\<close>

definition MAX_ONLINE_PLAYERS :: nat where
  "MAX_ONLINE_PLAYERS = 500"

text \<open>The index is the player's \<^verbatim>\<open>GetGameIndex()\<close>; a null player returns at once.\<close>

definition SetIndex :: "nat option \<Rightarrow> u32 list \<Rightarrow> u32 list option" where
  "SetIndex p player_list =
     (case p of None \<Rightarrow> Some player_list
      | Some index \<Rightarrow>
          if index < MAX_ONLINE_PLAYERS
          then (if index div 32 < length player_list
                then Some (player_list[index div 32 :=
                       (player_list ! (index div 32)) OR push_bit (index mod 32) 1])
                else None)
          else Some player_list)"

definition UnSetIndex :: "nat option \<Rightarrow> u32 list \<Rightarrow> u32 list option" where
  "UnSetIndex p player_list =
     (case p of None \<Rightarrow> Some player_list
      | Some index \<Rightarrow>
          if index < MAX_ONLINE_PLAYERS
          then (if index div 32 < length player_list
                then Some (player_list[index div 32 :=
                       (player_list ! (index div 32)) AND (0xFFFFFFFF XOR push_bit (index mod 32) 1)])
                else None)
          else Some player_list)"

text \<open>\<^verbatim>\<open>GetIndex\<close> rejects only indices above \<^verbatim>\<open>MAX_ONLINE_PLAYERS\<close>, not the limit itself.\<close>

definition GetIndex :: "nat option \<Rightarrow> u32 list \<Rightarrow> bool option" where
  "GetIndex p player_list =
     (case p of None \<Rightarrow> Some False
      | Some index \<Rightarrow>
          if MAX_ONLINE_PLAYERS < index then Some False
          else if index div 32 < length player_list
          then Some ((player_list ! (index div 32)) AND push_bit (index mod 32) 1 \<noteq> 0)
          else None)"

section \<open>In-range and exploration lists\<close>

definition Object_SetIndex :: "nat \<Rightarrow> clong list \<Rightarrow> clong list option" where
  "Object_SetIndex m_ObjectIndex index_array =
     (if m_ObjectIndex div 64 < length index_array
      then Some (index_array[m_ObjectIndex div 64 :=
             (index_array ! (m_ObjectIndex div 64)) OR push_bit (m_ObjectIndex mod 64) 1])
      else None)"

definition Object_UnSetIndex :: "nat \<Rightarrow> clong list \<Rightarrow> clong list option" where
  "Object_UnSetIndex m_ObjectIndex index_array =
     (if m_ObjectIndex div 64 < length index_array
      then Some (index_array[m_ObjectIndex div 64 :=
             (index_array ! (m_ObjectIndex div 64)) AND NOT (push_bit (m_ObjectIndex mod 64) 1)])
      else None)"

definition Object_GetIndex :: "nat \<Rightarrow> clong list \<Rightarrow> bool option" where
  "Object_GetIndex m_ObjectIndex index_array =
     (if m_ObjectIndex div 64 < length index_array
      then Some ((index_array ! (m_ObjectIndex div 64)) AND push_bit (m_ObjectIndex mod 64) 1 \<noteq> 0)
      else None)"

definition StaticMap_SetEIndex :: "nat \<Rightarrow> clong list \<Rightarrow> clong list option" where
  "StaticMap_SetEIndex m_DatabaseUID index_array =
     (if m_DatabaseUID div 64 < length index_array
      then Some (index_array[m_DatabaseUID div 64 :=
             (index_array ! (m_DatabaseUID div 64)) OR push_bit (m_DatabaseUID mod 64) 1])
      else None)"

definition StaticMap_UnSetEIndex :: "nat \<Rightarrow> clong list \<Rightarrow> clong list option" where
  "StaticMap_UnSetEIndex m_DatabaseUID index_array =
     (if m_DatabaseUID div 64 < length index_array
      then Some (index_array[m_DatabaseUID div 64 :=
             (index_array ! (m_DatabaseUID div 64)) AND NOT (push_bit (m_DatabaseUID mod 64) 1)])
      else None)"

definition StaticMap_GetEIndex :: "nat \<Rightarrow> clong list \<Rightarrow> bool option" where
  "StaticMap_GetEIndex m_DatabaseUID index_array =
     (if m_DatabaseUID div 64 < length index_array
      then Some ((index_array ! (m_DatabaseUID div 64)) AND push_bit (m_DatabaseUID mod 64) 1 \<noteq> 0)
      else None)"

section \<open>The contract of a bitmap\<close>

locale index_set =
  fixes set_bit' :: "nat \<Rightarrow> 's \<Rightarrow> 's option"
    and unset_bit' :: "nat \<Rightarrow> 's \<Rightarrow> 's option"
    and get_bit' :: "nat \<Rightarrow> 's \<Rightarrow> bool option"
    and wf :: "'s \<Rightarrow> bool"
    and bound :: "'s \<Rightarrow> nat"
  assumes set_ok: "wf s \<Longrightarrow> i < bound s \<Longrightarrow> \<exists>t. set_bit' i s = Some t \<and> wf t \<and> bound t = bound s \<and>
        (\<forall>j < bound s. get_bit' j t = (if i = j then Some True else get_bit' j s))"
    and unset_ok: "wf s \<Longrightarrow> i < bound s \<Longrightarrow> \<exists>t. unset_bit' i s = Some t \<and> wf t \<and> bound t = bound s \<and>
        (\<forall>j < bound s. get_bit' j t = (if i = j then Some False else get_bit' j s))"
    and get_ok: "wf s \<Longrightarrow> i < bound s \<Longrightarrow> \<exists>b. get_bit' i s = Some b"
begin

definition members :: "'s \<Rightarrow> nat set" where
  "members s = {i. i < bound s \<and> get_bit' i s = Some True}"

lemma members_set:
  "wf s \<Longrightarrow> i < bound s \<Longrightarrow> \<exists>t. set_bit' i s = Some t \<and> wf t \<and> members t = insert i (members s)"
  using set_ok [of s i] by (auto simp: members_def split: if_splits)

lemma members_unset:
  "wf s \<Longrightarrow> i < bound s \<Longrightarrow> \<exists>t. unset_bit' i s = Some t \<and> wf t \<and> members t = members s - {i}"
  using unset_ok [of s i] by (fastforce simp: members_def split: if_splits)

end

lemma not_bit_mask: "(0xFFFFFFFF XOR w :: u32) = NOT w"
proof -
  have "(0xFFFFFFFF :: u32) = - 1" by simp
  then show ?thesis by (metis bit.xor_one_left bit.compl_zero)
qed

lemma SetIndex_bm:
  "i < MAX_ONLINE_PLAYERS \<Longrightarrow> length L = 16 \<Longrightarrow> SetIndex (Some i) L = Some (bm_set L i)"
  "i < MAX_ONLINE_PLAYERS \<Longrightarrow> length L = 16 \<Longrightarrow> UnSetIndex (Some i) L = Some (bm_unset L i)"
  "i < MAX_ONLINE_PLAYERS \<Longrightarrow> length L = 16 \<Longrightarrow> GetIndex (Some i) L = Some (bm_get L i)"
  by (auto simp: SetIndex_def UnSetIndex_def GetIndex_def MAX_ONLINE_PLAYERS_def bm_set_def
      bm_unset_def bm_get_def not_bit_mask)

interpretation player_index: index_set "\<lambda>i. SetIndex (Some i)" "\<lambda>i. UnSetIndex (Some i)"
  "\<lambda>i. GetIndex (Some i)" "\<lambda>L. length L = 16" "\<lambda>_. MAX_ONLINE_PLAYERS"
proof
  fix L :: "u32 list" and i assume L: "length L = 16" and i: "i < MAX_ONLINE_PLAYERS"
  have "i div LENGTH(32) < length L" using L i by (simp add: MAX_ONLINE_PLAYERS_def)
  note gs = bm_get_set [OF this] and gu = bm_get_unset [OF this]
  show "\<exists>t. SetIndex (Some i) L = Some t \<and> length t = 16 \<and> MAX_ONLINE_PLAYERS = MAX_ONLINE_PLAYERS \<and>
      (\<forall>j < MAX_ONLINE_PLAYERS. GetIndex (Some j) t = (if i = j then Some True else GetIndex (Some j) L))"
    using L i gs by (simp add: SetIndex_bm)
  show "\<exists>t. UnSetIndex (Some i) L = Some t \<and> length t = 16 \<and> MAX_ONLINE_PLAYERS = MAX_ONLINE_PLAYERS \<and>
      (\<forall>j < MAX_ONLINE_PLAYERS. GetIndex (Some j) t = (if i = j then Some False else GetIndex (Some j) L))"
    using L i gu by (simp add: SetIndex_bm)
  show "\<exists>b. GetIndex (Some i) L = Some b" using L i by (simp add: SetIndex_bm)
qed

lemma Object_bm:
  "i < 64 * length A \<Longrightarrow> Object_SetIndex i A = Some (bm_set A i)"
  "i < 64 * length A \<Longrightarrow> Object_UnSetIndex i A = Some (bm_unset A i)"
  "i < 64 * length A \<Longrightarrow> Object_GetIndex i A = Some (bm_get A i)"
  by (auto simp: Object_SetIndex_def Object_UnSetIndex_def Object_GetIndex_def bm_set_def
      bm_unset_def bm_get_def less_mult_imp_div_less mult.commute)

lemma index_set_words:
  assumes "\<And>i A. i < 64 * length A \<Longrightarrow> st i A = Some (bm_set A i)"
    and "\<And>i A. i < 64 * length A \<Longrightarrow> un i A = Some (bm_unset A i)"
    and "\<And>i A. i < 64 * length A \<Longrightarrow> gt i A = Some (bm_get A i)"
  shows "index_set st un gt (\<lambda>_ :: clong list. True) (\<lambda>A. 64 * length A)"
proof
  fix A :: "clong list" and i assume i: "i < 64 * length A"
  have "i div LENGTH(64) < length A" using i by (simp add: less_mult_imp_div_less mult.commute)
  note gs = bm_get_set [OF this] and gu = bm_get_unset [OF this]
  show "\<exists>t. st i A = Some t \<and> True \<and> 64 * length t = 64 * length A \<and>
      (\<forall>j < 64 * length A. gt j t = (if i = j then Some True else gt j A))"
    using i gs by (simp add: assms)
  show "\<exists>t. un i A = Some t \<and> True \<and> 64 * length t = 64 * length A \<and>
      (\<forall>j < 64 * length A. gt j t = (if i = j then Some False else gt j A))"
    using i gu by (simp add: assms)
  show "\<exists>b. gt i A = Some b" using i by (simp add: assms)
qed

interpretation object_index: index_set Object_SetIndex Object_UnSetIndex Object_GetIndex
  "\<lambda>_. True" "\<lambda>A. 64 * length A"
  by (rule index_set_words) (simp_all add: Object_bm)

interpretation explored_index: index_set StaticMap_SetEIndex StaticMap_UnSetEIndex StaticMap_GetEIndex
  "\<lambda>_. True" "\<lambda>A. 64 * length A"
  by (rule index_set_words)
    (simp_all add: StaticMap_SetEIndex_def StaticMap_UnSetEIndex_def StaticMap_GetEIndex_def bm_set_def
      bm_unset_def bm_get_def less_mult_imp_div_less mult.commute)

end
