(* ===== verification/PlayerNodes.thy ===== *)
theory PlayerNodes
  imports IndexBits
begin

text \<open>
  Allocation of player nodes and time nodes: \<^verbatim>\<open>GMemoryHandler\<close>, \<^verbatim>\<open>MemoryHandler\<close> and the
  \<^verbatim>\<open>MemorySlot\<close> template (\<^verbatim>\<open>server/src/MemoryHandler.cpp\<close>, \<^verbatim>\<open>MemoryHandler.h\<close>), the
  lookup of a player from its id (\<^verbatim>\<open>PlayerManager::GetPlayer\<close>) and the iteration over a
  player list (\<^verbatim>\<open>PlayerManager::GetNextPlayerOnList\<close>). A pointer to a player is its
  index in the node array; a result that is \<^term>\<open>None\<close> at the outer level is an access
  outside the array (or, for the search loop of \<^verbatim>\<open>GetPlayerNode\<close>, a loop that never ends).
\<close>

section \<open>State\<close>

record player_node =
  GameID :: s32
  GroupID :: clong
  MVASIndex :: clong
  LastAccessTime :: u32
  GameIndex :: u32
  CharacterID :: clong
  AccountUsername :: bytes
  m_CharacterSlot :: clong
  m_AuthToken :: bytes
  m_AuthTokenSet :: bool
  m_Player_Port :: s16
  m_Player_IPAddr :: clong

definition PLAYER_NODE_AVAILABLE :: s32 where
  "PLAYER_NODE_AVAILABLE = -1"

definition PLAYER_TAG :: "'a::len word" where
  "PLAYER_TAG = push_bit 30 1"

definition IS_PLAYER :: "clong \<Rightarrow> bool" where
  "IS_PLAYER x \<longleftrightarrow> x AND PLAYER_TAG \<noteq> 0"

record gmem =
  m_PlayerQueueBuf :: "player_node list"
  m_PlayerCount :: nat
  m_PlayerCircularIndex :: nat

definition m_PlayerBufferSize :: "gmem \<Rightarrow> nat" where
  "m_PlayerBufferSize g = length (m_PlayerQueueBuf g)"

section \<open>Operations of GMemoryHandler\<close>

text \<open>The constructor marks every node of the freshly constructed array as available.\<close>

definition new_GMemoryHandler :: "player_node list \<Rightarrow> gmem" where
  "new_GMemoryHandler nodes =
     \<lparr>m_PlayerQueueBuf = map (\<lambda>n. n\<lparr>GameID := PLAYER_NODE_AVAILABLE, CharacterID := -1,
                                     AccountUsername := [], LastAccessTime := 0\<rparr>) nodes,
      m_PlayerCount = 0, m_PlayerCircularIndex = 0\<rparr>"

definition GetPlayerCount :: "gmem \<Rightarrow> nat" where
  "GetPlayerCount g = m_PlayerCount g"

text \<open>The search loop of \<^verbatim>\<open>GetPlayerNode\<close>: it has no bound of its own.\<close>

partial_function (option) find_available :: "player_node list \<Rightarrow> nat \<Rightarrow> nat option" where
  "find_available buf node_index =
     (if node_index < length buf
      then (if GameID (buf ! node_index) \<noteq> PLAYER_NODE_AVAILABLE
            then find_available buf (if node_index + 1 = length buf then 0 else node_index + 1)
            else Some node_index)
      else None)"

definition GetPlayerNode :: "u32 \<Rightarrow> gmem \<Rightarrow> (nat option \<times> gmem) option" where
  "GetPlayerNode tick g =
     (if MAX_ONLINE_PLAYERS \<le> m_PlayerCount g then Some (None, g)
      else do {
        node_index \<leftarrow> find_available (m_PlayerQueueBuf g) (m_PlayerCircularIndex g);
        let node = (m_PlayerQueueBuf g ! node_index)
              \<lparr>GameID := of_nat node_index OR PLAYER_TAG, GroupID := -1, MVASIndex := -1,
               LastAccessTime := tick, GameIndex := of_nat node_index\<rparr>;
        Some (Some node_index,
          g\<lparr>m_PlayerQueueBuf := (m_PlayerQueueBuf g)[node_index := node],
            m_PlayerCircularIndex :=
              (if node_index + 1 = m_PlayerBufferSize g then 0 else node_index + 1),
            m_PlayerCount := m_PlayerCount g + 1\<rparr>)
      })"

definition ReleasePlayerNode :: "nat \<Rightarrow> gmem \<Rightarrow> gmem" where
  "ReleasePlayerNode i g =
     (let n = m_PlayerQueueBuf g ! i;
          rel = GameID n \<noteq> PLAYER_NODE_AVAILABLE \<and> 0 < m_PlayerCount g;
          n' = (if rel then n\<lparr>GameID := PLAYER_NODE_AVAILABLE\<rparr> else n)
      in g\<lparr>m_PlayerQueueBuf := (m_PlayerQueueBuf g)[i :=
             n'\<lparr>LastAccessTime := 0, AccountUsername := [], CharacterID := -1\<rparr>],
           m_PlayerCount := (if rel then m_PlayerCount g - 1 else m_PlayerCount g)\<rparr>)"

definition GetPlayerNumber :: "int \<Rightarrow> gmem \<Rightarrow> nat option" where
  "GetPlayerNumber node_index g =
     (if 0 \<le> node_index \<and> node_index < int MAX_ONLINE_PLAYERS then Some (nat node_index) else None)"

text \<open>
  The range test compares with \<^verbatim>\<open>>\<close>: an index equal to the buffer size reaches past
  the end of the array.
\<close>

definition GetPlayerA :: "clong \<Rightarrow> bool \<Rightarrow> gmem \<Rightarrow> (nat option \<times> gmem) option" where
  "GetPlayerA avatar_id sector_login g =
     (let avatar_index = unat (avatar_id AND 0x00FFFFFF)
      in if \<not> IS_PLAYER avatar_id then Some (None, g)
         else if m_PlayerBufferSize g < avatar_index then Some (None, g)
         else if avatar_index < m_PlayerBufferSize g
         then (if GameID (m_PlayerQueueBuf g ! avatar_index) = PLAYER_NODE_AVAILABLE
               then (if sector_login
                     then Some (Some avatar_index, g\<lparr>m_PlayerQueueBuf := (m_PlayerQueueBuf g)
                            [avatar_index := (m_PlayerQueueBuf g ! avatar_index)\<lparr>GameID := ucast avatar_id\<rparr>]\<rparr>)
                     else Some (None, g))
               else Some (Some avatar_index, g))
         else None)"

section \<open>Operations of PlayerManager\<close>

text \<open>
  \<^verbatim>\<open>m_PlayerLookup[key]\<close> on a \<^verbatim>\<open>std::map\<close> inserts the value 0 for a missing key.
\<close>

definition GetPlayer ::
    "clong \<Rightarrow> bool \<Rightarrow> (u64 \<rightharpoonup> u64) \<Rightarrow> gmem \<Rightarrow> (nat option \<times> (u64 \<rightharpoonup> u64) \<times> gmem) option" where
  "GetPlayer game_id sector_login lookup g =
     (let key = game_id AND 0x3FFFFFFF;
          lookup_id = (case lookup key of Some v \<Rightarrow> v | None \<Rightarrow> 0)
      in map_option (\<lambda>(p, g'). (p, lookup(key \<mapsto> lookup_id), g'))
           (GetPlayerA lookup_id sector_login g))"

definition GetPlayerFromIndex :: "clong \<Rightarrow> bool \<Rightarrow> gmem \<Rightarrow> (nat option \<times> gmem) option" where
  "GetPlayerFromIndex index sector_login g = GetPlayerA (index OR PLAYER_TAG) sector_login g"

text \<open>
  The scan of \<^verbatim>\<open>GetNextPlayerOnList\<close>: \<open>index\<close> walks over the bits, \<open>block_index\<close> is the
  word \<^verbatim>\<open>entry\<close> points to; bits of players that no longer exist are cleared on the way.
  The result is the returned flag, the reference parameter \<open>p\<close> and the list.
\<close>

partial_function (option) next_player_loop ::
    "gmem \<Rightarrow> nat option \<Rightarrow> u32 list \<Rightarrow> nat \<Rightarrow> nat \<Rightarrow> (bool \<times> nat option \<times> u32 list) option" where
  "next_player_loop g p player_list index block_index =
     (if index < MAX_ONLINE_PLAYERS
      then if block_index < length player_list
      then (let set = (player_list ! block_index) AND push_bit (index mod 32) 1 \<noteq> 0 in
            case (if set then GetPlayerFromIndex (of_nat index OR PLAYER_TAG) False g
                  else Some (None, g)) of
              None \<Rightarrow> None
            | Some (Some q, _) \<Rightarrow> Some (True, Some q, player_list)
            | Some (None, _) \<Rightarrow>
                (let p' = (if set then None else p);
                     list1 = (if set then player_list[block_index :=
                        (player_list ! block_index) AND (0xFFFFFFFF XOR push_bit (index mod 32) 1)]
                      else player_list)
                 in if list1 ! block_index = 0
                    then next_player_loop g p' list1 (32 * (block_index + 1)) (block_index + 1)
                    else if (index + 1) mod 32 = 0
                    then next_player_loop g p' list1 (index + 1) (block_index + 1)
                    else next_player_loop g p' list1 (index + 1) block_index))
      else None
      else Some (False, p, player_list))"

definition GetNextPlayerOnList ::
    "nat option \<Rightarrow> gmem \<Rightarrow> u32 list \<Rightarrow> (bool \<times> nat option \<times> u32 list) option" where
  "GetNextPlayerOnList p g player_list =
     (case p of
        None \<Rightarrow> next_player_loop g p player_list 0 0
      | Some q \<Rightarrow>
          (let index = unat (GameIndex (m_PlayerQueueBuf g ! q)) + 1
           in next_player_loop g p player_list index (index div 32)))"

section \<open>Invariant\<close>

text \<open>A node in use knows its own index (its id is replaced by that of the character at login).\<close>

definition node_indexed :: "nat \<Rightarrow> player_node \<Rightarrow> bool" where
  "node_indexed i n \<longleftrightarrow> GameIndex n = of_nat i"

definition gm_inv :: "gmem \<Rightarrow> bool" where
  "gm_inv g \<longleftrightarrow> m_PlayerCircularIndex g < m_PlayerBufferSize g \<and> m_PlayerBufferSize g \<le> 2 ^ 24 \<and>
     m_PlayerCount g = length (filter (\<lambda>n. GameID n \<noteq> PLAYER_NODE_AVAILABLE) (m_PlayerQueueBuf g)) \<and>
     (\<forall>i < m_PlayerBufferSize g. GameID (m_PlayerQueueBuf g ! i) \<noteq> PLAYER_NODE_AVAILABLE \<longrightarrow>
        node_indexed i (m_PlayerQueueBuf g ! i))"

lemma tag_not_available: "of_nat i OR PLAYER_TAG \<noteq> PLAYER_NODE_AVAILABLE \<longleftrightarrow> (of_nat i OR PLAYER_TAG :: s32) \<noteq> -1"
  by (simp add: PLAYER_NODE_AVAILABLE_def)

lemma bit_of_nat_small: "i < 2 ^ n \<Longrightarrow> n \<le> k \<Longrightarrow> \<not> bit (of_nat i :: 'a::len word) k"
proof
  assume i: "i < 2 ^ n" and k: "n \<le> k" and b: "bit (of_nat i :: 'a word) k"
  then have "bit i k" by (simp add: bit_simps)
  moreover have "i < 2 ^ k" using i k by (meson less_le_trans one_le_numeral power_increasing)
  ultimately show False by (simp add: bit_iff_odd)
qed

lemma tag_neq_available:
  assumes "i < 2 ^ 24"
  shows "(of_nat i OR PLAYER_TAG :: s32) \<noteq> PLAYER_NODE_AVAILABLE"
proof
  assume "(of_nat i OR PLAYER_TAG :: s32) = PLAYER_NODE_AVAILABLE"
  then have "bit (of_nat i OR PLAYER_TAG :: s32) 31" by (simp add: PLAYER_NODE_AVAILABLE_def)
  then show False using bit_of_nat_small [OF assms, of 31, where 'a = 32]
    by (simp add: PLAYER_TAG_def bit_simps)
qed

lemma gm_inv_new: "nodes \<noteq> [] \<Longrightarrow> length nodes \<le> 2 ^ 24 \<Longrightarrow> gm_inv (new_GMemoryHandler nodes)"
  by (auto simp: gm_inv_def new_GMemoryHandler_def m_PlayerBufferSize_def o_def)

section \<open>The search for a node\<close>

lemma find_available_hit:
  assumes "i < length buf" and "i + d < length buf"
    and "GameID (buf ! (i + d)) = PLAYER_NODE_AVAILABLE"
    and "\<And>j. j < d \<Longrightarrow> GameID (buf ! (i + j)) \<noteq> PLAYER_NODE_AVAILABLE"
  shows "find_available buf i = Some (i + d)"
  using assms
proof (induction d arbitrary: i)
  case 0
  then show ?case by (simp add: find_available.simps [of buf i])
next
  case (Suc d)
  have "GameID (buf ! i) \<noteq> PLAYER_NODE_AVAILABLE" using Suc.prems(4) [of 0] by simp
  moreover have "find_available buf (Suc i) = Some (Suc i + d)"
    using Suc.prems(2,3) Suc.prems(4) [of "Suc _"] by (intro Suc.IH) auto
  ultimately show ?case using Suc.prems by (simp add: find_available.simps [of buf i])
qed

lemma find_available_wrap:
  assumes "i < length buf" and "\<And>j. i \<le> j \<Longrightarrow> j < length buf \<Longrightarrow> GameID (buf ! j) \<noteq> PLAYER_NODE_AVAILABLE"
  shows "find_available buf i = find_available buf 0"
  using assms
proof (induction "length buf - i" arbitrary: i)
  case 0
  then show ?case by simp
next
  case (Suc k)
  have a: "GameID (buf ! i) \<noteq> PLAYER_NODE_AVAILABLE" using Suc.prems by simp
  show ?case
  proof (cases "i + 1 = length buf")
    case True
    then show ?thesis using Suc.prems(1) a by (simp add: find_available.simps [of buf i])
  next
    case False
    then have "find_available buf (Suc i) = find_available buf 0"
      using Suc by (intro Suc.hyps(1)) auto
    then show ?thesis using False Suc.prems(1) a by (simp add: find_available.simps [of buf i])
  qed
qed

text \<open>If any node is free, the loop ends at a free node.\<close>

lemma find_available_total:
  assumes i: "i < length buf" and ex: "\<exists>n \<in> set buf. GameID n = PLAYER_NODE_AVAILABLE"
  shows "\<exists>k. find_available buf i = Some k \<and> k < length buf \<and>
           GameID (buf ! k) = PLAYER_NODE_AVAILABLE"
proof -
  have from_here: "\<exists>k. find_available buf s = Some k \<and> k < length buf \<and> GameID (buf ! k) = PLAYER_NODE_AVAILABLE"
    if s: "s < length buf" "\<exists>j. s \<le> j \<and> j < length buf \<and> GameID (buf ! j) = PLAYER_NODE_AVAILABLE" for s
  proof -
    define j where "j = (LEAST j. s \<le> j \<and> j < length buf \<and> GameID (buf ! j) = PLAYER_NODE_AVAILABLE)"
    have j: "s \<le> j" "j < length buf" "GameID (buf ! j) = PLAYER_NODE_AVAILABLE"
      using LeastI_ex [OF s(2)] by (auto simp: j_def)
    have "GameID (buf ! (s + m)) \<noteq> PLAYER_NODE_AVAILABLE" if "m < j - s" for m
      using not_less_Least [of "s + m" "\<lambda>j. s \<le> j \<and> j < length buf \<and> GameID (buf ! j) = PLAYER_NODE_AVAILABLE"]
        that j by (auto simp: j_def)
    then have "find_available buf s = Some (s + (j - s))"
      using s(1) j by (intro find_available_hit) auto
    then show ?thesis using j by auto
  qed
  show ?thesis
  proof (cases "\<exists>j. i \<le> j \<and> j < length buf \<and> GameID (buf ! j) = PLAYER_NODE_AVAILABLE")
    case True
    then show ?thesis using i by (rule from_here [rotated])
  next
    case False
    then have "find_available buf i = find_available buf 0" using i by (intro find_available_wrap) auto
    moreover have "0 < length buf" using i by linarith
    moreover have "\<exists>j. 0 \<le> j \<and> j < length buf \<and> GameID (buf ! j) = PLAYER_NODE_AVAILABLE"
      using ex by (auto simp: in_set_conv_nth)
    ultimately show ?thesis using from_here [of 0] by simp
  qed
qed

text \<open>If every node is taken, the loop does not end.\<close>

lemma find_available_diverges:
  assumes "\<forall>n \<in> set buf. GameID n \<noteq> PLAYER_NODE_AVAILABLE"
  shows "find_available buf i = None"
proof (rule ccontr)
  assume "find_available buf i \<noteq> None"
  then obtain k where k: "find_available buf i = Some k" by auto
  have "k < length buf \<and> GameID (buf ! k) = PLAYER_NODE_AVAILABLE"
  proof (rule find_available.raw_induct [where P = "\<lambda>buf i k. k < length buf \<and> GameID (buf ! k) = PLAYER_NODE_AVAILABLE", OF _ k])
    fix f buf i k
    assume IH: "\<And>buf i k. f buf i = Some k \<Longrightarrow> k < length buf \<and> GameID (buf ! k) = PLAYER_NODE_AVAILABLE"
      and eq: "(if i < length buf
        then if GameID (buf ! i) \<noteq> PLAYER_NODE_AVAILABLE
             then f buf (if i + 1 = length buf then 0 else i + 1) else Some i
        else None) = Some k"
    show "k < length buf \<and> GameID (buf ! k) = PLAYER_NODE_AVAILABLE"
      using IH eq by (auto split: if_splits)
  qed
  then show False using assms by auto
qed


section \<open>Lookups\<close>

lemma bit_PLAYER_TAG: "bit (PLAYER_TAG :: 'a::len word) n \<longleftrightarrow> n = 30 \<and> 30 < LENGTH('a)"
  unfolding PLAYER_TAG_def push_bit_eq_mult mult_1 bit_exp_iff by auto

lemma mask24_tag:
  assumes "i < 2 ^ 24"
  shows "unat ((of_nat i OR PLAYER_TAG :: clong) AND 0x00FFFFFF) = i"
proof -
  have m: "(0x00FFFFFF :: clong) = mask 24" by (simp add: mask_eq_exp_minus_1)
  have "(of_nat i OR PLAYER_TAG :: clong) AND mask 24 = of_nat i"
  proof (rule bit_word_eqI)
    fix n assume "n < LENGTH(64)"
    then show "bit ((of_nat i OR PLAYER_TAG :: clong) AND mask 24) n = bit (of_nat i :: clong) n"
      using bit_of_nat_small [OF assms, of n, where 'a = 64]
      by (cases "24 \<le> n") (auto simp: bit_PLAYER_TAG bit_and_iff bit_or_iff bit_mask_iff)
  qed
  then have "unat ((of_nat i OR PLAYER_TAG :: clong) AND 0x00FFFFFF) = unat (of_nat i :: clong)"
    by (simp add: m)
  also have "\<dots> = i" using assms by (simp add: unat_of_nat)
  finally show ?thesis .
qed

lemma IS_PLAYER_tag: "IS_PLAYER (w OR PLAYER_TAG)"
proof -
  have "bit ((w OR PLAYER_TAG) AND PLAYER_TAG) 30" by (simp add: PLAYER_TAG_def bit_simps)
  then show ?thesis by (auto simp: IS_PLAYER_def)
qed

definition node_live :: "gmem \<Rightarrow> nat \<Rightarrow> bool" where
  "node_live g i \<longleftrightarrow> i < m_PlayerBufferSize g \<and> GameID (m_PlayerQueueBuf g ! i) \<noteq> PLAYER_NODE_AVAILABLE"

lemma GetPlayerA_tag:
  assumes "i < m_PlayerBufferSize g" and "m_PlayerBufferSize g \<le> 2 ^ 24"
  shows "GetPlayerA (of_nat i OR PLAYER_TAG) False g = Some (if node_live g i then Some i else None, g)"
proof -
  have "unat ((of_nat i OR PLAYER_TAG :: clong) AND 0x00FFFFFF) = i"
    using assms by (intro mask24_tag) simp
  then show ?thesis using assms(1) by (simp add: GetPlayerA_def IS_PLAYER_tag node_live_def)
qed

lemma GetPlayerFromIndex_tag:
  assumes "i < m_PlayerBufferSize g" and "m_PlayerBufferSize g \<le> 2 ^ 24"
  shows "GetPlayerFromIndex (of_nat i OR PLAYER_TAG) False g =
           Some (if node_live g i then Some i else None, g)"
proof -
  have "(of_nat i OR PLAYER_TAG :: clong) OR PLAYER_TAG = of_nat i OR PLAYER_TAG"
    by (simp add: or.assoc)
  then show ?thesis using GetPlayerA_tag [OF assms] by (simp add: GetPlayerFromIndex_def)
qed

lemma ucast_tag:
  assumes "k < 2 ^ 24"
  shows "(ucast (of_nat k OR PLAYER_TAG :: s32) :: clong) = of_nat k OR PLAYER_TAG"
proof (rule bit_word_eqI)
  fix n assume "n < LENGTH(64)"
  then show "bit (ucast (of_nat k OR PLAYER_TAG :: s32) :: clong) n = bit (of_nat k OR PLAYER_TAG :: clong) n"
    using bit_of_nat_small [OF assms, of n, where 'a = 64]
    by (cases "24 \<le> n") (auto simp: bit_PLAYER_TAG bit_simps)
qed

section \<open>Allocation\<close>

definition blank_node :: player_node where
  "blank_node = \<lparr>GameID = 0, GroupID = 0, MVASIndex = 0, LastAccessTime = 0, GameIndex = 0,
                 CharacterID = 0, AccountUsername = [], m_CharacterSlot = 0, m_AuthToken = [],
                 m_AuthTokenSet = False, m_Player_Port = 0, m_Player_IPAddr = 0\<rparr>"


lemma gm_inv_free:
  assumes "gm_inv g" and "m_PlayerCount g < m_PlayerBufferSize g"
  shows "\<exists>n \<in> set (m_PlayerQueueBuf g). GameID n = PLAYER_NODE_AVAILABLE"
proof (rule ccontr)
  assume "\<not> ?thesis"
  then have "filter (\<lambda>n. GameID n \<noteq> PLAYER_NODE_AVAILABLE) (m_PlayerQueueBuf g) = m_PlayerQueueBuf g"
    by (auto simp: filter_id_conv)
  then show False using assms by (simp add: gm_inv_def m_PlayerBufferSize_def)
qed

text \<open>The node that is handed out, and the state after it.\<close>

definition taken_node :: "u32 \<Rightarrow> nat \<Rightarrow> player_node \<Rightarrow> player_node" where
  "taken_node tick k n = n\<lparr>GameID := of_nat k OR PLAYER_TAG, GroupID := -1, MVASIndex := -1,
                           LastAccessTime := tick, GameIndex := of_nat k\<rparr>"

definition take_node :: "u32 \<Rightarrow> nat \<Rightarrow> gmem \<Rightarrow> gmem" where
  "take_node tick k g = g\<lparr>m_PlayerQueueBuf := (m_PlayerQueueBuf g)[k := taken_node tick k (m_PlayerQueueBuf g ! k)],
     m_PlayerCircularIndex := (if k + 1 = m_PlayerBufferSize g then 0 else k + 1),
     m_PlayerCount := m_PlayerCount g + 1\<rparr>"

lemma GetPlayerNode_takes:
  assumes inv: "gm_inv g" and sz: "m_PlayerBufferSize g = MAX_ONLINE_PLAYERS" and room: "m_PlayerCount g < MAX_ONLINE_PLAYERS"
  shows "\<exists>k < MAX_ONLINE_PLAYERS. GetPlayerNode tick g = Some (Some k, take_node tick k g) \<and> \<not> node_live g k \<and>
    gm_inv (take_node tick k g) \<and> node_live (take_node tick k g) k"
proof -
  let ?buf = "m_PlayerQueueBuf g"
  have len: "length ?buf = 500" using sz by (simp add: m_PlayerBufferSize_def MAX_ONLINE_PLAYERS_def)
  obtain k where k: "find_available ?buf (m_PlayerCircularIndex g) = Some k" "k < 500"
      "GameID (?buf ! k) = PLAYER_NODE_AVAILABLE"
    using find_available_total [of "m_PlayerCircularIndex g" ?buf] gm_inv_free [OF inv] inv sz room len
    by (auto simp: gm_inv_def m_PlayerBufferSize_def)
  define n where "n = taken_node tick k (?buf ! k)"
  have run: "GetPlayerNode tick g = Some (Some k, take_node tick k g)"
    using room k(1) by (simp add: GetPlayerNode_def take_node_def taken_node_def)
  have nk: "GameID n \<noteq> PLAYER_NODE_AVAILABLE" using tag_neq_available [of k] k(2) by (simp add: n_def taken_node_def)
  have buf': "m_PlayerQueueBuf (take_node tick k g) = ?buf[k := n]" "m_PlayerBufferSize (take_node tick k g) = 500"
    using len by (simp_all add: take_node_def n_def m_PlayerBufferSize_def)
  have "length (filter (\<lambda>n. GameID n \<noteq> PLAYER_NODE_AVAILABLE) (?buf[k := n])) =
      length (filter (\<lambda>n. GameID n \<noteq> PLAYER_NODE_AVAILABLE) ?buf) + 1"
    using length_filter_update [of k ?buf "\<lambda>n. GameID n \<noteq> PLAYER_NODE_AVAILABLE" n] k len nk by simp
  moreover have "node_indexed k n" by (simp add: node_indexed_def n_def taken_node_def)
  ultimately have inv': "gm_inv (take_node tick k g)"
    using inv len k by (auto simp: gm_inv_def take_node_def n_def m_PlayerBufferSize_def nth_list_update)
  have "node_live (take_node tick k g) k" using k(2) nk len by (simp add: node_live_def buf')
  then show ?thesis using run inv' k by (auto simp: node_live_def MAX_ONLINE_PLAYERS_def)
qed

text \<open>
  Allocation of a player node. Under the invariant, with the buffer the server
  creates (one node per player allowed online) and a free place, the unbounded search of
  \<^verbatim>\<open>GetPlayerNode\<close> ends; it hands out a node that was free, keeps the invariant, counts
  the player and leaves every other node alone; looking the new id up finds the node.
\<close>

theorem GetPlayerNode_total:
  assumes inv: "gm_inv g" and sz: "m_PlayerBufferSize g = MAX_ONLINE_PLAYERS"
    and room: "m_PlayerCount g < MAX_ONLINE_PLAYERS"
  shows "\<exists>k g'. GetPlayerNode tick g = Some (Some k, g') \<and> \<not> node_live g k \<and> k < MAX_ONLINE_PLAYERS \<and>
    gm_inv g' \<and> GetPlayerCount g' = GetPlayerCount g + 1 \<and>
    (\<forall>j. j \<noteq> k \<longrightarrow> m_PlayerQueueBuf g' ! j = m_PlayerQueueBuf g ! j) \<and>
    GetPlayerA (ucast (GameID (m_PlayerQueueBuf g' ! k))) False g' = Some (Some k, g')"
proof -
  obtain k where k: "k < MAX_ONLINE_PLAYERS" "GetPlayerNode tick g = Some (Some k, take_node tick k g)" "\<not> node_live g k"
      "gm_inv (take_node tick k g)" "node_live (take_node tick k g) k"
    using GetPlayerNode_takes [OF assms] by blast
  have id: "GameID (m_PlayerQueueBuf (take_node tick k g) ! k) = of_nat k OR PLAYER_TAG"
    using k(1) sz by (simp add: take_node_def taken_node_def m_PlayerBufferSize_def)
  have size': "m_PlayerBufferSize (take_node tick k g) = 500"
    using sz by (simp add: take_node_def m_PlayerBufferSize_def MAX_ONLINE_PLAYERS_def)
  have "(ucast (of_nat k OR PLAYER_TAG :: s32) :: clong) = of_nat k OR PLAYER_TAG"
    using k(1) by (intro ucast_tag) (simp add: MAX_ONLINE_PLAYERS_def)
  then have "GetPlayerA (ucast (GameID (m_PlayerQueueBuf (take_node tick k g) ! k))) False (take_node tick k g) =
      Some (Some k, take_node tick k g)"
    using GetPlayerA_tag [of k "take_node tick k g"] k(1,5) size' by (simp add: id MAX_ONLINE_PLAYERS_def)
  moreover have "GetPlayerCount (take_node tick k g) = GetPlayerCount g + 1"
    and "\<forall>j. j \<noteq> k \<longrightarrow> m_PlayerQueueBuf (take_node tick k g) ! j = m_PlayerQueueBuf g ! j"
    by (simp_all add: take_node_def GetPlayerCount_def)
  ultimately show ?thesis using k by blast
qed

lemma GetPlayerNode_total_witness:
  "\<exists>k g'. GetPlayerNode 7 (new_GMemoryHandler (replicate 500 blank_node)) = Some (Some k, g') \<and> gm_inv g'"
proof -
  let ?g = "new_GMemoryHandler (replicate 500 blank_node)"
  have "gm_inv ?g" by (rule gm_inv_new) simp_all
  moreover have "m_PlayerBufferSize ?g = MAX_ONLINE_PLAYERS" "m_PlayerCount ?g < MAX_ONLINE_PLAYERS"
    by (simp_all add: new_GMemoryHandler_def m_PlayerBufferSize_def MAX_ONLINE_PLAYERS_def)
  ultimately show ?thesis using GetPlayerNode_total [of ?g 7] by blast
qed

text \<open>
  Two weaknesses the model shows: with every node taken but the count below the limit (a
  node revived by a sector login is not counted) the search never ends, and an id whose
  index is the buffer size is looked up past the end of the array.
\<close>

lemma GetPlayerNode_hangs:
  "m_PlayerCount g < MAX_ONLINE_PLAYERS \<Longrightarrow> \<forall>n \<in> set (m_PlayerQueueBuf g). GameID n \<noteq> PLAYER_NODE_AVAILABLE \<Longrightarrow>
   GetPlayerNode tick g = None"
  by (simp add: GetPlayerNode_def find_available_diverges)

lemma GetPlayerA_past_end:
  assumes "m_PlayerBufferSize g < 2 ^ 24"
  shows "GetPlayerA (of_nat (m_PlayerBufferSize g) OR PLAYER_TAG) sector_login g = None"
  using mask24_tag [OF assms] by (simp add: GetPlayerA_def IS_PLAYER_tag)

section \<open>Release\<close>

text \<open>
  Releasing a node keeps the invariant, frees exactly that node (its id no longer
  resolves), and counts the player off when the node was in use.
\<close>

theorem ReleasePlayerNode_frees:
  assumes inv: "gm_inv g" and k: "k < m_PlayerBufferSize g"
  shows "gm_inv (ReleasePlayerNode k g) \<and>
    GetPlayerA (of_nat k OR PLAYER_TAG) False (ReleasePlayerNode k g) = Some (None, ReleasePlayerNode k g) \<and>
    GetPlayerCount (ReleasePlayerNode k g) = GetPlayerCount g - of_bool (node_live g k) \<and>
    (\<forall>j. j \<noteq> k \<longrightarrow> node_live (ReleasePlayerNode k g) j = node_live g j)"
proof -
  let ?buf = "m_PlayerQueueBuf g" and ?P = "\<lambda>n. GameID n \<noteq> PLAYER_NODE_AVAILABLE"
  have pos: "0 < m_PlayerCount g" if "node_live g k"
  proof -
    have "?buf ! k \<in> set (filter ?P ?buf)" using that k by (simp add: node_live_def m_PlayerBufferSize_def)
    then have "0 < length (filter ?P ?buf)" by (rule length_pos_if_in_set)
    then show ?thesis using inv unfolding gm_inv_def by metis
  qed
  define n where "n = (if node_live g k then (?buf ! k)\<lparr>GameID := PLAYER_NODE_AVAILABLE\<rparr> else ?buf ! k)
    \<lparr>LastAccessTime := 0, AccountUsername := [], CharacterID := -1\<rparr>"
  have n: "GameID n = PLAYER_NODE_AVAILABLE" using k by (auto simp: n_def node_live_def)
  have rel: "ReleasePlayerNode k g = g\<lparr>m_PlayerQueueBuf := ?buf[k := n],
      m_PlayerCount := m_PlayerCount g - of_bool (node_live g k)\<rparr>"
    using pos k
    by (cases "node_live g k") (auto simp: ReleasePlayerNode_def node_live_def n_def Let_def)
  have "length (filter ?P (?buf[k := n])) = length (filter ?P ?buf) - of_bool (node_live g k)"
    using length_filter_update [of k ?buf ?P n] k
    by (auto simp: n m_PlayerBufferSize_def node_live_def split: if_splits)
  then have inv': "gm_inv (ReleasePlayerNode k g)"
    using inv k unfolding rel by (auto simp: gm_inv_def m_PlayerBufferSize_def nth_list_update n)
  have "\<not> node_live (ReleasePlayerNode k g) k"
    using k by (simp add: rel node_live_def n m_PlayerBufferSize_def)
  moreover have "m_PlayerBufferSize (ReleasePlayerNode k g) = m_PlayerBufferSize g"
    by (simp add: rel m_PlayerBufferSize_def)
  ultimately have "GetPlayerA (of_nat k OR PLAYER_TAG) False (ReleasePlayerNode k g) = Some (None, ReleasePlayerNode k g)"
    using GetPlayerA_tag [of k "ReleasePlayerNode k g"] k inv by (simp add: gm_inv_def)
  then show ?thesis using inv' by (simp add: rel GetPlayerCount_def node_live_def m_PlayerBufferSize_def)
qed

lemma ReleasePlayerNode_dead:
  assumes "gm_inv g" and "k < m_PlayerBufferSize g"
  shows "\<not> node_live (ReleasePlayerNode k g) k"
proof -
  have "m_PlayerBufferSize (ReleasePlayerNode k g) = m_PlayerBufferSize g"
    by (simp add: ReleasePlayerNode_def m_PlayerBufferSize_def Let_def)
  then have "GetPlayerA (of_nat k OR PLAYER_TAG) False (ReleasePlayerNode k g) =
      Some (if node_live (ReleasePlayerNode k g) k then Some k else None, ReleasePlayerNode k g)"
    using assms by (intro GetPlayerA_tag) (simp_all add: gm_inv_def)
  then show ?thesis using ReleasePlayerNode_frees [OF assms] by (auto split: if_splits)
qed

lemma ReleasePlayerNode_frees_witness:
  "gm_inv (ReleasePlayerNode 3 (new_GMemoryHandler (replicate 500 blank_node)))"
proof -
  let ?g = "new_GMemoryHandler (replicate 500 blank_node)"
  have "gm_inv ?g" by (rule gm_inv_new) simp_all
  moreover have "3 < m_PlayerBufferSize ?g" by (simp add: new_GMemoryHandler_def m_PlayerBufferSize_def)
  ultimately show ?thesis using ReleasePlayerNode_frees [of ?g 3] by blast
qed

section \<open>Iteration over a player list\<close>

definition on_list :: "gmem \<Rightarrow> u32 list \<Rightarrow> nat \<Rightarrow> bool" where
  "on_list g L j \<longleftrightarrow> j < MAX_ONLINE_PLAYERS \<and> node_live g j \<and> bm_get L j"

definition next_found :: "gmem \<Rightarrow> u32 list \<Rightarrow> nat \<Rightarrow> bool \<times> nat option \<times> u32 list \<Rightarrow> bool" where
  "next_found g L index r \<longleftrightarrow>
     (case r of (found, q, L') \<Rightarrow> length L' = 16 \<and> on_list g L' = on_list g L \<and>
        (if found then \<exists>i. q = Some i \<and> index \<le> i \<and> on_list g L i \<and> (\<forall>j. index \<le> j \<and> j < i \<longrightarrow> \<not> on_list g L j)
         else \<forall>j. index \<le> j \<longrightarrow> \<not> on_list g L j))"

lemma next_found_step:
  assumes "next_found g L1 index' r" and "on_list g L1 = on_list g L" and "index \<le> index'"
    and "\<And>j. index \<le> j \<Longrightarrow> j < index' \<Longrightarrow> \<not> on_list g L j"
  shows "next_found g L index r"
  using assms unfolding next_found_def by (fastforce split: prod.splits if_splits simp: not_less)

lemma on_list_unset:
  assumes "length L = 16" and "index < MAX_ONLINE_PLAYERS" and "\<not> node_live g index"
  shows "on_list g (bm_unset L index) = on_list g L"
proof -
  have "index div LENGTH(32) < length L" using assms by (simp add: MAX_ONLINE_PLAYERS_def)
  then show ?thesis using assms(3) by (auto simp: on_list_def bm_get_unset fun_eq_iff)
qed

lemma zero_block_off:
  assumes "L ! b = (0 :: u32)" and "32 * b \<le> j" and "j < 32 * (b + 1)"
  shows "\<not> on_list g L j"
proof -
  have "j div 32 = b" using assms(2,3) by simp
  then show ?thesis using assms(1) by (simp add: on_list_def bm_get_def)
qed

lemma next_player_loop_spec:
  assumes "m_PlayerBufferSize g = MAX_ONLINE_PLAYERS" and "length L = 16"
  shows "\<exists>r. next_player_loop g p L index (index div 32) = Some r \<and> next_found g L index r"
  using assms(2)
proof (induction "512 - index" arbitrary: p L index rule: less_induct)
  case less
  let ?b = "index div 32"
  show ?case
  proof (cases "index < MAX_ONLINE_PLAYERS")
    case False
    then show ?thesis using less.prems
      by (auto simp: next_player_loop.simps [of g p L index] next_found_def on_list_def)
  next
    case i: True
    have b: "?b < length L" using i less.prems by (simp add: MAX_ONLINE_PLAYERS_def)
    have look: "GetPlayerFromIndex (of_nat index OR PLAYER_TAG) False g =
        Some (if node_live g index then Some index else None, g)"
      using i assms(1) by (intro GetPlayerFromIndex_tag) (simp_all add: MAX_ONLINE_PLAYERS_def)
    show ?thesis
    proof (cases "bm_get L index \<and> node_live g index")
      case True
      then show ?thesis using i b look less.prems
        by (auto simp: next_player_loop.simps [of g p L index] next_found_def on_list_def bm_get_def)
    next
      case off: False
      define L1 where "L1 = (if bm_get L index then bm_unset L index else L)"
      define p1 where "p1 = (if bm_get L index then None else p)"
      have L1: "length L1 = 16" "on_list g L1 = on_list g L"
        using less.prems i off on_list_unset by (auto simp: L1_def)
      define index1 where "index1 = (if L1 ! ?b = 0 then 32 * (?b + 1) else index + 1)"
      have "L[?b := (L ! ?b) AND (0xFFFFFFFF XOR push_bit (index mod 32) 1)] = bm_unset L index"
        by (simp add: bm_unset_def not_bit_mask)
      then have run: "next_player_loop g p L index ?b = next_player_loop g p1 L1 index1 (index1 div 32)"
        using i b look off
        by (auto simp: next_player_loop.simps [of g p L index ?b] L1_def p1_def index1_def bm_get_def Let_def
            div_Suc)
      have adv: "index < index1" by (auto simp: index1_def dividend_less_times_div)
      have "\<not> on_list g L j" if "index \<le> j" "j < index1" for j
      proof (cases "L1 ! ?b = 0")
        case True
        then have "\<not> on_list g L1 j" using that by (intro zero_block_off [of L1 ?b]) (auto simp: index1_def)
        then show ?thesis by (simp add: L1)
      next
        case False
        then have "j = index" using that by (simp add: index1_def)
        then show ?thesis using off by (auto simp: on_list_def)
      qed
      moreover have "512 - index1 < 512 - index" using adv i by (simp add: MAX_ONLINE_PLAYERS_def)
      then obtain r where "next_player_loop g p1 L1 index1 (index1 div 32) = Some r" "next_found g L1 index1 r"
        using less.hyps L1(1) by blast
      ultimately show ?thesis using run adv next_found_step [OF _ L1(2), of index1 r index] by auto
    qed
  qed
qed

lemma GetNextPlayerOnList_spec:
  assumes "m_PlayerBufferSize g = MAX_ONLINE_PLAYERS" and "length L = 16"
    and "case p of None \<Rightarrow> start = 0 | Some q \<Rightarrow> start = Suc (unat (GameIndex (m_PlayerQueueBuf g ! q)))"
  shows "\<exists>r. GetNextPlayerOnList p g L = Some r \<and> next_found g L start r"
proof -
  have "GetNextPlayerOnList p g L = next_player_loop g p L start (start div 32)"
    using assms(3) by (cases p) (simp_all add: GetNextPlayerOnList_def Let_def)
  then show ?thesis using next_player_loop_spec [OF assms(1,2)] by simp
qed

text \<open>
  Iteration over a player list. \<^verbatim>\<open>GetNextPlayerOnList\<close> always returns; it yields the
  first online player of the list above the current one, in index order and skipping none,
  says so when there is none left, and clears only the bits of players that are gone.
\<close>

theorem GetNextPlayerOnList_next:
  assumes "m_PlayerBufferSize g = MAX_ONLINE_PLAYERS" and "length L = 16"
    and "case p of None \<Rightarrow> start = 0 | Some q \<Rightarrow> start = Suc (unat (GameIndex (m_PlayerQueueBuf g ! q)))"
  shows "\<exists>found q L'. GetNextPlayerOnList p g L = Some (found, q, L') \<and> on_list g L' = on_list g L \<and>
     (found \<longrightarrow> (\<exists>i \<ge> start. q = Some i \<and> on_list g L i \<and> (\<forall>j. start \<le> j \<and> j < i \<longrightarrow> \<not> on_list g L j))) \<and>
     (\<not> found \<longrightarrow> (\<forall>j \<ge> start. \<not> on_list g L j))"
proof -
  obtain r where "GetNextPlayerOnList p g L = Some r" "next_found g L start r"
    using GetNextPlayerOnList_spec [OF assms] by blast
  then show ?thesis by (cases r) (auto simp: next_found_def split: if_splits)
qed

lemma GetNextPlayerOnList_next_witness:
  "\<exists>found q L'. GetNextPlayerOnList None (new_GMemoryHandler (replicate 500 blank_node)) (replicate 16 0) = Some (found, q, L')"
proof -
  let ?g = "new_GMemoryHandler (replicate 500 blank_node)"
  have "m_PlayerBufferSize ?g = MAX_ONLINE_PLAYERS"
    by (simp add: new_GMemoryHandler_def m_PlayerBufferSize_def MAX_ONLINE_PLAYERS_def)
  then show ?thesis using GetNextPlayerOnList_next [of ?g "replicate 16 0" 0 None] by auto
qed

end
