(* ===== verification/MemorySlots.thy ===== *)
theory MemorySlots
  imports Net7_Prelude
begin

text \<open>
  The reusable node pools: the template \<^verbatim>\<open>MemorySlot\<close> (\<^verbatim>\<open>server/src/MemoryHandler.h\<close>) and
  the ring of time nodes (\<^verbatim>\<open>MemoryHandler::GetBroadcastNodeSlot\<close>, \<^verbatim>\<open>MemoryHandler.cpp\<close>).
  Of a node the template touches only its game id and its active flag. A pointer to a node
  is its index; the outer \<^term>\<open>None\<close> is an access outside the array.
\<close>

record slot_node =
  slot_GameID :: s32
  slot_Active :: bool

record memory_slot =
  m_Index :: nat
  m_NodeSpace :: "slot_node list"

definition m_Nodes :: "memory_slot \<Rightarrow> nat" where
  "m_Nodes m = length (m_NodeSpace m)"

definition new_MemorySlot :: "slot_node list \<Rightarrow> memory_slot" where
  "new_MemorySlot nodes = \<lparr>m_Index = 0, m_NodeSpace = nodes\<rparr>"

definition advance :: "nat \<Rightarrow> nat \<Rightarrow> nat" where
  "advance i n = (if i + 1 = n then 0 else i + 1)"

definition GetNode :: "memory_slot \<Rightarrow> (nat \<times> memory_slot) option" where
  "GetNode m =
     (if m_Index m < m_Nodes m
      then Some (m_Index m, m\<lparr>m_Index := advance (m_Index m) (m_Nodes m)\<rparr>)
      else None)"

text \<open>
  The loop of \<^verbatim>\<open>GetInactiveNode\<close> gives up when it has wrapped around three times. The
  result is the slot found, if any, and the index the loop leaves in \<^verbatim>\<open>m_Index\<close>.
\<close>

function inactive_loop :: "slot_node list \<Rightarrow> nat \<Rightarrow> nat \<Rightarrow> (nat option \<times> nat) option" where
  "inactive_loop nodes i spincount =
     (if i < length nodes
      then (if slot_GameID (nodes ! i) \<noteq> 0
            then (if i + 1 = length nodes
                  then (if spincount + 1 > 2 then Some (None, 0)
                        else inactive_loop nodes 0 (spincount + 1))
                  else inactive_loop nodes (i + 1) spincount)
            else Some (Some i, i))
      else None)"
  by pat_completeness auto
termination
  by (relation "measures [\<lambda>(nodes, i, spincount). 3 - spincount, \<lambda>(nodes, i, spincount). length nodes - i]")
    auto

declare inactive_loop.simps [simp del]

definition GetInactiveNode :: "memory_slot \<Rightarrow> (nat option \<times> memory_slot) option" where
  "GetInactiveNode m =
     (case inactive_loop (m_NodeSpace m) (m_Index m) 0 of
        None \<Rightarrow> None
      | Some (None, i) \<Rightarrow> Some (None, m\<lparr>m_Index := i\<rparr>)
      | Some (Some k, i) \<Rightarrow> Some (Some k, m\<lparr>m_Index := advance i (m_Nodes m)\<rparr>))"

definition ReleaseNode :: "nat \<Rightarrow> memory_slot \<Rightarrow> memory_slot" where
  "ReleaseNode k m =
     m\<lparr>m_NodeSpace := (m_NodeSpace m)[k := (m_NodeSpace m ! k)\<lparr>slot_Active := False\<rparr>]\<rparr>"

fun release_duplicates :: "nat \<Rightarrow> nat \<Rightarrow> slot_node list \<Rightarrow> slot_node list" where
  "release_duplicates k 0 nodes = nodes"
| "release_duplicates k (Suc i) nodes =
     (let nodes' = release_duplicates k i nodes
      in if i \<noteq> k \<and> slot_GameID (nodes' ! i) = slot_GameID (nodes' ! k)
         then nodes'[i := (nodes' ! i)\<lparr>slot_GameID := 0\<rparr>] else nodes')"

definition ReleaseDuplicateNodes :: "nat \<Rightarrow> memory_slot \<Rightarrow> memory_slot" where
  "ReleaseDuplicateNodes k m = m\<lparr>m_NodeSpace := release_duplicates k (m_Nodes m) (m_NodeSpace m)\<rparr>"

text \<open>A query pointer is given as a signed offset from the start of the node space.\<close>

definition ContainsNode :: "int \<Rightarrow> memory_slot \<Rightarrow> bool" where
  "ContainsNode query m \<longleftrightarrow> 0 \<le> query \<and> query < int (m_Nodes m)"

section \<open>The ring of time nodes\<close>

record time_nodes =
  m_CircularIndex :: nat
  m_NodeSize :: nat

definition new_MemoryHandler :: "nat \<Rightarrow> time_nodes" where
  "new_MemoryHandler nodes = \<lparr>m_CircularIndex = 0, m_NodeSize = nodes\<rparr>"

definition GetBroadcastNodeSlot :: "time_nodes \<Rightarrow> (nat \<times> time_nodes) option" where
  "GetBroadcastNodeSlot t =
     (let i = m_CircularIndex t
      in if i < m_NodeSize t then Some (i, t\<lparr>m_CircularIndex := advance i (m_NodeSize t)\<rparr>) else None)"

fun take_nodes :: "nat \<Rightarrow> time_nodes \<Rightarrow> (nat list \<times> time_nodes) option" where
  "take_nodes 0 t = Some ([], t)"
| "take_nodes (Suc n) t =
     (case GetBroadcastNodeSlot t of None \<Rightarrow> None
      | Some (i, t') \<Rightarrow> map_option (\<lambda>(is, t''). (i # is, t'')) (take_nodes n t'))"

section \<open>Properties\<close>

lemma advance_mod: "i < n \<Longrightarrow> advance i n = Suc i mod n"
  by (simp add: advance_def)

lemma take_nodes_mod:
  assumes "m_CircularIndex t < m_NodeSize t"
  shows "take_nodes n t = Some (map (\<lambda>k. (m_CircularIndex t + k) mod m_NodeSize t) [0..<n],
           t\<lparr>m_CircularIndex := (m_CircularIndex t + n) mod m_NodeSize t\<rparr>)"
  using assms
proof (induction n arbitrary: t)
  case 0
  then show ?case by simp
next
  case (Suc n)
  let ?t = "t\<lparr>m_CircularIndex := Suc (m_CircularIndex t) mod m_NodeSize t\<rparr>"
  have "take_nodes n ?t = Some (map (\<lambda>k. (m_CircularIndex ?t + k) mod m_NodeSize ?t) [0..<n],
           ?t\<lparr>m_CircularIndex := (m_CircularIndex ?t + n) mod m_NodeSize ?t\<rparr>)"
    using Suc.prems by (intro Suc.IH) (simp add: mod_less_divisor [of "m_NodeSize t"])
  then have "take_nodes (Suc n) t = Some (m_CircularIndex t # map (\<lambda>k. (m_CircularIndex t + Suc k) mod m_NodeSize t) [0..<n],
      t\<lparr>m_CircularIndex := (m_CircularIndex t + Suc n) mod m_NodeSize t\<rparr>)"
    using Suc.prems by (simp add: GetBroadcastNodeSlot_def Let_def advance_mod mod_add_left_eq mod_Suc_eq)
  moreover have "map (\<lambda>k. (m_CircularIndex t + k) mod m_NodeSize t) [0..<Suc n] =
      m_CircularIndex t # map (\<lambda>k. (m_CircularIndex t + Suc k) mod m_NodeSize t) [0..<n]"
    using Suc.prems by (simp add: upt_conv_Cons map_Suc_upt [symmetric] del: upt_Suc)
  ultimately show ?case by simp
qed

lemma ring_inj:
  assumes "i < (m::nat)" and "j < m" and "(c + i) mod m = (c + j) mod m"
  shows "i = j"
proof -
  have *: "i = j" if "i \<le> j" "j < m" "(c + i) mod m = (c + j) mod m" for i j
  proof -
    have "m dvd (c + j) - (c + i)" using that by (metis mod_eq_dvd_iff_nat add_le_cancel_left)
    then show ?thesis using that by (auto dest: dvd_imp_le)
  qed
  show ?thesis using assms * [of i j] * [of j i] by (cases "i \<le> j") auto
qed

text \<open>
  Time nodes are handed out round robin. Between two uses of one node lie all the
  other nodes of the ring: no node is handed out twice within \<^verbatim>\<open>m_NodeSize\<close> requests.
\<close>

theorem broadcast_slots_distinct:
  assumes "m_CircularIndex t < m_NodeSize t" and "n \<le> m_NodeSize t"
  shows "\<exists>is t'. take_nodes n t = Some (is, t') \<and> length is = n \<and> distinct is \<and>
           set is \<subseteq> {..<m_NodeSize t} \<and> m_CircularIndex t' < m_NodeSize t'"
proof -
  have "distinct (map (\<lambda>k. (m_CircularIndex t + k) mod m_NodeSize t) [0..<n])"
    unfolding distinct_map using assms(2) by (auto intro!: inj_onI dest: ring_inj [rotated 2])
  then show ?thesis using take_nodes_mod [OF assms(1), of n] assms(1) by auto
qed

lemma broadcast_slots_distinct_witness:
  "\<exists>is t'. take_nodes 3 (new_MemoryHandler 4) = Some (is, t') \<and> distinct is"
  using broadcast_slots_distinct [of "new_MemoryHandler 4" 3] by (auto simp: new_MemoryHandler_def)

definition slot_wf :: "memory_slot \<Rightarrow> bool" where
  "slot_wf m \<longleftrightarrow> m_Index m < m_Nodes m"

lemma inactive_loop_hit:
  "i < length nodes \<Longrightarrow> \<exists>r. inactive_loop nodes i s = Some r \<and>
     (case r of (Some k, j) \<Rightarrow> j = k \<and> k < length nodes \<and> slot_GameID (nodes ! k) = 0 | (None, j) \<Rightarrow> j = 0)"
proof (induction nodes i s rule: inactive_loop.induct)
  case (1 nodes i s)
  show ?case
  proof (cases "slot_GameID (nodes ! i) = 0")
    case True
    then show ?thesis using "1.prems" by (simp add: inactive_loop.simps [of nodes i s])
  next
    case False
    moreover have "nodes \<noteq> []" using "1.prems" by auto
    ultimately show ?thesis using "1.prems" "1.IH"
      by (auto simp: inactive_loop.simps [of nodes i s])
  qed
qed

lemma inactive_loop_none:
  "inactive_loop nodes i s = Some (None, j) \<Longrightarrow>
     (\<forall>k. i \<le> k \<and> k < length nodes \<longrightarrow> slot_GameID (nodes ! k) \<noteq> 0) \<and>
     (s < 2 \<longrightarrow> (\<forall>k < length nodes. slot_GameID (nodes ! k) \<noteq> 0))"
proof (induction nodes i s rule: inactive_loop.induct)
  case (1 nodes i s)
  have nz: "i < length nodes" "slot_GameID (nodes ! i) \<noteq> 0"
    using "1.prems" by (auto simp: inactive_loop.simps [of nodes i s] split: if_splits)
  show ?case
  proof (cases "i + 1 = length nodes")
    case True
    then have tl: "\<forall>k. i \<le> k \<and> k < length nodes \<longrightarrow> slot_GameID (nodes ! k) \<noteq> 0"
      using nz by (metis Suc_eq_plus1 le_antisym less_Suc_eq_le)
    moreover have "\<forall>k < length nodes. slot_GameID (nodes ! k) \<noteq> 0" if "s < 2"
    proof -
      have "inactive_loop nodes 0 (s + 1) = Some (None, j)"
        using "1.prems" nz True that by (auto simp: inactive_loop.simps [of nodes i s])
      then show ?thesis using "1.IH"(1) nz True that by auto
    qed
    ultimately show ?thesis by blast
  next
    case False
    then have "inactive_loop nodes (i + 1) s = Some (None, j)"
      using "1.prems" nz by (simp add: inactive_loop.simps [of nodes i s])
    then have "(\<forall>k. i + 1 \<le> k \<and> k < length nodes \<longrightarrow> slot_GameID (nodes ! k) \<noteq> 0) \<and>
        (s < 2 \<longrightarrow> (\<forall>k < length nodes. slot_GameID (nodes ! k) \<noteq> 0))"
      using "1.IH"(2) nz False by blast
    then show ?thesis using nz(2) by (metis Suc_eq_plus1 Suc_leI le_neq_implies_less)
  qed
qed

text \<open>
  \<^verbatim>\<open>GetInactiveNode\<close> always returns. It hands out a node whose game id is 0 whenever the
  pool has one, and a null pointer exactly when no node is free; its index stays in the pool.
\<close>

theorem GetInactiveNode_complete:
  assumes "slot_wf m"
  shows "\<exists>r m'. GetInactiveNode m = Some (r, m') \<and> slot_wf m' \<and> m_NodeSpace m' = m_NodeSpace m \<and>
    (case r of Some k \<Rightarrow> k < m_Nodes m \<and> slot_GameID (m_NodeSpace m ! k) = 0
       | None \<Rightarrow> \<forall>n \<in> set (m_NodeSpace m). slot_GameID n \<noteq> 0)"
proof -
  have i: "m_Index m < length (m_NodeSpace m)" using assms by (simp add: slot_wf_def m_Nodes_def)
  obtain r j where r: "inactive_loop (m_NodeSpace m) (m_Index m) 0 = Some (r, j)"
      "case r of Some k \<Rightarrow> j = k \<and> k < length (m_NodeSpace m) \<and> slot_GameID (m_NodeSpace m ! k) = 0 | None \<Rightarrow> j = 0"
    using inactive_loop_hit [OF i, of 0] by fastforce
  show ?thesis
  proof (cases r)
    case None
    then have "\<forall>n \<in> set (m_NodeSpace m). slot_GameID n \<noteq> 0"
      using inactive_loop_none r(1) by (fastforce simp: in_set_conv_nth)
    then show ?thesis using r None i by (auto simp: GetInactiveNode_def slot_wf_def m_Nodes_def)
  next
    case (Some k)
    then show ?thesis using r
      by (auto simp: GetInactiveNode_def slot_wf_def m_Nodes_def advance_def)
  qed
qed

lemma GetInactiveNode_complete_witness:
  "\<exists>r m'. GetInactiveNode (new_MemorySlot [\<lparr>slot_GameID = 5, slot_Active = True\<rparr>]) = Some (r, m') \<and> slot_wf m'"
  using GetInactiveNode_complete [of "new_MemorySlot [\<lparr>slot_GameID = 5, slot_Active = True\<rparr>]"]
  by (auto simp: slot_wf_def new_MemorySlot_def m_Nodes_def)

lemma release_duplicates_nth:
  "k < length nodes \<Longrightarrow> slot_GameID (nodes ! k) \<noteq> 0 \<Longrightarrow> n \<le> length nodes \<Longrightarrow>
   length (release_duplicates k n nodes) = length nodes \<and>
   (\<forall>j < length nodes. release_duplicates k n nodes ! j =
      (if j < n \<and> j \<noteq> k \<and> slot_GameID (nodes ! j) = slot_GameID (nodes ! k)
       then (nodes ! j)\<lparr>slot_GameID := 0\<rparr> else nodes ! j))"
  by (induction n) (auto simp: Let_def nth_list_update less_Suc_eq)

text \<open>
  After \<^verbatim>\<open>ReleaseDuplicateNodes\<close> no other node of the pool carries the id of the node
  that was kept; the kept node and the nodes with other ids are unchanged.
\<close>

lemma ReleaseDuplicateNodes_unique:
  assumes "k < m_Nodes m" and "slot_GameID (m_NodeSpace m ! k) \<noteq> 0"
  shows "m_NodeSpace (ReleaseDuplicateNodes k m) ! k = m_NodeSpace m ! k \<and>
    (\<forall>j < m_Nodes m. j \<noteq> k \<longrightarrow>
       slot_GameID (m_NodeSpace (ReleaseDuplicateNodes k m) ! j) \<noteq> slot_GameID (m_NodeSpace m ! k))"
  using assms release_duplicates_nth [of k "m_NodeSpace m" "m_Nodes m"]
  by (auto simp: ReleaseDuplicateNodes_def m_Nodes_def)

end
