(* ===== verification/PacketMethods.thy ===== *)
theory PacketMethods
  imports Net7_Prelude
begin

text \<open>
  The packet builders and readers of \<^verbatim>\<open>server/src/PacketMethods.h\<close>. Each C++
  helper takes the packet buffer and a reference to the running \<^verbatim>\<open>index\<close>; the
  model returns the new buffer and the new index, and \<^term>\<open>None\<close> where the
  helper would touch memory outside the buffer. The locale \<open>packet_field\<close> states
  what a writer and its reader promise each other, and its lemmas lift the
  round trip of one field to sequences of fields.
\<close>

section \<open>Writers\<close>

type_synonym packet_state = "bytes \<times> nat"

text \<open>The generic template: \<^verbatim>\<open>*((T*)&packet[index]) = mydata; index += sizeof(T)\<close>.\<close>

definition AddData :: "bytes \<Rightarrow> 'a::len word \<Rightarrow> nat \<Rightarrow> packet_state option" where
  "AddData packet mydata index =
     (let n = LENGTH('a) div 8 in
      map_option (\<lambda>p. (p, index + n)) (poke packet index (le_bytes n mydata)))"

text \<open>The specialisations for \<^verbatim>\<open>long\<close> and \<^verbatim>\<open>unsigned long\<close> emit four bytes.\<close>

definition AddData_long :: "bytes \<Rightarrow> clong \<Rightarrow> nat \<Rightarrow> packet_state option" where
  "AddData_long packet mydata index =
     map_option (\<lambda>p. (p, index + 4)) (poke packet index (le_bytes 4 (ucast mydata :: s32)))"

definition AddData_ulong :: "bytes \<Rightarrow> u64 \<Rightarrow> nat \<Rightarrow> packet_state option" where
  "AddData_ulong packet mydata index =
     map_option (\<lambda>p. (p, index + 4)) (poke packet index (le_bytes 4 (ucast mydata :: u32)))"

definition AddData64 :: "bytes \<Rightarrow> u64 \<Rightarrow> nat \<Rightarrow> packet_state option" where
  "AddData64 packet mydata index =
     map_option (\<lambda>p. (p, index + 8)) (poke packet index (le_bytes 8 mydata))"

definition AddDataS :: "bytes \<Rightarrow> bytes \<Rightarrow> nat \<Rightarrow> packet_state option" where
  "AddDataS packet mydata index =
     map_option (\<lambda>p. (p, index + length mydata)) (poke packet index mydata)"

definition AddDataSN :: "bytes \<Rightarrow> bytes \<Rightarrow> nat \<Rightarrow> packet_state option" where
  "AddDataSN packet mydata index =
     map_option (\<lambda>p. (p, index + length mydata + 1)) (poke packet index (mydata @ [0]))"

text \<open>A null pointer (\<^term>\<open>None\<close>) is skipped by \<^verbatim>\<open>AddDataLS\<close>; the length is cut to a short.\<close>

definition AddDataLS :: "bytes \<Rightarrow> bytes option \<Rightarrow> nat \<Rightarrow> packet_state option" where
  "AddDataLS packet mydata index =
     (case mydata of
        None \<Rightarrow> Some (packet, index)
      | Some s \<Rightarrow> do {
          (p, i) \<leftarrow> AddData packet (of_nat (length s) :: s16) index;
          p' \<leftarrow> poke p i s;
          Some (p', i + length s)
        })"

definition AddDataLSN :: "bytes \<Rightarrow> bytes \<Rightarrow> nat \<Rightarrow> packet_state option" where
  "AddDataLSN packet s index = do {
     (p, i) \<leftarrow> AddData packet (of_nat (length s + 1) :: s16) index;
     p' \<leftarrow> poke p i (s @ [0]);
     Some (p', i + length s + 1)
   }"

text \<open>\<^verbatim>\<open>ntohl\<close> and \<^verbatim>\<open>ntohs\<close> on a little-endian host reverse the bytes.\<close>

definition ntohl :: "u32 \<Rightarrow> u32" where
  "ntohl w = le_word (rev (le_bytes 4 w))"

definition ntohs :: "16 word \<Rightarrow> 16 word" where
  "ntohs w = le_word (rev (le_bytes 2 w))"

definition AddDataFlip4 :: "bytes \<Rightarrow> clong \<Rightarrow> nat \<Rightarrow> packet_state option" where
  "AddDataFlip4 packet mydata index =
     map_option (\<lambda>p. (p, index + 4)) (poke packet index (le_bytes 4 (ntohl (ucast mydata))))"

definition AddDataFlip2 :: "bytes \<Rightarrow> s16 \<Rightarrow> nat \<Rightarrow> packet_state option" where
  "AddDataFlip2 packet mydata index =
     map_option (\<lambda>p. (p, index + 2)) (poke packet index (le_bytes 2 (ntohs mydata)))"

definition AddBuffer :: "bytes \<Rightarrow> bytes \<Rightarrow> nat \<Rightarrow> nat \<Rightarrow> packet_state option" where
  "AddBuffer packet buffer len index = do {
     src \<leftarrow> peek buffer 0 len;
     p \<leftarrow> poke packet index src;
     Some (p, index + len)
   }"

section \<open>Readers\<close>

text \<open>
  The reader of a length-prefixed string copies into the caller's buffer and
  terminates it. The length is a signed short: a negative one makes \<^verbatim>\<open>memcpy\<close>
  run over a huge \<^verbatim>\<open>size_t\<close> (an error here).
\<close>

definition ExtractDataLS :: "bytes \<Rightarrow> bytes \<Rightarrow> nat \<Rightarrow> packet_state option" where
  "ExtractDataLS packet buffer index = do {
     lb \<leftarrow> peek packet index 2;
     let string_length = sint (le_word lb :: s16);
     if string_length < 0 then None
     else do {
       s \<leftarrow> peek packet (index + 2) (nat string_length);
       b \<leftarrow> poke buffer 0 s;
       b' \<leftarrow> poke b (nat string_length) [0];
       Some (b', index + 2 + nat string_length)
     }
   }"

definition ExtractLong :: "bytes \<Rightarrow> nat \<Rightarrow> (clong \<times> nat) option" where
  "ExtractLong packet index =
     map_option (\<lambda>bs. (scast (le_word bs :: s32), index + 4)) (peek packet index 4)"

definition ExtractShort :: "bytes \<Rightarrow> nat \<Rightarrow> (s16 \<times> nat) option" where
  "ExtractShort packet index =
     map_option (\<lambda>bs. (le_word bs, index + 2)) (peek packet index 2)"

text \<open>A float is read as its 32-bit pattern.\<close>

definition ExtractFloat :: "bytes \<Rightarrow> nat \<Rightarrow> (32 word \<times> nat) option" where
  "ExtractFloat packet index =
     map_option (\<lambda>bs. (le_word bs, index + 4)) (peek packet index 4)"

section \<open>What a writer and its reader promise\<close>

text \<open>
  \<open>put\<close> writes \<open>width x\<close> bytes at the index and touches nothing else; \<open>get\<close>
  looks only at those bytes and returns what was put, for every value in \<open>ok\<close>.
\<close>

locale packet_field =
  fixes put :: "bytes \<Rightarrow> 'v \<Rightarrow> nat \<Rightarrow> packet_state option"
    and get :: "bytes \<Rightarrow> nat \<Rightarrow> ('v \<times> nat) option"
    and width :: "'v \<Rightarrow> nat"
    and ok :: "'v \<Rightarrow> bool"
  assumes put_defined: "ok x \<Longrightarrow> i + width x \<le> length p \<Longrightarrow> \<exists>p'. put p x i = Some (p', i + width x)"
    and put_length: "put p x i = Some (p', j) \<Longrightarrow> length p' = length p"
    and put_index: "ok x \<Longrightarrow> put p x i = Some (p', j) \<Longrightarrow> j = i + width x"
    and put_frame: "ok x \<Longrightarrow> put p x i = Some (p', j) \<Longrightarrow> k + n \<le> i \<or> j \<le> k \<Longrightarrow> peek p' k n = peek p k n"
    and get_put: "ok x \<Longrightarrow> put p x i = Some (p', j) \<Longrightarrow> get p' i = Some (x, j)"
    and get_local: "ok x \<Longrightarrow> get p i = Some (x, i + width x) \<Longrightarrow> length p' = length p \<Longrightarrow>
                    peek p' i (width x) = peek p i (width x) \<Longrightarrow> get p' i = Some (x, i + width x)"
begin

fun put_all :: "bytes \<Rightarrow> 'v list \<Rightarrow> nat \<Rightarrow> packet_state option" where
  "put_all p [] i = Some (p, i)"
| "put_all p (x # xs) i = (case put p x i of None \<Rightarrow> None | Some (p', j) \<Rightarrow> put_all p' xs j)"

fun get_n :: "nat \<Rightarrow> bytes \<Rightarrow> nat \<Rightarrow> ('v list \<times> nat) option" where
  "get_n 0 p i = Some ([], i)"
| "get_n (Suc n) p i =
     (case get p i of None \<Rightarrow> None
      | Some (x, j) \<Rightarrow> (case get_n n p j of None \<Rightarrow> None | Some (xs, k) \<Rightarrow> Some (x # xs, k)))"

lemma put_all_defined:
  "\<forall>x \<in> set xs. ok x \<Longrightarrow> i + sum_list (map width xs) \<le> length p \<Longrightarrow>
   \<exists>p'. put_all p xs i = Some (p', i + sum_list (map width xs)) \<and> length p' = length p"
proof (induction xs arbitrary: p i)
  case Nil
  then show ?case by simp
next
  case (Cons x xs)
  then obtain p' where p': "put p x i = Some (p', i + width x)"
    using put_defined [of x i p] by auto
  then have len: "length p' = length p" by (rule put_length)
  obtain q where "put_all p' xs (i + width x) = Some (q, i + width x + sum_list (map width xs))"
    and "length q = length p'"
    using Cons.IH [of "i + width x" p'] Cons.prems len by auto
  with p' len show ?case by (simp add: add.assoc)
qed

lemma put_all_frame:
  "\<forall>x \<in> set xs. ok x \<Longrightarrow> put_all p xs i = Some (p', j) \<Longrightarrow>
   length p' = length p \<and> i \<le> j \<and> (\<forall>k n. k + n \<le> i \<longrightarrow> peek p' k n = peek p k n)"
proof (induction xs arbitrary: p i)
  case Nil
  then show ?case by simp
next
  case (Cons x xs)
  then obtain q m where q: "put p x i = Some (q, m)" and rest: "put_all q xs m = Some (p', j)"
    by (auto split: option.splits)
  have m: "m = i + width x" using Cons.prems q put_index by auto
  have IH: "length p' = length q \<and> m \<le> j \<and> (\<forall>k n. k + n \<le> m \<longrightarrow> peek p' k n = peek q k n)"
    using Cons rest by auto
  have frame: "k + n \<le> i \<Longrightarrow> peek q k n = peek p k n" for k n
    using put_frame [OF _ q] Cons.prems by auto
  show ?case using IH m frame put_length [OF q] by auto
qed

lemma get_n_put_all:
  "\<forall>x \<in> set xs. ok x \<Longrightarrow> put_all p xs i = Some (p', j) \<Longrightarrow>
   get_n (length xs) p' i = Some (xs, j)"
proof (induction xs arbitrary: p i)
  case Nil
  then show ?case by simp
next
  case (Cons x xs)
  then obtain q m where q: "put p x i = Some (q, m)" and rest: "put_all q xs m = Some (p', j)"
    by (auto split: option.splits)
  have okx: "ok x" and oks: "\<forall>y \<in> set xs. ok y" using Cons.prems by auto
  have m: "m = i + width x" using okx q by (rule put_index)
  from put_all_frame [OF oks rest]
  have len: "length p' = length q" and same: "peek p' i (width x) = peek q i (width x)"
    using m by auto
  have "get p' i = Some (x, i + width x)"
    using get_put [OF okx q] m by (intro get_local [OF okx _ len same]) simp
  with Cons.IH [OF oks rest] m show ?case by simp
qed

end

section \<open>Fixed-width fields\<close>

text \<open>Everything a fixed-width field needs follows from the laws of \<open>poke\<close> and \<open>peek\<close>.\<close>

lemma packet_field_fixed:
  assumes put: "\<And>p x i. put p x i = map_option (\<lambda>q. (q, i + n)) (poke p i (enc x))"
    and get: "\<And>p i. get p i = map_option (\<lambda>bs. (dec bs, i + n)) (peek p i n)"
    and enc: "\<And>x. length (enc x) = n" and dec: "\<And>x. ok x \<Longrightarrow> dec (enc x) = x"
  shows "packet_field put get (\<lambda>_. n) ok"
proof
  fix x i and p :: bytes assume "ok x" "i + n \<le> length p"
  then show "\<exists>p'. put p x i = Some (p', i + n)" by (simp add: put poke_def enc)
next
  fix p x i p' j assume "put p x i = Some (p', j)"
  then show "length p' = length p" by (auto simp: put dest: poke_length)
next
  fix p x i p' j assume "ok x" "put p x i = Some (p', j)"
  then show "j = i + n" by (auto simp: put)
next
  fix x p i p' j k m assume "ok x" "put p x i = Some (p', j)" "k + m \<le> i \<or> j \<le> k"
  then show "peek p' k m = peek p k m"
    by (auto simp: put enc intro: peek_poke_disjoint)
next
  fix x p i p' j assume "ok x" "put p x i = Some (p', j)"
  then show "get p' i = Some (x, j)"
    using peek_poke_same [of p i "enc x" p'] by (auto simp: put get enc dec)
next
  fix x p i and p' :: bytes assume "get p i = Some (x, i + n)" "peek p' i n = peek p i n"
  then show "get p' i = Some (x, i + n)" by (simp add: get)
qed

text \<open>A \<^verbatim>\<open>long\<close> survives the wire exactly when it fits in 32 bits.\<close>

definition fits_long :: "clong \<Rightarrow> bool" where
  "fits_long v \<longleftrightarrow> - (2 ^ 31) \<le> sint v \<and> sint v < 2 ^ 31"

lemma scast_ucast_fits: "fits_long v \<Longrightarrow> scast (ucast v :: s32) = v"
proof -
  assume f: "fits_long v"
  have "sint (ucast v :: s32) = signed_take_bit 31 (sint v)"
    by (simp add: signed_ucast_eq sint_uint unsigned_ucast_eq signed_take_bit_take_bit
        take_bit_word_eq_self)
  also have "\<dots> = sint v"
    using f by (simp add: fits_long_def signed_take_bit_int_eq_self)
  finally have "(word_of_int (sint (ucast v :: s32)) :: clong) = word_of_int (sint v)"
    by (rule arg_cong)
  also have "\<dots> = v" by simp
  finally show ?thesis unfolding scast_eq .
qed

interpretation long_field: packet_field AddData_long ExtractLong "\<lambda>_. 4" fits_long
  by (rule packet_field_fixed [where enc = "\<lambda>v. le_bytes 4 (ucast v :: s32)"
        and dec = "\<lambda>bs. scast (le_word bs :: s32)"])
    (simp_all add: AddData_long_def ExtractLong_def le_word_le_bytes scast_ucast_fits)

interpretation short_field: packet_field "AddData :: bytes \<Rightarrow> s16 \<Rightarrow> nat \<Rightarrow> packet_state option"
  ExtractShort "\<lambda>_. 2" "\<lambda>_. True"
  by (rule packet_field_fixed [where enc = "le_bytes 2" and dec = le_word])
    (simp_all add: AddData_def ExtractShort_def le_word_le_bytes)

interpretation float_field: packet_field "AddData :: bytes \<Rightarrow> 32 word \<Rightarrow> nat \<Rightarrow> packet_state option"
  ExtractFloat "\<lambda>_. 4" "\<lambda>_. True"
  by (rule packet_field_fixed [where enc = "le_bytes 4" and dec = le_word])
    (simp_all add: AddData_def ExtractFloat_def le_word_le_bytes)

section \<open>Length-prefixed strings\<close>

text \<open>
  The reader hands the string back in a buffer of the caller's; \<open>get_LS\<close> reads it
  out of a buffer of 32768 bytes, the longest a short length can ask for.
\<close>

definition get_LS :: "bytes \<Rightarrow> nat \<Rightarrow> (bytes \<times> nat) option" where
  "get_LS packet index =
     map_option (\<lambda>(b, j). (cstr_of b, j)) (ExtractDataLS packet (replicate 32768 0) index)"

definition short_string :: "bytes \<Rightarrow> bool" where
  "short_string s \<longleftrightarrow> cstring s \<and> length s < 2 ^ 15"

lemma sint_long_length: "2 ^ 15 \<le> n \<Longrightarrow> n < 2 ^ 16 \<Longrightarrow> sint (of_nat n :: s16) < 0"
proof -
  assume n: "2 ^ 15 \<le> n" "n < 2 ^ 16"
  have "sint (of_nat n :: s16) = signed_take_bit 15 (int n)" by (simp add: signed_of_nat)
  moreover have "int n div 2 ^ 15 = 1" using n by simp
  then have "bit (int n) 15" by (simp add: bit_iff_odd)
  ultimately show ?thesis by (simp add: signed_take_bit_negative_iff)
qed

lemma AddDataLS_eq:
  "AddDataLS p (Some s) i = map_option (\<lambda>q. (q, i + (2 + length s)))
     (poke p i (le_bytes 2 (of_nat (length s) :: s16) @ s))"
  by (auto simp: AddDataLS_def AddData_def poke_def min_def add.commute)

lemma ExtractDataLS_read:
  assumes s: "short_string s" and b: "length s < length b"
    and rd: "peek p i (2 + length s) = Some (le_bytes 2 (of_nat (length s) :: s16) @ s)"
  shows "\<exists>b'. ExtractDataLS p b i = Some (b', i + 2 + length s) \<and> cstr_of b' = s"
proof -
  have "peek p i 2 = Some (le_bytes 2 (of_nat (length s) :: s16))"
    and "peek p (i + 2) (length s) = Some s"
    using peek_append [of p i "le_bytes 2 (of_nat (length s) :: s16)" s] rd by simp_all
  moreover have "sint (of_nat (length s) :: s16) = int (length s)"
    using s by (simp add: short_string_def sint_short_length)
  moreover have "cstr_of (s @ 0 # drop (Suc (length s)) b) = s"
    using s by (simp add: short_string_def cstr_of_append_zero)
  ultimately show ?thesis using b
    by (auto simp: ExtractDataLS_def le_word_le_bytes poke_def Let_def)
qed

lemma ExtractDataLS_result:
  assumes "ExtractDataLS p B i = Some (b, j)"
  shows "\<exists>lb t. peek p i 2 = Some lb \<and> 0 \<le> sint (le_word lb :: s16) \<and>
     peek p (i + 2) (nat (sint (le_word lb :: s16))) = Some t \<and>
     j = i + 2 + nat (sint (le_word lb :: s16)) \<and> length t < length B \<and>
     b = t @ 0 # drop (Suc (length t)) B"
  using assms
  by (auto simp: ExtractDataLS_def Let_def bind_eq_Some_conv poke_def dest: peek_length
      split: if_splits)

text \<open>What the reader returned with exactly this length is in the packet.\<close>

lemma get_LS_image:
  assumes s: "short_string s" and get: "get_LS p i = Some (s, i + (2 + length s))"
  shows "peek p i (2 + length s) = Some (le_bytes 2 (of_nat (length s) :: s16) @ s)"
proof -
  from get obtain b where ex: "ExtractDataLS p (replicate 32768 0) i = Some (b, i + (2 + length s))"
    and sb: "s = cstr_of b"
    by (auto simp: get_LS_def)
  from ExtractDataLS_result [OF ex] obtain lb t where lb: "peek p i 2 = Some lb"
    and nn: "sint (le_word lb :: s16) = int (length s)"
    and t: "peek p (i + 2) (length s) = Some t"
    and b: "b = t @ 0 # drop (Suc (length t)) (replicate 32768 0)"
    by auto
  have "length (takeWhile (\<lambda>x. x \<noteq> 0) b) = length t"
    using sb peek_length [OF t] by (simp add: cstr_of_def)
  then have ts: "t = s" using sb b
    by (metis append_eq_conv_conj cstr_of_def takeWhile_eq_take)
  have "le_word lb = (of_nat (length s) :: s16)"
    using arg_cong [OF nn, of "word_of_int :: int \<Rightarrow> s16"] by simp
  then have "lb = le_bytes 2 (of_nat (length s) :: s16)"
    using le_bytes_le_word [of lb, where 'a = 16] peek_length [OF lb] by simp
  then show ?thesis using peek_appendI [of p i lb s] lb t ts peek_length [OF lb] by simp
qed

interpretation string_field: packet_field "\<lambda>p s i. AddDataLS p (Some s) i" get_LS
  "\<lambda>s. 2 + length s" short_string
proof
  fix s i and p :: bytes assume "short_string s" "i + (2 + length s) \<le> length p"
  then show "\<exists>p'. AddDataLS p (Some s) i = Some (p', i + (2 + length s))"
    by (simp add: AddDataLS_eq poke_def)
next
  fix p s i p' j assume "AddDataLS p (Some s) i = Some (p', j)"
  then show "length p' = length p" by (auto simp: AddDataLS_eq dest: poke_length)
next
  fix s p i p' j assume "AddDataLS p (Some s) i = Some (p', j)"
  then show "j = i + (2 + length s)" by (auto simp: AddDataLS_eq)
next
  fix s p i p' j k n assume "AddDataLS p (Some s) i = Some (p', j)" "k + n \<le> i \<or> j \<le> k"
  then show "peek p' k n = peek p k n"
    by (auto simp: AddDataLS_eq intro: peek_poke_disjoint)
next
  fix s p i p' j assume s: "short_string s" and put: "AddDataLS p (Some s) i = Some (p', j)"
  let ?bs = "le_bytes 2 (of_nat (length s) :: s16) @ s"
  have "poke p i ?bs = Some p'" and j: "j = i + (2 + length s)"
    using put by (auto simp: AddDataLS_eq)
  then have "peek p' i (2 + length s) = Some ?bs"
    using peek_poke_same [of p i ?bs p'] by simp
  then show "get_LS p' i = Some (s, j)"
    using ExtractDataLS_read [OF s, of "replicate 32768 0" p' i] s j
    by (auto simp: get_LS_def short_string_def)
next
  fix s p i and p' :: bytes
  assume s: "short_string s" and get: "get_LS p i = Some (s, i + (2 + length s))"
    and same: "peek p' i (2 + length s) = peek p i (2 + length s)"
  have "peek p i (2 + length s) = Some (le_bytes 2 (of_nat (length s) :: s16) @ s)"
    using s get by (rule get_LS_image)
  then show "get_LS p' i = Some (s, i + (2 + length s))"
    using ExtractDataLS_read [OF s, of "replicate 32768 0" p' i] s same
    by (auto simp: get_LS_def short_string_def)
qed

section \<open>Properties\<close>

text \<open>A string sent with \<^verbatim>\<open>AddDataLS\<close> and read back with \<^verbatim>\<open>ExtractDataLS\<close> arrives
  unchanged, both helpers advance the index by the same amount, and neither leaves its
  buffer, for every string shorter than \<open>2^15\<close> bytes and every packet and destination
  with room for it.\<close>

theorem AddDataLS_ExtractDataLS:
  assumes "cstring s" and "length s < 2 ^ 15" and "i + 2 + length s \<le> length p"
    and "length s < length b"
  shows "\<exists>p' b'. AddDataLS p (Some s) i = Some (p', i + 2 + length s) \<and> length p' = length p \<and>
           ExtractDataLS p' b i = Some (b', i + 2 + length s) \<and> cstr_of b' = s"
proof -
  have s: "short_string s" using assms by (simp add: short_string_def)
  obtain p' where p': "AddDataLS p (Some s) i = Some (p', i + (2 + length s))"
    using string_field.put_defined [OF s, of i p] assms by auto
  have img: "peek p' i (2 + length s) = Some (le_bytes 2 (of_nat (length s) :: s16) @ s)"
    using s string_field.get_put [OF s p'] by (rule get_LS_image)
  show ?thesis
    using p' string_field.put_length [OF p'] ExtractDataLS_read [OF s assms(4) img]
    by (auto simp: add.assoc)
qed

theorem AddDataLS_ExtractDataLS_witness:
  "\<exists>p' b'. AddDataLS (replicate 8 0) (Some [72, 105]) 1 = Some (p', 1 + 2 + Suc 1) \<and>
     length p' = 8 \<and> ExtractDataLS p' (replicate 4 1) 1 = Some (b', 1 + 2 + Suc 1) \<and> cstr_of b' = [72, 105]"
  using AddDataLS_ExtractDataLS [of "[72, 105]" 1 "replicate 8 0" "replicate 4 1"]
  by (simp add: cstring_def)

text \<open>The length prefix is a signed short: a string of \<open>2^15\<close> to \<open>2^16 - 1\<close> bytes
  is written without complaint, and reading it back is undefined behaviour (a negative
  \<^verbatim>\<open>memcpy\<close> length), whatever the destination.\<close>

theorem AddDataLS_long_string_breaks:
  assumes "2 ^ 15 \<le> length s" and "length s < 2 ^ 16" and "i + 2 + length s \<le> length p"
  shows "\<exists>p'. AddDataLS p (Some s) i = Some (p', i + 2 + length s) \<and> ExtractDataLS p' b i = None"
proof -
  let ?n = "of_nat (length s) :: s16"
  obtain p' where p': "poke p i (le_bytes 2 ?n @ s) = Some p'"
    using assms by (auto simp: poke_def)
  have "peek p' i (2 + length s) = Some (le_bytes 2 ?n @ s)"
    using peek_poke_same [OF p'] by simp
  then have "peek p' i 2 = Some (le_bytes 2 ?n)"
    using peek_append(1) [of p' i "le_bytes 2 ?n" s] by simp
  moreover have "sint ?n < 0" using assms by (intro sint_long_length)
  ultimately have "ExtractDataLS p' b i = None"
    by (simp add: ExtractDataLS_def Let_def le_word_le_bytes)
  then show ?thesis using p' by (simp add: AddDataLS_eq add.assoc)
qed

theorem AddDataLS_long_string_breaks_witness:
  "\<exists>p'. AddDataLS (replicate 40000 0) (Some (replicate 32768 1)) 0 = Some (p', 32770) \<and>
     ExtractDataLS p' [] 0 = None"
  using AddDataLS_long_string_breaks [of "replicate 32768 1" 0 "replicate 40000 0" "[]"] by simp

text \<open>A run of \<^verbatim>\<open>long\<close> values written one after the other with the four-byte
  specialisation reads back as the same run exactly when the values fit in 32 bits; the
  single-value statement holds for all values: what arrives is the sign extension of the
  low 32 bits.\<close>

theorem AddData_long_ExtractLong:
  assumes "i + 4 \<le> length p"
  shows "\<exists>p'. AddData_long p v i = Some (p', i + 4) \<and>
           ExtractLong p' i = Some (scast (ucast v :: s32), i + 4) \<and>
           (scast (ucast v :: s32) = v \<longleftrightarrow> fits_long v)"
proof -
  obtain p' where p': "poke p i (le_bytes 4 (ucast v :: s32)) = Some p'"
    using assms by (auto simp: poke_def)
  have "fits_long (scast (ucast v :: s32))"
    using sint_greater_eq [of "ucast v :: s32"] sint_less [of "ucast v :: s32"]
    by (simp add: fits_long_def signed_scast_eq signed_take_bit_int_eq_self)
  then have "scast (ucast v :: s32) = v \<Longrightarrow> fits_long v" by metis
  then show ?thesis
    using p' peek_poke_same [OF p'] scast_ucast_fits
    by (auto simp: AddData_long_def ExtractLong_def le_word_le_bytes)
qed

theorem AddData_long_ExtractLong_witness:
  "\<exists>p'. AddData_long (replicate 4 0) (2 ^ 32 + 7) 0 = Some (p', 4) \<and>
     ExtractLong p' 0 = Some (7, 4) \<and> \<not> fits_long (2 ^ 32 + 7)"
  using AddData_long_ExtractLong [of 0 "replicate 4 0" "2 ^ 32 + 7"] by simp

text \<open>The flipped writers put the network (big-endian) image on the wire, and
  \<^verbatim>\<open>ntohl\<close> is its own inverse.\<close>

theorem AddDataFlip4_big_endian:
  "AddDataFlip4 p v i = map_option (\<lambda>q. (q, i + 4)) (poke p i (rev (le_bytes 4 (ucast v :: u32))))
   \<and> ntohl (ntohl w) = w"
proof -
  have img: "le_bytes 4 (ntohl x) = rev (le_bytes 4 x)" for x :: u32
    using le_bytes_le_word [of "rev (le_bytes 4 x)", where 'a = 32] by (simp add: ntohl_def)
  have "ntohl (ntohl w) = le_word (le_bytes 4 w)"
    using img [of w] by (simp add: ntohl_def [of "ntohl w"])
  then show ?thesis by (simp add: AddDataFlip4_def img le_word_le_bytes)
qed

end
