(* ===== verification/AuxBase.thy ===== *)
theory AuxBase
  imports PacketMethods IndexBits
begin

text \<open>
  The base class of the delta-encoded state objects, \<^verbatim>\<open>server/src/AuxClasses/AuxBase.cpp\<close>
  and \<^verbatim>\<open>AuxBase.h\<close>. Every object of the tree carries flag bytes (which fields changed since
  the last packet) and extended flag bytes (which fields are set and which are empty). A
  changed field marks its object and, through the parent pointers, every ancestor. The
  model works on the path of objects from the changed one to the root: the head of the
  list is the object, the tail its ancestors. Floats are their 32-bit patterns, with
  IEEE comparison written out; C strings are lists of their non-zero bytes.
\<close>

section \<open>Floats as bit patterns\<close>

type_synonym f32 = "32 word"

definition f_zero :: "f32 \<Rightarrow> bool" where
  "f_zero x \<longleftrightarrow> x AND 0x7FFFFFFF = 0"

definition f_nan :: "f32 \<Rightarrow> bool" where
  "f_nan x \<longleftrightarrow> x AND 0x7F800000 = 0x7F800000 \<and> x AND 0x007FFFFF \<noteq> 0"

definition f_eq :: "f32 \<Rightarrow> f32 \<Rightarrow> bool" where
  "f_eq x y \<longleftrightarrow> \<not> f_nan x \<and> \<not> f_nan y \<and> (x = y \<or> f_zero x \<and> f_zero y)"

section \<open>State\<close>

text \<open>
  \<^verbatim>\<open>HasData_mask\<close> stands for the virtual \<^verbatim>\<open>CheckData\<close>: \<^term>\<open>None\<close> for the empty method of the base
  class, otherwise the masks with which the class's \<^verbatim>\<open>HasData\<close> tests its extended flags.
  An empty list of extended flags is the null pointer.
\<close>

record aux =
  m_Flags :: bytes
  m_ExtendedFlags :: bytes
  m_FlagCount :: nat
  m_MemberIndex :: nat
  m_Max_Buffer :: u64
  HasData_mask :: "bytes option"

type_synonym aux_path = "aux list"

definition Construct :: "bytes \<Rightarrow> bytes \<Rightarrow> nat \<Rightarrow> nat \<Rightarrow> bytes option \<Rightarrow> aux" where
  "Construct Flags ExtendedFlags FlagCount MemberIndex hmask =
     \<lparr>m_Flags = Flags, m_ExtendedFlags = ExtendedFlags, m_FlagCount = FlagCount,
      m_MemberIndex = MemberIndex, m_Max_Buffer = -1, HasData_mask = hmask\<rparr>"

section \<open>Flag bits\<close>

definition CheckAuxBit :: "bytes \<Rightarrow> nat \<Rightarrow> bool" where
  "CheckAuxBit flagBuffer flagNum \<longleftrightarrow>
     (flagBuffer ! ((flagNum + 4) div 8)) AND push_bit ((flagNum + 4) mod 8) 1 \<noteq> 0"

definition SetAuxBit :: "bytes \<Rightarrow> nat \<Rightarrow> bytes" where
  "SetAuxBit flagBuffer flagNum =
     flagBuffer[(flagNum + 4) div 8 :=
       (flagBuffer ! ((flagNum + 4) div 8)) OR push_bit ((flagNum + 4) mod 8) 1]"

definition UnsetAuxBit :: "bytes \<Rightarrow> nat \<Rightarrow> bytes" where
  "UnsetAuxBit flagBuffer flagNum =
     flagBuffer[(flagNum + 4) div 8 :=
       (flagBuffer ! ((flagNum + 4) div 8)) AND NOT (push_bit ((flagNum + 4) mod 8) 1)]"

definition main_flag :: "bytes \<Rightarrow> bool" where
  "main_flag fl \<longleftrightarrow> (fl ! 0) AND 0x02 \<noteq> 0"

definition set_main_flag :: "bytes \<Rightarrow> bytes" where
  "set_main_flag fl = fl[0 := (fl ! 0) OR 0x02]"

definition CheckFlagBit :: "aux \<Rightarrow> nat \<Rightarrow> bool" where
  "CheckFlagBit a flagNum = CheckAuxBit (m_Flags a) flagNum"

definition CheckExtendedFlagBit1 :: "aux \<Rightarrow> nat \<Rightarrow> bool" where
  "CheckExtendedFlagBit1 a flagNum = CheckAuxBit (m_ExtendedFlags a) flagNum"

definition CheckExtendedFlagBit2 :: "aux \<Rightarrow> nat \<Rightarrow> bool" where
  "CheckExtendedFlagBit2 a flagNum = CheckAuxBit (m_ExtendedFlags a) (flagNum + m_FlagCount a)"

definition HasData :: "aux \<Rightarrow> bool" where
  "HasData a =
     (case HasData_mask a of None \<Rightarrow> False
      | Some ms \<Rightarrow> list_ex (\<lambda>(f, m). f AND m \<noteq> 0) (zip (m_ExtendedFlags a) ms))"

section \<open>Propagation to the ancestors\<close>

fun ChildFlagChanged :: "nat \<Rightarrow> aux_path \<Rightarrow> aux_path" where
  "ChildFlagChanged ChildIndex [] = []"
| "ChildFlagChanged ChildIndex (a # up) =
     (let fl = SetAuxBit (m_Flags a) ChildIndex
      in if \<not> main_flag fl
         then a\<lparr>m_Flags := set_main_flag fl\<rparr> # ChildFlagChanged (m_MemberIndex a) up
         else a\<lparr>m_Flags := fl\<rparr> # up)"

definition SetParentFlag :: "aux_path \<Rightarrow> aux_path" where
  "SetParentFlag path = (case path of [] \<Rightarrow> [] | a # up \<Rightarrow> a # ChildFlagChanged (m_MemberIndex a) up)"

fun ChildExtendedFlagChanged :: "nat \<Rightarrow> bool \<Rightarrow> aux_path \<Rightarrow> aux_path" where
  "ChildExtendedFlagChanged ChildIndex s [] = []"
| "ChildExtendedFlagChanged ChildIndex s (a # up) =
     (if m_ExtendedFlags a = [] then a # up
      else let a' = a\<lparr>m_ExtendedFlags :=
                  (if s then SetAuxBit (m_ExtendedFlags a) ChildIndex
                   else UnsetAuxBit (m_ExtendedFlags a) ChildIndex)\<rparr>
           in a' # (if HasData_mask a' = None then up
                    else ChildExtendedFlagChanged (m_MemberIndex a') (HasData a') up))"

definition SetParentExtendedFlag :: "bool \<Rightarrow> aux_path \<Rightarrow> aux_path" where
  "SetParentExtendedFlag s path =
     (case path of [] \<Rightarrow> [] | a # up \<Rightarrow> a # ChildExtendedFlagChanged (m_MemberIndex a) s up)"

definition CheckData :: "aux_path \<Rightarrow> aux_path" where
  "CheckData path =
     (case path of [] \<Rightarrow> []
      | a # up \<Rightarrow> if HasData_mask a = None then path else SetParentExtendedFlag (HasData a) path)"

section \<open>Replacing a field\<close>

text \<open>The part of \<^verbatim>\<open>ReplaceData\<close> and \<^verbatim>\<open>ReplaceString\<close> that records the change.\<close>

definition mark_changed :: "nat \<Rightarrow> aux_path \<Rightarrow> aux_path" where
  "mark_changed flagNum path =
     (case path of [] \<Rightarrow> []
      | a # up \<Rightarrow>
          (let fl = SetAuxBit (m_Flags a) flagNum
           in if \<not> main_flag fl
              then SetParentExtendedFlag True (SetParentFlag (a\<lparr>m_Flags := set_main_flag fl\<rparr> # up))
              else a\<lparr>m_Flags := fl\<rparr> # up))"

definition mark_extended :: "bool \<Rightarrow> bool \<Rightarrow> nat \<Rightarrow> aux_path \<Rightarrow> aux_path" where
  "mark_extended was_set is_set flagNum path =
     (case path of [] \<Rightarrow> []
      | a # up \<Rightarrow>
          (if \<not> was_set \<and> is_set
           then a\<lparr>m_ExtendedFlags :=
                  SetAuxBit (UnsetAuxBit (m_ExtendedFlags a) (flagNum + m_FlagCount a)) flagNum\<rparr> # up
           else if was_set \<and> \<not> is_set
           then a\<lparr>m_ExtendedFlags :=
                  UnsetAuxBit (SetAuxBit (m_ExtendedFlags a) (flagNum + m_FlagCount a)) flagNum\<rparr> # up
           else path))"

definition ReplaceData ::
    "('t \<Rightarrow> 't \<Rightarrow> bool) \<Rightarrow> ('t \<Rightarrow> bool) \<Rightarrow> 't \<Rightarrow> 't \<Rightarrow> nat \<Rightarrow> aux_path \<Rightarrow> 't \<times> aux_path" where
  "ReplaceData equal truth orig src flagNum path =
     (if \<not> equal orig src
      then (src, mark_extended (truth orig) (truth src) flagNum (mark_changed flagNum path))
      else (orig, path))"

abbreviation ReplaceWord :: "'a::len word \<Rightarrow> 'a word \<Rightarrow> nat \<Rightarrow> aux_path \<Rightarrow> 'a word \<times> aux_path" where
  "ReplaceWord \<equiv> ReplaceData (=) (\<lambda>x. x \<noteq> 0)"

abbreviation ReplaceBool :: "bool \<Rightarrow> bool \<Rightarrow> nat \<Rightarrow> aux_path \<Rightarrow> bool \<times> aux_path" where
  "ReplaceBool \<equiv> ReplaceData (=) (\<lambda>x. x)"

abbreviation ReplaceFloat :: "f32 \<Rightarrow> f32 \<Rightarrow> nat \<Rightarrow> aux_path \<Rightarrow> f32 \<times> aux_path" where
  "ReplaceFloat \<equiv> ReplaceData f_eq (\<lambda>x. \<not> f_zero x)"

text \<open>\<^verbatim>\<open>strncpy\<close> and the forced terminator keep at most \<open>len - 1\<close> characters.\<close>

definition ReplaceString :: "bytes \<Rightarrow> bytes \<Rightarrow> nat \<Rightarrow> nat \<Rightarrow> aux_path \<Rightarrow> bytes \<times> aux_path" where
  "ReplaceString orig src flagNum len path =
     (if orig \<noteq> src
      then (take (len - 1) src,
            mark_extended (orig \<noteq> []) (src \<noteq> []) flagNum (mark_changed flagNum path))
      else (orig, path))"

definition mark_flag_only :: "nat \<Rightarrow> aux_path \<Rightarrow> aux_path" where
  "mark_flag_only flagNum path =
     (case path of [] \<Rightarrow> []
      | a # up \<Rightarrow>
          (let fl = SetAuxBit (m_Flags a) flagNum
           in if \<not> main_flag fl then SetParentFlag (a\<lparr>m_Flags := set_main_flag fl\<rparr> # up)
              else a\<lparr>m_Flags := fl\<rparr> # up))"

definition ReplaceAvail :: "u32 list \<Rightarrow> u32 list \<Rightarrow> nat \<Rightarrow> aux_path \<Rightarrow> u32 list \<times> aux_path" where
  "ReplaceAvail orig src flagNum path =
     (if take 4 orig \<noteq> take 4 src then (take 4 src, mark_flag_only flagNum path) else (orig, path))"

definition ReplaceColor :: "f32 list \<Rightarrow> f32 list \<Rightarrow> nat \<Rightarrow> aux_path \<Rightarrow> f32 list \<times> aux_path" where
  "ReplaceColor orig src flagNum path =
     (if take 3 orig \<noteq> take 3 src
      then (take 3 src,
            (case mark_flag_only flagNum path of [] \<Rightarrow> []
             | a # up \<Rightarrow>
                 (if \<exists>x \<in> set (take 3 src). \<not> f_zero x
                  then a\<lparr>m_ExtendedFlags :=
                         SetAuxBit (UnsetAuxBit (m_ExtendedFlags a) (flagNum + m_FlagCount a)) flagNum\<rparr>
                  else a\<lparr>m_ExtendedFlags :=
                         UnsetAuxBit (SetAuxBit (m_ExtendedFlags a) (flagNum + m_FlagCount a)) flagNum\<rparr>) # up))
      else (orig, path))"

section \<open>Adding to a packet\<close>

text \<open>
  The four \<^verbatim>\<open>AddData\<close> methods differ only in how many bytes they copy; all compare
  \<^verbatim>\<open>sizeof(T) + index\<close> (unsigned) with the buffer limit and skip the field past it.
\<close>

definition Aux_AddData :: "aux \<Rightarrow> bytes \<Rightarrow> packet_state \<Rightarrow> packet_state option" where
  "Aux_AddData a bs st =
     (let (buffer, index) = st
      in if of_nat (length bs) + of_nat index < m_Max_Buffer a
         then map_option (\<lambda>p. (p, index + length bs)) (poke buffer index bs)
         else Some st)"

definition AddString :: "aux \<Rightarrow> bytes \<Rightarrow> packet_state \<Rightarrow> packet_state option" where
  "AddString a str st =
     (let (buffer, index) = st
      in if of_nat index + of_nat (length str) < m_Max_Buffer a
         then do {
           (p, i) \<leftarrow> Aux_AddData a (le_bytes 2 (of_nat (length str) :: s16)) st;
           p' \<leftarrow> poke p i str;
           Some (p', i + length str)
         }
         else Some st)"

primrec AddFlags :: "aux \<Rightarrow> bytes \<Rightarrow> packet_state \<Rightarrow> packet_state option" where
  "AddFlags a [] st = Some st"
| "AddFlags a (f # fs) st = do { st' \<leftarrow> Aux_AddData a [f] st; AddFlags a fs st' }"

text \<open>
  A class lists its fields in packet order, each a plain datum or a string; a
  \<^verbatim>\<open>BuildPacket\<close> adds the fields whose flag is set.
\<close>

datatype wire_field = Raw bytes | Str bytes

fun add_field :: "aux \<Rightarrow> wire_field \<Rightarrow> packet_state \<Rightarrow> packet_state option" where
  "add_field a (Raw bs) st = Aux_AddData a bs st"
| "add_field a (Str s) st = AddString a s st"

fun add_fields :: "aux \<Rightarrow> bytes \<Rightarrow> nat \<Rightarrow> wire_field list \<Rightarrow> packet_state \<Rightarrow> packet_state option" where
  "add_fields a flags i [] st = Some st"
| "add_fields a flags i (f # fs) st =
     do { st' \<leftarrow> (if CheckAuxBit flags i then add_field a f st else Some st);
          add_fields a flags (Suc i) fs st' }"

definition add_object :: "aux \<Rightarrow> bytes \<Rightarrow> wire_field list \<Rightarrow> packet_state \<Rightarrow> packet_state option" where
  "add_object a flags fds st = do { st' \<leftarrow> AddFlags a flags st; add_fields a flags 0 fds st' }"

definition clear_flags :: "aux \<Rightarrow> aux" where
  "clear_flags a = a\<lparr>m_Flags := replicate (length (m_Flags a)) 0\<rparr>"

definition build_packet :: "wire_field list \<Rightarrow> aux_path \<Rightarrow> packet_state \<Rightarrow> (packet_state \<times> aux_path) option" where
  "build_packet fds path st =
     (case path of [] \<Rightarrow> None
      | a # up \<Rightarrow> map_option (\<lambda>st'. (st', clear_flags a # up)) (add_object a (m_Flags a) fds st))"

definition build_extended_packet :: "wire_field list \<Rightarrow> aux_path \<Rightarrow> packet_state \<Rightarrow> packet_state option" where
  "build_extended_packet fds path st =
     (case path of [] \<Rightarrow> None
      | a # up \<Rightarrow> add_object a (m_ExtendedFlags a) fds st)"


section \<open>Flag bits as bitmaps\<close>

lemma aux_bits_bm:
  "CheckAuxBit fl k = bm_get fl (k + 4)"
  "SetAuxBit fl k = bm_set fl (k + 4)"
  "UnsetAuxBit fl k = bm_unset fl (k + 4)"
  by (simp_all add: CheckAuxBit_def SetAuxBit_def UnsetAuxBit_def bm_get_def bm_set_def bm_unset_def)

lemma push_bit_1_word: "push_bit (Suc 0) (1 :: 'a::len word) = 2"
  by (simp add: push_bit_eq_mult)

lemma main_flag_bm: "main_flag fl = bm_get fl 1" "set_main_flag fl = bm_set fl 1"
  by (simp_all add: main_flag_def set_main_flag_def bm_get_def bm_set_def push_bit_1_word)

lemma length_aux_bits [simp]:
  "length (SetAuxBit fl k) = length fl" "length (UnsetAuxBit fl k) = length fl"
  "length (set_main_flag fl) = length fl"
  by (simp_all add: SetAuxBit_def UnsetAuxBit_def set_main_flag_def)

lemma aux_byte: "k + 4 < 8 * length fl \<Longrightarrow> (k + 4) div LENGTH(8) < length fl"
  by (simp add: less_mult_imp_div_less mult.commute)

lemma CheckAuxBit_Set [simp]:
  "k + 4 < 8 * length fl \<Longrightarrow> CheckAuxBit (SetAuxBit fl k) j \<longleftrightarrow> j = k \<or> CheckAuxBit fl j"
  using bm_get_set [OF aux_byte, of k fl "j + 4"] by (auto simp: aux_bits_bm)

lemma CheckAuxBit_Unset [simp]:
  "k + 4 < 8 * length fl \<Longrightarrow> CheckAuxBit (UnsetAuxBit fl k) j \<longleftrightarrow> j \<noteq> k \<and> CheckAuxBit fl j"
  using bm_get_unset [OF aux_byte, of k fl "j + 4"] by (auto simp: aux_bits_bm)

lemma main_flag_Set [simp]:
  "k + 4 < 8 * length fl \<Longrightarrow> main_flag (SetAuxBit fl k) \<longleftrightarrow> main_flag fl"
  using bm_get_set [OF aux_byte, of k fl 1] by (auto simp: aux_bits_bm main_flag_bm)

lemma set_main_flag_bits [simp]:
  "fl \<noteq> [] \<Longrightarrow> CheckAuxBit (set_main_flag fl) j \<longleftrightarrow> CheckAuxBit fl j"
  "fl \<noteq> [] \<Longrightarrow> main_flag (set_main_flag fl)"
  using bm_get_set [of 1 fl "j + 4"] bm_get_set [of 1 fl 1] by (auto simp: aux_bits_bm main_flag_bm)

lemma bm_get_zero: "bm_get (replicate n 0 :: bytes) k \<longleftrightarrow> False" if "k < 8 * n" for k
  using that by (simp add: bm_get_def less_mult_imp_div_less mult.commute)

section \<open>Well-formed objects\<close>

definition aux_wf :: "aux \<Rightarrow> bool" where
  "aux_wf a \<longleftrightarrow> m_FlagCount a + 4 \<le> 8 * length (m_Flags a) \<and>
     2 * m_FlagCount a + 4 \<le> 8 * length (m_ExtendedFlags a)"

text \<open>What a change does to the object itself: its ancestors do not matter.\<close>

lemma mark_changed_hd:
  assumes "aux_wf a" and "k < m_FlagCount a"
  shows "\<exists>fl up'. mark_changed k (a # up) = a\<lparr>m_Flags := fl\<rparr> # up' \<and> length fl = length (m_Flags a) \<and>
     length up' = length up \<and> main_flag fl \<and> (\<forall>j. CheckAuxBit fl j \<longleftrightarrow> j = k \<or> CheckAuxBit (m_Flags a) j)"
proof -
  have len_f: "length (ChildFlagChanged i xs) = length xs" for i xs
    by (induction i xs rule: ChildFlagChanged.induct) (simp_all add: Let_def)
  have len_e: "length (ChildExtendedFlagChanged i s xs) = length xs" for i s xs
    by (induction i s xs rule: ChildExtendedFlagChanged.induct) (simp_all add: Let_def)
  have k: "k + 4 < 8 * length (m_Flags a)" using assms by (simp add: aux_wf_def)
  have ne: "SetAuxBit (m_Flags a) k \<noteq> []" using k by (auto simp: SetAuxBit_def)
  show ?thesis
  proof (cases "main_flag (SetAuxBit (m_Flags a) k)")
    case True
    then show ?thesis using k
      by (intro exI [of _ "SetAuxBit (m_Flags a) k"] exI [of _ up]) (simp add: mark_changed_def)
  next
    case False
    then show ?thesis using k ne
      by (intro exI [of _ "set_main_flag (SetAuxBit (m_Flags a) k)"])
        (simp add: mark_changed_def Let_def SetParentFlag_def SetParentExtendedFlag_def len_f len_e)
  qed
qed

lemma mark_extended_hd:
  assumes "aux_wf a" and "k < m_FlagCount a"
  shows "\<exists>ex. mark_extended w t k (a # up) = a\<lparr>m_ExtendedFlags := ex\<rparr> # up \<and>
     length ex = length (m_ExtendedFlags a) \<and>
     (\<forall>j < m_FlagCount a. CheckAuxBit ex j \<longleftrightarrow>
        (if j = k \<and> w \<noteq> t then t else CheckAuxBit (m_ExtendedFlags a) j)) \<and>
     (\<forall>j < m_FlagCount a. CheckAuxBit ex (j + m_FlagCount a) \<longleftrightarrow>
        (if j = k \<and> w \<noteq> t then \<not> t else CheckAuxBit (m_ExtendedFlags a) (j + m_FlagCount a)))"
proof -
  have k: "k + 4 < 8 * length (m_ExtendedFlags a)" "k + m_FlagCount a + 4 < 8 * length (m_ExtendedFlags a)"
    using assms by (simp_all add: aux_wf_def)
  consider "\<not> w \<and> t" | "w \<and> \<not> t" | "w = t" by blast
  then show ?thesis
  proof cases
    case 1
    then show ?thesis using k assms(2)
      by (intro exI [of _ "SetAuxBit (UnsetAuxBit (m_ExtendedFlags a) (k + m_FlagCount a)) k"])
        (auto simp: mark_extended_def)
  next
    case 2
    then show ?thesis using k assms(2)
      by (intro exI [of _ "UnsetAuxBit (SetAuxBit (m_ExtendedFlags a) (k + m_FlagCount a)) k"])
        (auto simp: mark_extended_def)
  next
    case 3
    then show ?thesis by (intro exI [of _ "m_ExtendedFlags a"]) (auto simp: mark_extended_def)
  qed
qed


definition aux_marked :: "nat \<Rightarrow> bool \<Rightarrow> bool \<Rightarrow> aux \<Rightarrow> aux \<Rightarrow> bool" where
  "aux_marked k w t a a' \<longleftrightarrow> aux_wf a' \<and> m_FlagCount a' = m_FlagCount a \<and> m_Max_Buffer a' = m_Max_Buffer a \<and>
     length (m_Flags a') = length (m_Flags a) \<and> length (m_ExtendedFlags a') = length (m_ExtendedFlags a) \<and>
     (\<forall>j. CheckAuxBit (m_Flags a') j \<longleftrightarrow> j = k \<or> CheckAuxBit (m_Flags a) j) \<and>
     (\<forall>j < m_FlagCount a. CheckAuxBit (m_ExtendedFlags a') j \<longleftrightarrow>
        (if j = k \<and> w \<noteq> t then t else CheckAuxBit (m_ExtendedFlags a) j)) \<and>
     (\<forall>j < m_FlagCount a. CheckAuxBit (m_ExtendedFlags a') (j + m_FlagCount a) \<longleftrightarrow>
        (if j = k \<and> w \<noteq> t then \<not> t else CheckAuxBit (m_ExtendedFlags a) (j + m_FlagCount a)))"

lemma mark_both:
  assumes "aux_wf a" and "k < m_FlagCount a"
  shows "\<exists>a' up'. mark_extended w t k (mark_changed k (a # up)) = a' # up' \<and> aux_marked k w t a a'"
proof -
  obtain fl up' where fl: "mark_changed k (a # up) = a\<lparr>m_Flags := fl\<rparr> # up'"
      "length fl = length (m_Flags a)" "\<forall>j. CheckAuxBit fl j \<longleftrightarrow> j = k \<or> CheckAuxBit (m_Flags a) j"
    using mark_changed_hd [OF assms] by blast
  let ?a = "a\<lparr>m_Flags := fl\<rparr>"
  have "aux_wf ?a" "k < m_FlagCount ?a" using assms fl(2) by (simp_all add: aux_wf_def)
  from mark_extended_hd [OF this, of w t up'] obtain ex where
    "mark_extended w t k (?a # up') = ?a\<lparr>m_ExtendedFlags := ex\<rparr> # up'" "length ex = length (m_ExtendedFlags a)"
    "\<forall>j < m_FlagCount a. CheckAuxBit ex j \<longleftrightarrow> (if j = k \<and> w \<noteq> t then t else CheckAuxBit (m_ExtendedFlags a) j)"
    "\<forall>j < m_FlagCount a. CheckAuxBit ex (j + m_FlagCount a) \<longleftrightarrow>
       (if j = k \<and> w \<noteq> t then \<not> t else CheckAuxBit (m_ExtendedFlags a) (j + m_FlagCount a))"
    by auto
  then show ?thesis using fl assms by (auto simp: aux_marked_def aux_wf_def)
qed

section \<open>Objects with fields\<close>

text \<open>
  An object is its data and its path. \<open>rep\<close> is a call of \<^verbatim>\<open>ReplaceData\<close> on one field of the
  data, \<open>rep_str\<close> a call of \<^verbatim>\<open>ReplaceString\<close>.
\<close>

definition rep :: "('t \<Rightarrow> 't \<Rightarrow> bool) \<Rightarrow> ('t \<Rightarrow> bool) \<Rightarrow> ('d \<Rightarrow> 't) \<Rightarrow> ('t \<Rightarrow> 'd \<Rightarrow> 'd) \<Rightarrow> nat \<Rightarrow> 't \<Rightarrow>
    'd \<times> aux_path \<Rightarrow> 'd \<times> aux_path" where
  "rep eq tr get upd k v x =
     (let (w, path) = ReplaceData eq tr (get (fst x)) v k (snd x) in (upd w (fst x), path))"

abbreviation "rep_word \<equiv> rep (=) (\<lambda>x. x \<noteq> 0)"
abbreviation "rep_bool \<equiv> rep (=) (\<lambda>x. x)"
abbreviation "rep_float \<equiv> rep f_eq (\<lambda>x. \<not> f_zero x)"

definition rep_str :: "('d \<Rightarrow> bytes) \<Rightarrow> (bytes \<Rightarrow> 'd \<Rightarrow> 'd) \<Rightarrow> nat \<Rightarrow> nat \<Rightarrow> bytes \<Rightarrow>
    'd \<times> aux_path \<Rightarrow> 'd \<times> aux_path" where
  "rep_str get upd k len v x =
     (let (w, path) = ReplaceString (get (fst x)) v k len (snd x) in (upd w (fst x), path))"

definition check_data :: "'d \<times> aux_path \<Rightarrow> 'd \<times> aux_path" where
  "check_data x = (fst x, CheckData (snd x))"

lemma CheckData_hd: "\<exists>up'. CheckData (a # up) = a # up'"
  by (simp add: CheckData_def SetParentExtendedFlag_def)

section \<open>Packets as byte strings\<close>

fun wire_bytes :: "wire_field \<Rightarrow> bytes" where
  "wire_bytes (Raw bs) = bs"
| "wire_bytes (Str s) = le_bytes 2 (of_nat (length s) :: s16) @ s"

fun fields_bytes :: "bytes \<Rightarrow> nat \<Rightarrow> wire_field list \<Rightarrow> bytes" where
  "fields_bytes flags i [] = []"
| "fields_bytes flags i (f # fs) =
     (if CheckAuxBit flags i then wire_bytes f else []) @ fields_bytes flags (Suc i) fs"

text \<open>All of a packet that ends below the limit passes the guards of the \<^verbatim>\<open>AddData\<close> methods.\<close>

definition room :: "aux \<Rightarrow> packet_state \<Rightarrow> nat \<Rightarrow> bool" where
  "room a st n \<longleftrightarrow> snd st + n \<le> length (fst st) \<and> snd st + n < unat (m_Max_Buffer a)"

definition appended :: "packet_state \<Rightarrow> bytes \<Rightarrow> packet_state \<Rightarrow> bool" where
  "appended st bs st' \<longleftrightarrow> poke (fst st) (snd st) bs = Some (fst st') \<and> snd st' = snd st + length bs"

lemma guard_ok:
  assumes "i + n < unat (m :: u64)"
  shows "of_nat n + of_nat i < m" "of_nat i + of_nat n < m"
proof -
  have "unat (of_nat (i + n) :: u64) = (i + n) mod 2 ^ 64" by (simp only: unat_of_nat) simp
  also have "\<dots> = i + n" using assms unsigned_less [of m, where 'a = nat] by simp
  finally have "unat (of_nat (i + n) :: u64) = i + n" .
  then have "(of_nat (i + n) :: u64) < m" using assms by (simp add: word_less_nat_alt)
  then show "of_nat n + of_nat i < m" "of_nat i + of_nat n < m" by (simp_all add: add.commute)
qed

lemma poke_poke:
  assumes "poke m i a = Some m1" and "poke m1 (i + length a) b = Some m2"
  shows "poke m i (a @ b) = Some m2"
proof -
  have len: "length m1 = length m" using assms(1) by (rule poke_length)
  have b: "i + length a \<le> length m" "i + length a + length b \<le> length m"
    using assms len by (auto simp: poke_def split: if_splits)
  have "m1 = take i m @ a @ drop (i + length a) m"
    using assms(1) b by (simp add: poke_def)
  then show ?thesis using assms(2) b len by (simp add: poke_def ac_simps)
qed

lemma appended_trans:
  "appended st a st1 \<Longrightarrow> appended st1 b st2 \<Longrightarrow> appended st (a @ b) st2"
  using poke_poke by (fastforce simp: appended_def)

lemma appended_room: "appended st a st1 \<Longrightarrow> room x st (length a + n) \<Longrightarrow> room x st1 n"
  by (auto simp: appended_def room_def dest: poke_length)

lemma appended_nil: "appended st [] st" if "snd st \<le> length (fst st)"
  using that by (simp add: appended_def poke_def)

lemma Aux_AddData_appended:
  assumes "room a st (length bs)"
  shows "\<exists>st'. Aux_AddData a bs st = Some st' \<and> appended st bs st'"
  using assms guard_ok [of "snd st" "length bs" "m_Max_Buffer a"]
  by (cases st) (auto simp: Aux_AddData_def room_def appended_def poke_def)

lemma add_field_appended:
  assumes "room a st (length (wire_bytes f))"
  shows "\<exists>st'. add_field a f st = Some st' \<and> appended st (wire_bytes f) st'"
proof (cases f)
  case (Raw bs)
  then show ?thesis using assms Aux_AddData_appended by simp
next
  case (Str s)
  let ?h = "le_bytes 2 (of_nat (length s) :: s16)"
  have r: "room a st (length ?h + length s)" using assms Str by simp
  then have "room a st (length ?h)" by (auto simp: room_def)
  then obtain st1 where st1: "Aux_AddData a ?h st = Some st1" "appended st ?h st1"
    using Aux_AddData_appended by blast
  have "room a st1 (length s)" using appended_room [OF st1(2) r] .
  then obtain p where p: "poke (fst st1) (snd st1) s = Some p" by (auto simp: room_def poke_def)
  then have "appended st1 s (p, snd st1 + length s)" by (simp add: appended_def)
  then have "appended st (wire_bytes f) (p, snd st1 + length s)"
    using appended_trans [OF st1(2)] Str by simp
  moreover have "snd st + length s < unat (m_Max_Buffer a)" using r by (simp add: room_def)
  then have "AddString a s st = Some (p, snd st1 + length s)"
    using st1(1) p guard_ok(2) by (cases st, cases st1) (simp add: AddString_def)
  ultimately show ?thesis using Str by auto
qed

lemma add_fields_appended:
  "room a st (length (fields_bytes flags i fs)) \<Longrightarrow>
   \<exists>st'. add_fields a flags i fs st = Some st' \<and> appended st (fields_bytes flags i fs) st'"
proof (induction fs arbitrary: i st)
  case Nil
  then show ?case by (simp add: appended_nil room_def)
next
  case (Cons f fs)
  show ?case
  proof (cases "CheckAuxBit flags i")
    case True
    have r: "room a st (length (wire_bytes f) + length (fields_bytes flags (Suc i) fs))"
      using Cons.prems True by simp
    then have "room a st (length (wire_bytes f))" by (auto simp: room_def)
    then obtain st1 where st1: "add_field a f st = Some st1" "appended st (wire_bytes f) st1"
      using add_field_appended by blast
    obtain st2 where "add_fields a flags (Suc i) fs st1 = Some st2"
        "appended st1 (fields_bytes flags (Suc i) fs) st2"
      using Cons.IH appended_room [OF st1(2) r] by blast
    then show ?thesis using True st1 appended_trans [OF st1(2)] by auto
  next
    case False
    then show ?thesis using Cons by simp
  qed
qed

lemma AddFlags_appended:
  "room a st (length fl) \<Longrightarrow> \<exists>st'. AddFlags a fl st = Some st' \<and> appended st fl st'"
proof (induction fl arbitrary: st)
  case Nil
  then show ?case by (simp add: appended_nil room_def)
next
  case (Cons f fl)
  have r: "room a st (length [f] + length fl)" using Cons.prems by simp
  then have "room a st (length [f])" by (auto simp: room_def)
  then obtain st1 where st1: "Aux_AddData a [f] st = Some st1" "appended st [f] st1"
    using Aux_AddData_appended by blast
  obtain st2 where "AddFlags a fl st1 = Some st2" "appended st1 fl st2"
    using Cons.IH appended_room [OF st1(2) r] by blast
  then show ?case using st1 appended_trans [OF st1(2)] by fastforce
qed

lemma add_object_appended:
  assumes "room a st (length (flags @ fields_bytes flags 0 fs))"
  shows "\<exists>st'. add_object a flags fs st = Some st' \<and> appended st (flags @ fields_bytes flags 0 fs) st'"
proof -
  have r: "room a st (length flags + length (fields_bytes flags 0 fs))" using assms by simp
  then have "room a st (length flags)" by (auto simp: room_def)
  then obtain st1 where st1: "AddFlags a flags st = Some st1" "appended st flags st1"
    using AddFlags_appended by blast
  obtain st2 where "add_fields a flags 0 fs st1 = Some st2" "appended st1 (fields_bytes flags 0 fs) st2"
    using add_fields_appended appended_room [OF st1(2) r] by blast
  then show ?thesis using st1 appended_trans [OF st1(2)] by (fastforce simp: add_object_def)
qed


section \<open>The ancestors of a changed object\<close>

text \<open>
  Paths on which every marked object is marked in its parent, with the parent marked too,
  and whose member indices fit their parents' flag bytes.
\<close>

fun path_linked :: "aux_path \<Rightarrow> bool" where
  "path_linked (a # p # up) \<longleftrightarrow>
     (main_flag (m_Flags a) \<longrightarrow> main_flag (m_Flags p) \<and> CheckAuxBit (m_Flags p) (m_MemberIndex a)) \<and>
     path_linked (p # up)"
| "path_linked _ \<longleftrightarrow> True"

fun path_sized :: "aux_path \<Rightarrow> bool" where
  "path_sized (a # p # up) \<longleftrightarrow> m_MemberIndex a + 4 < 8 * length (m_Flags p) \<and> path_sized (p # up)"
| "path_sized _ \<longleftrightarrow> True"

definition same_flags :: "aux_path \<Rightarrow> aux_path \<Rightarrow> bool" where
  "same_flags = list_all2 (\<lambda>a b. m_MemberIndex a = m_MemberIndex b \<and> m_Flags a = m_Flags b)"

lemma same_flags_refl: "same_flags p p"
  by (simp add: same_flags_def list_all2_refl)

lemma same_flags_linked: "same_flags p q \<Longrightarrow> path_linked p = path_linked q"
proof (induction p arbitrary: q rule: path_linked.induct)
  case (1 a b up)
  then obtain a' b' up' where "q = a' # b' # up'" by (auto simp: same_flags_def list_all2_Cons1)
  then show ?case using "1.IH" "1.prems" by (auto simp: same_flags_def)
qed (auto simp: same_flags_def list_all2_Cons1)

lemma same_flags_all:
  "same_flags p q \<Longrightarrow> list_all (\<lambda>a. main_flag (m_Flags a)) p = list_all (\<lambda>a. main_flag (m_Flags a)) q"
  unfolding same_flags_def by (induction p q rule: list_all2_induct) auto

lemma ChildExtendedFlagChanged_flags: "same_flags up (ChildExtendedFlagChanged i s up)"
  by (induction i s up rule: ChildExtendedFlagChanged.induct)
    (auto simp: Let_def same_flags_def list_all2_refl)

lemma linked_all_marked:
  "path_linked (a # up) \<Longrightarrow> main_flag (m_Flags a) \<Longrightarrow> list_all (\<lambda>a. main_flag (m_Flags a)) (a # up)"
  by (induction up arbitrary: a) auto

lemma linked_ChildFlagChanged:
  "path_linked up \<Longrightarrow> path_sized (a # up) \<Longrightarrow>
   path_linked (a # ChildFlagChanged (m_MemberIndex a) up) \<and>
   list_all (\<lambda>a. main_flag (m_Flags a)) (ChildFlagChanged (m_MemberIndex a) up)"
proof (induction up arbitrary: a)
  case Nil
  then show ?case by simp
next
  case (Cons p up)
  let ?fl = "SetAuxBit (m_Flags p) (m_MemberIndex a)"
  have i: "m_MemberIndex a + 4 < 8 * length (m_Flags p)" and s: "path_sized (p # up)"
    using Cons.prems(2) by simp_all
  have ne: "?fl \<noteq> []" using i by (auto simp: SetAuxBit_def)
  have lu: "path_linked up" using Cons.prems(1) by (cases up) simp_all
  show ?case
  proof (cases "main_flag ?fl")
    case True
    have "path_linked (p\<lparr>m_Flags := ?fl\<rparr> # up)" using Cons.prems(1) True i by (cases up) simp_all
    then show ?thesis using True i linked_all_marked [of "p\<lparr>m_Flags := ?fl\<rparr>" up] by (simp add: Let_def)
  next
    case False
    let ?p = "p\<lparr>m_Flags := set_main_flag ?fl\<rparr>"
    have "path_sized (?p # up)" using s by (cases up) simp_all
    then have "path_linked (?p # ChildFlagChanged (m_MemberIndex ?p) up) \<and>
        list_all (\<lambda>a. main_flag (m_Flags a)) (ChildFlagChanged (m_MemberIndex ?p) up)"
      using Cons.IH lu by blast
    then show ?thesis using False i ne by (simp add: Let_def)
  qed
qed

lemma mark_changed_linked:
  assumes "path_linked (a # up)" and "path_sized (a # up)" and "k + 4 < 8 * length (m_Flags a)"
  shows "path_linked (mark_changed k (a # up)) \<and>
    list_all (\<lambda>a. main_flag (m_Flags a)) (mark_changed k (a # up))"
proof (cases "main_flag (SetAuxBit (m_Flags a) k)")
  case True
  have "path_linked (a\<lparr>m_Flags := SetAuxBit (m_Flags a) k\<rparr> # up)"
    using assms True by (cases up) simp_all
  moreover have "mark_changed k (a # up) = a\<lparr>m_Flags := SetAuxBit (m_Flags a) k\<rparr> # up"
    using True by (simp add: mark_changed_def)
  moreover have "main_flag (m_Flags (a\<lparr>m_Flags := SetAuxBit (m_Flags a) k\<rparr>))" using True by simp
  ultimately show ?thesis using linked_all_marked by metis
next
  case False
  have ne: "SetAuxBit (m_Flags a) k \<noteq> []" using assms(3) by (auto simp: SetAuxBit_def)
  let ?a = "a\<lparr>m_Flags := set_main_flag (SetAuxBit (m_Flags a) k)\<rparr>"
  let ?up = "ChildFlagChanged (m_MemberIndex ?a) up"
  have "path_linked up" using assms(1) by (cases up) simp_all
  moreover have "path_sized (?a # up)" using assms(2) by (cases up) simp_all
  ultimately have up: "path_linked (?a # ?up)" "list_all (\<lambda>a. main_flag (m_Flags a)) ?up"
    using linked_ChildFlagChanged by blast+
  have eq: "mark_changed k (a # up) = ?a # ChildExtendedFlagChanged (m_MemberIndex ?a) True ?up"
    using False by (simp add: mark_changed_def Let_def SetParentFlag_def SetParentExtendedFlag_def)
  have sf: "same_flags (?a # ?up) (?a # ChildExtendedFlagChanged (m_MemberIndex ?a) True ?up)"
    using ChildExtendedFlagChanged_flags by (simp add: same_flags_def)
  show ?thesis using up ne same_flags_linked [OF sf] same_flags_all [OF sf] by (simp add: eq)
qed

lemma mark_extended_flags: "same_flags p (mark_extended w t k p)"
  by (auto simp: mark_extended_def same_flags_def list_all2_refl split: list.splits)

text \<open>
  No change is lost on the way to the root. On a path where marked objects are marked
  in their parents, \<^verbatim>\<open>ReplaceData\<close> with a different value leaves every ancestor marked, with
  each object's bit set in its parent, although the recursion stops at the first ancestor
  that is already marked.
\<close>

theorem ReplaceData_reaches_root:
  assumes "path_linked (a # up)" and "path_sized (a # up)" and "flagNum + 4 < 8 * length (m_Flags a)"
    and "\<not> eq orig src"
  shows "fst (ReplaceData eq truth orig src flagNum (a # up)) = src \<and>
    path_linked (snd (ReplaceData eq truth orig src flagNum (a # up))) \<and>
    list_all (\<lambda>a. main_flag (m_Flags a)) (snd (ReplaceData eq truth orig src flagNum (a # up)))"
proof -
  let ?q = "mark_changed flagNum (a # up)"
  have "same_flags ?q (mark_extended (truth orig) (truth src) flagNum ?q)" by (rule mark_extended_flags)
  then show ?thesis using mark_changed_linked [OF assms(1-3)] assms(4)
    by (simp add: ReplaceData_def same_flags_linked same_flags_all)
qed

lemma ReplaceData_reaches_root_witness:
  "list_all (\<lambda>a. main_flag (m_Flags a)) (snd (ReplaceWord (0 :: u32) 7 1
     [Construct [0] [0x06, 0x0F] 4 2 None, Construct [0, 0] [0x06, 0x3E] 5 10 None, Construct [0, 0] [0xF6, 0x07, 0xC0, 0x03] 11 0 None]))"
proof -
  let ?a = "Construct [0] [0x06, 0x0F] 4 2 None"
  let ?up = "[Construct [0, 0] [0x06, 0x3E] 5 10 None, Construct [0, 0] [0xF6, 0x07, 0xC0, 0x03] 11 0 None]"
  have "path_linked (?a # ?up)" "path_sized (?a # ?up)" "1 + 4 < 8 * length (m_Flags ?a)"
    by (simp_all add: Construct_def main_flag_def)
  then show ?thesis
    using ReplaceData_reaches_root [of ?a ?up 1 "(=)" "0 :: u32" 7 "\<lambda>x. x \<noteq> 0"] by simp
qed

end
