(* ===== verification/AuxObjects.thy ===== *)
theory AuxObjects
  imports AuxBase
begin

text \<open>
  The contract of a delta-encoded object, shared by the leaf classes of
  \<^verbatim>\<open>server/src/AuxClasses\<close>. The receiver's side is a specification: it reads the flag bytes
  of a packet and takes the flagged fields, in order, into its own copy of the data. The
  locale \<open>aux_class\<close> states what a class has to provide (its fields in packet order, when a
  field counts as set, how a received field updates the copy); proved once in it: every
  setter keeps the copy of a receiver reconstructible, \<^verbatim>\<open>BuildPacket\<close> brings the copy up to
  date and \<^verbatim>\<open>BuildExtendedPacket\<close> rebuilds it from scratch.
\<close>

section \<open>Small index ranges\<close>

lemma ball_lt:
  "(\<forall>i < 3. P i) \<longleftrightarrow> P 0 \<and> P 1 \<and> P (2::nat)"
  "(\<forall>i < 4. P i) \<longleftrightarrow> P 0 \<and> P 1 \<and> P 2 \<and> P (3::nat)"
  "(\<forall>i < 5. P i) \<longleftrightarrow> P 0 \<and> P 1 \<and> P 2 \<and> P 3 \<and> P (4::nat)"
  "(\<forall>i < 7. P i) \<longleftrightarrow> P 0 \<and> P 1 \<and> P 2 \<and> P 3 \<and> P 4 \<and> P 5 \<and> P (6::nat)"
  "(\<forall>i < 10. P i) \<longleftrightarrow> P 0 \<and> P 1 \<and> P 2 \<and> P 3 \<and> P 4 \<and> P 5 \<and> P 6 \<and> P 7 \<and> P 8 \<and> P (9::nat)"
  "(\<forall>i < 15. P i) \<longleftrightarrow> P 0 \<and> P 1 \<and> P 2 \<and> P 3 \<and> P 4 \<and> P 5 \<and> P 6 \<and> P 7 \<and> P 8 \<and> P 9 \<and>
     P 10 \<and> P 11 \<and> P 12 \<and> P 13 \<and> P (14::nat)"
  by (simp_all add: numeral_nat All_less_Suc2)

section \<open>The receiver\<close>

datatype wire_kind = RawK nat | StrK

fun kind_of :: "wire_field \<Rightarrow> wire_kind" where
  "kind_of (Raw bs) = RawK (length bs)"
| "kind_of (Str s) = StrK"

fun content :: "wire_field \<Rightarrow> bytes" where
  "content (Raw bs) = bs"
| "content (Str s) = s"

fun read_field :: "wire_kind \<Rightarrow> bytes \<Rightarrow> (bytes \<times> bytes) option" where
  "read_field (RawK n) bs = (if n \<le> length bs then Some (take n bs, drop n bs) else None)"
| "read_field StrK bs =
     (if 2 \<le> length bs
      then (let n = unat (le_word (take 2 bs) :: 16 word); r = drop 2 bs
            in if n \<le> length r then Some (take n r, drop n r) else None)
      else None)"

type_synonym 'd layout = "(wire_kind \<times> (bytes \<Rightarrow> 'd \<Rightarrow> 'd)) list"

fun read_fields :: "bytes \<Rightarrow> nat \<Rightarrow> 'd layout \<Rightarrow> bytes \<Rightarrow> 'd \<Rightarrow> ('d \<times> bytes) option" where
  "read_fields flags i [] bs m = Some (m, bs)"
| "read_fields flags i ((k, upd) # ls) bs m =
     (if CheckAuxBit flags i
      then (case read_field k bs of None \<Rightarrow> None
            | Some (x, r) \<Rightarrow> read_fields flags (Suc i) ls r (upd x m))
      else read_fields flags (Suc i) ls bs m)"

definition read_object :: "nat \<Rightarrow> 'd layout \<Rightarrow> bytes \<Rightarrow> 'd \<Rightarrow> ('d \<times> bytes) option" where
  "read_object nflags ls bs m =
     (if nflags \<le> length bs then read_fields (take nflags bs) 0 ls (drop nflags bs) m else None)"

lemma read_field_wire:
  assumes "\<And>s. f = Str s \<Longrightarrow> length s < 2 ^ 16"
  shows "read_field (kind_of f) (wire_bytes f @ rest) = Some (content f, rest)"
proof (cases f)
  case (Raw bs)
  then show ?thesis by simp
next
  case (Str s)
  have "le_word (le_bytes 2 (of_nat (length s) :: s16)) = (of_nat (length s) :: 16 word)"
    by (rule le_word_le_bytes) simp
  moreover have "unat (of_nat (length s) :: 16 word) = length s"
    using assms [OF Str] by (simp add: unat_of_nat)
  ultimately show ?thesis using Str by (simp add: Let_def)
qed

lemma appended_take: "appended (buf, 0) bs st' \<Longrightarrow> take (snd st') (fst st') = bs"
proof -
  assume ap: "appended (buf, 0) bs st'"
  then have "fst st' = bs @ drop (length bs) buf" "snd st' = length bs"
    by (auto simp: appended_def poke_def split: if_splits)
  then show ?thesis by simp
qed

section \<open>The contract\<close>

locale aux_class =
  fixes wire :: "'d \<Rightarrow> wire_field list"
    and layout :: "'d layout"
    and truth :: "nat \<Rightarrow> 'd \<Rightarrow> bool"
    and same :: "nat \<Rightarrow> 'd \<Rightarrow> 'd \<Rightarrow> bool"
    and blank :: 'd
    and ok :: "'d \<Rightarrow> bool"
    and nf :: nat
    and ne :: nat
  assumes kinds: "ok d \<Longrightarrow> map kind_of (wire d) = map fst layout"
    and short: "ok d \<Longrightarrow> Str s \<in> set (wire d) \<Longrightarrow> length s < 2 ^ 16"
    and updates: "ok d \<Longrightarrow> \<forall>i < length layout. same i d (snd (layout ! i) (content (wire d ! i)) m)"
    and frames: "\<forall>i < length layout. \<forall>j < length layout. i \<noteq> j \<longrightarrow>
                 same j d (snd (layout ! i) bs m) = same j d m"
    and unset_blanks: "\<forall>i < length layout. \<not> truth i d \<longrightarrow> same i d blank"
begin

lemma update: "ok d \<Longrightarrow> i < length layout \<Longrightarrow> same i d (snd (layout ! i) (content (wire d ! i)) m)"
  using updates by blast

lemma frame: "i < length layout \<Longrightarrow> j < length layout \<Longrightarrow> i \<noteq> j \<Longrightarrow>
              same j d (snd (layout ! i) bs m) = same j d m"
  using frames by blast

lemma unset_blank: "i < length layout \<Longrightarrow> \<not> truth i d \<Longrightarrow> same i d blank"
  using unset_blanks by blast

lemma length_wire: "ok d \<Longrightarrow> length (wire d) = length layout"
  using kinds by (metis length_map)

lemma read_fields_wire:
  assumes "ok d"
  shows "k \<le> length layout \<Longrightarrow>
    \<forall>i < length layout. i < k \<or> \<not> CheckAuxBit flags i \<longrightarrow> same i d m \<Longrightarrow>
    \<exists>m'. read_fields flags k (drop k layout) (fields_bytes flags k (drop k (wire d)) @ rest) m = Some (m', rest) \<and>
         (\<forall>i < length layout. same i d m')"
proof (induction "length layout - k" arbitrary: k m)
  case 0
  then show ?case using length_wire [OF assms] by auto
next
  case (Suc x)
  then have k: "k < length layout" by simp
  obtain kd upd where l: "layout ! k = (kd, upd)" by fastforce
  have dl: "drop k layout = (kd, upd) # drop (Suc k) layout" using k l by (metis Cons_nth_drop_Suc)
  have dw: "drop k (wire d) = wire d ! k # drop (Suc k) (wire d)"
    using k length_wire [OF assms] by (metis Cons_nth_drop_Suc)
  have kd: "kd = kind_of (wire d ! k)"
    using kinds [OF assms] k l length_wire [OF assms] by (metis nth_map fst_conv)
  have x: "x = length layout - Suc k" "Suc k \<le> length layout" using Suc.hyps(2) by auto
  show ?case
  proof (cases "CheckAuxBit flags k")
    case True
    let ?m = "upd (content (wire d ! k)) m"
    have "wire d ! k \<in> set (wire d)" using k length_wire [OF assms] by simp
    then have rf: "read_field kd (wire_bytes (wire d ! k) @ t) = Some (content (wire d ! k), t)" for t
      using read_field_wire short [OF assms] kd by metis
    have "same k d ?m" using update [OF assms k] l by simp
    moreover have "same i d ?m = same i d m" if "i < length layout" "i \<noteq> k" for i
      using frame [OF k that(1)] that(2) l by simp
    ultimately have "\<forall>i < length layout. i < Suc k \<or> \<not> CheckAuxBit flags i \<longrightarrow> same i d ?m"
      using Suc.prems(2) by (metis less_Suc_eq)
    from Suc.hyps(1) [OF x this] show ?thesis using True rf by (simp add: dl dw)
  next
    case False
    then have "\<forall>i < length layout. i < Suc k \<or> \<not> CheckAuxBit flags i \<longrightarrow> same i d m"
      using Suc.prems(2) by (metis less_Suc_eq)
    from Suc.hyps(1) [OF x this] show ?thesis using False by (simp add: dl dw)
  qed
qed

lemma read_object_wire:
  assumes "ok d" and "\<forall>i < length layout. \<not> CheckAuxBit flags i \<longrightarrow> same i d m"
  shows "\<exists>m'. read_object (length flags) layout (flags @ fields_bytes flags 0 (wire d) @ rest) m = Some (m', rest) \<and>
         (\<forall>i < length layout. same i d m')"
  using read_fields_wire [OF assms(1), of 0 flags m rest] assms(2) by (simp add: read_object_def)

text \<open>
  The invariant between an object, a receiver's copy \<open>m\<close> and the flags: a field that is
  not flagged agrees with the copy; a field that is set has its extended flag, and the two
  extended flags of a field exclude each other.
\<close>

definition in_sync :: "'d \<Rightarrow> 'd \<times> aux_path \<Rightarrow> bool" where
  "in_sync m x \<longleftrightarrow>
     (case snd x of [] \<Rightarrow> False
      | a # up \<Rightarrow> aux_wf a \<and> m_FlagCount a = length layout \<and> m_Max_Buffer a = -1 \<and>
          length (m_Flags a) = nf \<and> length (m_ExtendedFlags a) = ne \<and>
          (\<forall>i < length layout. \<not> CheckAuxBit (m_Flags a) i \<longrightarrow> same i (fst x) m) \<and>
          (\<forall>i < length layout. (truth i (fst x) \<longrightarrow> CheckExtendedFlagBit1 a i) \<and>
             (CheckExtendedFlagBit2 a i \<longleftrightarrow> \<not> CheckExtendedFlagBit1 a i)))"

definition lens :: "nat \<Rightarrow> ('d \<Rightarrow> 't) \<Rightarrow> ('t \<Rightarrow> 'd \<Rightarrow> 'd) \<Rightarrow> ('t \<Rightarrow> bool) \<Rightarrow> bool" where
  "lens k get upd tr \<longleftrightarrow> k < length layout \<and> (\<forall>d. truth k d = tr (get d)) \<and> (\<forall>d v. get (upd v d) = v) \<and>
     (\<forall>d. upd (get d) d = d) \<and>
     (\<forall>j < length layout. j \<noteq> k \<longrightarrow> (\<forall>d v. truth j (upd v d) = truth j d \<and> (\<forall>m. same j (upd v d) m = same j d m)))"

lemma marked_in_sync:
  assumes "in_sync m (d, a # up)" and l: "lens k get upd tr" and t: "tr v = t"
    and mk: "aux_marked k (truth k d) t a a'"
  shows "in_sync m (upd v d, a' # up')"
proof -
  have a: "m_FlagCount a = length layout" using assms(1) by (simp add: in_sync_def)
  have tk: "truth k (upd v d) = t" using l t by (simp add: lens_def)
  have oth: "truth j (upd v d) = truth j d" "same j (upd v d) m = same j d m"
    if "j < length layout" "j \<noteq> k" for j
    using l that by (auto simp: lens_def)
  have sy: "same j (upd v d) m" if "j < length layout" "\<not> CheckAuxBit (m_Flags a') j" for j
    using that assms(1) mk oth(2) [of j] by (auto simp: in_sync_def aux_marked_def)
  have ex: "(truth j (upd v d) \<longrightarrow> CheckExtendedFlagBit1 a' j) \<and>
      (CheckExtendedFlagBit2 a' j \<longleftrightarrow> \<not> CheckExtendedFlagBit1 a' j)" if j: "j < length layout" for j
    using mk j a assms(1) oth(1) [OF j] tk
    by (cases "j = k")
      (auto simp: in_sync_def aux_marked_def CheckExtendedFlagBit1_def CheckExtendedFlagBit2_def)
  show ?thesis using mk a sy ex assms(1) by (simp add: in_sync_def aux_marked_def)
qed

lemma rep_in_sync:
  assumes "in_sync m x" and l: "lens k get upd tr"
  shows "in_sync m (rep eq tr get upd k v x)"
proof -
  obtain d a up where x: "x = (d, a # up)" using assms(1) by (cases x, cases "snd x") (auto simp: in_sync_def)
  have a: "aux_wf a" "k < m_FlagCount a" using assms x by (auto simp: in_sync_def lens_def)
  show ?thesis
  proof (cases "eq (get d) v")
    case True
    then show ?thesis using assms x by (simp add: rep_def ReplaceData_def lens_def)
  next
    case False
    have "truth k d = tr (get d)" using l by (simp add: lens_def)
    then show ?thesis
      using marked_in_sync [OF assms(1) [unfolded x] l refl] mark_both [OF a, of "truth k d" "tr v" up] False x
      by (auto simp: rep_def ReplaceData_def)
  qed
qed

lemma rep_str_in_sync:
  assumes "in_sync m x" and l: "lens k get upd (\<lambda>s. s \<noteq> [])" and len: "2 \<le> len"
  shows "in_sync m (rep_str get upd k len v x)"
proof -
  obtain d a up where x: "x = (d, a # up)" using assms(1) by (cases x, cases "snd x") (auto simp: in_sync_def)
  have a: "aux_wf a" "k < m_FlagCount a" using assms x by (auto simp: in_sync_def lens_def)
  show ?thesis
  proof (cases "get d = v")
    case True
    then show ?thesis using assms x by (auto simp: rep_str_def ReplaceString_def lens_def)
  next
    case False
    have "truth k d = (get d \<noteq> [])" using l by (simp add: lens_def)
    moreover have "(take (len - 1) v \<noteq> []) = (v \<noteq> [])" using len by (cases v) (auto simp: take_Cons')
    ultimately show ?thesis
      using marked_in_sync [OF assms(1) [unfolded x] l] mark_both [OF a, of "truth k d" "v \<noteq> []" up] False x
      by (auto simp: rep_str_def ReplaceString_def)
  qed
qed

lemma check_data_in_sync: "in_sync m x \<Longrightarrow> in_sync m (check_data x)"
proof -
  assume s: "in_sync m x"
  then obtain d a up where x: "x = (d, a # up)" by (cases x, cases "snd x") (auto simp: in_sync_def)
  obtain up' where "CheckData (a # up) = a # up'" using CheckData_hd by blast
  then show ?thesis using s x by (simp add: in_sync_def check_data_def)
qed

text \<open>
  A packet in a large enough buffer brings a receiver up to date, and the object stays in
  step with the new copy.
\<close>

lemma build_packet_sync:
  assumes s: "in_sync m (d, path)" and okd: "ok d"
    and len: "nf + length (fields_bytes (m_Flags (hd path)) 0 (wire d)) \<le> N" and N: "N < 2 ^ 64 - 1"
  shows "\<exists>buf n path' m'. build_packet (wire d) path (replicate N 0, 0) = Some ((buf, n), path') \<and>
     read_object nf layout (take n buf) m = Some (m', []) \<and>
     (\<forall>i < length layout. same i d m') \<and> in_sync m' (d, path')"
proof -
  obtain a up where p: "path = a # up" using s by (cases path) (auto simp: in_sync_def)
  let ?bs = "m_Flags a @ fields_bytes (m_Flags a) 0 (wire d)"
  have nf: "length (m_Flags a) = nf" using s p by (simp add: in_sync_def)
  have "unat (m_Max_Buffer a) = 2 ^ 64 - 1" using s p by (simp add: in_sync_def unsigned_minus_1_eq_mask mask_eq_exp_minus_1)
  then have "room a (replicate N 0, 0) (length ?bs)" using len N nf p by (simp add: room_def)
  then obtain st' where st': "add_object a (m_Flags a) (wire d) (replicate N 0, 0) = Some st'"
      "appended (replicate N 0, 0) ?bs st'"
    using add_object_appended by blast
  have tk: "take (snd st') (fst st') = ?bs"
    using st'(2) by (rule appended_take)
  obtain m' where m': "read_object nf layout ?bs m = Some (m', [])" "\<forall>i < length layout. same i d m'"
    using read_object_wire [OF okd, of "m_Flags a" m "[]"] s p nf by (auto simp: in_sync_def)
  have "in_sync m' (d, clear_flags a # up)"
    using s p m'(2)
    by (auto simp: in_sync_def clear_flags_def aux_wf_def CheckExtendedFlagBit1_def CheckExtendedFlagBit2_def)
  then show ?thesis using st' m' p tk by (cases st') (auto simp: build_packet_def)
qed

text \<open>The extended packet rebuilds the data on a blank copy.\<close>

lemma build_extended_sync:
  assumes s: "in_sync m (d, path)" and okd: "ok d"
    and len: "ne + length (fields_bytes (m_ExtendedFlags (hd path)) 0 (wire d)) \<le> N" and N: "N < 2 ^ 64 - 1"
  shows "\<exists>buf n m'. build_extended_packet (wire d) path (replicate N 0, 0) = Some (buf, n) \<and>
     read_object ne layout (take n buf) blank = Some (m', []) \<and> (\<forall>i < length layout. same i d m')"
proof -
  obtain a up where p: "path = a # up" using s by (cases path) (auto simp: in_sync_def)
  let ?bs = "m_ExtendedFlags a @ fields_bytes (m_ExtendedFlags a) 0 (wire d)"
  have ne: "length (m_ExtendedFlags a) = ne" using s p by (simp add: in_sync_def)
  have "unat (m_Max_Buffer a) = 2 ^ 64 - 1" using s p by (simp add: in_sync_def unsigned_minus_1_eq_mask mask_eq_exp_minus_1)
  then have "room a (replicate N 0, 0) (length ?bs)" using len N ne p by (simp add: room_def)
  then obtain st' where st': "add_object a (m_ExtendedFlags a) (wire d) (replicate N 0, 0) = Some st'"
      "appended (replicate N 0, 0) ?bs st'"
    using add_object_appended by blast
  have tk: "take (snd st') (fst st') = ?bs"
    using st'(2) by (rule appended_take)
  have "\<forall>i < length layout. \<not> CheckAuxBit (m_ExtendedFlags a) i \<longrightarrow> same i d blank"
    using s p unset_blank by (auto simp: in_sync_def CheckExtendedFlagBit1_def)
  then obtain m' where "read_object ne layout ?bs blank = Some (m', [])" "\<forall>i < length layout. same i d m'"
    using read_object_wire [OF okd, of "m_ExtendedFlags a" blank "[]"] ne by auto
  then show ?thesis using st' p tk by (cases st') (auto simp: build_extended_packet_def)
qed

end

lemma length_fields_bytes: "length (fields_bytes flags i fs) \<le> sum_list (map (\<lambda>f. length (wire_bytes f)) fs)"
proof (induction fs arbitrary: i)
  case Nil
  then show ?case by simp
next
  case (Cons f fs)
  then have "length (fields_bytes flags (Suc i) fs) \<le> sum_list (map (\<lambda>f. length (wire_bytes f)) fs)" by blast
  then show ?case by (cases "CheckAuxBit flags i") simp_all
qed


lemma rep_ok: "P (fst x) \<Longrightarrow> (\<And>w d. P d \<Longrightarrow> P (upd w d)) \<Longrightarrow> P (fst (rep eq tr get upd k v x))"
  by (simp add: rep_def ReplaceData_def)

lemma rep_str_ok:
  "P (fst x) \<Longrightarrow> (\<And>w d. P d \<Longrightarrow> length w \<le> len - 1 \<Longrightarrow> P (upd w d)) \<Longrightarrow> (\<And>d. P d \<Longrightarrow> P (upd (get d) d)) \<Longrightarrow>
   P (fst (rep_str get upd k len v x))"
  by (auto simp: rep_str_def ReplaceString_def)

lemma check_data_fst: "fst (check_data x) = fst x"
  by (simp add: check_data_def)

section \<open>Runs of an object\<close>

text \<open>
  Rounds of an object: a batch of changes, a packet in a fresh buffer of \<open>N\<close> bytes, and a
  receiver that applies the packet to its copy.
\<close>

fun aux_rounds :: "('op \<Rightarrow> 'd \<times> aux_path \<Rightarrow> 'd \<times> aux_path) \<Rightarrow>
    ('d \<times> aux_path \<Rightarrow> packet_state \<Rightarrow> (packet_state \<times> 'd \<times> aux_path) option) \<Rightarrow> 'd layout \<Rightarrow> nat \<Rightarrow> nat \<Rightarrow>
    'op list list \<Rightarrow> 'd \<times> aux_path \<Rightarrow> 'd \<Rightarrow> (('d \<times> aux_path) \<times> 'd) option" where
  "aux_rounds step build ls nf N [] x m = Some (x, m)"
| "aux_rounds step build ls nf N (ops # rest) x m = do {
     ((buf, n), y) \<leftarrow> build (fold step ops x) (replicate N 0, 0);
     (m', _) \<leftarrow> read_object nf ls (take n buf) m;
     aux_rounds step build ls nf N rest y m'
   }"

locale aux_ops = aux_class +
  fixes step :: "'op \<Rightarrow> 'a \<times> aux_path \<Rightarrow> 'a \<times> aux_path"
    and build :: "'a \<times> aux_path \<Rightarrow> packet_state \<Rightarrow> (packet_state \<times> 'a \<times> aux_path) option"
    and N :: nat
  assumes build: "build x st = map_option (\<lambda>(st', p). (st', (fst x, p))) (build_packet (wire (fst x)) (snd x) st)"
    and step_sync: "in_sync m x \<Longrightarrow> in_sync m (step op x)"
    and step_ok: "ok (fst x) \<Longrightarrow> ok (fst (step op x))"
    and fits: "ok d \<Longrightarrow> max nf ne + sum_list (map (\<lambda>f. length (wire_bytes f)) (wire d)) \<le> N"
    and limit: "N < 2 ^ 64 - 1"
begin

lemma run_sync: "in_sync m x \<Longrightarrow> ok (fst x) \<Longrightarrow> in_sync m (fold step ops x) \<and> ok (fst (fold step ops x))"
  by (induction ops arbitrary: x) (simp_all add: step_sync step_ok)

lemma round_sync:
  assumes "in_sync m x" and "ok (fst x)"
  shows "\<exists>buf n y m'. build x (replicate N 0, 0) = Some ((buf, n), y) \<and> fst y = fst x \<and>
     read_object nf layout (take n buf) m = Some (m', []) \<and>
     (\<forall>i < length layout. same i (fst x) m') \<and> in_sync m' y"
proof -
  have "nf + length (fields_bytes (m_Flags (hd (snd x))) 0 (wire (fst x))) \<le> N"
    using fits [OF assms(2)] length_fields_bytes [of "m_Flags (hd (snd x))" 0 "wire (fst x)"] by linarith
  then show ?thesis using build_packet_sync [of m "fst x" "snd x" N] assms limit
    by (fastforce simp: build)
qed

lemma rounds_sync:
  "in_sync m x \<Longrightarrow> ok (fst x) \<Longrightarrow> \<forall>i < length layout. same i (fst x) m \<Longrightarrow>
   \<exists>x' m'. aux_rounds step build layout nf N batches x m = Some (x', m') \<and>
     (\<forall>i < length layout. same i (fst x') m')"
proof (induction batches arbitrary: x m)
  case Nil
  then show ?case by simp
next
  case (Cons ops rest)
  let ?y = "fold step ops x"
  have y: "in_sync m ?y" "ok (fst ?y)" using run_sync Cons.prems by blast+
  obtain buf n z m' where z: "build ?y (replicate N 0, 0) = Some ((buf, n), z)" "fst z = fst ?y"
      "read_object nf layout (take n buf) m = Some (m', [])"
      "\<forall>i < length layout. same i (fst ?y) m'" "in_sync m' z"
    using round_sync [OF y] by blast
  then show ?case using Cons.IH [of m' z] y(2) by auto
qed

lemma snapshot_sync:
  assumes "in_sync m x" and "ok (fst x)"
  shows "\<exists>buf n m'. build_extended_packet (wire (fst (fold step ops x))) (snd (fold step ops x)) (replicate N 0, 0) =
       Some (buf, n) \<and>
     read_object ne layout (take n buf) blank = Some (m', []) \<and>
     (\<forall>i < length layout. same i (fst (fold step ops x)) m')"
proof -
  let ?x = "fold step ops x"
  have x: "in_sync m ?x" "ok (fst ?x)" using run_sync assms by blast+
  have "ne + length (fields_bytes (m_ExtendedFlags (hd (snd ?x))) 0 (wire (fst ?x))) \<le> N"
    using fits [OF x(2)] length_fields_bytes [of "m_ExtendedFlags (hd (snd ?x))" 0 "wire (fst ?x)"] by linarith
  then show ?thesis using build_extended_sync [of m "fst ?x" "snd ?x" N] x limit by auto
qed

end

lemma Construct_bits:
  "m_Flags (Construct f e n i h) = f" "m_ExtendedFlags (Construct f e n i h) = e"
  "m_FlagCount (Construct f e n i h) = n" "m_Max_Buffer (Construct f e n i h) = -1"
  by (simp_all add: Construct_def)

lemma le_words:
  "le_word (le_bytes 4 w) = (w :: 32 word)" "le_word (le_bytes 8 v) = (v :: 64 word)"
  by (simp_all add: le_word_le_bytes)

text \<open>Two floats are the same datum when they have the same bits or are both zero.\<close>

definition f_same :: "f32 \<Rightarrow> f32 \<Rightarrow> bool" where
  "f_same x y \<longleftrightarrow> x = y \<or> f_zero x \<and> f_zero y"

lemma f_same_simps [simp]: "f_same x x" "f_zero x \<Longrightarrow> f_same x 0" "f_zero 0"
  by (simp_all add: f_same_def f_zero_def)

end
