(* ===== verification/AuxItem.thy ===== *)
theory AuxItem
  imports AuxObjects
begin

text \<open>
  Items: \<^verbatim>\<open>server/src/AuxClasses/AuxItem.h\<close> and \<^verbatim>\<open>AuxItem.cpp\<close>. An item is its data and
  the path of its flag block. Setters replace one field and record the change;
  \<^verbatim>\<open>BuildPacket\<close> sends the changed fields, \<^verbatim>\<open>BuildExtendedPacket\<close> the set ones. The trade
  stack is kept on the server only.
\<close>

record Item =
  ItemTemplateID :: s32
  StackCount :: u32
  Price :: u64
  AveCost :: f32
  Structure :: f32
  Quality :: f32
  InstanceInfo :: bytes
  ActivatedEffectInstanceInfo :: bytes
  EquipEffectInstanceInfo :: bytes
  BuilderName :: bytes
  TradeStack :: u32

type_synonym aux_item = "Item \<times> aux_path"

definition ClearItem :: Item where
  "ClearItem = \<lparr>ItemTemplateID = -2, StackCount = 0, Price = 0, AveCost = 0, Structure = 0,
     Quality = 0, InstanceInfo = [], ActivatedEffectInstanceInfo = [],
     EquipEffectInstanceInfo = [], BuilderName = [], TradeStack = 0\<rparr>"

definition AuxItem_Init :: "nat \<Rightarrow> aux_path \<Rightarrow> aux_item" where
  "AuxItem_Init MemberIndex Parent =
     (ClearItem, Construct [0, 0] [0x16, 0x80, 0xFF] 10 MemberIndex None # Parent)"

section \<open>Packets\<close>

definition AuxItem_wire :: "Item \<Rightarrow> wire_field list" where
  "AuxItem_wire d =
     [Raw (le_bytes 4 (ItemTemplateID d)), Raw (le_bytes 4 (StackCount d)), Raw (le_bytes 8 (Price d)),
      Raw (le_bytes 4 (AveCost d)), Raw (le_bytes 4 (Structure d)), Raw (le_bytes 4 (Quality d)),
      Str (InstanceInfo d), Str (ActivatedEffectInstanceInfo d), Str (EquipEffectInstanceInfo d),
      Str (BuilderName d)]"

definition AuxItem_BuildPacket :: "aux_item \<Rightarrow> packet_state \<Rightarrow> (packet_state \<times> aux_item) option" where
  "AuxItem_BuildPacket it st =
     map_option (\<lambda>(st', path). (st', (fst it, path))) (build_packet (AuxItem_wire (fst it)) (snd it) st)"

definition AuxItem_BuildExtendedPacket :: "aux_item \<Rightarrow> packet_state \<Rightarrow> packet_state option" where
  "AuxItem_BuildExtendedPacket it st = build_extended_packet (AuxItem_wire (fst it)) (snd it) st"

section \<open>Setters\<close>

definition SetItemTemplateID :: "s32 \<Rightarrow> aux_item \<Rightarrow> aux_item" where
  "SetItemTemplateID v = rep_word ItemTemplateID (\<lambda>x d. d\<lparr>ItemTemplateID := x\<rparr>) 0 v"

definition SetStackCount :: "u32 \<Rightarrow> aux_item \<Rightarrow> aux_item" where
  "SetStackCount v = rep_word StackCount (\<lambda>x d. d\<lparr>StackCount := x\<rparr>) 1 v"

definition SetPrice :: "u64 \<Rightarrow> aux_item \<Rightarrow> aux_item" where
  "SetPrice v = rep_word Price (\<lambda>x d. d\<lparr>Price := x\<rparr>) 2 v"

definition SetAveCost :: "f32 \<Rightarrow> aux_item \<Rightarrow> aux_item" where
  "SetAveCost v = rep_float AveCost (\<lambda>x d. d\<lparr>AveCost := x\<rparr>) 3 v"

definition SetStructure :: "f32 \<Rightarrow> aux_item \<Rightarrow> aux_item" where
  "SetStructure v = rep_float Structure (\<lambda>x d. d\<lparr>Structure := x\<rparr>) 4 v"

definition SetQuality :: "f32 \<Rightarrow> aux_item \<Rightarrow> aux_item" where
  "SetQuality v = rep_float Quality (\<lambda>x d. d\<lparr>Quality := x\<rparr>) 5 v"

definition SetInstanceInfo :: "bytes \<Rightarrow> aux_item \<Rightarrow> aux_item" where
  "SetInstanceInfo v = rep_str InstanceInfo (\<lambda>x d. d\<lparr>InstanceInfo := x\<rparr>) 6 64 v"

definition SetActivatedEffectInstanceInfo :: "bytes \<Rightarrow> aux_item \<Rightarrow> aux_item" where
  "SetActivatedEffectInstanceInfo v =
     rep_str ActivatedEffectInstanceInfo (\<lambda>x d. d\<lparr>ActivatedEffectInstanceInfo := x\<rparr>) 7 64 v"

definition SetEquipEffectInstanceInfo :: "bytes \<Rightarrow> aux_item \<Rightarrow> aux_item" where
  "SetEquipEffectInstanceInfo v =
     rep_str EquipEffectInstanceInfo (\<lambda>x d. d\<lparr>EquipEffectInstanceInfo := x\<rparr>) 8 (6 * 3 * 8 + 1) v"

definition SetBuilderName :: "bytes \<Rightarrow> aux_item \<Rightarrow> aux_item" where
  "SetBuilderName v = rep_str BuilderName (\<lambda>x d. d\<lparr>BuilderName := x\<rparr>) 9 64 v"

text \<open>The stack that can award trade experience is reset when it leaves the range 0 to 999.\<close>

definition SetTradeStack :: "u32 \<Rightarrow> aux_item \<Rightarrow> aux_item" where
  "SetTradeStack NewTradeStack it =
     ((fst it)\<lparr>TradeStack := (if NewTradeStack < 0 \<or> 999 < NewTradeStack then 0 else NewTradeStack)\<rparr>, snd it)"

definition AddTradeStack :: "u32 \<Rightarrow> aux_item \<Rightarrow> aux_item" where
  "AddTradeStack Amount it = SetTradeStack (TradeStack (fst it) + Amount) it"

definition AuxItem_SetData :: "Item \<Rightarrow> aux_item \<Rightarrow> aux_item" where
  "AuxItem_SetData NewData it =
     SetTradeStack (TradeStack NewData)
      (SetBuilderName (BuilderName NewData)
       (SetEquipEffectInstanceInfo (EquipEffectInstanceInfo NewData)
        (SetActivatedEffectInstanceInfo (ActivatedEffectInstanceInfo NewData)
         (SetInstanceInfo (InstanceInfo NewData)
          (SetQuality (Quality NewData)
           (SetStructure (Structure NewData)
            (SetAveCost (AveCost NewData)
             (SetPrice (Price NewData)
              (SetStackCount (StackCount NewData)
               (SetItemTemplateID (ItemTemplateID NewData) it))))))))))"

definition AuxItem_Clear :: "aux_item \<Rightarrow> aux_item" where
  "AuxItem_Clear it = AuxItem_SetData ClearItem it"

definition AuxItem_Empty :: "aux_item \<Rightarrow> aux_item" where
  "AuxItem_Empty it = SetItemTemplateID (-1) (AuxItem_Clear it)"

definition AuxItem_ClearFlags :: "aux_item \<Rightarrow> aux_item" where
  "AuxItem_ClearFlags it = (fst it, (case snd it of [] \<Rightarrow> [] | a # up \<Rightarrow> clear_flags a # up))"

section \<open>The contract of an item\<close>

definition AuxItem_layout :: "Item layout" where
  "AuxItem_layout =
     [(RawK 4, \<lambda>b d. d\<lparr>ItemTemplateID := le_word b\<rparr>), (RawK 4, \<lambda>b d. d\<lparr>StackCount := le_word b\<rparr>),
      (RawK 8, \<lambda>b d. d\<lparr>Price := le_word b\<rparr>), (RawK 4, \<lambda>b d. d\<lparr>AveCost := le_word b\<rparr>),
      (RawK 4, \<lambda>b d. d\<lparr>Structure := le_word b\<rparr>), (RawK 4, \<lambda>b d. d\<lparr>Quality := le_word b\<rparr>),
      (StrK, \<lambda>b d. d\<lparr>InstanceInfo := b\<rparr>), (StrK, \<lambda>b d. d\<lparr>ActivatedEffectInstanceInfo := b\<rparr>),
      (StrK, \<lambda>b d. d\<lparr>EquipEffectInstanceInfo := b\<rparr>), (StrK, \<lambda>b d. d\<lparr>BuilderName := b\<rparr>)]"

definition AuxItem_truth :: "nat \<Rightarrow> Item \<Rightarrow> bool" where
  "AuxItem_truth i d =
     ([ItemTemplateID d \<noteq> 0, StackCount d \<noteq> 0, Price d \<noteq> 0, \<not> f_zero (AveCost d), \<not> f_zero (Structure d),
       \<not> f_zero (Quality d), InstanceInfo d \<noteq> [], ActivatedEffectInstanceInfo d \<noteq> [],
       EquipEffectInstanceInfo d \<noteq> [], BuilderName d \<noteq> []] ! i)"

definition AuxItem_same :: "nat \<Rightarrow> Item \<Rightarrow> Item \<Rightarrow> bool" where
  "AuxItem_same i d m =
     ([ItemTemplateID d = ItemTemplateID m, StackCount d = StackCount m, Price d = Price m,
       f_same (AveCost d) (AveCost m), f_same (Structure d) (Structure m), f_same (Quality d) (Quality m),
       InstanceInfo d = InstanceInfo m, ActivatedEffectInstanceInfo d = ActivatedEffectInstanceInfo m,
       EquipEffectInstanceInfo d = EquipEffectInstanceInfo m, BuilderName d = BuilderName m] ! i)"

definition item_ok :: "Item \<Rightarrow> bool" where
  "item_ok d \<longleftrightarrow> length (InstanceInfo d) \<le> 63 \<and> length (ActivatedEffectInstanceInfo d) \<le> 63 \<and>
     length (EquipEffectInstanceInfo d) \<le> 144 \<and> length (BuilderName d) \<le> 63 \<and> TradeStack d \<le> 999"

lemma len_layout: "length AuxItem_layout = 10"
  by (simp add: AuxItem_layout_def)

interpretation item: aux_class AuxItem_wire AuxItem_layout AuxItem_truth AuxItem_same
  "ClearItem\<lparr>ItemTemplateID := 0\<rparr>" item_ok 2 3
proof
  fix d :: Item assume "item_ok d"
  show "map kind_of (AuxItem_wire d) = map fst AuxItem_layout"
    by (simp add: AuxItem_wire_def AuxItem_layout_def)
next
  fix d :: Item and s assume "item_ok d" "Str s \<in> set (AuxItem_wire d)"
  then show "length s < 2 ^ 16" by (auto simp: AuxItem_wire_def item_ok_def)
next
  fix d m :: Item assume "item_ok d"
  show "\<forall>i < length AuxItem_layout. AuxItem_same i d (snd (AuxItem_layout ! i) (content (AuxItem_wire d ! i)) m)"
    unfolding len_layout ball_lt
    by (simp add: AuxItem_same_def AuxItem_layout_def AuxItem_wire_def le_words)
next
  fix d m :: Item and bs
  show "\<forall>i < length AuxItem_layout. \<forall>j < length AuxItem_layout. i \<noteq> j \<longrightarrow>
      AuxItem_same j d (snd (AuxItem_layout ! i) bs m) = AuxItem_same j d m"
    unfolding len_layout ball_lt by (simp add: AuxItem_same_def AuxItem_layout_def)
next
  fix d :: Item
  show "\<forall>i < length AuxItem_layout. \<not> AuxItem_truth i d \<longrightarrow> AuxItem_same i d (ClearItem\<lparr>ItemTemplateID := 0\<rparr>)"
    unfolding len_layout ball_lt
    by (simp add: AuxItem_same_def AuxItem_truth_def ClearItem_def)
qed

lemma item_lenses:
  "item.lens 0 ItemTemplateID (\<lambda>x d. d\<lparr>ItemTemplateID := x\<rparr>) (\<lambda>x. x \<noteq> 0)"
  "item.lens 1 StackCount (\<lambda>x d. d\<lparr>StackCount := x\<rparr>) (\<lambda>x. x \<noteq> 0)"
  "item.lens 2 Price (\<lambda>x d. d\<lparr>Price := x\<rparr>) (\<lambda>x. x \<noteq> 0)"
  "item.lens 3 AveCost (\<lambda>x d. d\<lparr>AveCost := x\<rparr>) (\<lambda>x. \<not> f_zero x)"
  "item.lens 4 Structure (\<lambda>x d. d\<lparr>Structure := x\<rparr>) (\<lambda>x. \<not> f_zero x)"
  "item.lens 5 Quality (\<lambda>x d. d\<lparr>Quality := x\<rparr>) (\<lambda>x. \<not> f_zero x)"
  "item.lens 6 InstanceInfo (\<lambda>x d. d\<lparr>InstanceInfo := x\<rparr>) (\<lambda>x. x \<noteq> [])"
  "item.lens 7 ActivatedEffectInstanceInfo (\<lambda>x d. d\<lparr>ActivatedEffectInstanceInfo := x\<rparr>) (\<lambda>x. x \<noteq> [])"
  "item.lens 8 EquipEffectInstanceInfo (\<lambda>x d. d\<lparr>EquipEffectInstanceInfo := x\<rparr>) (\<lambda>x. x \<noteq> [])"
  "item.lens 9 BuilderName (\<lambda>x d. d\<lparr>BuilderName := x\<rparr>) (\<lambda>x. x \<noteq> [])"
  unfolding item.lens_def len_layout ball_lt by (simp_all add: AuxItem_truth_def AuxItem_same_def)

lemma SetTradeStack_in_sync: "item.in_sync m x \<Longrightarrow> item.in_sync m (SetTradeStack v x)"
  unfolding item.in_sync_def len_layout ball_lt
  by (cases x, cases "snd x") (simp_all add: SetTradeStack_def AuxItem_truth_def AuxItem_same_def)

lemmas item_setters = SetItemTemplateID_def SetStackCount_def SetPrice_def SetAveCost_def
  SetStructure_def SetQuality_def SetInstanceInfo_def SetActivatedEffectInstanceInfo_def
  SetEquipEffectInstanceInfo_def SetBuilderName_def

lemma item_setters_in_sync:
  assumes "item.in_sync m x"
  shows "item.in_sync m (SetItemTemplateID a x)" "item.in_sync m (SetStackCount b x)"
    "item.in_sync m (SetPrice c x)" "item.in_sync m (SetAveCost e x)" "item.in_sync m (SetStructure f x)"
    "item.in_sync m (SetQuality g x)" "item.in_sync m (SetInstanceInfo s x)"
    "item.in_sync m (SetActivatedEffectInstanceInfo s x)" "item.in_sync m (SetEquipEffectInstanceInfo s x)"
    "item.in_sync m (SetBuilderName s x)"
  unfolding item_setters
  using assms item_lenses by (auto intro!: item.rep_in_sync item.rep_str_in_sync)


section \<open>Effect of the setters on the data\<close>

lemma rep_word_fst: "fst (rep_word get upd k v x) = (if get (fst x) = v then upd (get (fst x)) (fst x) else upd v (fst x))"
  by (simp add: rep_def ReplaceData_def)

lemma item_fst [simp]:
  "fst (SetItemTemplateID v x) = (fst x)\<lparr>ItemTemplateID := v\<rparr>"
  "fst (SetStackCount b x) = (fst x)\<lparr>StackCount := b\<rparr>"
  "fst (SetPrice c x) = (fst x)\<lparr>Price := c\<rparr>"
  by (auto simp: SetItemTemplateID_def SetStackCount_def SetPrice_def rep_def ReplaceData_def)

lemma SetTradeStack_fst [simp]:
  "fst (SetTradeStack v x) = (fst x)\<lparr>TradeStack := (if 999 < v then 0 else v)\<rparr>"
  by (simp add: SetTradeStack_def)

lemma item_float_fst [simp]:
  "fst (SetAveCost v x) = (fst x)\<lparr>AveCost := (if f_eq (AveCost (fst x)) v then AveCost (fst x) else v)\<rparr>"
  "fst (SetStructure v x) = (fst x)\<lparr>Structure := (if f_eq (Structure (fst x)) v then Structure (fst x) else v)\<rparr>"
  "fst (SetQuality v x) = (fst x)\<lparr>Quality := (if f_eq (Quality (fst x)) v then Quality (fst x) else v)\<rparr>"
  by (auto simp: SetAveCost_def SetStructure_def SetQuality_def rep_def ReplaceData_def)

lemma item_str_fst [simp]:
  "fst (SetInstanceInfo s x) = (fst x)\<lparr>InstanceInfo := (if InstanceInfo (fst x) = s then s else take 63 s)\<rparr>"
  "fst (SetActivatedEffectInstanceInfo s x) =
     (fst x)\<lparr>ActivatedEffectInstanceInfo := (if ActivatedEffectInstanceInfo (fst x) = s then s else take 63 s)\<rparr>"
  "fst (SetEquipEffectInstanceInfo s x) =
     (fst x)\<lparr>EquipEffectInstanceInfo := (if EquipEffectInstanceInfo (fst x) = s then s else take 144 s)\<rparr>"
  "fst (SetBuilderName s x) = (fst x)\<lparr>BuilderName := (if BuilderName (fst x) = s then s else take 63 s)\<rparr>"
  by (auto simp: item_setters rep_str_def ReplaceString_def)

section \<open>Runs of an item\<close>

datatype item_op =
    Op_ItemTemplateID s32 | Op_StackCount u32 | Op_Price u64 | Op_AveCost f32 | Op_Structure f32
  | Op_Quality f32 | Op_InstanceInfo bytes | Op_ActivatedEffectInstanceInfo bytes
  | Op_EquipEffectInstanceInfo bytes | Op_BuilderName bytes | Op_AddTradeStack u32
  | Op_SetData Item | Op_Clear | Op_Empty

fun item_do :: "item_op \<Rightarrow> aux_item \<Rightarrow> aux_item" where
  "item_do (Op_ItemTemplateID v) = SetItemTemplateID v"
| "item_do (Op_StackCount v) = SetStackCount v"
| "item_do (Op_Price v) = SetPrice v"
| "item_do (Op_AveCost v) = SetAveCost v"
| "item_do (Op_Structure v) = SetStructure v"
| "item_do (Op_Quality v) = SetQuality v"
| "item_do (Op_InstanceInfo v) = SetInstanceInfo v"
| "item_do (Op_ActivatedEffectInstanceInfo v) = SetActivatedEffectInstanceInfo v"
| "item_do (Op_EquipEffectInstanceInfo v) = SetEquipEffectInstanceInfo v"
| "item_do (Op_BuilderName v) = SetBuilderName v"
| "item_do (Op_AddTradeStack v) = AddTradeStack v"
| "item_do (Op_SetData d) = AuxItem_SetData d"
| "item_do Op_Clear = AuxItem_Clear"
| "item_do Op_Empty = AuxItem_Empty"

lemma SetData_in_sync: "item.in_sync m x \<Longrightarrow> item.in_sync m (AuxItem_SetData d x)"
  by (simp add: AuxItem_SetData_def SetTradeStack_in_sync item_setters_in_sync)

lemma item_do_in_sync: "item.in_sync m x \<Longrightarrow> item.in_sync m (item_do op x)"
  by (cases op)
    (simp_all add: item_setters_in_sync SetTradeStack_in_sync SetData_in_sync AddTradeStack_def
      AuxItem_Clear_def AuxItem_Empty_def)

lemma item_ok_setters:
  assumes "item_ok (fst x)"
  shows "item_ok (fst (SetItemTemplateID a x))" "item_ok (fst (SetStackCount b x))"
    "item_ok (fst (SetPrice c x))" "item_ok (fst (SetAveCost e x))" "item_ok (fst (SetStructure f x))"
    "item_ok (fst (SetQuality g x))" "item_ok (fst (SetInstanceInfo s x))"
    "item_ok (fst (SetActivatedEffectInstanceInfo s x))" "item_ok (fst (SetEquipEffectInstanceInfo s x))"
    "item_ok (fst (SetBuilderName s x))" "item_ok (fst (SetTradeStack t x))"
  using assms by (auto simp: item_ok_def)

lemma item_do_ok: "item_ok (fst x) \<Longrightarrow> item_ok (fst (item_do op x))"
  by (cases op)
    (simp_all add: item_ok_setters AddTradeStack_def AuxItem_SetData_def AuxItem_Clear_def AuxItem_Empty_def
      del: item_fst SetTradeStack_fst item_float_fst item_str_fst)

lemma AuxItem_Init_in_sync: "item.in_sync ClearItem (AuxItem_Init i Parent)"
  unfolding item.in_sync_def len_layout ball_lt
  by (simp add: AuxItem_Init_def Construct_bits aux_wf_def AuxItem_truth_def AuxItem_same_def ClearItem_def
      CheckExtendedFlagBit1_def CheckExtendedFlagBit2_def CheckAuxBit_def)


lemma item_fits: "item_ok d \<Longrightarrow> 3 + (\<Sum>f\<leftarrow>AuxItem_wire d. length (wire_bytes f)) \<le> 400"
  by (simp add: AuxItem_wire_def item_ok_def)

interpretation item_ops: aux_ops AuxItem_wire AuxItem_layout AuxItem_truth AuxItem_same
  "ClearItem\<lparr>ItemTemplateID := 0\<rparr>" item_ok 2 3 item_do AuxItem_BuildPacket 400
  by unfold_locales
    (simp_all add: AuxItem_BuildPacket_def item_do_in_sync item_do_ok item_fits)

lemma item_Init_ok: "item_ok (fst (AuxItem_Init MemberIndex Parent))"
  by (simp add: AuxItem_Init_def ClearItem_def item_ok_def)

text \<open>
  C20: the delta protocol of an item. Whatever batches of changes the server makes to an
  item after \<^verbatim>\<open>Init\<close>, each followed by a \<^verbatim>\<open>BuildPacket\<close>, every packet fits in 400 bytes and a
  receiver that applies the packets ends with the server's data in every field sent.
\<close>

theorem AuxItem_delta_sync:
  "\<exists>x m. aux_rounds item_do AuxItem_BuildPacket AuxItem_layout 2 400 batches
        (AuxItem_Init MemberIndex Parent) ClearItem = Some (x, m) \<and>
     (\<forall>i < 10. AuxItem_same i (fst x) m)"
proof -
  have "\<forall>i < 10. AuxItem_same i (fst (AuxItem_Init MemberIndex Parent)) ClearItem"
    unfolding ball_lt by (simp add: AuxItem_Init_def AuxItem_same_def)
  then show ?thesis
    using item_ops.rounds_sync [OF AuxItem_Init_in_sync item_Init_ok] by (simp add: len_layout)
qed

theorem AuxItem_delta_sync_witness:
  "(\<exists>x m. aux_rounds item_do AuxItem_BuildPacket AuxItem_layout 2 400
        [[Op_StackCount 7, Op_BuilderName [65, 66]], [Op_StackCount 9]] (AuxItem_Init 3 []) ClearItem = Some (x, m) \<and>
      StackCount m = StackCount (fst x) \<and> BuilderName m = BuilderName (fst x)) \<and>
   map_option (\<lambda>(x, m). (StackCount (fst x), StackCount m, BuilderName m))
     (aux_rounds item_do AuxItem_BuildPacket AuxItem_layout 2 400
        [[Op_StackCount 7, Op_BuilderName [65, 66]], [Op_StackCount 9]] (AuxItem_Init 3 []) ClearItem) =
     Some (9, 9, [65, 66])"
proof (rule conjI, goal_cases)
  case 1
  obtain x m where xm: "aux_rounds item_do AuxItem_BuildPacket AuxItem_layout 2 400
        [[Op_StackCount 7, Op_BuilderName [65, 66]], [Op_StackCount 9]] (AuxItem_Init 3 []) ClearItem = Some (x, m)"
      and same: "\<forall>i < 10. AuxItem_same i (fst x) m"
    using AuxItem_delta_sync by blast
  have "AuxItem_same 1 (fst x) m \<and> AuxItem_same 9 (fst x) m" using same by simp
  with xm show ?case by (auto simp: AuxItem_same_def)
next
  case 2
  show ?case by code_simp
qed

text \<open>
  C24: the snapshot of an item. After any changes the extended packet holds exactly what a
  receiver needs to rebuild the item from a copy with every field zero.
\<close>

theorem AuxItem_snapshot:
  "\<exists>buf n m. AuxItem_BuildExtendedPacket (fold item_do ops (AuxItem_Init MemberIndex Parent)) (replicate 400 0, 0) =
       Some (buf, n) \<and>
     read_object 3 AuxItem_layout (take n buf) (ClearItem\<lparr>ItemTemplateID := 0\<rparr>) = Some (m, []) \<and>
     (\<forall>i < 10. AuxItem_same i (fst (fold item_do ops (AuxItem_Init MemberIndex Parent))) m)"
  using item_ops.snapshot_sync [OF AuxItem_Init_in_sync item_Init_ok]
  by (simp add: AuxItem_BuildExtendedPacket_def len_layout)

theorem AuxItem_snapshot_witness:
  "\<exists>buf n m. AuxItem_BuildExtendedPacket (fold item_do [Op_StackCount 7] (AuxItem_Init 3 [])) (replicate 400 0, 0) =
       Some (buf, n) \<and>
     read_object 3 AuxItem_layout (take n buf) (ClearItem\<lparr>ItemTemplateID := 0\<rparr>) = Some (m, []) \<and>
     StackCount m = 7"
proof -
  obtain buf n m where b: "AuxItem_BuildExtendedPacket (fold item_do [Op_StackCount 7] (AuxItem_Init 3 [])) (replicate 400 0, 0) =
       Some (buf, n)" "read_object 3 AuxItem_layout (take n buf) (ClearItem\<lparr>ItemTemplateID := 0\<rparr>) = Some (m, [])"
      and same: "\<forall>i < 10. AuxItem_same i (fst (fold item_do [Op_StackCount 7] (AuxItem_Init 3 []))) m"
    using AuxItem_snapshot by blast
  have "AuxItem_same 1 (fst (fold item_do [Op_StackCount 7] (AuxItem_Init 3 []))) m" using same by simp
  with b show ?thesis by (auto simp: AuxItem_same_def)
qed

end
