(* ===== verification/AuxLeaves.thy ===== *)
theory AuxLeaves
  imports AuxObjects
begin

text \<open>
  Leaf classes of the delta-encoded state tree: \<^verbatim>\<open>AuxElement\<close>, \<^verbatim>\<open>AuxFaction\<close>, \<^verbatim>\<open>AuxPercent\<close>,
  \<^verbatim>\<open>AuxAttachment\<close> and \<^verbatim>\<open>AuxEffect\<close> (\<^verbatim>\<open>server/src/AuxClasses\<close>). Each interprets the contract
  of \<open>aux_class\<close> and \<open>aux_ops\<close>; its two last lemmas are the delta and the snapshot round trip.
\<close>

section \<open>Element\<close>

record Element =
  Element_SourceEntity :: bytes
  Element_SourceObject :: bytes
  Element_Magnitude :: u32
  Element_IsActive :: bool
  Element_ExpirationTime :: u32

definition ClearElement :: Element where
  "ClearElement = \<lparr>Element_SourceEntity = [],
     Element_SourceObject = [],
     Element_Magnitude = 0,
     Element_IsActive = False,
     Element_ExpirationTime = 0\<rparr>"

definition AuxElement_Init :: "nat \<Rightarrow> aux_path \<Rightarrow> Element \<times> aux_path" where
  "AuxElement_Init MemberIndex Parent =
     (ClearElement, Construct [0, 0] [0x06, 0x3E] 5 MemberIndex (Some [0xF0, 0x01]) # Parent)"

definition AuxElement_wire :: "Element \<Rightarrow> wire_field list" where
  "AuxElement_wire d =
     [Str (Element_SourceEntity d),
      Str (Element_SourceObject d),
      Raw (le_bytes 4 (Element_Magnitude d)),
      Raw [of_bool (Element_IsActive d)],
      Raw (le_bytes 4 (Element_ExpirationTime d))]"

definition AuxElement_BuildPacket ::
    "Element \<times> aux_path \<Rightarrow> packet_state \<Rightarrow> (packet_state \<times> Element \<times> aux_path) option" where
  "AuxElement_BuildPacket x st =
     map_option (\<lambda>(st', path). (st', (fst x, path))) (build_packet (AuxElement_wire (fst x)) (snd x) st)"

definition AuxElement_BuildExtendedPacket :: "Element \<times> aux_path \<Rightarrow> packet_state \<Rightarrow> packet_state option" where
  "AuxElement_BuildExtendedPacket x st = build_extended_packet (AuxElement_wire (fst x)) (snd x) st"

definition Element_SetSourceEntity :: "bytes \<Rightarrow> Element \<times> aux_path \<Rightarrow> Element \<times> aux_path" where
  "Element_SetSourceEntity v x = check_data (rep_str Element_SourceEntity (\<lambda>x d. d\<lparr>Element_SourceEntity := x\<rparr>) 0 64 v x)"

definition Element_SetSourceObject :: "bytes \<Rightarrow> Element \<times> aux_path \<Rightarrow> Element \<times> aux_path" where
  "Element_SetSourceObject v x = check_data (rep_str Element_SourceObject (\<lambda>x d. d\<lparr>Element_SourceObject := x\<rparr>) 1 64 v x)"

definition Element_SetMagnitude :: "u32 \<Rightarrow> Element \<times> aux_path \<Rightarrow> Element \<times> aux_path" where
  "Element_SetMagnitude v x = check_data (rep_word Element_Magnitude (\<lambda>x d. d\<lparr>Element_Magnitude := x\<rparr>) 2 v x)"

definition Element_SetIsActive :: "bool \<Rightarrow> Element \<times> aux_path \<Rightarrow> Element \<times> aux_path" where
  "Element_SetIsActive v x = check_data (rep_bool Element_IsActive (\<lambda>x d. d\<lparr>Element_IsActive := x\<rparr>) 3 v x)"

definition Element_SetExpirationTime :: "u32 \<Rightarrow> Element \<times> aux_path \<Rightarrow> Element \<times> aux_path" where
  "Element_SetExpirationTime v x = check_data (rep_word Element_ExpirationTime (\<lambda>x d. d\<lparr>Element_ExpirationTime := x\<rparr>) 4 v x)"

definition AuxElement_SetData :: "Element \<Rightarrow> Element \<times> aux_path \<Rightarrow> Element \<times> aux_path" where
  "AuxElement_SetData d x =
     check_data
      (rep_word Element_ExpirationTime (\<lambda>x d. d\<lparr>Element_ExpirationTime := x\<rparr>) 4 (Element_ExpirationTime d)
       (rep_bool Element_IsActive (\<lambda>x d. d\<lparr>Element_IsActive := x\<rparr>) 3 (Element_IsActive d)
       (rep_word Element_Magnitude (\<lambda>x d. d\<lparr>Element_Magnitude := x\<rparr>) 2 (Element_Magnitude d)
       (rep_str Element_SourceObject (\<lambda>x d. d\<lparr>Element_SourceObject := x\<rparr>) 1 64 (Element_SourceObject d)
       (rep_str Element_SourceEntity (\<lambda>x d. d\<lparr>Element_SourceEntity := x\<rparr>) 0 64 (Element_SourceEntity d) x)))))"

definition AuxElement_Clear :: "Element \<times> aux_path \<Rightarrow> Element \<times> aux_path" where
  "AuxElement_Clear x = AuxElement_SetData ClearElement x"

definition AuxElement_ClearFlags :: "Element \<times> aux_path \<Rightarrow> Element \<times> aux_path" where
  "AuxElement_ClearFlags x = (fst x, (case snd x of [] \<Rightarrow> [] | a # up \<Rightarrow> clear_flags a # up))"

definition AuxElement_layout :: "Element layout" where
  "AuxElement_layout =
     [(StrK, \<lambda>b d. d\<lparr>Element_SourceEntity := b\<rparr>),
      (StrK, \<lambda>b d. d\<lparr>Element_SourceObject := b\<rparr>),
      (RawK 4, \<lambda>b d. d\<lparr>Element_Magnitude := le_word b\<rparr>),
      (RawK 1, \<lambda>b d. d\<lparr>Element_IsActive := (b \<noteq> [0])\<rparr>),
      (RawK 4, \<lambda>b d. d\<lparr>Element_ExpirationTime := le_word b\<rparr>)]"

definition AuxElement_truth :: "nat \<Rightarrow> Element \<Rightarrow> bool" where
  "AuxElement_truth i d =
     ([Element_SourceEntity d \<noteq> [],
       Element_SourceObject d \<noteq> [],
       Element_Magnitude d \<noteq> 0,
       Element_IsActive d,
       Element_ExpirationTime d \<noteq> 0] ! i)"

definition AuxElement_same :: "nat \<Rightarrow> Element \<Rightarrow> Element \<Rightarrow> bool" where
  "AuxElement_same i d m =
     ([Element_SourceEntity d = Element_SourceEntity m,
       Element_SourceObject d = Element_SourceObject m,
       Element_Magnitude d = Element_Magnitude m,
       Element_IsActive d = Element_IsActive m,
       Element_ExpirationTime d = Element_ExpirationTime m] ! i)"

definition Element_ok :: "Element \<Rightarrow> bool" where
  "Element_ok d \<longleftrightarrow> length (Element_SourceEntity d) \<le> 63 \<and> length (Element_SourceObject d) \<le> 63"

lemma Element_len: "length AuxElement_layout = 5"
  by (simp add: AuxElement_layout_def)

interpretation element: aux_class AuxElement_wire AuxElement_layout AuxElement_truth AuxElement_same
  ClearElement Element_ok 2 2
  unfolding aux_class_def Element_len ball_lt
  by (auto simp: AuxElement_wire_def AuxElement_layout_def AuxElement_same_def AuxElement_truth_def ClearElement_def
      Element_ok_def le_words)

lemma Element_lenses:
  "element.lens 0 Element_SourceEntity (\<lambda>x d. d\<lparr>Element_SourceEntity := x\<rparr>) (\<lambda>x. x \<noteq> [])"
  "element.lens 1 Element_SourceObject (\<lambda>x d. d\<lparr>Element_SourceObject := x\<rparr>) (\<lambda>x. x \<noteq> [])"
  "element.lens 2 Element_Magnitude (\<lambda>x d. d\<lparr>Element_Magnitude := x\<rparr>) (\<lambda>x. x \<noteq> 0)"
  "element.lens 3 Element_IsActive (\<lambda>x d. d\<lparr>Element_IsActive := x\<rparr>) (\<lambda>x. x)"
  "element.lens 4 Element_ExpirationTime (\<lambda>x d. d\<lparr>Element_ExpirationTime := x\<rparr>) (\<lambda>x. x \<noteq> 0)"
  unfolding element.lens_def Element_len ball_lt by (simp_all add: AuxElement_truth_def AuxElement_same_def)

lemmas Element_setters = Element_SetSourceEntity_def Element_SetSourceObject_def Element_SetMagnitude_def Element_SetIsActive_def Element_SetExpirationTime_def
  AuxElement_SetData_def AuxElement_Clear_def

datatype Element_op = Element_op_SourceEntity bytes
  | Element_op_SourceObject bytes
  | Element_op_Magnitude u32
  | Element_op_IsActive bool
  | Element_op_ExpirationTime u32
  | Element_op_SetData Element
  | Element_op_Clear

fun Element_do :: "Element_op \<Rightarrow> Element \<times> aux_path \<Rightarrow> Element \<times> aux_path" where
  "Element_do (Element_op_SourceEntity v) = Element_SetSourceEntity v"
| "Element_do (Element_op_SourceObject v) = Element_SetSourceObject v"
| "Element_do (Element_op_Magnitude v) = Element_SetMagnitude v"
| "Element_do (Element_op_IsActive v) = Element_SetIsActive v"
| "Element_do (Element_op_ExpirationTime v) = Element_SetExpirationTime v"
| "Element_do (Element_op_SetData v) = AuxElement_SetData v"
| "Element_do Element_op_Clear = AuxElement_Clear"

lemma Element_do_in_sync: "element.in_sync m x \<Longrightarrow> element.in_sync m (Element_do op x)"
  by (cases op; simp only: Element_do.simps Element_setters;
      (rule element.check_data_in_sync element.rep_in_sync element.rep_str_in_sync Element_lenses | assumption | simp)+)

lemma Element_do_ok: "Element_ok (fst x) \<Longrightarrow> Element_ok (fst (Element_do op x))"
  by (cases op; simp only: Element_do.simps Element_setters check_data_fst;
      (rule rep_ok [where P = Element_ok] rep_str_ok [where P = Element_ok] | assumption | simp add: Element_ok_def)+)

lemma Element_fits: "Element_ok d \<Longrightarrow> 2 + (\<Sum>f\<leftarrow>AuxElement_wire d. length (wire_bytes f)) \<le> 141"
  by (simp add: AuxElement_wire_def Element_ok_def)

interpretation element_ops: aux_ops AuxElement_wire AuxElement_layout AuxElement_truth AuxElement_same
  ClearElement Element_ok 2 2 Element_do AuxElement_BuildPacket 141
  by unfold_locales
    ((erule Element_do_in_sync | erule Element_do_ok | drule Element_fits, simp | simp add: AuxElement_BuildPacket_def)+)

lemma AuxElement_Init_in_sync: "element.in_sync ClearElement (AuxElement_Init i Parent)"
  unfolding element.in_sync_def Element_len ball_lt
  by (simp add: AuxElement_Init_def Construct_bits aux_wf_def AuxElement_truth_def AuxElement_same_def ClearElement_def
      CheckExtendedFlagBit1_def CheckExtendedFlagBit2_def CheckAuxBit_def)

lemma Element_Init_ok: "Element_ok (fst (AuxElement_Init MemberIndex Parent))"
  by (simp add: AuxElement_Init_def ClearElement_def Element_ok_def)

lemma AuxElement_delta_sync:
  "\<exists>x m. aux_rounds Element_do AuxElement_BuildPacket AuxElement_layout 2 141 batches
        (AuxElement_Init MemberIndex Parent) ClearElement = Some (x, m) \<and>
     (\<forall>i < 5. AuxElement_same i (fst x) m)"
proof -
  have "\<forall>i < 5. AuxElement_same i (fst (AuxElement_Init MemberIndex Parent)) ClearElement"
    unfolding ball_lt by (simp add: AuxElement_Init_def AuxElement_same_def)
  then show ?thesis
    using element_ops.rounds_sync [OF AuxElement_Init_in_sync Element_Init_ok] by (simp add: Element_len)
qed

lemma AuxElement_snapshot:
  "\<exists>buf n m. AuxElement_BuildExtendedPacket (fold Element_do ops (AuxElement_Init MemberIndex Parent)) (replicate 141 0, 0) =
       Some (buf, n) \<and>
     read_object 2 AuxElement_layout (take n buf) ClearElement = Some (m, []) \<and>
     (\<forall>i < 5. AuxElement_same i (fst (fold Element_do ops (AuxElement_Init MemberIndex Parent))) m)"
  using element_ops.snapshot_sync [OF AuxElement_Init_in_sync Element_Init_ok]
  by (simp add: AuxElement_BuildExtendedPacket_def Element_len)

section \<open>Faction\<close>

record Faction =
  Faction_Name :: bytes
  Faction_Reaction :: f32
  Faction_Order :: u32

definition ClearFaction :: Faction where
  "ClearFaction = \<lparr>Faction_Name = [],
     Faction_Reaction = 0,
     Faction_Order = 0\<rparr>"

definition AuxFaction_Init :: "nat \<Rightarrow> aux_path \<Rightarrow> Faction \<times> aux_path" where
  "AuxFaction_Init MemberIndex Parent =
     (ClearFaction, Construct [0] [0x86, 0x03] 3 MemberIndex (Some [0x70, 0x00]) # Parent)"

definition AuxFaction_wire :: "Faction \<Rightarrow> wire_field list" where
  "AuxFaction_wire d =
     [Str (Faction_Name d),
      Raw (le_bytes 4 (Faction_Reaction d)),
      Raw (le_bytes 4 (Faction_Order d))]"

definition AuxFaction_BuildPacket ::
    "Faction \<times> aux_path \<Rightarrow> packet_state \<Rightarrow> (packet_state \<times> Faction \<times> aux_path) option" where
  "AuxFaction_BuildPacket x st =
     map_option (\<lambda>(st', path). (st', (fst x, path))) (build_packet (AuxFaction_wire (fst x)) (snd x) st)"

definition AuxFaction_BuildExtendedPacket :: "Faction \<times> aux_path \<Rightarrow> packet_state \<Rightarrow> packet_state option" where
  "AuxFaction_BuildExtendedPacket x st = build_extended_packet (AuxFaction_wire (fst x)) (snd x) st"

definition Faction_SetName :: "bytes \<Rightarrow> Faction \<times> aux_path \<Rightarrow> Faction \<times> aux_path" where
  "Faction_SetName v x = check_data (rep_str Faction_Name (\<lambda>x d. d\<lparr>Faction_Name := x\<rparr>) 0 64 v x)"

definition Faction_SetReaction :: "f32 \<Rightarrow> Faction \<times> aux_path \<Rightarrow> Faction \<times> aux_path" where
  "Faction_SetReaction v x = check_data (rep_float Faction_Reaction (\<lambda>x d. d\<lparr>Faction_Reaction := x\<rparr>) 1 v x)"

definition Faction_SetOrder :: "u32 \<Rightarrow> Faction \<times> aux_path \<Rightarrow> Faction \<times> aux_path" where
  "Faction_SetOrder v x = check_data (rep_word Faction_Order (\<lambda>x d. d\<lparr>Faction_Order := x\<rparr>) 2 v x)"

definition AuxFaction_SetData :: "Faction \<Rightarrow> Faction \<times> aux_path \<Rightarrow> Faction \<times> aux_path" where
  "AuxFaction_SetData d x =
     check_data
      (rep_word Faction_Order (\<lambda>x d. d\<lparr>Faction_Order := x\<rparr>) 2 (Faction_Order d)
       (rep_float Faction_Reaction (\<lambda>x d. d\<lparr>Faction_Reaction := x\<rparr>) 1 (Faction_Reaction d)
       (rep_str Faction_Name (\<lambda>x d. d\<lparr>Faction_Name := x\<rparr>) 0 64 (Faction_Name d) x)))"

definition AuxFaction_ClearFlags :: "Faction \<times> aux_path \<Rightarrow> Faction \<times> aux_path" where
  "AuxFaction_ClearFlags x = (fst x, (case snd x of [] \<Rightarrow> [] | a # up \<Rightarrow> clear_flags a # up))"

definition AuxFaction_layout :: "Faction layout" where
  "AuxFaction_layout =
     [(StrK, \<lambda>b d. d\<lparr>Faction_Name := b\<rparr>),
      (RawK 4, \<lambda>b d. d\<lparr>Faction_Reaction := le_word b\<rparr>),
      (RawK 4, \<lambda>b d. d\<lparr>Faction_Order := le_word b\<rparr>)]"

definition AuxFaction_truth :: "nat \<Rightarrow> Faction \<Rightarrow> bool" where
  "AuxFaction_truth i d =
     ([Faction_Name d \<noteq> [],
       \<not> f_zero (Faction_Reaction d),
       Faction_Order d \<noteq> 0] ! i)"

definition AuxFaction_same :: "nat \<Rightarrow> Faction \<Rightarrow> Faction \<Rightarrow> bool" where
  "AuxFaction_same i d m =
     ([Faction_Name d = Faction_Name m,
       f_same (Faction_Reaction d) (Faction_Reaction m),
       Faction_Order d = Faction_Order m] ! i)"

definition Faction_ok :: "Faction \<Rightarrow> bool" where
  "Faction_ok d \<longleftrightarrow> length (Faction_Name d) \<le> 63"

lemma Faction_len: "length AuxFaction_layout = 3"
  by (simp add: AuxFaction_layout_def)

interpretation faction: aux_class AuxFaction_wire AuxFaction_layout AuxFaction_truth AuxFaction_same
  ClearFaction Faction_ok 1 2
  unfolding aux_class_def Faction_len ball_lt
  by (auto simp: AuxFaction_wire_def AuxFaction_layout_def AuxFaction_same_def AuxFaction_truth_def ClearFaction_def
      Faction_ok_def le_words)

lemma Faction_lenses:
  "faction.lens 0 Faction_Name (\<lambda>x d. d\<lparr>Faction_Name := x\<rparr>) (\<lambda>x. x \<noteq> [])"
  "faction.lens 1 Faction_Reaction (\<lambda>x d. d\<lparr>Faction_Reaction := x\<rparr>) (\<lambda>x. \<not> f_zero x)"
  "faction.lens 2 Faction_Order (\<lambda>x d. d\<lparr>Faction_Order := x\<rparr>) (\<lambda>x. x \<noteq> 0)"
  unfolding faction.lens_def Faction_len ball_lt by (simp_all add: AuxFaction_truth_def AuxFaction_same_def)

lemmas Faction_setters = Faction_SetName_def Faction_SetReaction_def Faction_SetOrder_def
  AuxFaction_SetData_def

datatype Faction_op = Faction_op_Name bytes
  | Faction_op_Reaction f32
  | Faction_op_Order u32
  | Faction_op_SetData Faction

fun Faction_do :: "Faction_op \<Rightarrow> Faction \<times> aux_path \<Rightarrow> Faction \<times> aux_path" where
  "Faction_do (Faction_op_Name v) = Faction_SetName v"
| "Faction_do (Faction_op_Reaction v) = Faction_SetReaction v"
| "Faction_do (Faction_op_Order v) = Faction_SetOrder v"
| "Faction_do (Faction_op_SetData v) = AuxFaction_SetData v"

lemma Faction_do_in_sync: "faction.in_sync m x \<Longrightarrow> faction.in_sync m (Faction_do op x)"
  by (cases op; simp only: Faction_do.simps Faction_setters;
      (rule faction.check_data_in_sync faction.rep_in_sync faction.rep_str_in_sync Faction_lenses | assumption | simp)+)

lemma Faction_do_ok: "Faction_ok (fst x) \<Longrightarrow> Faction_ok (fst (Faction_do op x))"
  by (cases op; simp only: Faction_do.simps Faction_setters check_data_fst;
      (rule rep_ok [where P = Faction_ok] rep_str_ok [where P = Faction_ok] | assumption | simp add: Faction_ok_def)+)

lemma Faction_fits: "Faction_ok d \<Longrightarrow> 2 + (\<Sum>f\<leftarrow>AuxFaction_wire d. length (wire_bytes f)) \<le> 75"
  by (simp add: AuxFaction_wire_def Faction_ok_def)

interpretation faction_ops: aux_ops AuxFaction_wire AuxFaction_layout AuxFaction_truth AuxFaction_same
  ClearFaction Faction_ok 1 2 Faction_do AuxFaction_BuildPacket 75
  by unfold_locales
    ((erule Faction_do_in_sync | erule Faction_do_ok | drule Faction_fits, simp | simp add: AuxFaction_BuildPacket_def)+)

lemma AuxFaction_Init_in_sync: "faction.in_sync ClearFaction (AuxFaction_Init i Parent)"
  unfolding faction.in_sync_def Faction_len ball_lt
  by (simp add: AuxFaction_Init_def Construct_bits aux_wf_def AuxFaction_truth_def AuxFaction_same_def ClearFaction_def
      CheckExtendedFlagBit1_def CheckExtendedFlagBit2_def CheckAuxBit_def)

lemma Faction_Init_ok: "Faction_ok (fst (AuxFaction_Init MemberIndex Parent))"
  by (simp add: AuxFaction_Init_def ClearFaction_def Faction_ok_def)

lemma AuxFaction_delta_sync:
  "\<exists>x m. aux_rounds Faction_do AuxFaction_BuildPacket AuxFaction_layout 1 75 batches
        (AuxFaction_Init MemberIndex Parent) ClearFaction = Some (x, m) \<and>
     (\<forall>i < 3. AuxFaction_same i (fst x) m)"
proof -
  have "\<forall>i < 3. AuxFaction_same i (fst (AuxFaction_Init MemberIndex Parent)) ClearFaction"
    unfolding ball_lt by (simp add: AuxFaction_Init_def AuxFaction_same_def)
  then show ?thesis
    using faction_ops.rounds_sync [OF AuxFaction_Init_in_sync Faction_Init_ok] by (simp add: Faction_len)
qed

lemma AuxFaction_snapshot:
  "\<exists>buf n m. AuxFaction_BuildExtendedPacket (fold Faction_do ops (AuxFaction_Init MemberIndex Parent)) (replicate 75 0, 0) =
       Some (buf, n) \<and>
     read_object 2 AuxFaction_layout (take n buf) ClearFaction = Some (m, []) \<and>
     (\<forall>i < 3. AuxFaction_same i (fst (fold Faction_do ops (AuxFaction_Init MemberIndex Parent))) m)"
  using faction_ops.snapshot_sync [OF AuxFaction_Init_in_sync Faction_Init_ok]
  by (simp add: AuxFaction_BuildExtendedPacket_def Faction_len)

section \<open>Percent\<close>

record Percent =
  Percent_EndTime :: u32
  Percent_ChangePerTick :: f32
  Percent_StartValue :: f32

definition ClearPercent :: Percent where
  "ClearPercent = \<lparr>Percent_EndTime = 0,
     Percent_ChangePerTick = 0,
     Percent_StartValue = 0\<rparr>"

definition AuxPercent_Init :: "nat \<Rightarrow> aux_path \<Rightarrow> Percent \<times> aux_path" where
  "AuxPercent_Init MemberIndex Parent =
     (ClearPercent, Construct [0] [0x86, 0x03] 3 MemberIndex None # Parent)"

definition AuxPercent_wire :: "Percent \<Rightarrow> wire_field list" where
  "AuxPercent_wire d =
     [Raw (le_bytes 4 (Percent_EndTime d)),
      Raw (le_bytes 4 (Percent_ChangePerTick d)),
      Raw (le_bytes 4 (Percent_StartValue d))]"

definition AuxPercent_BuildPacket ::
    "Percent \<times> aux_path \<Rightarrow> packet_state \<Rightarrow> (packet_state \<times> Percent \<times> aux_path) option" where
  "AuxPercent_BuildPacket x st =
     map_option (\<lambda>(st', path). (st', (fst x, path))) (build_packet (AuxPercent_wire (fst x)) (snd x) st)"

definition AuxPercent_BuildExtendedPacket :: "Percent \<times> aux_path \<Rightarrow> packet_state \<Rightarrow> packet_state option" where
  "AuxPercent_BuildExtendedPacket x st = build_extended_packet (AuxPercent_wire (fst x)) (snd x) st"

definition AuxPercent_BuildSpecialPacket :: "Percent \<times> aux_path \<Rightarrow> packet_state \<Rightarrow> packet_state option" where
  "AuxPercent_BuildSpecialPacket x st =
     (case snd x of [] \<Rightarrow> None | a # up \<Rightarrow> add_object a (m_Flags a) (AuxPercent_wire (fst x)) st)"

definition Percent_SetEndTime :: "u32 \<Rightarrow> Percent \<times> aux_path \<Rightarrow> Percent \<times> aux_path" where
  "Percent_SetEndTime v x = rep_word Percent_EndTime (\<lambda>x d. d\<lparr>Percent_EndTime := x\<rparr>) 0 v x"

definition Percent_SetChangePerTick :: "f32 \<Rightarrow> Percent \<times> aux_path \<Rightarrow> Percent \<times> aux_path" where
  "Percent_SetChangePerTick v x = rep_float Percent_ChangePerTick (\<lambda>x d. d\<lparr>Percent_ChangePerTick := x\<rparr>) 1 v x"

definition Percent_SetStartValue :: "f32 \<Rightarrow> Percent \<times> aux_path \<Rightarrow> Percent \<times> aux_path" where
  "Percent_SetStartValue v x = rep_float Percent_StartValue (\<lambda>x d. d\<lparr>Percent_StartValue := x\<rparr>) 2 v x"

definition AuxPercent_SetData :: "Percent \<Rightarrow> Percent \<times> aux_path \<Rightarrow> Percent \<times> aux_path" where
  "AuxPercent_SetData d x =
     rep_float Percent_StartValue (\<lambda>x d. d\<lparr>Percent_StartValue := x\<rparr>) 2 (Percent_StartValue d)
       (rep_float Percent_ChangePerTick (\<lambda>x d. d\<lparr>Percent_ChangePerTick := x\<rparr>) 1 (Percent_ChangePerTick d)
       (rep_word Percent_EndTime (\<lambda>x d. d\<lparr>Percent_EndTime := x\<rparr>) 0 (Percent_EndTime d) x))"

definition AuxPercent_ClearFlags :: "Percent \<times> aux_path \<Rightarrow> Percent \<times> aux_path" where
  "AuxPercent_ClearFlags x = (fst x, (case snd x of [] \<Rightarrow> [] | a # up \<Rightarrow> clear_flags a # up))"

definition AuxPercent_layout :: "Percent layout" where
  "AuxPercent_layout =
     [(RawK 4, \<lambda>b d. d\<lparr>Percent_EndTime := le_word b\<rparr>),
      (RawK 4, \<lambda>b d. d\<lparr>Percent_ChangePerTick := le_word b\<rparr>),
      (RawK 4, \<lambda>b d. d\<lparr>Percent_StartValue := le_word b\<rparr>)]"

definition AuxPercent_truth :: "nat \<Rightarrow> Percent \<Rightarrow> bool" where
  "AuxPercent_truth i d =
     ([Percent_EndTime d \<noteq> 0,
       \<not> f_zero (Percent_ChangePerTick d),
       \<not> f_zero (Percent_StartValue d)] ! i)"

definition AuxPercent_same :: "nat \<Rightarrow> Percent \<Rightarrow> Percent \<Rightarrow> bool" where
  "AuxPercent_same i d m =
     ([Percent_EndTime d = Percent_EndTime m,
       f_same (Percent_ChangePerTick d) (Percent_ChangePerTick m),
       f_same (Percent_StartValue d) (Percent_StartValue m)] ! i)"

definition Percent_ok :: "Percent \<Rightarrow> bool" where
  "Percent_ok d \<longleftrightarrow> True"

lemma Percent_len: "length AuxPercent_layout = 3"
  by (simp add: AuxPercent_layout_def)

interpretation percent: aux_class AuxPercent_wire AuxPercent_layout AuxPercent_truth AuxPercent_same
  ClearPercent Percent_ok 1 2
  unfolding aux_class_def Percent_len ball_lt
  by (auto simp: AuxPercent_wire_def AuxPercent_layout_def AuxPercent_same_def AuxPercent_truth_def ClearPercent_def
      Percent_ok_def le_words)

lemma Percent_lenses:
  "percent.lens 0 Percent_EndTime (\<lambda>x d. d\<lparr>Percent_EndTime := x\<rparr>) (\<lambda>x. x \<noteq> 0)"
  "percent.lens 1 Percent_ChangePerTick (\<lambda>x d. d\<lparr>Percent_ChangePerTick := x\<rparr>) (\<lambda>x. \<not> f_zero x)"
  "percent.lens 2 Percent_StartValue (\<lambda>x d. d\<lparr>Percent_StartValue := x\<rparr>) (\<lambda>x. \<not> f_zero x)"
  unfolding percent.lens_def Percent_len ball_lt by (simp_all add: AuxPercent_truth_def AuxPercent_same_def)

lemmas Percent_setters = Percent_SetEndTime_def Percent_SetChangePerTick_def Percent_SetStartValue_def
  AuxPercent_SetData_def

datatype Percent_op = Percent_op_EndTime u32
  | Percent_op_ChangePerTick f32
  | Percent_op_StartValue f32
  | Percent_op_SetData Percent

fun Percent_do :: "Percent_op \<Rightarrow> Percent \<times> aux_path \<Rightarrow> Percent \<times> aux_path" where
  "Percent_do (Percent_op_EndTime v) = Percent_SetEndTime v"
| "Percent_do (Percent_op_ChangePerTick v) = Percent_SetChangePerTick v"
| "Percent_do (Percent_op_StartValue v) = Percent_SetStartValue v"
| "Percent_do (Percent_op_SetData v) = AuxPercent_SetData v"

lemma Percent_do_in_sync: "percent.in_sync m x \<Longrightarrow> percent.in_sync m (Percent_do op x)"
  by (cases op; simp only: Percent_do.simps Percent_setters;
      (rule percent.rep_in_sync Percent_lenses | assumption | simp)+)

lemma Percent_do_ok: "Percent_ok (fst x) \<Longrightarrow> Percent_ok (fst (Percent_do op x))"
  by (simp add: Percent_ok_def)

lemma Percent_fits: "Percent_ok d \<Longrightarrow> 2 + (\<Sum>f\<leftarrow>AuxPercent_wire d. length (wire_bytes f)) \<le> 14"
  by (simp add: AuxPercent_wire_def Percent_ok_def)

interpretation percent_ops: aux_ops AuxPercent_wire AuxPercent_layout AuxPercent_truth AuxPercent_same
  ClearPercent Percent_ok 1 2 Percent_do AuxPercent_BuildPacket 14
  by unfold_locales
    ((erule Percent_do_in_sync | erule Percent_do_ok | drule Percent_fits, simp | simp add: AuxPercent_BuildPacket_def)+)

lemma AuxPercent_Init_in_sync: "percent.in_sync ClearPercent (AuxPercent_Init i Parent)"
  unfolding percent.in_sync_def Percent_len ball_lt
  by (simp add: AuxPercent_Init_def Construct_bits aux_wf_def AuxPercent_truth_def AuxPercent_same_def ClearPercent_def
      CheckExtendedFlagBit1_def CheckExtendedFlagBit2_def CheckAuxBit_def)

lemma Percent_Init_ok: "Percent_ok (fst (AuxPercent_Init MemberIndex Parent))"
  by (simp add: AuxPercent_Init_def ClearPercent_def Percent_ok_def)

lemma AuxPercent_delta_sync:
  "\<exists>x m. aux_rounds Percent_do AuxPercent_BuildPacket AuxPercent_layout 1 14 batches
        (AuxPercent_Init MemberIndex Parent) ClearPercent = Some (x, m) \<and>
     (\<forall>i < 3. AuxPercent_same i (fst x) m)"
proof -
  have "\<forall>i < 3. AuxPercent_same i (fst (AuxPercent_Init MemberIndex Parent)) ClearPercent"
    unfolding ball_lt by (simp add: AuxPercent_Init_def AuxPercent_same_def)
  then show ?thesis
    using percent_ops.rounds_sync [OF AuxPercent_Init_in_sync Percent_Init_ok] by (simp add: Percent_len)
qed

lemma AuxPercent_snapshot:
  "\<exists>buf n m. AuxPercent_BuildExtendedPacket (fold Percent_do ops (AuxPercent_Init MemberIndex Parent)) (replicate 14 0, 0) =
       Some (buf, n) \<and>
     read_object 2 AuxPercent_layout (take n buf) ClearPercent = Some (m, []) \<and>
     (\<forall>i < 3. AuxPercent_same i (fst (fold Percent_do ops (AuxPercent_Init MemberIndex Parent))) m)"
  using percent_ops.snapshot_sync [OF AuxPercent_Init_in_sync Percent_Init_ok]
  by (simp add: AuxPercent_BuildExtendedPacket_def Percent_len)

section \<open>Attachment\<close>

record Attachment =
  Attachment_BoneName :: bytes
  Attachment_Type :: u32
  Attachment_Asset :: u32
  Attachment_DataStr :: bytes

definition ClearAttachment :: Attachment where
  "ClearAttachment = \<lparr>Attachment_BoneName = [],
     Attachment_Type = 0,
     Attachment_Asset = 0,
     Attachment_DataStr = []\<rparr>"

definition AuxAttachment_Init :: "nat \<Rightarrow> aux_path \<Rightarrow> Attachment \<times> aux_path" where
  "AuxAttachment_Init MemberIndex Parent =
     (ClearAttachment, Construct [0] [0x06, 0x0F] 4 MemberIndex (Some [0xF0, 0x00]) # Parent)"

definition AuxAttachment_wire :: "Attachment \<Rightarrow> wire_field list" where
  "AuxAttachment_wire d =
     [Str (Attachment_BoneName d),
      Raw (le_bytes 4 (Attachment_Type d)),
      Raw (le_bytes 4 (Attachment_Asset d)),
      Str (Attachment_DataStr d)]"

definition AuxAttachment_BuildPacket ::
    "Attachment \<times> aux_path \<Rightarrow> packet_state \<Rightarrow> (packet_state \<times> Attachment \<times> aux_path) option" where
  "AuxAttachment_BuildPacket x st =
     map_option (\<lambda>(st', path). (st', (fst x, path))) (build_packet (AuxAttachment_wire (fst x)) (snd x) st)"

definition AuxAttachment_BuildExtendedPacket :: "Attachment \<times> aux_path \<Rightarrow> packet_state \<Rightarrow> packet_state option" where
  "AuxAttachment_BuildExtendedPacket x st = build_extended_packet (AuxAttachment_wire (fst x)) (snd x) st"

definition AuxAttachment_BuildSpecialPacket :: "Attachment \<times> aux_path \<Rightarrow> packet_state \<Rightarrow> packet_state option" where
  "AuxAttachment_BuildSpecialPacket x st =
     (case snd x of [] \<Rightarrow> None | a # up \<Rightarrow> add_object a (m_Flags a) (AuxAttachment_wire (fst x)) st)"

definition Attachment_SetBoneName :: "bytes \<Rightarrow> Attachment \<times> aux_path \<Rightarrow> Attachment \<times> aux_path" where
  "Attachment_SetBoneName v x = check_data (rep_str Attachment_BoneName (\<lambda>x d. d\<lparr>Attachment_BoneName := x\<rparr>) 0 64 v x)"

definition Attachment_SetType :: "u32 \<Rightarrow> Attachment \<times> aux_path \<Rightarrow> Attachment \<times> aux_path" where
  "Attachment_SetType v x = check_data (rep_word Attachment_Type (\<lambda>x d. d\<lparr>Attachment_Type := x\<rparr>) 1 v x)"

definition Attachment_SetAsset :: "u32 \<Rightarrow> Attachment \<times> aux_path \<Rightarrow> Attachment \<times> aux_path" where
  "Attachment_SetAsset v x = check_data (rep_word Attachment_Asset (\<lambda>x d. d\<lparr>Attachment_Asset := x\<rparr>) 2 v x)"

definition Attachment_SetDataStr :: "bytes \<Rightarrow> Attachment \<times> aux_path \<Rightarrow> Attachment \<times> aux_path" where
  "Attachment_SetDataStr v x = check_data (rep_str Attachment_DataStr (\<lambda>x d. d\<lparr>Attachment_DataStr := x\<rparr>) 3 64 v x)"

definition AuxAttachment_SetData :: "Attachment \<Rightarrow> Attachment \<times> aux_path \<Rightarrow> Attachment \<times> aux_path" where
  "AuxAttachment_SetData d x =
     check_data
      (rep_str Attachment_DataStr (\<lambda>x d. d\<lparr>Attachment_DataStr := x\<rparr>) 3 64 (Attachment_DataStr d)
       (rep_word Attachment_Asset (\<lambda>x d. d\<lparr>Attachment_Asset := x\<rparr>) 2 (Attachment_Asset d)
       (rep_word Attachment_Type (\<lambda>x d. d\<lparr>Attachment_Type := x\<rparr>) 1 (Attachment_Type d)
       (rep_str Attachment_BoneName (\<lambda>x d. d\<lparr>Attachment_BoneName := x\<rparr>) 0 64 (Attachment_BoneName d) x))))"

definition AuxAttachment_Clear :: "Attachment \<times> aux_path \<Rightarrow> Attachment \<times> aux_path" where
  "AuxAttachment_Clear x = AuxAttachment_SetData ClearAttachment x"

definition AuxAttachment_ClearFlags :: "Attachment \<times> aux_path \<Rightarrow> Attachment \<times> aux_path" where
  "AuxAttachment_ClearFlags x = (fst x, (case snd x of [] \<Rightarrow> [] | a # up \<Rightarrow> clear_flags a # up))"

definition AuxAttachment_layout :: "Attachment layout" where
  "AuxAttachment_layout =
     [(StrK, \<lambda>b d. d\<lparr>Attachment_BoneName := b\<rparr>),
      (RawK 4, \<lambda>b d. d\<lparr>Attachment_Type := le_word b\<rparr>),
      (RawK 4, \<lambda>b d. d\<lparr>Attachment_Asset := le_word b\<rparr>),
      (StrK, \<lambda>b d. d\<lparr>Attachment_DataStr := b\<rparr>)]"

definition AuxAttachment_truth :: "nat \<Rightarrow> Attachment \<Rightarrow> bool" where
  "AuxAttachment_truth i d =
     ([Attachment_BoneName d \<noteq> [],
       Attachment_Type d \<noteq> 0,
       Attachment_Asset d \<noteq> 0,
       Attachment_DataStr d \<noteq> []] ! i)"

definition AuxAttachment_same :: "nat \<Rightarrow> Attachment \<Rightarrow> Attachment \<Rightarrow> bool" where
  "AuxAttachment_same i d m =
     ([Attachment_BoneName d = Attachment_BoneName m,
       Attachment_Type d = Attachment_Type m,
       Attachment_Asset d = Attachment_Asset m,
       Attachment_DataStr d = Attachment_DataStr m] ! i)"

definition Attachment_ok :: "Attachment \<Rightarrow> bool" where
  "Attachment_ok d \<longleftrightarrow> length (Attachment_BoneName d) \<le> 63 \<and> length (Attachment_DataStr d) \<le> 63"

lemma Attachment_len: "length AuxAttachment_layout = 4"
  by (simp add: AuxAttachment_layout_def)

interpretation attachment: aux_class AuxAttachment_wire AuxAttachment_layout AuxAttachment_truth AuxAttachment_same
  ClearAttachment Attachment_ok 1 2
  unfolding aux_class_def Attachment_len ball_lt
  by (auto simp: AuxAttachment_wire_def AuxAttachment_layout_def AuxAttachment_same_def AuxAttachment_truth_def ClearAttachment_def
      Attachment_ok_def le_words)

lemma Attachment_lenses:
  "attachment.lens 0 Attachment_BoneName (\<lambda>x d. d\<lparr>Attachment_BoneName := x\<rparr>) (\<lambda>x. x \<noteq> [])"
  "attachment.lens 1 Attachment_Type (\<lambda>x d. d\<lparr>Attachment_Type := x\<rparr>) (\<lambda>x. x \<noteq> 0)"
  "attachment.lens 2 Attachment_Asset (\<lambda>x d. d\<lparr>Attachment_Asset := x\<rparr>) (\<lambda>x. x \<noteq> 0)"
  "attachment.lens 3 Attachment_DataStr (\<lambda>x d. d\<lparr>Attachment_DataStr := x\<rparr>) (\<lambda>x. x \<noteq> [])"
  unfolding attachment.lens_def Attachment_len ball_lt by (simp_all add: AuxAttachment_truth_def AuxAttachment_same_def)

lemmas Attachment_setters = Attachment_SetBoneName_def Attachment_SetType_def Attachment_SetAsset_def Attachment_SetDataStr_def
  AuxAttachment_SetData_def AuxAttachment_Clear_def

datatype Attachment_op = Attachment_op_BoneName bytes
  | Attachment_op_Type u32
  | Attachment_op_Asset u32
  | Attachment_op_DataStr bytes
  | Attachment_op_SetData Attachment
  | Attachment_op_Clear

fun Attachment_do :: "Attachment_op \<Rightarrow> Attachment \<times> aux_path \<Rightarrow> Attachment \<times> aux_path" where
  "Attachment_do (Attachment_op_BoneName v) = Attachment_SetBoneName v"
| "Attachment_do (Attachment_op_Type v) = Attachment_SetType v"
| "Attachment_do (Attachment_op_Asset v) = Attachment_SetAsset v"
| "Attachment_do (Attachment_op_DataStr v) = Attachment_SetDataStr v"
| "Attachment_do (Attachment_op_SetData v) = AuxAttachment_SetData v"
| "Attachment_do Attachment_op_Clear = AuxAttachment_Clear"

lemma Attachment_do_in_sync: "attachment.in_sync m x \<Longrightarrow> attachment.in_sync m (Attachment_do op x)"
  by (cases op; simp only: Attachment_do.simps Attachment_setters;
      (rule attachment.check_data_in_sync attachment.rep_in_sync attachment.rep_str_in_sync Attachment_lenses | assumption | simp)+)

lemma Attachment_do_ok: "Attachment_ok (fst x) \<Longrightarrow> Attachment_ok (fst (Attachment_do op x))"
  by (cases op; simp only: Attachment_do.simps Attachment_setters check_data_fst;
      (rule rep_ok [where P = Attachment_ok] rep_str_ok [where P = Attachment_ok] | assumption | simp add: Attachment_ok_def)+)

lemma Attachment_fits: "Attachment_ok d \<Longrightarrow> 2 + (\<Sum>f\<leftarrow>AuxAttachment_wire d. length (wire_bytes f)) \<le> 140"
  by (simp add: AuxAttachment_wire_def Attachment_ok_def)

interpretation attachment_ops: aux_ops AuxAttachment_wire AuxAttachment_layout AuxAttachment_truth AuxAttachment_same
  ClearAttachment Attachment_ok 1 2 Attachment_do AuxAttachment_BuildPacket 140
  by unfold_locales
    ((erule Attachment_do_in_sync | erule Attachment_do_ok | drule Attachment_fits, simp | simp add: AuxAttachment_BuildPacket_def)+)

lemma AuxAttachment_Init_in_sync: "attachment.in_sync ClearAttachment (AuxAttachment_Init i Parent)"
  unfolding attachment.in_sync_def Attachment_len ball_lt
  by (simp add: AuxAttachment_Init_def Construct_bits aux_wf_def AuxAttachment_truth_def AuxAttachment_same_def ClearAttachment_def
      CheckExtendedFlagBit1_def CheckExtendedFlagBit2_def CheckAuxBit_def)

lemma Attachment_Init_ok: "Attachment_ok (fst (AuxAttachment_Init MemberIndex Parent))"
  by (simp add: AuxAttachment_Init_def ClearAttachment_def Attachment_ok_def)

lemma AuxAttachment_delta_sync:
  "\<exists>x m. aux_rounds Attachment_do AuxAttachment_BuildPacket AuxAttachment_layout 1 140 batches
        (AuxAttachment_Init MemberIndex Parent) ClearAttachment = Some (x, m) \<and>
     (\<forall>i < 4. AuxAttachment_same i (fst x) m)"
proof -
  have "\<forall>i < 4. AuxAttachment_same i (fst (AuxAttachment_Init MemberIndex Parent)) ClearAttachment"
    unfolding ball_lt by (simp add: AuxAttachment_Init_def AuxAttachment_same_def)
  then show ?thesis
    using attachment_ops.rounds_sync [OF AuxAttachment_Init_in_sync Attachment_Init_ok] by (simp add: Attachment_len)
qed

lemma AuxAttachment_snapshot:
  "\<exists>buf n m. AuxAttachment_BuildExtendedPacket (fold Attachment_do ops (AuxAttachment_Init MemberIndex Parent)) (replicate 140 0, 0) =
       Some (buf, n) \<and>
     read_object 2 AuxAttachment_layout (take n buf) ClearAttachment = Some (m, []) \<and>
     (\<forall>i < 4. AuxAttachment_same i (fst (fold Attachment_do ops (AuxAttachment_Init MemberIndex Parent))) m)"
  using attachment_ops.snapshot_sync [OF AuxAttachment_Init_in_sync Attachment_Init_ok]
  by (simp add: AuxAttachment_BuildExtendedPacket_def Attachment_len)

section \<open>Effect\<close>

record Effect =
  Effect_Range :: f32
  Effect_Usage :: u32
  Effect_Targets :: u32
  Effect_Validity :: u32

definition ClearEffect :: Effect where
  "ClearEffect = \<lparr>Effect_Range = 0,
     Effect_Usage = 0,
     Effect_Targets = 0,
     Effect_Validity = 0\<rparr>"

definition AuxEffect_Init :: "nat \<Rightarrow> aux_path \<Rightarrow> Effect \<times> aux_path" where
  "AuxEffect_Init MemberIndex Parent =
     (ClearEffect, Construct [0] [0x06, 0x0F] 4 MemberIndex (Some [0xF0, 0x00]) # Parent)"

definition AuxEffect_wire :: "Effect \<Rightarrow> wire_field list" where
  "AuxEffect_wire d =
     [Raw (le_bytes 4 (Effect_Range d)),
      Raw (le_bytes 4 (Effect_Usage d)),
      Raw (le_bytes 4 (Effect_Targets d)),
      Raw (le_bytes 4 (Effect_Validity d))]"

definition AuxEffect_BuildPacket ::
    "Effect \<times> aux_path \<Rightarrow> packet_state \<Rightarrow> (packet_state \<times> Effect \<times> aux_path) option" where
  "AuxEffect_BuildPacket x st =
     map_option (\<lambda>(st', path). (st', (fst x, path))) (build_packet (AuxEffect_wire (fst x)) (snd x) st)"

definition AuxEffect_BuildExtendedPacket :: "Effect \<times> aux_path \<Rightarrow> packet_state \<Rightarrow> packet_state option" where
  "AuxEffect_BuildExtendedPacket x st = build_extended_packet (AuxEffect_wire (fst x)) (snd x) st"

definition Effect_SetRange :: "f32 \<Rightarrow> Effect \<times> aux_path \<Rightarrow> Effect \<times> aux_path" where
  "Effect_SetRange v x = check_data (rep_float Effect_Range (\<lambda>x d. d\<lparr>Effect_Range := x\<rparr>) 0 v x)"

definition Effect_SetUsage :: "u32 \<Rightarrow> Effect \<times> aux_path \<Rightarrow> Effect \<times> aux_path" where
  "Effect_SetUsage v x = check_data (rep_word Effect_Usage (\<lambda>x d. d\<lparr>Effect_Usage := x\<rparr>) 1 v x)"

definition Effect_SetTargets :: "u32 \<Rightarrow> Effect \<times> aux_path \<Rightarrow> Effect \<times> aux_path" where
  "Effect_SetTargets v x = check_data (rep_word Effect_Targets (\<lambda>x d. d\<lparr>Effect_Targets := x\<rparr>) 2 v x)"

definition Effect_SetValidity :: "u32 \<Rightarrow> Effect \<times> aux_path \<Rightarrow> Effect \<times> aux_path" where
  "Effect_SetValidity v x = check_data (rep_word Effect_Validity (\<lambda>x d. d\<lparr>Effect_Validity := x\<rparr>) 3 v x)"

definition AuxEffect_SetData :: "Effect \<Rightarrow> Effect \<times> aux_path \<Rightarrow> Effect \<times> aux_path" where
  "AuxEffect_SetData d x =
     check_data
      (rep_word Effect_Validity (\<lambda>x d. d\<lparr>Effect_Validity := x\<rparr>) 3 (Effect_Validity d)
       (rep_word Effect_Targets (\<lambda>x d. d\<lparr>Effect_Targets := x\<rparr>) 2 (Effect_Targets d)
       (rep_word Effect_Usage (\<lambda>x d. d\<lparr>Effect_Usage := x\<rparr>) 1 (Effect_Usage d)
       (rep_float Effect_Range (\<lambda>x d. d\<lparr>Effect_Range := x\<rparr>) 0 (Effect_Range d) x))))"

definition AuxEffect_Clear :: "Effect \<times> aux_path \<Rightarrow> Effect \<times> aux_path" where
  "AuxEffect_Clear x = AuxEffect_SetData ClearEffect x"

definition AuxEffect_ClearFlags :: "Effect \<times> aux_path \<Rightarrow> Effect \<times> aux_path" where
  "AuxEffect_ClearFlags x = (fst x, (case snd x of [] \<Rightarrow> [] | a # up \<Rightarrow> clear_flags a # up))"

definition AuxEffect_layout :: "Effect layout" where
  "AuxEffect_layout =
     [(RawK 4, \<lambda>b d. d\<lparr>Effect_Range := le_word b\<rparr>),
      (RawK 4, \<lambda>b d. d\<lparr>Effect_Usage := le_word b\<rparr>),
      (RawK 4, \<lambda>b d. d\<lparr>Effect_Targets := le_word b\<rparr>),
      (RawK 4, \<lambda>b d. d\<lparr>Effect_Validity := le_word b\<rparr>)]"

definition AuxEffect_truth :: "nat \<Rightarrow> Effect \<Rightarrow> bool" where
  "AuxEffect_truth i d =
     ([\<not> f_zero (Effect_Range d),
       Effect_Usage d \<noteq> 0,
       Effect_Targets d \<noteq> 0,
       Effect_Validity d \<noteq> 0] ! i)"

definition AuxEffect_same :: "nat \<Rightarrow> Effect \<Rightarrow> Effect \<Rightarrow> bool" where
  "AuxEffect_same i d m =
     ([f_same (Effect_Range d) (Effect_Range m),
       Effect_Usage d = Effect_Usage m,
       Effect_Targets d = Effect_Targets m,
       Effect_Validity d = Effect_Validity m] ! i)"

definition Effect_ok :: "Effect \<Rightarrow> bool" where
  "Effect_ok d \<longleftrightarrow> True"

lemma Effect_len: "length AuxEffect_layout = 4"
  by (simp add: AuxEffect_layout_def)

interpretation effect: aux_class AuxEffect_wire AuxEffect_layout AuxEffect_truth AuxEffect_same
  ClearEffect Effect_ok 1 2
  unfolding aux_class_def Effect_len ball_lt
  by (auto simp: AuxEffect_wire_def AuxEffect_layout_def AuxEffect_same_def AuxEffect_truth_def ClearEffect_def
      Effect_ok_def le_words)

lemma Effect_lenses:
  "effect.lens 0 Effect_Range (\<lambda>x d. d\<lparr>Effect_Range := x\<rparr>) (\<lambda>x. \<not> f_zero x)"
  "effect.lens 1 Effect_Usage (\<lambda>x d. d\<lparr>Effect_Usage := x\<rparr>) (\<lambda>x. x \<noteq> 0)"
  "effect.lens 2 Effect_Targets (\<lambda>x d. d\<lparr>Effect_Targets := x\<rparr>) (\<lambda>x. x \<noteq> 0)"
  "effect.lens 3 Effect_Validity (\<lambda>x d. d\<lparr>Effect_Validity := x\<rparr>) (\<lambda>x. x \<noteq> 0)"
  unfolding effect.lens_def Effect_len ball_lt by (simp_all add: AuxEffect_truth_def AuxEffect_same_def)

lemmas Effect_setters = Effect_SetRange_def Effect_SetUsage_def Effect_SetTargets_def Effect_SetValidity_def
  AuxEffect_SetData_def AuxEffect_Clear_def

datatype Effect_op = Effect_op_Range f32
  | Effect_op_Usage u32
  | Effect_op_Targets u32
  | Effect_op_Validity u32
  | Effect_op_SetData Effect
  | Effect_op_Clear

fun Effect_do :: "Effect_op \<Rightarrow> Effect \<times> aux_path \<Rightarrow> Effect \<times> aux_path" where
  "Effect_do (Effect_op_Range v) = Effect_SetRange v"
| "Effect_do (Effect_op_Usage v) = Effect_SetUsage v"
| "Effect_do (Effect_op_Targets v) = Effect_SetTargets v"
| "Effect_do (Effect_op_Validity v) = Effect_SetValidity v"
| "Effect_do (Effect_op_SetData v) = AuxEffect_SetData v"
| "Effect_do Effect_op_Clear = AuxEffect_Clear"

lemma Effect_do_in_sync: "effect.in_sync m x \<Longrightarrow> effect.in_sync m (Effect_do op x)"
  by (cases op; simp only: Effect_do.simps Effect_setters;
      (rule effect.check_data_in_sync effect.rep_in_sync Effect_lenses | assumption | simp)+)

lemma Effect_do_ok: "Effect_ok (fst x) \<Longrightarrow> Effect_ok (fst (Effect_do op x))"
  by (simp add: Effect_ok_def)

lemma Effect_fits: "Effect_ok d \<Longrightarrow> 2 + (\<Sum>f\<leftarrow>AuxEffect_wire d. length (wire_bytes f)) \<le> 18"
  by (simp add: AuxEffect_wire_def Effect_ok_def)

interpretation effect_ops: aux_ops AuxEffect_wire AuxEffect_layout AuxEffect_truth AuxEffect_same
  ClearEffect Effect_ok 1 2 Effect_do AuxEffect_BuildPacket 18
  by unfold_locales
    ((erule Effect_do_in_sync | erule Effect_do_ok | drule Effect_fits, simp | simp add: AuxEffect_BuildPacket_def)+)

lemma AuxEffect_Init_in_sync: "effect.in_sync ClearEffect (AuxEffect_Init i Parent)"
  unfolding effect.in_sync_def Effect_len ball_lt
  by (simp add: AuxEffect_Init_def Construct_bits aux_wf_def AuxEffect_truth_def AuxEffect_same_def ClearEffect_def
      CheckExtendedFlagBit1_def CheckExtendedFlagBit2_def CheckAuxBit_def)

lemma Effect_Init_ok: "Effect_ok (fst (AuxEffect_Init MemberIndex Parent))"
  by (simp add: AuxEffect_Init_def ClearEffect_def Effect_ok_def)

lemma AuxEffect_delta_sync:
  "\<exists>x m. aux_rounds Effect_do AuxEffect_BuildPacket AuxEffect_layout 1 18 batches
        (AuxEffect_Init MemberIndex Parent) ClearEffect = Some (x, m) \<and>
     (\<forall>i < 4. AuxEffect_same i (fst x) m)"
proof -
  have "\<forall>i < 4. AuxEffect_same i (fst (AuxEffect_Init MemberIndex Parent)) ClearEffect"
    unfolding ball_lt by (simp add: AuxEffect_Init_def AuxEffect_same_def)
  then show ?thesis
    using effect_ops.rounds_sync [OF AuxEffect_Init_in_sync Effect_Init_ok] by (simp add: Effect_len)
qed

lemma AuxEffect_snapshot:
  "\<exists>buf n m. AuxEffect_BuildExtendedPacket (fold Effect_do ops (AuxEffect_Init MemberIndex Parent)) (replicate 18 0, 0) =
       Some (buf, n) \<and>
     read_object 2 AuxEffect_layout (take n buf) ClearEffect = Some (m, []) \<and>
     (\<forall>i < 4. AuxEffect_same i (fst (fold Effect_do ops (AuxEffect_Init MemberIndex Parent))) m)"
  using effect_ops.snapshot_sync [OF AuxEffect_Init_in_sync Effect_Init_ok]
  by (simp add: AuxEffect_BuildExtendedPacket_def Effect_len)

end
