(* ===== verification/AuxStats.thy ===== *)
theory AuxStats
  imports AuxObjects
begin

text \<open>
  Leaf classes of the delta-encoded state tree that hold a ship's numbers: \<^verbatim>\<open>AuxQuadrantDamage\<close>,
  \<^verbatim>\<open>AuxSkillAbility\<close> and \<^verbatim>\<open>AuxStats\<close> (\<^verbatim>\<open>server/src/AuxClasses\<close>). Each interprets the contract
  of \<open>aux_class\<close> and \<open>aux_ops\<close>; its two last lemmas are the delta and the snapshot round trip.
\<close>

section \<open>QuadrantDamage\<close>

record QuadrantDamage =
  QuadrantDamage_Slot1 :: f32
  QuadrantDamage_Slot2 :: f32
  QuadrantDamage_Slot3 :: f32
  QuadrantDamage_Slot4 :: f32

definition ClearQuadrantDamage :: QuadrantDamage where
  "ClearQuadrantDamage = \<lparr>QuadrantDamage_Slot1 = 0,
     QuadrantDamage_Slot2 = 0,
     QuadrantDamage_Slot3 = 0,
     QuadrantDamage_Slot4 = 0\<rparr>"

definition AuxQuadrantDamage_Init :: "nat \<Rightarrow> aux_path \<Rightarrow> QuadrantDamage \<times> aux_path" where
  "AuxQuadrantDamage_Init MemberIndex Parent =
     (ClearQuadrantDamage, Construct [0] [0x06, 0x0F] 4 MemberIndex None # Parent)"

definition AuxQuadrantDamage_wire :: "QuadrantDamage \<Rightarrow> wire_field list" where
  "AuxQuadrantDamage_wire d =
     [Raw (le_bytes 4 (QuadrantDamage_Slot1 d)),
      Raw (le_bytes 4 (QuadrantDamage_Slot2 d)),
      Raw (le_bytes 4 (QuadrantDamage_Slot3 d)),
      Raw (le_bytes 4 (QuadrantDamage_Slot4 d))]"

definition AuxQuadrantDamage_BuildPacket ::
    "QuadrantDamage \<times> aux_path \<Rightarrow> packet_state \<Rightarrow> (packet_state \<times> QuadrantDamage \<times> aux_path) option" where
  "AuxQuadrantDamage_BuildPacket x st =
     map_option (\<lambda>(st', path). (st', (fst x, path))) (build_packet (AuxQuadrantDamage_wire (fst x)) (snd x) st)"

definition AuxQuadrantDamage_BuildExtendedPacket :: "QuadrantDamage \<times> aux_path \<Rightarrow> packet_state \<Rightarrow> packet_state option" where
  "AuxQuadrantDamage_BuildExtendedPacket x st = build_extended_packet (AuxQuadrantDamage_wire (fst x)) (snd x) st"

definition AuxQuadrantDamage_BuildSpecialPacket :: "QuadrantDamage \<times> aux_path \<Rightarrow> packet_state \<Rightarrow> packet_state option" where
  "AuxQuadrantDamage_BuildSpecialPacket x st =
     (case snd x of [] \<Rightarrow> None | a # up \<Rightarrow> add_object a (m_Flags a) (AuxQuadrantDamage_wire (fst x)) st)"

definition QuadrantDamage_SetSlot1 :: "f32 \<Rightarrow> QuadrantDamage \<times> aux_path \<Rightarrow> QuadrantDamage \<times> aux_path" where
  "QuadrantDamage_SetSlot1 v x = rep_float QuadrantDamage_Slot1 (\<lambda>x d. d\<lparr>QuadrantDamage_Slot1 := x\<rparr>) 0 v x"

definition QuadrantDamage_SetSlot2 :: "f32 \<Rightarrow> QuadrantDamage \<times> aux_path \<Rightarrow> QuadrantDamage \<times> aux_path" where
  "QuadrantDamage_SetSlot2 v x = rep_float QuadrantDamage_Slot2 (\<lambda>x d. d\<lparr>QuadrantDamage_Slot2 := x\<rparr>) 1 v x"

definition QuadrantDamage_SetSlot3 :: "f32 \<Rightarrow> QuadrantDamage \<times> aux_path \<Rightarrow> QuadrantDamage \<times> aux_path" where
  "QuadrantDamage_SetSlot3 v x = rep_float QuadrantDamage_Slot3 (\<lambda>x d. d\<lparr>QuadrantDamage_Slot3 := x\<rparr>) 2 v x"

definition QuadrantDamage_SetSlot4 :: "f32 \<Rightarrow> QuadrantDamage \<times> aux_path \<Rightarrow> QuadrantDamage \<times> aux_path" where
  "QuadrantDamage_SetSlot4 v x = rep_float QuadrantDamage_Slot4 (\<lambda>x d. d\<lparr>QuadrantDamage_Slot4 := x\<rparr>) 3 v x"

definition AuxQuadrantDamage_SetData :: "QuadrantDamage \<Rightarrow> QuadrantDamage \<times> aux_path \<Rightarrow> QuadrantDamage \<times> aux_path" where
  "AuxQuadrantDamage_SetData d x =
     rep_float QuadrantDamage_Slot4 (\<lambda>x d. d\<lparr>QuadrantDamage_Slot4 := x\<rparr>) 3 (QuadrantDamage_Slot4 d)
       (rep_float QuadrantDamage_Slot3 (\<lambda>x d. d\<lparr>QuadrantDamage_Slot3 := x\<rparr>) 2 (QuadrantDamage_Slot3 d)
       (rep_float QuadrantDamage_Slot2 (\<lambda>x d. d\<lparr>QuadrantDamage_Slot2 := x\<rparr>) 1 (QuadrantDamage_Slot2 d)
       (rep_float QuadrantDamage_Slot1 (\<lambda>x d. d\<lparr>QuadrantDamage_Slot1 := x\<rparr>) 0 (QuadrantDamage_Slot1 d) x)))"

definition AuxQuadrantDamage_Clear :: "QuadrantDamage \<times> aux_path \<Rightarrow> QuadrantDamage \<times> aux_path" where
  "AuxQuadrantDamage_Clear x = AuxQuadrantDamage_SetData ClearQuadrantDamage x"

definition AuxQuadrantDamage_ClearFlags :: "QuadrantDamage \<times> aux_path \<Rightarrow> QuadrantDamage \<times> aux_path" where
  "AuxQuadrantDamage_ClearFlags x = (fst x, (case snd x of [] \<Rightarrow> [] | a # up \<Rightarrow> clear_flags a # up))"

definition AuxQuadrantDamage_layout :: "QuadrantDamage layout" where
  "AuxQuadrantDamage_layout =
     [(RawK 4, \<lambda>b d. d\<lparr>QuadrantDamage_Slot1 := le_word b\<rparr>),
      (RawK 4, \<lambda>b d. d\<lparr>QuadrantDamage_Slot2 := le_word b\<rparr>),
      (RawK 4, \<lambda>b d. d\<lparr>QuadrantDamage_Slot3 := le_word b\<rparr>),
      (RawK 4, \<lambda>b d. d\<lparr>QuadrantDamage_Slot4 := le_word b\<rparr>)]"

definition AuxQuadrantDamage_truth :: "nat \<Rightarrow> QuadrantDamage \<Rightarrow> bool" where
  "AuxQuadrantDamage_truth i d =
     ([\<not> f_zero (QuadrantDamage_Slot1 d),
       \<not> f_zero (QuadrantDamage_Slot2 d),
       \<not> f_zero (QuadrantDamage_Slot3 d),
       \<not> f_zero (QuadrantDamage_Slot4 d)] ! i)"

definition AuxQuadrantDamage_same :: "nat \<Rightarrow> QuadrantDamage \<Rightarrow> QuadrantDamage \<Rightarrow> bool" where
  "AuxQuadrantDamage_same i d m =
     ([f_same (QuadrantDamage_Slot1 d) (QuadrantDamage_Slot1 m),
       f_same (QuadrantDamage_Slot2 d) (QuadrantDamage_Slot2 m),
       f_same (QuadrantDamage_Slot3 d) (QuadrantDamage_Slot3 m),
       f_same (QuadrantDamage_Slot4 d) (QuadrantDamage_Slot4 m)] ! i)"

definition QuadrantDamage_ok :: "QuadrantDamage \<Rightarrow> bool" where
  "QuadrantDamage_ok d \<longleftrightarrow> True"

lemma QuadrantDamage_len: "length AuxQuadrantDamage_layout = 4"
  by (simp add: AuxQuadrantDamage_layout_def)

interpretation quadrantDamage: aux_class AuxQuadrantDamage_wire AuxQuadrantDamage_layout AuxQuadrantDamage_truth AuxQuadrantDamage_same
  ClearQuadrantDamage QuadrantDamage_ok 1 2
  unfolding aux_class_def QuadrantDamage_len ball_lt
  by (auto simp: AuxQuadrantDamage_wire_def AuxQuadrantDamage_layout_def AuxQuadrantDamage_same_def AuxQuadrantDamage_truth_def ClearQuadrantDamage_def
      QuadrantDamage_ok_def le_words)

lemma QuadrantDamage_lenses:
  "quadrantDamage.lens 0 QuadrantDamage_Slot1 (\<lambda>x d. d\<lparr>QuadrantDamage_Slot1 := x\<rparr>) (\<lambda>x. \<not> f_zero x)"
  "quadrantDamage.lens 1 QuadrantDamage_Slot2 (\<lambda>x d. d\<lparr>QuadrantDamage_Slot2 := x\<rparr>) (\<lambda>x. \<not> f_zero x)"
  "quadrantDamage.lens 2 QuadrantDamage_Slot3 (\<lambda>x d. d\<lparr>QuadrantDamage_Slot3 := x\<rparr>) (\<lambda>x. \<not> f_zero x)"
  "quadrantDamage.lens 3 QuadrantDamage_Slot4 (\<lambda>x d. d\<lparr>QuadrantDamage_Slot4 := x\<rparr>) (\<lambda>x. \<not> f_zero x)"
  unfolding quadrantDamage.lens_def QuadrantDamage_len ball_lt by (simp_all add: AuxQuadrantDamage_truth_def AuxQuadrantDamage_same_def)

lemmas QuadrantDamage_setters = QuadrantDamage_SetSlot1_def QuadrantDamage_SetSlot2_def QuadrantDamage_SetSlot3_def QuadrantDamage_SetSlot4_def
  AuxQuadrantDamage_SetData_def AuxQuadrantDamage_Clear_def

datatype QuadrantDamage_op = QuadrantDamage_op_Slot1 f32
  | QuadrantDamage_op_Slot2 f32
  | QuadrantDamage_op_Slot3 f32
  | QuadrantDamage_op_Slot4 f32
  | QuadrantDamage_op_SetData QuadrantDamage
  | QuadrantDamage_op_Clear

fun QuadrantDamage_do :: "QuadrantDamage_op \<Rightarrow> QuadrantDamage \<times> aux_path \<Rightarrow> QuadrantDamage \<times> aux_path" where
  "QuadrantDamage_do (QuadrantDamage_op_Slot1 v) = QuadrantDamage_SetSlot1 v"
| "QuadrantDamage_do (QuadrantDamage_op_Slot2 v) = QuadrantDamage_SetSlot2 v"
| "QuadrantDamage_do (QuadrantDamage_op_Slot3 v) = QuadrantDamage_SetSlot3 v"
| "QuadrantDamage_do (QuadrantDamage_op_Slot4 v) = QuadrantDamage_SetSlot4 v"
| "QuadrantDamage_do (QuadrantDamage_op_SetData v) = AuxQuadrantDamage_SetData v"
| "QuadrantDamage_do QuadrantDamage_op_Clear = AuxQuadrantDamage_Clear"

lemma QuadrantDamage_do_in_sync: "quadrantDamage.in_sync m x \<Longrightarrow> quadrantDamage.in_sync m (QuadrantDamage_do op x)"
  by (cases op; simp only: QuadrantDamage_do.simps QuadrantDamage_setters;
      (rule quadrantDamage.rep_in_sync QuadrantDamage_lenses | assumption | simp)+)

lemma QuadrantDamage_do_ok: "QuadrantDamage_ok (fst x) \<Longrightarrow> QuadrantDamage_ok (fst (QuadrantDamage_do op x))"
  by (simp add: QuadrantDamage_ok_def)

lemma QuadrantDamage_fits: "QuadrantDamage_ok d \<Longrightarrow> 2 + (\<Sum>f\<leftarrow>AuxQuadrantDamage_wire d. length (wire_bytes f)) \<le> 18"
  by (simp add: AuxQuadrantDamage_wire_def QuadrantDamage_ok_def)

interpretation quadrantDamage_ops: aux_ops AuxQuadrantDamage_wire AuxQuadrantDamage_layout AuxQuadrantDamage_truth AuxQuadrantDamage_same
  ClearQuadrantDamage QuadrantDamage_ok 1 2 QuadrantDamage_do AuxQuadrantDamage_BuildPacket 18
  by unfold_locales
    ((erule QuadrantDamage_do_in_sync | erule QuadrantDamage_do_ok | drule QuadrantDamage_fits, simp | simp add: AuxQuadrantDamage_BuildPacket_def)+)

lemma AuxQuadrantDamage_Init_in_sync: "quadrantDamage.in_sync ClearQuadrantDamage (AuxQuadrantDamage_Init i Parent)"
  unfolding quadrantDamage.in_sync_def QuadrantDamage_len ball_lt
  by (simp add: AuxQuadrantDamage_Init_def Construct_bits aux_wf_def AuxQuadrantDamage_truth_def AuxQuadrantDamage_same_def ClearQuadrantDamage_def
      CheckExtendedFlagBit1_def CheckExtendedFlagBit2_def CheckAuxBit_def)

lemma QuadrantDamage_Init_ok: "QuadrantDamage_ok (fst (AuxQuadrantDamage_Init MemberIndex Parent))"
  by (simp add: AuxQuadrantDamage_Init_def ClearQuadrantDamage_def QuadrantDamage_ok_def)

lemma AuxQuadrantDamage_delta_sync:
  "\<exists>x m. aux_rounds QuadrantDamage_do AuxQuadrantDamage_BuildPacket AuxQuadrantDamage_layout 1 18 batches
        (AuxQuadrantDamage_Init MemberIndex Parent) ClearQuadrantDamage = Some (x, m) \<and>
     (\<forall>i < 4. AuxQuadrantDamage_same i (fst x) m)"
proof -
  have "\<forall>i < 4. AuxQuadrantDamage_same i (fst (AuxQuadrantDamage_Init MemberIndex Parent)) ClearQuadrantDamage"
    unfolding ball_lt by (simp add: AuxQuadrantDamage_Init_def AuxQuadrantDamage_same_def)
  then show ?thesis
    using quadrantDamage_ops.rounds_sync [OF AuxQuadrantDamage_Init_in_sync QuadrantDamage_Init_ok] by (simp add: QuadrantDamage_len)
qed

lemma AuxQuadrantDamage_snapshot:
  "\<exists>buf n m. AuxQuadrantDamage_BuildExtendedPacket (fold QuadrantDamage_do ops (AuxQuadrantDamage_Init MemberIndex Parent)) (replicate 18 0, 0) =
       Some (buf, n) \<and>
     read_object 2 AuxQuadrantDamage_layout (take n buf) ClearQuadrantDamage = Some (m, []) \<and>
     (\<forall>i < 4. AuxQuadrantDamage_same i (fst (fold QuadrantDamage_do ops (AuxQuadrantDamage_Init MemberIndex Parent))) m)"
  using quadrantDamage_ops.snapshot_sync [OF AuxQuadrantDamage_Init_in_sync QuadrantDamage_Init_ok]
  by (simp add: AuxQuadrantDamage_BuildExtendedPacket_def QuadrantDamage_len)

section \<open>SkillAbility\<close>

record SkillAbility =
  SkillAbility_HasAbility :: bool
  SkillAbility_Usage :: u32
  SkillAbility_Targets :: u32
  SkillAbility_Range :: u32
  SkillAbility_Radius :: u32
  SkillAbility_Validity :: u32
  SkillAbility_CanBeUsedWhileIncapacitated :: bool

definition ClearSkillAbility :: SkillAbility where
  "ClearSkillAbility = \<lparr>SkillAbility_HasAbility = False,
     SkillAbility_Usage = 0,
     SkillAbility_Targets = 0,
     SkillAbility_Range = 0,
     SkillAbility_Radius = 0,
     SkillAbility_Validity = 0,
     SkillAbility_CanBeUsedWhileIncapacitated = False\<rparr>"

definition AuxSkillAbility_Init :: "nat \<Rightarrow> aux_path \<Rightarrow> SkillAbility \<times> aux_path" where
  "AuxSkillAbility_Init MemberIndex Parent =
     (ClearSkillAbility, Construct [0, 0] [0x06, 0xF8, 0x03] 7 MemberIndex (Some [0xF0, 0x07, 0x00]) # Parent)"

definition AuxSkillAbility_wire :: "SkillAbility \<Rightarrow> wire_field list" where
  "AuxSkillAbility_wire d =
     [Raw [of_bool (SkillAbility_HasAbility d)],
      Raw (le_bytes 4 (SkillAbility_Usage d)),
      Raw (le_bytes 4 (SkillAbility_Targets d)),
      Raw (le_bytes 4 (SkillAbility_Range d)),
      Raw (le_bytes 4 (SkillAbility_Radius d)),
      Raw (le_bytes 4 (SkillAbility_Validity d)),
      Raw [of_bool (SkillAbility_CanBeUsedWhileIncapacitated d)]]"

definition AuxSkillAbility_BuildPacket ::
    "SkillAbility \<times> aux_path \<Rightarrow> packet_state \<Rightarrow> (packet_state \<times> SkillAbility \<times> aux_path) option" where
  "AuxSkillAbility_BuildPacket x st =
     map_option (\<lambda>(st', path). (st', (fst x, path))) (build_packet (AuxSkillAbility_wire (fst x)) (snd x) st)"

definition AuxSkillAbility_BuildExtendedPacket :: "SkillAbility \<times> aux_path \<Rightarrow> packet_state \<Rightarrow> packet_state option" where
  "AuxSkillAbility_BuildExtendedPacket x st = build_extended_packet (AuxSkillAbility_wire (fst x)) (snd x) st"

definition SkillAbility_SetHasAbility :: "bool \<Rightarrow> SkillAbility \<times> aux_path \<Rightarrow> SkillAbility \<times> aux_path" where
  "SkillAbility_SetHasAbility v x = check_data (rep_bool SkillAbility_HasAbility (\<lambda>x d. d\<lparr>SkillAbility_HasAbility := x\<rparr>) 0 v x)"

definition SkillAbility_SetUsage :: "u32 \<Rightarrow> SkillAbility \<times> aux_path \<Rightarrow> SkillAbility \<times> aux_path" where
  "SkillAbility_SetUsage v x = check_data (rep_word SkillAbility_Usage (\<lambda>x d. d\<lparr>SkillAbility_Usage := x\<rparr>) 1 v x)"

definition SkillAbility_SetTargets :: "u32 \<Rightarrow> SkillAbility \<times> aux_path \<Rightarrow> SkillAbility \<times> aux_path" where
  "SkillAbility_SetTargets v x = check_data (rep_word SkillAbility_Targets (\<lambda>x d. d\<lparr>SkillAbility_Targets := x\<rparr>) 2 v x)"

definition SkillAbility_SetRange :: "u32 \<Rightarrow> SkillAbility \<times> aux_path \<Rightarrow> SkillAbility \<times> aux_path" where
  "SkillAbility_SetRange v x = check_data (rep_word SkillAbility_Range (\<lambda>x d. d\<lparr>SkillAbility_Range := x\<rparr>) 3 v x)"

definition SkillAbility_SetRadius :: "u32 \<Rightarrow> SkillAbility \<times> aux_path \<Rightarrow> SkillAbility \<times> aux_path" where
  "SkillAbility_SetRadius v x = check_data (rep_word SkillAbility_Radius (\<lambda>x d. d\<lparr>SkillAbility_Radius := x\<rparr>) 4 v x)"

definition SkillAbility_SetValidity :: "u32 \<Rightarrow> SkillAbility \<times> aux_path \<Rightarrow> SkillAbility \<times> aux_path" where
  "SkillAbility_SetValidity v x = check_data (rep_word SkillAbility_Validity (\<lambda>x d. d\<lparr>SkillAbility_Validity := x\<rparr>) 5 v x)"

definition SkillAbility_SetCanBeUsedWhileIncapacitated :: "bool \<Rightarrow> SkillAbility \<times> aux_path \<Rightarrow> SkillAbility \<times> aux_path" where
  "SkillAbility_SetCanBeUsedWhileIncapacitated v x = check_data (rep_bool SkillAbility_CanBeUsedWhileIncapacitated (\<lambda>x d. d\<lparr>SkillAbility_CanBeUsedWhileIncapacitated := x\<rparr>) 6 v x)"

definition AuxSkillAbility_SetData :: "SkillAbility \<Rightarrow> SkillAbility \<times> aux_path \<Rightarrow> SkillAbility \<times> aux_path" where
  "AuxSkillAbility_SetData d x =
     check_data
      (rep_bool SkillAbility_CanBeUsedWhileIncapacitated (\<lambda>x d. d\<lparr>SkillAbility_CanBeUsedWhileIncapacitated := x\<rparr>) 6 (SkillAbility_CanBeUsedWhileIncapacitated d)
       (rep_word SkillAbility_Validity (\<lambda>x d. d\<lparr>SkillAbility_Validity := x\<rparr>) 5 (SkillAbility_Validity d)
       (rep_word SkillAbility_Radius (\<lambda>x d. d\<lparr>SkillAbility_Radius := x\<rparr>) 4 (SkillAbility_Radius d)
       (rep_word SkillAbility_Range (\<lambda>x d. d\<lparr>SkillAbility_Range := x\<rparr>) 3 (SkillAbility_Range d)
       (rep_word SkillAbility_Targets (\<lambda>x d. d\<lparr>SkillAbility_Targets := x\<rparr>) 2 (SkillAbility_Targets d)
       (rep_word SkillAbility_Usage (\<lambda>x d. d\<lparr>SkillAbility_Usage := x\<rparr>) 1 (SkillAbility_Usage d)
       (rep_bool SkillAbility_HasAbility (\<lambda>x d. d\<lparr>SkillAbility_HasAbility := x\<rparr>) 0 (SkillAbility_HasAbility d) x)))))))"

definition AuxSkillAbility_Clear :: "SkillAbility \<times> aux_path \<Rightarrow> SkillAbility \<times> aux_path" where
  "AuxSkillAbility_Clear x = AuxSkillAbility_SetData ClearSkillAbility x"

definition AuxSkillAbility_ClearFlags :: "SkillAbility \<times> aux_path \<Rightarrow> SkillAbility \<times> aux_path" where
  "AuxSkillAbility_ClearFlags x = (fst x, (case snd x of [] \<Rightarrow> [] | a # up \<Rightarrow> clear_flags a # up))"

definition AuxSkillAbility_layout :: "SkillAbility layout" where
  "AuxSkillAbility_layout =
     [(RawK 1, \<lambda>b d. d\<lparr>SkillAbility_HasAbility := (b \<noteq> [0])\<rparr>),
      (RawK 4, \<lambda>b d. d\<lparr>SkillAbility_Usage := le_word b\<rparr>),
      (RawK 4, \<lambda>b d. d\<lparr>SkillAbility_Targets := le_word b\<rparr>),
      (RawK 4, \<lambda>b d. d\<lparr>SkillAbility_Range := le_word b\<rparr>),
      (RawK 4, \<lambda>b d. d\<lparr>SkillAbility_Radius := le_word b\<rparr>),
      (RawK 4, \<lambda>b d. d\<lparr>SkillAbility_Validity := le_word b\<rparr>),
      (RawK 1, \<lambda>b d. d\<lparr>SkillAbility_CanBeUsedWhileIncapacitated := (b \<noteq> [0])\<rparr>)]"

definition AuxSkillAbility_truth :: "nat \<Rightarrow> SkillAbility \<Rightarrow> bool" where
  "AuxSkillAbility_truth i d =
     ([SkillAbility_HasAbility d,
       SkillAbility_Usage d \<noteq> 0,
       SkillAbility_Targets d \<noteq> 0,
       SkillAbility_Range d \<noteq> 0,
       SkillAbility_Radius d \<noteq> 0,
       SkillAbility_Validity d \<noteq> 0,
       SkillAbility_CanBeUsedWhileIncapacitated d] ! i)"

definition AuxSkillAbility_same :: "nat \<Rightarrow> SkillAbility \<Rightarrow> SkillAbility \<Rightarrow> bool" where
  "AuxSkillAbility_same i d m =
     ([SkillAbility_HasAbility d = SkillAbility_HasAbility m,
       SkillAbility_Usage d = SkillAbility_Usage m,
       SkillAbility_Targets d = SkillAbility_Targets m,
       SkillAbility_Range d = SkillAbility_Range m,
       SkillAbility_Radius d = SkillAbility_Radius m,
       SkillAbility_Validity d = SkillAbility_Validity m,
       SkillAbility_CanBeUsedWhileIncapacitated d = SkillAbility_CanBeUsedWhileIncapacitated m] ! i)"

definition SkillAbility_ok :: "SkillAbility \<Rightarrow> bool" where
  "SkillAbility_ok d \<longleftrightarrow> True"

lemma SkillAbility_len: "length AuxSkillAbility_layout = 7"
  by (simp add: AuxSkillAbility_layout_def)

interpretation skillAbility: aux_class AuxSkillAbility_wire AuxSkillAbility_layout AuxSkillAbility_truth AuxSkillAbility_same
  ClearSkillAbility SkillAbility_ok 2 3
  unfolding aux_class_def SkillAbility_len ball_lt
  by (auto simp: AuxSkillAbility_wire_def AuxSkillAbility_layout_def AuxSkillAbility_same_def AuxSkillAbility_truth_def ClearSkillAbility_def
      SkillAbility_ok_def le_words)

lemma SkillAbility_lenses:
  "skillAbility.lens 0 SkillAbility_HasAbility (\<lambda>x d. d\<lparr>SkillAbility_HasAbility := x\<rparr>) (\<lambda>x. x)"
  "skillAbility.lens 1 SkillAbility_Usage (\<lambda>x d. d\<lparr>SkillAbility_Usage := x\<rparr>) (\<lambda>x. x \<noteq> 0)"
  "skillAbility.lens 2 SkillAbility_Targets (\<lambda>x d. d\<lparr>SkillAbility_Targets := x\<rparr>) (\<lambda>x. x \<noteq> 0)"
  "skillAbility.lens 3 SkillAbility_Range (\<lambda>x d. d\<lparr>SkillAbility_Range := x\<rparr>) (\<lambda>x. x \<noteq> 0)"
  "skillAbility.lens 4 SkillAbility_Radius (\<lambda>x d. d\<lparr>SkillAbility_Radius := x\<rparr>) (\<lambda>x. x \<noteq> 0)"
  "skillAbility.lens 5 SkillAbility_Validity (\<lambda>x d. d\<lparr>SkillAbility_Validity := x\<rparr>) (\<lambda>x. x \<noteq> 0)"
  "skillAbility.lens 6 SkillAbility_CanBeUsedWhileIncapacitated (\<lambda>x d. d\<lparr>SkillAbility_CanBeUsedWhileIncapacitated := x\<rparr>) (\<lambda>x. x)"
  unfolding skillAbility.lens_def SkillAbility_len ball_lt by (simp_all add: AuxSkillAbility_truth_def AuxSkillAbility_same_def)

lemmas SkillAbility_setters = SkillAbility_SetHasAbility_def SkillAbility_SetUsage_def SkillAbility_SetTargets_def SkillAbility_SetRange_def SkillAbility_SetRadius_def SkillAbility_SetValidity_def SkillAbility_SetCanBeUsedWhileIncapacitated_def
  AuxSkillAbility_SetData_def AuxSkillAbility_Clear_def

datatype SkillAbility_op = SkillAbility_op_HasAbility bool
  | SkillAbility_op_Usage u32
  | SkillAbility_op_Targets u32
  | SkillAbility_op_Range u32
  | SkillAbility_op_Radius u32
  | SkillAbility_op_Validity u32
  | SkillAbility_op_CanBeUsedWhileIncapacitated bool
  | SkillAbility_op_SetData SkillAbility
  | SkillAbility_op_Clear

fun SkillAbility_do :: "SkillAbility_op \<Rightarrow> SkillAbility \<times> aux_path \<Rightarrow> SkillAbility \<times> aux_path" where
  "SkillAbility_do (SkillAbility_op_HasAbility v) = SkillAbility_SetHasAbility v"
| "SkillAbility_do (SkillAbility_op_Usage v) = SkillAbility_SetUsage v"
| "SkillAbility_do (SkillAbility_op_Targets v) = SkillAbility_SetTargets v"
| "SkillAbility_do (SkillAbility_op_Range v) = SkillAbility_SetRange v"
| "SkillAbility_do (SkillAbility_op_Radius v) = SkillAbility_SetRadius v"
| "SkillAbility_do (SkillAbility_op_Validity v) = SkillAbility_SetValidity v"
| "SkillAbility_do (SkillAbility_op_CanBeUsedWhileIncapacitated v) = SkillAbility_SetCanBeUsedWhileIncapacitated v"
| "SkillAbility_do (SkillAbility_op_SetData v) = AuxSkillAbility_SetData v"
| "SkillAbility_do SkillAbility_op_Clear = AuxSkillAbility_Clear"

lemma SkillAbility_do_in_sync: "skillAbility.in_sync m x \<Longrightarrow> skillAbility.in_sync m (SkillAbility_do op x)"
  by (cases op; simp only: SkillAbility_do.simps SkillAbility_setters;
      (rule skillAbility.check_data_in_sync skillAbility.rep_in_sync SkillAbility_lenses | assumption | simp)+)

lemma SkillAbility_do_ok: "SkillAbility_ok (fst x) \<Longrightarrow> SkillAbility_ok (fst (SkillAbility_do op x))"
  by (simp add: SkillAbility_ok_def)

lemma SkillAbility_fits: "SkillAbility_ok d \<Longrightarrow> 3 + (\<Sum>f\<leftarrow>AuxSkillAbility_wire d. length (wire_bytes f)) \<le> 25"
  by (simp add: AuxSkillAbility_wire_def SkillAbility_ok_def)

interpretation skillAbility_ops: aux_ops AuxSkillAbility_wire AuxSkillAbility_layout AuxSkillAbility_truth AuxSkillAbility_same
  ClearSkillAbility SkillAbility_ok 2 3 SkillAbility_do AuxSkillAbility_BuildPacket 25
  by unfold_locales
    ((erule SkillAbility_do_in_sync | erule SkillAbility_do_ok | drule SkillAbility_fits, simp | simp add: AuxSkillAbility_BuildPacket_def)+)

lemma AuxSkillAbility_Init_in_sync: "skillAbility.in_sync ClearSkillAbility (AuxSkillAbility_Init i Parent)"
  unfolding skillAbility.in_sync_def SkillAbility_len ball_lt
  by (simp add: AuxSkillAbility_Init_def Construct_bits aux_wf_def AuxSkillAbility_truth_def AuxSkillAbility_same_def ClearSkillAbility_def
      CheckExtendedFlagBit1_def CheckExtendedFlagBit2_def CheckAuxBit_def)

lemma SkillAbility_Init_ok: "SkillAbility_ok (fst (AuxSkillAbility_Init MemberIndex Parent))"
  by (simp add: AuxSkillAbility_Init_def ClearSkillAbility_def SkillAbility_ok_def)

lemma AuxSkillAbility_delta_sync:
  "\<exists>x m. aux_rounds SkillAbility_do AuxSkillAbility_BuildPacket AuxSkillAbility_layout 2 25 batches
        (AuxSkillAbility_Init MemberIndex Parent) ClearSkillAbility = Some (x, m) \<and>
     (\<forall>i < 7. AuxSkillAbility_same i (fst x) m)"
proof -
  have "\<forall>i < 7. AuxSkillAbility_same i (fst (AuxSkillAbility_Init MemberIndex Parent)) ClearSkillAbility"
    unfolding ball_lt by (simp add: AuxSkillAbility_Init_def AuxSkillAbility_same_def)
  then show ?thesis
    using skillAbility_ops.rounds_sync [OF AuxSkillAbility_Init_in_sync SkillAbility_Init_ok] by (simp add: SkillAbility_len)
qed

lemma AuxSkillAbility_snapshot:
  "\<exists>buf n m. AuxSkillAbility_BuildExtendedPacket (fold SkillAbility_do ops (AuxSkillAbility_Init MemberIndex Parent)) (replicate 25 0, 0) =
       Some (buf, n) \<and>
     read_object 3 AuxSkillAbility_layout (take n buf) ClearSkillAbility = Some (m, []) \<and>
     (\<forall>i < 7. AuxSkillAbility_same i (fst (fold SkillAbility_do ops (AuxSkillAbility_Init MemberIndex Parent))) m)"
  using skillAbility_ops.snapshot_sync [OF AuxSkillAbility_Init_in_sync SkillAbility_Init_ok]
  by (simp add: AuxSkillAbility_BuildExtendedPacket_def SkillAbility_len)

section \<open>Stats\<close>

record Stats =
  Stats_Defence :: s32
  Stats_MissleDefence :: s32
  Stats_Speed :: s32
  Stats_WarpSpeed :: s32
  Stats_WarpPowerLevel :: s32
  Stats_TurnRate :: s32
  Stats_ScanRange :: s32
  Stats_Visibility :: s32
  Stats_ResistImpact :: s32
  Stats_ResistExplosion :: s32
  Stats_ResistPlasma :: s32
  Stats_ResistEnergy :: s32
  Stats_ResistEMP :: s32
  Stats_ResistChemical :: s32
  Stats_ResistPsionic :: s32

definition ClearStats :: Stats where
  "ClearStats = \<lparr>Stats_Defence = 0,
     Stats_MissleDefence = 0,
     Stats_Speed = 0,
     Stats_WarpSpeed = 0,
     Stats_WarpPowerLevel = 0,
     Stats_TurnRate = 0,
     Stats_ScanRange = 0,
     Stats_Visibility = 0,
     Stats_ResistImpact = 0,
     Stats_ResistExplosion = 0,
     Stats_ResistPlasma = 0,
     Stats_ResistEnergy = 0,
     Stats_ResistEMP = 0,
     Stats_ResistChemical = 0,
     Stats_ResistPsionic = 0\<rparr>"

definition AuxStats_Init :: "nat \<Rightarrow> aux_path \<Rightarrow> Stats \<times> aux_path" where
  "AuxStats_Init MemberIndex Parent =
     (ClearStats, Construct [0, 0, 0] [0x06, 0x00, 0xF8, 0xFF, 0x03] 15 MemberIndex None # Parent)"

definition AuxStats_wire :: "Stats \<Rightarrow> wire_field list" where
  "AuxStats_wire d =
     [Raw (le_bytes 4 (Stats_Defence d)),
      Raw (le_bytes 4 (Stats_MissleDefence d)),
      Raw (le_bytes 4 (Stats_Speed d)),
      Raw (le_bytes 4 (Stats_WarpSpeed d)),
      Raw (le_bytes 4 (Stats_WarpPowerLevel d)),
      Raw (le_bytes 4 (Stats_TurnRate d)),
      Raw (le_bytes 4 (Stats_ScanRange d)),
      Raw (le_bytes 4 (Stats_Visibility d)),
      Raw (le_bytes 4 (Stats_ResistImpact d)),
      Raw (le_bytes 4 (Stats_ResistExplosion d)),
      Raw (le_bytes 4 (Stats_ResistPlasma d)),
      Raw (le_bytes 4 (Stats_ResistEnergy d)),
      Raw (le_bytes 4 (Stats_ResistEMP d)),
      Raw (le_bytes 4 (Stats_ResistChemical d)),
      Raw (le_bytes 4 (Stats_ResistPsionic d))]"

definition AuxStats_BuildPacket ::
    "Stats \<times> aux_path \<Rightarrow> packet_state \<Rightarrow> (packet_state \<times> Stats \<times> aux_path) option" where
  "AuxStats_BuildPacket x st =
     map_option (\<lambda>(st', path). (st', (fst x, path))) (build_packet (AuxStats_wire (fst x)) (snd x) st)"

definition AuxStats_BuildExtendedPacket :: "Stats \<times> aux_path \<Rightarrow> packet_state \<Rightarrow> packet_state option" where
  "AuxStats_BuildExtendedPacket x st = build_extended_packet (AuxStats_wire (fst x)) (snd x) st"

definition Stats_SetDefence :: "s32 \<Rightarrow> Stats \<times> aux_path \<Rightarrow> Stats \<times> aux_path" where
  "Stats_SetDefence v x = rep_word Stats_Defence (\<lambda>x d. d\<lparr>Stats_Defence := x\<rparr>) 0 v x"

definition Stats_SetMissleDefence :: "s32 \<Rightarrow> Stats \<times> aux_path \<Rightarrow> Stats \<times> aux_path" where
  "Stats_SetMissleDefence v x = rep_word Stats_MissleDefence (\<lambda>x d. d\<lparr>Stats_MissleDefence := x\<rparr>) 1 v x"

definition Stats_SetSpeed :: "s32 \<Rightarrow> Stats \<times> aux_path \<Rightarrow> Stats \<times> aux_path" where
  "Stats_SetSpeed v x = rep_word Stats_Speed (\<lambda>x d. d\<lparr>Stats_Speed := x\<rparr>) 2 v x"

definition Stats_SetWarpSpeed :: "s32 \<Rightarrow> Stats \<times> aux_path \<Rightarrow> Stats \<times> aux_path" where
  "Stats_SetWarpSpeed v x = rep_word Stats_WarpSpeed (\<lambda>x d. d\<lparr>Stats_WarpSpeed := x\<rparr>) 3 v x"

definition Stats_SetWarpPowerLevel :: "s32 \<Rightarrow> Stats \<times> aux_path \<Rightarrow> Stats \<times> aux_path" where
  "Stats_SetWarpPowerLevel v x = rep_word Stats_WarpPowerLevel (\<lambda>x d. d\<lparr>Stats_WarpPowerLevel := x\<rparr>) 4 v x"

definition Stats_SetTurnRate :: "s32 \<Rightarrow> Stats \<times> aux_path \<Rightarrow> Stats \<times> aux_path" where
  "Stats_SetTurnRate v x = rep_word Stats_TurnRate (\<lambda>x d. d\<lparr>Stats_TurnRate := x\<rparr>) 5 v x"

definition Stats_SetScanRange :: "s32 \<Rightarrow> Stats \<times> aux_path \<Rightarrow> Stats \<times> aux_path" where
  "Stats_SetScanRange v x = rep_word Stats_ScanRange (\<lambda>x d. d\<lparr>Stats_ScanRange := x\<rparr>) 6 v x"

definition Stats_SetVisibility :: "s32 \<Rightarrow> Stats \<times> aux_path \<Rightarrow> Stats \<times> aux_path" where
  "Stats_SetVisibility v x = rep_word Stats_Visibility (\<lambda>x d. d\<lparr>Stats_Visibility := x\<rparr>) 7 v x"

definition Stats_SetResistImpact :: "s32 \<Rightarrow> Stats \<times> aux_path \<Rightarrow> Stats \<times> aux_path" where
  "Stats_SetResistImpact v x = rep_word Stats_ResistImpact (\<lambda>x d. d\<lparr>Stats_ResistImpact := x\<rparr>) 8 v x"

definition Stats_SetResistExplosion :: "s32 \<Rightarrow> Stats \<times> aux_path \<Rightarrow> Stats \<times> aux_path" where
  "Stats_SetResistExplosion v x = rep_word Stats_ResistExplosion (\<lambda>x d. d\<lparr>Stats_ResistExplosion := x\<rparr>) 9 v x"

definition Stats_SetResistPlasma :: "s32 \<Rightarrow> Stats \<times> aux_path \<Rightarrow> Stats \<times> aux_path" where
  "Stats_SetResistPlasma v x = rep_word Stats_ResistPlasma (\<lambda>x d. d\<lparr>Stats_ResistPlasma := x\<rparr>) 10 v x"

definition Stats_SetResistEnergy :: "s32 \<Rightarrow> Stats \<times> aux_path \<Rightarrow> Stats \<times> aux_path" where
  "Stats_SetResistEnergy v x = rep_word Stats_ResistEnergy (\<lambda>x d. d\<lparr>Stats_ResistEnergy := x\<rparr>) 11 v x"

definition Stats_SetResistEMP :: "s32 \<Rightarrow> Stats \<times> aux_path \<Rightarrow> Stats \<times> aux_path" where
  "Stats_SetResistEMP v x = rep_word Stats_ResistEMP (\<lambda>x d. d\<lparr>Stats_ResistEMP := x\<rparr>) 12 v x"

definition Stats_SetResistChemical :: "s32 \<Rightarrow> Stats \<times> aux_path \<Rightarrow> Stats \<times> aux_path" where
  "Stats_SetResistChemical v x = rep_word Stats_ResistChemical (\<lambda>x d. d\<lparr>Stats_ResistChemical := x\<rparr>) 13 v x"

definition Stats_SetResistPsionic :: "s32 \<Rightarrow> Stats \<times> aux_path \<Rightarrow> Stats \<times> aux_path" where
  "Stats_SetResistPsionic v x = rep_word Stats_ResistPsionic (\<lambda>x d. d\<lparr>Stats_ResistPsionic := x\<rparr>) 14 v x"

definition AuxStats_SetData :: "Stats \<Rightarrow> Stats \<times> aux_path \<Rightarrow> Stats \<times> aux_path" where
  "AuxStats_SetData d x =
     rep_word Stats_ResistPsionic (\<lambda>x d. d\<lparr>Stats_ResistPsionic := x\<rparr>) 14 (Stats_ResistPsionic d)
       (rep_word Stats_ResistChemical (\<lambda>x d. d\<lparr>Stats_ResistChemical := x\<rparr>) 13 (Stats_ResistChemical d)
       (rep_word Stats_ResistEMP (\<lambda>x d. d\<lparr>Stats_ResistEMP := x\<rparr>) 12 (Stats_ResistEMP d)
       (rep_word Stats_ResistEnergy (\<lambda>x d. d\<lparr>Stats_ResistEnergy := x\<rparr>) 11 (Stats_ResistEnergy d)
       (rep_word Stats_ResistPlasma (\<lambda>x d. d\<lparr>Stats_ResistPlasma := x\<rparr>) 10 (Stats_ResistPlasma d)
       (rep_word Stats_ResistExplosion (\<lambda>x d. d\<lparr>Stats_ResistExplosion := x\<rparr>) 9 (Stats_ResistExplosion d)
       (rep_word Stats_ResistImpact (\<lambda>x d. d\<lparr>Stats_ResistImpact := x\<rparr>) 8 (Stats_ResistImpact d)
       (rep_word Stats_Visibility (\<lambda>x d. d\<lparr>Stats_Visibility := x\<rparr>) 7 (Stats_Visibility d)
       (rep_word Stats_ScanRange (\<lambda>x d. d\<lparr>Stats_ScanRange := x\<rparr>) 6 (Stats_ScanRange d)
       (rep_word Stats_TurnRate (\<lambda>x d. d\<lparr>Stats_TurnRate := x\<rparr>) 5 (Stats_TurnRate d)
       (rep_word Stats_WarpPowerLevel (\<lambda>x d. d\<lparr>Stats_WarpPowerLevel := x\<rparr>) 4 (Stats_WarpPowerLevel d)
       (rep_word Stats_WarpSpeed (\<lambda>x d. d\<lparr>Stats_WarpSpeed := x\<rparr>) 3 (Stats_WarpSpeed d)
       (rep_word Stats_Speed (\<lambda>x d. d\<lparr>Stats_Speed := x\<rparr>) 2 (Stats_Speed d)
       (rep_word Stats_MissleDefence (\<lambda>x d. d\<lparr>Stats_MissleDefence := x\<rparr>) 1 (Stats_MissleDefence d)
       (rep_word Stats_Defence (\<lambda>x d. d\<lparr>Stats_Defence := x\<rparr>) 0 (Stats_Defence d) x))))))))))))))"

definition AuxStats_ClearFlags :: "Stats \<times> aux_path \<Rightarrow> Stats \<times> aux_path" where
  "AuxStats_ClearFlags x = (fst x, (case snd x of [] \<Rightarrow> [] | a # up \<Rightarrow> clear_flags a # up))"

definition AuxStats_layout :: "Stats layout" where
  "AuxStats_layout =
     [(RawK 4, \<lambda>b d. d\<lparr>Stats_Defence := le_word b\<rparr>),
      (RawK 4, \<lambda>b d. d\<lparr>Stats_MissleDefence := le_word b\<rparr>),
      (RawK 4, \<lambda>b d. d\<lparr>Stats_Speed := le_word b\<rparr>),
      (RawK 4, \<lambda>b d. d\<lparr>Stats_WarpSpeed := le_word b\<rparr>),
      (RawK 4, \<lambda>b d. d\<lparr>Stats_WarpPowerLevel := le_word b\<rparr>),
      (RawK 4, \<lambda>b d. d\<lparr>Stats_TurnRate := le_word b\<rparr>),
      (RawK 4, \<lambda>b d. d\<lparr>Stats_ScanRange := le_word b\<rparr>),
      (RawK 4, \<lambda>b d. d\<lparr>Stats_Visibility := le_word b\<rparr>),
      (RawK 4, \<lambda>b d. d\<lparr>Stats_ResistImpact := le_word b\<rparr>),
      (RawK 4, \<lambda>b d. d\<lparr>Stats_ResistExplosion := le_word b\<rparr>),
      (RawK 4, \<lambda>b d. d\<lparr>Stats_ResistPlasma := le_word b\<rparr>),
      (RawK 4, \<lambda>b d. d\<lparr>Stats_ResistEnergy := le_word b\<rparr>),
      (RawK 4, \<lambda>b d. d\<lparr>Stats_ResistEMP := le_word b\<rparr>),
      (RawK 4, \<lambda>b d. d\<lparr>Stats_ResistChemical := le_word b\<rparr>),
      (RawK 4, \<lambda>b d. d\<lparr>Stats_ResistPsionic := le_word b\<rparr>)]"

definition AuxStats_truth :: "nat \<Rightarrow> Stats \<Rightarrow> bool" where
  "AuxStats_truth i d =
     ([Stats_Defence d \<noteq> 0,
       Stats_MissleDefence d \<noteq> 0,
       Stats_Speed d \<noteq> 0,
       Stats_WarpSpeed d \<noteq> 0,
       Stats_WarpPowerLevel d \<noteq> 0,
       Stats_TurnRate d \<noteq> 0,
       Stats_ScanRange d \<noteq> 0,
       Stats_Visibility d \<noteq> 0,
       Stats_ResistImpact d \<noteq> 0,
       Stats_ResistExplosion d \<noteq> 0,
       Stats_ResistPlasma d \<noteq> 0,
       Stats_ResistEnergy d \<noteq> 0,
       Stats_ResistEMP d \<noteq> 0,
       Stats_ResistChemical d \<noteq> 0,
       Stats_ResistPsionic d \<noteq> 0] ! i)"

definition AuxStats_same :: "nat \<Rightarrow> Stats \<Rightarrow> Stats \<Rightarrow> bool" where
  "AuxStats_same i d m =
     ([Stats_Defence d = Stats_Defence m,
       Stats_MissleDefence d = Stats_MissleDefence m,
       Stats_Speed d = Stats_Speed m,
       Stats_WarpSpeed d = Stats_WarpSpeed m,
       Stats_WarpPowerLevel d = Stats_WarpPowerLevel m,
       Stats_TurnRate d = Stats_TurnRate m,
       Stats_ScanRange d = Stats_ScanRange m,
       Stats_Visibility d = Stats_Visibility m,
       Stats_ResistImpact d = Stats_ResistImpact m,
       Stats_ResistExplosion d = Stats_ResistExplosion m,
       Stats_ResistPlasma d = Stats_ResistPlasma m,
       Stats_ResistEnergy d = Stats_ResistEnergy m,
       Stats_ResistEMP d = Stats_ResistEMP m,
       Stats_ResistChemical d = Stats_ResistChemical m,
       Stats_ResistPsionic d = Stats_ResistPsionic m] ! i)"

definition Stats_ok :: "Stats \<Rightarrow> bool" where
  "Stats_ok d \<longleftrightarrow> True"

lemma Stats_len: "length AuxStats_layout = 15"
  by (simp add: AuxStats_layout_def)

interpretation stats: aux_class AuxStats_wire AuxStats_layout AuxStats_truth AuxStats_same
  ClearStats Stats_ok 3 5
  unfolding aux_class_def Stats_len ball_lt
  by (auto simp: AuxStats_wire_def AuxStats_layout_def AuxStats_same_def AuxStats_truth_def ClearStats_def
      Stats_ok_def le_words)

lemma Stats_lenses:
  "stats.lens 0 Stats_Defence (\<lambda>x d. d\<lparr>Stats_Defence := x\<rparr>) (\<lambda>x. x \<noteq> 0)"
  "stats.lens 1 Stats_MissleDefence (\<lambda>x d. d\<lparr>Stats_MissleDefence := x\<rparr>) (\<lambda>x. x \<noteq> 0)"
  "stats.lens 2 Stats_Speed (\<lambda>x d. d\<lparr>Stats_Speed := x\<rparr>) (\<lambda>x. x \<noteq> 0)"
  "stats.lens 3 Stats_WarpSpeed (\<lambda>x d. d\<lparr>Stats_WarpSpeed := x\<rparr>) (\<lambda>x. x \<noteq> 0)"
  "stats.lens 4 Stats_WarpPowerLevel (\<lambda>x d. d\<lparr>Stats_WarpPowerLevel := x\<rparr>) (\<lambda>x. x \<noteq> 0)"
  "stats.lens 5 Stats_TurnRate (\<lambda>x d. d\<lparr>Stats_TurnRate := x\<rparr>) (\<lambda>x. x \<noteq> 0)"
  "stats.lens 6 Stats_ScanRange (\<lambda>x d. d\<lparr>Stats_ScanRange := x\<rparr>) (\<lambda>x. x \<noteq> 0)"
  "stats.lens 7 Stats_Visibility (\<lambda>x d. d\<lparr>Stats_Visibility := x\<rparr>) (\<lambda>x. x \<noteq> 0)"
  "stats.lens 8 Stats_ResistImpact (\<lambda>x d. d\<lparr>Stats_ResistImpact := x\<rparr>) (\<lambda>x. x \<noteq> 0)"
  "stats.lens 9 Stats_ResistExplosion (\<lambda>x d. d\<lparr>Stats_ResistExplosion := x\<rparr>) (\<lambda>x. x \<noteq> 0)"
  "stats.lens 10 Stats_ResistPlasma (\<lambda>x d. d\<lparr>Stats_ResistPlasma := x\<rparr>) (\<lambda>x. x \<noteq> 0)"
  "stats.lens 11 Stats_ResistEnergy (\<lambda>x d. d\<lparr>Stats_ResistEnergy := x\<rparr>) (\<lambda>x. x \<noteq> 0)"
  "stats.lens 12 Stats_ResistEMP (\<lambda>x d. d\<lparr>Stats_ResistEMP := x\<rparr>) (\<lambda>x. x \<noteq> 0)"
  "stats.lens 13 Stats_ResistChemical (\<lambda>x d. d\<lparr>Stats_ResistChemical := x\<rparr>) (\<lambda>x. x \<noteq> 0)"
  "stats.lens 14 Stats_ResistPsionic (\<lambda>x d. d\<lparr>Stats_ResistPsionic := x\<rparr>) (\<lambda>x. x \<noteq> 0)"
  unfolding stats.lens_def Stats_len ball_lt by (simp_all add: AuxStats_truth_def AuxStats_same_def)

lemmas Stats_setters = Stats_SetDefence_def Stats_SetMissleDefence_def Stats_SetSpeed_def Stats_SetWarpSpeed_def Stats_SetWarpPowerLevel_def Stats_SetTurnRate_def Stats_SetScanRange_def Stats_SetVisibility_def Stats_SetResistImpact_def Stats_SetResistExplosion_def Stats_SetResistPlasma_def Stats_SetResistEnergy_def Stats_SetResistEMP_def Stats_SetResistChemical_def Stats_SetResistPsionic_def
  AuxStats_SetData_def

datatype Stats_op = Stats_op_Defence s32
  | Stats_op_MissleDefence s32
  | Stats_op_Speed s32
  | Stats_op_WarpSpeed s32
  | Stats_op_WarpPowerLevel s32
  | Stats_op_TurnRate s32
  | Stats_op_ScanRange s32
  | Stats_op_Visibility s32
  | Stats_op_ResistImpact s32
  | Stats_op_ResistExplosion s32
  | Stats_op_ResistPlasma s32
  | Stats_op_ResistEnergy s32
  | Stats_op_ResistEMP s32
  | Stats_op_ResistChemical s32
  | Stats_op_ResistPsionic s32
  | Stats_op_SetData Stats

fun Stats_do :: "Stats_op \<Rightarrow> Stats \<times> aux_path \<Rightarrow> Stats \<times> aux_path" where
  "Stats_do (Stats_op_Defence v) = Stats_SetDefence v"
| "Stats_do (Stats_op_MissleDefence v) = Stats_SetMissleDefence v"
| "Stats_do (Stats_op_Speed v) = Stats_SetSpeed v"
| "Stats_do (Stats_op_WarpSpeed v) = Stats_SetWarpSpeed v"
| "Stats_do (Stats_op_WarpPowerLevel v) = Stats_SetWarpPowerLevel v"
| "Stats_do (Stats_op_TurnRate v) = Stats_SetTurnRate v"
| "Stats_do (Stats_op_ScanRange v) = Stats_SetScanRange v"
| "Stats_do (Stats_op_Visibility v) = Stats_SetVisibility v"
| "Stats_do (Stats_op_ResistImpact v) = Stats_SetResistImpact v"
| "Stats_do (Stats_op_ResistExplosion v) = Stats_SetResistExplosion v"
| "Stats_do (Stats_op_ResistPlasma v) = Stats_SetResistPlasma v"
| "Stats_do (Stats_op_ResistEnergy v) = Stats_SetResistEnergy v"
| "Stats_do (Stats_op_ResistEMP v) = Stats_SetResistEMP v"
| "Stats_do (Stats_op_ResistChemical v) = Stats_SetResistChemical v"
| "Stats_do (Stats_op_ResistPsionic v) = Stats_SetResistPsionic v"
| "Stats_do (Stats_op_SetData v) = AuxStats_SetData v"

lemma Stats_do_in_sync: "stats.in_sync m x \<Longrightarrow> stats.in_sync m (Stats_do op x)"
  by (cases op; simp only: Stats_do.simps Stats_setters;
      (rule stats.rep_in_sync Stats_lenses | assumption | simp)+)

lemma Stats_do_ok: "Stats_ok (fst x) \<Longrightarrow> Stats_ok (fst (Stats_do op x))"
  by (simp add: Stats_ok_def)

lemma Stats_fits: "Stats_ok d \<Longrightarrow> 5 + (\<Sum>f\<leftarrow>AuxStats_wire d. length (wire_bytes f)) \<le> 65"
  by (simp add: AuxStats_wire_def Stats_ok_def)

interpretation stats_ops: aux_ops AuxStats_wire AuxStats_layout AuxStats_truth AuxStats_same
  ClearStats Stats_ok 3 5 Stats_do AuxStats_BuildPacket 65
  by unfold_locales
    ((erule Stats_do_in_sync | erule Stats_do_ok | drule Stats_fits, simp | simp add: AuxStats_BuildPacket_def)+)

lemma AuxStats_Init_in_sync: "stats.in_sync ClearStats (AuxStats_Init i Parent)"
  unfolding stats.in_sync_def Stats_len ball_lt
  by (simp add: AuxStats_Init_def Construct_bits aux_wf_def AuxStats_truth_def AuxStats_same_def ClearStats_def
      CheckExtendedFlagBit1_def CheckExtendedFlagBit2_def CheckAuxBit_def)

lemma Stats_Init_ok: "Stats_ok (fst (AuxStats_Init MemberIndex Parent))"
  by (simp add: AuxStats_Init_def ClearStats_def Stats_ok_def)

lemma AuxStats_delta_sync:
  "\<exists>x m. aux_rounds Stats_do AuxStats_BuildPacket AuxStats_layout 3 65 batches
        (AuxStats_Init MemberIndex Parent) ClearStats = Some (x, m) \<and>
     (\<forall>i < 15. AuxStats_same i (fst x) m)"
proof -
  have "\<forall>i < 15. AuxStats_same i (fst (AuxStats_Init MemberIndex Parent)) ClearStats"
    unfolding ball_lt by (simp add: AuxStats_Init_def AuxStats_same_def)
  then show ?thesis
    using stats_ops.rounds_sync [OF AuxStats_Init_in_sync Stats_Init_ok] by (simp add: Stats_len)
qed

lemma AuxStats_snapshot:
  "\<exists>buf n m. AuxStats_BuildExtendedPacket (fold Stats_do ops (AuxStats_Init MemberIndex Parent)) (replicate 65 0, 0) =
       Some (buf, n) \<and>
     read_object 5 AuxStats_layout (take n buf) ClearStats = Some (m, []) \<and>
     (\<forall>i < 15. AuxStats_same i (fst (fold Stats_do ops (AuxStats_Init MemberIndex Parent))) m)"
  using stats_ops.snapshot_sync [OF AuxStats_Init_in_sync Stats_Init_ok]
  by (simp add: AuxStats_BuildExtendedPacket_def Stats_len)

end
