(* ===== verification/AuxGroupMember.thy ===== *)
theory AuxGroupMember
  imports AuxObjects
begin

text \<open>
  A member of a group as a client sees it: \<^verbatim>\<open>server/src/AuxClasses/AuxGroupMember.h\<close> and
  \<^verbatim>\<open>AuxGroupMember.cpp\<close>. The class interprets the contract of delta-encoded objects.
\<close>

section \<open>GroupMember\<close>

record GroupMember =
  GroupMember_Name :: bytes
  GroupMember_GameID :: u32
  GroupMember_Formation :: u32
  GroupMember_Position :: u32

definition ClearGroupMember :: GroupMember where
  "ClearGroupMember = \<lparr>GroupMember_Name = [],
     GroupMember_GameID = 0,
     GroupMember_Formation = 0,
     GroupMember_Position = 0\<rparr>"

definition AuxGroupMember_Init :: "nat \<Rightarrow> aux_path \<Rightarrow> GroupMember \<times> aux_path" where
  "AuxGroupMember_Init MemberIndex Parent =
     (ClearGroupMember, Construct [0] [0x06, 0x0F] 4 MemberIndex (Some [0xF0, 0x00]) # Parent)"

definition AuxGroupMember_wire :: "GroupMember \<Rightarrow> wire_field list" where
  "AuxGroupMember_wire d =
     [Str (GroupMember_Name d),
      Raw (le_bytes 4 (GroupMember_GameID d)),
      Raw (le_bytes 4 (GroupMember_Formation d)),
      Raw (le_bytes 4 (GroupMember_Position d))]"

definition AuxGroupMember_BuildPacket ::
    "GroupMember \<times> aux_path \<Rightarrow> packet_state \<Rightarrow> (packet_state \<times> GroupMember \<times> aux_path) option" where
  "AuxGroupMember_BuildPacket x st =
     map_option (\<lambda>(st', path). (st', (fst x, path))) (build_packet (AuxGroupMember_wire (fst x)) (snd x) st)"

definition AuxGroupMember_BuildExtendedPacket :: "GroupMember \<times> aux_path \<Rightarrow> packet_state \<Rightarrow> packet_state option" where
  "AuxGroupMember_BuildExtendedPacket x st = build_extended_packet (AuxGroupMember_wire (fst x)) (snd x) st"

definition GroupMember_SetName :: "bytes \<Rightarrow> GroupMember \<times> aux_path \<Rightarrow> GroupMember \<times> aux_path" where
  "GroupMember_SetName v x = check_data (rep_str GroupMember_Name (\<lambda>x d. d\<lparr>GroupMember_Name := x\<rparr>) 0 64 v x)"

definition GroupMember_SetGameID :: "u32 \<Rightarrow> GroupMember \<times> aux_path \<Rightarrow> GroupMember \<times> aux_path" where
  "GroupMember_SetGameID v x = check_data (rep_word GroupMember_GameID (\<lambda>x d. d\<lparr>GroupMember_GameID := x\<rparr>) 1 v x)"

definition GroupMember_SetFormation :: "u32 \<Rightarrow> GroupMember \<times> aux_path \<Rightarrow> GroupMember \<times> aux_path" where
  "GroupMember_SetFormation v x = check_data (rep_word GroupMember_Formation (\<lambda>x d. d\<lparr>GroupMember_Formation := x\<rparr>) 2 v x)"

definition GroupMember_SetPosition :: "u32 \<Rightarrow> GroupMember \<times> aux_path \<Rightarrow> GroupMember \<times> aux_path" where
  "GroupMember_SetPosition v x = check_data (rep_word GroupMember_Position (\<lambda>x d. d\<lparr>GroupMember_Position := x\<rparr>) 3 v x)"

definition AuxGroupMember_SetData :: "GroupMember \<Rightarrow> GroupMember \<times> aux_path \<Rightarrow> GroupMember \<times> aux_path" where
  "AuxGroupMember_SetData d x =
     check_data
      (rep_word GroupMember_Position (\<lambda>x d. d\<lparr>GroupMember_Position := x\<rparr>) 3 (GroupMember_Position d)
       (rep_word GroupMember_Formation (\<lambda>x d. d\<lparr>GroupMember_Formation := x\<rparr>) 2 (GroupMember_Formation d)
       (rep_word GroupMember_GameID (\<lambda>x d. d\<lparr>GroupMember_GameID := x\<rparr>) 1 (GroupMember_GameID d)
       (rep_str GroupMember_Name (\<lambda>x d. d\<lparr>GroupMember_Name := x\<rparr>) 0 64 (GroupMember_Name d) x))))"

definition AuxGroupMember_Clear :: "GroupMember \<times> aux_path \<Rightarrow> GroupMember \<times> aux_path" where
  "AuxGroupMember_Clear x = AuxGroupMember_SetData ClearGroupMember x"

definition AuxGroupMember_ClearFlags :: "GroupMember \<times> aux_path \<Rightarrow> GroupMember \<times> aux_path" where
  "AuxGroupMember_ClearFlags x = (fst x, (case snd x of [] \<Rightarrow> [] | a # up \<Rightarrow> clear_flags a # up))"

definition AuxGroupMember_layout :: "GroupMember layout" where
  "AuxGroupMember_layout =
     [(StrK, \<lambda>b d. d\<lparr>GroupMember_Name := b\<rparr>),
      (RawK 4, \<lambda>b d. d\<lparr>GroupMember_GameID := le_word b\<rparr>),
      (RawK 4, \<lambda>b d. d\<lparr>GroupMember_Formation := le_word b\<rparr>),
      (RawK 4, \<lambda>b d. d\<lparr>GroupMember_Position := le_word b\<rparr>)]"

definition AuxGroupMember_truth :: "nat \<Rightarrow> GroupMember \<Rightarrow> bool" where
  "AuxGroupMember_truth i d =
     ([GroupMember_Name d \<noteq> [],
       GroupMember_GameID d \<noteq> 0,
       GroupMember_Formation d \<noteq> 0,
       GroupMember_Position d \<noteq> 0] ! i)"

definition AuxGroupMember_same :: "nat \<Rightarrow> GroupMember \<Rightarrow> GroupMember \<Rightarrow> bool" where
  "AuxGroupMember_same i d m =
     ([GroupMember_Name d = GroupMember_Name m,
       GroupMember_GameID d = GroupMember_GameID m,
       GroupMember_Formation d = GroupMember_Formation m,
       GroupMember_Position d = GroupMember_Position m] ! i)"

definition GroupMember_ok :: "GroupMember \<Rightarrow> bool" where
  "GroupMember_ok d \<longleftrightarrow> length (GroupMember_Name d) \<le> 63"

lemma GroupMember_len: "length AuxGroupMember_layout = 4"
  by (simp add: AuxGroupMember_layout_def)

interpretation groupMember: aux_class AuxGroupMember_wire AuxGroupMember_layout AuxGroupMember_truth AuxGroupMember_same
  ClearGroupMember GroupMember_ok 1 2
  unfolding aux_class_def GroupMember_len ball_lt
  by (auto simp: AuxGroupMember_wire_def AuxGroupMember_layout_def AuxGroupMember_same_def AuxGroupMember_truth_def ClearGroupMember_def
      GroupMember_ok_def le_words)

lemma GroupMember_lenses:
  "groupMember.lens 0 GroupMember_Name (\<lambda>x d. d\<lparr>GroupMember_Name := x\<rparr>) (\<lambda>x. x \<noteq> [])"
  "groupMember.lens 1 GroupMember_GameID (\<lambda>x d. d\<lparr>GroupMember_GameID := x\<rparr>) (\<lambda>x. x \<noteq> 0)"
  "groupMember.lens 2 GroupMember_Formation (\<lambda>x d. d\<lparr>GroupMember_Formation := x\<rparr>) (\<lambda>x. x \<noteq> 0)"
  "groupMember.lens 3 GroupMember_Position (\<lambda>x d. d\<lparr>GroupMember_Position := x\<rparr>) (\<lambda>x. x \<noteq> 0)"
  unfolding groupMember.lens_def GroupMember_len ball_lt by (simp_all add: AuxGroupMember_truth_def AuxGroupMember_same_def)

lemmas GroupMember_setters = GroupMember_SetName_def GroupMember_SetGameID_def GroupMember_SetFormation_def GroupMember_SetPosition_def
  AuxGroupMember_SetData_def AuxGroupMember_Clear_def

datatype GroupMember_op = GroupMember_op_Name bytes
  | GroupMember_op_GameID u32
  | GroupMember_op_Formation u32
  | GroupMember_op_Position u32
  | GroupMember_op_SetData GroupMember
  | GroupMember_op_Clear

fun GroupMember_do :: "GroupMember_op \<Rightarrow> GroupMember \<times> aux_path \<Rightarrow> GroupMember \<times> aux_path" where
  "GroupMember_do (GroupMember_op_Name v) = GroupMember_SetName v"
| "GroupMember_do (GroupMember_op_GameID v) = GroupMember_SetGameID v"
| "GroupMember_do (GroupMember_op_Formation v) = GroupMember_SetFormation v"
| "GroupMember_do (GroupMember_op_Position v) = GroupMember_SetPosition v"
| "GroupMember_do (GroupMember_op_SetData v) = AuxGroupMember_SetData v"
| "GroupMember_do GroupMember_op_Clear = AuxGroupMember_Clear"

lemma GroupMember_do_in_sync: "groupMember.in_sync m x \<Longrightarrow> groupMember.in_sync m (GroupMember_do op x)"
  by (cases op; simp only: GroupMember_do.simps GroupMember_setters;
      (rule groupMember.check_data_in_sync groupMember.rep_in_sync groupMember.rep_str_in_sync GroupMember_lenses | assumption | simp)+)

lemma GroupMember_do_ok: "GroupMember_ok (fst x) \<Longrightarrow> GroupMember_ok (fst (GroupMember_do op x))"
  by (cases op; simp only: GroupMember_do.simps GroupMember_setters check_data_fst;
      (rule rep_ok [where P = GroupMember_ok] rep_str_ok [where P = GroupMember_ok] | assumption | simp add: GroupMember_ok_def)+)

lemma GroupMember_fits: "GroupMember_ok d \<Longrightarrow> 2 + (\<Sum>f\<leftarrow>AuxGroupMember_wire d. length (wire_bytes f)) \<le> 79"
  by (simp add: AuxGroupMember_wire_def GroupMember_ok_def)

interpretation groupMember_ops: aux_ops AuxGroupMember_wire AuxGroupMember_layout AuxGroupMember_truth AuxGroupMember_same
  ClearGroupMember GroupMember_ok 1 2 GroupMember_do AuxGroupMember_BuildPacket 79
  by unfold_locales
    ((erule GroupMember_do_in_sync | erule GroupMember_do_ok | drule GroupMember_fits, simp | simp add: AuxGroupMember_BuildPacket_def)+)

lemma AuxGroupMember_Init_in_sync: "groupMember.in_sync ClearGroupMember (AuxGroupMember_Init i Parent)"
  unfolding groupMember.in_sync_def GroupMember_len ball_lt
  by (simp add: AuxGroupMember_Init_def Construct_bits aux_wf_def AuxGroupMember_truth_def AuxGroupMember_same_def ClearGroupMember_def
      CheckExtendedFlagBit1_def CheckExtendedFlagBit2_def CheckAuxBit_def)

lemma GroupMember_Init_ok: "GroupMember_ok (fst (AuxGroupMember_Init MemberIndex Parent))"
  by (simp add: AuxGroupMember_Init_def ClearGroupMember_def GroupMember_ok_def)

lemma AuxGroupMember_delta_sync:
  "\<exists>x m. aux_rounds GroupMember_do AuxGroupMember_BuildPacket AuxGroupMember_layout 1 79 batches
        (AuxGroupMember_Init MemberIndex Parent) ClearGroupMember = Some (x, m) \<and>
     (\<forall>i < 4. AuxGroupMember_same i (fst x) m)"
proof -
  have "\<forall>i < 4. AuxGroupMember_same i (fst (AuxGroupMember_Init MemberIndex Parent)) ClearGroupMember"
    unfolding ball_lt by (simp add: AuxGroupMember_Init_def AuxGroupMember_same_def)
  then show ?thesis
    using groupMember_ops.rounds_sync [OF AuxGroupMember_Init_in_sync GroupMember_Init_ok] by (simp add: GroupMember_len)
qed

lemma AuxGroupMember_snapshot:
  "\<exists>buf n m. AuxGroupMember_BuildExtendedPacket (fold GroupMember_do ops (AuxGroupMember_Init MemberIndex Parent)) (replicate 79 0, 0) =
       Some (buf, n) \<and>
     read_object 2 AuxGroupMember_layout (take n buf) ClearGroupMember = Some (m, []) \<and>
     (\<forall>i < 4. AuxGroupMember_same i (fst (fold GroupMember_do ops (AuxGroupMember_Init MemberIndex Parent))) m)"
  using groupMember_ops.snapshot_sync [OF AuxGroupMember_Init_in_sync GroupMember_Init_ok]
  by (simp add: AuxGroupMember_BuildExtendedPacket_def GroupMember_len)

end
