(* ===== verification/AuxGroupInfo.thy ===== *)
theory AuxGroupInfo
  imports AuxGroupMember
begin

text \<open>
  The group block of a player's state: \<^verbatim>\<open>AuxGroupMembers\<close> (five members) inside
  \<^verbatim>\<open>AuxGroupInfo\<close> (\<^verbatim>\<open>server/src/AuxClasses\<close>). Both are composite objects: a change of a
  member marks the member, the member block, the group block and the ancestors of the
  group block (the \<open>up\<close> part of the state).
\<close>

section \<open>State\<close>

record GroupInfoData =
  IsGroupLeader :: bool
  LookingForGroup :: bool
  AllowGroupInvite :: bool
  ShowNonCombatantActivities :: bool
  ForceAutoSplit :: bool
  RestrictedLootingRights :: bool
  AutoReleaseLootingRights :: bool
  FormationName :: bytes
  Formation :: u32
  Position :: u32

text \<open>The struct \<^verbatim>\<open>_GroupInfo\<close>: the block above and the five members.\<close>

record GroupInfoStruct =
  gs_Data :: GroupInfoData
  gs_Members :: "GroupMember list"

record GroupInfo =
  gi_Data :: GroupInfoData
  gi_aux :: aux
  gi_Members_aux :: aux
  gi_Member :: "(GroupMember \<times> aux) list"

type_synonym aux_group_info = "GroupInfo \<times> aux_path"

definition AuxGroupMembers_aux :: aux where
  "AuxGroupMembers_aux = Construct [0, 0] [0x06, 0x3E] 5 10 (Some [0xF0, 0x01])"

definition AuxGroupInfo_Init :: "nat \<Rightarrow> aux_path \<Rightarrow> aux_group_info" where
  "AuxGroupInfo_Init MemberIndex Parent =
     (\<lparr>gi_Data = \<lparr>IsGroupLeader = False, LookingForGroup = False, AllowGroupInvite = True,
                  ShowNonCombatantActivities = True, ForceAutoSplit = True, RestrictedLootingRights = False,
                  AutoReleaseLootingRights = False, FormationName = [], Formation = 0, Position = 0\<rparr>,
       gi_aux = Construct [0, 0] [0xF6, 0x07, 0xC0, 0x03] 11 MemberIndex None,
       gi_Members_aux = AuxGroupMembers_aux,
       gi_Member = map (\<lambda>i. (ClearGroupMember, hd (snd (AuxGroupMember_Init i [])))) [0..<5]\<rparr>, Parent)"

text \<open>An operation on the group block itself, and on one member, with the right path.\<close>

definition on_info ::
    "(GroupInfoData \<times> aux_path \<Rightarrow> GroupInfoData \<times> aux_path) \<Rightarrow> aux_group_info \<Rightarrow> aux_group_info" where
  "on_info f x =
     (let (d, path) = f (gi_Data (fst x), gi_aux (fst x) # snd x)
      in ((fst x)\<lparr>gi_Data := d, gi_aux := hd path\<rparr>, tl path))"

definition on_member ::
    "nat \<Rightarrow> (GroupMember \<times> aux_path \<Rightarrow> GroupMember \<times> aux_path) \<Rightarrow> aux_group_info \<Rightarrow> aux_group_info" where
  "on_member i f x =
     (let g = fst x;
          (d, path) = f (fst (gi_Member g ! i), snd (gi_Member g ! i) # gi_Members_aux g # gi_aux g # snd x)
      in (g\<lparr>gi_Member := (gi_Member g)[i := (d, path ! 0)], gi_Members_aux := path ! 1, gi_aux := path ! 2\<rparr>,
          drop 3 path))"

section \<open>AuxGroupMembers\<close>

definition AuxGroupMembers_CheckData :: "aux_group_info \<Rightarrow> aux_group_info" where
  "AuxGroupMembers_CheckData x =
     (let path = CheckData (gi_Members_aux (fst x) # gi_aux (fst x) # snd x)
      in ((fst x)\<lparr>gi_Members_aux := path ! 0, gi_aux := path ! 1\<rparr>, drop 2 path))"

definition AuxGroupMembers_SetData :: "GroupMember list \<Rightarrow> aux_group_info \<Rightarrow> aux_group_info" where
  "AuxGroupMembers_SetData NewData x =
     AuxGroupMembers_CheckData (fold (\<lambda>i. on_member i (AuxGroupMember_SetData (NewData ! i))) [0..<5] x)"

definition AuxGroupMembers_Clear :: "aux_group_info \<Rightarrow> aux_group_info" where
  "AuxGroupMembers_Clear x = fold (\<lambda>i. on_member i AuxGroupMember_Clear) [0..<5] x"

definition AuxGroupMembers_ClearFlags :: "GroupInfo \<Rightarrow> GroupInfo" where
  "AuxGroupMembers_ClearFlags g =
     g\<lparr>gi_Members_aux := clear_flags (gi_Members_aux g),
       gi_Member := map (\<lambda>(d, a). (d, clear_flags a)) (gi_Member g)\<rparr>"

fun members_packet :: "bytes \<Rightarrow> nat \<Rightarrow> (GroupMember \<times> aux) list \<Rightarrow> packet_state \<Rightarrow>
    (packet_state \<times> (GroupMember \<times> aux) list) option" where
  "members_packet flags i [] st = Some (st, [])"
| "members_packet flags i ((d, a) # ms) st = do {
     (st', m') \<leftarrow> (if CheckAuxBit flags i
                   then map_option (\<lambda>(s, x). (s, (fst x, hd (snd x)))) (AuxGroupMember_BuildPacket (d, [a]) st)
                   else Some (st, (d, a)));
     (st'', ms') \<leftarrow> members_packet flags (Suc i) ms st';
     Some (st'', m' # ms')
   }"

definition AuxGroupMembers_BuildPacket :: "GroupInfo \<Rightarrow> packet_state \<Rightarrow> (packet_state \<times> GroupInfo) option" where
  "AuxGroupMembers_BuildPacket g st = do {
     let a = gi_Members_aux g;
     st' \<leftarrow> AddFlags a (m_Flags a) st;
     (st'', ms) \<leftarrow> members_packet (m_Flags a) 0 (gi_Member g) st';
     Some (st'', g\<lparr>gi_Member := ms, gi_Members_aux := clear_flags a\<rparr>)
   }"

fun members_extended_packet :: "aux \<Rightarrow> nat \<Rightarrow> (GroupMember \<times> aux) list \<Rightarrow> packet_state \<Rightarrow> packet_state option" where
  "members_extended_packet a i [] st = Some st"
| "members_extended_packet a i ((d, b) # ms) st = do {
     st' \<leftarrow> (if CheckExtendedFlagBit1 a i then AuxGroupMember_BuildExtendedPacket (d, [b]) st
             else if CheckExtendedFlagBit2 a i then Aux_AddData a [0x05] st
             else Some st);
     members_extended_packet a (Suc i) ms st'
   }"

definition AuxGroupMembers_BuildExtendedPacket :: "GroupInfo \<Rightarrow> packet_state \<Rightarrow> packet_state option" where
  "AuxGroupMembers_BuildExtendedPacket g st = do {
     let a = gi_Members_aux g;
     st' \<leftarrow> AddFlags a (m_ExtendedFlags a) st;
     members_extended_packet a 0 (gi_Member g) st'
   }"

section \<open>AuxGroupInfo\<close>

definition AuxGroupInfo_wire :: "GroupInfoData \<Rightarrow> wire_field list" where
  "AuxGroupInfo_wire d =
     [Raw [of_bool (IsGroupLeader d)], Raw [of_bool (LookingForGroup d)], Raw [of_bool (AllowGroupInvite d)],
      Raw [of_bool (ShowNonCombatantActivities d)], Raw [of_bool (ForceAutoSplit d)],
      Raw [of_bool (RestrictedLootingRights d)], Raw [of_bool (AutoReleaseLootingRights d)],
      Str (FormationName d), Raw (le_bytes 4 (Formation d)), Raw (le_bytes 4 (Position d))]"

definition AuxGroupInfo_BuildPacket :: "GroupInfo \<Rightarrow> packet_state \<Rightarrow> (packet_state \<times> GroupInfo) option" where
  "AuxGroupInfo_BuildPacket g st = do {
     let a = gi_aux g;
     st' \<leftarrow> add_object a (m_Flags a) (AuxGroupInfo_wire (gi_Data g)) st;
     (st'', g') \<leftarrow> (if CheckAuxBit (m_Flags a) 10 then AuxGroupMembers_BuildPacket g st' else Some (st', g));
     Some (st'', g'\<lparr>gi_aux := clear_flags a\<rparr>)
   }"

text \<open>
  The last test of \<^verbatim>\<open>BuildExtendedPacket\<close> looks at bit \<^verbatim>\<open>0x80\<close> of byte 3, which is not the second
  extended flag of the member block (that is bit \<^verbatim>\<open>0x02\<close> of byte 3).
\<close>

definition AuxGroupInfo_BuildExtendedPacket :: "GroupInfo \<Rightarrow> packet_state \<Rightarrow> packet_state option" where
  "AuxGroupInfo_BuildExtendedPacket g st = do {
     let a = gi_aux g;
     st' \<leftarrow> add_object a (m_ExtendedFlags a) (AuxGroupInfo_wire (gi_Data g)) st;
     if CheckAuxBit (m_ExtendedFlags a) 10 then AuxGroupMembers_BuildExtendedPacket g st'
     else if (m_ExtendedFlags a ! 3) AND 0x80 \<noteq> 0 then Aux_AddData a [0x05] st'
     else Some st'
   }"

definition SetIsGroupLeader :: "bool \<Rightarrow> aux_group_info \<Rightarrow> aux_group_info" where
  "SetIsGroupLeader v = on_info (rep_bool IsGroupLeader (\<lambda>x d. d\<lparr>IsGroupLeader := x\<rparr>) 0 v)"

definition SetLookingForGroup :: "bool \<Rightarrow> aux_group_info \<Rightarrow> aux_group_info" where
  "SetLookingForGroup v = on_info (rep_bool LookingForGroup (\<lambda>x d. d\<lparr>LookingForGroup := x\<rparr>) 1 v)"

definition SetAllowGroupInvite :: "bool \<Rightarrow> aux_group_info \<Rightarrow> aux_group_info" where
  "SetAllowGroupInvite v = on_info (rep_bool AllowGroupInvite (\<lambda>x d. d\<lparr>AllowGroupInvite := x\<rparr>) 2 v)"

definition SetShowNonCombatantActivities :: "bool \<Rightarrow> aux_group_info \<Rightarrow> aux_group_info" where
  "SetShowNonCombatantActivities v =
     on_info (rep_bool ShowNonCombatantActivities (\<lambda>x d. d\<lparr>ShowNonCombatantActivities := x\<rparr>) 3 v)"

definition SetForceAutoSplit :: "bool \<Rightarrow> aux_group_info \<Rightarrow> aux_group_info" where
  "SetForceAutoSplit v = on_info (rep_bool ForceAutoSplit (\<lambda>x d. d\<lparr>ForceAutoSplit := x\<rparr>) 4 v)"

definition SetRestrictedLootingRights :: "bool \<Rightarrow> aux_group_info \<Rightarrow> aux_group_info" where
  "SetRestrictedLootingRights v =
     on_info (rep_bool RestrictedLootingRights (\<lambda>x d. d\<lparr>RestrictedLootingRights := x\<rparr>) 5 v)"

definition SetAutoReleaseLootingRights :: "bool \<Rightarrow> aux_group_info \<Rightarrow> aux_group_info" where
  "SetAutoReleaseLootingRights v =
     on_info (rep_bool AutoReleaseLootingRights (\<lambda>x d. d\<lparr>AutoReleaseLootingRights := x\<rparr>) 6 v)"

definition SetFormationName :: "bytes \<Rightarrow> aux_group_info \<Rightarrow> aux_group_info" where
  "SetFormationName v = on_info (rep_str FormationName (\<lambda>x d. d\<lparr>FormationName := x\<rparr>) 7 64 v)"

definition GroupInfo_SetFormation :: "u32 \<Rightarrow> aux_group_info \<Rightarrow> aux_group_info" where
  "GroupInfo_SetFormation v = on_info (rep_word Formation (\<lambda>x d. d\<lparr>Formation := x\<rparr>) 8 v)"

definition GroupInfo_SetPosition :: "u32 \<Rightarrow> aux_group_info \<Rightarrow> aux_group_info" where
  "GroupInfo_SetPosition v = on_info (rep_word Position (\<lambda>x d. d\<lparr>Position := x\<rparr>) 9 v)"

definition AuxGroupInfo_SetData :: "GroupInfoStruct \<Rightarrow> bool \<Rightarrow> aux_group_info \<Rightarrow> aux_group_info" where
  "AuxGroupInfo_SetData NewData group_only x =
     (let n = gs_Data NewData;
          x1 = SetIsGroupLeader (IsGroupLeader n) x;
          x2 = (if \<not> group_only
                then SetShowNonCombatantActivities (ShowNonCombatantActivities n)
                      (SetAllowGroupInvite (AllowGroupInvite n) (SetLookingForGroup (LookingForGroup n) x1))
                else x1);
          x3 = SetAutoReleaseLootingRights (AutoReleaseLootingRights n)
                (SetRestrictedLootingRights (RestrictedLootingRights n) (SetForceAutoSplit (ForceAutoSplit n) x2));
          x4 = GroupInfo_SetPosition (Position n)
                (GroupInfo_SetFormation (Formation n) (SetFormationName (FormationName n) x3))
      in AuxGroupMembers_SetData (gs_Members NewData) x4)"

definition AuxGroupInfo_ClearFlags :: "GroupInfo \<Rightarrow> GroupInfo" where
  "AuxGroupInfo_ClearFlags g = AuxGroupMembers_ClearFlags (g\<lparr>gi_aux := clear_flags (gi_aux g)\<rparr>)"

section \<open>Properties\<close>

lemma add_object_eq:
  assumes "room a st (length (fl @ fields_bytes fl 0 fs))"
  shows "add_object a fl fs st = map_option (\<lambda>p. (p, snd st + length (fl @ fields_bytes fl 0 fs)))
           (poke (fst st) (snd st) (fl @ fields_bytes fl 0 fs))"
  using add_object_appended [OF assms] by (auto simp: appended_def)

text \<open>
  The empty member block is never announced. A freshly initialised group block has the
  second extended flag of its members set, but its extended packet ends after the seven
  booleans: the marker byte \<^verbatim>\<open>0x05\<close> that stands for an empty child is not sent, because the test
  looks at bit \<^verbatim>\<open>0x80\<close> of byte 3 instead of \<^verbatim>\<open>0x02\<close>. (A member block sends the marker for each of
  its five empty members.)
\<close>

theorem GroupInfo_empty_members_unmarked:
  "CheckExtendedFlagBit2 (gi_aux (fst (AuxGroupInfo_Init i Parent))) 10 \<and>
   map_option (\<lambda>(b, n). take n b) (AuxGroupInfo_BuildExtendedPacket (fst (AuxGroupInfo_Init i Parent)) (replicate 12 0, 0)) =
     Some [0xF6, 0x07, 0xC0, 0x03, 0, 0, 1, 1, 1, 0, 0] \<and>
   map_option (\<lambda>(b, n). take n b) (AuxGroupMembers_BuildExtendedPacket (fst (AuxGroupInfo_Init i Parent)) (replicate 12 0, 0)) =
     Some [0x06, 0x3E, 5, 5, 5, 5, 5]"
  by code_simp

end
