(* ===== verification/GroupManager.thy ===== *)
theory GroupManager
  imports AuxGroupInfo
begin

text \<open>
  Player groups and formations: \<^verbatim>\<open>server/src/GroupManager.cpp\<close>, the struct \<^verbatim>\<open>Group\<close> of
  \<^verbatim>\<open>PlayerManager.h\<close>. The group list is the linked list \<^verbatim>\<open>m_GroupList\<close>, in order; a
  pointer to a group is the id of the group, a pointer to a player the index of the player.
  \<open>find_player\<close> is the result of \<^verbatim>\<open>PlayerManager::GetPlayer\<close> on the current player tables
  (theory PlayerNodes), \<open>RangeFrom\<close> the float a call of \<^verbatim>\<open>Object::RangeFrom\<close> returns and
  \<open>PlayerInRangeList\<close> the bit of the first player's range list; no operation here changes them. What is sent to clients or to other
  subsystems goes to an event log. \<open>fault\<close> records undefined behaviour: an access to a
  deleted group, through a null player or outside an array.
\<close>

section \<open>Floats\<close>

definition f_key :: "f32 \<Rightarrow> int" where
  "f_key x = (if bit x 31 then - uint (x AND 0x7FFFFFFF) else uint x)"

definition f_less :: "f32 \<Rightarrow> f32 \<Rightarrow> bool" where
  "f_less x y \<longleftrightarrow> \<not> f_nan x \<and> \<not> f_nan y \<and> f_key x < f_key y"

definition f_40000 :: f32 where "f_40000 = 0x471C4000"
definition f_5000 :: f32 where "f_5000 = 0x459C4000"

section \<open>State\<close>

definition asc :: "string \<Rightarrow> bytes" where
  "asc s = map of_char s"

record Group =
  GroupID :: s32
  g_ForceAutoSplit :: bool
  g_RestrictedLootingRights :: bool
  g_AutoReleaseLootingRights :: bool
  g_FormationName :: bytes
  Member :: "GroupMember list"
  AcceptedInvite :: "bool list"
  NextLooter :: s32
  SavedFormation :: clong

datatype gevent =
    VaMessage nat string "bytes list"
  | SendAuxPlayer nat
  | SendOpcode nat nat bytes
  | SendClickPacketTo nat nat
  | SendClientChatEvent nat nat bytes
  | SendPriorityMessageString nat string
  | SendLocationAndSpeed nat
  | SendFormationPositionalUpdate nat clong clong "int \<times> int \<times> int"
  | SendAdvancedPositionalUpdate nat clong nat
  | SendContrailsRL nat bool
  | TerminateWarp nat
  | SetStargateDestination nat clong
  | SectorServerHandoff nat clong
  | ArmGateReform nat
  | SaveDiscoverNav nat nat
  | SaveExploreNav nat nat
  | SendObject nat nat
  | SendNavigation nat nat
  | AddGroupRacialBuff nat nat nat

record gplayer =
  p_GameID :: clong
  p_Name :: bytes
  p_GroupID :: clong
  p_AcceptedGroupInvite :: bool
  p_Group :: "s32 option"
  p_Confirmation :: s32
  p_SectorNum :: u32
  p_IsIncapacitated :: bool
  p_Active :: bool
  p_WarpDrive :: bool
  p_HasSectorManager :: bool
  p_CombatLevel :: u32
  p_ClassIndex :: nat
  p_ExposedNavList :: "clong list"
  p_ExploredNavList :: "clong list"
  p_GroupInfo :: aux_group_info

record gworld =
  m_GroupList :: "Group list"
  m_NextGroup :: clong
  players :: "gplayer list"
  find_player :: "clong \<Rightarrow> nat option"
  RangeFrom :: "nat \<Rightarrow> nat \<Rightarrow> f32"
  PlayerInRangeList :: "nat \<Rightarrow> nat \<Rightarrow> bool"
  event_log :: "gevent list"
  fault :: bool

definition emit :: "gevent \<Rightarrow> gworld \<Rightarrow> gworld" where
  "emit e w = w\<lparr>event_log := event_log w @ [e]\<rparr>"

definition set_fault :: "gworld \<Rightarrow> gworld" where
  "set_fault w = w\<lparr>fault := True\<rparr>"

definition on_player :: "nat \<Rightarrow> (gplayer \<Rightarrow> gplayer) \<Rightarrow> gworld \<Rightarrow> gworld" where
  "on_player i f w = w\<lparr>players := (players w)[i := f (players w ! i)]\<rparr>"

abbreviation player :: "gworld \<Rightarrow> nat \<Rightarrow> gplayer" where
  "player w i \<equiv> players w ! i"

text \<open>Access to a group through a pointer: the group may have been deleted.\<close>

definition group_at :: "gworld \<Rightarrow> s32 \<Rightarrow> Group option" where
  "group_at w gid = find (\<lambda>g. GroupID g = gid) (m_GroupList w)"

definition on_group :: "s32 \<Rightarrow> (Group \<Rightarrow> Group) \<Rightarrow> gworld \<Rightarrow> gworld" where
  "on_group gid f w =
     (if group_at w gid = None then set_fault w
      else w\<lparr>m_GroupList := map (\<lambda>g. if GroupID g = gid then f g else g) (m_GroupList w)\<rparr>)"

abbreviation member_id :: "Group \<Rightarrow> nat \<Rightarrow> clong" where
  "member_id g i \<equiv> ucast (GroupMember_GameID (Member g ! i))"

definition set_member :: "nat \<Rightarrow> (GroupMember \<Rightarrow> GroupMember) \<Rightarrow> Group \<Rightarrow> Group" where
  "set_member i f g = g\<lparr>Member := (Member g)[i := f (Member g ! i)]\<rparr>"

definition set_GroupID :: "clong \<Rightarrow> bool \<Rightarrow> gplayer \<Rightarrow> gplayer" where
  "set_GroupID gid accepted p = p\<lparr>p_GroupID := gid, p_AcceptedGroupInvite := accepted\<rparr>"

definition on_info_of :: "(aux_group_info \<Rightarrow> aux_group_info) \<Rightarrow> gplayer \<Rightarrow> gplayer" where
  "on_info_of f p = p\<lparr>p_GroupInfo := f (p_GroupInfo p)\<rparr>"

section \<open>The group list\<close>

definition GetGroupFromID :: "gworld \<Rightarrow> s32 \<Rightarrow> s32 option" where
  "GetGroupFromID w gid =
     (if gid = -1 then None else map_option GroupID (group_at w gid))"

definition GetMemberID :: "gworld \<Rightarrow> s32 \<Rightarrow> nat \<Rightarrow> clong" where
  "GetMemberID w gid MemberIndex =
     (case GetGroupFromID w gid of None \<Rightarrow> 0
      | Some _ \<Rightarrow> (case group_at w gid of None \<Rightarrow> 0 | Some g \<Rightarrow> member_id g MemberIndex))"

fun remove_group :: "s32 \<Rightarrow> Group list \<Rightarrow> Group list" where
  "remove_group gid [] = []"
| "remove_group gid (g # gs) = (if GroupID g = gid then gs else g # remove_group gid gs)"

definition RemoveGroup :: "s32 \<Rightarrow> gworld \<Rightarrow> gworld" where
  "RemoveGroup gid w = w\<lparr>m_GroupList := remove_group gid (m_GroupList w)\<rparr>"

definition count_members :: "Group \<Rightarrow> nat" where
  "count_members g = length (filter (\<lambda>m. GroupMember_GameID m \<noteq> -1) (take 6 (Member g)))"

definition GetMemberCount :: "gworld \<Rightarrow> s32 option \<Rightarrow> nat" where
  "GetMemberCount w myGroup =
     (case myGroup of None \<Rightarrow> 0
      | Some gid \<Rightarrow> (case group_at w gid of None \<Rightarrow> 0 | Some g \<Rightarrow> count_members g))"

definition GetMembersInXPRange :: "gworld \<Rightarrow> nat \<Rightarrow> s32 option \<Rightarrow> nat" where
  "GetMembersInXPRange w p myGroup =
     (case Option.bind myGroup (group_at w) of None \<Rightarrow> 1
      | Some g \<Rightarrow>
          1 + length (filter (\<lambda>i.
            GroupMember_GameID (Member g ! i) \<noteq> -1 \<and> member_id g i \<noteq> p_GameID (player w p) \<and>
            (case find_player w (member_id g i) of None \<Rightarrow> False
             | Some q \<Rightarrow> p_SectorNum (player w p) = p_SectorNum (player w q) \<and>
                         f_less (RangeFrom w p q) f_40000)) [0..<6]))"

definition CheckGrouped :: "gworld \<Rightarrow> nat option \<Rightarrow> nat option \<Rightarrow> bool" where
  "CheckGrouped w p1 p2 =
     (case (p1, p2) of
        (Some i, Some j) \<Rightarrow>
          p_GroupID (player w i) = p_GroupID (player w j) \<and> p_GroupID (player w i) \<noteq> -1 \<and>
          p_AcceptedGroupInvite (player w i) \<and> p_AcceptedGroupInvite (player w j)
      | _ \<Rightarrow> False)"

definition CheckGroupFormation :: "gworld \<Rightarrow> nat option \<Rightarrow> bool" where
  "CheckGroupFormation w p =
     (case p of None \<Rightarrow> False
      | Some i \<Rightarrow>
          if p_GroupID (player w i) = -1 then False
          else (case GetGroupFromID w (ucast (p_GroupID (player w i))) of None \<Rightarrow> False
                | Some gid \<Rightarrow> (case group_at w gid of None \<Rightarrow> False
                    | Some g \<Rightarrow> list_ex (\<lambda>x. member_id g x = p_GameID (player w i) \<and>
                                          GroupMember_Position (Member g ! x) \<noteq> -1) [0..<6])))"

section \<open>What a client sees\<close>

definition SendEmptyGroupAux :: "clong \<Rightarrow> gworld \<Rightarrow> gworld" where
  "SendEmptyGroupAux PlayerID w =
     (case find_player w PlayerID of None \<Rightarrow> w
      | Some p \<Rightarrow>
          (let w1 = (if p_GroupID (player w p) \<noteq> -1 then emit (VaMessage p ''You have left the group'' []) w else w);
               w2 = on_player p (set_GroupID (-1) False) w1;
               w3 = on_player p (on_info_of AuxGroupMembers_Clear) w2;
               w4 = on_player p (on_info_of (SetIsGroupLeader False)) w3;
               w5 = on_player p (on_info_of (SetShowNonCombatantActivities True)) w4
           in emit (SendAuxPlayer p) w5))"

text \<open>
  \<^verbatim>\<open>SetGroupInfoMembersFromGroup\<close>: the loop over the six slots with its running offset. A
  write outside the five members of the info block is a fault.
\<close>

fun info_members_loop :: "Group \<Rightarrow> nat \<Rightarrow> nat list \<Rightarrow> nat \<Rightarrow> GroupInfoStruct \<Rightarrow> GroupInfoStruct option" where
  "info_members_loop g MemberIndex [] offset info = Some info"
| "info_members_loop g MemberIndex (i # is) offset info =
     (if i = MemberIndex
      then info_members_loop g MemberIndex is (offset + 1)
             (info\<lparr>gs_Data := (gs_Data info)\<lparr>Formation := GroupMember_Formation (Member g ! i),
                                             Position := GroupMember_Position (Member g ! i)\<rparr>\<rparr>)
      else if \<not> AcceptedInvite g ! i then info_members_loop g MemberIndex is (offset + 1) info
      else if offset \<le> i \<and> i - offset < length (gs_Members info)
      then info_members_loop g MemberIndex is offset
             (info\<lparr>gs_Members := (gs_Members info)[i - offset := Member g ! i]\<rparr>)
      else None)"

definition SetGroupInfoMembersFromGroup :: "GroupInfoStruct \<Rightarrow> Group \<Rightarrow> nat \<Rightarrow> GroupInfoStruct option" where
  "SetGroupInfoMembersFromGroup myGroupInfo g MemberIndex =
     info_members_loop g MemberIndex [0..<6] 0 myGroupInfo"

text \<open>The struct \<^verbatim>\<open>_GroupInfo\<close> after \<^verbatim>\<open>memset\<close>, with the group's loot settings.\<close>

definition zero_info :: "Group \<Rightarrow> GroupInfoStruct" where
  "zero_info g =
     \<lparr>gs_Data = \<lparr>IsGroupLeader = False, LookingForGroup = False, AllowGroupInvite = False,
                 ShowNonCombatantActivities = False, ForceAutoSplit = g_ForceAutoSplit g,
                 RestrictedLootingRights = g_RestrictedLootingRights g,
                 AutoReleaseLootingRights = g_AutoReleaseLootingRights g, FormationName = [],
                 Formation = 0, Position = 0\<rparr>,
      gs_Members = replicate 5 ClearGroupMember\<rparr>"

definition BreakFormation_members :: "s32 \<Rightarrow> gworld \<Rightarrow> gworld" where
  "BreakFormation_members gid w =
     fold (\<lambda>i w.
        case find_player w (GetMemberID w gid i) of None \<Rightarrow> w
        | Some p \<Rightarrow>
            (let w1 = on_group gid (set_member i (\<lambda>m. m\<lparr>GroupMember_Formation := 0, GroupMember_Position := -1\<rparr>)) w;
                 w2 = emit (VaMessage p ''Break formation initiated.'' []) w1;
                 w3 = on_player p (on_info_of (GroupInfo_SetFormation 0)) w2;
                 w4 = on_player p (on_info_of (SetFormationName [])) w3;
                 w5 = on_player p (on_info_of (GroupInfo_SetPosition (-1))) w4;
                 w6 = emit (SendAuxPlayer p) w5
             in if i \<noteq> 0 then emit (SendLocationAndSpeed p) w6 else w6)) [0..<6] w"

definition BreakFormation :: "clong \<Rightarrow> gworld \<Rightarrow> bool \<times> gworld" where
  "BreakFormation leaderID w =
     (case find_player w leaderID of None \<Rightarrow> (False, w)
      | Some p \<Rightarrow>
          (let groupid = ucast (p_GroupID (player w p))
           in case GetGroupFromID w groupid of None \<Rightarrow> (False, w)
              | Some gid \<Rightarrow>
                  (case group_at w gid of None \<Rightarrow> (False, w)
                   | Some g \<Rightarrow>
                       if member_id g 0 \<noteq> leaderID then (False, w)
                       else (True, BreakFormation_members groupid
                               (on_group gid (\<lambda>g. g\<lparr>g_FormationName := [], SavedFormation := 0\<rparr>) w)))))"

definition DisbanGroup_ptr :: "s32 \<Rightarrow> gworld \<Rightarrow> gworld" where
  "DisbanGroup_ptr gid w =
     (case group_at w gid of None \<Rightarrow> set_fault w
      | Some g \<Rightarrow>
          (let w1 = fold (\<lambda>i w. if GroupMember_GameID (Member g ! i) \<noteq> -1
                                then SendEmptyGroupAux (member_id g i) w else w) [0..<6] w;
               w2 = snd (BreakFormation (member_id g 0) w1)
           in RemoveGroup gid w2))"

definition DisbanGroup :: "s32 \<Rightarrow> clong \<Rightarrow> gworld \<Rightarrow> gworld" where
  "DisbanGroup gid PlayerID w =
     (case Option.bind (GetGroupFromID w gid) (group_at w) of None \<Rightarrow> w
      | Some g \<Rightarrow>
          if member_id g 0 \<noteq> PlayerID \<and> find_player w PlayerID = None then w
          else (let w1 = (if member_id g 0 \<noteq> PlayerID
                          then emit (VaMessage (the (find_player w PlayerID)) ''You are not the leader!'' []) w
                          else w)
                in DisbanGroup_ptr gid (snd (BreakFormation (member_id g 0) w1))))"

text \<open>
  \<^verbatim>\<open>SendAuxToGroup\<close>: the info block is cleared once, before the loop over the members.
\<close>

fun send_aux_loop :: "s32 \<Rightarrow> Group \<Rightarrow> nat list \<Rightarrow> GroupInfoStruct \<Rightarrow> gworld \<Rightarrow> gworld" where
  "send_aux_loop gid g [] info w = w"
| "send_aux_loop gid g (i # is) info w =
     (case find_player w (member_id g i) of None \<Rightarrow> send_aux_loop gid g is info w
      | Some p \<Rightarrow>
          (case SetGroupInfoMembersFromGroup info g i of None \<Rightarrow> set_fault w
           | Some info' \<Rightarrow>
               (let w1 = on_player p (set_GroupID (scast (GroupID g)) True) w;
                    w2 = on_player p (on_info_of (AuxGroupInfo_SetData info' True)) w1;
                    w3 = on_player p (on_info_of (SetIsGroupLeader (i = 0))) w2;
                    w4 = on_player p (on_info_of (GroupInfo_SetFormation
                           (if GroupMember_Position (Member g ! i) \<noteq> -1
                            then GroupMember_Formation (Member g ! i) else 0))) w3;
                    w5 = on_player p (on_info_of (SetFormationName (g_FormationName g))) w4;
                    w6 = on_player p (on_info_of (GroupInfo_SetPosition (GroupMember_Position (Member g ! i)))) w5
                in send_aux_loop gid g is info' (emit (SendAuxPlayer p) w6))))"

definition SendAuxToGroup :: "s32 \<Rightarrow> gworld \<Rightarrow> gworld" where
  "SendAuxToGroup gid w =
     (case group_at w gid of None \<Rightarrow> set_fault w
      | Some g \<Rightarrow>
          if count_members g < 2 then DisbanGroup_ptr gid w
          else send_aux_loop gid g [0..<count_members g] (zero_info g) w)"

definition SendClickToGroup :: "s32 \<Rightarrow> nat \<Rightarrow> gworld \<Rightarrow> gworld" where
  "SendClickToGroup gid from w =
     (case group_at w gid of None \<Rightarrow> set_fault w
      | Some g \<Rightarrow>
          fold (\<lambda>i w. if GroupMember_GameID (Member g ! i) \<noteq> -1
                      then (case find_player w (member_id g i) of None \<Rightarrow> w
                            | Some p \<Rightarrow> if p \<noteq> from \<and> p_SectorNum (player w p) = p_SectorNum (player w from)
                                        then emit (SendClickPacketTo from p) w else w)
                      else w) [0..<6] w)"


section \<open>Invitations\<close>

definition invite_text :: "Group \<Rightarrow> bytes" where
  "invite_text g = GroupMember_Name (Member g ! 0) @ asc '' is requesting you to join their group''"

text \<open>
  \<^verbatim>\<open>SendGroupInvite\<close> copies the text behind a three byte header into an 80 byte buffer
  (a fault when it does not fit); the opcode is 0x001E.
\<close>

definition SendGroupInvite :: "Group \<Rightarrow> nat \<Rightarrow> gworld \<Rightarrow> gworld" where
  "SendGroupInvite g p w =
     (let msg = take 127 (invite_text g);
          buffer = le_bytes 2 (of_nat (length msg + 1) :: s16) @ [0x01] @ msg @ [0];
          w1 = (if 80 < length buffer then set_fault w else w)
      in on_player p (\<lambda>x. x\<lparr>p_Confirmation := 1\<rparr>) (emit (SendOpcode p 0x001E buffer) w1))"

text \<open>The last slot from 1 to 5 that holds the player.\<close>

definition invited_slot :: "Group \<Rightarrow> clong \<Rightarrow> nat option" where
  "invited_slot g PlayerID =
     map_option Suc (last_index (\<lambda>m. ucast (GroupMember_GameID m) = PlayerID) (take 5 (drop 1 (Member g))))"

definition RejectGroupInvite :: "s32 \<Rightarrow> clong \<Rightarrow> gworld \<Rightarrow> gworld" where
  "RejectGroupInvite gid PlayerID w =
     (case Option.bind (GetGroupFromID w gid) (group_at w) of None \<Rightarrow> w
      | Some g \<Rightarrow>
          (case invited_slot g PlayerID of None \<Rightarrow> w
           | Some MemberIndex \<Rightarrow>
               (case find_player w PlayerID of None \<Rightarrow> w
                | Some p \<Rightarrow>
                    (let w1 = on_player p (set_GroupID (-1) False) w
                     in case find_player w (member_id g 0) of None \<Rightarrow> w1
                        | Some leader \<Rightarrow>
                            (let w2 = emit (VaMessage leader ''%s has rejected your group invitation.''
                                             [GroupMember_Name (Member g ! MemberIndex)]) w1;
                                 w3 = on_group gid (set_member MemberIndex (\<lambda>_. ClearGroupMember\<lparr>GroupMember_GameID := -1\<rparr>)) w2
                             in if \<not> AcceptedInvite g ! 0
                                then RemoveGroup gid (on_player leader (set_GroupID (-1) False) w3)
                                else w3)))))"

definition new_Group :: "clong \<Rightarrow> Group" where
  "new_Group next_id =
     \<lparr>GroupID = ucast next_id, g_ForceAutoSplit = True, g_RestrictedLootingRights = False,
      g_AutoReleaseLootingRights = False, g_FormationName = [], Member = replicate 6 ClearGroupMember,
      AcceptedInvite = replicate 6 False, NextLooter = 0, SavedFormation = 0\<rparr>"

definition fill_slot :: "nat \<Rightarrow> clong \<Rightarrow> bytes \<Rightarrow> Group \<Rightarrow> Group" where
  "fill_slot i pid name g =
     (set_member i (\<lambda>m. m\<lparr>GroupMember_GameID := ucast pid, GroupMember_Position := -1,
                          GroupMember_Name := take 63 name\<rparr>) g)
       \<lparr>AcceptedInvite := (AcceptedInvite g)[i := False]\<rparr>"

definition GroupInvite_new :: "nat \<Rightarrow> nat \<Rightarrow> clong \<Rightarrow> clong \<Rightarrow> gworld \<Rightarrow> gworld" where
  "GroupInvite_new leader p LeaderID PlayerID w =
     (let g0 = new_Group (m_NextGroup w);
          gid = GroupID g0;
          w1 = w\<lparr>m_GroupList := m_GroupList w @ [g0], m_NextGroup := m_NextGroup w + 1\<rparr>;
          w2 = on_player leader (set_GroupID (scast gid) False) w1;
          g1 = fill_slot 0 LeaderID (p_Name (player w2 leader)) g0;
          w3 = on_player p (set_GroupID (scast gid) False) w2;
          g2 = fill_slot 1 PlayerID (p_Name (player w3 p)) g1;
          w4 = emit (VaMessage leader ''%s has been invited'' [GroupMember_Name (Member g2 ! 1)]) w3;
          w5 = emit (VaMessage p ''You have been invited by %s'' [GroupMember_Name (Member g2 ! 0)]) w4;
          w6 = SendGroupInvite g2 p w5;
          g3 = fold (\<lambda>i. set_member i (\<lambda>m. m\<lparr>GroupMember_GameID := -1\<rparr>)) [2..<6] g2
      in w6\<lparr>m_GroupList := m_GroupList w @ [g3]\<rparr>)"

definition GroupInvite :: "s32 \<Rightarrow> clong \<Rightarrow> clong \<Rightarrow> gworld \<Rightarrow> gworld" where
  "GroupInvite gid LeaderID PlayerID w =
     (case (find_player w PlayerID, find_player w LeaderID) of
        (Some p, Some leader) \<Rightarrow>
          if p_GroupID (player w p) \<noteq> -1 then emit (VaMessage leader ''That player is already grouped!'' []) w
          else if 0 <s p_Confirmation (player w p)
          then (let w1 = on_player p (\<lambda>x. x\<lparr>p_Confirmation := 0\<rparr>) w;
                    w2 = RejectGroupInvite (ucast (p_GroupID (player w1 p))) (p_GameID (player w1 p)) w1
                in emit (VaMessage leader ''That player is busy try again later!'' []) w2)
          else (case Option.bind (GetGroupFromID w gid) (group_at w) of
                  None \<Rightarrow> GroupInvite_new leader p LeaderID PlayerID w
                | Some g \<Rightarrow>
                    if member_id g 0 \<noteq> LeaderID
                    then emit (VaMessage leader ''You are not the group leader!'' []) w
                    else if 6 \<le> count_members g
                    then emit (VaMessage leader ''The Group is full!'' []) w
                    else (let PlayerCount = count_members g;
                              w1 = on_player p (set_GroupID (scast (GroupID g)) False) w;
                              g' = fill_slot PlayerCount PlayerID (p_Name (player w p)) g;
                              w2 = on_group gid (\<lambda>_. g') w1;
                              w3 = emit (VaMessage leader ''%s has been invited''
                                          [GroupMember_Name (Member g' ! PlayerCount)]) w2
                          in SendGroupInvite g' p w3))
      | _ \<Rightarrow> w)"

definition AcceptGroupInvite :: "s32 \<Rightarrow> clong \<Rightarrow> gworld \<Rightarrow> gworld" where
  "AcceptGroupInvite gid PlayerID w =
     (case Option.bind (GetGroupFromID w gid) (group_at w) of None \<Rightarrow> w
      | Some g \<Rightarrow>
          (case invited_slot g PlayerID of None \<Rightarrow> w
           | Some MemberIndex \<Rightarrow>
               (let w1 = on_group gid (\<lambda>g. g\<lparr>AcceptedInvite := (AcceptedInvite g)[MemberIndex := True, 0 := True]\<rparr>) w
                in case find_player w PlayerID of None \<Rightarrow> set_fault w1
                   | Some p \<Rightarrow>
                       (let w2 = on_player p (\<lambda>x. set_GroupID (scast gid) True (x\<lparr>p_Group := Some gid\<rparr>)) w1
                        in SendClickToGroup gid p (SendAuxToGroup gid w2)))))"

section \<open>Formations\<close>

definition formation_positions :: "(int \<times> int \<times> int) list list" where
  "formation_positions =
     [[(0,0,0), (-300,-200,50), (-300,200,50), (-300,0,50), (-400,-200,100), (-400,200,100)],
      [(0,0,0), (0,-200,0), (0,200,0), (-300,0,100), (-300,-200,100), (-300,200,100)],
      [(0,0,0), (-300,-200,0), (-300,200,0), (-400,0,0), (-600,-200,0), (-600,200,0)]]"

text \<open>\<^verbatim>\<open>formation_positions[Form-4][i]\<close>; \<^term>\<open>None\<close> is an access outside the table.\<close>

definition formation_position :: "u32 \<Rightarrow> nat \<Rightarrow> (int \<times> int \<times> int) option" where
  "formation_position Form i =
     (let f = sint Form - 4
      in if 0 \<le> f \<and> f < 3 \<and> i < 6 then Some (formation_positions ! nat f ! i) else None)"

definition member_slot :: "Group \<Rightarrow> clong \<Rightarrow> nat option" where
  "member_slot g PID = last_index (\<lambda>m. ucast (GroupMember_GameID m) = PID) (take 6 (Member g))"

definition FormUp :: "clong \<Rightarrow> gworld \<Rightarrow> bool \<times> gworld" where
  "FormUp PID w =
     (case find_player w PID of None \<Rightarrow> (False, w)
      | Some p \<Rightarrow>
        if p_IsIncapacitated (player w p) then (False, w)
        else (let groupid = ucast (p_GroupID (player w p)) in
        case Option.bind (GetGroupFromID w groupid) (group_at w) of None \<Rightarrow> (False, w)
        | Some g \<Rightarrow>
        (case find_player w (member_id g 0) of None \<Rightarrow> (False, w)
         | Some leader \<Rightarrow>
          if p_SectorNum (player w leader) \<noteq> p_SectorNum (player w p) then (False, w)
          else if f_less f_5000 (RangeFrom w p leader)
          then (False, emit (SendPriorityMessageString p ''You are not in range to form up'') w)
          else (case member_slot g PID of None \<Rightarrow> (False, w)
           | Some i \<Rightarrow>
              if i = 0 then (True, w)
              else if \<not> PlayerInRangeList w leader p then (False, w)
              else (let Form = GroupMember_Formation (Member g ! 0);
                        w1 = on_group groupid (set_member i (\<lambda>m. m\<lparr>GroupMember_Formation := Form,
                                                               GroupMember_Position := of_nat i\<rparr>)) w;
                        w2 = on_player p (on_info_of (GroupInfo_SetFormation Form)) w1;
                        w3 = on_player p (on_info_of (GroupInfo_SetPosition (of_nat i))) w2;
                        w4 = emit (SendAuxPlayer p) w3
                    in case formation_position Form i of None \<Rightarrow> (True, set_fault w4)
                       | Some pos \<Rightarrow> (True, emit (SendFormationPositionalUpdate p (member_id g 0) PID pos) w4))))))"

definition LeaveFormation :: "clong \<Rightarrow> gworld \<Rightarrow> bool \<times> gworld" where
  "LeaveFormation PID w =
     (case find_player w PID of None \<Rightarrow> (False, w)
      | Some p \<Rightarrow>
        (let groupid = ucast (p_GroupID (player w p)) in
         case Option.bind (GetGroupFromID w groupid) (group_at w) of None \<Rightarrow> (True, w)
         | Some g \<Rightarrow>
          (case member_slot g PID of None \<Rightarrow> (False, w)
           | Some i \<Rightarrow>
              if GroupMember_Position (Member g ! i) = -1 then (False, w)
              else (let w1 = on_group groupid (set_member i (\<lambda>m. m\<lparr>GroupMember_Position := -1, GroupMember_Formation := 0\<rparr>)) w;
                        w2 = on_player p (on_info_of (GroupInfo_SetFormation 0)) w1;
                        w3 = on_player p (on_info_of (GroupInfo_SetPosition (-1))) w2;
                        w4 = on_player p (on_info_of (SetFormationName (g_FormationName g))) w3;
                        w5 = emit (SendAuxPlayer p) w4
                    in (True, if i \<noteq> 0 then emit (SendLocationAndSpeed p) w5 else w5)))))"

definition SetFormation_members :: "s32 \<Rightarrow> nat \<Rightarrow> clong \<Rightarrow> string \<Rightarrow> gworld \<Rightarrow> gworld" where
  "SetFormation_members groupid leader formation formation_name w =
     fold (\<lambda>i w.
        case find_player w (GetMemberID w groupid i) of None \<Rightarrow> w
        | Some p \<Rightarrow>
            (let f = (if i = 0 then ucast formation else 0); q = (if i = 0 then 0 else -1);
                 w1 = on_group groupid (set_member i (\<lambda>m. m\<lparr>GroupMember_Formation := f, GroupMember_Position := q\<rparr>)) w;
                 w2 = (if i = 0 then emit (VaMessage p ''You have initiated a %s formation.'' [asc formation_name]) w1 else w1)
             in if p_SectorNum (player w p) = p_SectorNum (player w leader)
                then (let w3 = on_player p (on_info_of (GroupInfo_SetFormation f)) w2;
                          w4 = on_player p (on_info_of (SetFormationName (asc formation_name))) w3;
                          w5 = on_player p (on_info_of (GroupInfo_SetPosition q)) w4;
                          w6 = emit (VaMessage p ''%s formation initiated.'' [asc formation_name]) w5
                      in emit (SendAuxPlayer p) w6)
                else w2)) [0..<6] w"

definition SetFormation :: "clong \<Rightarrow> clong \<Rightarrow> string \<Rightarrow> gworld \<Rightarrow> bool \<times> gworld" where
  "SetFormation leaderID formation formation_name w =
     (case find_player w leaderID of None \<Rightarrow> (False, w)
      | Some leader \<Rightarrow>
        (let groupid = ucast (p_GroupID (player w leader)) in
         if find_player w (GetMemberID w groupid 0) \<noteq> Some leader then (False, w)
         else if p_IsIncapacitated (player w leader) then (False, w)
         else (case GetGroupFromID w groupid of None \<Rightarrow> (False, w)
               | Some gid \<Rightarrow>
                  if length formation_name < 40
                  then (True,
                    on_group gid (\<lambda>g. g\<lparr>SavedFormation := formation\<rparr>)
                     (SetFormation_members groupid leader formation formation_name
                       (on_group gid (\<lambda>g. g\<lparr>g_FormationName := asc formation_name\<rparr>) w)))
                  else (False, w))))"

section \<open>Leaving a group\<close>

definition RemovePlayerFromGroup :: "s32 \<Rightarrow> nat \<Rightarrow> gworld \<Rightarrow> gworld" where
  "RemovePlayerFromGroup gid MemberIndex w =
     (case group_at w gid of None \<Rightarrow> set_fault w
      | Some g \<Rightarrow>
          (let pid = member_id g MemberIndex;
               w1 = (case find_player w pid of None \<Rightarrow> w
                     | Some p \<Rightarrow> on_player p (\<lambda>x. set_GroupID (-1) False (x\<lparr>p_Group := None\<rparr>)) w)
           in if count_members g = 2 then DisbanGroup_ptr gid w1
              else (let w2 = SendEmptyGroupAux pid w1;
                        w3 = (if MemberIndex = 0 then snd (BreakFormation pid w2) else snd (LeaveFormation pid w2));
                        w4 = fold (\<lambda>x. on_group gid (\<lambda>g. set_member x (\<lambda>_. Member g ! (x + 1)) g)) [MemberIndex..<5] w3;
                        w5 = on_group gid (set_member 5 (\<lambda>_. ClearGroupMember\<lparr>GroupMember_GameID := -1\<rparr>)) w4
                    in SendAuxToGroup gid w5)))"

definition LeaveGroup :: "s32 \<Rightarrow> clong \<Rightarrow> gworld \<Rightarrow> gworld" where
  "LeaveGroup gid PlayerID w =
     (case Option.bind (GetGroupFromID w gid) (group_at w) of
        None \<Rightarrow> (case find_player w PlayerID of None \<Rightarrow> w | Some _ \<Rightarrow> SendEmptyGroupAux PlayerID w)
      | Some g \<Rightarrow>
          (case first_index (\<lambda>m. ucast (GroupMember_GameID m) = PlayerID) (take 6 (Member g)) of
             Some i \<Rightarrow> RemovePlayerFromGroup gid i w
           | None \<Rightarrow>
               (case find_player w PlayerID of None \<Rightarrow> w
                | Some p \<Rightarrow> SendEmptyGroupAux PlayerID
                    (emit (VaMessage p ''You are not in the group you were supposed to be in!'' []) w))))"

definition KickFromGroup :: "s32 \<Rightarrow> clong \<Rightarrow> clong \<Rightarrow> gworld \<Rightarrow> gworld" where
  "KickFromGroup gid LeaderID PlayerID w =
     (case Option.bind (GetGroupFromID w gid) (group_at w) of
        None \<Rightarrow> (case find_player w LeaderID of None \<Rightarrow> w
                 | Some p \<Rightarrow> emit (VaMessage p ''Could not find group %d! Sending no-group packet!'' []) w)
      | Some g \<Rightarrow>
          if member_id g 0 \<noteq> LeaderID
          then (case find_player w LeaderID of None \<Rightarrow> w
                | Some p \<Rightarrow> emit (VaMessage p ''You are not the group leader!'' []) w)
          else (case first_index (\<lambda>m. ucast (GroupMember_GameID m) = PlayerID) (take 5 (drop 1 (Member g))) of
                  None \<Rightarrow> w
                | Some i \<Rightarrow> RemovePlayerFromGroup gid (i + 1) w))"


section \<open>Refreshing a client\<close>

definition RequestGroupAux_found :: "s32 \<Rightarrow> s32 \<Rightarrow> nat \<Rightarrow> gworld \<Rightarrow> gworld" where
  "RequestGroupAux_found gid PlayerID MemberIndex w =
     (case (group_at w gid, find_player w (scast PlayerID)) of
        (Some g, Some p) \<Rightarrow>
          (case SetGroupInfoMembersFromGroup (zero_info g) g MemberIndex of None \<Rightarrow> set_fault w
           | Some info \<Rightarrow>
              (let w1 = on_player p (on_info_of (AuxGroupInfo_SetData info True)) w;
                   w2 = on_player p (on_info_of (SetIsGroupLeader (MemberIndex = 0))) w1;
                   w3 = (case find_player w (member_id g 0) of None \<Rightarrow> w2
                         | Some leader \<Rightarrow>
                            if p_SectorNum (player w leader) = p_SectorNum (player w p)
                            then (let a = on_player p (on_info_of (GroupInfo_SetFormation 0)) w2;
                                      b = on_player p (on_info_of (SetFormationName (g_FormationName g))) a;
                                      c = on_player p (on_info_of (GroupInfo_SetPosition
                                            (GroupMember_Position (Member g ! MemberIndex)))) b
                                  in emit (SendAuxPlayer p) c)
                            else (let z = on_group gid (set_member MemberIndex
                                            (\<lambda>m. m\<lparr>GroupMember_Formation := 0, GroupMember_Position := -1\<rparr>)) w2;
                                      a = on_player p (on_info_of (GroupInfo_SetFormation 0)) z;
                                      b = on_player p (on_info_of (GroupInfo_SetPosition (-1))) a;
                                      c = on_player p (on_info_of (SetFormationName [])) b
                                  in emit (SendAuxPlayer p) c))
               in on_player p (set_GroupID (scast (GroupID g)) True) w3))
      | _ \<Rightarrow> w)"

definition RequestGroupAux :: "s32 \<Rightarrow> s32 \<Rightarrow> gworld \<Rightarrow> gworld" where
  "RequestGroupAux gid PlayerID w =
     (if gid = -1 then SendEmptyGroupAux (scast PlayerID) w
      else (case Option.bind (GetGroupFromID w gid) (group_at w) of
              None \<Rightarrow> SendEmptyGroupAux (scast PlayerID) w
            | Some g \<Rightarrow>
                (case first_index (\<lambda>m. GroupMember_GameID m = PlayerID) (take 6 (Member g)) of
                   None \<Rightarrow> SendEmptyGroupAux (scast PlayerID) w
                 | Some i \<Rightarrow>
                     if AcceptedInvite g ! i then RequestGroupAux_found gid PlayerID i w
                     else SendEmptyGroupAux (scast PlayerID)
                            (on_group gid (set_member i (\<lambda>m. m\<lparr>GroupMember_GameID := -1\<rparr>)) w))))"

section \<open>Chat, targets and positions\<close>

definition GroupChat :: "s32 \<Rightarrow> clong \<Rightarrow> bytes \<Rightarrow> gworld \<Rightarrow> gworld" where
  "GroupChat gid GameID Message w =
     (case find_player w GameID of None \<Rightarrow> w
      | Some s \<Rightarrow>
        (case Option.bind (GetGroupFromID w gid) (group_at w) of None \<Rightarrow> w
         | Some g \<Rightarrow>
            fold (\<lambda>i w. if GroupMember_GameID (Member g ! i) \<noteq> -1 \<and> AcceptedInvite g ! i
                        then (case find_player w (member_id g i) of None \<Rightarrow> w
                              | Some p \<Rightarrow> if p_GroupID (player w p) = scast gid
                                          then emit (SendClientChatEvent p s Message) w else w)
                        else w) [0..<6] w))"

definition RequestTargetMyTarget :: "clong \<Rightarrow> clong \<Rightarrow> gworld \<Rightarrow> bool \<times> gworld" where
  "RequestTargetMyTarget sourceID targetID w =
     (case find_player w sourceID of None \<Rightarrow> (False, w)
      | Some s \<Rightarrow>
        (let groupid = ucast (p_GroupID (player w s)) in
         (True, fold (\<lambda>i w. let memberID = GetMemberID w groupid i in
                   if targetID = -1 \<or> targetID = memberID
                   then (case find_player w memberID of None \<Rightarrow> w
                         | Some p \<Rightarrow> emit (VaMessage p ''Target my target.'' []) w)
                   else w) [0..<6] w)))"

definition GroupAction :: "clong \<Rightarrow> clong \<Rightarrow> clong \<Rightarrow> gworld \<Rightarrow> bool \<times> gworld" where
  "GroupAction SourceID TargetID Action w =
     (if Action = 4 then SetFormation SourceID Action ''Slot Back'' w
      else if Action = 5 then SetFormation SourceID Action ''Block'' w
      else if Action = 6 then SetFormation SourceID Action ''Pipe'' w
      else if Action = 7 then FormUp SourceID w
      else if Action = 8 then LeaveFormation SourceID w
      else if Action = 9 then BreakFormation SourceID w
      else if Action = 12 then RequestTargetMyTarget SourceID TargetID w
      else (False, w))"

definition FormationEngineOperation :: "nat \<Rightarrow> bool \<Rightarrow> gworld \<Rightarrow> gworld" where
  "FormationEngineOperation p engine w =
     (case Option.bind (GetGroupFromID w (ucast (p_GroupID (player w p)))) (group_at w) of None \<Rightarrow> w
      | Some g \<Rightarrow>
          if find_player w (member_id g 0) = Some p
          then fold (\<lambda>x w. if GroupMember_Position (Member g ! x) \<noteq> -1
                           then (case find_player w (member_id g x) of None \<Rightarrow> w
                                 | Some m \<Rightarrow> emit (SendContrailsRL m engine) w)
                           else w) [1..<6] w
          else w)"

text \<open>
  \<^verbatim>\<open>SendFormation\<close>: the loop may return early, when the leader is gone (the flag is then false).
\<close>

fun send_formation_loop :: "Group \<Rightarrow> nat \<Rightarrow> nat \<Rightarrow> nat option \<Rightarrow> nat list \<Rightarrow> gworld \<Rightarrow> bool \<times> gworld" where
  "send_formation_loop g SendP TargetP gLeader [] w = (True, w)"
| "send_formation_loop g SendP TargetP gLeader (x # xs) w =
     (if member_id g x = p_GameID (player w SendP) \<and> GroupMember_Position (Member g ! x) \<noteq> -1
      then (if gLeader = None then (False, w)
            else (case formation_position (GroupMember_Formation (Member g ! x)) x of
                    None \<Rightarrow> (True, set_fault w)
                  | Some pos \<Rightarrow> send_formation_loop g SendP TargetP gLeader xs
                      (emit (SendFormationPositionalUpdate TargetP (member_id g 0) (p_GameID (player w SendP)) pos) w)))
      else if member_id g x = p_GameID (player w SendP) \<and> GroupMember_Position (Member g ! x) = -1
      then send_formation_loop g SendP TargetP gLeader xs
             (emit (SendAdvancedPositionalUpdate TargetP (p_GameID (player w SendP)) SendP) w)
      else send_formation_loop g SendP TargetP gLeader xs w)"

definition SendFormation :: "nat option \<Rightarrow> nat option \<Rightarrow> gworld \<Rightarrow> bool \<times> gworld" where
  "SendFormation SendP TargetP w =
     (case (SendP, TargetP) of
        (Some s, Some t) \<Rightarrow>
          (case Option.bind (GetGroupFromID w (ucast (p_GroupID (player w s)))) (group_at w) of None \<Rightarrow> (True, w)
           | Some g \<Rightarrow>
              (let gLeader = find_player w (member_id g 0);
                   w1 = (case gLeader of None \<Rightarrow> w
                         | Some l \<Rightarrow> if l \<noteq> t \<or> p_WarpDrive (player w l)
                                     then emit (SendAdvancedPositionalUpdate t (member_id g 0) l) w else w)
               in send_formation_loop g s t gLeader [1..<6] w1))
      | _ \<Rightarrow> (False, w))"

section \<open>Gates\<close>

definition FormationTypeName :: "clong \<Rightarrow> string" where
  "FormationTypeName f =
     (if f = 4 then ''Slot Back'' else if f = 5 then ''Block'' else if f = 6 then ''Pipe'' else [])"

definition gate_member :: "s32 \<Rightarrow> nat \<Rightarrow> clong \<Rightarrow> nat \<Rightarrow> gworld \<Rightarrow> gworld" where
  "gate_member gid leader dest x w =
     (case group_at w gid of None \<Rightarrow> set_fault w
      | Some g \<Rightarrow>
        if GroupMember_GameID (Member g ! x) = 0 then w
        else (let formed = (GroupMember_Position (Member g ! x) \<noteq> -1);
                  m = find_player w (member_id g x);
                  w1 = on_group gid (set_member x (\<lambda>m. m\<lparr>GroupMember_Formation := 0, GroupMember_Position := -1\<rparr>)) w
              in case m of None \<Rightarrow> w1
                 | Some p \<Rightarrow>
                    (let w2 = on_player p (on_info_of (GroupInfo_SetFormation 0)) w1;
                         w3 = on_player p (on_info_of (GroupInfo_SetPosition (-1))) w2;
                         w4 = (if x = 0 then on_player p (on_info_of (SetFormationName [])) w3 else w3);
                         w5 = emit (SendAuxPlayer p) w4
                     in if x \<noteq> 0 \<and> formed \<and> p_SectorNum (player w p) = p_SectorNum (player w leader) \<and>
                           p_HasSectorManager (player w p)
                        then emit (SectorServerHandoff p dest)
                               (emit (SetStargateDestination p dest) (emit (TerminateWarp p) w5))
                        else w5)))"

definition GroupLeaderGate :: "nat option \<Rightarrow> clong \<Rightarrow> gworld \<Rightarrow> bool \<times> gworld" where
  "GroupLeaderGate leader dest w =
     (case leader of None \<Rightarrow> (False, w)
      | Some l \<Rightarrow>
        if dest \<le>s 0 then (False, w)
        else (case Option.bind (GetGroupFromID w (ucast (p_GroupID (player w l)))) (group_at w) of None \<Rightarrow> (False, w)
              | Some g \<Rightarrow>
                 if member_id g 0 \<noteq> p_GameID (player w l) then (False, w)
                 else (let gid = GroupID g; formation = ucast (GroupMember_Formation (Member g ! 0)) :: clong;
                           w1 = (if 4 \<le>s formation then on_group gid (\<lambda>g. g\<lparr>SavedFormation := formation\<rparr>) w else w)
                       in (True, fold (gate_member gid l dest) [0..<6] w1))))"

definition GroupReformOnGate :: "nat option \<Rightarrow> gworld \<Rightarrow> bool \<times> gworld" where
  "GroupReformOnGate p w =
     (case p of None \<Rightarrow> (False, w)
      | Some i \<Rightarrow>
        (case Option.bind (GetGroupFromID w (ucast (p_GroupID (player w i)))) (group_at w) of None \<Rightarrow> (False, w)
         | Some g \<Rightarrow>
          if SavedFormation g <s 4 then (False, w)
          else if member_id g 0 = p_GameID (player w i)
          then (let (ok, w1) = SetFormation (p_GameID (player w i)) (SavedFormation g) (FormationTypeName (SavedFormation g)) w
                in if \<not> ok then (False, w1)
                   else (True, fold (\<lambda>x w. if GroupMember_GameID (Member g ! x) = 0 then w
                              else (case find_player w (member_id g x) of None \<Rightarrow> w
                                    | Some m \<Rightarrow> if p_SectorNum (player w m) = p_SectorNum (player w i)
                                                then emit (ArmGateReform m) w else w)) [1..<6] w1))
          else (case find_player w (member_id g 0) of None \<Rightarrow> (False, w)
                | Some l \<Rightarrow>
                   if p_SectorNum (player w l) = p_SectorNum (player w i) \<and> PlayerInRangeList w l i
                   then (True, snd (FormUp (p_GameID (player w i)) w))
                   else (False, w))))"

section \<open>Shared exploration and group buffs\<close>

text \<open>The members that share a discovery, by the conditions of \<^verbatim>\<open>GroupRevealNav\<close>.\<close>

definition in_xp_range :: "gworld \<Rightarrow> nat \<Rightarrow> nat \<Rightarrow> bool" where
  "in_xp_range w owner p \<longleftrightarrow> p_Active (player w p) \<and> p_AcceptedGroupInvite (player w p) \<and>
     p_SectorNum (player w p) = p_SectorNum (player w owner) \<and>
     f_less (RangeFrom w p owner) f_40000 \<and> \<not> p_IsIncapacitated (player w p)"

definition reveal_nav :: "nat \<Rightarrow> nat \<Rightarrow> gworld \<Rightarrow> gworld" where
  "reveal_nav uid p w =
     (case (StaticMap_GetEIndex uid (p_ExposedNavList (player w p)),
            StaticMap_GetEIndex uid (p_ExploredNavList (player w p))) of
        (Some exposed, Some explored) \<Rightarrow>
          if exposed \<and> explored then w
          else (let w1 = (if \<not> exposed
                          then emit (SaveDiscoverNav p uid) (on_player p (\<lambda>x. x\<lparr>p_ExposedNavList :=
                                 the (StaticMap_SetEIndex uid (p_ExposedNavList x))\<rparr>) w) else w);
                    w2 = (if \<not> explored
                          then emit (SaveExploreNav p uid) (on_player p (\<lambda>x. x\<lparr>p_ExploredNavList :=
                                 the (StaticMap_SetEIndex uid (p_ExploredNavList x))\<rparr>) w1) else w1)
                in emit (SendNavigation p uid) (emit (SendObject p uid) w2))
      | _ \<Rightarrow> set_fault w)"

definition GroupRevealNav :: "nat \<Rightarrow> nat option \<Rightarrow> gworld \<Rightarrow> gworld" where
  "GroupRevealNav owner obj w =
     (case (Option.bind (GetGroupFromID w (ucast (p_GroupID (player w owner)))) (group_at w), obj) of
        (Some g, Some uid) \<Rightarrow>
          fold (\<lambda>i w. if GroupMember_GameID (Member g ! i) = -1 then w
                      else (case find_player w (member_id g i) of None \<Rightarrow> w
                            | Some p \<Rightarrow> if p \<noteq> owner \<and> in_xp_range w owner p then reveal_nav uid p w else w)) [0..<6] w
      | _ \<Rightarrow> w)"

text \<open>
  \<^verbatim>\<open>ceil(level * 1.25)\<close> is computed exactly on the small integers that levels are; a class
  index outside 0 to 8 would write outside the counters.
\<close>

definition buff_counts :: "gworld \<Rightarrow> nat option list \<Rightarrow> nat \<Rightarrow> nat \<Rightarrow> nat list" where
  "buff_counts w ps i p =
     map (\<lambda>c. length (filter (\<lambda>j. case ps ! j of None \<Rightarrow> False
            | Some q \<Rightarrow>
                (j = i \<or> p_SectorNum (player w q) = p_SectorNum (player w p) \<and> f_less (RangeFrom w q p) f_40000) \<and>
                (j = i \<or> unat (p_CombatLevel (player w p)) \<le> (5 * unat (p_CombatLevel (player w q)) + 3) div 4 \<or>
                 unat (p_CombatLevel (player w p)) \<le> unat (p_CombatLevel (player w q)) + 5) \<and>
                p_ClassIndex (player w q) = c) [0..<6])) [0..<9]"

definition transfer_buffs :: "Group \<Rightarrow> gworld \<Rightarrow> gworld" where
  "transfer_buffs g w =
     (let ps = map (\<lambda>i. if GroupMember_GameID (Member g ! i) = -1 then None
                    else (case find_player w (member_id g i) of None \<Rightarrow> None
                          | Some m \<Rightarrow> if p_Active (player w m) \<and> p_AcceptedGroupInvite (player w m)
                                      then Some m else None)) [0..<6]
      in fold (\<lambda>i w. case ps ! i of None \<Rightarrow> w
              | Some p \<Rightarrow> fold (\<lambda>c w. if buff_counts w ps i p ! c \<noteq> 0
                                     then emit (AddGroupRacialBuff p (buff_counts w ps i p ! c) c) w else w) [0..<9] w)
           [0..<6] w)"

definition TransferGroupBuffs :: "gworld \<Rightarrow> gworld" where
  "TransferGroupBuffs w = fold transfer_buffs (m_GroupList w) w"

end
