(* ===== verification/GroupInvariants.thy ===== *)
theory GroupInvariants
  imports GroupManager
begin

text \<open>
  The invariant of the group list and its preservation by every operation of
  \<^verbatim>\<open>GroupManager.cpp\<close>: six slots and six invitation marks per group, unique group ids taken from
  the counter, and player lookups that stay inside the player table. The group list is an
  \<open>inductive\<close> transition system over the operations clients can trigger.
\<close>

section \<open>The invariant\<close>

definition group_shape :: "Group \<Rightarrow> bool" where
  "group_shape g \<longleftrightarrow> length (Member g) = 6 \<and> length (AcceptedInvite g) = 6"

definition ids_ok :: "clong \<Rightarrow> s32 list \<Rightarrow> bool" where
  "ids_ok n ids \<longleftrightarrow> distinct ids \<and> (\<forall>i \<in> set ids. unat i < unat n)"

definition gw_wf :: "gworld \<Rightarrow> bool" where
  "gw_wf w \<longleftrightarrow> (\<forall>g \<in> set (m_GroupList w). group_shape g) \<and> ids_ok (m_NextGroup w) (map GroupID (m_GroupList w)) \<and>
     (\<forall>x p. find_player w x = Some p \<longrightarrow> p < length (players w))"

definition shape_ok :: "(Group \<Rightarrow> Group) \<Rightarrow> bool" where
  "shape_ok f \<longleftrightarrow> (\<forall>g. GroupID (f g) = GroupID g \<and> (group_shape g \<longrightarrow> group_shape (f g)))"

section \<open>Frame lemmas\<close>

lemma emit_fields [simp]:
  "m_GroupList (emit e w) = m_GroupList w" "m_NextGroup (emit e w) = m_NextGroup w"
  "players (emit e w) = players w" "find_player (emit e w) = find_player w" "fault (emit e w) = fault w"
  "RangeFrom (emit e w) = RangeFrom w" "PlayerInRangeList (emit e w) = PlayerInRangeList w"
  by (simp_all add: emit_def)

lemma set_fault_fields [simp]:
  "m_GroupList (set_fault w) = m_GroupList w" "m_NextGroup (set_fault w) = m_NextGroup w"
  "players (set_fault w) = players w" "find_player (set_fault w) = find_player w" "fault (set_fault w)"
  by (simp_all add: set_fault_def)

lemma on_player_fields [simp]:
  "m_GroupList (on_player p f w) = m_GroupList w" "m_NextGroup (on_player p f w) = m_NextGroup w"
  "length (players (on_player p f w)) = length (players w)" "find_player (on_player p f w) = find_player w"
  "fault (on_player p f w) = fault w" "RangeFrom (on_player p f w) = RangeFrom w"
  "PlayerInRangeList (on_player p f w) = PlayerInRangeList w"
  by (simp_all add: on_player_def)

lemma on_group_fields [simp]:
  "m_NextGroup (on_group gid f w) = m_NextGroup w" "players (on_group gid f w) = players w"
  "find_player (on_group gid f w) = find_player w"
  by (simp_all add: on_group_def)

lemma RemoveGroup_fields [simp]:
  "m_NextGroup (RemoveGroup gid w) = m_NextGroup w" "players (RemoveGroup gid w) = players w"
  "find_player (RemoveGroup gid w) = find_player w" "fault (RemoveGroup gid w) = fault w"
  by (simp_all add: RemoveGroup_def)

lemma group_at_frame [simp]:
  "group_at (emit e w) gid = group_at w gid" "group_at (set_fault w) gid = group_at w gid"
  "group_at (on_player p f w) gid = group_at w gid"
  by (simp_all add: group_at_def)

lemma group_at_id: "group_at w gid = Some g \<Longrightarrow> GroupID g = gid \<and> g \<in> set (m_GroupList w)"
  by (auto simp: group_at_def find_Some_iff)

lemma GetGroupFromID_Some:
  "GetGroupFromID w gid = Some y \<Longrightarrow> y = gid \<and> gid \<noteq> -1 \<and> (\<exists>g. group_at w gid = Some g)"
  by (auto simp: GetGroupFromID_def dest: group_at_id split: if_splits)

lemma gw_wf_shape: "gw_wf w \<Longrightarrow> group_at w gid = Some g \<Longrightarrow> group_shape g"
  using group_at_id by (auto simp: gw_wf_def)

lemma group_at_member:
  assumes wf: "gw_wf w" and g: "g \<in> set (m_GroupList w)"
  shows "group_at w (GroupID g) = Some g"
proof -
  obtain g' where g': "group_at w (GroupID g) = Some g'" using g by (fastforce simp: group_at_def find_None_iff)
  then have "GroupID g' = GroupID g" "g' \<in> set (m_GroupList w)" using group_at_id by blast+
  then have "g' = g" using wf g by (auto simp: gw_wf_def ids_ok_def distinct_map dest: inj_onD)
  then show ?thesis using g' by simp
qed

section \<open>Building blocks keep the invariant\<close>

lemma gw_wf_frame [simp]:
  "gw_wf (emit e w) = gw_wf w" "gw_wf (set_fault w) = gw_wf w" "gw_wf (on_player p f w) = gw_wf w"
  by (simp_all add: gw_wf_def)

lemma gw_wf_on_group [simp]: "gw_wf w \<Longrightarrow> shape_ok f \<Longrightarrow> gw_wf (on_group gid f w)"
proof -
  assume w: "gw_wf w" and f: "shape_ok f"
  have "map (GroupID \<circ> (\<lambda>g. if GroupID g = gid then f g else g)) gs = map GroupID gs" for gs
    using f by (simp add: shape_ok_def)
  then show ?thesis using w f unfolding gw_wf_def
    by (auto simp: on_group_def shape_ok_def set_fault_def simp del: map_eq_conv)
qed

lemma remove_group_sub: "set (remove_group gid gs) \<subseteq> set gs"
  by (induction gs) auto

lemma remove_group_distinct: "distinct (map GroupID gs) \<Longrightarrow> distinct (map GroupID (remove_group gid gs))"
proof (induction gs)
  case Nil
  then show ?case by simp
next
  case (Cons g gs)
  then show ?case using remove_group_sub [of gid gs] by auto
qed

lemma gw_wf_RemoveGroup [simp]: "gw_wf w \<Longrightarrow> gw_wf (RemoveGroup gid w)"
  using remove_group_sub [of gid "m_GroupList w"] remove_group_distinct [of "m_GroupList w" gid]
  by (fastforce simp: gw_wf_def RemoveGroup_def ids_ok_def)

lemma gw_wf_fold: "gw_wf w \<Longrightarrow> (\<And>x w. x \<in> set xs \<Longrightarrow> gw_wf w \<Longrightarrow> gw_wf (f x w)) \<Longrightarrow> gw_wf (fold f xs w)"
  by (induction xs arbitrary: w) auto

lemma shape_ok_set_member [simp]: "shape_ok (set_member i f)"
  by (simp add: shape_ok_def set_member_def group_shape_def)

lemma shape_ok_fields [simp]:
  "shape_ok (\<lambda>g. g\<lparr>g_FormationName := s\<rparr>)" "shape_ok (\<lambda>g. g\<lparr>SavedFormation := v\<rparr>)"
  "shape_ok (\<lambda>g. g\<lparr>g_FormationName := s, SavedFormation := v\<rparr>)"
  "shape_ok (\<lambda>g. g\<lparr>AcceptedInvite := (AcceptedInvite g)[i := a, j := b]\<rparr>)"
  "shape_ok (\<lambda>g. set_member x (\<lambda>_. Member g ! y) g)"
  by (simp_all add: shape_ok_def group_shape_def set_member_def)

section \<open>Operations keep the invariant\<close>

lemma gw_wf_SendEmptyGroupAux [simp]: "gw_wf w \<Longrightarrow> gw_wf (SendEmptyGroupAux x w)"
  by (simp add: SendEmptyGroupAux_def Let_def split: option.splits)

lemma gw_wf_BreakFormation [simp]: "gw_wf w \<Longrightarrow> gw_wf (snd (BreakFormation x w))"
  unfolding BreakFormation_def BreakFormation_members_def
  by (auto simp: Let_def intro!: gw_wf_fold split: option.splits)

lemma gw_wf_DisbanGroup_ptr [simp]: "gw_wf w \<Longrightarrow> gw_wf (DisbanGroup_ptr gid w)"
  unfolding DisbanGroup_ptr_def
  by (auto simp: Let_def intro!: gw_wf_RemoveGroup gw_wf_BreakFormation gw_wf_fold split: option.splits)

lemma gw_wf_DisbanGroup: "gw_wf w \<Longrightarrow> gw_wf (DisbanGroup gid x w)"
  unfolding DisbanGroup_def by (auto simp: Let_def split: option.splits)

lemma gw_wf_send_aux_loop [simp]: "gw_wf w \<Longrightarrow> gw_wf (send_aux_loop gid g is info w)"
  by (induction gid g "is" info w rule: send_aux_loop.induct) (auto simp: Let_def split: option.splits)

lemma gw_wf_SendAuxToGroup [simp]: "gw_wf w \<Longrightarrow> gw_wf (SendAuxToGroup gid w)"
  by (auto simp: SendAuxToGroup_def split: option.splits)

lemma gw_wf_SendClickToGroup [simp]: "gw_wf w \<Longrightarrow> gw_wf (SendClickToGroup gid p w)"
  unfolding SendClickToGroup_def by (auto intro!: gw_wf_fold split: option.splits)

lemma gw_wf_SendGroupInvite [simp]: "gw_wf (SendGroupInvite g p w) = gw_wf w"
  by (simp add: SendGroupInvite_def Let_def)

lemma gw_wf_RejectGroupInvite [simp]: "gw_wf w \<Longrightarrow> gw_wf (RejectGroupInvite gid x w)"
  unfolding RejectGroupInvite_def by (auto simp: Let_def split: option.splits)

lemma gw_wf_AcceptGroupInvite: "gw_wf w \<Longrightarrow> gw_wf (AcceptGroupInvite gid x w)"
  unfolding AcceptGroupInvite_def by (auto simp: Let_def split: option.splits)

lemma gw_wf_LeaveFormation [simp]: "gw_wf w \<Longrightarrow> gw_wf (snd (LeaveFormation x w))"
  unfolding LeaveFormation_def by (auto simp: Let_def split: option.splits)

lemma gw_wf_FormUp [simp]: "gw_wf w \<Longrightarrow> gw_wf (snd (FormUp x w))"
  unfolding FormUp_def by (auto simp: Let_def split: option.splits)

lemma gw_wf_SetFormation [simp]: "gw_wf w \<Longrightarrow> gw_wf (snd (SetFormation x f n w))"
  unfolding SetFormation_def SetFormation_members_def
  by (auto simp: Let_def intro!: gw_wf_on_group gw_wf_fold split: option.splits)

lemma gw_wf_RemovePlayerFromGroup [simp]: "gw_wf w \<Longrightarrow> gw_wf (RemovePlayerFromGroup gid i w)"
  unfolding RemovePlayerFromGroup_def
  by (auto simp: Let_def intro!: gw_wf_SendAuxToGroup gw_wf_on_group gw_wf_fold split: option.splits)

lemma gw_wf_LeaveGroup: "gw_wf w \<Longrightarrow> gw_wf (LeaveGroup gid x w)"
  unfolding LeaveGroup_def by (auto split: option.splits)

lemma gw_wf_KickFromGroup: "gw_wf w \<Longrightarrow> gw_wf (KickFromGroup gid l x w)"
  unfolding KickFromGroup_def by (auto split: option.splits)

lemma gw_wf_RequestGroupAux: "gw_wf w \<Longrightarrow> gw_wf (RequestGroupAux gid x w)"
  unfolding RequestGroupAux_def RequestGroupAux_found_def by (auto simp: Let_def split: option.splits)

lemma gw_wf_GroupAction: "gw_wf w \<Longrightarrow> gw_wf (snd (GroupAction s t a w))"
  unfolding GroupAction_def RequestTargetMyTarget_def
  by (auto simp: Let_def intro!: gw_wf_fold split: option.splits)

lemma gw_wf_gate_member [simp]: "gw_wf w \<Longrightarrow> gw_wf (gate_member gid l d x w)"
  unfolding gate_member_def by (auto simp: Let_def split: option.splits)

lemma gw_wf_GroupLeaderGate: "gw_wf w \<Longrightarrow> gw_wf (snd (GroupLeaderGate l d w))"
  unfolding GroupLeaderGate_def by (auto simp: Let_def intro!: gw_wf_fold split: option.splits)

lemma gw_wf_GroupReformOnGate: "gw_wf w \<Longrightarrow> gw_wf (snd (GroupReformOnGate p w))"
  unfolding GroupReformOnGate_def
  by (auto simp: Let_def case_prod_beta intro!: gw_wf_fold split: option.splits)


lemma ids_ok_new:
  assumes "ids_ok n ids" and "unat n < 2 ^ 32 - 1"
  shows "ids_ok (n + 1) (ids @ [ucast n])"
proof -
  have u: "unat (ucast n :: s32) = unat n" using assms(2) by (simp add: unsigned_ucast_eq take_bit_eq_mod)
  have "unat (n + 1) = unat n + 1" using assms(2) by (simp add: unat_word_ariths)
  then show ?thesis using assms(1) u by (fastforce simp: ids_ok_def)
qed

lemma fill_slot_shape: "group_shape g \<Longrightarrow> group_shape (fill_slot i x s g)" "GroupID (fill_slot i x s g) = GroupID g"
  by (simp_all add: fill_slot_def group_shape_def set_member_def)

lemma fold_set_member:
  "GroupID (fold (\<lambda>i. set_member i f) is g) = GroupID g"
  "AcceptedInvite (fold (\<lambda>i. set_member i f) is g) = AcceptedInvite g"
  "length (Member (fold (\<lambda>i. set_member i f) is g)) = length (Member g)"
  by (induction "is" arbitrary: g) (simp_all add: set_member_def)

lemma SendGroupInvite_fields [simp]:
  "m_GroupList (SendGroupInvite g p w) = m_GroupList w" "m_NextGroup (SendGroupInvite g p w) = m_NextGroup w"
  "length (players (SendGroupInvite g p w)) = length (players w)"
  "find_player (SendGroupInvite g p w) = find_player w"
  by (simp_all add: SendGroupInvite_def Let_def)

lemma GroupInvite_new_fields:
  "m_NextGroup (GroupInvite_new l p x y w) = m_NextGroup w + 1"
  "find_player (GroupInvite_new l p x y w) = find_player w"
  "length (players (GroupInvite_new l p x y w)) = length (players w)"
  "\<exists>g. m_GroupList (GroupInvite_new l p x y w) = m_GroupList w @ [g] \<and> group_shape g \<and>
       GroupID g = ucast (m_NextGroup w)"
  by (simp_all add: GroupInvite_new_def Let_def group_shape_def fold_set_member fill_slot_def
        set_member_def new_Group_def)

lemma gw_wf_GroupInvite_new:
  assumes w: "gw_wf w" and n: "unat (m_NextGroup w) < 2 ^ 32 - 1"
  shows "gw_wf (GroupInvite_new l p x y w)"
proof -
  obtain g where g: "m_GroupList (GroupInvite_new l p x y w) = m_GroupList w @ [g]" "group_shape g"
      "GroupID g = ucast (m_NextGroup w)"
    using GroupInvite_new_fields(4) by blast
  have "ids_ok (m_NextGroup w + 1) (map GroupID (m_GroupList w @ [g]))"
    using ids_ok_new n w g(3) by (simp add: gw_wf_def)
  then show ?thesis using w g by (auto simp: gw_wf_def GroupInvite_new_fields)
qed

lemma shape_ok_const: "group_shape g' \<Longrightarrow> gw_wf w \<Longrightarrow> GroupID g' = gid \<Longrightarrow> gw_wf (on_group gid (\<lambda>_. g') w)"
proof -
  assume g: "group_shape g'" and w: "gw_wf w" and i: "GroupID g' = gid"
  have "map (GroupID \<circ> (\<lambda>g. if GroupID g = gid then g' else g)) gs = map GroupID gs" for gs
    using i by auto
  then show ?thesis using w g unfolding gw_wf_def
    by (auto simp: on_group_def set_fault_def simp del: map_eq_conv)
qed

lemma gw_wf_GroupInvite:
  assumes w: "gw_wf w" and n: "unat (m_NextGroup w) < 2 ^ 32 - 1"
  shows "gw_wf (GroupInvite gid l x w)"
proof -
  have inv: "gw_wf (on_group gid (\<lambda>_. fill_slot i pid s g) (on_player p f w))"
    if "group_at w gid = Some g" for i pid s g p f
    using that w fill_slot_shape group_at_id gw_wf_shape by (auto intro!: shape_ok_const)
  show ?thesis using w n inv gw_wf_GroupInvite_new unfolding GroupInvite_def
    by (auto simp: Let_def bind_eq_Some_conv dest: GetGroupFromID_Some split: option.splits)
qed

section \<open>Runs\<close>

text \<open>The operations of the component, as clients and the other components trigger them.\<close>

inductive group_step :: "gworld \<Rightarrow> gworld \<Rightarrow> bool" where
  invite: "unat (m_NextGroup w) < 2 ^ 32 - 1 \<Longrightarrow> group_step w (GroupInvite gid l x w)"
| accept: "group_step w (AcceptGroupInvite gid x w)"
| reject: "group_step w (RejectGroupInvite gid x w)"
| leave: "group_step w (LeaveGroup gid x w)"
| kick: "group_step w (KickFromGroup gid l x w)"
| disband: "group_step w (DisbanGroup gid x w)"
| request: "group_step w (RequestGroupAux gid x32 w)"
| action: "group_step w (snd (GroupAction x y a w))"
| gate: "group_step w (snd (GroupLeaderGate p d w))"
| reform: "group_step w (snd (GroupReformOnGate p w))"

inductive_simps group_step_iff: "group_step w w'"

lemma group_step_wf: "group_step w w' \<Longrightarrow> gw_wf w \<Longrightarrow> gw_wf w'"
  by (induction rule: group_step.induct)
    (simp_all add: gw_wf_GroupInvite gw_wf_AcceptGroupInvite gw_wf_LeaveGroup gw_wf_KickFromGroup
      gw_wf_DisbanGroup gw_wf_RequestGroupAux gw_wf_GroupAction gw_wf_GroupLeaderGate gw_wf_GroupReformOnGate)

definition new_world :: "gplayer list \<Rightarrow> (clong \<Rightarrow> nat option) \<Rightarrow> (nat \<Rightarrow> nat \<Rightarrow> f32) \<Rightarrow> (nat \<Rightarrow> nat \<Rightarrow> bool) \<Rightarrow> gworld" where
  "new_world ps look rng vis =
     \<lparr>m_GroupList = [], m_NextGroup = 0, players = ps, find_player = look, RangeFrom = rng,
      PlayerInRangeList = vis, event_log = [], fault = False\<rparr>"

text \<open>
  The group list stays well formed. From an empty list, whatever sequence of the
  operations runs, every group has six slots and six invitation marks, group ids are
  unique and below the counter, and looking a listed group up by its id finds it.
\<close>

theorem groups_reachable_wf:
  assumes "group_step\<^sup>*\<^sup>* (new_world ps look rng vis) w"
    and "\<forall>x p. look x = Some p \<longrightarrow> p < length ps"
  shows "gw_wf w \<and> (\<forall>g \<in> set (m_GroupList w). GroupID g \<noteq> -1 \<longrightarrow> GetGroupFromID w (GroupID g) = Some (GroupID g) \<and>
           group_at w (GroupID g) = Some g)"
proof -
  have "gw_wf (new_world ps look rng vis)"
    using assms(2) by (simp add: gw_wf_def new_world_def ids_ok_def)
  with assms(1) have wf: "gw_wf w"
    by (induction rule: rtranclp_induct) (auto intro: group_step_wf)
  then show ?thesis using group_at_member by (auto simp: GetGroupFromID_def)
qed

lemma groups_reachable_wf_witness:
  "gw_wf (GroupInvite (-1) 1 2 (new_world [] (\<lambda>_. None) (\<lambda>_ _. 0) (\<lambda>_ _. False)))"
proof -
  let ?w = "new_world [] (\<lambda>_. None) (\<lambda>_ _. 0) (\<lambda>_ _. False)"
  have "group_step\<^sup>*\<^sup>* ?w (GroupInvite (-1) 1 2 ?w)"
    by (rule r_into_rtranclp, rule group_step.invite) (simp add: new_world_def)
  then show ?thesis using groups_reachable_wf [of "[]" "\<lambda>_. None"] by simp
qed

end
