(* ===== verification/GroupProps.thy ===== *)
theory GroupProps
  imports GroupInvariants
begin

text \<open>
  What the group operations do: who may kick and who may disband, what disbanding and
  leaving do to the members, what a client is told about its group, and the run from an
  invitation to a group. The last section runs concrete sequences in which the slots of a
  group go wrong.
\<close>

section \<open>Membership of a player\<close>

definition gid_of :: "gworld \<Rightarrow> nat \<Rightarrow> clong \<times> bool" where
  "gid_of w p = (p_GroupID (player w p), p_AcceptedGroupInvite (player w p))"

lemma gid_of_frame [simp]:
  "gid_of (emit e w) p = gid_of w p" "gid_of (set_fault w) p = gid_of w p"
  "gid_of (on_group gid f w) p = gid_of w p" "gid_of (RemoveGroup gid w) p = gid_of w p"
  by (simp_all add: gid_of_def)

lemma gid_of_info [simp]: "gid_of (on_player q (on_info_of f) w) p = gid_of w p"
  by (cases "q < length (players w)"; cases "p = q")
    (simp_all add: gid_of_def on_player_def on_info_of_def list_update_beyond)

lemma gid_of_set [simp]:
  "q < length (players w) \<Longrightarrow>
   gid_of (on_player q (set_GroupID gid a) w) p = (if p = q then (gid, a) else gid_of w p)"
  by (auto simp: gid_of_def on_player_def set_GroupID_def)

lemma gid_of_fold:
  "(\<And>x w. gid_of (f x w) p = gid_of w p) \<Longrightarrow> gid_of (fold f xs w) p = gid_of w p"
  by (induction xs arbitrary: w) simp_all

lemma gid_of_BreakFormation [simp]: "gid_of (snd (BreakFormation x w)) p = gid_of w p"
  unfolding BreakFormation_def BreakFormation_members_def
  by (auto simp: Let_def gid_of_fold split: option.splits)

lemma gid_of_SendEmptyGroupAux:
  assumes "gw_wf w"
  shows "gid_of (SendEmptyGroupAux x w) p = (if find_player w x = Some p then (-1, False) else gid_of w p)"
  using assms by (auto simp: SendEmptyGroupAux_def Let_def gw_wf_def split: option.splits)

lemma SendEmptyGroupAux_fields [simp]:
  "m_GroupList (SendEmptyGroupAux x w) = m_GroupList w" "find_player (SendEmptyGroupAux x w) = find_player w"
  "fault (SendEmptyGroupAux x w) = fault w" "length (players (SendEmptyGroupAux x w)) = length (players w)"
  by (simp_all add: SendEmptyGroupAux_def Let_def split: option.splits)

lemma group_lookup:
  "group_at w gid = Some g \<Longrightarrow>
   Option.bind (GetGroupFromID w gid) (group_at w) = (if gid = -1 then None else Some g)"
  by (auto simp: GetGroupFromID_def dest: group_at_id)

section \<open>Who may do what\<close>

text \<open>
  Only the leader can kick. When the caller is not the first member of the group,
  \<^verbatim>\<open>KickFromGroup\<close> leaves all groups and all players as they are.
\<close>

theorem kick_needs_leader:
  assumes "group_at w gid = Some g" and "member_id g 0 \<noteq> LeaderID"
  shows "m_GroupList (KickFromGroup gid LeaderID PlayerID w) = m_GroupList w \<and>
    players (KickFromGroup gid LeaderID PlayerID w) = players w"
  using assms by (auto simp: KickFromGroup_def group_lookup split: option.splits)

definition trio :: Group where
  "trio = (new_Group 0)\<lparr>Member := map (\<lambda>i. ClearGroupMember\<lparr>GroupMember_GameID := i, GroupMember_Position := -1\<rparr>) [1, 2, 3, -1, -1, -1],
     AcceptedInvite := [True, True, False, False, False, False]\<rparr>"

definition a_player :: "clong \<Rightarrow> gplayer" where
  "a_player gid = \<lparr>p_GameID = 0, p_Name = [], p_GroupID = gid, p_AcceptedGroupInvite = (gid \<noteq> -1), p_Group = None,
     p_Confirmation = 0, p_SectorNum = 0, p_IsIncapacitated = False, p_Active = True, p_WarpDrive = False,
     p_HasSectorManager = False, p_CombatLevel = 1, p_ClassIndex = 0, p_ExposedNavList = [], p_ExploredNavList = [],
     p_GroupInfo = AuxGroupInfo_Init 0 []\<rparr>"

text \<open>A world with players 1 to 5 at indices 0 to 4; the first ones are in the given group.\<close>

definition world_of :: "Group list \<Rightarrow> gplayer list \<Rightarrow> gworld" where
  "world_of gs ps =
     (new_world ps (\<lambda>x. if 0 < unat x \<and> unat x \<le> length ps then Some (unat x - 1) else None) (\<lambda>_ _. 0) (\<lambda>_ _. True))
       \<lparr>m_GroupList := gs, m_NextGroup := of_nat (length gs)\<rparr>"

lemma kick_needs_leader_witness:
  "m_GroupList (KickFromGroup 0 2 3 (world_of [trio] [])) = m_GroupList (world_of [trio] [])"
  using kick_needs_leader [of "world_of [trio] []" 0 trio 2 3]
  by (simp add: world_of_def trio_def group_at_def new_world_def new_Group_def)

lemma group_at_remove:
  "distinct (map GroupID gs) \<Longrightarrow> find (\<lambda>g. GroupID g = gid) (remove_group gid gs) = None"
  by (induction gs) (auto simp: find_None_iff image_iff)

lemma DisbanGroup_ptr_removes: "gw_wf w \<Longrightarrow> group_at (DisbanGroup_ptr gid w) gid = None"
proof -
  assume w: "gw_wf w"
  show ?thesis
  proof (cases "group_at w gid")
    case None
    then show ?thesis by (simp add: DisbanGroup_ptr_def)
  next
    case (Some g)
    define w' where "w' = snd (BreakFormation (member_id g 0) (fold (\<lambda>i w. if GroupMember_GameID (Member g ! i) \<noteq> -1
                                then SendEmptyGroupAux (member_id g i) w else w) [0..<6] w))"
    have "gw_wf w'" unfolding w'_def using w by (intro gw_wf_BreakFormation gw_wf_fold) auto
    then have "distinct (map GroupID (m_GroupList w'))" by (simp add: gw_wf_def ids_ok_def)
    then show ?thesis using Some group_at_remove
      by (simp add: DisbanGroup_ptr_def Let_def w'_def [symmetric] group_at_def RemoveGroup_def)
  qed
qed

text \<open>
  Anyone can disband a group. \<^verbatim>\<open>DisbanGroup\<close> tells a caller who is not the leader so, but goes on:
  whoever the caller is, if he is online the group is gone afterwards.
\<close>

theorem anyone_can_disband:
  assumes "gw_wf w" and "group_at w gid = Some g" and "gid \<noteq> -1" and "find_player w PlayerID = Some p"
  shows "group_at (DisbanGroup gid PlayerID w) gid = None"
  using assms by (auto simp: DisbanGroup_def Let_def group_lookup intro!: DisbanGroup_ptr_removes)

lemma world_of_wf: "map GroupID gs = map of_nat [0..<length gs] \<Longrightarrow> length gs < 100 \<Longrightarrow> \<forall>g \<in> set gs. group_shape g \<Longrightarrow>
    gw_wf (world_of gs ps)"
proof -
  assume ids: "map GroupID gs = map of_nat [0..<length gs]" and n: "length gs < 100"
    and sh: "\<forall>g \<in> set gs. group_shape g"
  have "inj_on (of_nat :: nat \<Rightarrow> s32) {0..<length gs}"
    using n by (intro inj_onI, drule_tac f = unat in arg_cong) (simp add: unat_of_nat)
  then have "ids_ok (of_nat (length gs)) (map GroupID gs)"
    unfolding ids ids_ok_def using n by (auto simp: distinct_map unat_of_nat)
  then show ?thesis using sh
    by (auto simp: gw_wf_def world_of_def new_world_def split: if_splits)
qed

lemma trio_wf: "gw_wf (world_of [trio] ps)"
  by (rule world_of_wf) (simp_all add: trio_def new_Group_def group_shape_def)

lemma anyone_can_disband_witness:
  "group_at (DisbanGroup 0 2 (world_of [trio] (replicate 3 (a_player 0)))) 0 = None"
proof -
  let ?w = "world_of [trio] (replicate 3 (a_player 0))"
  have "group_at ?w 0 = Some trio" by (simp add: world_of_def group_at_def trio_def new_Group_def)
  moreover have "find_player ?w 2 = Some 1" by (simp add: world_of_def new_world_def)
  ultimately show ?thesis using anyone_can_disband [OF trio_wf] by simp
qed

section \<open>Disbanding\<close>

lemma gid_of_empty_all:
  assumes "gw_wf w"
  shows "gid_of (fold (\<lambda>i w. if P i then SendEmptyGroupAux (f i) w else w) is w) p =
    (if \<exists>i \<in> set is. P i \<and> find_player w (f i) = Some p then (-1, False) else gid_of w p)"
  using assms
proof (induction "is" arbitrary: w)
  case Nil
  then show ?case by simp
next
  case (Cons i "is")
  then show ?case by (auto simp: gid_of_SendEmptyGroupAux)
qed

text \<open>
  Disbanding releases every member. After \<^verbatim>\<open>DisbanGroup\<close> each player of the group that is
  online is in no group and has no accepted invitation, and no other player changed group.
\<close>

theorem disband_releases_members:
  assumes "gw_wf w" and "group_at w gid = Some g"
  shows "gid_of (DisbanGroup_ptr gid w) p =
     (if \<exists>i < 6. GroupMember_GameID (Member g ! i) \<noteq> -1 \<and> find_player w (member_id g i) = Some p
      then (-1, False) else gid_of w p)"
  using assms gid_of_empty_all [OF assms(1), of "\<lambda>i. GroupMember_GameID (Member g ! i) \<noteq> -1" "member_id g" "[0..<6]" p]
  by (simp add: DisbanGroup_ptr_def Let_def atLeast0LessThan Bex_def)

lemma disband_releases_members_witness:
  "gid_of (DisbanGroup_ptr 0 (world_of [trio] (replicate 3 (a_player 0)))) 1 = (-1, False)"
proof -
  let ?w = "world_of [trio] (replicate 3 (a_player 0))"
  have "group_at ?w 0 = Some trio" by (simp add: world_of_def group_at_def trio_def new_Group_def)
  moreover have "GroupMember_GameID (Member trio ! 1) \<noteq> -1 \<and> find_player ?w (member_id trio 1) = Some 1"
    by (simp add: world_of_def new_world_def trio_def new_Group_def)
  then have "\<exists>i < 6. GroupMember_GameID (Member trio ! i) \<noteq> -1 \<and> find_player ?w (member_id trio i) = Some 1"
    by (intro exI [of _ 1]) simp
  ultimately show ?thesis using disband_releases_members [OF trio_wf] by simp
qed


section \<open>What a member is told\<close>

definition others :: "Group \<Rightarrow> nat \<Rightarrow> nat list \<Rightarrow> nat list" where
  "others g i js = filter (\<lambda>j. j \<noteq> i \<and> AcceptedInvite g ! j) js"

lemma length_others: "length (others g i [0..<n]) \<le> n - of_bool (i < n)"
proof (induction n)
  case 0
  then show ?case by (simp add: others_def)
next
  case (Suc n)
  then show ?case by (auto simp: others_def split: if_splits)
qed

lemma info_members_loop_spec:
  assumes "i < 6"
  shows "n \<le> 6 \<Longrightarrow> offset + length (others g i [0..<n]) = n \<Longrightarrow>
    gs_Members info = map (\<lambda>j. Member g ! j) (others g i [0..<n]) @ drop (length (others g i [0..<n])) ms \<Longrightarrow>
    length ms = 5 \<Longrightarrow>
    \<exists>info'. info_members_loop g i [n..<6] offset info = Some info' \<and>
      gs_Members info' = map (\<lambda>j. Member g ! j) (others g i [0..<6]) @ drop (length (others g i [0..<6])) ms"
proof (induction "6 - n" arbitrary: n offset info)
  case 0
  then show ?case by simp
next
  case (Suc x)
  then have n: "n < 6" and x: "x = 6 - Suc n" by simp_all
  have upt: "[n..<6] = n # [Suc n..<6]" using n by (simp add: upt_conv_Cons)
  let ?k = "length (others g i [0..<n])"
  have oth: "others g i [0..<Suc n] = others g i [0..<n] @ (if n \<noteq> i \<and> AcceptedInvite g ! n then [n] else [])"
    by (simp add: others_def)
  consider "n = i" | "n \<noteq> i" "\<not> AcceptedInvite g ! n" | "n \<noteq> i" "AcceptedInvite g ! n" by blast
  then show ?case
  proof cases
    case 1
    then show ?thesis using Suc.hyps(1) [OF x, of "offset + 1"
        "info\<lparr>gs_Data := (gs_Data info)\<lparr>Formation := GroupMember_Formation (Member g ! n), Position := GroupMember_Position (Member g ! n)\<rparr>\<rparr>"]
      Suc.prems n oth unfolding upt by simp
  next
    case 2
    then show ?thesis using Suc.hyps(1) [OF x, of "offset + 1" info] Suc.prems n oth by (simp add: upt)
  next
    case 3
    have k: "n - offset = ?k" "offset \<le> n" using Suc.prems(2) by auto
    have "?k < 5" using length_others [of g i n] length_others [of g i "Suc n"] 3 oth n assms
      by (cases "i < n") (auto simp: less_Suc_eq)
    then have k5: "?k < length ms" using Suc.prems(4) by simp
    have "(gs_Members info)[?k := Member g ! n] =
        map (\<lambda>j. Member g ! j) (others g i [0..<n] @ [n]) @ drop (Suc ?k) ms"
      using k5 unfolding Suc.prems(3) by (simp add: list_update_append Cons_nth_drop_Suc [symmetric])
    moreover have "length (gs_Members info) = 5" using Suc.prems(3,4) k5 by simp
    ultimately show ?thesis
      using Suc.hyps(1) [OF x, of offset "info\<lparr>gs_Members := (gs_Members info)[?k := Member g ! n]\<rparr>"]
        3 Suc.prems n oth k \<open>?k < 5\<close> by (simp add: upt)
  qed
qed

text \<open>
  What a member is told about its group. \<^verbatim>\<open>SetGroupInfoMembersFromGroup\<close> stays inside the five
  member entries of the info block and fills it, in slot order, with exactly the members
  other than the addressee that accepted their invitation; the rest is left alone.
\<close>

theorem group_info_lists_others:
  assumes "MemberIndex < 6" and "length (gs_Members info) = 5"
  shows "\<exists>info'. SetGroupInfoMembersFromGroup info g MemberIndex = Some info' \<and>
    gs_Members info' = map (\<lambda>j. Member g ! j) (filter (\<lambda>j. j \<noteq> MemberIndex \<and> AcceptedInvite g ! j) [0..<6]) @
      drop (length (filter (\<lambda>j. j \<noteq> MemberIndex \<and> AcceptedInvite g ! j) [0..<6])) (gs_Members info)"
  using info_members_loop_spec [OF assms(1), of 0 0 g info "gs_Members info"] assms(2)
  by (simp add: SetGroupInfoMembersFromGroup_def others_def)

lemma group_info_lists_others_witness:
  "\<exists>info'. SetGroupInfoMembersFromGroup (zero_info trio) trio 1 = Some info' \<and>
     GroupMember_GameID (gs_Members info' ! 0) = 1"
proof -
  obtain info' where i: "SetGroupInfoMembersFromGroup (zero_info trio) trio 1 = Some info'"
    "gs_Members info' = map (\<lambda>j. Member trio ! j) (filter (\<lambda>j. j \<noteq> 1 \<and> AcceptedInvite trio ! j) [0..<6]) @
      drop (length (filter (\<lambda>j. j \<noteq> 1 \<and> AcceptedInvite trio ! j) [0..<6])) (gs_Members (zero_info trio))"
    using group_info_lists_others [of 1 "zero_info trio" trio] by (auto simp: zero_info_def)
  have "filter (\<lambda>j. j \<noteq> 1 \<and> AcceptedInvite trio ! j) [0..<6] = [0]"
    by (simp add: trio_def new_Group_def upt_rec)
  then show ?thesis using i by (simp add: trio_def new_Group_def)
qed

section \<open>Leaving\<close>

lemma group_at_on_group:
  assumes "group_at w gid = Some g" and "\<And>g. GroupID (f g) = GroupID g"
  shows "group_at (on_group gid f w) gid = Some (f g)"
proof -
  have "find (\<lambda>g. GroupID g = gid) (map (\<lambda>g. if GroupID g = gid then f g else g) gs) =
      map_option f (find (\<lambda>g. GroupID g = gid) gs)" for gs
    using assms(2) by (induction gs) auto
  then show ?thesis using assms(1) by (simp add: group_at_def on_group_def)
qed

lemma group_at_fold_on_group:
  "group_at w gid = Some g \<Longrightarrow> (\<And>x g. GroupID (f x g) = GroupID g) \<Longrightarrow>
   group_at (fold (\<lambda>x. on_group gid (f x)) xs w) gid = Some (fold f xs g)"
  by (induction xs arbitrary: w g) (auto simp: group_at_on_group)

definition shift_up :: "nat \<Rightarrow> Group \<Rightarrow> Group" where
  "shift_up i g = fold (\<lambda>x g. set_member x (\<lambda>_. Member g ! (x + 1)) g) [i..<5] g"

lemma shift_up_fields: "GroupID (shift_up i g) = GroupID g" "AcceptedInvite (shift_up i g) = AcceptedInvite g"
proof -
  have "GroupID (fold (\<lambda>x g. set_member x (\<lambda>_. Member g ! (x + 1)) g) xs g) = GroupID g \<and>
      AcceptedInvite (fold (\<lambda>x g. set_member x (\<lambda>_. Member g ! (x + 1)) g) xs g) = AcceptedInvite g" for xs
    by (induction xs arbitrary: g) (simp_all add: set_member_def)
  then show "GroupID (shift_up i g) = GroupID g" "AcceptedInvite (shift_up i g) = AcceptedInvite g"
    by (simp_all add: shift_up_def)
qed

lemma list6: "length xs = 6 \<Longrightarrow> \<exists>a b c d e f. xs = [a, b, c, d, e, f]"
  by (auto simp: numeral_eq_Suc length_Suc_conv)

lemma shift_up_members:
  assumes "length (Member g) = 6" and "i < 6"
  shows "(Member (shift_up i g))[5 := z] = take i (Member g) @ drop (Suc i) (Member g) @ [z]"
proof -
  obtain a b c d e f where m: "Member g = [a, b, c, d, e, f]" using list6 [OF assms(1)] by blast
  have "i = 0 \<or> i = 1 \<or> i = 2 \<or> i = 3 \<or> i = 4 \<or> i = 5" using assms(2) by auto
  then show ?thesis by (elim disjE) (simp_all add: shift_up_def set_member_def m upt_rec)
qed

lemma ucast_u32_minus_one: "ucast (-1 :: u32) = (0xFFFFFFFF :: clong)"
proof -
  have "(-1 :: u32) = 0xFFFFFFFF" by simp
  then show ?thesis by (simp only:) simp
qed

lemma ucast_minus_one: "ucast (-1 :: clong) = (-1 :: s32)"
  by (rule bit_word_eqI) (simp add: bit_simps)

lemma ungrouped_no_formation:
  assumes "\<And>p. find_player w x = Some p \<Longrightarrow> p_GroupID (player w p) = -1"
  shows "snd (BreakFormation x w) = w" "snd (LeaveFormation x w) = w"
  using assms
  by (auto simp: BreakFormation_def LeaveFormation_def GetGroupFromID_def Let_def ucast_minus_one split: option.splits)

lemma send_aux_loop_groups [simp]: "m_GroupList (send_aux_loop gid g is info w) = m_GroupList w"
  by (induction gid g "is" info w rule: send_aux_loop.induct) (auto simp: Let_def split: option.splits)

lemma count_removed:
  assumes "length ms = 6" and "i < 6" and "GroupMember_GameID (ms ! i) \<noteq> -1" and "GroupMember_GameID z = -1"
  shows "length (filter (\<lambda>m. GroupMember_GameID m \<noteq> -1) (take i ms @ drop (Suc i) ms @ [z])) + 1 =
    length (filter (\<lambda>m. GroupMember_GameID m \<noteq> -1) ms)"
proof -
  have "ms = take i ms @ ms ! i # drop (Suc i) ms" using assms(1,2) by (intro id_take_nth_drop) simp
  then have "length (filter (\<lambda>m. GroupMember_GameID m \<noteq> -1) ms) =
      length (filter (\<lambda>m. GroupMember_GameID m \<noteq> -1) (take i ms @ ms ! i # drop (Suc i) ms))" by simp
  then show ?thesis using assms(3,4) by simp
qed

text \<open>
  C30: leaving a group of three or more closes the gap. The members behind the leaver move
  up one slot (so the second member becomes leader when the leader leaves) and the last
  slot is empty, but the invitation marks are not moved: they keep the positions they had.
\<close>

theorem leave_shifts_members:
  assumes wf: "gw_wf w" and g: "group_at w gid = Some g" and i: "i < 6"
    and id: "GroupMember_GameID (Member g ! i) \<noteq> -1" and three: "3 \<le> count_members g"
    and leaver: "find_player w (member_id g i) = Some p"
  shows "\<exists>g'. group_at (RemovePlayerFromGroup gid i w) gid = Some g' \<and>
    Member g' = take i (Member g) @ drop (Suc i) (Member g) @ [ClearGroupMember\<lparr>GroupMember_GameID := -1\<rparr>] \<and>
    AcceptedInvite g' = AcceptedInvite g"
proof -
  let ?z = "ClearGroupMember\<lparr>GroupMember_GameID := -1\<rparr>"
  have len: "length (Member g) = 6" using gw_wf_shape [OF wf g] by (simp add: group_shape_def)
  define w1 where "w1 = on_player p (\<lambda>x. set_GroupID (-1) False (x\<lparr>p_Group := None\<rparr>)) w"
  define w2 where "w2 = SendEmptyGroupAux (member_id g i) w1"
  have wf1: "gw_wf w1" using wf by (simp add: w1_def)
  have "gid_of w2 p = (-1, False)" using gid_of_SendEmptyGroupAux [OF wf1] leaver by (simp add: w2_def w1_def)
  then have "p_GroupID (player w2 p) = -1" by (simp add: gid_of_def)
  then have stay: "snd (BreakFormation (member_id g i) w2) = w2" "snd (LeaveFormation (member_id g i) w2) = w2"
    using leaver by (auto intro!: ungrouped_no_formation simp: w2_def w1_def)
  have g2: "group_at w2 gid = Some g" using g by (simp add: group_at_def w2_def w1_def)
  define g3 where "g3 = set_member 5 (\<lambda>_. ?z) (shift_up i g)"
  define w3 where "w3 = on_group gid (set_member 5 (\<lambda>_. ?z))
    (fold (\<lambda>x. on_group gid (\<lambda>g. set_member x (\<lambda>_. Member g ! (x + 1)) g)) [i..<5] w2)"
  have g3: "group_at w3 gid = Some g3"
    unfolding w3_def g3_def shift_up_def
    by (intro group_at_on_group group_at_fold_on_group g2) (simp_all add: set_member_def)
  have m3: "Member g3 = take i (Member g) @ drop (Suc i) (Member g) @ [?z]"
    using shift_up_members [OF len i] by (simp add: g3_def set_member_def)
  have "count_members g3 + 1 = count_members g"
    using count_removed [OF len i id, of ?z] len i m3 by (simp add: count_members_def)
  then have "m_GroupList (SendAuxToGroup gid w3) = m_GroupList w3"
    using three g3 by (simp add: SendAuxToGroup_def)
  moreover have "(if i = 0 then snd (BreakFormation (member_id g i) w2) else snd (LeaveFormation (member_id g i) w2)) = w2"
      "(count_members g = 2) = False"
    using stay three by auto
  then have "RemovePlayerFromGroup gid i w = SendAuxToGroup gid w3"
    by (simp only: RemovePlayerFromGroup_def g leaver option.case Let_def if_False w1_def [symmetric]
        w2_def [symmetric] w3_def)
  moreover have "AcceptedInvite g3 = AcceptedInvite g" by (simp add: g3_def set_member_def shift_up_fields)
  ultimately show ?thesis using g3 m3 by (auto simp: group_at_def)
qed

lemma leave_shifts_members_witness:
  "\<exists>g'. group_at (RemovePlayerFromGroup 0 1 (world_of [trio] (replicate 3 (a_player 0)))) 0 = Some g' \<and>
     map GroupMember_GameID (Member g') = [1, 3, -1, -1, -1, -1] \<and> AcceptedInvite g' ! 1"
proof -
  let ?w = "world_of [trio] (replicate 3 (a_player 0))"
  have "group_at ?w 0 = Some trio" by (simp add: world_of_def group_at_def trio_def new_Group_def)
  moreover have "GroupMember_GameID (Member trio ! 1) \<noteq> -1" "find_player ?w (member_id trio 1) = Some 1"
    "3 \<le> count_members trio"
    by (simp_all add: world_of_def new_world_def trio_def new_Group_def count_members_def)
  ultimately obtain g' where "group_at (RemovePlayerFromGroup 0 1 ?w) 0 = Some g'"
      "Member g' = take 1 (Member trio) @ drop (Suc 1) (Member trio) @ [ClearGroupMember\<lparr>GroupMember_GameID := -1\<rparr>]"
      "AcceptedInvite g' = AcceptedInvite trio"
    using leave_shifts_members [OF trio_wf, of "replicate 3 (a_player 0)" 0 trio 1 1] by auto
  then show ?thesis by (simp add: trio_def new_Group_def)
qed

section \<open>From an invitation to a group\<close>

lemma gid_of_send_aux_loop:
  assumes "gw_wf w" and "length (gs_Members info) = 5" and "\<forall>i \<in> set is. i < 6"
  shows "gid_of (send_aux_loop gid g is info w) q =
    (if \<exists>i \<in> set is. find_player w (member_id g i) = Some q then (scast (GroupID g), True) else gid_of w q)"
  using assms
proof (induction "is" arbitrary: info w)
  case Nil
  then show ?case by simp
next
  case (Cons i "is")
  show ?case
  proof (cases "find_player w (member_id g i)")
    case None
    then show ?thesis using Cons by auto
  next
    case (Some p)
    obtain info' where info': "SetGroupInfoMembersFromGroup info g i = Some info'"
        "gs_Members info' = map (\<lambda>j. Member g ! j) (others g i [0..<6]) @ drop (length (others g i [0..<6])) (gs_Members info)"
      using info_members_loop_spec [of i 0 0 g info "gs_Members info"] Cons.prems
      by (auto simp: SetGroupInfoMembersFromGroup_def others_def)
    have "length (others g i [0..<6]) \<le> 5" using length_others [of g i 6] Cons.prems(3) by simp
    then have l: "length (gs_Members info') = 5" using info'(2) Cons.prems(2) by simp
    have "p < length (players w)" using Cons.prems(1) Some by (simp add: gw_wf_def)
    then show ?thesis using Some info'(1) l Cons.prems
      by (simp add: Let_def Cons.IH)
  qed
qed

lemma scast_not_minus_one: "(gid :: s32) \<noteq> -1 \<Longrightarrow> (scast gid :: clong) \<noteq> -1"
proof
  assume g: "gid \<noteq> -1" and "(scast gid :: clong) = -1"
  then have b: "bit (scast gid :: clong) k" if "k < 64" for k using that by simp
  have "gid = -1"
  proof (rule bit_word_eqI)
    fix k assume "k < LENGTH(32)"
    then show "bit gid k = bit (-1 :: s32) k" using b [of k] by (simp add: bit_signed_iff)
  qed
  with g show False by simp
qed

lemma replicate_6: "replicate 6 x = [x, x, x, x, x, x]"
  by (simp add: numeral_eq_Suc)

lemma GroupInvite_new_group:
  "\<exists>g. m_GroupList (GroupInvite_new l p x y w) = m_GroupList w @ [g] \<and> GroupID g = ucast (m_NextGroup w) \<and>
     map GroupMember_GameID (Member g) = [ucast x, ucast y, -1, -1, -1, -1] \<and> AcceptedInvite g = replicate 6 False"
  by (simp add: GroupInvite_new_def Let_def fill_slot_def set_member_def new_Group_def upt_rec replicate_6)

lemma gid_of_GroupInvite_new:
  assumes "l < length (players w)" and "p < length (players w)"
  shows "gid_of (GroupInvite_new l p x y w) q =
    (if q = p \<or> q = l then (scast (ucast (m_NextGroup w) :: s32), False) else gid_of w q)"
  using assms
  by (auto simp: GroupInvite_new_def Let_def SendGroupInvite_def gid_of_def on_player_def set_GroupID_def
      new_Group_def emit_def set_fault_def nth_list_update)

lemma gid_of_SendClickToGroup [simp]:
  "gid_of (SendClickToGroup gid p w) q = gid_of w q" "m_GroupList (SendClickToGroup gid p w) = m_GroupList w"
proof -
  have "m_GroupList (fold f xs w) = m_GroupList w" if "\<And>x w. m_GroupList (f x w) = m_GroupList w" for f :: "nat \<Rightarrow> gworld \<Rightarrow> gworld" and xs w
    using that by (induction xs arbitrary: w) simp_all
  then show "m_GroupList (SendClickToGroup gid p w) = m_GroupList w"
    by (auto simp: SendClickToGroup_def split: option.splits)
  show "gid_of (SendClickToGroup gid p w) q = gid_of w q"
    by (auto simp: SendClickToGroup_def split: option.splits intro!: gid_of_fold)
qed

text \<open>
  C22: the normal way into a group. A leader without a group invites a free player and the
  player accepts: before the answer they are not grouped, afterwards they are, in a new
  group whose first two slots are the leader and the player and whose other slots are empty.
\<close>

theorem invite_accept_groups:
  assumes wf: "gw_wf w" and n: "unat (m_NextGroup w) < 2 ^ 31" and gid: "gid = ucast (m_NextGroup w)"
    and L: "find_player w LeaderID = Some l" and P: "find_player w PlayerID = Some p"
    and free: "p_GroupID (player w p) = -1" "p_Confirmation (player w p) = 0"
    and ids: "ucast (ucast LeaderID :: u32) = LeaderID" "ucast (ucast PlayerID :: u32) = PlayerID"
      "(ucast LeaderID :: u32) \<noteq> -1" "(ucast PlayerID :: u32) \<noteq> -1"
    and w1: "w1 = GroupInvite (-1) LeaderID PlayerID w" and w2: "w2 = AcceptGroupInvite gid PlayerID w1"
  shows "\<not> CheckGrouped w1 (Some l) (Some p) \<and> CheckGrouped w2 (Some l) (Some p) \<and>
    (\<exists>g. group_at w2 gid = Some g \<and> map GroupMember_GameID (Member g) = [ucast LeaderID, ucast PlayerID, -1, -1, -1, -1])"
proof -
  have lp: "l < length (players w)" "p < length (players w)" using wf L P by (simp_all add: gw_wf_def)
  have w1': "w1 = GroupInvite_new l p LeaderID PlayerID w"
    using L P free by (simp add: w1 GroupInvite_def GetGroupFromID_def)
  obtain g where g: "m_GroupList w1 = m_GroupList w @ [g]" "GroupID g = gid"
      "map GroupMember_GameID (Member g) = [ucast LeaderID, ucast PlayerID, -1, -1, -1, -1]" "AcceptedInvite g = replicate 6 False"
    using GroupInvite_new_group gid w1' by metis
  have wf1: "gw_wf w1" unfolding w1' using wf n by (intro gw_wf_GroupInvite_new) simp_all
  have at1: "group_at w1 gid = Some g" using group_at_member [OF wf1, of g] g by simp
  have fp1: "find_player w1 = find_player w" by (simp add: w1' GroupInvite_new_fields)
  have gid1: "gid \<noteq> -1"
  proof -
    have "unat gid = unat (m_NextGroup w)" using n by (simp add: gid unsigned_ucast_eq take_bit_eq_mod)
    moreover have "unat (-1 :: s32) = 2 ^ 32 - 1" by (simp add: unsigned_minus_1_eq_mask mask_eq_exp_minus_1)
    ultimately show ?thesis using n by auto
  qed
  have not1: "\<not> CheckGrouped w1 (Some l) (Some p)"
    using gid_of_GroupInvite_new [OF lp, of LeaderID PlayerID l] by (simp add: CheckGrouped_def w1' gid_of_def)
  have "length (Member g) = 6" using arg_cong [OF g(3), of length] by simp
  then obtain a b c d e f where m: "Member g = [a, b, c, d, e, f]" using list6 by blast
  have mids: "GroupMember_GameID a = ucast LeaderID" "GroupMember_GameID b = ucast PlayerID" "GroupMember_GameID c = -1"
      "GroupMember_GameID d = -1" "GroupMember_GameID e = -1" "GroupMember_GameID f = -1"
    using g(3) m by simp_all
  have other: "(ucast (-1 :: u32) :: clong) \<noteq> PlayerID"
  proof
    assume "(ucast (-1 :: u32) :: clong) = PlayerID"
    then have "(ucast (0xFFFFFFFF :: clong) :: u32) = ucast PlayerID" by (simp only: ucast_u32_minus_one)
    then show False using ids(4) by simp
  qed
  have slot: "invited_slot g PlayerID = Some 1"
    using mids ids(2) other by (simp add: invited_slot_def last_index_def m)
  define g' where "g' = g\<lparr>AcceptedInvite := (AcceptedInvite g)[1 := True, 0 := True]\<rparr>"
  define v where "v = on_player p (\<lambda>x. set_GroupID (scast gid) True (x\<lparr>p_Group := Some gid\<rparr>))
    (on_group gid (\<lambda>g. g\<lparr>AcceptedInvite := (AcceptedInvite g)[1 := True, 0 := True]\<rparr>) w1)"
  have run: "w2 = SendClickToGroup gid p (SendAuxToGroup gid v)"
    using P slot gid1 at1 by (simp add: w2 AcceptGroupInvite_def group_lookup fp1 Let_def v_def)
  have atv: "group_at v gid = Some g'"
    unfolding v_def g'_def using group_at_on_group [OF at1] by simp
  have "count_members g' = 2" using mids ids(3,4) by (simp add: count_members_def g'_def m)
  then have aux: "SendAuxToGroup gid v = send_aux_loop gid g' [0..<2] (zero_info g') v"
    using atv by (simp add: SendAuxToGroup_def)
  have wfv: "gw_wf v" unfolding v_def using wf1 by simp
  have fpv: "find_player v = find_player w" by (simp add: v_def fp1)
  have mem: "member_id g' 0 = LeaderID" "member_id g' (Suc 0) = PlayerID" using mids ids by (simp_all add: g'_def m)
  have grouped: "gid_of w2 q = (scast gid, True)" if "q = l \<or> q = p" for q
    using gid_of_send_aux_loop [OF wfv, of "zero_info g'" "[0..<2]" gid g' q] that L P g(2) mem fpv
    unfolding run aux by (auto simp: zero_info_def g'_def upt_rec)
  then have "CheckGrouped w2 (Some l) (Some p)"
    using grouped [of l] grouped [of p] scast_not_minus_one [OF gid1] by (simp add: CheckGrouped_def gid_of_def)
  moreover have "group_at w2 gid = Some g'"
    using atv by (simp add: run aux group_at_def)
  ultimately show ?thesis using not1 g(3) by (simp add: g'_def)
qed

lemma invite_accept_groups_witness:
  "CheckGrouped (AcceptGroupInvite 0 2 (GroupInvite (-1) 1 2 (world_of [] [a_player (-1), a_player (-1)]))) (Some 0) (Some 1)"
proof -
  let ?w = "world_of [] [a_player (-1), a_player (-1)]"
  have "gw_wf ?w" by (rule world_of_wf) simp_all
  moreover have "find_player ?w 1 = Some 0" "find_player ?w 2 = Some 1" "m_NextGroup ?w = 0"
    "players ?w = [a_player (-1), a_player (-1)]"
    by (simp_all add: world_of_def new_world_def)
  ultimately show ?thesis
    using invite_accept_groups [of ?w 0 1 0 2 1, OF _ _ _ _ _ _ _ _ _ _ _ refl refl]
    by (simp add: a_player_def)
qed

section \<open>Sequences that go wrong\<close>

text \<open>
  A pending invitation becomes a membership. Player 3 has been invited to the group of
  players 1 and 2 and has not answered; when player 2 leaves, player 3 moves into his slot,
  inherits his invitation mark and counts as an accepted member.
\<close>

theorem leave_accepts_pending:
  "let w = world_of [trio] [a_player 0, a_player 0, (a_player 0)\<lparr>p_AcceptedGroupInvite := False\<rparr>];
       w' = LeaveGroup 0 2 w
   in \<not> CheckGrouped w (Some 0) (Some 2) \<and> CheckGrouped w' (Some 0) (Some 2) \<and>
      map_option (\<lambda>g. (map GroupMember_GameID (Member g), AcceptedInvite g)) (group_at w' 0) =
        Some ([1, 3, -1, -1, -1, -1], [True, True, False, False, False, False])"
  by code_simp

text \<open>
  An invitation can overwrite a member. In a group of players 1 to 4 with the
  invitation of player 3 pending, player 3 declines; the next player invited takes the
  slot whose number is the member count, which is the slot of player 4: he is still
  marked as grouped but in no slot of the group.
\<close>

theorem invite_overwrites_member:
  "let g = trio\<lparr>Member := map (\<lambda>i. ClearGroupMember\<lparr>GroupMember_GameID := i, GroupMember_Position := -1\<rparr>) [1, 2, 3, 4, -1, -1],
                AcceptedInvite := [True, True, False, True, False, False]\<rparr>;
       w = world_of [g] [a_player 0, a_player 0, a_player 0, a_player 0, a_player (-1)];
       w' = GroupInvite 0 1 5 (RejectGroupInvite 0 3 w)
   in map_option (\<lambda>g. map GroupMember_GameID (Member g)) (group_at w' 0) = Some [1, 2, -1, 5, -1, -1] \<and>
      CheckGrouped w' (Some 0) (Some 3)"
  by code_simp

text \<open>
  Forming up reads inside the position table exactly when the leader flies one of the
  formations 4, 5 and 6. When the leader has not started a formation his formation number
  is 0, and \<^verbatim>\<open>FormUp\<close> of another member in range indexes the table with -4.
\<close>

theorem FormUp_table_access:
  assumes "find_player w PID = Some p" and "\<not> p_IsIncapacitated (player w p)"
    and "group_at w gid = Some g" and "gid = ucast (p_GroupID (player w p))" and "gid \<noteq> -1"
    and "find_player w (member_id g 0) = Some leader" and "p_SectorNum (player w leader) = p_SectorNum (player w p)"
    and "\<not> f_less f_5000 (RangeFrom w p leader)" and "member_slot g PID = Some i" and "0 < i" and "i < 6"
    and "PlayerInRangeList w leader p"
  shows "fault (snd (FormUp PID w)) \<longleftrightarrow> fault w \<or> sint (GroupMember_Formation (Member g ! 0)) \<notin> {4..6}"
proof -
  have fg: "fault (on_group gid f w) = fault w" for f using assms(3) by (simp add: on_group_def)
  let ?F = "GroupMember_Formation (Member g ! 0)"
  have fp: "formation_position ?F i = None \<longleftrightarrow> sint ?F \<notin> {4..6}"
    using assms(11) by (auto simp: formation_position_def Let_def)
  show ?thesis
    using assms fg fp by (cases "formation_position ?F i") (simp_all add: FormUp_def Let_def group_lookup)
qed

lemma FormUp_table_access_witness:
  "fault (snd (FormUp 2 (world_of [trio] [a_player 0, a_player 0, a_player 0])))"
proof -
  let ?w = "world_of [trio] [a_player 0, a_player 0, a_player 0]"
  have "find_player ?w 2 = Some 1" "find_player ?w (member_id trio 0) = Some 0" "RangeFrom ?w 1 0 = 0"
    "PlayerInRangeList ?w 0 1" "players ?w = [a_player 0, a_player 0, a_player 0]"
    by (simp_all add: world_of_def new_world_def trio_def new_Group_def)
  moreover have "group_at ?w 0 = Some trio" by (simp add: world_of_def group_at_def trio_def new_Group_def)
  moreover have "\<not> f_less f_5000 0" by (simp add: f_less_def f_5000_def f_nan_def f_key_def)
  moreover have "member_slot trio 2 = Some 1" "sint (GroupMember_Formation (Member trio ! 0)) \<notin> {4..6}"
    by (simp_all add: member_slot_def last_index_def trio_def new_Group_def ClearGroupMember_def ucast_u32_minus_one)
  ultimately show ?thesis
    using FormUp_table_access [of ?w 2 1 0 trio 0 1] by (simp add: a_player_def)
qed

end
