(* ===== verification/WestwoodRC4.thy ===== *)
theory WestwoodRC4
  imports Net7_Prelude "HOL-Library.Multiset" "HOL-Library.Signed_Division"
begin

text \<open>
  The stream cipher of the client connection: class \<^verbatim>\<open>WestwoodRC4\<close> of
  \<^verbatim>\<open>server/src/WestwoodRC4.cpp\<close>. The object is a record, \<^verbatim>\<open>unsigned char\<close> is an 8-bit word, and
  an access outside the key or the buffer is \<^term>\<open>None\<close>, as is the division by a zero key length.
  The specification is the textbook cipher on natural numbers: a permutation of 0..255 as a
  function, a key schedule and a stream of key bytes.
\<close>

section \<open>The class\<close>

record rc4 =
  m_State :: bytes
  m_x :: u8
  m_y :: u8

definition SwapByte :: "nat \<Rightarrow> nat \<Rightarrow> bytes \<Rightarrow> bytes" where
  "SwapByte a b state = state[a := state ! b, b := state ! a]"

text \<open>
  The second loop of \<^verbatim>\<open>PrepareKey\<close>. The indices are \<^verbatim>\<open>unsigned char\<close> variables: the sums are
  computed as \<^verbatim>\<open>int\<close> and cut to a byte when they are stored.
\<close>

primrec PrepareKey_loop :: "nat \<Rightarrow> bytes \<Rightarrow> s32 \<Rightarrow> nat \<Rightarrow> u8 \<Rightarrow> u8 \<Rightarrow> bytes \<Rightarrow> bytes option" where
  "PrepareKey_loop 0 key len counter index1 index2 state = Some state"
| "PrepareKey_loop (Suc n) key len counter index1 index2 state =
     (if unat index1 < length key \<and> len \<noteq> 0
      then let index2' = of_nat ((unat (key ! unat index1) + unat (state ! counter) + unat index2) mod 256);
               state' = SwapByte counter (unat index2') state;
               index1' = of_int ((int (unat index1) + 1) smod sint len)
           in PrepareKey_loop n key len (counter + 1) index1' index2' state'
      else None)"

definition PrepareKey :: "bytes \<Rightarrow> s32 \<Rightarrow> rc4 option" where
  "PrepareKey key_data key_data_len =
     map_option (\<lambda>s. \<lparr>m_State = s, m_x = 0, m_y = 0\<rparr>)
       (PrepareKey_loop 256 key_data key_data_len 0 0 0 (map of_nat [0..<256]))"

primrec RC4_loop :: "nat \<Rightarrow> nat \<Rightarrow> bytes \<Rightarrow> rc4 \<Rightarrow> (bytes \<times> rc4) option" where
  "RC4_loop 0 counter buffer r = Some (buffer, r)"
| "RC4_loop (Suc n) counter buffer r =
     (if counter < length buffer
      then let x = of_nat ((unat (m_x r) + 1) mod 256);
               y = of_nat ((unat (m_State r ! unat x) + unat (m_y r)) mod 256);
               state = SwapByte (unat x) (unat y) (m_State r);
               xorIndex = (unat (state ! unat x) + unat (state ! unat y)) mod 256
           in RC4_loop n (counter + 1) (buffer[counter := (buffer ! counter) XOR (state ! xorIndex)])
                \<lparr>m_State = state, m_x = x, m_y = y\<rparr>
      else None)"

definition RC4 :: "bytes \<Rightarrow> clong \<Rightarrow> rc4 \<Rightarrow> (bytes \<times> rc4) option" where
  "RC4 buffer buffer_len r =
     (if buffer_len \<le>s 0 then Some (buffer, r) else RC4_loop (unat buffer_len) 0 buffer r)"

section \<open>The cipher as a stream\<close>

definition rc4_next :: "rc4 \<Rightarrow> u8 \<times> rc4" where
  "rc4_next r =
     (let x = m_x r + 1; y = m_State r ! unat x + m_y r; s = SwapByte (unat x) (unat y) (m_State r)
      in (s ! unat (s ! unat x + s ! unat y), \<lparr>m_State = s, m_x = x, m_y = y\<rparr>))"

fun rc4_stream :: "rc4 \<Rightarrow> bytes \<Rightarrow> bytes \<times> rc4" where
  "rc4_stream r [] = ([], r)"
| "rc4_stream r (b # bs) =
     (let (k, r1) = rc4_next r; (cs, r2) = rc4_stream r1 bs in ((b XOR k) # cs, r2))"

lemma of_nat_mod_256 [simp]: "(of_nat (n mod 256) :: u8) = of_nat n"
  by (simp add: word_unat_eq_iff unat_of_nat)

lemma unat_byte_of_nat: "unat (of_nat (n mod 256) :: u8) = n mod 256"
  by (simp add: unat_of_nat)

lemma unat_plus_mod: "(unat (a :: u8) + unat b) mod 256 = unat (a + b)"
  by (simp add: unat_word_ariths)

lemma RC4_loop_step:
  assumes "counter < length buffer" and "rc4_next r = (k, r1)"
  shows "RC4_loop (Suc n) counter buffer r =
    RC4_loop n (counter + 1) (buffer[counter := (buffer ! counter) XOR k]) r1"
proof -
  have x: "(of_nat ((unat (m_x r) + 1) mod 256) :: u8) = m_x r + 1" by (simp add: add.commute)
  have y: "(of_nat ((unat a + unat b) mod 256) :: u8) = a + b" for a b :: u8 by simp
  show ?thesis
    using assms unfolding RC4_loop.simps(2) x y unat_plus_mod rc4_next_def Let_def by simp
qed

lemma RC4_loop_stream:
  "RC4_loop (length bs) (length pre) (pre @ bs @ post) r =
     Some (pre @ fst (rc4_stream r bs) @ post, snd (rc4_stream r bs))"
proof (induction bs arbitrary: pre r)
  case (Cons b bs)
  obtain k r1 where k: "rc4_next r = (k, r1)" by fastforce
  have "RC4_loop (length (b # bs)) (length pre) (pre @ (b # bs) @ post) r =
      RC4_loop (length bs) (length (pre @ [b XOR k])) ((pre @ [b XOR k]) @ bs @ post) r1"
    using RC4_loop_step [OF _ k, of "length pre" "pre @ (b # bs) @ post"] by (simp del: RC4_loop.simps)
  then show ?case
    by (simp only: Cons.IH) (simp add: k split: prod.splits)
qed simp

lemma RC4_is_stream:
  assumes "length buffer < 2 ^ 63"
  shows "RC4 buffer (of_nat (length buffer)) r = Some (rc4_stream r buffer)"
proof -
  have n: "unat (of_nat (length buffer) :: clong) = length buffer"
    using assms by (simp add: unat_of_nat)
  moreover have "\<not> (of_nat (length buffer) :: clong) \<le>s 0" if "buffer \<noteq> []"
  proof -
    have "sint (of_nat (length buffer) :: clong) = int (length buffer)"
      using assms by (simp add: sint_uint unsigned_of_nat take_bit_nat_eq_self signed_take_bit_int_eq_self)
    then show ?thesis using that by (simp add: word_sle_eq)
  qed
  ultimately show ?thesis
    using RC4_loop_stream [of buffer "[]" "[]" r] by (cases "buffer = []") (auto simp: RC4_def)
qed

section \<open>Two ends of a connection\<close>

text \<open>
  What a connection needs of its cipher: the output is as long as the input, encrypting a
  message in pieces is the same as encrypting it at once, and encrypting the cipher text from
  the same state gives the plain text back and leaves the same state.
\<close>

locale stream_cipher =
  fixes crypt :: "'s \<Rightarrow> bytes \<Rightarrow> bytes \<times> 's"
  assumes crypt_nil: "crypt s [] = ([], s)"
    and crypt_append: "crypt s (a @ b) =
      (fst (crypt s a) @ fst (crypt (snd (crypt s a)) b), snd (crypt (snd (crypt s a)) b))"
    and crypt_back: "crypt s (fst (crypt s a)) = (a, snd (crypt s a))"
begin

fun crypt_all :: "'s \<Rightarrow> bytes list \<Rightarrow> bytes list \<times> 's" where
  "crypt_all s [] = ([], s)"
| "crypt_all s (m # ms) =
     (fst (crypt s m) # fst (crypt_all (snd (crypt s m)) ms), snd (crypt_all (snd (crypt s m)) ms))"

lemma crypt_all_concat:
  "concat (fst (crypt_all s ms)) = fst (crypt s (concat ms)) \<and> snd (crypt_all s ms) = snd (crypt s (concat ms))"
  by (induction ms arbitrary: s) (simp_all add: crypt_nil crypt_append)

lemma in_step:
  assumes "concat chunks = concat (fst (crypt_all s ms))"
  shows "concat (fst (crypt_all s chunks)) = concat ms \<and> snd (crypt_all s chunks) = snd (crypt_all s ms)"
  using assms crypt_all_concat [of s chunks] crypt_all_concat [of s ms] crypt_back [of s "concat ms"] by simp

end

lemma rc4_stream_append:
  "rc4_stream r (a @ b) =
     (fst (rc4_stream r a) @ fst (rc4_stream (snd (rc4_stream r a)) b),
      snd (rc4_stream (snd (rc4_stream r a)) b))"
  by (induction a arbitrary: r) (simp_all add: split_beta Let_def)

lemma rc4_stream_back: "rc4_stream r (fst (rc4_stream r a)) = (a, snd (rc4_stream r a))"
  by (induction a arbitrary: r) (simp_all add: split_beta Let_def xor.assoc)

lemma length_rc4_stream [simp]: "length (fst (rc4_stream r bs)) = length bs"
  by (induction bs arbitrary: r) (simp_all add: split_beta Let_def)

interpretation rc4: stream_cipher rc4_stream
  by unfold_locales (simp_all add: rc4_stream_append rc4_stream_back)

text \<open>One call of \<^verbatim>\<open>RC4\<close> per buffer, in order, as the connection makes them.\<close>

primrec RC4_calls :: "bytes list \<Rightarrow> rc4 \<Rightarrow> (bytes list \<times> rc4) option" where
  "RC4_calls [] r = Some ([], r)"
| "RC4_calls (b # bs) r = do {
     (c, r1) \<leftarrow> RC4 b (of_nat (length b)) r;
     (cs, r2) \<leftarrow> RC4_calls bs r1;
     Some (c # cs, r2)
   }"

lemma RC4_calls_stream:
  "list_all (\<lambda>b. length b < 2 ^ 63) bs \<Longrightarrow> RC4_calls bs r = Some (rc4.crypt_all r bs)"
  by (induction bs arbitrary: r) (simp_all add: RC4_is_stream split_beta)

section \<open>The textbook cipher\<close>

text \<open>
  The key schedule and the generator on natural numbers below 256. \<^verbatim>\<open>ksa K n\<close> is the state after
  \<^verbatim>\<open>n\<close> rounds; \<^verbatim>\<open>prga\<close> gives the next key byte and the next state.
\<close>

definition swapf :: "nat \<Rightarrow> nat \<Rightarrow> (nat \<Rightarrow> nat) \<Rightarrow> nat \<Rightarrow> nat" where
  "swapf i j S = S(i := S j, j := S i)"

fun ksa :: "(nat \<Rightarrow> nat) \<Rightarrow> nat \<Rightarrow> nat \<times> (nat \<Rightarrow> nat)" where
  "ksa K 0 = (0, id)"
| "ksa K (Suc i) = (let (j, S) = ksa K i; j' = (j + S i + K i) mod 256 in (j', swapf i j' S))"

fun prga :: "nat \<Rightarrow> nat \<Rightarrow> nat \<Rightarrow> (nat \<Rightarrow> nat) \<Rightarrow> nat list" where
  "prga 0 i j S = []"
| "prga (Suc n) i j S =
     (let i' = (i + 1) mod 256; j' = (j + S i') mod 256; S' = swapf i' j' S
      in S' ((S' i' + S' j') mod 256) # prga n i' j' S')"

definition state_rel :: "bytes \<Rightarrow> (nat \<Rightarrow> nat) \<Rightarrow> bool" where
  "state_rel st S \<longleftrightarrow> length st = 256 \<and> (\<forall>i < 256. unat (st ! i) = S i)"

lemma state_rel_nth: "state_rel st S \<Longrightarrow> i < 256 \<Longrightarrow> unat (st ! i) = S i"
  by (simp add: state_rel_def)

lemma unat_u8_less [simp]: "unat (w :: u8) < 256"
  using unsigned_less [of w] by simp

lemma state_rel_word: "state_rel st S \<Longrightarrow> unat (st ! unat (w :: u8)) = S (unat w)"
  using state_rel_nth [of st S "unat w"] unat_u8_less by blast

lemma state_rel_swap:
  "state_rel st S \<Longrightarrow> i < 256 \<Longrightarrow> j < 256 \<Longrightarrow> state_rel (SwapByte i j st) (swapf i j S)"
  by (auto simp: state_rel_def SwapByte_def swapf_def nth_list_update)

lemma smod_nat: "int a smod int b = int (a mod b)"
  by (cases "a = 0") (simp_all add: smod_int_alt_def zmod_int)

lemma PrepareKey_loop_ksa:
  assumes "counter + n = 256" and "key \<noteq> []" and "length key < 2 ^ 31"
    and "state_rel st S" and "ksa (\<lambda>i. unat (key ! (i mod length key))) counter = (unat index2, S)"
    and "counter < 256 \<Longrightarrow> unat index1 = counter mod length key"
  shows "\<exists>st'. PrepareKey_loop n key (of_nat (length key)) counter index1 index2 st = Some st' \<and>
    state_rel st' (snd (ksa (\<lambda>i. unat (key ! (i mod length key))) 256))"
  using assms
proof (induction n arbitrary: counter index1 index2 st S)
  case 0
  then show ?case by (auto dest: arg_cong [where f = snd])
next
  case (Suc n)
  let ?K = "\<lambda>i. unat (key ! (i mod length key))"
  define j where "j = (of_nat ((unat (key ! unat index1) + unat (st ! counter) + unat index2) mod 256) :: u8)"
  have c: "counter < 256" and i1: "unat index1 = counter mod length key" using Suc.prems by auto
  have ju: "unat j = (unat index2 + S counter + ?K counter) mod 256"
    unfolding j_def unat_byte_of_nat i1 state_rel_nth [OF Suc.prems(4) c] by (simp add: ac_simps)
  have k: "ksa ?K (Suc counter) = (unat j, swapf counter (unat j) S)"
    using Suc.prems(5) ju by (simp add: Let_def)
  have len: "sint (of_nat (length key) :: s32) = int (length key)" and nz: "(of_nat (length key) :: s32) \<noteq> 0"
    using Suc.prems(2,3)
    by (simp_all add: sint_uint unsigned_of_nat take_bit_nat_eq_self signed_take_bit_int_eq_self
        word_unat_eq_iff unat_of_nat)
  have i1': "unat (of_int ((int (unat index1) + 1) smod int (length key)) :: u8) = (counter + 1) mod length key"
    if "counter + 1 < 256"
  proof -
    have "(int (unat index1) + 1) smod int (length key) = int ((counter + 1) mod length key)"
      using smod_nat [of "Suc (unat index1)" "length key"] i1 by (simp add: mod_Suc_eq add.commute)
    moreover have "(counter + 1) mod length key < 256"
      using that by (meson le_less_trans mod_less_eq_dividend)
    ultimately show ?thesis by (simp add: unat_of_nat)
  qed
  have "\<exists>st'. PrepareKey_loop n key (of_nat (length key)) (counter + 1)
      (of_int ((int (unat index1) + 1) smod int (length key))) j (SwapByte counter (unat j) st) = Some st' \<and>
      state_rel st' (snd (ksa ?K 256))"
    using Suc.prems k i1' by (intro Suc.IH [where S = "swapf counter (unat j) S"])
      (simp_all add: state_rel_swap del: ksa.simps)
  moreover have "unat index1 < length key" using i1 Suc.prems(2) by simp
  ultimately show ?case using nz unfolding PrepareKey_loop.simps(2) len Let_def j_def by simp
qed

lemma PrepareKey_state:
  assumes "key \<noteq> []" and "length key < 2 ^ 31"
  shows "\<exists>st. PrepareKey key (of_nat (length key)) = Some \<lparr>m_State = st, m_x = 0, m_y = 0\<rparr> \<and>
    state_rel st (snd (ksa (\<lambda>i. unat (key ! (i mod length key))) 256))"
proof -
  have "state_rel (map of_nat [0..<256]) id"
    by (simp add: state_rel_def unat_of_nat)
  then show ?thesis
    using PrepareKey_loop_ksa [of 0 256 key "map of_nat [0..<256]" id 0 0] assms
    by (auto simp: PrepareKey_def simp del: PrepareKey_loop.simps)
qed

lemma rc4_next_prga:
  assumes "state_rel (m_State r) S" and "rc4_next r = (k, r')"
  shows "\<exists>S'. state_rel (m_State r') S' \<and>
    prga (Suc n) (unat (m_x r)) (unat (m_y r)) S = unat k # prga n (unat (m_x r')) (unat (m_y r')) S'"
proof -
  define x y where "x = m_x r + 1" and "y = m_State r ! unat x + m_y r"
  let ?s = "SwapByte (unat x) (unat y) (m_State r)" and ?S = "swapf (unat x) (unat y) S"
  have r': "k = ?s ! unat (?s ! unat x + ?s ! unat y)" "r' = \<lparr>m_State = ?s, m_x = x, m_y = y\<rparr>"
    using assms(2) by (simp_all add: rc4_next_def Let_def x_def y_def)
  have rel: "state_rel ?s ?S" using assms(1) by (simp add: state_rel_swap)
  have x: "(unat (m_x r) + 1) mod 256 = unat x" by (simp add: x_def unat_word_ariths)
  have y: "(unat (m_y r) + S (unat x)) mod 256 = unat y"
    using state_rel_word [OF assms(1), of x] by (simp add: y_def unat_word_ariths add.commute)
  have k: "?S ((?S (unat x) + ?S (unat y)) mod 256) = unat k"
    unfolding r' state_rel_word [OF rel, symmetric] unat_plus_mod ..
  show ?thesis using rel unfolding prga.simps x y Let_def k r' by auto
qed

lemma rc4_stream_prga:
  "state_rel (m_State r) S \<Longrightarrow>
   fst (rc4_stream r bs) = map2 (\<lambda>b k. b XOR of_nat k) bs (prga (length bs) (unat (m_x r)) (unat (m_y r)) S)"
proof (induction bs arbitrary: r S)
  case (Cons b bs)
  obtain k r' where k: "rc4_next r = (k, r')" by fastforce
  obtain S' where S': "state_rel (m_State r') S'" "prga (Suc (length bs)) (unat (m_x r)) (unat (m_y r)) S =
      unat k # prga (length bs) (unat (m_x r')) (unat (m_y r')) S'"
    using rc4_next_prga [OF Cons.prems k] by blast
  then show ?case using Cons.IH [OF S'(1)] k by (simp add: split_beta Let_def del: prga.simps)
qed simp

lemma mset_SwapByte: "a < length st \<Longrightarrow> b < length st \<Longrightarrow> mset (SwapByte a b st) = mset st"
  unfolding SwapByte_def by (rule mset_swap)

definition all_bytes :: "bytes" where
  "all_bytes = map of_nat [0..<256]"

lemma rc4_next_mset:
  "mset (m_State r) = mset all_bytes \<Longrightarrow> mset (m_State (snd (rc4_next r))) = mset all_bytes"
  using mset_eq_length [of "m_State r" all_bytes]
  by (simp add: rc4_next_def Let_def mset_SwapByte all_bytes_def)

lemma rc4_stream_mset:
  "mset (m_State r) = mset all_bytes \<Longrightarrow> mset (m_State (snd (rc4_stream r bs))) = mset all_bytes"
  by (induction bs arbitrary: r) (simp_all add: rc4_next_mset split_beta Let_def)

lemma PrepareKey_loop_mset:
  assumes "mset st = mset all_bytes" and "counter + n = 256"
    and "PrepareKey_loop n key len counter i1 i2 st = Some st'"
  shows "mset st' = mset all_bytes"
  using assms
proof (induction n arbitrary: counter i1 i2 st)
  case (Suc n)
  have "length st = 256" using mset_eq_length [OF Suc.prems(1)] by (simp add: all_bytes_def)
  then have sw: "mset (SwapByte counter (unat (j :: u8)) st) = mset all_bytes" for j
    using Suc.prems(1,2) by (simp add: mset_SwapByte)
  obtain i j where "PrepareKey_loop n key len (counter + 1) i j (SwapByte counter (unat j) st) = Some st'"
    using Suc.prems(3) unfolding PrepareKey_loop.simps(2) Let_def by (auto split: if_splits)
  then show ?case using Suc.IH [OF sw, of "counter + 1"] Suc.prems(2) by auto
qed simp

section \<open>Properties\<close>

text \<open>
  Both ends of a connection stay in step. They prepare their objects with the same key
  (neither empty nor longer than an \<^verbatim>\<open>int\<close> counts). One end encrypts a sequence of messages, each with
  its own call; the other receives the bytes in whatever pieces the network delivers and
  decrypts piece by piece. It recovers exactly the plain bytes, and both objects end in the same
  state, ready for the next message.
\<close>

theorem RC4_two_ends:
  assumes "key \<noteq> []" and "length key < 2 ^ 31" and "list_all (\<lambda>b. length b < 2 ^ 63) messages"
  shows "\<exists>r sent r'. PrepareKey key (of_nat (length key)) = Some r \<and> RC4_calls messages r = Some (sent, r') \<and>
    (\<forall>pieces. concat pieces = concat sent \<and> list_all (\<lambda>b. length b < 2 ^ 63) pieces \<longrightarrow>
      (\<exists>plain. RC4_calls pieces r = Some (plain, r') \<and> concat plain = concat messages))"
proof -
  obtain r where r: "PrepareKey key (of_nat (length key)) = Some r"
    using PrepareKey_state [OF assms(1,2)] by blast
  obtain sent r' where m: "rc4.crypt_all r messages = (sent, r')" by fastforce
  have "\<exists>plain. RC4_calls pieces r = Some (plain, r') \<and> concat plain = concat messages"
    if "concat pieces = concat sent" and l: "list_all (\<lambda>b. length b < 2 ^ 63) pieces" for pieces
    using rc4.in_step [of pieces r messages] RC4_calls_stream [OF l, of r] that(1) m
    by (metis fst_conv prod.collapse snd_conv)
  then show ?thesis using r m RC4_calls_stream [OF assms(3), of r] by metis
qed

theorem RC4_two_ends_witness:
  "\<exists>r sent r' plain. PrepareKey [0x4B, 0x65, 0x79] 3 = Some r \<and>
     RC4_calls [[1, 2], [3]] r = Some (sent, r') \<and>
     RC4_calls [concat sent] r = Some (plain, r') \<and> concat plain = [1, 2, 3]"
proof -
  obtain r sent r' where r: "PrepareKey [0x4B, 0x65, 0x79] 3 = Some r" "RC4_calls [[1, 2], [3]] r = Some (sent, r')"
      and dec: "\<And>pieces. concat pieces = concat sent \<Longrightarrow> list_all (\<lambda>b. length b < 2 ^ 63) pieces \<Longrightarrow>
        \<exists>plain. RC4_calls pieces r = Some (plain, r') \<and> concat plain = [1, 2, 3]"
    using RC4_two_ends [of "[0x4B, 0x65, 0x79]" "[[1, 2], [3]]"] by auto
  have "concat sent = concat (fst (rc4.crypt_all r [[1, 2], [3]]))"
    using r(2) RC4_calls_stream [of "[[1, 2], [3]]" r] by simp
  then have "length (concat sent) = 3" by (simp add: split_beta)
  then show ?thesis using r dec [of "[concat sent]"] by auto
qed

text \<open>
  C21: the class is the textbook cipher. For a key of 1 to \<^verbatim>\<open>2^31 - 1\<close> bytes the key schedule
  and the generator, with their \<^verbatim>\<open>unsigned char\<close> indices, combine each byte of the buffer with the byte
  the textbook key stream has at that place.
\<close>

theorem RC4_textbook:
  assumes "key \<noteq> []" and "length key < 2 ^ 31" and "length buffer < 2 ^ 63"
  shows "\<exists>r r'. PrepareKey key (of_nat (length key)) = Some r \<and>
    RC4 buffer (of_nat (length buffer)) r =
      Some (map2 (\<lambda>b k. b XOR of_nat k) buffer
        (prga (length buffer) 0 0 (snd (ksa (\<lambda>i. unat (key ! (i mod length key))) 256))), r')"
proof -
  obtain st where st: "PrepareKey key (of_nat (length key)) = Some \<lparr>m_State = st, m_x = 0, m_y = 0\<rparr>"
      "state_rel st (snd (ksa (\<lambda>i. unat (key ! (i mod length key))) 256))"
    using PrepareKey_state [OF assms(1,2)] by blast
  let ?r = "\<lparr>m_State = st, m_x = 0, m_y = 0\<rparr>"
  have "fst (rc4_stream ?r buffer) = map2 (\<lambda>b k. b XOR of_nat k) buffer
      (prga (length buffer) 0 0 (snd (ksa (\<lambda>i. unat (key ! (i mod length key))) 256)))"
    using rc4_stream_prga [of ?r _ buffer] st(2) by simp
  then show ?thesis using st(1) RC4_is_stream [OF assms(3), of ?r] by (metis prod.collapse)
qed

theorem RC4_textbook_witness:
  "\<exists>r r'. PrepareKey [0x4B, 0x65, 0x79] 3 = Some r \<and>
    RC4 [0x50] 1 r =
      Some ([0x50 XOR of_nat (hd (prga 1 0 0 (snd (ksa (\<lambda>i. unat ([0x4B, 0x65, 0x79 :: u8] ! (i mod 3))) 256))))], r')"
  using RC4_textbook [of "[0x4B, 0x65, 0x79]" "[0x50]"] by (simp add: Let_def)

text \<open>
  C32: the state of a prepared object is a permutation of the 256 byte values, after the key
  schedule and after any number of calls of \<^verbatim>\<open>RC4\<close>.
\<close>

theorem RC4_state_permutation:
  assumes "PrepareKey key len = Some r" and "list_all (\<lambda>b. length b < 2 ^ 63) buffers"
  shows "\<exists>out r'. RC4_calls buffers r = Some (out, r') \<and>
    mset (m_State r') = mset all_bytes \<and> distinct (m_State r')"
proof -
  have r: "mset (m_State r) = mset all_bytes"
    using assms(1) PrepareKey_loop_mset [of all_bytes 0 256 key len 0 0]
    by (auto simp: PrepareKey_def all_bytes_def simp del: PrepareKey_loop.simps)
  have *: "mset (m_State (snd (rc4.crypt_all r buffers))) = mset all_bytes"
    using rc4_stream_mset [OF r] rc4.crypt_all_concat by simp
  have "distinct all_bytes"
    by (auto simp: all_bytes_def distinct_map inj_on_def word_unat_eq_iff unat_of_nat)
  then have "distinct (m_State (snd (rc4.crypt_all r buffers)))"
    using * mset_eq_imp_distinct_iff by blast
  then show ?thesis using * RC4_calls_stream [OF assms(2)] by (metis prod.collapse)
qed

theorem RC4_state_permutation_witness:
  "\<exists>r out r'. PrepareKey [0x4B, 0x65, 0x79] 3 = Some r \<and> RC4_calls [[1, 2], [3]] r = Some (out, r') \<and>
    mset (m_State r') = mset all_bytes \<and> distinct (m_State r')"
proof -
  obtain r where r: "PrepareKey [0x4B, 0x65, 0x79] 3 = Some r"
    using PrepareKey_state [of "[0x4B, 0x65, 0x79]"] by auto
  show ?thesis using r RC4_state_permutation [OF r, of "[[1, 2], [3]]"] by auto
qed

end
