(* ===== verification/StringManager.thy ===== *)
theory StringManager
  imports Net7_Prelude
begin

text \<open>
  The string table of the server: class \<^verbatim>\<open>StringManager\<close> of \<^verbatim>\<open>server/src/StringManager.cpp\<close>. One block
  of memory holds every string the server interns and an open hash table with linear probing
  finds them again; nothing is ever removed. A \<^verbatim>\<open>char *\<close> into the block is its offset, the two
  sizes (\<^verbatim>\<open>STRING_TABLE_SIZE\<close>, \<^verbatim>\<open>STRING_MEMORY_SIZE\<close>) are the lengths of the table and of the block, and
  the content of the fresh block is arbitrary. An access outside the block is \<^term>\<open>None\<close>.

  The specification is a finite map from strings to pointers that only grows. The locale
  \<^verbatim>\<open>interner\<close> is what the callers rely on: a pointer stays valid, and two pointers are equal
  exactly when their strings are.
\<close>

section \<open>The class\<close>

definition STRING_EMPTY :: u64 where "STRING_EMPTY = 0"
definition STRING_BUSY :: u64 where "STRING_BUSY = 1"

record hash_element =
  elem_Str :: nat
  Busy :: u64

record string_manager =
  Table :: "hash_element list"
  m_Memory :: bytes
  m_CurLoc :: nat

definition StringManager :: "nat \<Rightarrow> bytes \<Rightarrow> string_manager option" where
  "StringManager table_size fresh = do {
     mem \<leftarrow> poke fresh 0 [0];
     Some \<lparr>Table = replicate table_size \<lparr>elem_Str = 0, Busy = 0\<rparr>, m_Memory = mem, m_CurLoc = 1\<rparr>
   }"

definition NullStr :: nat where
  "NullStr = 0"

text \<open>
  \<^verbatim>\<open>strcpy_s\<close> of \<^verbatim>\<open>Net7.h\<close>: \<^verbatim>\<open>strncpy\<close> of \<^verbatim>\<open>size - 1\<close> bytes, which fills the rest of the destination
  with zeros, and a terminator in the last byte. The size arrives as \<^verbatim>\<open>size_t\<close>.
\<close>

definition strcpy_s :: "bytes \<Rightarrow> nat \<Rightarrow> int \<Rightarrow> bytes \<Rightarrow> bytes option" where
  "strcpy_s mem dst sz src =
     (let n = nat (sz mod 2 ^ 64)
      in if n = 0 then Some mem
         else poke mem dst (take (n - 1) src @ replicate (n - 1 - length src) 0 @ [0]))"

text \<open>\<^verbatim>\<open>strcmp\<close> with a string in the block: a fault when that string has no terminator.\<close>

definition same_str :: "bytes \<Rightarrow> nat \<Rightarrow> bytes \<Rightarrow> bool option" where
  "same_str mem p s = (if 0 \<in> set (drop p mem) then Some (cstr_of (drop p mem) = s) else None)"

primrec djb2 :: "bytes \<Rightarrow> u64 \<Rightarrow> u64" where
  "djb2 [] Hash = Hash"
| "djb2 (c # cs) Hash = djb2 cs ((push_bit 5 Hash + Hash) + scast c)"

definition HashStr :: "string_manager \<Rightarrow> bytes \<Rightarrow> nat" where
  "HashStr sm s = unat (djb2 s 5381) mod length (Table sm)"

text \<open>The loop of \<^verbatim>\<open>HashCollision\<close>; \<^verbatim>\<open>n\<close> counts the rounds that are left.\<close>

primrec HashCollision_loop :: "nat \<Rightarrow> nat \<Rightarrow> bytes \<Rightarrow> string_manager \<Rightarrow> nat option" where
  "HashCollision_loop 0 Hash s sm = Some (length (Table sm))"
| "HashCollision_loop (Suc n) Hash s sm =
     (let h = (Hash + 1) mod length (Table sm); e = Table sm ! h
      in if Busy e = STRING_EMPTY then Some h
         else do {
           eq \<leftarrow> same_str (m_Memory sm) (elem_Str e) s;
           if eq then Some h else HashCollision_loop n h s sm
         })"

definition HashCollision :: "nat \<Rightarrow> bytes \<Rightarrow> string_manager \<Rightarrow> nat option" where
  "HashCollision Hash s sm = HashCollision_loop (length (Table sm) - 1) Hash s sm"

definition AddStr :: "nat \<Rightarrow> bytes \<Rightarrow> string_manager \<Rightarrow> (nat \<times> string_manager) option" where
  "AddStr Hash s sm = do {
     mem \<leftarrow> strcpy_s (m_Memory sm) (m_CurLoc sm) (int (length (m_Memory sm)) - int (m_CurLoc sm)) s;
     let sm' = sm\<lparr>Table := (Table sm)[Hash := \<lparr>elem_Str = m_CurLoc sm, Busy = STRING_BUSY\<rparr>],
                  m_Memory := mem, m_CurLoc := m_CurLoc sm + length s + 1\<rparr>;
     Some (elem_Str (Table sm' ! Hash), sm')
   }"

definition GetStr :: "bytes option \<Rightarrow> string_manager \<Rightarrow> (nat \<times> string_manager) option" where
  "GetStr str sm =
     (case str of None \<Rightarrow> Some (NullStr, sm)
      | Some s \<Rightarrow>
          if s = [] then Some (NullStr, sm)
          else let Hash = HashStr sm s; e = Table sm ! Hash
               in if Busy e = STRING_BUSY
                  then do {
                    eq \<leftarrow> same_str (m_Memory sm) (elem_Str e) s;
                    if \<not> eq
                    then do {
                      h \<leftarrow> HashCollision Hash s sm;
                      if h = length (Table sm) then Some (NullStr, sm)
                      else if Busy (Table sm ! h) = STRING_BUSY then Some (elem_Str (Table sm ! h), sm)
                      else AddStr h s sm
                    }
                    else Some (elem_Str e, sm)
                  }
                  else AddStr Hash s sm)"

definition count_busy :: "string_manager \<Rightarrow> nat" where
  "count_busy sm = length (filter (\<lambda>e. Busy e = STRING_BUSY) (Table sm))"

text \<open>The three numbers that \<^verbatim>\<open>Statistics\<close> prints: slots used, bytes used, bytes left.\<close>

definition Statistics :: "string_manager \<Rightarrow> nat \<times> int \<times> int" where
  "Statistics sm = (count_busy sm, int (m_CurLoc sm), int (length (m_Memory sm)) - int (m_CurLoc sm))"

section \<open>The invariant\<close>

definition str_at :: "string_manager \<Rightarrow> nat \<Rightarrow> bytes" where
  "str_at sm p = cstr_of (drop p (m_Memory sm))"

definition busy :: "string_manager \<Rightarrow> nat \<Rightarrow> bool" where
  "busy sm i \<longleftrightarrow> Busy (Table sm ! i) = STRING_BUSY"

definition entry :: "string_manager \<Rightarrow> nat \<Rightarrow> bytes" where
  "entry sm i = str_at sm (elem_Str (Table sm ! i))"

definition ring_dist :: "nat \<Rightarrow> nat \<Rightarrow> nat \<Rightarrow> nat" where
  "ring_dist N h i = (i + N - h) mod N"

definition sm_wf :: "string_manager \<Rightarrow> bool" where
  "sm_wf sm \<longleftrightarrow>
     Table sm \<noteq> [] \<and> 1 \<le> m_CurLoc sm \<and> m_CurLoc sm \<le> length (m_Memory sm) \<and>
     length (m_Memory sm) < 2 ^ 63 \<and> m_Memory sm ! 0 = 0 \<and>
     (\<forall>i < length (Table sm). Busy (Table sm ! i) \<in> {STRING_EMPTY, STRING_BUSY} \<and>
        (busy sm i \<longrightarrow>
           1 \<le> elem_Str (Table sm ! i) \<and> entry sm i \<noteq> [] \<and>
           elem_Str (Table sm ! i) + length (entry sm i) < m_CurLoc sm \<and>
           (\<forall>d < ring_dist (length (Table sm)) (HashStr sm (entry sm i)) i.
              busy sm ((HashStr sm (entry sm i) + d) mod length (Table sm))) \<and>
           (\<forall>j < length (Table sm). busy sm j \<and> entry sm j = entry sm i \<longrightarrow> j = i)))"

text \<open>The specification: the map from interned strings to their pointers.\<close>

definition interned :: "string_manager \<Rightarrow> bytes \<Rightarrow> nat option" where
  "interned sm s = map_option (\<lambda>i. elem_Str (Table sm ! i))
     (first_index (\<lambda>i. busy sm i \<and> entry sm i = s) [0..<length (Table sm)])"

lemma ring_dist_back: "h < N \<Longrightarrow> i < N \<Longrightarrow> (h + ring_dist N h i) mod N = i"
  by (auto simp: ring_dist_def mod_if)

lemma ring_dist_less: "0 < N \<Longrightarrow> ring_dist N h i < N"
  by (simp add: ring_dist_def)

lemma ring_dist_step: "h < N \<Longrightarrow> d < N \<Longrightarrow> ring_dist N h ((h + d) mod N) = d"
  unfolding ring_dist_def by (rule ring_distance)

lemma wf_busy:
  assumes "sm_wf sm" and "i < length (Table sm)" and "busy sm i"
  shows "1 \<le> elem_Str (Table sm ! i)" and "entry sm i \<noteq> []"
    and "elem_Str (Table sm ! i) + length (entry sm i) < m_CurLoc sm"
    and "d < ring_dist (length (Table sm)) (HashStr sm (entry sm i)) i \<Longrightarrow>
      busy sm ((HashStr sm (entry sm i) + d) mod length (Table sm))"
    and "j < length (Table sm) \<Longrightarrow> busy sm j \<Longrightarrow> entry sm j = entry sm i \<Longrightarrow> j = i"
  using assms by (auto simp: sm_wf_def)

lemma wf_basic:
  assumes "sm_wf sm"
  shows "0 < length (Table sm)" "m_CurLoc sm \<le> length (m_Memory sm)" "1 \<le> m_CurLoc sm"
    "length (m_Memory sm) < 2 ^ 63" "m_Memory sm ! 0 = 0" "HashStr sm s < length (Table sm)"
  using assms by (auto simp: sm_wf_def HashStr_def)

lemma wf_not_busy: "sm_wf sm \<Longrightarrow> i < length (Table sm) \<Longrightarrow> Busy (Table sm ! i) = STRING_EMPTY \<longleftrightarrow> \<not> busy sm i"
  by (auto simp: sm_wf_def busy_def STRING_EMPTY_def STRING_BUSY_def)

lemma zero_after_cstr: "length (cstr_of bs) < length bs \<longleftrightarrow> 0 \<in> set bs"
  by (induction bs) (auto simp: cstr_of_def)

lemma same_str_wf:
  assumes "sm_wf sm" and "i < length (Table sm)" and "busy sm i"
  shows "same_str (m_Memory sm) (elem_Str (Table sm ! i)) s = Some (entry sm i = s)"
proof -
  have "length (entry sm i) < length (drop (elem_Str (Table sm ! i)) (m_Memory sm))"
    using wf_busy(3) [OF assms] wf_basic(2) [OF assms(1)] by simp
  then show ?thesis
    unfolding same_str_def entry_def str_at_def zero_after_cstr by simp
qed

section \<open>Probing\<close>

definition stops :: "string_manager \<Rightarrow> bytes \<Rightarrow> nat \<Rightarrow> bool" where
  "stops sm s i \<longleftrightarrow> \<not> busy sm i \<or> entry sm i = s"

definition slot :: "string_manager \<Rightarrow> nat \<Rightarrow> nat \<Rightarrow> nat" where
  "slot sm h d = (h + d) mod length (Table sm)"

lemma slot_less [simp]: "sm_wf sm \<Longrightarrow> slot sm h d < length (Table sm)"
  using wf_basic(1) by (simp add: slot_def)

lemma slot_Suc: "slot sm (slot sm h 1) d = slot sm h (Suc d)"
  by (simp add: slot_def mod_simps)

lemma HashCollision_step:
  assumes "sm_wf sm"
  shows "HashCollision_loop (Suc n) h s sm =
    (if stops sm s (slot sm h 1) then Some (slot sm h 1) else HashCollision_loop n (slot sm h 1) s sm)"
proof -
  have l: "slot sm h 1 < length (Table sm)" using assms by simp
  have "HashCollision_loop (Suc n) h s sm =
     (if \<not> busy sm (slot sm h 1) then Some (slot sm h 1)
      else do { eq \<leftarrow> same_str (m_Memory sm) (elem_Str (Table sm ! slot sm h 1)) s;
                if eq then Some (slot sm h 1) else HashCollision_loop n (slot sm h 1) s sm })"
    unfolding HashCollision_loop.simps Let_def slot_def
    using wf_not_busy [OF assms l, unfolded slot_def] by simp
  then show ?thesis using same_str_wf [OF assms l, of s] by (simp add: stops_def)
qed

lemma HashCollision_loop_spec:
  assumes "sm_wf sm"
  shows "(\<exists>d \<in> {1..n}. stops sm s (slot sm h d) \<and> (\<forall>e \<in> {1..<d}. \<not> stops sm s (slot sm h e)) \<and>
      HashCollision_loop n h s sm = Some (slot sm h d)) \<or>
    (\<forall>d \<in> {1..n}. \<not> stops sm s (slot sm h d)) \<and> HashCollision_loop n h s sm = Some (length (Table sm))"
proof (induction n arbitrary: h)
  case 0
  then show ?case by simp
next
  case (Suc n)
  show ?case
  proof (cases "stops sm s (slot sm h 1)")
    case True
    then show ?thesis using HashCollision_step [OF assms] by (intro disjI1 bexI [of _ 1]) auto
  next
    case False
    have loop: "HashCollision_loop (Suc n) h s sm = HashCollision_loop n (slot sm h 1) s sm"
      using HashCollision_step [OF assms] False by simp
    have below: "\<not> stops sm s (slot sm h e)" if "e \<in> {1..<Suc d}" and
        "\<forall>e \<in> {1..<d}. \<not> stops sm s (slot sm h (Suc e))" for d e
      using that False by (cases e; cases "e = 1") auto
    from Suc.IH [of "slot sm h 1", unfolded slot_Suc] show ?thesis
    proof (elim disjE conjE bexE)
      fix d assume d: "d \<in> {1..n}" "stops sm s (slot sm h (Suc d))"
        "\<forall>e \<in> {1..<d}. \<not> stops sm s (slot sm h (Suc e))"
        "HashCollision_loop n (slot sm h 1) s sm = Some (slot sm h (Suc d))"
      then show ?thesis using below [of _ d] unfolding loop by (intro disjI1 bexI [of _ "Suc d"]) auto
    next
      assume a: "\<forall>d \<in> {1..n}. \<not> stops sm s (slot sm h (Suc d))"
        "HashCollision_loop n (slot sm h 1) s sm = Some (length (Table sm))"
      then show ?thesis using below [of _ "Suc n"] unfolding loop by (intro disjI2) auto
    qed
  qed
qed

text \<open>
  A string that is in the table is met before any free slot: everything between its hash and
  its slot is busy.
\<close>

lemma free_slot_means_absent:
  assumes wf: "sm_wf sm" and free: "\<not> busy sm (slot sm (HashStr sm s) d)"
    and before: "\<And>e. e < d \<Longrightarrow> \<not> stops sm s (slot sm (HashStr sm s) e)" and d: "d < length (Table sm)"
    and i: "i < length (Table sm)" "busy sm i"
  shows "entry sm i \<noteq> s"
proof
  assume s: "entry sm i = s"
  let ?h = "HashStr sm s" and ?N = "length (Table sm)"
  let ?e = "ring_dist ?N ?h i"
  have at: "slot sm ?h ?e = i" unfolding slot_def using ring_dist_back wf_basic(6) [OF wf] i(1) by blast
  have "\<not> ?e < d" using before [of ?e] s by (auto simp: at stops_def)
  moreover have "\<not> d < ?e" using wf_busy(4) [OF wf i, of d] s free by (auto simp: slot_def)
  ultimately have "?e = d" by simp
  then show False using free at i(2) by simp
qed

lemma GetStr_cases:
  assumes wf: "sm_wf sm" and s: "s \<noteq> []"
  obtains (found) i where "i < length (Table sm)" "busy sm i" "entry sm i = s"
      "GetStr (Some s) sm = Some (elem_Str (Table sm ! i), sm)"
  | (added) d where "d < length (Table sm)" "\<not> busy sm (slot sm (HashStr sm s) d)"
      "\<And>e. e < d \<Longrightarrow> \<not> stops sm s (slot sm (HashStr sm s) e)"
      "GetStr (Some s) sm = AddStr (slot sm (HashStr sm s) d) s sm"
  | (full) "\<And>d. d < length (Table sm) \<Longrightarrow> \<not> stops sm s (slot sm (HashStr sm s) d)"
      "GetStr (Some s) sm = Some (NullStr, sm)"
proof -
  let ?h = "HashStr sm s" and ?N = "length (Table sm)"
  have h: "?h < ?N" "slot sm ?h 0 = ?h" using wf_basic(6) [OF wf] by (simp_all add: slot_def)
  have get: "GetStr (Some s) sm =
      (if busy sm ?h
       then (if entry sm ?h = s then Some (elem_Str (Table sm ! ?h), sm)
             else do { k \<leftarrow> HashCollision ?h s sm;
                       if k = ?N then Some (NullStr, sm)
                       else if busy sm k then Some (elem_Str (Table sm ! k), sm) else AddStr k s sm })
       else AddStr ?h s sm)"
    using s same_str_wf [OF wf h(1), of s] unfolding GetStr_def Let_def busy_def by simp
  show thesis
  proof (cases "stops sm s ?h")
    case True
    then show thesis
      using found [of ?h] added [of 0] get h wf_basic(1) [OF wf] by (auto simp: stops_def)
  next
    case False
    have upto: "\<not> stops sm s (slot sm ?h e)" if "\<forall>e \<in> {1..<d}. \<not> stops sm s (slot sm ?h e)" "e < d" for d e
      using that False h(2) by (cases "e = 0") auto
    from HashCollision_loop_spec [OF wf, of "?N - 1" s ?h] show thesis
    proof (elim disjE conjE bexE)
      fix d assume d: "d \<in> {1..?N - 1}" "stops sm s (slot sm ?h d)"
        "\<forall>e \<in> {1..<d}. \<not> stops sm s (slot sm ?h e)"
        "HashCollision_loop (?N - 1) ?h s sm = Some (slot sm ?h d)"
      have "slot sm ?h d \<noteq> ?N" and "d < ?N" using slot_less [OF wf, of ?h d] d(1) wf_basic(1) [OF wf] by auto
      then show thesis
        using found [of "slot sm ?h d"] added [of d] upto [OF d(3)] d get False wf
        by (auto simp: stops_def HashCollision_def)
    next
      assume a: "\<forall>d \<in> {1..?N - 1}. \<not> stops sm s (slot sm ?h d)" "HashCollision_loop (?N - 1) ?h s sm = Some ?N"
      have "\<forall>e \<in> {1..<?N}. \<not> stops sm s (slot sm ?h e)" using a(1) by auto
      then have none: "\<And>d. d < ?N \<Longrightarrow> \<not> stops sm s (slot sm ?h d)" by (rule upto)
      have "GetStr (Some s) sm = Some (NullStr, sm)" using get False a(2) by (simp add: stops_def HashCollision_def)
      with none show thesis by (rule full)
    qed
  qed
qed

section \<open>Adding a string\<close>

lemma strcpy_s_fits:
  assumes "dst + length s < length mem" and "length mem < 2 ^ 63"
  shows "strcpy_s mem dst (int (length mem) - int dst) s =
    Some (take dst mem @ s @ replicate (length mem - dst - length s) 0)"
proof -
  define n where "n = length mem - dst"
  have n: "(int (length mem) - int dst) mod 2 ^ 64 = int n" "length s < n" "dst + n = length mem"
    using assms by (simp_all add: n_def of_nat_diff)
  have "n - length s = Suc (n - 1 - length s)" using n(2) by simp
  then have "replicate (n - 1 - length s) 0 @ [0 :: u8] = replicate (n - length s) 0"
    by (simp only: replicate_Suc replicate_append_same)
  then show ?thesis
    using n by (simp add: strcpy_s_def Let_def poke_def n_def [symmetric])
qed

lemma cstr_of_split: "length (cstr_of bs) < length bs \<Longrightarrow> \<exists>rest. bs = cstr_of bs @ 0 # rest"
  by (induction bs) (auto simp: cstr_of_def)

lemma cstr_of_prefix:
  assumes "take k m' = take k m" and "p + length (cstr_of (drop p m)) < k" and "k \<le> length m"
  shows "cstr_of (drop p m') = cstr_of (drop p m)"
proof -
  let ?t = "cstr_of (drop p m)"
  obtain rest where r: "drop p m = ?t @ 0 # rest" using cstr_of_split [of "drop p m"] assms(2,3) by force
  have "take (k - p) (drop p m') = take (k - p) (drop p m)"
    using assms(1) by (metis drop_take)
  also have "\<dots> = ?t @ 0 # take (k - p - length ?t - 1) rest"
    using assms(2) by (subst r) (simp add: take_Cons' diff_diff_left)
  finally have "drop p m' = ?t @ 0 # take (k - p - length ?t - 1) rest @ drop (k - p) (drop p m')"
    by (metis append_Cons append_assoc append_take_drop_id)
  then show ?thesis by (metis cstr_of_append_zero cstring_cstr_of)
qed

text \<open>What \<^verbatim>\<open>AddStr\<close> does to the object when slot \<^verbatim>\<open>i\<close> is free and the string fits.\<close>

definition added :: "string_manager \<Rightarrow> nat \<Rightarrow> bytes \<Rightarrow> string_manager \<Rightarrow> bool" where
  "added sm i s sm' \<longleftrightarrow>
     Table sm' = (Table sm)[i := \<lparr>elem_Str = m_CurLoc sm, Busy = STRING_BUSY\<rparr>] \<and>
     length (m_Memory sm') = length (m_Memory sm) \<and> m_CurLoc sm' = m_CurLoc sm + length s + 1 \<and>
     m_Memory sm' ! 0 = 0 \<and> str_at sm' (m_CurLoc sm) = s \<and>
     (\<forall>p. p + length (str_at sm p) < m_CurLoc sm \<longrightarrow> str_at sm' p = str_at sm p)"

lemma AddStr_added:
  assumes wf: "sm_wf sm" and room: "m_CurLoc sm + length s < length (m_Memory sm)"
    and i: "i < length (Table sm)" and s: "cstring s"
  shows "\<exists>sm'. AddStr i s sm = Some (m_CurLoc sm, sm') \<and> added sm i s sm'"
proof -
  let ?mem = "take (m_CurLoc sm) (m_Memory sm) @ s @
    replicate (length (m_Memory sm) - m_CurLoc sm - length s) 0"
  let ?sm = "sm\<lparr>Table := (Table sm)[i := \<lparr>elem_Str = m_CurLoc sm, Busy = STRING_BUSY\<rparr>],
    m_Memory := ?mem, m_CurLoc := m_CurLoc sm + length s + 1\<rparr>"
  have a: "AddStr i s sm = Some (m_CurLoc sm, ?sm)"
    using strcpy_s_fits [OF room wf_basic(4) [OF wf]] i by (simp add: AddStr_def)
  have old: "str_at ?sm p = str_at sm p" if "p + length (str_at sm p) < m_CurLoc sm" for p
    using that wf_basic(2) [OF wf] unfolding str_at_def by (intro cstr_of_prefix [of "m_CurLoc sm"]) simp_all
  have "replicate (length (m_Memory sm) - m_CurLoc sm - length s) (0 :: u8) =
      0 # replicate (length (m_Memory sm) - m_CurLoc sm - length s - 1) 0"
    using room by (metis Suc_diff_1 add.commute diff_diff_left less_diff_conv replicate_Suc zero_less_diff)
  then have new: "str_at ?sm (m_CurLoc sm) = s"
    using s wf_basic(2) [OF wf] by (simp add: str_at_def cstr_of_append_zero)
  have zero: "m_Memory ?sm ! 0 = 0" using wf_basic [OF wf] by (simp add: nth_append)
  have "added sm i s ?sm" unfolding added_def using old new zero room by simp
  then show ?thesis using a by blast
qed

lemma added_facts:
  assumes wf: "sm_wf sm" and a: "added sm i s sm'" and i: "i < length (Table sm)" "\<not> busy sm i"
  shows "length (Table sm') = length (Table sm)" "HashStr sm' t = HashStr sm t"
    "j < length (Table sm) \<Longrightarrow> busy sm' j \<longleftrightarrow> j = i \<or> busy sm j"
    "entry sm' i = s" "elem_Str (Table sm' ! i) = m_CurLoc sm"
    "j < length (Table sm) \<Longrightarrow> busy sm j \<Longrightarrow> entry sm' j = entry sm j \<and> Table sm' ! j = Table sm ! j \<and> j \<noteq> i"
    "count_busy sm' = count_busy sm + 1"
proof -
  show len: "length (Table sm') = length (Table sm)" using a by (simp add: added_def)
  show "HashStr sm' t = HashStr sm t" by (simp add: HashStr_def len)
  have nth: "Table sm' ! j = (if j = i then \<lparr>elem_Str = m_CurLoc sm, Busy = STRING_BUSY\<rparr> else Table sm ! j)" for j
    using a i by (simp add: added_def)
  show "busy sm' j \<longleftrightarrow> j = i \<or> busy sm j" by (simp add: busy_def nth)
  show "entry sm' i = s" "elem_Str (Table sm' ! i) = m_CurLoc sm"
    using a by (simp_all add: entry_def nth) (simp add: added_def)
  show "entry sm' j = entry sm j \<and> Table sm' ! j = Table sm ! j \<and> j \<noteq> i"
    if j: "j < length (Table sm)" "busy sm j"
  proof -
    have "j \<noteq> i" using j i by auto
    then show ?thesis using a wf_busy(3) [OF wf j] by (simp add: entry_def nth) (simp add: added_def)
  qed
  show "count_busy sm' = count_busy sm + 1"
    using length_filter_update [OF i(1), of "\<lambda>e. Busy e = STRING_BUSY" "\<lparr>elem_Str = m_CurLoc sm, Busy = STRING_BUSY\<rparr>"] i(2) a
    by (simp add: count_busy_def busy_def added_def)
qed

lemma added_wf:
  assumes wf: "sm_wf sm" and a: "added sm (slot sm (HashStr sm s) d) s sm'" and s: "s \<noteq> []"
    and room: "m_CurLoc sm + length s < length (m_Memory sm)"
    and d: "d < length (Table sm)" "\<not> busy sm (slot sm (HashStr sm s) d)"
      "\<And>e. e < d \<Longrightarrow> \<not> stops sm s (slot sm (HashStr sm s) e)"
  shows "sm_wf sm'"
proof -
  define i where "i = slot sm (HashStr sm s) d"
  let ?N = "length (Table sm)"
  have i: "i < ?N" "\<not> busy sm i" using d wf by (simp_all add: i_def)
  note f = added_facts [OF wf a [folded i_def] i]
  have absent: "entry sm j \<noteq> s" if "j < ?N" "busy sm j" for j
    by (rule free_slot_means_absent [OF wf d(2,3) d(1) that])
  have dist: "ring_dist ?N (HashStr sm s) i = d"
    unfolding i_def slot_def by (rule ring_dist_step [OF wf_basic(6) [OF wf] d(1)])
  have probe: "busy sm' (slot sm (HashStr sm s) e)" if "e < d" for e
    using that d(3) [of e] f(3) wf by (simp add: stops_def)
  have "Busy (Table sm' ! j) \<in> {STRING_EMPTY, STRING_BUSY} \<and>
      (busy sm' j \<longrightarrow> 1 \<le> elem_Str (Table sm' ! j) \<and> entry sm' j \<noteq> [] \<and>
         elem_Str (Table sm' ! j) + length (entry sm' j) < m_CurLoc sm + length s + 1 \<and>
         (\<forall>e < ring_dist ?N (HashStr sm (entry sm' j)) j. busy sm' ((HashStr sm (entry sm' j) + e) mod ?N)) \<and>
         (\<forall>k < ?N. busy sm' k \<and> entry sm' k = entry sm' j \<longrightarrow> k = j))" if j: "j < ?N" for j
  proof (cases "j = i")
    case True
    have "k = i" if "k < ?N" "busy sm' k" "entry sm' k = s" for k
      using that f(3,6) [of k] absent [of k] by (cases "k = i") auto
    then have "\<forall>k < ?N. busy sm' k \<and> entry sm' k = s \<longrightarrow> k = i" by blast
    moreover have "Busy (Table sm' ! i) = STRING_BUSY" using f(3) i by (simp add: busy_def)
    ultimately show ?thesis
      using True f(4,5) s wf_basic(3) [OF wf] probe dist by (simp add: slot_def)
  next
    case False
    have "Busy (Table sm' ! j) = Busy (Table sm ! j)" using a False by (simp add: added_def i_def)
    then have "Busy (Table sm' ! j) \<in> {STRING_EMPTY, STRING_BUSY}" using wf j by (simp add: sm_wf_def)
    moreover have "busy sm j" if "busy sm' j" using that False f(3) j by simp
    moreover have "\<forall>k < ?N. busy sm' k \<and> entry sm' k = entry sm' j \<longrightarrow> k = j" if "busy sm j"
      using f(3,4,6) absent wf_busy(5) [OF wf j that] j that by metis
    moreover have "1 \<le> elem_Str (Table sm' ! j) \<and> entry sm' j \<noteq> [] \<and>
         elem_Str (Table sm' ! j) + length (entry sm' j) < m_CurLoc sm + length s + 1 \<and>
         (\<forall>e < ring_dist ?N (HashStr sm (entry sm' j)) j. busy sm' ((HashStr sm (entry sm' j) + e) mod ?N))"
      if b: "busy sm j"
      using wf_busy(1-3) [OF wf j b] wf_busy(4) [OF wf j b] f(6) [OF j b] f(3) wf_basic(1) [OF wf]
      by simp
    ultimately show ?thesis by blast
  qed
  then show ?thesis
    using a wf room unfolding sm_wf_def f(1,2) added_def by auto
qed

lemma interned_Some_iff:
  assumes "sm_wf sm"
  shows "interned sm s = Some p \<longleftrightarrow>
    (\<exists>i < length (Table sm). busy sm i \<and> entry sm i = s \<and> elem_Str (Table sm ! i) = p)"
proof (cases "first_index (\<lambda>i. busy sm i \<and> entry sm i = s) [0..<length (Table sm)]")
  case None
  then have "interned sm s = None" by (simp add: interned_def)
  then show ?thesis using None [unfolded first_index_None] by auto
next
  case (Some k)
  then have k: "k < length (Table sm)" "busy sm k" "entry sm k = s"
    using first_index_Some [OF Some] by auto
  have "interned sm s = Some (elem_Str (Table sm ! k))" using Some k(1) by (simp add: interned_def)
  moreover have "i = k" if "i < length (Table sm)" "busy sm i" "entry sm i = s" for i
    using wf_busy(5) [OF assms k(1,2) that(1,2)] that(3) k(3) by simp
  ultimately show ?thesis using k by (metis option.inject)
qed

lemma interned_str:
  "sm_wf sm \<Longrightarrow> interned sm s = Some p \<Longrightarrow> str_at sm p = s \<and> s \<noteq> [] \<and> p + length s < m_CurLoc sm"
  using wf_busy(2,3) by (auto simp: interned_Some_iff entry_def)

lemma added_interned:
  assumes wf: "sm_wf sm" "sm_wf sm'" and a: "added sm i s sm'" and i: "i < length (Table sm)" "\<not> busy sm i"
  shows "interned sm' = (interned sm)(s \<mapsto> m_CurLoc sm)"
proof
  fix t
  note f = added_facts [OF wf(1) a i]
  have "interned sm' s = Some (m_CurLoc sm)" unfolding interned_Some_iff [OF wf(2)] using f i by auto
  moreover have "interned sm' t = interned sm t" if "t \<noteq> s"
  proof -
    have "interned sm' t = Some q \<longleftrightarrow> interned sm t = Some q" for q
    proof -
      have "(busy sm' j \<and> entry sm' j = t \<and> elem_Str (Table sm' ! j) = q) \<longleftrightarrow>
          (busy sm j \<and> entry sm j = t \<and> elem_Str (Table sm ! j) = q)" if "j < length (Table sm)" for j
        using that \<open>t \<noteq> s\<close> f(3,6) [of j] f(4) by auto
      then show ?thesis unfolding interned_Some_iff [OF wf(1)] interned_Some_iff [OF wf(2)] f(1) by blast
    qed
    then show ?thesis by (metis option.exhaust)
  qed
  ultimately show "interned sm' t = ((interned sm)(s \<mapsto> m_CurLoc sm)) t" by simp
qed

section \<open>The operations against the specification\<close>

lemma full_means_all_busy:
  assumes wf: "sm_wf sm" and none: "\<And>d. d < length (Table sm) \<Longrightarrow> \<not> stops sm s (slot sm (HashStr sm s) d)"
  shows "count_busy sm = length (Table sm)" and "interned sm s = None"
proof -
  have all: "busy sm i \<and> entry sm i \<noteq> s" if "i < length (Table sm)" for i
  proof -
    have "slot sm (HashStr sm s) (ring_dist (length (Table sm)) (HashStr sm s) i) = i"
      unfolding slot_def using that wf_basic(6) [OF wf] by (intro ring_dist_back)
    then show ?thesis using none [OF ring_dist_less] wf_basic(1) [OF wf] by (metis stops_def)
  qed
  then have "filter (\<lambda>e. Busy e = STRING_BUSY) (Table sm) = Table sm"
    by (auto simp: filter_id_conv busy_def in_set_conv_nth)
  then show "count_busy sm = length (Table sm)" by (simp add: count_busy_def)
  show "interned sm s = None" using all by (auto simp: interned_def first_index_None)
qed

lemma GetStr_step:
  assumes wf: "sm_wf sm" and s: "cstring s" "s \<noteq> []" and room: "m_CurLoc sm + length s < length (m_Memory sm)"
    and free: "interned sm s \<noteq> None \<or> count_busy sm < length (Table sm)"
  obtains (old) p where "GetStr (Some s) sm = Some (p, sm)" "interned sm s = Some p"
  | (new) sm' where "GetStr (Some s) sm = Some (m_CurLoc sm, sm')" "interned sm s = None" "sm_wf sm'"
      "interned sm' = (interned sm)(s \<mapsto> m_CurLoc sm)" "count_busy sm' = count_busy sm + 1"
      "m_CurLoc sm' = m_CurLoc sm + length s + 1" "length (m_Memory sm') = length (m_Memory sm)"
      "length (Table sm') = length (Table sm)"
proof (cases rule: GetStr_cases [OF wf s(2)])
  case (1 i)
  then show ?thesis using old interned_Some_iff [OF wf] by blast
next
  case (2 d)
  let ?i = "slot sm (HashStr sm s) d"
  have i: "?i < length (Table sm)" using wf by simp
  obtain sm' where a: "AddStr ?i s sm = Some (m_CurLoc sm, sm')" "added sm ?i s sm'"
    using AddStr_added [OF wf room i s(1)] by blast
  have wf': "sm_wf sm'" by (rule added_wf [OF wf a(2) s(2) room 2(1-3)])
  have "interned sm s = None"
    using free_slot_means_absent [OF wf 2(2,3,1)] interned_Some_iff [OF wf] by (metis option.exhaust)
  then show ?thesis
    using new [of sm'] 2(4) a(1) wf' added_interned [OF wf wf' a(2) i 2(2)] added_facts(1,7) [OF wf a(2) i 2(2)] a(2)
    by (simp add: added_def)
next
  case 3
  then show ?thesis using free full_means_all_busy [OF wf 3(1)] by simp
qed

text \<open>
  What the callers of an interning table rely on. \<^verbatim>\<open>tbl\<close> is the map from strings to pointers,
  \<^verbatim>\<open>read\<close> the string a pointer shows, \<^verbatim>\<open>room st ss\<close> that the strings \<^verbatim>\<open>ss\<close> can still be stored.
\<close>

locale interner =
  fixes get :: "bytes \<Rightarrow> 's \<Rightarrow> (nat \<times> 's) option"
    and tbl :: "'s \<Rightarrow> bytes \<Rightarrow> nat option"
    and reads :: "'s \<Rightarrow> nat \<Rightarrow> bytes"
    and ok :: "'s \<Rightarrow> bool"
    and room :: "'s \<Rightarrow> bytes list \<Rightarrow> bool"
  assumes get_spec: "ok st \<Longrightarrow> room st (s # ss) \<Longrightarrow>
      \<exists>p st'. get s st = Some (p, st') \<and> ok st' \<and> room st' ss \<and> tbl st' = (tbl st)(s \<mapsto> p) \<and>
        (\<forall>q. tbl st s = Some q \<longrightarrow> p = q)"
    and reads_spec: "ok st \<Longrightarrow> tbl st s = Some p \<Longrightarrow> reads st p = s"
begin

primrec gets :: "bytes list \<Rightarrow> 's \<Rightarrow> (nat list \<times> 's) option" where
  "gets [] st = Some ([], st)"
| "gets (s # ss) st = do { (p, st1) \<leftarrow> get s st; (ps, st2) \<leftarrow> gets ss st1; Some (p # ps, st2) }"

lemma gets_spec:
  "ok st \<Longrightarrow> room st ss \<Longrightarrow>
   \<exists>ps st'. gets ss st = Some (ps, st') \<and> ok st' \<and> length ps = length ss \<and> tbl st \<subseteq>\<^sub>m tbl st' \<and>
     (\<forall>i < length ss. tbl st' (ss ! i) = Some (ps ! i))"
proof (induction ss arbitrary: st)
  case Nil
  then show ?case by simp
next
  case (Cons s ss)
  obtain p st1 where p: "get s st = Some (p, st1)" "ok st1" "room st1 ss" "tbl st1 = (tbl st)(s \<mapsto> p)"
      "\<forall>q. tbl st s = Some q \<longrightarrow> p = q"
    using get_spec [OF Cons.prems] by blast
  obtain ps st' where ps: "gets ss st1 = Some (ps, st')" "ok st'" "length ps = length ss" "tbl st1 \<subseteq>\<^sub>m tbl st'"
      "\<forall>i < length ss. tbl st' (ss ! i) = Some (ps ! i)"
    using Cons.IH [OF p(2,3)] by blast
  have "tbl st' s = Some p" using ps(4) p(4) by (simp add: map_le_def)
  moreover have "tbl st \<subseteq>\<^sub>m tbl st1" using p(4,5) by (auto simp: map_le_def)
  ultimately show ?case
    using p(1) ps map_le_trans by (auto simp: nth_Cons split: nat.splits)
qed

lemma gets_pointers:
  assumes "ok st" and "room st ss"
  shows "\<exists>ps st'. gets ss st = Some (ps, st') \<and> length ps = length ss \<and>
    (\<forall>i < length ss. reads st' (ps ! i) = ss ! i) \<and>
    (\<forall>i < length ss. \<forall>j < length ss. ps ! i = ps ! j \<longleftrightarrow> ss ! i = ss ! j)"
proof -
  obtain ps st' where g: "gets ss st = Some (ps, st')" "ok st'" "length ps = length ss"
      "\<forall>i < length ss. tbl st' (ss ! i) = Some (ps ! i)"
    using gets_spec [OF assms] by blast
  have r: "reads st' (ps ! i) = ss ! i" if "i < length ss" for i
    using reads_spec [OF g(2)] g(4) that by blast
  have "ps ! i = ps ! j \<longleftrightarrow> ss ! i = ss ! j" if "i < length ss" "j < length ss" for i j
    using r that g(4) by (metis option.inject)
  then show ?thesis using g(1,3) r by blast
qed

end

definition sm_room :: "string_manager \<Rightarrow> bytes list \<Rightarrow> bool" where
  "sm_room sm ss \<longleftrightarrow> list_all (\<lambda>s. cstring s \<and> s \<noteq> []) ss \<and>
     m_CurLoc sm + (\<Sum>s\<leftarrow>ss. length s + 1) \<le> length (m_Memory sm) \<and>
     count_busy sm + length ss \<le> length (Table sm)"

interpretation sm: interner "\<lambda>s. GetStr (Some s)" interned str_at sm_wf sm_room
proof
  fix sm s ss assume wf: "sm_wf sm" and room: "sm_room sm (s # ss)"
  then have s: "cstring s" "s \<noteq> []" "m_CurLoc sm + length s < length (m_Memory sm)"
    and c: "interned sm s \<noteq> None \<or> count_busy sm < length (Table sm)" by (auto simp: sm_room_def)
  show "\<exists>p sm'. GetStr (Some s) sm = Some (p, sm') \<and> sm_wf sm' \<and> sm_room sm' ss \<and>
      interned sm' = (interned sm)(s \<mapsto> p) \<and> (\<forall>q. interned sm s = Some q \<longrightarrow> p = q)"
  proof (cases rule: GetStr_step [OF wf s c])
    case (1 p)
    have "(interned sm)(s \<mapsto> p) = interned sm" using 1(2) by auto
    then show ?thesis using 1 wf room by (auto simp: sm_room_def)
  next
    case (2 sm')
    then show ?thesis using room by (auto simp: sm_room_def)
  qed
next
  fix sm s p assume "sm_wf sm" "interned sm s = Some p"
  then show "str_at sm p = s" using interned_str by blast
qed

lemma StringManager_wf:
  assumes "0 < table_size" and "fresh \<noteq> []" and "length fresh < 2 ^ 63"
  shows "\<exists>sm. StringManager table_size fresh = Some sm \<and> sm_wf sm \<and> count_busy sm = 0 \<and> m_CurLoc sm = 1 \<and>
    length (m_Memory sm) = length fresh \<and> length (Table sm) = table_size"
  using assms
  by (cases fresh) (auto simp: StringManager_def poke_def sm_wf_def count_busy_def busy_def
      STRING_EMPTY_def STRING_BUSY_def Suc_le_eq)

lemma GetStr_found:
  assumes wf: "sm_wf sm" and p: "interned sm s = Some p"
  shows "GetStr (Some s) sm = Some (p, sm)"
proof -
  have s: "s \<noteq> []" using interned_str [OF wf p] by simp
  show ?thesis
  proof (cases rule: GetStr_cases [OF wf s])
    case (1 i)
    then show ?thesis using p interned_Some_iff [OF wf, of s] by fastforce
  next
    case (2 d)
    then show ?thesis using p free_slot_means_absent [OF wf 2(2,3,1)] interned_Some_iff [OF wf, of s] by blast
  next
    case 3
    then show ?thesis using p full_means_all_busy(2) [OF wf 3(1)] by simp
  qed
qed

primrec GetStr_calls :: "bytes list \<Rightarrow> string_manager \<Rightarrow> (nat list \<times> string_manager) option" where
  "GetStr_calls [] sm = Some ([], sm)"
| "GetStr_calls (s # ss) sm = do {
     (p, sm1) \<leftarrow> GetStr (Some s) sm;
     (ps, sm2) \<leftarrow> GetStr_calls ss sm1;
     Some (p # ps, sm2)
   }"

lemma GetStr_calls_gets: "GetStr_calls ss st = sm.gets ss st"
  by (induction ss arbitrary: st) (simp_all cong: option.case_cong)

section \<open>Properties\<close>

text \<open>
  C19: \<^verbatim>\<open>GetStr\<close> implements the growing map. With room for the string and a free slot (or the
  string already there) it returns a pointer that shows the string; the map of interned strings
  becomes the old one with this entry, so every pointer given out before still shows its
  string; asking again returns the same pointer and changes nothing.
\<close>

theorem GetStr_interns:
  assumes wf: "sm_wf sm" and s: "cstring s" "s \<noteq> []" and room: "m_CurLoc sm + length s < length (m_Memory sm)"
    and free: "interned sm s \<noteq> None \<or> count_busy sm < length (Table sm)"
  shows "\<exists>p sm'. GetStr (Some s) sm = Some (p, sm') \<and> sm_wf sm' \<and> str_at sm' p = s \<and>
    interned sm' = (interned sm)(s \<mapsto> p) \<and> (\<forall>t q. interned sm t = Some q \<longrightarrow> str_at sm' q = t) \<and>
    GetStr (Some s) sm' = Some (p, sm')"
proof (cases rule: GetStr_step [OF assms])
  case (1 p)
  have "(interned sm)(s \<mapsto> p) = interned sm" using 1(2) by auto
  then show ?thesis using 1 wf interned_str [OF wf] by auto
next
  case (2 sm')
  have "interned sm' t = Some q" if "interned sm t = Some q" for t q using that 2(2,4) by (cases "t = s") auto
  moreover have "interned sm' s = Some (m_CurLoc sm)" using 2(4) by simp
  ultimately show ?thesis using 2 interned_str [OF 2(3)] GetStr_found [OF 2(3)] by blast
qed

lemma small_manager:
  "\<exists>sm. StringManager 4 (replicate 20 7) = Some sm \<and> sm_wf sm \<and> count_busy sm = 0 \<and> m_CurLoc sm = 1 \<and>
     length (m_Memory sm) = 20 \<and> length (Table sm) = 4"
  using StringManager_wf [of 4 "replicate 20 7"] by simp

theorem GetStr_interns_witness:
  "\<exists>sm p sm'. StringManager 4 (replicate 20 7) = Some sm \<and> GetStr (Some [65, 66]) sm = Some (p, sm') \<and>
     str_at sm' p = [65, 66] \<and> GetStr (Some [65, 66]) sm' = Some (p, sm')"
proof -
  obtain sm where sm: "StringManager 4 (replicate 20 7) = Some sm" "sm_wf sm" "count_busy sm = 0" "m_CurLoc sm = 1"
      "length (m_Memory sm) = 20" "length (Table sm) = 4"
    using small_manager by blast
  then show ?thesis using GetStr_interns [OF sm(2), of "[65, 66]"] by (auto simp: cstring_def)
qed

text \<open>
  One pointer per string. A fresh manager answers any sequence of requests that fits in
  its memory and table, each pointer shows its string at the end, and two answers are the same
  pointer exactly when the two strings are the same.
\<close>

theorem GetStr_pointers:
  assumes "0 < table_size" and "length fresh < 2 ^ 63" and "StringManager table_size fresh = Some sm"
    and "list_all (\<lambda>s. cstring s \<and> s \<noteq> []) ss" and "1 + (\<Sum>s\<leftarrow>ss. length s + 1) \<le> length fresh"
    and "length ss \<le> table_size"
  shows "\<exists>ps sm'. GetStr_calls ss sm = Some (ps, sm') \<and> length ps = length ss \<and>
    (\<forall>i < length ss. str_at sm' (ps ! i) = ss ! i) \<and>
    (\<forall>i < length ss. \<forall>j < length ss. ps ! i = ps ! j \<longleftrightarrow> ss ! i = ss ! j)"
proof -
  have "fresh \<noteq> []" using assms(5) by auto
  then have "sm_wf sm" and "sm_room sm ss"
    using StringManager_wf [OF assms(1) _ assms(2)] assms(3-6) by (auto simp: sm_room_def)
  then show ?thesis unfolding GetStr_calls_gets by (rule sm.gets_pointers)
qed

theorem GetStr_pointers_witness:
  "\<exists>sm ps sm'. StringManager 4 (replicate 20 7) = Some sm \<and>
     GetStr_calls [[65], [66], [65]] sm = Some (ps, sm') \<and> ps ! 0 = ps ! 2 \<and> ps ! 0 \<noteq> ps ! 1 \<and> str_at sm' (ps ! 1) = [66]"
proof -
  obtain sm where sm: "StringManager 4 (replicate 20 7) = Some sm" using small_manager by blast
  obtain ps sm' where g: "GetStr_calls [[65], [66], [65]] sm = Some (ps, sm')"
      and r: "\<forall>i < 3. str_at sm' (ps ! i) = [[65], [66], [65]] ! i"
      and eq: "\<forall>i < 3. \<forall>j < 3. ps ! i = ps ! j \<longleftrightarrow> [[65], [66], [65 :: u8]] ! i = [[65], [66], [65]] ! j"
    using GetStr_pointers [OF _ _ sm, of "[[65], [66], [65]]"] by (auto simp: cstring_def numeral_3_eq_3)
  have "ps ! 0 = ps ! 2" "ps ! 0 \<noteq> ps ! 1" "str_at sm' (ps ! 1) = [66]" using eq r by simp_all
  then show ?thesis using sm g by blast
qed

text \<open>
  The table is searched outside the lock. Two threads that both found the same free slot
  (their strings differ) call \<^verbatim>\<open>AddStr\<close> one after the other: the second call overwrites the
  slot of the first. The first string is then in the memory but no longer in the table, so
  the next request for it stores a second copy; and the first thread, which reads its
  result from the slot after it released the lock, can be given the second string.
\<close>

theorem AddStr_race:
  assumes wf: "sm_wf sm" and s: "cstring a" "a \<noteq> []" "cstring b" "a \<noteq> b"
    and room: "m_CurLoc sm + length a + 1 + length b < length (m_Memory sm)"
    and d: "d < length (Table sm)" "\<not> busy sm (slot sm (HashStr sm a) d)"
      "\<And>e. e < d \<Longrightarrow> \<not> stops sm a (slot sm (HashStr sm a) e)"
  shows "\<exists>p q sm1 sm2. AddStr (slot sm (HashStr sm a) d) a sm = Some (p, sm1) \<and>
    AddStr (slot sm (HashStr sm a) d) b sm1 = Some (q, sm2) \<and> interned sm1 a = Some p \<and> interned sm2 a = None \<and>
    elem_Str (Table sm2 ! slot sm (HashStr sm a) d) = q \<and> str_at sm2 q = b"
proof -
  define h where "h = slot sm (HashStr sm a) d"
  have h: "h < length (Table sm)" "\<not> busy sm h" using wf d(2) by (simp_all add: h_def)
  obtain sm1 where 1: "AddStr h a sm = Some (m_CurLoc sm, sm1)" "added sm h a sm1"
    using AddStr_added [OF wf _ h(1) s(1)] room by auto
  have wf1: "sm_wf sm1" using added_wf [OF wf 1(2) [unfolded h_def] s(2) _ d] room by simp
  note f = added_facts [OF wf 1(2) h]
  have h1: "h < length (Table sm1)" using h f(1) by simp
  have "m_CurLoc sm1 + length b < length (m_Memory sm1)" using 1(2) room by (simp add: added_def)
  then obtain sm2 where 2: "AddStr h b sm1 = Some (m_CurLoc sm1, sm2)" "added sm1 h b sm2"
    using AddStr_added [OF wf1 _ h1 s(3)] by auto
  have at: "entry sm2 h = b" "elem_Str (Table sm2 ! h) = m_CurLoc sm1" "str_at sm2 (m_CurLoc sm1) = b"
    using 2(2) h1 by (simp_all add: added_def entry_def)
  have other: "entry sm2 j \<noteq> a" if j: "j < length (Table sm)" "busy sm2 j" for j
  proof (cases "j = h")
    case False
    then have t: "Table sm2 ! j = Table sm1 ! j" using 2(2) by (simp add: added_def)
    then have b1: "busy sm1 j" using j(2) by (simp add: busy_def)
    then have "busy sm j" using f(3) [OF j(1)] False by simp
    then have "entry sm1 j \<noteq> a"
      using f(6) [OF j(1)] free_slot_means_absent [OF wf d(2,3,1) j(1)] by simp
    moreover have "entry sm2 j = entry sm1 j"
      using 2(2) t wf_busy(3) [OF wf1 _ b1] j(1) f(1) by (simp add: entry_def) (simp add: added_def)
    ultimately show ?thesis by simp
  qed (use at s(4) in simp)
  have "length (Table sm2) = length (Table sm)" using 2(2) f(1) by (simp add: added_def)
  then have "interned sm2 a = None" using other by (auto simp: interned_def first_index_None)
  then show ?thesis
    using 1(1) 2(1) at added_interned [OF wf wf1 1(2) h] unfolding h_def by auto
qed

theorem AddStr_race_witness:
  "\<exists>sm p q sm1 sm2. StringManager 4 (replicate 20 7) = Some sm \<and>
     AddStr (HashStr sm [65]) [65] sm = Some (p, sm1) \<and> AddStr (HashStr sm [65]) [69] sm1 = Some (q, sm2) \<and>
     HashStr sm [69] = HashStr sm [65] \<and> interned sm1 [65] = Some p \<and> interned sm2 [65] = None"
proof -
  obtain sm where sm: "StringManager 4 (replicate 20 7) = Some sm" "sm_wf sm" "count_busy sm = 0" "m_CurLoc sm = 1"
      "length (m_Memory sm) = 20" "length (Table sm) = 4"
    using small_manager by blast
  have free: "\<not> busy sm i" if "i < 4" for i
    using sm(1) that by (auto simp: StringManager_def poke_def busy_def STRING_BUSY_def)
  have h: "slot sm (HashStr sm [65]) 0 = HashStr sm [65]" "HashStr sm [65] < 4"
    using sm(6) by (simp_all add: slot_def HashStr_def)
  have same: "HashStr sm [69] = HashStr sm [65]" by (simp add: HashStr_def sm(6))
  have "\<exists>p q sm1 sm2. AddStr (HashStr sm [65]) [65] sm = Some (p, sm1) \<and>
      AddStr (HashStr sm [65]) [69] sm1 = Some (q, sm2) \<and> interned sm1 [65] = Some p \<and> interned sm2 [65] = None \<and>
      elem_Str (Table sm2 ! HashStr sm [65]) = q \<and> str_at sm2 q = [69]"
    by (rule AddStr_race [OF sm(2), of "[65]" "[69]" 0, unfolded h(1)])
      (use sm(4-6) free [OF h(2)] in \<open>simp_all add: cstring_def\<close>)
  then show ?thesis using sm(1) same by blast
qed

end
