(* ===== verification/PlayerInventory.thy ===== *)
theory PlayerInventory
  imports AuxItem
begin

text \<open>
  A player's inventories: \<^verbatim>\<open>server/src/PlayerInventory.cpp\<close> (counting, adding, removing, stacking,
  vault space, prices) and the branches of \<^verbatim>\<open>Player::HandleInventoryMove\<close>
  (\<^verbatim>\<open>server/src/PlayerConnection.cpp\<close>) that move items between cargo and vault or destroy them.

  A slot holds the data of its item; the setters are those of \<^verbatim>\<open>AuxItem\<close>, applied to the data.
  The item database, the float arithmetic and the text that \<^verbatim>\<open>QualityCalculator\<close> prints from it are
  fields of an environment, so every theorem holds for all of them. What the code
  saves or sends is a list of events. An access outside an inventory array is \<^term>\<open>None\<close>.

  Saving a cargo slot also runs \<^verbatim>\<open>CheckMissions(0, item, 0, OBTAIN_ITEMS)\<close> (\<^verbatim>\<open>server/src/PlayerSaves.cpp\<close>),
  which may complete a stage of a mission at once and then adds or removes items. The missions are
  not modelled: \<^verbatim>\<open>check_missions env i\<close> is what the check after saving cargo slot \<^verbatim>\<open>i\<close> does to the
  inventories, an arbitrary function, called wherever the code saves a cargo slot, also in the
  middle of the loops. (A completed stage also pays credits and experience; they are not part of an inventory.)
  \<^verbatim>\<open>missions_quiet\<close>: no stage of the player's missions is completed by saving a slot.
\<close>

section \<open>Data\<close>

record ItemBase =
  ib_MaxStack :: "16 word"
  ib_Flags :: s32
  ib_Category :: s32

datatype inv_event =
    SaveInventoryChange nat
  | SaveVaultChange nat
  | SaveMove "(bool \<times> nat) list" \<comment> \<open>slots saved in one transaction; \<^verbatim>\<open>True\<close>: a vault slot\<close>
  | Touched nat \<comment> \<open>a slot pushed to \<^verbatim>\<open>touched_slots\<close>\<close>
  | SendItemBase s32
  | SendAux bool \<comment> \<open>\<^verbatim>\<open>True\<close>: \<^verbatim>\<open>SendAuxShip\<close>, \<^verbatim>\<open>False\<close>: \<^verbatim>\<open>SendAuxPlayer\<close>\<close>
  | VaMessageC string

record inventory =
  CargoSpace :: u32
  CargoInv :: "Item list"
  SecureInv :: "Item list"
  EquipInv :: "Item list"
  AmmoInv :: "Item list"
  TradeInv :: "Item list"
  inv_log :: "inv_event list"

record item_env =
  m_MaxItemID :: s32
  m_ItemDB :: "nat \<Rightarrow> ItemBase option"
  f_mul :: "f32 \<Rightarrow> f32 \<Rightarrow> f32"
  f_add :: "f32 \<Rightarrow> f32 \<Rightarrow> f32"
  f_div :: "f32 \<Rightarrow> f32 \<Rightarrow> f32"
  f_of_u32 :: "u32 \<Rightarrow> f32"
  quality_text :: "Item \<Rightarrow> bytes"
  check_missions :: "nat \<Rightarrow> inventory \<Rightarrow> inventory"

definition inv_emit :: "inv_event \<Rightarrow> inventory \<Rightarrow> inventory" where
  "inv_emit e iv = iv\<lparr>inv_log := inv_log iv @ [e]\<rparr>"

text \<open>
  \<^verbatim>\<open>SaveInventoryChange\<close> of a cargo slot, and \<^verbatim>\<open>SaveInventoryMove\<close> and \<^verbatim>\<open>SaveInventoryMoveSlots\<close>, which
  pack one record per slot: every cargo slot that is saved runs the mission check.
\<close>

definition save_cargo_slot :: "item_env \<Rightarrow> nat \<Rightarrow> inventory \<Rightarrow> inventory" where
  "save_cargo_slot env i iv = check_missions env i (inv_emit (SaveInventoryChange i) iv)"

definition pack_slot :: "item_env \<Rightarrow> bool \<times> nat \<Rightarrow> inventory \<Rightarrow> inventory" where
  "pack_slot env r iv = (if fst r then iv else check_missions env (snd r) iv)"

definition save_move :: "item_env \<Rightarrow> (bool \<times> nat) list \<Rightarrow> inventory \<Rightarrow> inventory" where
  "save_move env rs iv = inv_emit (SaveMove rs) (fold (pack_slot env) rs iv)"

definition missions_quiet :: "item_env \<Rightarrow> bool" where
  "missions_quiet env \<longleftrightarrow> (\<forall>i iv. check_missions env i iv = iv)"

definition GetItem :: "item_env \<Rightarrow> clong \<Rightarrow> ItemBase option" where
  "GetItem env ItemID =
     (if ItemID <s 0 \<or> scast (m_MaxItemID env) <s ItemID then None else m_ItemDB env (unat ItemID))"

definition MaxStack :: "ItemBase \<Rightarrow> u32" where
  "MaxStack b = ucast (ib_MaxStack b)"

definition EmptyItem :: Item where
  "EmptyItem = \<lparr>ItemTemplateID = -1, StackCount = 0, Price = 0, AveCost = 0, Structure = 0,
     Quality = 0, InstanceInfo = [], ActivatedEffectInstanceInfo = [],
     EquipEffectInstanceInfo = [], BuilderName = [], TradeStack = 0\<rparr>"

definition f_one :: f32 where
  "f_one = 0x3F800000"

text \<open>Apply an item setter to the data of a slot.\<close>

definition item_upd :: "(aux_item \<Rightarrow> aux_item) \<Rightarrow> Item \<Rightarrow> Item" where
  "item_upd f d = fst (f (d, []))"

definition on_cargo :: "nat \<Rightarrow> (Item \<Rightarrow> Item) \<Rightarrow> inventory \<Rightarrow> inventory" where
  "on_cargo i f iv = iv\<lparr>CargoInv := (CargoInv iv)[i := f (CargoInv iv ! i)]\<rparr>"

definition on_vault :: "nat \<Rightarrow> (Item \<Rightarrow> Item) \<Rightarrow> inventory \<Rightarrow> inventory" where
  "on_vault i f iv = iv\<lparr>SecureInv := (SecureInv iv)[i := f (SecureInv iv ! i)]\<rparr>"

text \<open>The slots a loop up to \<^verbatim>\<open>GetCargoSpace()\<close> reads; more than the array has is a fault.\<close>

definition cargo_slots :: "inventory \<Rightarrow> Item list option" where
  "cargo_slots iv = peek (CargoInv iv) 0 (unat (CargoSpace iv))"

section \<open>Counting\<close>

definition item_count :: "clong \<Rightarrow> Item list \<Rightarrow> clong" where
  "item_count ItemID items =
     (\<Sum>it\<leftarrow>items. if scast (ItemTemplateID it) = ItemID then ucast (StackCount it) else 0)"

definition TradeSpaceUsed :: "inventory \<Rightarrow> nat" where
  "TradeSpaceUsed iv = length (filter (\<lambda>it. 0 <s ItemTemplateID it) (take 6 (TradeInv iv)))"

definition CargoFreeSpace :: "inventory \<Rightarrow> nat option" where
  "CargoFreeSpace iv = map_option (\<lambda>s. length (filter (\<lambda>it. ItemTemplateID it \<le>s 0) s)) (cargo_slots iv)"

definition CargoItemCount :: "clong \<Rightarrow> inventory \<Rightarrow> clong option" where
  "CargoItemCount ItemID iv = map_option (item_count ItemID) (cargo_slots iv)"

definition VaultItemCount :: "clong \<Rightarrow> inventory \<Rightarrow> clong" where
  "VaultItemCount ItemID iv = item_count ItemID (take 96 (SecureInv iv))"

definition EquipItemCount :: "clong \<Rightarrow> inventory \<Rightarrow> clong" where
  "EquipItemCount ItemID iv = item_count ItemID (take 20 (EquipInv iv))"

definition TradeItemCount :: "clong \<Rightarrow> inventory \<Rightarrow> clong" where
  "TradeItemCount ItemID iv = item_count ItemID (take 6 (TradeInv iv))"

definition CanHaveAnotherOf :: "item_env \<Rightarrow> clong \<Rightarrow> inventory \<Rightarrow> bool option" where
  "CanHaveAnotherOf env ItemID iv =
     (if 0 <s ItemID
      then (case GetItem env ItemID of
              Some item \<Rightarrow>
                if ib_Flags item AND 4 \<noteq> 0
                then map_option (\<lambda>c. c = 0 \<and> VaultItemCount ItemID iv = 0 \<and> EquipItemCount ItemID iv = 0 \<and>
                                     TradeItemCount ItemID iv = 0) (CargoItemCount ItemID iv)
                else Some True
            | None \<Rightarrow> Some True)
      else Some True)"

primrec can_receive_loop :: "item_env \<Rightarrow> Item list \<Rightarrow> inventory \<Rightarrow> bool option" where
  "can_receive_loop env [] iv = Some True"
| "can_receive_loop env (it # its) iv = do {
     ok \<leftarrow> CanHaveAnotherOf env (scast (ItemTemplateID it)) iv;
     if \<not> ok then Some False else can_receive_loop env its iv
   }"

definition CanReceiveTradeItems :: "item_env \<Rightarrow> inventory \<Rightarrow> inventory \<Rightarrow> bool option" where
  "CanReceiveTradeItems env trader iv = can_receive_loop env (take 6 (TradeInv trader)) iv"

definition IsPartialStackOf :: "item_env \<Rightarrow> clong \<Rightarrow> f32 \<Rightarrow> inventory \<Rightarrow> bool option" where
  "IsPartialStackOf env ItemID q iv =
     (case GetItem env ItemID of None \<Rightarrow> Some False
      | Some b \<Rightarrow> map_option (list_ex (\<lambda>it. scast (ItemTemplateID it) = ItemID \<and> f_eq (Quality it) q \<and>
                                           StackCount it < MaxStack b)) (cargo_slots iv))"

definition CargoAddItemCount :: "item_env \<Rightarrow> clong \<Rightarrow> f32 \<Rightarrow> inventory \<Rightarrow> u32 option" where
  "CargoAddItemCount env ItemID q iv =
     (case GetItem env ItemID of None \<Rightarrow> Some 0
      | Some b \<Rightarrow> map_option (\<lambda>s. \<Sum>it\<leftarrow>s.
            if scast (ItemTemplateID it) = ItemID \<and> f_eq (Quality it) q then MaxStack b - StackCount it
            else if ItemTemplateID it = -1 then MaxStack b else 0) (cargo_slots iv))"

definition CanCargoAddItem :: "item_env \<Rightarrow> clong \<Rightarrow> u32 \<Rightarrow> f32 \<Rightarrow> inventory \<Rightarrow> bool option" where
  "CanCargoAddItem env ItemID Stack q iv = map_option (\<lambda>c. Stack \<le> c) (CargoAddItemCount env ItemID q iv)"

section \<open>Adding\<close>

definition QualityCalculator :: "item_env \<Rightarrow> Item \<Rightarrow> bool \<times> Item" where
  "QualityCalculator env it =
     (case GetItem env (scast (ItemTemplateID it)) of None \<Rightarrow> (False, it)
      | Some _ \<Rightarrow> (let s = take 63 (cstr_of (quality_text env it))
                   in if s = [] then (False, it) else (True, it\<lparr>InstanceInfo := s\<rparr>)))"

definition slot_changed :: "item_env \<Rightarrow> bool \<Rightarrow> nat \<Rightarrow> inventory \<Rightarrow> inventory" where
  "slot_changed env collect i = (if collect then inv_emit (Touched i) else save_cargo_slot env i)"

definition average :: "item_env \<Rightarrow> Item \<Rightarrow> u32 \<Rightarrow> u32 \<Rightarrow> f32" where
  "average env it paid count =
     f_div env (f_add env (f_mul env (AveCost it) (f_of_u32 env (StackCount it))) (f_of_u32 env paid))
       (f_of_u32 env count)"

text \<open>
  The slot after its stack was filled up with a part of the item, and after it took the rest.
\<close>

definition stack_full :: "item_env \<Rightarrow> Item \<Rightarrow> u32 \<Rightarrow> u32 \<Rightarrow> Item \<Rightarrow> Item" where
  "stack_full env my maxStack curTrade it =
     (let moved = maxStack - StackCount it;
          it1 = item_upd (AddTradeStack (if curTrade < moved then curTrade else moved)) it;
          it2 = item_upd (SetStackCount maxStack) it1;
          it3 = item_upd (SetAveCost (average env it (moved * ucast (Price my)) maxStack)) it2
      in if Price my \<noteq> 0 then item_upd (SetPrice (Price my)) it3 else it3)"

definition stack_rest :: "item_env \<Rightarrow> Item \<Rightarrow> u32 \<Rightarrow> u32 \<Rightarrow> Item \<Rightarrow> Item" where
  "stack_rest env my curStack curTrade it =
     (let it1 = item_upd (SetAveCost (average env it (curStack * ucast (Price my)) (curStack + StackCount it))) it;
          it2 = (if Price my \<noteq> 0 then item_upd (SetPrice (Price my)) it1 else it1);
          it3 = item_upd (SetStackCount (curStack + StackCount it)) it2
      in item_upd (SetTradeStack (curTrade + TradeStack it)) it3)"

text \<open>
  The first loop of \<^verbatim>\<open>CargoAddItem\<close>, over the stacks of the same item. The result says whether the
  item was stored completely, and what is left of it.
\<close>

fun stack_loop :: "item_env \<Rightarrow> bool \<Rightarrow> Item \<Rightarrow> u32 \<Rightarrow> nat list \<Rightarrow> u32 \<Rightarrow> u32 \<Rightarrow> inventory \<Rightarrow>
    bool \<times> u32 \<times> u32 \<times> inventory" where
  "stack_loop env collect my maxStack [] curStack curTrade iv = (False, curStack, curTrade, iv)"
| "stack_loop env collect my maxStack (i # is) curStack curTrade iv =
     (let it = CargoInv iv ! i in
      if ItemTemplateID it = ItemTemplateID my \<and> f_eq (Quality it) (Quality my) \<and> BuilderName it = BuilderName my
      then if maxStack < StackCount it + curStack
           then (let moved = maxStack - StackCount it
                 in stack_loop env collect my maxStack is (curStack - moved) (curTrade - moved)
                      (slot_changed env collect i (on_cargo i (stack_full env my maxStack curTrade) iv)))
           else (True, 0, 0, slot_changed env collect i (on_cargo i (stack_rest env my curStack curTrade) iv))
      else stack_loop env collect my maxStack is curStack curTrade iv)"

text \<open>The second loop, over the empty slots.\<close>

definition fill_full :: "item_env \<Rightarrow> Item \<Rightarrow> u32 \<Rightarrow> u32 \<Rightarrow> Item \<Rightarrow> Item" where
  "fill_full env my maxStack curTrade it =
     (let it1 = item_upd (AuxItem_SetData my) it;
          it2 = item_upd (SetStackCount maxStack) it1;
          it3 = item_upd (SetTradeStack (if curTrade < maxStack then curTrade else maxStack)) it2
      in item_upd (SetAveCost (f_of_u32 env (ucast (Price my)))) it3)"

definition fill_rest :: "item_env \<Rightarrow> Item \<Rightarrow> u32 \<Rightarrow> u32 \<Rightarrow> Item \<Rightarrow> Item" where
  "fill_rest env my curStack curTrade it =
     (let it1 = item_upd (AuxItem_SetData my) it;
          it2 = item_upd (SetStructure (Structure my)) it1;
          it3 = item_upd (SetStackCount curStack) it2;
          it4 = item_upd (SetTradeStack curTrade) it3
      in item_upd (SetAveCost (f_of_u32 env (ucast (Price my)))) it4)"

fun fill_loop :: "item_env \<Rightarrow> bool \<Rightarrow> Item \<Rightarrow> u32 \<Rightarrow> nat list \<Rightarrow> u32 \<Rightarrow> u32 \<Rightarrow> inventory \<Rightarrow>
    bool \<times> u32 \<times> inventory" where
  "fill_loop env collect my maxStack [] curStack curTrade iv = (False, curStack, iv)"
| "fill_loop env collect my maxStack (i # is) curStack curTrade iv =
     (if ItemTemplateID (CargoInv iv ! i) = -1
      then if maxStack < curStack
           then fill_loop env collect my maxStack is (curStack - maxStack) (curTrade - maxStack)
                  (slot_changed env collect i (on_cargo i (fill_full env my maxStack curTrade) iv))
           else (True, 0, slot_changed env collect i (on_cargo i (fill_rest env my curStack curTrade) iv))
      else fill_loop env collect my maxStack is curStack curTrade iv)"

definition CargoAddItem :: "item_env \<Rightarrow> bool \<Rightarrow> Item \<Rightarrow> inventory \<Rightarrow> (int \<times> Item \<times> inventory) option" where
  "CargoAddItem env collect myItem iv =
     (if ItemTemplateID myItem <s 0 then Some (-1, myItem, iv)
      else case GetItem env (scast (ItemTemplateID myItem)) of
             None \<Rightarrow> Some (-2, myItem, iv)
           | Some b \<Rightarrow>
               if length (CargoInv iv) < unat (CargoSpace iv) then None
               else let my1 = (if f_zero (Structure myItem) then myItem\<lparr>Structure := f_one\<rparr> else myItem);
                        iv1 = inv_emit (SendItemBase (ItemTemplateID my1)) iv;
                        my2 = snd (QualityCalculator env my1);
                        slots = [0..<unat (CargoSpace iv)];
                        (stored, curStack, curTrade, iv2) =
                          (if 1 < MaxStack b
                           then stack_loop env collect my2 (MaxStack b) slots (StackCount myItem) (TradeStack myItem) iv1
                           else (False, StackCount myItem, TradeStack myItem, iv1))
                    in if stored then Some (0, my2, iv2)
                       else let (filled, _, iv3) = fill_loop env collect my2 (MaxStack b) slots curStack curTrade iv2
                            in Some (if filled then 0 else -3, my2, iv3))"

definition CargoAddItem_id :: "item_env \<Rightarrow> clong \<Rightarrow> u32 \<Rightarrow> u32 \<Rightarrow> inventory \<Rightarrow> (int \<times> Item \<times> inventory) option" where
  "CargoAddItem_id env ItemID Stack Trade iv =
     CargoAddItem env False
       (EmptyItem\<lparr>ItemTemplateID := ucast ItemID, StackCount := Stack, Quality := f_one,
                  Structure := f_one, TradeStack := Trade\<rparr>) iv"

section \<open>Removing\<close>

fun remove_loop :: "item_env \<Rightarrow> clong \<Rightarrow> nat list \<Rightarrow> u32 \<Rightarrow> inventory \<Rightarrow> u32 \<times> inventory" where
  "remove_loop env ItemID [] Stack iv = (Stack, iv)"
| "remove_loop env ItemID (i # is) Stack iv =
     (let it = CargoInv iv ! i in
      if scast (ItemTemplateID it) = ItemID
      then let (it', Stack') =
                 (if StackCount it \<le> Stack then (item_upd AuxItem_Empty it, Stack - StackCount it)
                  else (item_upd (SetStackCount (StackCount it - Stack)) it, 0));
               iv' = save_cargo_slot env i (on_cargo i (\<lambda>_. it') iv)
           in if Stack' = 0 then (0, iv') else remove_loop env ItemID is Stack' iv'
      else remove_loop env ItemID is Stack iv)"

definition CargoRemoveItem :: "item_env \<Rightarrow> clong \<Rightarrow> u32 \<Rightarrow> inventory \<Rightarrow> inventory option" where
  "CargoRemoveItem env ItemID Stack iv =
     (if ItemID <s 0 \<or> Stack = 0 then Some iv
      else if length (CargoInv iv) < unat (CargoSpace iv) then None
      else Some (snd (remove_loop env ItemID [0..<unat (CargoSpace iv)] Stack iv)))"

section \<open>Stacking\<close>

definition swap_stacks :: "Item \<times> Item \<Rightarrow> Item \<times> Item" where
  "swap_stacks = (\<lambda>(src, dst).
     let src' = src\<lparr>StackCount := StackCount dst, TradeStack := TradeStack dst\<rparr>;
         dst' = dst\<lparr>StackCount := StackCount src, TradeStack := TradeStack src\<rparr>
     in (src', if StackCount dst' = 0 then EmptyItem else dst'))"

text \<open>Move a number of items and of tradable items from the source to the destination.\<close>

definition move_stack :: "u32 \<Rightarrow> Item \<times> Item \<Rightarrow> Item \<times> Item" where
  "move_stack n = (\<lambda>(src, dst).
     (src\<lparr>StackCount := StackCount src - n, TradeStack := TradeStack src - n\<rparr>,
      dst\<lparr>StackCount := StackCount dst + n,
          TradeStack := TradeStack dst + (if TradeStack src < n then TradeStack src else n)\<rparr>))"

definition CheckStack :: "item_env \<Rightarrow> u32 \<Rightarrow> Item \<times> Item \<Rightarrow> Item \<times> Item" where
  "CheckStack env MoveNum sd =
     (let (src, dst) = sd in
      if ItemTemplateID src = ItemTemplateID dst \<and> f_eq (Quality src) (Quality dst) \<and>
         BuilderName src = BuilderName dst
      then (case GetItem env (scast (ItemTemplateID src)) of None \<Rightarrow> sd
            | Some b \<Rightarrow>
                if MaxStack b < StackCount dst + MoveNum
                then swap_stacks (move_stack (MaxStack b - StackCount dst) (src, dst))
                else swap_stacks (move_stack MoveNum (src, dst)))
      else if ItemTemplateID dst = -1 \<and> MoveNum < StackCount src
      then swap_stacks (move_stack MoveNum (src, src\<lparr>StackCount := 0\<rparr>))
      else sd)"

section \<open>Prices and vault space\<close>

definition set_prices :: "(s32 \<Rightarrow> u64) \<Rightarrow> nat \<Rightarrow> Item list \<Rightarrow> Item list option" where
  "set_prices price n items =
     (if n \<le> length items
      then Some (map (\<lambda>it. item_upd (SetPrice (price (ItemTemplateID it))) it) (take n items) @ drop n items)
      else None)"

definition SetPrices :: "(s32 \<Rightarrow> u64) \<Rightarrow> inventory \<Rightarrow> inventory option" where
  "SetPrices price iv = do {
     v \<leftarrow> set_prices price 96 (SecureInv iv);
     e \<leftarrow> set_prices price 20 (EquipInv iv);
     a \<leftarrow> set_prices price 20 (AmmoInv iv);
     c \<leftarrow> set_prices price (unat (CargoSpace iv)) (CargoInv iv);
     Some (iv\<lparr>SecureInv := v, EquipInv := e, AmmoInv := a, CargoInv := c\<rparr>)
   }"

definition ClearPrices :: "inventory \<Rightarrow> inventory option" where
  "ClearPrices iv = do {
     v \<leftarrow> set_prices (\<lambda>_. 0) 96 (SecureInv iv);
     a \<leftarrow> set_prices (\<lambda>_. 0) 20 (AmmoInv iv);
     e \<leftarrow> set_prices (\<lambda>_. 0) 20 (EquipInv iv);
     c \<leftarrow> set_prices (\<lambda>_. 0) (unat (CargoSpace iv)) (CargoInv iv);
     Some (iv\<lparr>SecureInv := v, EquipInv := e, AmmoInv := a, CargoInv := c\<rparr>)
   }"

definition FindFreeVaultSpace :: "item_env \<Rightarrow> clong \<Rightarrow> u32 \<Rightarrow> inventory \<Rightarrow> nat option" where
  "FindFreeVaultSpace env item_id stack iv =
     (case first_index (\<lambda>it. scast (ItemTemplateID it) = item_id \<and>
             (case GetItem env item_id of None \<Rightarrow> False | Some b \<Rightarrow> StackCount it + stack \<le> MaxStack b))
           (take 96 (SecureInv iv)) of
        Some i \<Rightarrow> Some i
      | None \<Rightarrow> first_index (\<lambda>it. ItemTemplateID it = -1) (take 96 (SecureInv iv)))"

section \<open>Moving items at the request of the client\<close>

record InvMove =
  FromInv :: s32
  FromSlot :: s32
  ToInv :: s32
  ToSlot :: s32
  Num :: s32

definition ntohl :: "s32 \<Rightarrow> s32" where
  "ntohl w = le_word (rev (le_bytes 4 w))"

definition InvMove_ntohl :: "InvMove \<Rightarrow> InvMove" where
  "InvMove_ntohl m = \<lparr>FromInv = ntohl (FromInv m), FromSlot = ntohl (FromSlot m), ToInv = ntohl (ToInv m),
     ToSlot = ntohl (ToSlot m), Num = ntohl (Num m)\<rparr>"

definition InventorySlotCount :: "s32 \<Rightarrow> bool \<Rightarrow> nat" where
  "InventorySlotCount inv_type as_destination =
     (if inv_type = 1 then 40 else if inv_type = 2 then 20 else if inv_type = 3 then 96
      else if inv_type = 4 then (if as_destination then 0 else 128)
      else if inv_type = 16 then 6 else 0)"

definition in_slots :: "s32 \<Rightarrow> nat \<Rightarrow> bool" where
  "in_slots s n \<longleftrightarrow> 0 \<le> sint s \<and> sint s < int n"

definition set_slot :: "Item \<Rightarrow> Item \<Rightarrow> Item" where
  "set_slot new old = item_upd (AuxItem_SetData new) old"

definition is_trade_good :: "item_env \<Rightarrow> Item \<Rightarrow> bool" where
  "is_trade_good env it =
     (case GetItem env (scast (ItemTemplateID it)) of Some b \<Rightarrow> ib_Category b = 90 | None \<Rightarrow> False)"

definition no_destroy :: "item_env \<Rightarrow> Item \<Rightarrow> bool" where
  "no_destroy env it =
     (case GetItem env (scast (ItemTemplateID it)) of Some b \<Rightarrow> ib_Flags b AND 16 \<noteq> 0 | None \<Rightarrow> False)"

definition cargo_to_cargo :: "item_env \<Rightarrow> InvMove \<Rightarrow> inventory \<Rightarrow> inventory option" where
  "cargo_to_cargo env m iv =
     (let f = unat (FromSlot m); t = unat (ToSlot m) in
      if f < length (CargoInv iv) \<and> t < length (CargoInv iv)
      then let (src, dst) = CheckStack env (Num m) (CargoInv iv ! f, CargoInv iv ! t);
               iv1 = on_cargo f (set_slot dst) (on_cargo t (set_slot src) iv)
           in Some (save_cargo_slot env t (save_cargo_slot env f (inv_emit (SendAux True) iv1)))
      else None)"

definition cargo_to_vault :: "item_env \<Rightarrow> InvMove \<Rightarrow> inventory \<Rightarrow> inventory option" where
  "cargo_to_vault env m iv =
     (let f = unat (FromSlot m) in
      if f < length (CargoInv iv)
      then let src0 = CargoInv iv ! f;
               slot = (if ToSlot m = -1 then FindFreeVaultSpace env (scast (ItemTemplateID src0)) (StackCount src0) iv
                       else Some (unat (ToSlot m)))
           in case slot of
                None \<Rightarrow> Some (inv_emit (VaMessageC ''No free vault slots'') iv)
              | Some t \<Rightarrow>
                  if is_trade_good env src0 then Some (inv_emit (VaMessageC ''Cannot move trade item into vault.'') iv)
                  else if t < length (SecureInv iv)
                  then let (src, dst) = CheckStack env (Num m) (src0, SecureInv iv ! t);
                           iv1 = on_cargo f (set_slot dst) (on_vault t (set_slot src) iv)
                       in Some (save_move env [(False, f), (True, t)]
                            (inv_emit (SendAux True) (inv_emit (SendAux False) iv1)))
                  else None
      else None)"

text \<open>
  Destroying items (\<^verbatim>\<open>spaceing item\<close> from cargo, \<^verbatim>\<open>destroy item\<close> from the vault): the stack count is an
  unsigned number, so the test for \<^verbatim>\<open><= 0\<close> holds only at zero.
\<close>

definition destroy_from :: "item_env \<Rightarrow> s32 \<Rightarrow> Item \<Rightarrow> Item option" where
  "destroy_from env n src =
     (if no_destroy env src then None
      else Some (let dst = src\<lparr>StackCount := StackCount src - n\<rparr>
                 in if StackCount dst \<le> 0 then EmptyItem else dst))"

definition space_cargo :: "item_env \<Rightarrow> InvMove \<Rightarrow> inventory \<Rightarrow> inventory option" where
  "space_cargo env m iv =
     (let f = unat (FromSlot m) in
      if f < length (CargoInv iv)
      then Some (case destroy_from env (Num m) (CargoInv iv ! f) of
                   None \<Rightarrow> inv_emit (VaMessageC ''That item cannot be destroyed.'') iv
                 | Some d \<Rightarrow> save_cargo_slot env f (inv_emit (SendAux True) (on_cargo f (set_slot d) iv)))
      else None)"

definition destroy_vault :: "item_env \<Rightarrow> InvMove \<Rightarrow> inventory \<Rightarrow> inventory option" where
  "destroy_vault env m iv =
     (let f = unat (FromSlot m) in
      if f < length (SecureInv iv)
      then Some (case destroy_from env (Num m) (SecureInv iv ! f) of
                   None \<Rightarrow> inv_emit (VaMessageC ''That item cannot be destroyed.'') iv
                 | Some d \<Rightarrow> inv_emit (SaveVaultChange f) (inv_emit (SendAux False) (on_vault f (set_slot d) iv)))
      else None)"

definition touched_since :: "inventory \<Rightarrow> inventory \<Rightarrow> nat list" where
  "touched_since iv0 iv1 =
     concat (map (\<lambda>e. case e of Touched i \<Rightarrow> [i] | _ \<Rightarrow> []) (drop (length (inv_log iv0)) (inv_log iv1)))"

definition SAVE_MOVE_MAX_RECORDS :: nat where
  "SAVE_MOVE_MAX_RECORDS = 15"

definition vault_to_any_cargo :: "item_env \<Rightarrow> InvMove \<Rightarrow> inventory \<Rightarrow> inventory option" where
  "vault_to_any_cargo env m iv =
     (let f = unat (FromSlot m) in
      if f < length (SecureInv iv)
      then let src = SecureInv iv ! f in
           do {
             room \<leftarrow> CargoAddItemCount env (scast (ItemTemplateID src)) (Quality src) iv;
             if StackCount src \<le> room
             then do {
               (_, _, iv1) \<leftarrow> CargoAddItem env True src iv;
               let slots = touched_since iv iv1;
               let iv2 = inv_emit (SendAux False) (inv_emit (SendAux True) (on_vault f (set_slot EmptyItem) iv1));
               Some (if length slots + 1 \<le> SAVE_MOVE_MAX_RECORDS
                     then save_move env ((True, f) # map (Pair False) slots) iv2
                     else fold (save_cargo_slot env) slots (inv_emit (SaveVaultChange f) iv2))
             }
             else Some (inv_emit (VaMessageC ''No free cargo slots'') iv)
           }
      else None)"

definition vault_to_cargo :: "item_env \<Rightarrow> InvMove \<Rightarrow> inventory \<Rightarrow> inventory option" where
  "vault_to_cargo env m iv =
     (if ToSlot m = -1 then vault_to_any_cargo env m iv
      else let f = unat (FromSlot m); t = unat (ToSlot m) in
           if f < length (SecureInv iv) \<and> t < length (CargoInv iv)
           then if is_trade_good env (CargoInv iv ! t)
                then Some (inv_emit (VaMessageC ''Cannot move trade item into vault.'') iv)
                else let (src, dst) = CheckStack env (Num m) (SecureInv iv ! f, CargoInv iv ! t);
                         iv1 = on_vault f (set_slot dst) (on_cargo t (set_slot src) iv)
                     in Some (save_move env [(True, f), (False, t)]
                          (inv_emit (SendAux False) (inv_emit (SendAux True) iv1)))
           else None)"

definition vault_to_vault :: "item_env \<Rightarrow> InvMove \<Rightarrow> inventory \<Rightarrow> inventory option" where
  "vault_to_vault env m iv =
     (let f = unat (FromSlot m); t = unat (ToSlot m) in
      if f < length (SecureInv iv) \<and> t < length (SecureInv iv)
      then let (src, dst) = CheckStack env (Num m) (SecureInv iv ! f, SecureInv iv ! t);
               iv1 = on_vault f (set_slot dst) (on_vault t (set_slot src) iv)
           in Some (save_move env [(True, f), (True, t)] (inv_emit (SendAux False) iv1))
      else None)"

text \<open>
  The checks of \<^verbatim>\<open>HandleInventoryMove\<close> on the message of the client, and its dispatch. \<^verbatim>\<open>other\<close>
  stands for the branches of the equipment, vendor, manufacturing, trade and loot inventories.
\<close>

definition move_accepted :: "InvMove \<Rightarrow> bool" where
  "move_accepted m \<longleftrightarrow>
     (let src_slots = InventorySlotCount (FromInv m) False;
          auto_select_dest = (ToSlot m = -1 \<and>
            (FromInv m = 1 \<and> ToInv m = 3 \<or> FromInv m = 3 \<and> ToInv m = 1 \<or> FromInv m = 4 \<and> ToInv m = 1 \<or>
             FromInv m = 14 \<and> ToInv m = 1));
          dest_not_indexed = (FromInv m = 6 \<or> FromInv m = 18);
          dst_slots = InventorySlotCount (ToInv m) True
      in \<not> (0 < src_slots \<and> \<not> in_slots (FromSlot m) src_slots) \<and>
         \<not> (0 < dst_slots \<and> \<not> auto_select_dest \<and> \<not> dest_not_indexed \<and> \<not> in_slots (ToSlot m) dst_slots))"

definition HandleInventoryMove :: "item_env \<Rightarrow> (InvMove \<Rightarrow> inventory \<Rightarrow> inventory option) \<Rightarrow> bool \<Rightarrow> bool \<Rightarrow>
    InvMove \<Rightarrow> inventory \<Rightarrow> inventory option" where
  "HandleInventoryMove env other gating incapacitated data iv =
     (if gating then Some iv
      else if incapacitated
      then Some (inv_emit (VaMessageC ''Unable to move inventory while incapacitated.'') iv)
      else let m = InvMove_ntohl data in
           if \<not> move_accepted m then Some iv
           else if FromInv m = 1
           then (if ToInv m = 1 then cargo_to_cargo env m iv
                 else if ToInv m = 3 then cargo_to_vault env m iv
                 else if ToInv m = 11 then space_cargo env m iv
                 else other m iv)
           else if FromInv m = 3
           then (if ToInv m = 11 \<or> ToInv m = -1 then destroy_vault env m iv
                 else if ToInv m = 1 then vault_to_cargo env m iv
                 else if ToInv m = 3 then vault_to_vault env m iv
                 else Some iv)
           else other m iv)"

end
