(* ===== verification/InventoryProps.thy ===== *)
theory InventoryProps
  imports PlayerInventory
begin

text \<open>
  What the inventory operations do to the number of items a player owns. \<^verbatim>\<open>amt\<close> is the
  specification: how many items of a kind lie in a list of cargo slots. Adding and removing
  change it by exactly the number asked for, whatever stacks and slots are used, as long as no stage of
  a mission is completed by saving the slots (\<^verbatim>\<open>missions_quiet\<close>); the check
  before adding agrees with adding only when the builder names agree; and the move
  handler trusts the number the client sends.
\<close>

section \<open>Setters on slots\<close>

lemma item_upd_simps [simp]:
  "item_upd (SetStackCount n) d = d\<lparr>StackCount := n\<rparr>"
  "item_upd (SetPrice q) d = d\<lparr>Price := q\<rparr>"
  "item_upd (SetTradeStack n) d = d\<lparr>TradeStack := if 999 < n then 0 else n\<rparr>"
  "item_upd (AddTradeStack n) d = d\<lparr>TradeStack := if 999 < TradeStack d + n then 0 else TradeStack d + n\<rparr>"
  "ItemTemplateID (item_upd (SetAveCost x) d) = ItemTemplateID d"
  "StackCount (item_upd (SetAveCost x) d) = StackCount d"
  "Quality (item_upd (SetAveCost x) d) = Quality d"
  "BuilderName (item_upd (SetAveCost x) d) = BuilderName d"
  "TradeStack (item_upd (SetAveCost x) d) = TradeStack d"
  "ItemTemplateID (item_upd (SetStructure x) d) = ItemTemplateID d"
  "StackCount (item_upd (SetStructure x) d) = StackCount d"
  "TradeStack (item_upd (SetStructure x) d) = TradeStack d"
  "ItemTemplateID (item_upd (AuxItem_SetData my) d) = ItemTemplateID my"
  "StackCount (item_upd (AuxItem_SetData my) d) = StackCount my"
  "ItemTemplateID (item_upd AuxItem_Empty d) = -1"
  "StackCount (item_upd AuxItem_Empty d) = 0"
  by (simp_all add: item_upd_def AuxItem_SetData_def AddTradeStack_def AuxItem_Empty_def AuxItem_Clear_def ClearItem_def)

lemma on_cargo_simps [simp]:
  "CargoInv (on_cargo i f iv) = (CargoInv iv)[i := f (CargoInv iv ! i)]"
  "CargoSpace (on_cargo i f iv) = CargoSpace iv" "SecureInv (on_cargo i f iv) = SecureInv iv"
  "inv_log (on_cargo i f iv) = inv_log iv"
  "CargoInv (inv_emit e iv) = CargoInv iv" "CargoSpace (inv_emit e iv) = CargoSpace iv"
  "SecureInv (inv_emit e iv) = SecureInv iv"
  "CargoInv (on_vault i f iv) = CargoInv iv" "SecureInv (on_vault i f iv) = (SecureInv iv)[i := f (SecureInv iv ! i)]"
  by (simp_all add: on_cargo_def inv_emit_def on_vault_def)

text \<open>Saving a slot when no stage of a mission waits for it.\<close>

lemma quiet_saves:
  assumes "missions_quiet env"
  shows "save_cargo_slot env i iv = inv_emit (SaveInventoryChange i) iv"
    and "slot_changed env c i iv = inv_emit (if c then Touched i else SaveInventoryChange i) iv"
    and "save_move env rs iv = inv_emit (SaveMove rs) iv"
proof -
  have q: "check_missions env i iv = iv" for i iv using assms by (simp add: missions_quiet_def)
  show s: "save_cargo_slot env i iv = inv_emit (SaveInventoryChange i) iv" by (simp add: save_cargo_slot_def q)
  show "slot_changed env c i iv = inv_emit (if c then Touched i else SaveInventoryChange i) iv"
    by (simp add: slot_changed_def s)
  have "fold (pack_slot env) rs iv = iv" for iv by (induction rs) (simp_all add: pack_slot_def q)
  then show "save_move env rs iv = inv_emit (SaveMove rs) iv" by (simp add: save_move_def)
qed

lemma quiet_slot_simps [simp]:
  "missions_quiet env \<Longrightarrow> CargoInv (slot_changed env c i iv) = CargoInv iv"
  "missions_quiet env \<Longrightarrow> CargoSpace (slot_changed env c i iv) = CargoSpace iv"
  "missions_quiet env \<Longrightarrow> SecureInv (slot_changed env c i iv) = SecureInv iv"
  "missions_quiet env \<Longrightarrow> TradeInv (slot_changed env c i iv) = TradeInv iv"
  "missions_quiet env \<Longrightarrow> CargoInv (save_cargo_slot env i iv) = CargoInv iv"
  "missions_quiet env \<Longrightarrow> CargoSpace (save_cargo_slot env i iv) = CargoSpace iv"
  "missions_quiet env \<Longrightarrow> SecureInv (save_cargo_slot env i iv) = SecureInv iv"
  by (simp_all add: quiet_saves inv_emit_def)

section \<open>The number of items of a kind\<close>

definition cnt :: "s32 \<Rightarrow> Item \<Rightarrow> nat" where
  "cnt k it = (if ItemTemplateID it = k then unat (StackCount it) else 0)"

definition amt :: "s32 \<Rightarrow> nat list \<Rightarrow> inventory \<Rightarrow> nat" where
  "amt k is iv = (\<Sum>i\<leftarrow>is. cnt k (CargoInv iv ! i))"

lemma amt_Nil [simp]: "amt k [] iv = 0"
  and amt_Cons [simp]: "amt k (i # is) iv = cnt k (CargoInv iv ! i) + amt k is iv"
  by (simp_all add: amt_def)

lemma amt_cong: "(\<And>i. i \<in> set is \<Longrightarrow> CargoInv iv' ! i = CargoInv iv ! i) \<Longrightarrow> amt k is iv' = amt k is iv"
  by (simp add: amt_def cong: map_cong)

text \<open>What every loop over cargo slots leaves alone.\<close>

definition only_slots :: "nat list \<Rightarrow> inventory \<Rightarrow> inventory \<Rightarrow> bool" where
  "only_slots is iv iv' \<longleftrightarrow> length (CargoInv iv') = length (CargoInv iv) \<and> CargoSpace iv' = CargoSpace iv \<and>
     SecureInv iv' = SecureInv iv \<and> (\<forall>j. j \<notin> set is \<longrightarrow> CargoInv iv' ! j = CargoInv iv ! j)"

lemma only_slots_refl [simp]: "only_slots is iv iv"
  by (simp add: only_slots_def)

lemma only_slots_step:
  "only_slots is (slot_changed env c i (on_cargo i f iv)) iv' \<Longrightarrow> missions_quiet env \<Longrightarrow> only_slots (i # is) iv iv'"
  "only_slots is (save_cargo_slot env i (on_cargo i f iv)) iv' \<Longrightarrow> missions_quiet env \<Longrightarrow> only_slots (i # is) iv iv'"
  "only_slots is iv iv' \<Longrightarrow> only_slots (i # is) iv iv'"
  by (auto simp: only_slots_def)

lemma only_slots_one:
  "missions_quiet env \<Longrightarrow> only_slots (i # is) iv (slot_changed env c i (on_cargo i f iv))"
  "missions_quiet env \<Longrightarrow> only_slots (i # is) iv (save_cargo_slot env i (on_cargo i f iv))"
  by (auto simp: only_slots_def)

lemma amt_other_slots:
  "i \<notin> set is \<Longrightarrow> missions_quiet env \<Longrightarrow> amt k is (slot_changed env c i (on_cargo i f iv)) = amt k is iv"
  "i \<notin> set is \<Longrightarrow> missions_quiet env \<Longrightarrow> amt k is (save_cargo_slot env i (on_cargo i f iv)) = amt k is iv"
  by (auto intro!: amt_cong nth_list_update_neq)

section \<open>Adding\<close>

definition stackable :: "Item \<Rightarrow> Item \<Rightarrow> bool" where
  "stackable my it \<longleftrightarrow> ItemTemplateID it = ItemTemplateID my \<and> f_eq (Quality it) (Quality my) \<and>
     BuilderName it = BuilderName my"

definition fits :: "s32 \<Rightarrow> u32 \<Rightarrow> Item \<Rightarrow> bool" where
  "fits k m it \<longleftrightarrow> (ItemTemplateID it = k \<longrightarrow> StackCount it \<le> m)"

text \<open>What \<^verbatim>\<open>stack_loop\<close> can still take in.\<close>

definition stack_room :: "Item \<Rightarrow> u32 \<Rightarrow> nat list \<Rightarrow> inventory \<Rightarrow> nat" where
  "stack_room my m is iv = (\<Sum>i\<leftarrow>is. if stackable my (CargoInv iv ! i) then unat m - unat (StackCount (CargoInv iv ! i)) else 0)"

lemma stack_room_simps [simp]:
  "stack_room my m [] iv = 0"
  "stack_room my m (i # is) iv =
     (if stackable my (CargoInv iv ! i) then unat m - unat (StackCount (CargoInv iv ! i)) else 0) + stack_room my m is iv"
  by (simp_all add: stack_room_def)

lemma stack_room_cong:
  "(\<And>i. i \<in> set is \<Longrightarrow> CargoInv iv' ! i = CargoInv iv ! i) \<Longrightarrow> stack_room my m is iv' = stack_room my m is iv"
  unfolding stack_room_def by (intro arg_cong [where f = sum_list] map_cong) simp_all

text \<open>
  The contract of both loops: of \<^verbatim>\<open>n\<close> items of kind \<^verbatim>\<open>k\<close> all but \<^verbatim>\<open>left\<close> end in the slots \<^verbatim>\<open>is\<close>, no other
  kind changes (empty slots carry the number -1), and no stack grows over \<^verbatim>\<open>m\<close>.
\<close>

definition conserve :: "s32 \<Rightarrow> u32 \<Rightarrow> nat list \<Rightarrow> nat \<Rightarrow> inventory \<Rightarrow> nat \<Rightarrow> inventory \<Rightarrow> bool" where
  "conserve k m is n iv left iv' \<longleftrightarrow>
     only_slots is iv iv' \<and> amt k is iv' + left = amt k is iv + n \<and>
     (\<forall>j. j \<noteq> k \<and> j \<noteq> -1 \<longrightarrow> amt j is iv' = amt j is iv) \<and>
     ((\<forall>i \<in> set is. fits k m (CargoInv iv ! i)) \<longrightarrow> (\<forall>i \<in> set is. fits k m (CargoInv iv' ! i)))"

lemma conserve_refl [simp]: "conserve k m is n iv n iv"
  by (simp add: conserve_def)

lemma conserve_trans:
  "conserve k m is n iv l iv1 \<Longrightarrow> conserve k m is l iv1 l2 iv2 \<Longrightarrow> conserve k m is n iv l2 iv2"
  by (auto simp: conserve_def only_slots_def)

lemma conserve_skip: "conserve k m is n iv l iv' \<Longrightarrow> i \<notin> set is \<Longrightarrow> conserve k m (i # is) n iv l iv'"
  by (auto simp: conserve_def only_slots_def)

lemma conserve_place:
  assumes c: "conserve k m is n iv1 l iv'" and i: "i \<notin> set is" "i < length (CargoInv iv)"
    and iv1: "CargoInv iv1 = (CargoInv iv)[i := it]" "CargoSpace iv1 = CargoSpace iv" "SecureInv iv1 = SecureInv iv"
    and old: "ItemTemplateID (CargoInv iv ! i) = k \<or> ItemTemplateID (CargoInv iv ! i) = -1"
    and new: "ItemTemplateID it = k" "StackCount it \<le> m" "cnt k it = cnt k (CargoInv iv ! i) + moved"
  shows "conserve k m (i # is) (n + moved) iv l iv'"
proof -
  have o: "only_slots is iv1 iv'" and iv': "CargoInv iv' ! i = it"
    using c i iv1(1) by (auto simp: conserve_def only_slots_def)
  have kept: "CargoInv iv1 ! j = CargoInv iv ! j" if "j \<in> set is" for j
    using that i(1) iv1(1) by (cases "i = j") auto
  then have amt1: "amt j is iv1 = amt j is iv" for j by (rule amt_cong)
  have "only_slots (i # is) iv iv'" using o iv1 by (auto simp: only_slots_def)
  moreover have "amt k (i # is) iv' + l = amt k (i # is) iv + (n + moved)"
    using c iv' new(3) amt1 by (simp add: conserve_def)
  moreover have "amt j (i # is) iv' = amt j (i # is) iv" if "j \<noteq> k" "j \<noteq> -1" for j
    using c iv' new(1) old that amt1 by (auto simp: conserve_def cnt_def)
  moreover have "fits k m (CargoInv iv' ! i)" using iv' new(2) by (simp add: fits_def)
  ultimately show ?thesis using c kept by (auto simp: conserve_def)
qed

section \<open>The loops of CargoAddItem\<close>

lemma placed_items [simp]:
  "ItemTemplateID (stack_full env my m tr it) = ItemTemplateID it" "StackCount (stack_full env my m tr it) = m"
  "ItemTemplateID (stack_rest env my cur tr it) = ItemTemplateID it"
  "StackCount (stack_rest env my cur tr it) = cur + StackCount it"
  "ItemTemplateID (fill_full env my m tr it) = ItemTemplateID my" "StackCount (fill_full env my m tr it) = m"
  "ItemTemplateID (fill_rest env my cur tr it) = ItemTemplateID my" "StackCount (fill_rest env my cur tr it) = cur"
  by (simp_all add: stack_full_def stack_rest_def fill_full_def fill_rest_def Let_def)

lemma stack_arith:
  fixes s cur m :: u32
  assumes "s \<le> m" and "unat cur + unat m < 2 ^ 32"
  shows "unat (s + cur) = unat s + unat cur"
    and "m < s + cur \<Longrightarrow> unat m < unat s + unat cur \<and> unat (cur - (m - s)) + (unat m - unat s) = unat cur"
    and "\<not> m < s + cur \<Longrightarrow> unat s + unat cur \<le> unat m"
proof -
  show add: "unat (s + cur) = unat s + unat cur"
    using assms by (intro unat_add_lem [THEN iffD1]) (simp add: word_le_nat_alt)
  have ms: "unat (m - s) = unat m - unat s" using assms(1) by (rule unat_sub)
  show "unat m < unat s + unat cur \<and> unat (cur - (m - s)) + (unat m - unat s) = unat cur" if "m < s + cur"
  proof -
    have lt: "unat m < unat s + unat cur" using that add by (simp add: word_less_nat_alt)
    then have "m - s \<le> cur" using ms by (simp add: word_le_nat_alt)
    then have "unat (cur - (m - s)) = unat cur - (unat m - unat s)" using ms by (simp add: unat_sub)
    then show ?thesis using lt by simp
  qed
  show "unat s + unat cur \<le> unat m" if "\<not> m < s + cur" using that add by (simp add: word_less_nat_alt)
qed

lemma stack_loop_Cons:
  "stack_loop env c my m (i # is) cur tr iv =
     (if stackable my (CargoInv iv ! i)
      then if m < StackCount (CargoInv iv ! i) + cur
           then stack_loop env c my m is (cur - (m - StackCount (CargoInv iv ! i))) (tr - (m - StackCount (CargoInv iv ! i)))
                  (slot_changed env c i (on_cargo i (stack_full env my m tr) iv))
           else (True, 0, 0, slot_changed env c i (on_cargo i (stack_rest env my cur tr) iv))
      else stack_loop env c my m is cur tr iv)"
  by (simp add: Let_def stackable_def)

declare stack_loop.simps(2) [simp del]

lemma stack_loop_conserve:
  assumes "stack_loop env c my m is cur tr iv = (stored, cur', tr', iv')" and "distinct is"
    and "ItemTemplateID my \<noteq> -1"
    and "\<forall>i \<in> set is. i < length (CargoInv iv) \<and> fits (ItemTemplateID my) m (CargoInv iv ! i)"
    and "unat cur + unat m < 2 ^ 32" and q [simp]: "missions_quiet env"
  shows "conserve (ItemTemplateID my) m is (unat cur) iv (unat cur') iv'"
  using assms
proof (induction "is" arbitrary: cur tr iv)
  case Nil
  then show ?case by simp
next
  case (Cons i "is")
  let ?it = "CargoInv iv ! i"
  have i: "i \<notin> set is" "i < length (CargoInv iv)" and le: "stackable my ?it \<Longrightarrow> StackCount ?it \<le> m"
    using Cons.prems by (auto simp: fits_def stackable_def)
  show ?case
  proof (cases "stackable my ?it")
    case False
    then have "conserve (ItemTemplateID my) m is (unat cur) iv (unat cur') iv'"
      using Cons.IH [of cur tr iv] Cons.prems by (simp add: stack_loop_Cons)
    then show ?thesis using i(1) by (rule conserve_skip)
  next
    case True
    note ar = stack_arith [OF le [OF True] Cons.prems(5)]
    have k: "ItemTemplateID ?it = ItemTemplateID my" using True by (simp add: stackable_def)
    show ?thesis
    proof (cases "m < StackCount ?it + cur")
      case more: True
      let ?iv = "slot_changed env c i (on_cargo i (stack_full env my m tr) iv)"
      have kept: "CargoInv ?iv ! j = CargoInv iv ! j" if "j \<in> set is" for j using that i(1) by (cases "i = j") auto
      have "conserve (ItemTemplateID my) m is (unat (cur - (m - StackCount ?it))) ?iv (unat cur') iv'"
      proof (rule Cons.IH)
        show "stack_loop env c my m is (cur - (m - StackCount ?it)) (tr - (m - StackCount ?it)) ?iv = (stored, cur', tr', iv')"
          using Cons.prems(1) True more by (simp add: stack_loop_Cons)
        show "\<forall>j \<in> set is. j < length (CargoInv ?iv) \<and> fits (ItemTemplateID my) m (CargoInv ?iv ! j)"
          using kept Cons.prems(4) by simp
      qed (use Cons.prems ar(2) [OF more] in auto)
      then have "conserve (ItemTemplateID my) m (i # is)
          (unat (cur - (m - StackCount ?it)) + (unat m - unat (StackCount ?it))) iv (unat cur') iv'"
        by (rule conserve_place [where it = "stack_full env my m tr ?it", OF _ i]) (use k le [OF True] in \<open>simp_all add: cnt_def word_le_nat_alt\<close>)
      then show ?thesis using ar(2) [OF more] by simp
    next
      case False
      let ?iv = "slot_changed env c i (on_cargo i (stack_rest env my cur tr) iv)"
      have res: "unat cur' = 0" "iv' = ?iv" using Cons.prems(1) True False by (auto simp: stack_loop_Cons)
      have "conserve (ItemTemplateID my) m (i # is) (0 + unat cur) iv 0 ?iv"
        by (rule conserve_place [where it = "stack_rest env my cur tr ?it", OF conserve_refl i])
          (use k ar False in \<open>simp_all add: cnt_def word_le_nat_alt add.commute\<close>)
      then show ?thesis unfolding res by simp
    qed
  qed
qed

text \<open>What is left after the first loop, when the item did not fit in the existing stacks.\<close>

lemma stack_loop_ids:
  "stack_loop env c my m is cur tr iv = (stored, cur', tr', iv') \<Longrightarrow> missions_quiet env \<Longrightarrow>
   map ItemTemplateID (CargoInv iv') = map ItemTemplateID (CargoInv iv)"
proof (induction "is" arbitrary: cur tr iv)
  case (Cons i "is")
  have "map ItemTemplateID ((CargoInv iv)[i := f (CargoInv iv ! i)]) = map ItemTemplateID (CargoInv iv)"
    if "\<And>it. ItemTemplateID (f it) = ItemTemplateID it" for f
    using that by (cases "i < length (CargoInv iv)") (simp_all add: map_update list_update_same_conv list_update_beyond)
  then show ?case
    using Cons.prems Cons.IH by (auto simp: stack_loop_Cons split: if_splits)
qed simp

lemma stack_loop_left:
  assumes "stack_loop env c my m is cur tr iv = (False, cur', tr', iv')" and "distinct is"
    and "\<forall>i \<in> set is. i < length (CargoInv iv) \<and> fits (ItemTemplateID my) m (CargoInv iv ! i)"
    and "unat cur + unat m < 2 ^ 32" and q [simp]: "missions_quiet env"
  shows "unat cur' + stack_room my m is iv = unat cur \<and> (cur' = 0 \<longrightarrow> cur = 0)"
  using assms
proof (induction "is" arbitrary: cur tr iv)
  case Nil
  then show ?case by simp
next
  case (Cons i "is")
  let ?it = "CargoInv iv ! i"
  have i: "i \<notin> set is" and le: "stackable my ?it \<Longrightarrow> StackCount ?it \<le> m"
    using Cons.prems by (auto simp: fits_def stackable_def)
  show ?case
  proof (cases "stackable my ?it")
    case False
    then show ?thesis using Cons.IH [of cur tr iv] Cons.prems by (simp add: stack_loop_Cons)
  next
    case True
    note ar = stack_arith [OF le [OF True] Cons.prems(4)]
    have more: "m < StackCount ?it + cur" using Cons.prems(1) True by (auto simp: stack_loop_Cons split: if_splits)
    let ?iv = "slot_changed env c i (on_cargo i (stack_full env my m tr) iv)" and ?cur = "cur - (m - StackCount ?it)"
    have kept: "CargoInv ?iv ! j = CargoInv iv ! j" if "j \<in> set is" for j using that i by (cases "i = j") auto
    have "unat cur' + stack_room my m is ?iv = unat ?cur \<and> (cur' = 0 \<longrightarrow> ?cur = 0)"
    proof (rule Cons.IH)
      show "stack_loop env c my m is ?cur (tr - (m - StackCount ?it)) ?iv = (False, cur', tr', iv')"
        using Cons.prems(1) True more by (simp add: stack_loop_Cons)
      show "\<forall>j \<in> set is. j < length (CargoInv ?iv) \<and> fits (ItemTemplateID my) m (CargoInv ?iv ! j)"
        using kept Cons.prems(3) by simp
    qed (use Cons.prems ar(2) [OF more] in auto)
    moreover have "stack_room my m is ?iv = stack_room my m is iv" using kept by (rule stack_room_cong)
    moreover have "?cur \<noteq> 0" using ar(2) [OF more] le [OF True] by (auto simp: word_le_nat_alt)
    ultimately show ?thesis using True ar(2) [OF more] by simp
  qed
qed

lemma fill_loop_conserve:
  assumes "fill_loop env c my m is cur tr iv = (filled, cur', iv')" and "distinct is" and "ItemTemplateID my \<noteq> -1"
    and "\<forall>i \<in> set is. i < length (CargoInv iv)" and q [simp]: "missions_quiet env"
  shows "conserve (ItemTemplateID my) m is (unat cur) iv (unat cur') iv'"
  using assms
proof (induction "is" arbitrary: cur tr iv)
  case Nil
  then show ?case by simp
next
  case (Cons i "is")
  let ?it = "CargoInv iv ! i"
  have i: "i \<notin> set is" "i < length (CargoInv iv)" using Cons.prems by auto
  consider "ItemTemplateID ?it \<noteq> -1" | "ItemTemplateID ?it = -1" "m < cur" | "ItemTemplateID ?it = -1" "\<not> m < cur" by blast
  then show ?case
  proof cases
    case 1
    then show ?thesis using Cons.IH [of cur tr iv] Cons.prems i(1) by (simp add: conserve_skip)
  next
    case 2
    let ?iv = "slot_changed env c i (on_cargo i (fill_full env my m tr) iv)"
    have "conserve (ItemTemplateID my) m is (unat (cur - m)) ?iv (unat cur') iv'"
      using Cons.IH [of "cur - m" "tr - m" ?iv] Cons.prems 2 by simp
    then have "conserve (ItemTemplateID my) m (i # is) (unat (cur - m) + unat m) iv (unat cur') iv'"
      by (rule conserve_place [where it = "fill_full env my m tr ?it", OF _ i])
        (use 2 Cons.prems(3) in \<open>simp_all add: cnt_def\<close>)
    then show ?thesis using 2 by (simp add: unat_sub word_le_nat_alt word_less_nat_alt)
  next
    case 3
    have res: "unat cur' = 0" "iv' = slot_changed env c i (on_cargo i (fill_rest env my cur tr) iv)"
      using Cons.prems(1) 3 by auto
    have "conserve (ItemTemplateID my) m (i # is) (0 + unat cur) iv 0 iv'" unfolding res(2)
      by (rule conserve_place [where it = "fill_rest env my cur tr ?it", OF conserve_refl i])
        (use 3 Cons.prems(3) in \<open>simp_all add: cnt_def\<close>)
    then show ?thesis unfolding res(1) by simp
  qed
qed

definition empties :: "nat list \<Rightarrow> inventory \<Rightarrow> nat" where
  "empties is iv = length (filter (\<lambda>i. ItemTemplateID (CargoInv iv ! i) = -1) is)"

lemma fill_loop_left:
  assumes "fill_loop env c my m is cur tr iv = (False, cur', iv')" and "distinct is"
    and "\<forall>i \<in> set is. i < length (CargoInv iv)" and q [simp]: "missions_quiet env"
  shows "unat cur' + empties is iv * unat m = unat cur \<and> (cur' = 0 \<longrightarrow> cur = 0)"
  using assms
proof (induction "is" arbitrary: cur tr iv)
  case Nil
  then show ?case by (simp add: empties_def)
next
  case (Cons i "is")
  show ?case
  proof (cases "ItemTemplateID (CargoInv iv ! i) = -1")
    case False
    then show ?thesis using Cons.IH [of cur tr iv] Cons.prems by (simp add: empties_def)
  next
    case True
    then have lt: "m < cur" using Cons.prems(1) by (auto split: if_splits)
    let ?iv = "slot_changed env c i (on_cargo i (fill_full env my m tr) iv)"
    have "CargoInv ?iv ! j = CargoInv iv ! j" if "j \<in> set is" for j using that Cons.prems(2) by (cases "i = j") auto
    then have "empties is ?iv = empties is iv" unfolding empties_def by (intro arg_cong [where f = length] filter_cong) auto
    moreover have "unat cur' + empties is ?iv * unat m = unat (cur - m) \<and> (cur' = 0 \<longrightarrow> cur - m = 0)"
      using Cons.IH [of "cur - m" "tr - m" ?iv] Cons.prems True lt by simp
    moreover have "unat (cur - m) + unat m = unat cur" "cur - m \<noteq> 0"
      using lt by (simp_all add: unat_sub word_le_nat_alt word_less_nat_alt) auto
    ultimately show ?thesis using True by (simp add: empties_def)
  qed
qed

section \<open>CargoAddItem\<close>

abbreviation slots :: "inventory \<Rightarrow> nat list" where
  "slots iv \<equiv> [0..<unat (CargoSpace iv)]"

lemma sint_scast_id: "sint (scast (k :: s32) :: clong) = sint k"
  using sint_greater_eq [of k] sint_less [of k]
  by (simp add: signed_scast_eq signed_take_bit_int_eq_self)

lemma scast_inj: "(scast (a :: s32) :: clong) = scast b \<longleftrightarrow> a = b"
  by (metis sint_scast_id signed_word_eqI)

lemma GetItem_id:
  assumes "GetItem env (scast (k :: s32)) = Some b"
  shows "\<not> k <s 0" and "k \<noteq> -1"
  using assms by (auto simp: GetItem_def word_sless_alt sint_scast_id split: if_splits)

text \<open>\<^verbatim>\<open>CargoItemCount\<close> computes \<^verbatim>\<open>amt\<close>, modulo the width of a \<^verbatim>\<open>long\<close>.\<close>

lemma CargoItemCount_amt:
  assumes "unat (CargoSpace iv) \<le> length (CargoInv iv)"
  shows "CargoItemCount (scast k) iv = Some (of_nat (amt k (slots iv) iv))"
proof -
  have "item_count (scast k) xs = of_nat (\<Sum>it\<leftarrow>xs. cnt k it)" for xs
    by (induction xs) (simp_all add: item_count_def cnt_def scast_inj unsigned_ucast_eq)
  moreover have "map (cnt k) (take n xs) = map (\<lambda>i. cnt k (xs ! i)) [0..<n]" if "n \<le> length xs" for n xs
    using that by (intro nth_equalityI) simp_all
  ultimately show ?thesis
    using assms by (simp add: CargoItemCount_def cargo_slots_def peek_def amt_def)
qed

lemma MaxStack_less: "unat (MaxStack b) < 2 ^ 16"
  using unsigned_less [of "ib_MaxStack b", where ?'a = nat] by (simp add: MaxStack_def unsigned_ucast_eq take_bit_nat_eq_self)

lemma QualityCalculator_keeps [simp]:
  "ItemTemplateID (snd (QualityCalculator env it)) = ItemTemplateID it"
  "StackCount (snd (QualityCalculator env it)) = StackCount it"
  "Quality (snd (QualityCalculator env it)) = Quality it"
  "BuilderName (snd (QualityCalculator env it)) = BuilderName it"
  by (simp_all add: QualityCalculator_def Let_def split: option.splits)

text \<open>The call as its two loops.\<close>

lemma CargoAddItem_loops:
  assumes b: "GetItem env (scast (ItemTemplateID my)) = Some b" and space: "unat (CargoSpace iv) \<le> length (CargoInv iv)"
  obtains my' iv1 stored cur tr iv2 filled cur' iv3 where
    "ItemTemplateID my' = ItemTemplateID my" "Quality my' = Quality my" "BuilderName my' = BuilderName my"
    "CargoInv iv1 = CargoInv iv" "CargoSpace iv1 = CargoSpace iv" "SecureInv iv1 = SecureInv iv"
    "(if 1 < MaxStack b then stack_loop env c my' (MaxStack b) (slots iv) (StackCount my) (TradeStack my) iv1
      else (False, StackCount my, TradeStack my, iv1)) = (stored, cur, tr, iv2)"
    "fill_loop env c my' (MaxStack b) (slots iv) cur tr iv2 = (filled, cur', iv3)"
    "CargoAddItem env c my iv = Some (if stored then (0, my', iv2) else (if filled then 0 else -3, my', iv3))"
proof -
  let ?my1 = "if f_zero (Structure my) then my\<lparr>Structure := f_one\<rparr> else my"
  let ?my' = "snd (QualityCalculator env ?my1)" and ?iv1 = "inv_emit (SendItemBase (ItemTemplateID ?my1)) iv"
  obtain stored cur tr iv2 where s: "(if 1 < MaxStack b
      then stack_loop env c ?my' (MaxStack b) (slots iv) (StackCount my) (TradeStack my) ?iv1
      else (False, StackCount my, TradeStack my, ?iv1)) = (stored, cur, tr, iv2)"
    by (metis prod_cases4)
  obtain filled cur' iv3 where f: "fill_loop env c ?my' (MaxStack b) (slots iv) cur tr iv2 = (filled, cur', iv3)"
    by (metis prod_cases3)
  have "CargoAddItem env c my iv = Some (if stored then (0, ?my', iv2) else (if filled then 0 else -3, ?my', iv3))"
    using GetItem_id(1) [OF b] b space s f unfolding CargoAddItem_def Let_def by simp
  then show thesis using that [OF _ _ _ _ _ _ s f] by simp
qed

definition cargo_ok :: "s32 \<Rightarrow> ItemBase \<Rightarrow> inventory \<Rightarrow> bool" where
  "cargo_ok k b iv \<longleftrightarrow> unat (CargoSpace iv) \<le> length (CargoInv iv) \<and>
     list_all (\<lambda>i. fits k (MaxStack b) (CargoInv iv ! i)) (slots iv)"

lemma stack_loop_stored: "stack_loop env c my m is cur tr iv = (True, cur', tr', iv') \<Longrightarrow> cur' = 0"
  by (induction "is" arbitrary: cur tr iv) (auto simp: stack_loop_Cons split: if_splits)

lemma fill_loop_filled: "fill_loop env c my m is cur tr iv = (True, cur', iv') \<Longrightarrow> cur' = 0"
  by (induction "is" arbitrary: cur tr iv) (auto split: if_splits)

lemma empties_ids:
  assumes "map ItemTemplateID (CargoInv iv') = map ItemTemplateID (CargoInv iv)" and "\<forall>i \<in> set is. i < length (CargoInv iv)"
  shows "empties is iv' = empties is iv"
proof -
  have "length (CargoInv iv') = length (CargoInv iv)" using assms(1) map_eq_imp_length_eq by blast
  then have "ItemTemplateID (CargoInv iv' ! i) = ItemTemplateID (CargoInv iv ! i)" if "i \<in> set is" for i
    using assms that by (metis nth_map)
  then show ?thesis unfolding empties_def by (intro arg_cong [where f = length] filter_cong) auto
qed

text \<open>
  Both loops together: what they conserve, and how much is left when the call returns -3. Then all
  stacks of the item and all empty slots are full.
\<close>

lemma CargoAddItem_outcome:
  assumes b: "GetItem env (scast (ItemTemplateID my)) = Some b" and ok: "cargo_ok (ItemTemplateID my) b iv"
    and n: "unat (StackCount my) + 2 ^ 16 < 2 ^ 32" and q [simp]: "missions_quiet env"
  obtains r my' iv' left where "CargoAddItem env c my iv = Some (r, my', iv')"
    "conserve (ItemTemplateID my) (MaxStack b) (slots iv) (unat (StackCount my)) iv left iv'"
    "r = 0 \<and> left = 0 \<or> r = -3 \<and> (0 < left \<or> StackCount my = 0) \<and>
       left + empties (slots iv) iv * unat (MaxStack b) +
         (if 1 < MaxStack b then stack_room my (MaxStack b) (slots iv) iv else 0) = unat (StackCount my)"
proof -
  let ?k = "ItemTemplateID my" and ?m = "MaxStack b"
  have space: "unat (CargoSpace iv) \<le> length (CargoInv iv)"
    and fit: "\<forall>i \<in> set (slots iv). i < length (CargoInv iv) \<and> fits ?k ?m (CargoInv iv ! i)"
    using ok by (auto simp: cargo_ok_def list_all_iff)
  note k = GetItem_id(2) [OF b]
  obtain my' iv1 stored cur tr iv2 filled cur' iv3 where
      my': "ItemTemplateID my' = ?k" "Quality my' = Quality my" "BuilderName my' = BuilderName my"
      and iv1: "CargoInv iv1 = CargoInv iv" "CargoSpace iv1 = CargoSpace iv" "SecureInv iv1 = SecureInv iv"
      and s: "(if 1 < ?m then stack_loop env c my' ?m (slots iv) (StackCount my) (TradeStack my) iv1
        else (False, StackCount my, TradeStack my, iv1)) = (stored, cur, tr, iv2)"
      and f: "fill_loop env c my' ?m (slots iv) cur tr iv2 = (filled, cur', iv3)"
      and add: "CargoAddItem env c my iv = Some (if stored then (0, my', iv2) else (if filled then 0 else -3, my', iv3))"
    using CargoAddItem_loops [OF b space] by metis
  have room: "unat (StackCount my) + unat ?m < 2 ^ 32" using n MaxStack_less [of b] by simp
  have c1: "conserve ?k ?m (slots iv) (unat (StackCount my)) iv1 (unat cur) iv2"
    using s stack_loop_conserve [of env c my' ?m "slots iv" "StackCount my" "TradeStack my" iv1] my' k fit iv1 room
    by (auto split: if_splits)
  have same: "conserve k' m' is n iv1 l iv' \<longleftrightarrow> conserve k' m' is n iv l iv'" for k' m' "is" n l iv'
    using iv1 by (simp add: conserve_def only_slots_def amt_def)
  have len: "length (CargoInv iv2) = length (CargoInv iv)" using c1 iv1 by (simp add: conserve_def only_slots_def)
  have c2: "conserve ?k ?m (slots iv) (unat cur) iv2 (unat cur') iv3"
    using fill_loop_conserve [OF f] my' k space len by auto
  have sr: "stack_room my' ?m (slots iv) iv1 = stack_room my ?m (slots iv) iv"
    unfolding stack_room_def stackable_def iv1 my' ..
  have "empties (slots iv) iv2 = empties (slots iv) iv"
    using s stack_loop_ids [of env c my' ?m] iv1 fit by (intro empties_ids) (auto split: if_splits)
  then have left2: "unat cur' + empties (slots iv) iv * unat ?m = unat cur \<and> (cur' = 0 \<longrightarrow> cur = 0)" if "\<not> filled"
    using fill_loop_left [of env c my' ?m "slots iv" cur tr iv2 cur' iv3] that f len space by auto
  have left1: "unat cur + (if 1 < ?m then stack_room my ?m (slots iv) iv else 0) = unat (StackCount my) \<and>
      (cur = 0 \<longrightarrow> StackCount my = 0)" if "\<not> stored"
    using s that stack_loop_left [of env c my' ?m "slots iv" "StackCount my" "TradeStack my" iv1] my'(1) fit iv1(1) room sr
    by (auto split: if_splits)
  show thesis
  proof (cases stored)
    case True
    then have "cur = 0" using s stack_loop_stored by (auto split: if_splits)
    then show thesis using that [of 0 my' iv2 0] add True c1 same by simp
  next
    case False
    have c: "conserve ?k ?m (slots iv) (unat (StackCount my)) iv (unat cur') iv3"
      using conserve_trans [OF c1 c2] same by simp
    show thesis
    proof (cases filled)
      case True
      then have "cur' = 0" using f by (auto dest: fill_loop_filled)
      then show thesis using that [of 0 my' iv3 0] add False True c by simp
    next
      case nf: False
      have "0 < unat cur' \<or> StackCount my = 0" using left1 [OF False] left2 [OF nf] by (auto simp: unat_gt_0)
      then show thesis
        using that [of "-3" my' iv3 "unat cur'"] add False nf c left1 [OF False] left2 [OF nf] by simp
    qed
  qed
qed

text \<open>
  C16: adding an item to the cargo. For a known item, in a cargo whose stacks of it are within the
  limit, \<^verbatim>\<open>CargoAddItem\<close> returns 0 or -3. The number of these items grows by the stack count, less
  what was left over, and nothing is left over when it returns 0; no other item changes its
  number, no stack exceeds the limit and the vault is not touched. (With -3 a part
  of the items has been stored. \<^verbatim>\<open>missions_quiet\<close>: saving the slots completes no stage of a mission, which
  could hand out or take items in the middle of the call.)
\<close>

theorem CargoAddItem_exact:
  assumes b: "GetItem env (scast (ItemTemplateID my)) = Some b" and ok: "cargo_ok (ItemTemplateID my) b iv"
    and n: "unat (StackCount my) + 2 ^ 16 < 2 ^ 32" and q [simp]: "missions_quiet env"
  shows "\<exists>r my' iv' left. CargoAddItem env c my iv = Some (r, my', iv') \<and>
    (r = 0 \<and> left = 0 \<or> r = -3 \<and> (0 < left \<or> StackCount my = 0)) \<and>
    amt (ItemTemplateID my) (slots iv) iv' + left = amt (ItemTemplateID my) (slots iv) iv + unat (StackCount my) \<and>
    (\<forall>k. k \<noteq> ItemTemplateID my \<and> k \<noteq> -1 \<longrightarrow> amt k (slots iv) iv' = amt k (slots iv) iv) \<and>
    cargo_ok (ItemTemplateID my) b iv' \<and> SecureInv iv' = SecureInv iv"
proof -
  obtain r my' iv' left where a: "CargoAddItem env c my iv = Some (r, my', iv')"
      "conserve (ItemTemplateID my) (MaxStack b) (slots iv) (unat (StackCount my)) iv left iv'"
      "r = 0 \<and> left = 0 \<or> r = -3 \<and> (0 < left \<or> StackCount my = 0)"
    by (rule CargoAddItem_outcome [OF assms]) blast
  then show ?thesis
    using ok by (intro exI [of _ r] exI [of _ my'] exI [of _ iv'] exI [of _ left])
      (auto simp: conserve_def only_slots_def cargo_ok_def list_all_iff)
qed

text \<open>The count of \<^verbatim>\<open>CargoAddItemCount\<close> is the room of the two loops when the builders agree.\<close>

lemma CargoAddItemCount_room:
  assumes b: "GetItem env (scast (ItemTemplateID my)) = Some b" and ok: "cargo_ok (ItemTemplateID my) b iv"
    and builder: "list_all (\<lambda>i. ItemTemplateID (CargoInv iv ! i) = ItemTemplateID my \<and>
      f_eq (Quality (CargoInv iv ! i)) (Quality my) \<longrightarrow> BuilderName (CargoInv iv ! i) = BuilderName my) (slots iv)"
    and cap: "CargoAddItemCount env (scast (ItemTemplateID my)) (Quality my) iv = Some cap"
  shows "unat cap \<le> stack_room my (MaxStack b) (slots iv) iv + empties (slots iv) iv * unat (MaxStack b)"
proof -
  let ?k = "ItemTemplateID my" and ?m = "MaxStack b"
  define g where "g it = (if scast (ItemTemplateID it) = (scast ?k :: clong) \<and> f_eq (Quality it) (Quality my)
    then ?m - StackCount it else if ItemTemplateID it = -1 then ?m else 0)" for it :: Item
  have "(\<Sum>i\<leftarrow>is. g (CargoInv iv ! i)) = of_nat (stack_room my ?m is iv + empties is iv * unat ?m)"
    if "set is \<subseteq> set (slots iv)" for "is"
    using that
  proof (induction "is")
    case (Cons i "is")
    let ?it = "CargoInv iv ! i"
    have "fits ?k ?m ?it" "ItemTemplateID ?it = ?k \<and> f_eq (Quality ?it) (Quality my) \<longrightarrow> BuilderName ?it = BuilderName my"
      using ok builder Cons.prems by (auto simp: cargo_ok_def list_all_iff)
    then have "g ?it = of_nat ((if stackable my ?it then unat ?m - unat (StackCount ?it) else 0) +
        (if ItemTemplateID ?it = -1 then unat ?m else 0))"
      using GetItem_id(2) [OF b]
      by (auto simp: g_def stackable_def fits_def scast_inj word_le_nat_alt of_nat_diff)
    then show ?case using Cons by (simp add: empties_def algebra_simps)
  qed (simp add: empties_def)
  moreover have "map g (take n xs) = map (\<lambda>i. g (xs ! i)) [0..<n]" if "n \<le> length xs" for n xs
    using that by (intro nth_equalityI) simp_all
  moreover have "unat (CargoSpace iv) \<le> length (CargoInv iv)" using ok by (simp add: cargo_ok_def)
  ultimately have "cap = of_nat (stack_room my ?m (slots iv) iv + empties (slots iv) iv * unat ?m)"
    using cap b by (simp add: CargoAddItemCount_def cargo_slots_def peek_def g_def [symmetric])
  then show ?thesis by (simp only: unat_of_nat mod_less_eq_dividend)
qed

text \<open>
  The check before adding is right when the builders agree. If \<^verbatim>\<open>CanCargoAddItem\<close> says that the
  stack fits (a stackable item, at least one of it), and every stack of the item with its
  quality has its builder name, then \<^verbatim>\<open>CargoAddItem\<close> stores all of it and returns 0.
\<close>

theorem CanCargoAddItem_sound:
  assumes b: "GetItem env (scast (ItemTemplateID my)) = Some b" and ok: "cargo_ok (ItemTemplateID my) b iv"
    and n: "unat (StackCount my) + 2 ^ 16 < 2 ^ 32" and pos: "0 < StackCount my" and m: "1 < MaxStack b"
    and can: "CanCargoAddItem env (scast (ItemTemplateID my)) (StackCount my) (Quality my) iv = Some True"
    and builder: "list_all (\<lambda>i. ItemTemplateID (CargoInv iv ! i) = ItemTemplateID my \<and>
      f_eq (Quality (CargoInv iv ! i)) (Quality my) \<longrightarrow> BuilderName (CargoInv iv ! i) = BuilderName my) (slots iv)"
    and q [simp]: "missions_quiet env"
  shows "\<exists>my' iv'. CargoAddItem env c my iv = Some (0, my', iv') \<and>
    amt (ItemTemplateID my) (slots iv) iv' = amt (ItemTemplateID my) (slots iv) iv + unat (StackCount my)"
proof -
  obtain r my' iv' left where a: "CargoAddItem env c my iv = Some (r, my', iv')"
      "conserve (ItemTemplateID my) (MaxStack b) (slots iv) (unat (StackCount my)) iv left iv'"
      "r = 0 \<and> left = 0 \<or> r = -3 \<and> (0 < left \<or> StackCount my = 0) \<and>
         left + empties (slots iv) iv * unat (MaxStack b) +
           (if 1 < MaxStack b then stack_room my (MaxStack b) (slots iv) iv else 0) = unat (StackCount my)"
    by (rule CargoAddItem_outcome [OF b ok n q])
  have "unat (StackCount my) \<le> stack_room my (MaxStack b) (slots iv) iv + empties (slots iv) iv * unat (MaxStack b)"
    using can CargoAddItemCount_room [OF b ok builder] by (auto simp: CanCargoAddItem_def word_le_nat_alt intro: order_trans)
  then have "r = 0" "left = 0" using a(3) pos m by auto
  then show ?thesis using a(1,2) by (auto simp: conserve_def)
qed

section \<open>CargoRemoveItem\<close>

lemma remove_loop_Cons:
  "remove_loop env (scast k) (i # is) n iv =
     (let it = CargoInv iv ! i; iv1 = (\<lambda>it'. save_cargo_slot env i (on_cargo i (\<lambda>_. it') iv)) in
      if ItemTemplateID it \<noteq> k then remove_loop env (scast k) is n iv
      else if StackCount it < n then remove_loop env (scast k) is (n - StackCount it) (iv1 (item_upd AuxItem_Empty it))
      else if StackCount it = n then (0, iv1 (item_upd AuxItem_Empty it))
      else (0, iv1 (it\<lparr>StackCount := StackCount it - n\<rparr>)))"
  by (auto simp: Let_def scast_inj)

declare remove_loop.simps(2) [simp del]

text \<open>What \<^verbatim>\<open>remove_loop\<close> promises: \<^verbatim>\<open>n - n'\<close> items of kind \<^verbatim>\<open>k\<close> go, and none is left if \<^verbatim>\<open>n'\<close> is not zero.\<close>

definition removed :: "s32 \<Rightarrow> nat list \<Rightarrow> nat \<Rightarrow> inventory \<Rightarrow> nat \<Rightarrow> inventory \<Rightarrow> bool" where
  "removed k is n iv n' iv' \<longleftrightarrow> only_slots is iv iv' \<and> amt k is iv' + n = amt k is iv + n' \<and>
     (n' = 0 \<or> amt k is iv' = 0) \<and> (\<forall>j. j \<noteq> k \<longrightarrow> amt j is iv' = amt j is iv)"

lemma removed_place:
  assumes r: "removed k is n iv1 n' iv'" and i: "i \<notin> set is" "i < length (CargoInv iv)"
    and iv1: "iv1 = save_cargo_slot env i (on_cargo i (\<lambda>_. it) iv)"
    and it: "cnt k it + m = cnt k (CargoInv iv ! i)" "cnt k it = 0 \<or> n' = 0" "\<And>j. j \<noteq> k \<Longrightarrow> cnt j it = cnt j (CargoInv iv ! i)"
    and q [simp]: "missions_quiet env"
  shows "removed k (i # is) (n + m) iv n' iv'"
proof -
  have o: "only_slots (i # is) iv iv'" using r iv1 by (auto simp: removed_def intro: only_slots_step)
  have at: "CargoInv iv' ! i = it" using r i iv1 by (auto simp: removed_def only_slots_def)
  have rest: "amt j is iv1 = amt j is iv" for j unfolding iv1 using amt_other_slots(2) [OF i(1) q] by blast
  show ?thesis using r o at rest it by (auto simp: removed_def)
qed

lemma removed_here:
  assumes i: "i \<notin> set is" "i < length (CargoInv iv)" and it: "cnt k it + n = cnt k (CargoInv iv ! i)"
    "\<And>j. j \<noteq> k \<Longrightarrow> cnt j it = cnt j (CargoInv iv ! i)"
    and q [simp]: "missions_quiet env"
  shows "removed k (i # is) n iv 0 (save_cargo_slot env i (on_cargo i (\<lambda>_. it) iv))"
proof -
  have "removed k is 0 (save_cargo_slot env i (on_cargo i (\<lambda>_. it) iv)) 0 (save_cargo_slot env i (on_cargo i (\<lambda>_. it) iv))"
    by (simp add: removed_def)
  from removed_place [OF this i refl it(1) _ it(2) q] show ?thesis by simp
qed

lemma remove_loop_spec:
  assumes "remove_loop env (scast k) is n iv = (n', iv')" and "distinct is" and "k \<noteq> -1" and "n \<noteq> 0"
    and "\<forall>i \<in> set is. i < length (CargoInv iv)" and q [simp]: "missions_quiet env"
  shows "removed k is (unat n) iv (unat n') iv'"
  using assms
proof (induction "is" arbitrary: n iv)
  case Nil
  then show ?case by (simp add: removed_def)
next
  case (Cons i "is")
  let ?it = "CargoInv iv ! i"
  have i: "i \<notin> set is" "i < length (CargoInv iv)" using Cons.prems by auto
  consider "ItemTemplateID ?it \<noteq> k" | "ItemTemplateID ?it = k" "StackCount ?it < n"
    | "ItemTemplateID ?it = k" "StackCount ?it = n" | "ItemTemplateID ?it = k" "n < StackCount ?it" by fastforce
  then show ?case
  proof cases
    case 1
    then have "removed k is (unat n) iv (unat n') iv'" using Cons by (simp add: remove_loop_Cons)
    then show ?thesis using i 1 by (auto simp: removed_def only_slots_step(3) cnt_def) (auto simp: only_slots_def)
  next
    case 2
    let ?iv = "save_cargo_slot env i (on_cargo i (\<lambda>_. item_upd AuxItem_Empty ?it) iv)"
    have "removed k is (unat (n - StackCount ?it)) ?iv (unat n') iv'"
      using Cons.IH [of "n - StackCount ?it" ?iv] Cons.prems 2 by (simp add: remove_loop_Cons Let_def)
    then have "removed k (i # is) (unat (n - StackCount ?it) + unat (StackCount ?it)) iv (unat n') iv'"
      by (rule removed_place [OF _ i refl, where env = env]) (use 2 Cons.prems(3) in \<open>auto simp: cnt_def\<close>)
    moreover have "unat (n - StackCount ?it) + unat (StackCount ?it) = unat n"
      using 2(2) by (simp add: unat_sub word_le_nat_alt word_less_nat_alt)
    ultimately show ?thesis by simp
  next
    case 3
    then show ?thesis
      using Cons.prems(1) removed_here [OF i, of k "item_upd AuxItem_Empty ?it" "unat n" env] Cons.prems(3)
      by (auto simp: remove_loop_Cons Let_def cnt_def)
  next
    case 4
    then have no: "\<not> StackCount ?it < n" "StackCount ?it \<noteq> n" by auto
    have "unat (StackCount ?it - n) + unat n = unat (StackCount ?it)"
      using 4 by (simp add: unat_sub word_le_nat_alt word_less_nat_alt)
    then show ?thesis
      using Cons.prems(1) 4(1) no removed_here [OF i, of k "?it\<lparr>StackCount := StackCount ?it - n\<rparr>" "unat n" env]
      by (auto simp: remove_loop_Cons Let_def cnt_def)
  qed
qed

text \<open>
  Removing items from the cargo. \<^verbatim>\<open>CargoRemoveItem\<close> takes away exactly the number asked for, or all
  there are if there are fewer, whichever stacks hold them; no other item changes its number
  and the vault is not touched.
\<close>

theorem CargoRemoveItem_exact:
  assumes k: "0 \<le>s k" and n: "n \<noteq> 0" and space: "unat (CargoSpace iv) \<le> length (CargoInv iv)"
    and q [simp]: "missions_quiet env"
  shows "\<exists>iv'. CargoRemoveItem env (scast k) n iv = Some iv' \<and>
    amt k (slots iv) iv' = amt k (slots iv) iv - unat n \<and>
    (\<forall>j. j \<noteq> k \<longrightarrow> amt j (slots iv) iv' = amt j (slots iv) iv) \<and> SecureInv iv' = SecureInv iv"
proof -
  obtain n' iv' where r: "remove_loop env (scast k) (slots iv) n iv = (n', iv')" by fastforce
  have "k \<noteq> -1" using k by (auto simp: word_sle_eq)
  then have rem: "removed k (slots iv) (unat n) iv (unat n') iv'"
    using remove_loop_spec [OF r] n space by auto
  then have am: "amt k (slots iv) iv' = amt k (slots iv) iv - unat n" by (auto simp: removed_def)
  have "CargoRemoveItem env (scast k) n iv = Some iv'"
    using k n space r by (simp add: CargoRemoveItem_def word_sless_alt word_sle_eq sint_scast_id)
  then show ?thesis using rem am by (auto simp: removed_def only_slots_def)
qed

section \<open>Moving items\<close>

definition total :: "s32 \<Rightarrow> Item list \<Rightarrow> nat" where
  "total k xs = (\<Sum>it\<leftarrow>xs. cnt k it)"

definition owned :: "s32 \<Rightarrow> inventory \<Rightarrow> nat" where
  "owned k iv = total k (CargoInv iv) + total k (SecureInv iv)"

lemma total_update: "i < length xs \<Longrightarrow> total k (xs[i := x]) + cnt k (xs ! i) = total k xs + cnt k x"
proof (induction xs arbitrary: i)
  case (Cons a xs)
  then show ?case by (cases i) (simp_all add: total_def)
qed simp

lemma total_update2:
  assumes "i < length xs" and "j < length xs" and "i \<noteq> j" and "cnt k x + cnt k y = cnt k (xs ! i) + cnt k (xs ! j)"
  shows "total k (xs[i := x, j := y]) = total k xs"
  using total_update [OF assms(1), of k x] total_update [of j "xs[i := x]" k y] assms by simp

lemma cnt_set_slot [simp]: "cnt k (set_slot new old) = cnt k new"
  by (simp add: cnt_def set_slot_def)

lemma cnt_simps [simp]: "cnt k EmptyItem = 0" "cnt (ItemTemplateID it) it = unat (StackCount it)"
  by (simp_all add: cnt_def EmptyItem_def)

lemma owned_emit [simp]: "owned k (inv_emit e iv) = owned k iv"
  by (simp add: owned_def)

lemma cnt_swap_stacks:
  "ItemTemplateID dst = ItemTemplateID src \<Longrightarrow> k \<noteq> -1 \<Longrightarrow>
   cnt k (fst (swap_stacks (src, dst))) + cnt k (snd (swap_stacks (src, dst))) = cnt k src + cnt k dst"
  by (simp add: swap_stacks_def cnt_def EmptyItem_def Let_def)

lemma cnt_move_stack:
  assumes "n \<le> StackCount src" and "unat (StackCount dst) + unat n < 2 ^ 32" and "ItemTemplateID dst = ItemTemplateID src"
  shows "cnt k (fst (move_stack n (src, dst))) + cnt k (snd (move_stack n (src, dst))) = cnt k src + cnt k dst"
proof -
  have "unat (StackCount dst + n) = unat (StackCount dst) + unat n"
    using assms(2) by (intro unat_add_lem [THEN iffD1]) simp
  moreover have "unat (StackCount src - n) + unat n = unat (StackCount src)"
    using assms(1) by (simp add: unat_sub word_le_nat_alt)
  ultimately show ?thesis using assms(3) unfolding move_stack_def cnt_def prod.case by simp
qed

lemma CheckStack_cases:
  obtains (same) b where "ItemTemplateID src = ItemTemplateID dst" "GetItem env (scast (ItemTemplateID src)) = Some b"
      "CheckStack env n (src, dst) = (if MaxStack b < StackCount dst + n
         then swap_stacks (move_stack (MaxStack b - StackCount dst) (src, dst)) else swap_stacks (move_stack n (src, dst)))"
    | (part) "ItemTemplateID dst = -1" "CheckStack env n (src, dst) = swap_stacks (move_stack n (src, src\<lparr>StackCount := 0\<rparr>))"
    | (none) "CheckStack env n (src, dst) = (src, dst)"
proof (cases "ItemTemplateID src = ItemTemplateID dst \<and> f_eq (Quality src) (Quality dst) \<and> BuilderName src = BuilderName dst")
  case True
  then show thesis
    using same none by (cases "GetItem env (scast (ItemTemplateID src))") (simp_all add: CheckStack_def)
next
  case False
  then have "CheckStack env n (src, dst) = (if ItemTemplateID dst = -1 \<and> n < StackCount src
      then swap_stacks (move_stack n (src, src\<lparr>StackCount := 0\<rparr>)) else (src, dst))"
    unfolding CheckStack_def Let_def prod.case by (rule if_not_P)
  then show thesis using part none by (cases "ItemTemplateID dst = -1 \<and> n < StackCount src") auto
qed

lemma CheckStack_conserves:
  assumes n: "n \<le> StackCount src" "unat n + 2 ^ 16 < 2 ^ 32"
    and fit: "\<And>b. GetItem env (scast (ItemTemplateID src)) = Some b \<Longrightarrow> fits (ItemTemplateID src) (MaxStack b) dst"
    and k: "k \<noteq> -1" and r: "CheckStack env n (src, dst) = (s, d)"
  shows "cnt k s + cnt k d = cnt k src + cnt k dst"
proof -
  have moved: "cnt k s + cnt k d = cnt k src + cnt k d0"
    if "swap_stacks (move_stack m (src, d0)) = (s, d)" "m \<le> n" "unat (StackCount d0) + unat m < 2 ^ 32"
      "ItemTemplateID d0 = ItemTemplateID src" for m d0
  proof -
    have "ItemTemplateID (snd (move_stack m (src, d0))) = ItemTemplateID (fst (move_stack m (src, d0)))"
      using that(4) by (simp add: move_stack_def)
    from cnt_swap_stacks [OF this k] show ?thesis
      using cnt_move_stack [of m src d0 k] that n(1) by simp
  qed
  show ?thesis
  proof (cases rule: CheckStack_cases [of src dst env n])
    case (same b)
    have le: "StackCount dst \<le> MaxStack b" using fit [OF same(2)] same(1) by (simp add: fits_def)
    have small: "unat n + unat (MaxStack b) < 2 ^ 32" using n(2) MaxStack_less [of b] by simp
    note ar = stack_arith [OF le small]
    show ?thesis
    proof (cases "MaxStack b < StackCount dst + n")
      case True
      have "unat (MaxStack b - StackCount dst) = unat (MaxStack b) - unat (StackCount dst)" using le by (rule unat_sub)
      then show ?thesis
        using moved [of "MaxStack b - StackCount dst" dst] True same r ar(2) [OF True] le small
        by (auto simp: word_le_nat_alt)
    next
      case False
      then show ?thesis using moved [of n dst] same r ar small by auto
    qed
  next
    case part
    then show ?thesis using moved [of n "src\<lparr>StackCount := 0\<rparr>"] r k n(2) by (auto simp: cnt_def)
  next
    case none
    then show ?thesis using r by simp
  qed
qed

text \<open>The four moves between slots of cargo and vault, when the client asks for no more than there is.\<close>

definition may_move :: "item_env \<Rightarrow> s32 \<Rightarrow> Item \<Rightarrow> Item \<Rightarrow> bool" where
  "may_move env n src dst \<longleftrightarrow> n \<le> StackCount src \<and> unat n + 2 ^ 16 < 2 ^ 32 \<and>
     (case GetItem env (scast (ItemTemplateID src)) of None \<Rightarrow> True | Some b \<Rightarrow> fits (ItemTemplateID src) (MaxStack b) dst)"

lemma may_move_conserves:
  "may_move env n src dst \<Longrightarrow> k \<noteq> -1 \<Longrightarrow> CheckStack env n (src, dst) = (s, d) \<Longrightarrow> cnt k s + cnt k d = cnt k src + cnt k dst"
  by (rule CheckStack_conserves) (auto simp: may_move_def)

lemma owned_moves:
  assumes "cnt k s + cnt k d = cnt k src + cnt k dst"
  shows "f < length (CargoInv iv) \<Longrightarrow> t < length (CargoInv iv) \<Longrightarrow> f \<noteq> t \<Longrightarrow>
      CargoInv iv ! f = src \<Longrightarrow> CargoInv iv ! t = dst \<Longrightarrow>
      owned k (on_cargo f (set_slot d) (on_cargo t (set_slot s) iv)) = owned k iv"
    and "f < length (SecureInv iv) \<Longrightarrow> t < length (SecureInv iv) \<Longrightarrow> f \<noteq> t \<Longrightarrow>
      SecureInv iv ! f = src \<Longrightarrow> SecureInv iv ! t = dst \<Longrightarrow>
      owned k (on_vault f (set_slot d) (on_vault t (set_slot s) iv)) = owned k iv"
    and "f < length (CargoInv iv) \<Longrightarrow> t < length (SecureInv iv) \<Longrightarrow> CargoInv iv ! f = src \<Longrightarrow> SecureInv iv ! t = dst \<Longrightarrow>
      owned k (on_cargo f (set_slot d) (on_vault t (set_slot s) iv)) = owned k iv"
    and "f < length (SecureInv iv) \<Longrightarrow> t < length (CargoInv iv) \<Longrightarrow> SecureInv iv ! f = src \<Longrightarrow> CargoInv iv ! t = dst \<Longrightarrow>
      owned k (on_vault f (set_slot d) (on_cargo t (set_slot s) iv)) = owned k iv"
proof -
  show "owned k (on_cargo f (set_slot d) (on_cargo t (set_slot s) iv)) = owned k iv"
    if "f < length (CargoInv iv)" "t < length (CargoInv iv)" "f \<noteq> t" "CargoInv iv ! f = src" "CargoInv iv ! t = dst"
    using that assms total_update2 [of t "CargoInv iv" f k "set_slot s dst" "set_slot d src"]
    by (simp add: owned_def add.commute)
  show "owned k (on_vault f (set_slot d) (on_vault t (set_slot s) iv)) = owned k iv"
    if "f < length (SecureInv iv)" "t < length (SecureInv iv)" "f \<noteq> t" "SecureInv iv ! f = src" "SecureInv iv ! t = dst"
    using that assms total_update2 [of t "SecureInv iv" f k "set_slot s dst" "set_slot d src"]
    by (simp add: owned_def add.commute)
  show "owned k (on_cargo f (set_slot d) (on_vault t (set_slot s) iv)) = owned k iv"
    if "f < length (CargoInv iv)" "t < length (SecureInv iv)" "CargoInv iv ! f = src" "SecureInv iv ! t = dst"
    using that assms total_update [of f "CargoInv iv" k "set_slot d src"]
      total_update [of t "SecureInv iv" k "set_slot s dst"] by (simp add: owned_def)
  show "owned k (on_vault f (set_slot d) (on_cargo t (set_slot s) iv)) = owned k iv"
    if "f < length (SecureInv iv)" "t < length (CargoInv iv)" "SecureInv iv ! f = src" "CargoInv iv ! t = dst"
    using that assms total_update [of f "SecureInv iv" k "set_slot d src"]
      total_update [of t "CargoInv iv" k "set_slot s dst"] by (simp add: owned_def)
qed

definition slot_item :: "s32 \<Rightarrow> s32 \<Rightarrow> inventory \<Rightarrow> Item" where
  "slot_item which i iv = (if which = 1 then CargoInv iv ! unat i else SecureInv iv ! unat i)"

lemma in_slots_unat:
  assumes "in_slots i n"
  shows "unat i < n"
proof -
  have "uint i = sint i"
    using assms sint_less [of i] uint_sint [of i] by (simp add: in_slots_def take_bit_int_eq_self)
  then show ?thesis using assms by (simp add: in_slots_def unat_eq_nat_uint nat_less_iff)
qed

text \<open>The arrays as the server allocates them.\<close>

definition inv_arrays :: "inventory \<Rightarrow> bool" where
  "inv_arrays iv \<longleftrightarrow> length (CargoInv iv) = 40 \<and> length (SecureInv iv) = 96 \<and> unat (CargoSpace iv) \<le> 40"

lemma HandleInventoryMove_rejected:
  "\<not> move_accepted (InvMove_ntohl data) \<Longrightarrow> HandleInventoryMove env other False False data iv = Some iv"
  by (simp add: HandleInventoryMove_def Let_def)

lemma accepted_from: "move_accepted m \<Longrightarrow> FromInv m = 1 \<Longrightarrow> unat (FromSlot m) < 40"
  "move_accepted m \<Longrightarrow> FromInv m = 3 \<Longrightarrow> unat (FromSlot m) < 96"
  by (auto simp: move_accepted_def InventorySlotCount_def Let_def dest: in_slots_unat)

lemma accepted_to:
  assumes "move_accepted m" and "FromInv m = 1 \<or> FromInv m = 3" and "ToSlot m \<noteq> -1 \<or> FromInv m = ToInv m"
  shows "ToInv m = 1 \<Longrightarrow> unat (ToSlot m) < 40" "ToInv m = 3 \<Longrightarrow> unat (ToSlot m) < 96"
  using assms by (auto simp: move_accepted_def InventorySlotCount_def Let_def dest: in_slots_unat)

text \<open>
  What the missions do to one kind of item: whatever stages are completed by saving slots, they neither
  hand out nor take items of kind \<^verbatim>\<open>k\<close>, and they change the cargo only.
\<close>

definition missions_keep :: "item_env \<Rightarrow> s32 \<Rightarrow> bool" where
  "missions_keep env k \<longleftrightarrow> (\<forall>i iv. total k (CargoInv (check_missions env i iv)) = total k (CargoInv iv) \<and>
     SecureInv (check_missions env i iv) = SecureInv iv \<and> TradeInv (check_missions env i iv) = TradeInv iv)"

lemma missions_quiet_keep: "missions_quiet env \<Longrightarrow> missions_keep env k"
  by (simp add: missions_quiet_def missions_keep_def)

lemma owned_saves [simp]:
  assumes "missions_keep env k"
  shows "owned k (save_cargo_slot env i iv) = owned k iv" and "owned k (save_move env rs iv) = owned k iv"
proof -
  have c: "owned k (check_missions env i iv) = owned k iv" for i iv
    using assms by (simp add: missions_keep_def owned_def)
  show "owned k (save_cargo_slot env i iv) = owned k iv" by (simp add: save_cargo_slot_def c)
  have "owned k (fold (pack_slot env) rs iv) = owned k iv" for iv
    by (induction rs arbitrary: iv) (simp_all add: pack_slot_def c)
  then show "owned k (save_move env rs iv) = owned k iv" by (simp add: save_move_def)
qed

text \<open>
  C14: moves keep what a player owns. A request to move between two different slots of cargo and
  vault that the client names, for no more items than the source slot has, stacks, splits or swaps, and
  changes the number of no kind of item in cargo and vault together, but of kinds that a
  stage of a mission, completed by saving the slots, hands out or takes. (Not for a move to the slot it
  comes from, nor for one where the server chooses the slot: there items can be lost.)
\<close>

theorem move_conserves:
  assumes arrays: "inv_arrays iv" and m: "m = InvMove_ntohl data"
    and codes: "FromInv m = 1 \<or> FromInv m = 3" "ToInv m = 1 \<or> ToInv m = 3" "ToSlot m \<noteq> -1"
    and different: "FromInv m \<noteq> ToInv m \<or> unat (FromSlot m) \<noteq> unat (ToSlot m)"
    and may: "may_move env (Num m) (slot_item (FromInv m) (FromSlot m) iv) (slot_item (ToInv m) (ToSlot m) iv)"
  shows "\<exists>iv'. HandleInventoryMove env other False False data iv = Some iv' \<and> (\<forall>k. k \<noteq> -1 \<and> missions_keep env k \<longrightarrow> owned k iv' = owned k iv)"
proof (cases "move_accepted m")
  case False
  then show ?thesis using m HandleInventoryMove_rejected by auto
next
  case True
  let ?f = "unat (FromSlot m)" and ?t = "unat (ToSlot m)"
  let ?src = "slot_item (FromInv m) (FromSlot m) iv" and ?dst = "slot_item (ToInv m) (ToSlot m) iv"
  note range = accepted_from [OF True] accepted_to [OF True codes(1)] codes(3) arrays [unfolded inv_arrays_def]
  obtain s d where c: "CheckStack env (Num m) (?src, ?dst) = (s, d)" by fastforce
  note keep = owned_moves [OF may_move_conserves [OF may _ c]]
  consider (cc) "FromInv m = 1" "ToInv m = 1" | (cv) "FromInv m = 1" "ToInv m = 3"
    | (vc) "FromInv m = 3" "ToInv m = 1" | (vv) "FromInv m = 3" "ToInv m = 3" using codes by blast
  then show ?thesis
  proof cases
    case cc
    then have "HandleInventoryMove env other False False data iv = cargo_to_cargo env m iv"
      using m True by (simp add: HandleInventoryMove_def Let_def)
    then show ?thesis using cc range c different keep(1) by (auto simp: cargo_to_cargo_def Let_def slot_item_def)
  next
    case cv
    then have "HandleInventoryMove env other False False data iv = cargo_to_vault env m iv"
      using m True by (simp add: HandleInventoryMove_def Let_def)
    then show ?thesis using cv range c keep(3) by (auto simp: cargo_to_vault_def Let_def slot_item_def)
  next
    case vc
    then have "HandleInventoryMove env other False False data iv = vault_to_cargo env m iv"
      using m True by (simp add: HandleInventoryMove_def Let_def)
    then show ?thesis using vc range c keep(4) by (auto simp: vault_to_cargo_def Let_def slot_item_def)
  next
    case vv
    then have "HandleInventoryMove env other False False data iv = vault_to_vault env m iv"
      using m True by (simp add: HandleInventoryMove_def Let_def)
    then show ?thesis using vv range c different keep(2) by (auto simp: vault_to_vault_def Let_def slot_item_def)
  qed
qed

lemma CargoAddItem_total: "unat (CargoSpace iv) \<le> length (CargoInv iv) \<Longrightarrow> \<exists>r my' iv'. CargoAddItem env c my iv = Some (r, my', iv')"
  by (auto simp: CargoAddItem_def Let_def split: option.splits prod.splits)

lemma CargoAddItemCount_total: "unat (CargoSpace iv) \<le> length (CargoInv iv) \<Longrightarrow> \<exists>n. CargoAddItemCount env k q iv = Some n"
  by (auto simp: CargoAddItemCount_def cargo_slots_def peek_def split: option.splits)

lemma FindFreeVaultSpace_less: "FindFreeVaultSpace env k n iv = Some i \<Longrightarrow> i < length (SecureInv iv)"
  by (auto simp: FindFreeVaultSpace_def split: option.splits dest: first_index_Some)

lemma vault_to_any_cargo_total:
  assumes "unat (FromSlot m) < length (SecureInv iv)" and "unat (CargoSpace iv) \<le> length (CargoInv iv)"
  shows "vault_to_any_cargo env m iv \<noteq> None"
proof -
  let ?src = "SecureInv iv ! unat (FromSlot m)"
  obtain n where n: "CargoAddItemCount env (scast (ItemTemplateID ?src)) (Quality ?src) iv = Some n"
    using CargoAddItemCount_total [OF assms(2)] by blast
  obtain r my' iv' where "CargoAddItem env True ?src iv = Some (r, my', iv')"
    using CargoAddItem_total [OF assms(2)] by blast
  with n show ?thesis using assms(1) by (simp add: vault_to_any_cargo_def Let_def)
qed

text \<open>
  C31: the slot numbers of the client are harmless. Whatever numbers a request holds, no branch for cargo
  and vault reads or writes outside the arrays: with the arrays of the server the handler
  returns whenever the other branches do.
\<close>

theorem HandleInventoryMove_in_bounds:
  assumes "inv_arrays iv" and "\<And>m. move_accepted m \<Longrightarrow> other m iv \<noteq> None"
  shows "HandleInventoryMove env other gating incapacitated data iv \<noteq> None"
proof -
  define m where "m = InvMove_ntohl data"
  note ar = assms(1) [unfolded inv_arrays_def]
  show ?thesis
  proof (cases "move_accepted m")
    case True
    note range = accepted_from [OF True] accepted_to [OF True]
    have "cargo_to_cargo env m iv \<noteq> None" if "FromInv m = 1" "ToInv m = 1"
      using that range ar by (auto simp: cargo_to_cargo_def Let_def split: prod.splits)
    moreover have "cargo_to_vault env m iv \<noteq> None" if "FromInv m = 1" "ToInv m = 3"
      using that range ar
      by (auto simp: cargo_to_vault_def Let_def split: prod.splits option.splits dest: FindFreeVaultSpace_less)
    moreover have "space_cargo env m iv \<noteq> None" if "FromInv m = 1"
      using that range ar by (simp add: space_cargo_def Let_def)
    moreover have "destroy_vault env m iv \<noteq> None" if "FromInv m = 3"
      using that range ar by (simp add: destroy_vault_def Let_def)
    moreover have "vault_to_any_cargo env m iv \<noteq> None" if "FromInv m = 3"
      using that range ar by (intro vault_to_any_cargo_total) auto
    moreover have "vault_to_cargo env m iv \<noteq> None" if "FromInv m = 3" "ToInv m = 1" "ToSlot m \<noteq> -1"
      using that range ar by (auto simp: vault_to_cargo_def Let_def split: prod.splits)
    moreover have "vault_to_vault env m iv \<noteq> None" if "FromInv m = 3" "ToInv m = 3"
      using that range ar by (auto simp: vault_to_vault_def Let_def split: prod.splits)
    ultimately show ?thesis
      using assms(2) [OF True] unfolding HandleInventoryMove_def Let_def m_def [symmetric]
      by (auto simp: vault_to_cargo_def)
  qed (simp add: HandleInventoryMove_def Let_def m_def)
qed

text \<open>
  C39: the number of the client is trusted. A request to stack more items than the source slot has
  (the sum still within the stack limit) is carried out: the destination slot gains that number, the
  unsigned stack count of the source slot wraps round, and the player owns \<^verbatim>\<open>2^32\<close> items more when the
  two slots are saved; when no stage of a mission is completed by that, it stays so.
\<close>

theorem client_number_duplicates:
  assumes arrays: "inv_arrays iv" and m: "m = InvMove_ntohl data" "FromInv m = 1" "ToInv m = 1"
    and slots: "in_slots (FromSlot m) 40" "in_slots (ToSlot m) 40" "unat (FromSlot m) \<noteq> unat (ToSlot m)"
    and items: "src = CargoInv iv ! unat (FromSlot m)" "dst = CargoInv iv ! unat (ToSlot m)"
      "ItemTemplateID src = ItemTemplateID dst" "f_eq (Quality src) (Quality dst)" "BuilderName src = BuilderName dst"
    and b: "GetItem env (scast (ItemTemplateID src)) = Some b"
    and n: "StackCount src < Num m" "unat (StackCount dst) + unat (Num m) \<le> unat (MaxStack b)"
  shows "\<exists>mid iv'. HandleInventoryMove env other False False data iv = Some iv' \<and>
    iv' = save_cargo_slot env (unat (ToSlot m)) (save_cargo_slot env (unat (FromSlot m)) mid) \<and>
    unat (StackCount (CargoInv mid ! unat (ToSlot m))) = unat (StackCount dst) + unat (Num m) \<and>
    unat (StackCount (CargoInv mid ! unat (FromSlot m))) = 2 ^ 32 + unat (StackCount src) - unat (Num m) \<and>
    owned (ItemTemplateID src) mid = owned (ItemTemplateID src) iv + 2 ^ 32 \<and>
    (missions_quiet env \<longrightarrow> CargoInv iv' = CargoInv mid \<and> SecureInv iv' = SecureInv mid)"
proof -
  let ?f = "unat (FromSlot m)" and ?t = "unat (ToSlot m)" and ?k = "ItemTemplateID src"
  have ft: "?f < 40" "?t < 40" using slots in_slots_unat by auto
  have "unat (StackCount dst + Num m) = unat (StackCount dst) + unat (Num m)"
    using n(2) MaxStack_less [of b] by (intro unat_add_lem [THEN iffD1]) simp
  moreover have "\<not> MaxStack b < StackCount dst + Num m" using n(2) calculation by (simp add: word_less_nat_alt)
  moreover have wrapped: "unat (StackCount src - Num m) = 2 ^ 32 + unat (StackCount src) - unat (Num m)"
    using n(1) by (simp add: unat_sub_if' word_less_nat_alt)
  moreover have "StackCount src - Num m \<noteq> 0" using n(1) by auto
  ultimately obtain s d where c: "CheckStack env (Num m) (src, dst) = (s, d)"
      "ItemTemplateID s = ?k" "ItemTemplateID d = ?k" "StackCount d = StackCount src - Num m"
      "unat (StackCount s) = unat (StackCount dst) + unat (Num m)"
    using items(3-5) b by (simp add: CheckStack_def swap_stacks_def move_stack_def)
  let ?iv = "on_cargo ?f (set_slot d) (on_cargo ?t (set_slot s) iv)"
  have h: "HandleInventoryMove env other False False data iv =
      Some (save_cargo_slot env ?t (save_cargo_slot env ?f (inv_emit (SendAux True) ?iv)))"
    using m slots ft arrays c(1) items(1,2)
    by (simp add: HandleInventoryMove_def move_accepted_def InventorySlotCount_def cargo_to_cargo_def inv_arrays_def Let_def)
  have at: "StackCount (CargoInv ?iv ! ?t) = StackCount s" "StackCount (CargoInv ?iv ! ?f) = StackCount d"
    using ft slots(3) arrays by (simp_all add: inv_arrays_def set_slot_def)
  have counts: "cnt ?k s = unat (StackCount dst) + unat (Num m)" "cnt ?k dst = unat (StackCount dst)"
      "cnt ?k d = 2 ^ 32 + unat (StackCount src) - unat (Num m)" "cnt ?k src = unat (StackCount src)"
    using c wrapped items(3) by (simp_all add: cnt_def)
  have "total ?k ((CargoInv iv)[?t := set_slot s dst]) = total ?k (CargoInv iv) + unat (Num m)"
    using total_update [of ?t "CargoInv iv" ?k "set_slot s dst"] ft(2) arrays items(2) counts by (simp add: inv_arrays_def)
  moreover have "total ?k (CargoInv ?iv) + unat (StackCount src) =
      total ?k ((CargoInv iv)[?t := set_slot s dst]) + (2 ^ 32 + unat (StackCount src) - unat (Num m))"
    using total_update [of ?f "(CargoInv iv)[?t := set_slot s dst]" ?k "set_slot d src"] ft arrays items(1,2) slots(3) counts
    by (simp add: inv_arrays_def)
  moreover have "unat (Num m) < 2 ^ 32" using unsigned_less [of "Num m", where ?'a = nat] by simp
  ultimately have "total ?k (CargoInv ?iv) = total ?k (CargoInv iv) + 2 ^ 32" by linarith
  then have "owned ?k ?iv = owned ?k iv + 2 ^ 32" by (simp add: owned_def)
  then show ?thesis
    using h at c(4,5) wrapped
    by (intro exI [where x = "inv_emit (SendAux True) ?iv"]
        exI [where x = "save_cargo_slot env ?t (save_cargo_slot env ?f (inv_emit (SendAux True) ?iv))"]) simp
qed

lemma total_slots:
  assumes "unat (CargoSpace iv) \<le> length (CargoInv iv)" and "only_slots (slots iv) iv iv'"
  shows "total k (CargoInv iv') + amt k (slots iv) iv = total k (CargoInv iv) + amt k (slots iv) iv'"
proof -
  define n where "n = unat (CargoSpace iv)"
  have split: "total k xs = (\<Sum>i\<leftarrow>[0..<n]. cnt k (xs ! i)) + total k (drop n xs)" if "n \<le> length xs" for xs
  proof -
    have "total k xs = total k (take n xs) + total k (drop n xs)"
      unfolding total_def by (metis append_take_drop_id map_append sum_list_append)
    moreover have "map (cnt k) (take n xs) = map (\<lambda>i. cnt k (xs ! i)) [0..<n]"
      using that by (intro nth_equalityI) simp_all
    ultimately show ?thesis by (simp add: total_def)
  qed
  have "drop n (CargoInv iv') = drop n (CargoInv iv)"
    using assms(2) by (intro nth_equalityI) (auto simp: only_slots_def n_def)
  then show ?thesis
    using split [of "CargoInv iv"] split [of "CargoInv iv'"] assms by (simp add: amt_def n_def only_slots_def)
qed

text \<open>
  The vault slot is emptied even when the cargo did not take the items. The check before the
  move (\<^verbatim>\<open>CargoAddItemCount\<close>) ignores the builder name that stacking compares; when it lets a move pass
  and \<^verbatim>\<open>CargoAddItem\<close> then returns -3, its result is ignored and the items left over are lost.
\<close>

theorem vault_move_loses:
  assumes arrays: "inv_arrays iv" and m: "m = InvMove_ntohl data" "FromInv m = 3" "ToInv m = 1" "ToSlot m = -1"
    and slot: "in_slots (FromSlot m) 96" "src = SecureInv iv ! unat (FromSlot m)"
    and b: "GetItem env (scast (ItemTemplateID src)) = Some b" and ok: "cargo_ok (ItemTemplateID src) b iv"
    and n: "0 < StackCount src" "unat (StackCount src) + 2 ^ 16 < 2 ^ 32"
    and check: "CanCargoAddItem env (scast (ItemTemplateID src)) (StackCount src) (Quality src) iv = Some True"
    and fail: "CargoAddItem env True src iv = Some (-3, my', iv1)" and q [simp]: "missions_quiet env"
  shows "\<exists>iv' left. HandleInventoryMove env other False False data iv = Some iv' \<and> 0 < left \<and>
    owned (ItemTemplateID src) iv' + left = owned (ItemTemplateID src) iv \<and>
    ItemTemplateID (SecureInv iv' ! unat (FromSlot m)) = -1"
proof -
  let ?f = "unat (FromSlot m)" and ?k = "ItemTemplateID src"
  have f: "?f < length (SecureInv iv)" using slot(1) arrays in_slots_unat by (simp add: inv_arrays_def)
  obtain left where c: "conserve ?k (MaxStack b) (slots iv) (unat (StackCount src)) iv left iv1" "0 < left"
    using CargoAddItem_outcome [OF b ok n(2) q, of True] fail n(1) by (metis (no_types, lifting) Pair_inject less_irrefl
        option.inject zero_neq_neg_numeral)
  obtain cap where cap: "CargoAddItemCount env (scast ?k) (Quality src) iv = Some cap" "StackCount src \<le> cap"
    using check by (auto simp: CanCargoAddItem_def)
  define iv2 where "iv2 = inv_emit (SendAux False) (inv_emit (SendAux True) (on_vault ?f (set_slot EmptyItem) iv1))"
  have "vault_to_any_cargo env m iv = Some (if length (touched_since iv iv1) + 1 \<le> SAVE_MOVE_MAX_RECORDS
      then save_move env ((True, ?f) # map (Pair False) (touched_since iv iv1)) iv2
      else fold (save_cargo_slot env) (touched_since iv iv1) (inv_emit (SaveVaultChange ?f) iv2))"
    using f cap fail slot(2) by (simp add: vault_to_any_cargo_def Let_def iv2_def)
  moreover have "HandleInventoryMove env other False False data iv = vault_to_any_cargo env m iv"
    using m slot(1) by (simp add: HandleInventoryMove_def move_accepted_def InventorySlotCount_def vault_to_cargo_def Let_def)
  moreover have "CargoInv (fold (save_cargo_slot env) is v) = CargoInv v \<and>
      SecureInv (fold (save_cargo_slot env) is v) = SecureInv v" for "is" v
    by (induction "is" arbitrary: v) simp_all
  ultimately obtain iv' where h: "HandleInventoryMove env other False False data iv = Some iv'"
      and same: "CargoInv iv' = CargoInv iv1" "SecureInv iv' = (SecureInv iv1)[?f := set_slot EmptyItem (SecureInv iv1 ! ?f)]"
    by (auto simp: iv2_def quiet_saves(3) split: if_splits)
  have vault: "SecureInv iv1 = SecureInv iv" and slots: "only_slots (slots iv) iv iv1"
      and am: "amt ?k (slots iv) iv1 + left = amt ?k (slots iv) iv + unat (StackCount src)"
    using c(1) by (auto simp: conserve_def only_slots_def)
  have "total ?k (CargoInv iv') + left = total ?k (CargoInv iv) + unat (StackCount src)"
    using total_slots [OF _ slots, of ?k] ok am same(1) by (simp add: cargo_ok_def)
  moreover have "total ?k (SecureInv iv') + unat (StackCount src) = total ?k (SecureInv iv)"
    using total_update [OF f, of ?k "set_slot EmptyItem src"] same(2) vault slot(2) by simp
  moreover have "ItemTemplateID (SecureInv iv' ! ?f) = -1"
    using same(2) f vault by (simp add: set_slot_def EmptyItem_def)
  ultimately show ?thesis using h c(2) by (auto simp: owned_def)
qed

section \<open>Concrete inventories\<close>

definition demo_base :: ItemBase where
  "demo_base = \<lparr>ib_MaxStack = 10, ib_Flags = 0, ib_Category = 1\<rparr>"

definition demo_env :: item_env where
  "demo_env = \<lparr>m_MaxItemID = 5, m_ItemDB = (\<lambda>i. if i = 5 then Some demo_base else None), f_mul = (\<lambda>_ _. 0),
     f_add = (\<lambda>_ _. 0), f_div = (\<lambda>_ _. 0), f_of_u32 = (\<lambda>_. 0), quality_text = (\<lambda>_. []), check_missions = (\<lambda>_ iv. iv)\<rparr>"

definition demo_item :: "bytes \<Rightarrow> u32 \<Rightarrow> Item" where
  "demo_item builder n = EmptyItem\<lparr>ItemTemplateID := 5, StackCount := n, Quality := f_one, Structure := f_one,
     BuilderName := builder\<rparr>"

definition demo_inv :: "Item list \<Rightarrow> Item list \<Rightarrow> inventory" where
  "demo_inv cargo vault = \<lparr>CargoSpace = of_nat (length cargo), CargoInv = cargo @ replicate (40 - length cargo) EmptyItem,
     SecureInv = vault @ replicate (96 - length vault) EmptyItem, EquipInv = [], AmmoInv = [], TradeInv = [], inv_log = []\<rparr>"

lemma demo_quiet [simp]: "missions_quiet demo_env"
  by (simp add: missions_quiet_def demo_env_def)

lemma demo_facts:
  "GetItem demo_env (scast (ItemTemplateID (demo_item bn n))) = Some demo_base" "MaxStack demo_base = 10"
  "ItemTemplateID (demo_item bn n) = 5" "StackCount (demo_item bn n) = n" "BuilderName (demo_item bn n) = bn"
  "Quality (demo_item bn n) = f_one" "GetItem demo_env 5 = Some demo_base"
  by (simp_all add: GetItem_def demo_env_def demo_item_def EmptyItem_def MaxStack_def demo_base_def word_sless_alt sint_scast_id)

lemma demo_arrays: "length cargo \<le> 40 \<Longrightarrow> length vault \<le> 96 \<Longrightarrow> inv_arrays (demo_inv cargo vault)"
  by (simp add: inv_arrays_def demo_inv_def unat_of_nat)

lemma demo_slots: "length cargo \<le> 40 \<Longrightarrow> slots (demo_inv cargo vault) = [0..<length cargo]"
  by (simp add: demo_inv_def unat_of_nat)

theorem CargoAddItem_exact_witness:
  "\<exists>r my' iv' left. CargoAddItem demo_env False (demo_item [] 5) (demo_inv [demo_item [] 8, EmptyItem] []) = Some (r, my', iv') \<and>
     (r = 0 \<and> left = 0 \<or> r = -3 \<and> (0 < left \<or> (5 :: u32) = 0)) \<and> amt 5 [0, 1] iv' + left = 13"
proof -
  let ?iv = "demo_inv [demo_item [] 8, EmptyItem] []"
  have ok: "cargo_ok 5 demo_base ?iv" and sl: "slots ?iv = [0, 1]" and am: "amt 5 [0, 1] ?iv = 8" by code_simp+
  note ex = CargoAddItem_exact [OF demo_facts(1), of "[]" 5 ?iv False, unfolded demo_facts sl am]
  show ?thesis using ex [OF ok] by auto
qed

theorem CanCargoAddItem_sound_witness:
  "\<exists>my' iv'. CargoAddItem demo_env False (demo_item [] 5) (demo_inv [demo_item [] 8, EmptyItem] []) = Some (0, my', iv') \<and>
     amt 5 [0, 1] iv' = 13"
proof -
  let ?iv = "demo_inv [demo_item [] 8, EmptyItem] []"
  have ok: "cargo_ok 5 demo_base ?iv" and sl: "slots ?iv = [0, 1]" and am: "amt 5 [0, 1] ?iv = 8"
    and can: "CanCargoAddItem demo_env (scast (5 :: s32)) 5 f_one ?iv = Some True"
    and builder: "list_all (\<lambda>i. ItemTemplateID (CargoInv ?iv ! i) = 5 \<and> f_eq (Quality (CargoInv ?iv ! i)) f_one \<longrightarrow>
      BuilderName (CargoInv ?iv ! i) = []) [0, 1]" by code_simp+
  note ex = CanCargoAddItem_sound [OF demo_facts(1), of "[]" 5 ?iv False, unfolded demo_facts sl am]
  show ?thesis using ex [OF ok _ _ _ can builder] by auto
qed

theorem CargoRemoveItem_exact_witness:
  "\<exists>iv'. CargoRemoveItem demo_env (scast (5 :: s32)) 9 (demo_inv [demo_item [] 8, demo_item [] 4] []) = Some iv' \<and> amt 5 [0, 1] iv' = 3"
proof -
  let ?iv = "demo_inv [demo_item [] 8, demo_item [] 4] []"
  have sl: "slots ?iv = [0, 1]" and am: "amt 5 [0, 1] ?iv = 12" and sp: "unat (CargoSpace ?iv) \<le> length (CargoInv ?iv)"
    by code_simp+
  note ex = CargoRemoveItem_exact [of 5 9 ?iv demo_env, unfolded sl am, OF _ _ sp demo_quiet]
  show ?thesis using ex by (auto simp: word_sle_eq)
qed

text \<open>A mission whose stage is completed by saving slot 1; it hands out an item of kind 7 into slot 2, if that is empty.\<close>

definition mission_env :: item_env where
  "mission_env = demo_env\<lparr>check_missions := (\<lambda>i iv.
     if i = 1 \<and> ItemTemplateID (CargoInv iv ! 2) = -1
     then on_cargo 2 (\<lambda>_. (demo_item [] 1)\<lparr>ItemTemplateID := 7\<rparr>) iv else iv)\<rparr>"

lemma mission_env_keeps: "missions_keep mission_env 5"
proof -
  have "total 5 ((CargoInv iv)[2 := (demo_item [] 1)\<lparr>ItemTemplateID := 7\<rparr>]) = total 5 (CargoInv iv)"
    if "ItemTemplateID (CargoInv iv ! 2) = -1" for iv
    using that total_update [of 2 "CargoInv iv" 5 "(demo_item [] 1)\<lparr>ItemTemplateID := 7\<rparr>"]
    by (cases "2 < length (CargoInv iv)") (auto simp: cnt_def list_update_beyond not_less)
  then show ?thesis by (auto simp: missions_keep_def mission_env_def demo_env_def on_cargo_def)
qed

theorem move_conserves_witness:
  "\<exists>iv'. HandleInventoryMove mission_env (\<lambda>_. Some) False False
       \<lparr>FromInv = 0x01000000, FromSlot = 0, ToInv = 0x01000000, ToSlot = 0x01000000, Num = 0x03000000\<rparr>
       (demo_inv [demo_item [] 8, demo_item [] 4] []) = Some iv' \<and> owned 5 iv' = 12 \<and>
     \<not> missions_quiet mission_env"
proof -
  let ?iv = "demo_inv [demo_item [] 8, demo_item [] 4] []"
  let ?data = "\<lparr>FromInv = 0x01000000, FromSlot = 0, ToInv = 0x01000000, ToSlot = 0x01000000, Num = 0x03000000\<rparr>"
  have m: "InvMove_ntohl ?data = \<lparr>FromInv = 1, FromSlot = 0, ToInv = 1, ToSlot = 1, Num = 3\<rparr>" by code_simp
  have ar: "inv_arrays ?iv" and own: "owned 5 ?iv = 12" by code_simp+
  have "ItemTemplateID (CargoInv (check_missions mission_env 1 ?iv) ! 2) = 7" "ItemTemplateID (CargoInv ?iv ! 2) = -1"
    by (simp_all add: mission_env_def demo_inv_def on_cargo_def EmptyItem_def nth_append)
  then have r: "\<not> missions_quiet mission_env" unfolding missions_quiet_def by force
  have "GetItem mission_env = GetItem demo_env" by (intro ext) (simp add: GetItem_def mission_env_def)
  then have may: "may_move mission_env 3 (slot_item 1 0 ?iv) (slot_item 1 1 ?iv)"
    by (simp add: may_move_def slot_item_def demo_inv_def demo_facts fits_def)
  have "\<exists>iv'. HandleInventoryMove mission_env (\<lambda>_. Some) False False ?data ?iv = Some iv' \<and>
      (\<forall>k. k \<noteq> -1 \<and> missions_keep mission_env k \<longrightarrow> owned k iv' = owned k ?iv)"
    by (rule move_conserves [OF ar refl]) (use may in \<open>simp_all add: m\<close>)
  then obtain iv' where h: "HandleInventoryMove mission_env (\<lambda>_. Some) False False ?data ?iv = Some iv'"
      and keep: "\<forall>k. k \<noteq> -1 \<and> missions_keep mission_env k \<longrightarrow> owned k iv' = owned k ?iv" by blast
  have "owned 5 iv' = 12" using keep [rule_format, of 5] own mission_env_keeps by simp
  with h r show ?thesis by auto
qed

theorem HandleInventoryMove_in_bounds_witness:
  "HandleInventoryMove demo_env (\<lambda>_. Some) False False
     \<lparr>FromInv = 0x01000000, FromSlot = 0x27000000, ToInv = 0x03000000, ToSlot = 0xFFFFFFFF, Num = 0\<rparr>
     (demo_inv [demo_item [] 8] []) \<noteq> None"
  by (rule HandleInventoryMove_in_bounds) (simp_all add: demo_arrays)

theorem client_number_duplicates_witness:
  "\<exists>iv'. HandleInventoryMove demo_env (\<lambda>_. Some) False False
       \<lparr>FromInv = 0x01000000, FromSlot = 0, ToInv = 0x01000000, ToSlot = 0x01000000, Num = 0x02000000\<rparr>
       (demo_inv [demo_item [] 1, demo_item [] 4] []) = Some iv' \<and>
     StackCount (CargoInv iv' ! 1) = 6 \<and> StackCount (CargoInv iv' ! 0) = 0xFFFFFFFF"
proof -
  let ?iv = "demo_inv [demo_item [] 1, demo_item [] 4] []"
  let ?data = "\<lparr>FromInv = 0x01000000, FromSlot = 0, ToInv = 0x01000000, ToSlot = 0x01000000, Num = 0x02000000\<rparr>"
  have m: "InvMove_ntohl ?data = \<lparr>FromInv = 1, FromSlot = 0, ToInv = 1, ToSlot = 1, Num = 2\<rparr>" by code_simp
  have ar: "inv_arrays ?iv" and it: "CargoInv ?iv ! 0 = demo_item [] 1" "CargoInv ?iv ! 1 = demo_item [] 4"
    and q: "f_eq f_one f_one" and sl: "in_slots 0 40" "in_slots 1 40" by code_simp+
  obtain mid iv' where h: "HandleInventoryMove demo_env (\<lambda>_. Some) False False ?data ?iv = Some iv'"
      "unat (StackCount (CargoInv mid ! 1)) = 6" "unat (StackCount (CargoInv mid ! 0)) = 4294967295"
      and iv': "iv' = save_cargo_slot demo_env 1 (save_cargo_slot demo_env 0 mid)"
    using client_number_duplicates [OF ar refl, of ?data "demo_item [] 1" "demo_item [] 4" demo_env demo_base "\<lambda>_. Some"]
      it q sl by (auto simp: m demo_facts)
  then show ?thesis by (auto simp: word_unat_eq_iff iv')
qed

theorem vault_move_loses_witness:
  "\<exists>iv' left. HandleInventoryMove demo_env (\<lambda>_. Some) False False
       \<lparr>FromInv = 0x03000000, FromSlot = 0, ToInv = 0x01000000, ToSlot = 0xFFFFFFFF, Num = 0x03000000\<rparr>
       (demo_inv [demo_item [65] 4] [demo_item [66] 3]) = Some iv' \<and> 0 < left \<and> owned 5 iv' + left = 7"
proof -
  let ?iv = "demo_inv [demo_item [65] 4] [demo_item [66] 3]"
  let ?data = "\<lparr>FromInv = 0x03000000, FromSlot = 0, ToInv = 0x01000000, ToSlot = 0xFFFFFFFF, Num = 0x03000000\<rparr>"
  have m: "InvMove_ntohl ?data = \<lparr>FromInv = 3, FromSlot = 0, ToInv = 1, ToSlot = -1, Num = 3\<rparr>" by code_simp
  have ar: "inv_arrays ?iv" and it: "SecureInv ?iv ! 0 = demo_item [66] 3" and own: "owned 5 ?iv = 7"
    and ok: "cargo_ok 5 demo_base ?iv" and sl: "in_slots 0 96"
    and can: "CanCargoAddItem demo_env (scast (5 :: s32)) 3 f_one ?iv = Some True"
    and bad: "map_option fst (CargoAddItem demo_env True (demo_item [66] 3) ?iv) = Some (-3)" by code_simp+
  from bad obtain my' iv1 where "CargoAddItem demo_env True (demo_item [66] 3) ?iv = Some (-3, my', iv1)" by auto
  then show ?thesis
    using vault_move_loses [OF ar refl, of ?data "demo_item [66] 3" demo_env demo_base my' iv1 "\<lambda>_. Some"] it own ok sl can
    by (auto simp: m demo_facts)
qed

end
