(* ===== verification/GuildManager.thy ===== *)
theory GuildManager
  imports GroupManager
begin

text \<open>
  Guilds: \<^verbatim>\<open>server/src/GuildManager.cpp\<close> (the guild list, ranks, members, foundation) with the
  structs of \<^verbatim>\<open>Guilds.h\<close>. A pointer to a guild is its index in the vector
  \<^verbatim>\<open>m_GuildList\<close>, whose deleted entries stay as null (\<^term>\<open>None\<close>); a pointer to a player is
  the player's index, as in theory GroupManager, whose world is part of the state. The members
  of a guild are the first \<^verbatim>\<open>Count\<close> entries of its array, so \<^verbatim>\<open>Count\<close> is their number.
  \<open>online\<close> lists the players that the loop over \<^verbatim>\<open>m_GlobalPlayerList\<close> visits, in its order
  (theory PlayerNodes). Messages to clients and to the save manager go to a log.
  \<open>guild_fault\<close> records undefined behaviour: an index outside an array, a name that fills its
  array and so is left without its terminating zero, an uninitialised pointer.
\<close>

section \<open>Messages, dialogs, permissions\<close>

datatype guild_msg =
    GUILD_MSG_MOTD | GUILD_MSG_INTERNAL_ERROR | GUILD_MSG_INVALID_GUILD | GUILD_MSG_NOT_IN_A_GUILD
  | GUILD_MSG_NOT_IMPLEMENTED | GUILD_MSG_INVALID_COMMAND | GUILD_MSG_AVAILABLE_COMMANDS
  | GUILD_MSG_USAGE_PROMOTE | GUILD_MSG_USAGE_DEMOTE | GUILD_MSG_USAGE_RECRUIT | GUILD_MSG_USAGE_REMOVE
  | GUILD_GMMSG_USAGE_DISBAND | GUILD_MSG_ALL_GROUP_NOT_IN_A_GUILD | GUILD_MSG_ALREADY_A_FOUNDER
  | GUILD_MSG_PLAYER_NOT_FOUND | GUILD_MSG_GUILD_NAME_IN_USE | GUILD_MSG_GUILD_ALREADY_CREATING
  | GUILD_MSG_REGISTRATION_FEE_DEDUCTED | GUILD_MSG_NOT_ENOUGH_CREDITS_ABORTED
  | GUILD_MSG_ALREADY_IN_A_GUILD | GUILD_MSG_NOT_HIGH_ENOUGH_TO_RECRUIT
  | GUILD_MSG_GUILD_FORMATION_ABORTED_BY | GUILD_MSG_ABORT_PLAYER_LEFT_SECTOR
  | GUILD_MSG_DECLINED_INVITATION | GUILD_MSG_HAS_BEEN_RECRUITED | GUILD_MSG_NEW_RANK
  | GUILD_MSG_CANT_PROMOTE_SELF | GUILD_MSG_NOT_HIGH_ENOUGH_TO_PROMOTE | GUILD_MSG_YOU_HAVE_PROMOTED
  | GUILD_MSG_CANT_DEMOTE_SELF | GUILD_MSG_NOT_HIGH_ENOUGH_TO_DEMOTE | GUILD_MSG_YOU_HAVE_DEMOTED
  | GUILD_MSG_NOT_HIGH_ENOUGH_TO_REMOVE | GUILD_MSG_YOU_HAVE_REMOVED | GUILD_MSG_YOU_HAVE_BEEN_REMOVED
  | GUILD_MSG_YOU_HAVE_LEFT_GUILD | GUILD_MSG_NOT_HIGH_ENOUGH_TO_DISBAND | GUILD_MSG_YOU_HAVE_DISBANDED
  | GUILD_MSG_HAS_BEEN_DISBANDED | GUILD_MSG_NOT_HIGH_ENOUGH_TO_MESSAGE | GUILD_MSG_CHANGED_GUILD_MESSAGE
  | GUILD_MSG_NOT_HIGH_ENOUGH_TO_PUBLIC | GUILD_MSG_STATS_CAN_BE_SEEN | GUILD_MSG_STATS_CANT_BE_SEEN
  | GUILD_MSG_YOU_HAVE_JOINED_GUILD | GUILD_GMMSG_GUILD_DISBANDED

text \<open>The dialogs of \<^verbatim>\<open>ENB_OPCODE_00CC\<close>; the client answers with the type plus one.\<close>

definition GUILD_CREATE_CONFIRM :: clong where "GUILD_CREATE_CONFIRM = 0"
definition GUILD_PROMOTE_CONFIRM :: clong where "GUILD_PROMOTE_CONFIRM = 1"
definition GUILD_DEMOTE_CONFIRM :: clong where "GUILD_DEMOTE_CONFIRM = 5"
definition GUILD_REMOVE_CONFIRM :: clong where "GUILD_REMOVE_CONFIRM = 7"
definition GUILD_LEAVE_CONFIRM :: clong where "GUILD_LEAVE_CONFIRM = 9"
definition GUILD_DISBAND_CONFIRM :: clong where "GUILD_DISBAND_CONFIRM = 11"
definition GUILD_GM_DISBAND_CONFIRM :: clong where "GUILD_GM_DISBAND_CONFIRM = 13"

definition PERMISSION_RECRUIT :: clong where "PERMISSION_RECRUIT = 0x0008"
definition PERMISSION_REMOVE :: clong where "PERMISSION_REMOVE = 0x0010"
definition PERMISSION_MESSAGE :: clong where "PERMISSION_MESSAGE = 0x0020"
definition PERMISSION_PROMOTE :: clong where "PERMISSION_PROMOTE = 0x0040"
definition PERMISSION_DEMOTE :: clong where "PERMISSION_DEMOTE = 0x0080"
definition PERMISSION_DISBAND :: clong where "PERMISSION_DISBAND = 0x0100"
definition PERMISSION_PUBLIC_STATUS :: clong where "PERMISSION_PUBLIC_STATUS = 0x0400"
definition PERMISSION_PRIVATE_STATUS :: clong where "PERMISSION_PRIVATE_STATUS = 0x0800"

definition PERM_LEADER :: clong where "PERM_LEADER = 0x0FFF"
definition PERM_OFFICER1 :: clong where "PERM_OFFICER1 = 0x00FF"
definition PERM_OFFICER2 :: clong where "PERM_OFFICER2 = 0x00CF"
definition PERM_NEWBIE :: clong where "PERM_NEWBIE = 0x0005"

definition MAX_GUILD_RANKS :: nat where "MAX_GUILD_RANKS = 10"
definition MAX_GUILD_MEMBERS :: nat where "MAX_GUILD_MEMBERS = 150"

lemmas guild_consts [net7_defs] =
  GUILD_CREATE_CONFIRM_def GUILD_PROMOTE_CONFIRM_def GUILD_DEMOTE_CONFIRM_def GUILD_REMOVE_CONFIRM_def
  GUILD_LEAVE_CONFIRM_def GUILD_DISBAND_CONFIRM_def GUILD_GM_DISBAND_CONFIRM_def
  PERMISSION_RECRUIT_def PERMISSION_REMOVE_def PERMISSION_MESSAGE_def PERMISSION_PROMOTE_def
  PERMISSION_DEMOTE_def PERMISSION_DISBAND_def PERMISSION_PUBLIC_STATUS_def PERMISSION_PRIVATE_STATUS_def
  PERM_LEADER_def PERM_OFFICER1_def PERM_OFFICER2_def PERM_NEWBIE_def MAX_GUILD_RANKS_def MAX_GUILD_MEMBERS_def

section \<open>State\<close>

record GuildRank =
  gr_Name :: bytes
  PermissionFlags :: clong
  MaxPromote :: clong
  MaxRemove :: clong
  MinDemote :: clong

record GuildMember =
  gm_Name :: bytes
  gm_Rank :: s32
  gm_Contribution :: s32
  gm_Active :: bool
  gm_Tag :: bytes
  gm_avatar_id :: clong

record Guild =
  guild_id :: s32
  guild_Name :: bytes
  guild_MOTD :: bytes
  guild_Points :: clong
  guild_Level :: s16
  PublicStats :: bool
  Ranks :: "GuildRank list"
  Members :: "GuildMember list"
  pending :: bool

datatype guild_event =
    GuildMessage nat guild_msg bytes bytes
  | GuildDialog nat clong bytes
  | GuildDialogMsg nat guild_msg bytes
  | GuildRecruitConfirm nat bytes bytes
  | GuildPermissions nat clong clong clong clong
  | GuildMemberList nat bytes
  | GuildRankNames nat "bytes list"
  | GuildVaMessage nat string
  | GuildChatEvent nat nat bytes
  | GuildAuxShip nat
  | SaveCreditLevel nat
  | SaveGuildId nat s32 s16
  | SaveGuildMember s32 GuildMember
  | SaveGuildMemberRemoved clong
  | SaveGuildRank s32 nat GuildRank
  | SaveGuildInfo s32 bytes bytes clong s16 bool
  | SaveDeleteGuild s32

record guild_player =
  m_GuildID :: s32
  gp_CharacterID :: clong
  gp_SectorID :: clong
  gp_Credits :: u64
  gp_AdminLevel :: clong
  gp_TotalLevel :: clong
  m_Recruiter :: "nat option"
  ship_GuildName :: bytes
  ship_GuildRank :: u32
  ship_GuildRankName :: bytes
  guild_channel :: bool

record guild_world =
  group_world :: gworld
  m_GuildList :: "Guild option list"
  m_NextGuild :: s32
  m_NextPendingGuild :: s32
  guild_players :: "guild_player list"
  online :: "nat list"
  guild_log :: "guild_event list"
  guild_fault :: bool

abbreviation gpl :: "guild_world \<Rightarrow> nat \<Rightarrow> guild_player" where
  "gpl w i \<equiv> guild_players w ! i"

abbreviation player_name :: "guild_world \<Rightarrow> nat \<Rightarrow> bytes" where
  "player_name w i \<equiv> p_Name (player (group_world w) i)"

definition g_emit :: "guild_event \<Rightarrow> guild_world \<Rightarrow> guild_world" where
  "g_emit e w = w\<lparr>guild_log := guild_log w @ [e]\<rparr>"

definition g_fault_if :: "bool \<Rightarrow> guild_world \<Rightarrow> guild_world" where
  "g_fault_if b w = (if b then w\<lparr>guild_fault := True\<rparr> else w)"

definition on_gpl :: "nat \<Rightarrow> (guild_player \<Rightarrow> guild_player) \<Rightarrow> guild_world \<Rightarrow> guild_world" where
  "on_gpl i f w = w\<lparr>guild_players := (guild_players w)[i := f (guild_players w ! i)]\<rparr>"

definition on_guild :: "nat \<Rightarrow> (Guild \<Rightarrow> Guild) \<Rightarrow> guild_world \<Rightarrow> guild_world" where
  "on_guild i f w = w\<lparr>m_GuildList := (m_GuildList w)[i := map_option f (m_GuildList w ! i)]\<rparr>"

abbreviation the_guild :: "guild_world \<Rightarrow> nat \<Rightarrow> Guild" where
  "the_guild w i \<equiv> the (m_GuildList w ! i)"

text \<open>
  \<^verbatim>\<open>strncpy\<close> into an array of \<open>n\<close> characters: the bytes up to the array's end, and whether the
  array is left without a terminating zero.
\<close>

definition strncpy_text :: "nat \<Rightarrow> bytes \<Rightarrow> bytes" where
  "strncpy_text n s = take n s"

definition unterminated :: "nat \<Rightarrow> bytes \<Rightarrow> bool" where
  "unterminated n s \<longleftrightarrow> n \<le> length s"

section \<open>Lookup\<close>

definition guild_hit :: "(Guild \<Rightarrow> bool) \<Rightarrow> Guild option \<Rightarrow> bool" where
  "guild_hit P g = (case g of None \<Rightarrow> False | Some x \<Rightarrow> P x)"

definition GuildFromId :: "guild_world \<Rightarrow> s32 \<Rightarrow> nat option" where
  "GuildFromId w gid = first_index (guild_hit (\<lambda>g. guild_id g = gid)) (m_GuildList w)"

definition GuildFromName :: "guild_world \<Rightarrow> bytes \<Rightarrow> nat option" where
  "GuildFromName w name = first_index (guild_hit (\<lambda>g. guild_Name g = name)) (m_GuildList w)"

definition GuildFromName_pending :: "guild_world \<Rightarrow> bytes \<Rightarrow> bool \<Rightarrow> nat option" where
  "GuildFromName_pending w name p =
     first_index (guild_hit (\<lambda>g. pending g = p \<and> guild_Name g = name)) (m_GuildList w)"

definition GetMemberIndex :: "Guild \<Rightarrow> bytes \<Rightarrow> nat option" where
  "GetMemberIndex g name = first_index (\<lambda>m. gm_Name m = name) (Members g)"

definition GetGuildMember :: "Guild \<Rightarrow> bytes \<Rightarrow> nat option" where
  "GetGuildMember g name = first_index (\<lambda>m. gm_Name m = name) (Members g)"

definition rank_ok :: "s32 \<Rightarrow> bool" where
  "rank_ok rank \<longleftrightarrow> 0 \<le>s rank \<and> rank <s of_nat MAX_GUILD_RANKS"

definition GetRankName :: "Guild \<Rightarrow> s32 \<Rightarrow> bytes" where
  "GetRankName g rank = (if rank_ok rank then gr_Name (Ranks g ! unat rank) else asc ''error'')"

definition GetRank :: "Guild \<Rightarrow> s32 \<Rightarrow> GuildRank option" where
  "GetRank g rank = (if rank_ok rank then Some (Ranks g ! unat rank) else None)"

text \<open>
  \<^verbatim>\<open>CheckPermission\<close> indexes the ranks without a test; \<^term>\<open>None\<close> is an index outside the array.
\<close>

definition CheckPermission :: "Guild \<Rightarrow> bytes \<Rightarrow> clong \<Rightarrow> bool option" where
  "CheckPermission g name permission_bit =
     (case GetMemberIndex g name of None \<Rightarrow> Some False
      | Some i \<Rightarrow>
          if rank_ok (gm_Rank (Members g ! i))
          then Some (PermissionFlags (Ranks g ! unat (gm_Rank (Members g ! i))) AND permission_bit \<noteq> 0)
          else None)"

definition CheckIfFounderOfPendingGuild :: "guild_world \<Rightarrow> bytes \<Rightarrow> bool" where
  "CheckIfFounderOfPendingGuild w name \<longleftrightarrow>
     list_ex (guild_hit (\<lambda>g. pending g \<and> GetGuildMember g name \<noteq> None)) (m_GuildList w)"

text \<open>The players of the global list, by character id and by name without regard to case.\<close>

definition GetPlayerFromCharacterID :: "guild_world \<Rightarrow> clong \<Rightarrow> nat option" where
  "GetPlayerFromCharacterID w cid = find (\<lambda>p. gp_CharacterID (gpl w p) = cid) (online w)"

definition tolower :: "u8 \<Rightarrow> u8" where
  "tolower c = (if 65 \<le> c \<and> c \<le> 90 then c + 32 else c)"

definition GetPlayer_name :: "guild_world \<Rightarrow> bytes \<Rightarrow> nat option" where
  "GetPlayer_name w name = find (\<lambda>p. map tolower (player_name w p) = map tolower name) (online w)"

section \<open>Messages\<close>

definition leaves_guild :: "guild_msg \<Rightarrow> bool" where
  "leaves_guild t \<longleftrightarrow> t = GUILD_MSG_YOU_HAVE_LEFT_GUILD \<or> t = GUILD_MSG_YOU_HAVE_BEEN_REMOVED \<or>
     t = GUILD_MSG_HAS_BEEN_DISBANDED \<or> t = GUILD_MSG_YOU_HAVE_DISBANDED"

definition clear_guild_info :: "guild_player \<Rightarrow> guild_player" where
  "clear_guild_info p = p\<lparr>m_GuildID := -1, ship_GuildName := [], ship_GuildRank := 0, ship_GuildRankName := []\<rparr>"

definition SendGuildMessage :: "nat \<Rightarrow> guild_msg \<Rightarrow> bytes \<Rightarrow> bytes \<Rightarrow> guild_world \<Rightarrow> guild_world" where
  "SendGuildMessage p t OtherName GuildName w =
     (let w1 = g_emit (GuildMessage p t OtherName GuildName) w
      in if leaves_guild t
         then g_emit (GuildAuxShip p) (g_emit (SaveGuildId p (-1) 0) (on_gpl p clear_guild_info w1))
         else w1)"

definition SendMessageToFounders :: "Guild \<Rightarrow> guild_msg \<Rightarrow> bytes \<Rightarrow> bytes \<Rightarrow> guild_world \<Rightarrow> guild_world" where
  "SendMessageToFounders g t OtherName GuildName w =
     fold (\<lambda>m w. case GetPlayerFromCharacterID w (gm_avatar_id m) of None \<Rightarrow> w
                 | Some p \<Rightarrow> SendGuildMessage p t OtherName GuildName w) (Members g) w"

definition SendMessageToGuildMembers ::
    "s32 \<Rightarrow> nat option \<Rightarrow> guild_msg \<Rightarrow> bytes \<Rightarrow> bytes \<Rightarrow> bool \<Rightarrow> guild_world \<Rightarrow> guild_world" where
  "SendMessageToGuildMembers gid origin t OtherName GuildName copy_to_originator w =
     fold (\<lambda>p w. if (Some p \<noteq> origin \<or> copy_to_originator) \<and> m_GuildID (gpl w p) = gid
                 then SendGuildMessage p t OtherName GuildName w else w) (online w) w"

definition GuildChat :: "clong \<Rightarrow> bytes option \<Rightarrow> bool \<Rightarrow> guild_world \<Rightarrow> guild_world" where
  "GuildChat GameID message copy_to_originator w =
     (case (message, find_player (group_world w) GameID) of
        (Some msg, Some s) \<Rightarrow>
          fold (\<lambda>p w. if (p_GameID (player (group_world w) p) \<noteq> GameID \<or> copy_to_originator) \<and>
                         m_GuildID (gpl w p) = m_GuildID (gpl w s) \<and> guild_channel (gpl w p)
                      then g_emit (GuildChatEvent p s msg) w else w) (online w) w
      | _ \<Rightarrow> w)"

section \<open>Saving\<close>

definition SaveGuildInfo_msg :: "Guild \<Rightarrow> guild_world \<Rightarrow> guild_world" where
  "SaveGuildInfo_msg g =
     g_emit (SaveGuildInfo (guild_id g) (guild_Name g) (guild_MOTD g) (guild_Points g) (guild_Level g) (PublicStats g))"

definition SaveGuildMember_msg :: "s32 \<Rightarrow> GuildMember \<Rightarrow> bool \<Rightarrow> guild_world \<Rightarrow> guild_world" where
  "SaveGuildMember_msg gid member remove =
     (if remove then g_emit (SaveGuildMemberRemoved (gm_avatar_id member)) else g_emit (SaveGuildMember gid member))"

definition SaveNewGuild :: "Guild \<Rightarrow> guild_world \<Rightarrow> guild_world" where
  "SaveNewGuild g w =
     (let w1 = SaveGuildInfo_msg g w;
          w2 = fold (\<lambda>i. g_emit (SaveGuildRank (guild_id g) i (Ranks g ! i))) [0..<MAX_GUILD_RANKS] w1
      in fold (\<lambda>m. SaveGuildMember_msg (guild_id g) m False) (Members g) w2)"

section \<open>The guild list\<close>

definition rank_Defaults :: "(string \<times> clong) list" where
  "rank_Defaults =
     [(''Recruit'', PERM_NEWBIE), (''Apprentice'', PERM_NEWBIE), (''Petty Officer'', PERM_NEWBIE),
      (''Master Chief'', PERM_NEWBIE), (''Ensign'', PERM_OFFICER2), (''Lieutenant'', PERM_OFFICER2),
      (''Commander'', PERM_OFFICER2), (''Captain'', PERM_OFFICER1), (''Commodore'', PERM_OFFICER1),
      (''Admiral'', PERM_LEADER)]"

definition default_rank :: "nat \<Rightarrow> GuildRank" where
  "default_rank i =
     \<lparr>gr_Name = asc (fst (rank_Defaults ! i)), PermissionFlags = snd (rank_Defaults ! i),
      MaxPromote = (if i < 4 then 0 else of_nat i + 1), MaxRemove = (if i < 4 then 0 else of_nat i),
      MinDemote = 1\<rparr>"

text \<open>
  \<^verbatim>\<open>AddGuildToList\<close> does not use its parameters \<^verbatim>\<open>points\<close>, \<^verbatim>\<open>level\<close> and \<^verbatim>\<open>publicstats\<close>.
\<close>

definition AddGuildToList :: "s32 \<Rightarrow> bytes \<Rightarrow> bytes \<Rightarrow> clong \<Rightarrow> s16 \<Rightarrow> bool \<Rightarrow> guild_world \<Rightarrow> s32 \<times> guild_world" where
  "AddGuildToList gid name motd points level publicstats w =
     (let new = (gid = -1);
          gid' = (if new then m_NextPendingGuild w else gid);
          w1 = (if new then w\<lparr>m_NextPendingGuild := m_NextPendingGuild w + 1\<rparr>
                else if m_NextGuild w \<le>s gid then w\<lparr>m_NextGuild := gid + 1, m_NextPendingGuild := gid + 1\<rparr>
                else w);
          g = \<lparr>guild_id = gid', guild_Name = strncpy_text 64 name, guild_MOTD = strncpy_text 512 motd,
               guild_Points = 0, guild_Level = 0, PublicStats = True,
               Ranks = map default_rank [0..<MAX_GUILD_RANKS], Members = [], pending = new\<rparr>
      in (gid', g_fault_if (unterminated 64 name \<or> unterminated 512 motd)
                  (w1\<lparr>m_GuildList := m_GuildList w1 @ [Some g]\<rparr>)))"

text \<open>The loop of \<^verbatim>\<open>RemoveGuildFromList\<close> deletes every guild with the id.\<close>

fun remove_guild_loop :: "nat list \<Rightarrow> s32 \<Rightarrow> nat option \<Rightarrow> bool \<Rightarrow> guild_world \<Rightarrow> guild_world" where
  "remove_guild_loop [] gid origin disbanded w = w"
| "remove_guild_loop (i # is) gid origin disbanded w =
     (if guild_hit (\<lambda>g. guild_id g = gid) (m_GuildList w ! i)
      then let w1 = w\<lparr>m_GuildList := (m_GuildList w)[i := None]\<rparr>;
               w2 = (if disbanded
                     then g_emit (SaveDeleteGuild gid)
                            (SendMessageToGuildMembers gid origin GUILD_MSG_HAS_BEEN_DISBANDED [] [] False w1)
                     else w1)
           in remove_guild_loop is gid origin disbanded w2
      else remove_guild_loop is gid origin disbanded w)"

definition RemoveGuildFromList :: "s32 \<Rightarrow> nat option \<Rightarrow> bool \<Rightarrow> guild_world \<Rightarrow> guild_world" where
  "RemoveGuildFromList gid origin disbanded w =
     remove_guild_loop [0..<length (m_GuildList w)] gid origin disbanded w"

definition AddRankToGuild :: "s32 \<Rightarrow> s32 \<Rightarrow> bytes \<Rightarrow> clong \<Rightarrow> clong \<Rightarrow> clong \<Rightarrow> clong \<Rightarrow> guild_world \<Rightarrow> guild_world" where
  "AddRankToGuild gid rank name flags perm2 perm3 perm4 w =
     (case GuildFromId w gid of None \<Rightarrow> w
      | Some i \<Rightarrow>
          if rank_ok rank
          then g_fault_if (unterminated 64 name)
                 (on_guild i (\<lambda>g. g\<lparr>Ranks := (Ranks g)[unat rank :=
                    \<lparr>gr_Name = strncpy_text 64 name, PermissionFlags = flags, MaxPromote = perm2,
                     MaxRemove = perm3, MinDemote = perm4\<rparr>]\<rparr>) w)
          else g_fault_if True w)"

text \<open>
  \<^verbatim>\<open>AddRanksToGuild\<close> cuts a list at its commas and names the ranks from the highest down.
  \<^term>\<open>None\<close>: a write outside the array of ranks, which the zero after the loop is when there
  are more than ten names, or outside the array of a name.
\<close>

fun ranks_loop :: "bytes \<Rightarrow> nat \<Rightarrow> bytes \<Rightarrow> GuildRank list \<Rightarrow> GuildRank list option" where
  "ranks_loop [] index to rs = Some (rs[index := (rs ! index)\<lparr>gr_Name := to\<rparr>])"
| "ranks_loop (c # cs) index to rs =
     (if c = 44
      then (let rs' = rs[index := (rs ! index)\<lparr>gr_Name := to\<rparr>]
            in case index of 0 \<Rightarrow> None | Suc i \<Rightarrow> ranks_loop cs i [] rs')
      else if length to < 63 then ranks_loop cs index (to @ [c]) rs
      else None)"

definition AddRanksToGuild :: "s32 \<Rightarrow> bytes \<Rightarrow> guild_world \<Rightarrow> guild_world" where
  "AddRanksToGuild gid ranks w =
     (case GuildFromId w gid of None \<Rightarrow> w
      | Some i \<Rightarrow>
          if ranks = [] then w
          else case ranks_loop ranks (MAX_GUILD_RANKS - 1) [] (Ranks (the_guild w i)) of
                 None \<Rightarrow> g_fault_if True w
               | Some rs \<Rightarrow> on_guild i (\<lambda>g. g\<lparr>Ranks := rs\<rparr>) w)"

section \<open>Members\<close>

definition AddMemberToGuild ::
    "s32 \<Rightarrow> bytes \<Rightarrow> clong \<Rightarrow> s32 \<Rightarrow> bool \<Rightarrow> s32 \<Rightarrow> bytes \<Rightarrow> guild_world \<Rightarrow> int \<times> guild_world" where
  "AddMemberToGuild gid name avatar_id rank active contribution tag w =
     (case GuildFromId w gid of None \<Rightarrow> (-1, w)
      | Some i \<Rightarrow>
          let g = the_guild w i in
          if length (Members g) < MAX_GUILD_MEMBERS \<and> GetMemberIndex g name = None
          then (int (length (Members g)),
                g_fault_if (unterminated 16 name \<or> unterminated 32 tag)
                  (on_guild i (\<lambda>g. g\<lparr>Members := Members g @
                     [\<lparr>gm_Name = strncpy_text 16 name, gm_Rank = rank, gm_Contribution = contribution,
                       gm_Active = active, gm_Tag = strncpy_text 32 tag, gm_avatar_id = avatar_id\<rparr>]\<rparr>) w))
          else (-1, w))"

text \<open>
  The loop that closes the gap copies one entry too many: from a full array it reads the entry
  behind the last.
\<close>

definition RemoveMemberFromGuild :: "s32 \<Rightarrow> bytes \<Rightarrow> guild_world \<Rightarrow> bool \<times> guild_world" where
  "RemoveMemberFromGuild gid name w =
     (case GuildFromId w gid of None \<Rightarrow> (False, w)
      | Some i \<Rightarrow>
          let g = the_guild w i in
          case GetMemberIndex g name of None \<Rightarrow> (False, w)
          | Some k \<Rightarrow>
              let w1 = g_fault_if (length (Members g) = MAX_GUILD_MEMBERS)
                         (on_guild i (\<lambda>g. g\<lparr>Members := take k (Members g) @ drop (Suc k) (Members g)\<rparr>) w)
              in (True, if length (Members g) = 1 then RemoveGuildFromList (guild_id g) None True w1 else w1))"

section \<open>Foundation\<close>

definition CreateGuild :: "nat option list \<Rightarrow> bytes \<Rightarrow> guild_world \<Rightarrow> guild_world" where
  "CreateGuild founders name w =
     (let newmotd = take 79 (asc ''Welcome to '' @ name);
          (gid, w1) = AddGuildToList (-1) name newmotd 0 0 True w
      in fold (\<lambda>i w. case founders ! i of None \<Rightarrow> w
                     | Some p \<Rightarrow> snd (AddMemberToGuild gid (player_name w p) (gp_CharacterID (gpl w p))
                                        (if i = 0 then 9 else 5) False 0 [] w)) [0..<6] w1)"

definition SetupGuildInfo :: "nat \<Rightarrow> s32 \<Rightarrow> s32 \<Rightarrow> bool \<Rightarrow> guild_world \<Rightarrow> guild_world" where
  "SetupGuildInfo p gid rank autoadd w =
     (let w1 = on_gpl p (\<lambda>x. x\<lparr>m_GuildID := gid\<rparr>) w
      in case GuildFromId w1 gid of None \<Rightarrow> w1
         | Some i \<Rightarrow>
             let g = the_guild w1 i;
                 w2 = on_gpl p (\<lambda>x. x\<lparr>ship_GuildName := guild_Name g, ship_GuildRank := rank + 1,
                                     ship_GuildRankName := GetRankName g rank\<rparr>) w1;
                 w3 = (if autoadd
                       then g_emit (SaveGuildId p gid (ucast rank))
                              (snd (AddMemberToGuild gid (player_name w2 p) (gp_CharacterID (gpl w2 p)) rank True 0 [] w2))
                       else w2)
             in on_gpl p (\<lambda>x. x\<lparr>guild_channel := True\<rparr>) w3)"

text \<open>
  The founders of a pending guild that all accepted: the loop that finds them, with the array
  \<^verbatim>\<open>founders[6]\<close> as far as it is filled. It stops at a founder who is offline or in another
  sector; a seventh member would be written behind the array.
\<close>

fun founders_online :: "Guild \<Rightarrow> GuildMember list \<Rightarrow> nat list \<Rightarrow> guild_world \<Rightarrow> bool \<times> nat list \<times> guild_world" where
  "founders_online g [] fs w = (False, fs, w)"
| "founders_online g (m # ms) fs w =
     (if 6 \<le> length fs then (True, fs, g_fault_if True w)
      else case GetPlayerFromCharacterID w (gm_avatar_id m) of
             None \<Rightarrow> (True, fs, SendMessageToFounders g GUILD_MSG_INTERNAL_ERROR [] [] w)
           | Some p \<Rightarrow>
               if fs \<noteq> [] \<and> gp_SectorID (gpl w p) \<noteq> gp_SectorID (gpl w (hd fs))
               then (True, fs @ [p], SendMessageToFounders g GUILD_MSG_ABORT_PLAYER_LEFT_SECTOR (player_name w p) [] w)
               else founders_online g ms (fs @ [p]) w)"

text \<open>Everyone is there and the fee is covered: the guild gets its id.\<close>

definition found_guild :: "nat \<Rightarrow> nat list \<Rightarrow> guild_world \<Rightarrow> guild_world" where
  "found_guild i fs w =
     (let gid = m_NextGuild w;
          w1 = on_guild i (\<lambda>g. g\<lparr>guild_id := gid, pending := False\<rparr>) (w\<lparr>m_NextGuild := gid + 1\<rparr>);
          g = the_guild w1 i;
          w2 = SaveNewGuild g w1;
          w3 = SendMessageToFounders g GUILD_MSG_YOU_HAVE_JOINED_GUILD [] (guild_Name g) w2;
          w4 = fold (\<lambda>(p, m) w. g_emit (GuildAuxShip p) (SetupGuildInfo p gid (gm_Rank m) False w))
                 (zip fs (Members g)) w3;
          w5 = on_gpl (hd fs) (\<lambda>x. x\<lparr>gp_Credits := gp_Credits x - 10000\<rparr>) w4;
          w6 = g_emit (SaveCreditLevel (hd fs)) w5
      in SendGuildMessage (hd fs) GUILD_MSG_REGISTRATION_FEE_DEDUCTED (asc ''10000'') [] w6)"

definition CheckGuildCreationAccepted :: "bytes \<Rightarrow> bytes \<Rightarrow> guild_world \<Rightarrow> bool \<times> guild_world" where
  "CheckGuildCreationAccepted name pname w =
     (case GuildFromName_pending w name True of None \<Rightarrow> (False, w)
      | Some i \<Rightarrow>
          case GetGuildMember (the_guild w i) pname of None \<Rightarrow> (False, w)
          | Some k \<Rightarrow>
              let w1 = on_guild i (\<lambda>g. g\<lparr>Members := (Members g)[k := (Members g ! k)\<lparr>gm_Active := True\<rparr>]\<rparr>) w;
                  g = the_guild w1 i
              in if \<not> list_all gm_Active (Members g) then (False, w1)
                 else let (abort, fs, w2) = founders_online g (Members g) [] w1;
                          poor = (\<not> abort \<and> gp_Credits (gpl w2 (hd fs)) < 10000);
                          w3 = (if poor then SendMessageToFounders g GUILD_MSG_NOT_ENOUGH_CREDITS_ABORTED [] [] w2 else w2)
                      in (True, if abort \<or> poor then RemoveGuildFromList (guild_id g) None False w3
                                else found_guild i fs w3))"

section \<open>Loading\<close>

text \<open>The rows the queries return: a guild with its ranks and its members.\<close>

record rank_row =
  row_id :: clong
  row_name :: bytes
  row_permissions :: clong
  row_maxpromote :: clong
  row_maxremove :: clong
  row_mindemote :: clong

record member_row =
  row_first_name :: bytes
  row_avatar_id :: clong
  row_rank :: s32
  row_active :: bool
  row_contribution :: s32
  row_tag :: bytes

record guild_row =
  row_guild_id :: s32
  row_guild_name :: bytes
  row_motd :: bytes
  row_points :: clong
  row_level :: s16
  row_public :: bool
  row_ranks :: "rank_row list"
  row_members :: "member_row list"

definition load_guild :: "guild_row \<Rightarrow> guild_world \<Rightarrow> guild_world" where
  "load_guild r w =
     (let gid = row_guild_id r;
          w1 = snd (AddGuildToList gid (row_guild_name r) (row_motd r) (row_points r) (row_level r) (row_public r) w);
          w2 = fold (\<lambda>k. AddRankToGuild gid (ucast (row_id k - scast gid * 10)) (row_name k) (row_permissions k)
                           (row_maxpromote k) (row_maxremove k) (row_mindemote k)) (row_ranks r) w1
      in fold (\<lambda>m w. snd (AddMemberToGuild gid (row_first_name m) (row_avatar_id m) (row_rank m) (row_active m)
                             (row_contribution m) (row_tag m) w)) (row_members r) w2)"

definition LoadGuildsFromSQL :: "guild_row list \<Rightarrow> guild_world \<Rightarrow> guild_world" where
  "LoadGuildsFromSQL rows w =
     (let w1 = fold load_guild rows w
      in if m_NextGuild w1 = 0
         then let w2 = snd (AddGuildToList 0 (asc ''Earth And Beyond Staff'') (asc ''Welcome to the Staff Room'') 0 0 True w1);
                  w3 = AddRanksToGuild 0 (asc ''Admin,Server Dev,Content Dev,Head GM,Deputy GM,GM'') w2
              in case GuildFromId w3 0 of None \<Rightarrow> g_fault_if True w3 | Some i \<Rightarrow> SaveNewGuild (the_guild w3 i) w3
         else w1)"

definition FreeGuilds :: "guild_world \<Rightarrow> guild_world" where
  "FreeGuilds w = w\<lparr>m_GuildList := []\<rparr>"

end
