(* ===== verification/PlayerGuild.thy ===== *)
theory PlayerGuild
  imports GuildManager
begin

text \<open>
  The guild commands and packets of a player: \<^verbatim>\<open>server/src/PlayerGuild.cpp\<close>. \<open>me\<close> is the
  player whose method runs. A command line that the code advances a pointer in is a byte list;
  \<open>arg_of\<close> is the test at the start of most handlers for a blank and a non-empty rest. The
  buffers of 96 bytes on the stack, the list buffers and the buffer for rank names are checked;
  the scratch buffer of 10240 bytes that messages are built in is not.
\<close>

definition arg_of :: "bytes \<Rightarrow> bytes option" where
  "arg_of s = (case s of [] \<Rightarrow> None | c # r \<Rightarrow> if c = 32 \<and> r \<noteq> [] then Some r else None)"

definition is_prefix :: "string \<Rightarrow> bytes \<Rightarrow> bool" where
  "is_prefix s b \<longleftrightarrow> take (length s) b = asc s"

section \<open>Packets to the client\<close>

definition SendGuildSimpleSectorClient :: "nat \<Rightarrow> clong \<Rightarrow> bytes \<Rightarrow> guild_world \<Rightarrow> guild_world" where
  "SendGuildSimpleSectorClient p t OptionalParam w =
     g_fault_if (96 < 4 + 2 + length OptionalParam) (g_emit (GuildDialog p t OptionalParam) w)"

definition SendGuildRecruitConfirmSector :: "nat \<Rightarrow> nat \<Rightarrow> bytes \<Rightarrow> guild_world \<Rightarrow> guild_world" where
  "SendGuildRecruitConfirmSector me recruiter guild w =
     on_gpl me (\<lambda>x. x\<lparr>m_Recruiter := Some recruiter\<rparr>)
       (g_fault_if (96 < 2 + length (player_name w recruiter) + 2 + length guild)
         (g_emit (GuildRecruitConfirm me (player_name w recruiter) guild) w))"

definition member_line :: "Guild \<Rightarrow> GuildMember \<Rightarrow> bytes" where
  "member_line g m = gm_Name m @ [32] @ GetRankName g (gm_Rank m)"

fun member_lines :: "Guild \<Rightarrow> GuildMember list \<Rightarrow> bytes" where
  "member_lines g [] = []"
| "member_lines g [m] = member_line g m"
| "member_lines g (m # ms) = member_line g m @ [10] @ member_lines g ms"

text \<open>
  The list is formatted into one buffer and copied into a second: on the heap with 49 bytes for
  each member, or in the two parts of the scratch buffer, the first of 4096 bytes.
\<close>

definition list_overflows :: "nat \<Rightarrow> nat \<Rightarrow> bool" where
  "list_overflows count len \<longleftrightarrow>
     (if 4096 < 4 + count * (16 + 32 + 1) + 2
      then count * (16 + 32 + 1) < len + 1 \<or> 4 + count * (16 + 32 + 1) + 2 < 4 + (2 + len) + 2
      else 4096 < len + 1 \<or> 10240 - 4096 < 4 + (2 + len) + 2)"

definition HandleListAllGuildMembers :: "nat \<Rightarrow> guild_world \<Rightarrow> guild_world" where
  "HandleListAllGuildMembers me w =
     (case GuildFromId w (m_GuildID (gpl w me)) of None \<Rightarrow> w
      | Some i \<Rightarrow>
          let g = the_guild w i; members = member_lines g (Members g)
          in g_fault_if (list_overflows (length (Members g)) (length members)) (g_emit (GuildMemberList me members) w))"

definition HandleCurrentPermissions :: "nat \<Rightarrow> guild_world \<Rightarrow> guild_world" where
  "HandleCurrentPermissions me w =
     (case GuildFromId w (m_GuildID (gpl w me)) of None \<Rightarrow> w
      | Some i \<Rightarrow>
          let g = the_guild w i in
          case GetGuildMember g (player_name w me) of None \<Rightarrow> w
          | Some k \<Rightarrow>
              case GetRank g (gm_Rank (Members g ! k)) of None \<Rightarrow> w
              | Some r \<Rightarrow> g_emit (GuildPermissions me (PermissionFlags r) (MaxPromote r) (MaxRemove r) (MinDemote r)) w)"

definition SendGuildMOTD :: "nat \<Rightarrow> guild_world \<Rightarrow> guild_world" where
  "SendGuildMOTD me w =
     (case GuildFromId w (m_GuildID (gpl w me)) of None \<Rightarrow> w
      | Some i \<Rightarrow> SendGuildMessage me GUILD_MSG_MOTD (guild_MOTD (the_guild w i)) [] w)"

section \<open>Permissions\<close>

text \<open>A handler that tests \<^verbatim>\<open>CheckPermission\<close> and takes one of two branches.\<close>

definition if_permission :: "nat \<Rightarrow> nat \<Rightarrow> clong \<Rightarrow> (guild_world \<Rightarrow> guild_world) \<Rightarrow>
    (guild_world \<Rightarrow> guild_world) \<Rightarrow> guild_world \<Rightarrow> guild_world" where
  "if_permission me i flag yes no w =
     (case CheckPermission (the_guild w i) (player_name w me) flag of
        None \<Rightarrow> g_fault_if True w
      | Some b \<Rightarrow> if b then yes w else no w)"

definition HandleGuildMOTD :: "nat \<Rightarrow> bytes \<Rightarrow> guild_world \<Rightarrow> guild_world" where
  "HandleGuildMOTD me motd w =
     (case arg_of motd of None \<Rightarrow> SendGuildMessage me GUILD_MSG_INTERNAL_ERROR [] [] w
      | Some m \<Rightarrow>
          (case GuildFromId w (m_GuildID (gpl w me)) of None \<Rightarrow> w
           | Some i \<Rightarrow>
               if_permission me i PERMISSION_MESSAGE
                 (\<lambda>w. let w1 = g_fault_if (unterminated 512 m) (on_guild i (\<lambda>g. g\<lparr>guild_MOTD := strncpy_text 512 m\<rparr>) w);
                          g = the_guild w1 i;
                          w2 = SendGuildMessage me GUILD_MSG_CHANGED_GUILD_MESSAGE [] (guild_Name g) w1;
                          w3 = SendMessageToGuildMembers (guild_id g) (Some me) GUILD_MSG_MOTD m [] True w2
                      in SaveGuildInfo_msg g w3)
                 (SendGuildMessage me GUILD_MSG_NOT_HIGH_ENOUGH_TO_MESSAGE [] []) w))"

definition HandlePublicStats :: "nat \<Rightarrow> bytes \<Rightarrow> guild_world \<Rightarrow> guild_world" where
  "HandlePublicStats me data w =
     (case GuildFromId w (m_GuildID (gpl w me)) of None \<Rightarrow> w
      | Some i \<Rightarrow>
          let on = (data = asc '' on'') in
          if_permission me i (if on then PERMISSION_PUBLIC_STATUS else PERMISSION_PRIVATE_STATUS)
            (\<lambda>w. let w1 = on_guild i (\<lambda>g. g\<lparr>PublicStats := on\<rparr>) w; g = the_guild w1 i
                 in SaveGuildInfo_msg g (SendGuildMessage me
                      (if PublicStats g then GUILD_MSG_STATS_CAN_BE_SEEN else GUILD_MSG_STATS_CANT_BE_SEEN)
                      [] (guild_Name g) w1))
            (SendGuildMessage me GUILD_MSG_NOT_HIGH_ENOUGH_TO_PUBLIC [] []) w)"

section \<open>Promotion, demotion, removal\<close>

text \<open>
  The confirmed halves of promotion and demotion differ in the direction and the message. The
  rank that the promoted player's ship shows is set before the member's rank changes.
\<close>

definition change_rank :: "s32 \<Rightarrow> guild_msg \<Rightarrow> nat \<Rightarrow> bytes \<Rightarrow> guild_world \<Rightarrow> guild_world" where
  "change_rank step msg me name w =
     (case GuildFromId w (m_GuildID (gpl w me)) of None \<Rightarrow> w
      | Some i \<Rightarrow>
          let g = the_guild w i in
          case GetGuildMember g name of None \<Rightarrow> w
          | Some k \<Rightarrow>
              let member = Members g ! k in
              case GetRank g (gm_Rank member + step) of None \<Rightarrow> w
              | Some r \<Rightarrow>
                  let w1 = (case GetPlayerFromCharacterID w (gm_avatar_id member) of None \<Rightarrow> w
                            | Some p \<Rightarrow> SetupGuildInfo p (guild_id g) (gm_Rank member) False
                                          (SendGuildMessage p GUILD_MSG_NEW_RANK (gr_Name r) [] w));
                      w2 = SendGuildMessage me msg name (gr_Name r) w1;
                      member' = member\<lparr>gm_Rank := gm_Rank member + step\<rparr>;
                      w3 = on_guild i (\<lambda>g. g\<lparr>Members := (Members g)[k := member']\<rparr>) w2;
                      w4 = SaveGuildMember_msg (m_GuildID (gpl w3 me)) member' False w3
                  in HandleListAllGuildMembers me w4)"

text \<open>
  The first halves: the command asks the client to confirm when the caller's rank allows it.
\<close>

definition ask_member :: "guild_msg \<Rightarrow> (nat \<Rightarrow> nat \<Rightarrow> GuildMember \<Rightarrow> GuildRank \<Rightarrow> guild_world \<Rightarrow> guild_world) \<Rightarrow>
    nat \<Rightarrow> bytes \<Rightarrow> guild_world \<Rightarrow> guild_world" where
  "ask_member usage decide me name w =
     (case arg_of name of None \<Rightarrow> SendGuildMessage me usage [] [] w
      | Some n \<Rightarrow>
          (case GuildFromId w (m_GuildID (gpl w me)) of None \<Rightarrow> w
           | Some i \<Rightarrow>
               let g = the_guild w i in
               case (GetGuildMember g (player_name w me), GetGuildMember g n) of
                 (Some a, Some b) \<Rightarrow>
                   (case GetRank g (gm_Rank (Members g ! a)) of None \<Rightarrow> g_fault_if True w
                    | Some myrank \<Rightarrow> decide a b (Members g ! b) myrank w)
               | _ \<Rightarrow> SendGuildMessage me GUILD_MSG_PLAYER_NOT_FOUND n [] w))"

definition HandlePromoteMember :: "nat \<Rightarrow> bytes \<Rightarrow> bool \<Rightarrow> guild_world \<Rightarrow> guild_world" where
  "HandlePromoteMember me name confirmed w =
     (if confirmed then change_rank 1 GUILD_MSG_YOU_HAVE_PROMOTED me name w
      else ask_member GUILD_MSG_USAGE_PROMOTE (\<lambda>a b member myrank w.
             if a = b then SendGuildMessage me GUILD_MSG_CANT_PROMOTE_SELF [] [] w
             else if MaxPromote myrank - 1 \<le>s scast (gm_Rank member) \<or> PermissionFlags myrank AND PERMISSION_PROMOTE = 0
             then SendGuildMessage me GUILD_MSG_NOT_HIGH_ENOUGH_TO_PROMOTE (tl name) [] w
             else SendGuildSimpleSectorClient me GUILD_PROMOTE_CONFIRM (tl name) w) me name w)"

definition HandleDemoteMember :: "nat \<Rightarrow> bytes \<Rightarrow> bool \<Rightarrow> guild_world \<Rightarrow> guild_world" where
  "HandleDemoteMember me name confirmed w =
     (if confirmed then change_rank (-1) GUILD_MSG_YOU_HAVE_DEMOTED me name w
      else ask_member GUILD_MSG_USAGE_DEMOTE (\<lambda>a b member myrank w.
             if a = b then SendGuildMessage me GUILD_MSG_CANT_DEMOTE_SELF [] [] w
             else if scast (gm_Rank member) \<le>s MinDemote myrank - 1 \<or> PermissionFlags myrank AND PERMISSION_DEMOTE = 0
             then SendGuildMessage me GUILD_MSG_NOT_HIGH_ENOUGH_TO_DEMOTE (tl name) [] w
             else SendGuildSimpleSectorClient me GUILD_DEMOTE_CONFIRM (tl name) w) me name w)"

definition HandleRemoveMember :: "nat \<Rightarrow> bytes \<Rightarrow> bool \<Rightarrow> guild_world \<Rightarrow> guild_world" where
  "HandleRemoveMember me name confirmed w =
     (if confirmed
      then (case GuildFromId w (m_GuildID (gpl w me)) of None \<Rightarrow> w
            | Some i \<Rightarrow>
                let g = the_guild w i in
                case GetGuildMember g name of None \<Rightarrow> w
                | Some k \<Rightarrow>
                    let w1 = (case GetPlayerFromCharacterID w (gm_avatar_id (Members g ! k)) of None \<Rightarrow> w
                              | Some p \<Rightarrow> SendGuildMessage p GUILD_MSG_YOU_HAVE_BEEN_REMOVED (player_name w me) [] w);
                        w2 = SendGuildMessage me GUILD_MSG_YOU_HAVE_REMOVED name [] w1;
                        w3 = snd (RemoveMemberFromGuild (m_GuildID (gpl w2 me)) name w2)
                    in HandleListAllGuildMembers me w3)
      else ask_member GUILD_MSG_USAGE_REMOVE (\<lambda>a b member myrank w.
             if MaxPromote myrank - 1 \<le>s scast (gm_Rank member) \<or> PermissionFlags myrank AND PERMISSION_REMOVE = 0
             then SendGuildMessage me GUILD_MSG_NOT_HIGH_ENOUGH_TO_REMOVE (tl name) [] w
             else SendGuildSimpleSectorClient me GUILD_REMOVE_CONFIRM (tl name) w) me name w)"

section \<open>Leaving and disbanding\<close>

definition HandleLeaveGuild :: "nat \<Rightarrow> bool \<Rightarrow> guild_world \<Rightarrow> guild_world" where
  "HandleLeaveGuild me confirmed w =
     (if confirmed
      then (case GuildFromId w (m_GuildID (gpl w me)) of None \<Rightarrow> w
            | Some i \<Rightarrow>
                let g = the_guild w i;
                    w1 = SendGuildMessage me GUILD_MSG_YOU_HAVE_LEFT_GUILD [] (guild_Name g) w
                in snd (RemoveMemberFromGuild (guild_id g) (player_name w1 me) w1))
      else SendGuildSimpleSectorClient me GUILD_LEAVE_CONFIRM [] w)"

text \<open>
  A refused caller gets a dialog with the number of a message, not the message.
\<close>

definition HandleDisbandGuild :: "nat \<Rightarrow> bool \<Rightarrow> guild_world \<Rightarrow> guild_world" where
  "HandleDisbandGuild me confirmed w =
     (if confirmed
      then (case GuildFromId w (m_GuildID (gpl w me)) of None \<Rightarrow> w
            | Some i \<Rightarrow>
                if_permission me i PERMISSION_DISBAND
                  (\<lambda>w. let g = the_guild w i;
                           w1 = SendGuildMessage me GUILD_MSG_YOU_HAVE_DISBANDED [] (guild_Name g) w
                       in RemoveGuildFromList (guild_id g) (Some me) True w1)
                  (g_emit (GuildDialogMsg me GUILD_MSG_NOT_HIGH_ENOUGH_TO_DISBAND [])) w)
      else SendGuildSimpleSectorClient me GUILD_DISBAND_CONFIRM [] w)"

definition HandleGMDisbandGuild :: "nat \<Rightarrow> bytes \<Rightarrow> bool \<Rightarrow> guild_world \<Rightarrow> guild_world" where
  "HandleGMDisbandGuild me name confirmed w =
     (if confirmed
      then (case GuildFromName w name of None \<Rightarrow> w
            | Some i \<Rightarrow>
                RemoveGuildFromList (guild_id (the_guild w i)) (Some me) True
                  (SendGuildMessage me GUILD_GMMSG_GUILD_DISBANDED [] name w))
      else (case arg_of name of None \<Rightarrow> SendGuildMessage me GUILD_GMMSG_USAGE_DISBAND [] [] w
            | Some n \<Rightarrow>
                let n' = (if hd n = 34 then tl (butlast n) else n)
                in if GuildFromName w n' = None then SendGuildMessage me GUILD_MSG_INVALID_GUILD [] n' w
                   else SendGuildSimpleSectorClient me GUILD_GM_DISBAND_CONFIRM n' w))"

section \<open>Recruiting\<close>

definition HandleRecruitMember :: "nat \<Rightarrow> bytes \<Rightarrow> guild_world \<Rightarrow> guild_world" where
  "HandleRecruitMember me name w =
     (case GuildFromId w (m_GuildID (gpl w me)) of None \<Rightarrow> w
      | Some i \<Rightarrow>
          (case arg_of name of None \<Rightarrow> SendGuildMessage me GUILD_MSG_USAGE_RECRUIT [] [] w
           | Some n \<Rightarrow>
               if_permission me i PERMISSION_RECRUIT
                 (\<lambda>w. case GetPlayer_name w n of
                        None \<Rightarrow> SendGuildMessage me GUILD_MSG_PLAYER_NOT_FOUND n [] w
                      | Some recruit \<Rightarrow>
                          if m_GuildID (gpl w recruit) \<noteq> -1
                          then SendGuildMessage me GUILD_MSG_ALREADY_IN_A_GUILD [] [] w
                          else SendGuildRecruitConfirmSector recruit me (guild_Name (the_guild w i)) w)
                 (SendGuildMessage me GUILD_MSG_NOT_HIGH_ENOUGH_TO_RECRUIT [] []) w))"

text \<open>The result of \<^verbatim>\<open>AddMemberToGuild\<close> is not looked at.\<close>

definition HandleRecruitMember2 :: "nat \<Rightarrow> nat \<Rightarrow> bool \<Rightarrow> guild_world \<Rightarrow> guild_world" where
  "HandleRecruitMember2 me recruit accept w =
     (case GuildFromId w (m_GuildID (gpl w me)) of None \<Rightarrow> w
      | Some i \<Rightarrow>
          let g = the_guild w i in
          if accept
          then let w1 = SendMessageToGuildMembers (guild_id g) (Some me) GUILD_MSG_HAS_BEEN_RECRUITED
                          (player_name w recruit) (guild_Name g) True w;
                   w2 = snd (AddMemberToGuild (guild_id g) (player_name w1 recruit) (gp_CharacterID (gpl w1 recruit))
                               0 True 0 [] w1);
                   w3 = SendGuildMessage recruit GUILD_MSG_YOU_HAVE_JOINED_GUILD [] (guild_Name g) w2;
                   w4 = SetupGuildInfo recruit (guild_id g) 0 False w3;
                   w5 = g_emit (GuildAuxShip recruit) w4;
                   w6 = g_emit (SaveGuildId recruit (m_GuildID (gpl w5 recruit)) 0) w5
               in HandleListAllGuildMembers me w6
          else SendGuildMessage me GUILD_MSG_DECLINED_INVITATION (player_name w recruit) (guild_Name g) w)"

section \<open>Creating\<close>

text \<open>
  The loop over the group. It looks for pending guilds of the caller, not of the member it is at.
\<close>

fun founders_loop :: "nat \<Rightarrow> Group \<Rightarrow> nat list \<Rightarrow> nat option list \<Rightarrow> nat \<Rightarrow> guild_world \<Rightarrow>
    nat option list \<times> nat \<times> guild_world" where
  "founders_loop me g [] fs okcount w = (fs, okcount, w)"
| "founders_loop me g (x # xs) fs okcount w =
     (case (if 0 <s member_id g x then find_player (group_world w) (member_id g x) else None) of
        None \<Rightarrow> founders_loop me g xs fs okcount w
      | Some p \<Rightarrow>
          if m_GuildID (gpl w p) \<noteq> -1
          then (fs, okcount, SendGuildMessage me GUILD_MSG_ALL_GROUP_NOT_IN_A_GUILD [] [] w)
          else if gp_SectorID (gpl w me) \<noteq> gp_SectorID (gpl w p)
          then (fs, okcount, SendGuildMessage me GUILD_MSG_ABORT_PLAYER_LEFT_SECTOR (player_name w p) [] w)
          else if CheckIfFounderOfPendingGuild w (player_name w me)
          then (fs, okcount, SendGuildMessage me GUILD_MSG_ALREADY_A_FOUNDER (player_name w p) [] w)
          else founders_loop me g xs (fs[x := Some p]) (okcount + 1) w)"

definition may_create_guild :: "nat \<Rightarrow> guild_world \<Rightarrow> bool" where
  "may_create_guild me w \<longleftrightarrow>
     (let p = gpl w me; q = player (group_world w) me; gid = ucast (p_GroupID q)
      in GM \<le>s gp_AdminLevel p \<or>
         \<not> (gp_TotalLevel p <s 15 \<or> gp_Credits p < 10000 \<or> p_GroupID q = -1 \<or>
            \<not> IsGroupLeader (gi_Data (fst (p_GroupInfo q))) \<or>
            GetMemberCount (group_world w) (GetGroupFromID (group_world w) gid) < 6))"

definition HandleCreateGuild :: "nat \<Rightarrow> bytes \<Rightarrow> guild_world \<Rightarrow> guild_world" where
  "HandleCreateGuild me name w =
     (case arg_of name of
        None \<Rightarrow> SendGuildMessage me GUILD_MSG_INVALID_GUILD []
                  (if name \<noteq> [] \<and> hd name = 32 then tl name else name) w
      | Some n \<Rightarrow>
          if m_GuildID (gpl w me) \<noteq> -1 then SendGuildMessage me GUILD_MSG_INVALID_COMMAND [] [] w
          else if \<not> may_create_guild me w
          then g_emit (GuildVaMessage me ''You must have 10000 credits, be at least overall level 15 and leader of a full group to create a guild!'') w
          else if GuildFromName_pending w n True \<noteq> None then SendGuildMessage me GUILD_MSG_GUILD_ALREADY_CREATING [] [] w
          else if GuildFromName_pending w n False \<noteq> None then SendGuildMessage me GUILD_MSG_GUILD_NAME_IN_USE [] [] w
          else let fs0 = [Some me, None, None, None, None, None];
                   gid = ucast (p_GroupID (player (group_world w) me));
                   (fs, okcount, w1) =
                     (case Option.bind (GetGroupFromID (group_world w) gid) (group_at (group_world w)) of
                        None \<Rightarrow> (fs0, 0, w)
                      | Some g \<Rightarrow> founders_loop me g [0..<6] fs0 0 w)
               in if GM \<le>s gp_AdminLevel (gpl w1 me) \<or> okcount = 6
                  then CreateGuild fs n
                         (fold (\<lambda>f w. case f of None \<Rightarrow> w
                                      | Some p \<Rightarrow> SendGuildSimpleSectorClient p GUILD_CREATE_CONFIRM n w) fs w1)
                  else w1)"

section \<open>Commands\<close>

definition HandleGuildCommand :: "nat \<Rightarrow> bytes option \<Rightarrow> guild_world \<Rightarrow> guild_world" where
  "HandleGuildCommand me param w =
     (let p = (case param of None \<Rightarrow> [] | Some s \<Rightarrow> s) in
      if p = [] then SendGuildMessage me GUILD_MSG_AVAILABLE_COMMANDS [] [] w
      else if is_prefix ''create'' p then HandleCreateGuild me (drop 6 p) w
      else if m_GuildID (gpl w me) = -1 then SendGuildMessage me GUILD_MSG_NOT_IN_A_GUILD [] [] w
      else if is_prefix ''list all'' p then HandleCurrentPermissions me (HandleListAllGuildMembers me w)
      else if is_prefix ''message'' p then HandleGuildMOTD me (drop 7 p) w
      else if is_prefix ''promote'' p then HandlePromoteMember me (drop 7 p) False w
      else if is_prefix ''demote'' p then HandleDemoteMember me (drop 6 p) False w
      else if is_prefix ''remove'' p then HandleRemoveMember me (drop 6 p) False w
      else if is_prefix ''leave'' p then HandleLeaveGuild me False w
      else if is_prefix ''disband'' p then HandleDisbandGuild me False w
      else if is_prefix ''recruit'' p then HandleRecruitMember me (drop 7 p) w
      else if is_prefix ''publicstats'' p then HandlePublicStats me (drop 11 p) w
      else if is_prefix ''stats'' p \<or> is_prefix ''tag'' p \<or> is_prefix ''contributions'' p
      then SendGuildMessage me GUILD_MSG_NOT_IMPLEMENTED [] [] w
      else SendGuildMessage me GUILD_MSG_INVALID_COMMAND [] [] w)"

definition HandleGuildGMCommand :: "nat \<Rightarrow> bytes option \<Rightarrow> guild_world \<Rightarrow> guild_world" where
  "HandleGuildGMCommand me param w =
     (let p = (case param of None \<Rightarrow> [] | Some s \<Rightarrow> s) in
      if p = [] then SendGuildMessage me GUILD_MSG_AVAILABLE_COMMANDS [] [] w
      else if is_prefix ''disband'' p then HandleGMDisbandGuild me (drop 7 p) False w
      else SendGuildMessage me GUILD_MSG_INVALID_COMMAND [] [] w)"

section \<open>Packets from the client\<close>

definition rank_names_size :: "bytes list \<Rightarrow> nat" where
  "rank_names_size names = 4 + sum_list (map (\<lambda>n. 2 + length n + 4) names)"

definition HandleGuildRankNamesRequestClient :: "nat \<Rightarrow> guild_world \<Rightarrow> guild_world" where
  "HandleGuildRankNamesRequestClient me w =
     (case GuildFromId w (m_GuildID (gpl w me)) of None \<Rightarrow> w
      | Some i \<Rightarrow>
          let names = map (\<lambda>k. GetRankName (the_guild w i) (of_nat k)) [0..<10]
          in g_fault_if (10 * 68 + 4 < rank_names_size names) (g_emit (GuildRankNames me names) w))"

text \<open>
  The answer to a dialog. The struct the packet is read as has two fields of type
  \<^verbatim>\<open>long\<close>, of eight bytes each, then a short and the name.
\<close>

record GuildSimpleClientSectorPacket =
  gs_type :: clong
  gs_gameid :: clong
  gs_length :: s16
  optionalparam :: bytes

definition read_simple_packet :: "bytes \<Rightarrow> GuildSimpleClientSectorPacket option" where
  "read_simple_packet data = do {
     t \<leftarrow> peek data 0 8;
     gid \<leftarrow> peek data 8 8;
     len \<leftarrow> peek data 16 2;
     if 0 \<in> set (drop 18 data)
     then Some \<lparr>gs_type = le_word t, gs_gameid = le_word gid, gs_length = le_word len,
                optionalparam = cstr_of (drop 18 data)\<rparr>
     else None
   }"

definition guild_confirmation :: "nat \<Rightarrow> clong \<Rightarrow> bytes \<Rightarrow> guild_world \<Rightarrow> guild_world" where
  "guild_confirmation me t name w =
     (if t = GUILD_PROMOTE_CONFIRM + 1 then HandlePromoteMember me name True w
      else if t = GUILD_DEMOTE_CONFIRM + 1 then HandleDemoteMember me name True w
      else if t = GUILD_REMOVE_CONFIRM + 1 then HandleRemoveMember me name True w
      else if t = GUILD_LEAVE_CONFIRM + 1 then HandleLeaveGuild me True w
      else if t = GUILD_DISBAND_CONFIRM + 1 then HandleDisbandGuild me True w
      else if t = GUILD_GM_DISBAND_CONFIRM + 1 then HandleGMDisbandGuild me name True w
      else w)"

definition HandleGuildSimpleClientSector :: "nat \<Rightarrow> bytes \<Rightarrow> guild_world \<Rightarrow> guild_world" where
  "HandleGuildSimpleClientSector me data w =
     (case read_simple_packet data of None \<Rightarrow> g_fault_if True w
      | Some r \<Rightarrow> guild_confirmation me (gs_type r) (optionalparam r) w)"

text \<open>
  The answer of a founder: four bytes, the length of the name as a short, the name, one byte. The
  zero at the given length is written into an array of 64.
\<close>

definition HandleGuildLeaderAcceptClient :: "nat \<Rightarrow> bytes \<Rightarrow> guild_world \<Rightarrow> guild_world" where
  "HandleGuildLeaderAcceptClient me data w =
     (case peek data 4 2 of None \<Rightarrow> g_fault_if True w
      | Some lb \<Rightarrow>
          let len = sint (le_word lb :: s16) in
          if len < 0 \<or> 64 \<le> len \<or> int (length data) \<le> 6 + len then g_fault_if True w
          else let guildname = cstr_of (take (nat len) (drop 6 data))
               in if data ! (6 + nat len) \<noteq> 0
                  then snd (CheckGuildCreationAccepted guildname (player_name w me) w)
                  else (case GuildFromName_pending w guildname True of None \<Rightarrow> w
                        | Some i \<Rightarrow>
                            let g = the_guild w i
                            in RemoveGuildFromList (guild_id g) None False
                                 (SendMessageToFounders g GUILD_MSG_GUILD_FORMATION_ABORTED_BY (player_name w me)
                                    guildname w)))"

text \<open>
  The answer of a recruit: read as a \<^verbatim>\<open>long\<close> and a byte, so the byte is the ninth. The recruiter
  is never set before the first invitation.
\<close>

definition HandleRecruitAcceptClient :: "nat \<Rightarrow> bytes \<Rightarrow> guild_world \<Rightarrow> guild_world" where
  "HandleRecruitAcceptClient me data w =
     (case m_Recruiter (gpl w me) of None \<Rightarrow> g_fault_if True w
      | Some r \<Rightarrow>
          if 8 < length data then HandleRecruitMember2 r me (data ! 8 \<noteq> 0) w else g_fault_if True w)"

end
