(* ===== verification/GuildInvariants.thy ===== *)
theory GuildInvariants
  imports PlayerGuild
begin

text \<open>
  The invariant of the guilds over all commands and packets, and the contract of the list of
  named members that the lookups, additions and removals rest on.
\<close>

section \<open>A list of named entries\<close>

text \<open>
  What the guild code relies on: a lookup by name that finds the first entry, adding at the end,
  and removing by position.
\<close>

locale roster =
  fixes entries :: "'g \<Rightarrow> 'm list"
    and name_of :: "'m \<Rightarrow> 'n"
    and lookup :: "'g \<Rightarrow> 'n \<Rightarrow> nat option"
    and enter :: "'m \<Rightarrow> 'g \<Rightarrow> 'g"
    and delete :: "nat \<Rightarrow> 'g \<Rightarrow> 'g"
  assumes lookup_first: "lookup g n = first_index (\<lambda>m. name_of m = n) (entries g)"
    and entries_enter: "entries (enter m g) = entries g @ [m]"
    and entries_delete: "entries (delete k g) = take k (entries g) @ drop (Suc k) (entries g)"
begin

definition names :: "'g \<Rightarrow> 'n list" where
  "names g = map name_of (entries g)"

lemma lookup_None: "lookup g n = None \<longleftrightarrow> n \<notin> set (names g)"
  by (auto simp: lookup_first first_index_None names_def)

lemma lookup_Some: "lookup g n = Some k \<Longrightarrow> k < length (entries g) \<and> name_of (entries g ! k) = n"
  using first_index_Some by (fastforce simp: lookup_first)

lemma distinct_enter:
  assumes "distinct (names g)" and "lookup g (name_of m) = None"
  shows "distinct (names (enter m g))"
  using assms by (simp add: names_def entries_enter lookup_None [unfolded names_def])

lemma names_delete: "names (delete k g) = take k (names g) @ drop (Suc k) (names g)"
  by (simp add: names_def entries_delete take_map drop_map)

lemma distinct_delete:
  assumes "distinct (names g)"
  shows "distinct (names (delete k g))"
proof -
  have "set (take k (names g)) \<inter> set (drop (Suc k) (names g)) = {}"
    by (rule set_take_disj_set_drop_if_distinct) (simp_all add: assms)
  then show ?thesis using assms by (simp add: names_delete)
qed

lemma lookup_deleted:
  assumes "distinct (names g)" and k: "lookup g n = Some k"
  shows "lookup (delete k g) n = None"
proof -
  from lookup_Some [OF k] have len: "k < length (names g)" and nth: "names g ! k = n"
    by (auto simp: names_def)
  have split: "names g = take k (names g) @ n # drop (Suc k) (names g)"
    using id_take_nth_drop [OF len] nth by simp
  then have "distinct (take k (names g) @ n # drop (Suc k) (names g))" using assms by simp
  then show ?thesis by (simp add: lookup_None names_delete)
qed

lemma names_delete_others:
  assumes "distinct (names g)" and "lookup g n = Some k"
  shows "set (names (delete k g)) = set (names g) - {n}"
proof -
  from lookup_Some [OF assms(2)] have len: "k < length (names g)" and nth: "names g ! k = n"
    by (auto simp: names_def)
  have split: "names g = take k (names g) @ n # drop (Suc k) (names g)"
    using id_take_nth_drop [OF len] nth by simp
  then have d: "distinct (take k (names g) @ n # drop (Suc k) (names g))" using assms(1) by simp
  have "set (names g) = set (take k (names g)) \<union> {n} \<union> set (drop (Suc k) (names g))"
    by (subst split) auto
  then show ?thesis using d by (auto simp: names_delete)
qed

end

definition enter_member :: "GuildMember \<Rightarrow> Guild \<Rightarrow> Guild" where
  "enter_member m g = g\<lparr>Members := Members g @ [m]\<rparr>"

definition delete_member :: "nat \<Rightarrow> Guild \<Rightarrow> Guild" where
  "delete_member k g = g\<lparr>Members := take k (Members g) @ drop (Suc k) (Members g)\<rparr>"

interpretation gl: roster Members gm_Name GetMemberIndex enter_member delete_member
  by unfold_locales (simp_all add: GetMemberIndex_def enter_member_def delete_member_def)

lemma gl_names [simp]: "gl.names g = map gm_Name (Members g)"
  by (simp add: gl.names_def)

lemma GetGuildMember_index: "GetGuildMember = GetMemberIndex"
  by (simp add: fun_eq_iff GetGuildMember_def GetMemberIndex_def)

section \<open>The invariant\<close>

lemma rank_ok_unat:
  assumes "rank_ok r"
  shows "unat r < MAX_GUILD_RANKS"
proof -
  have "0 \<le> sint r" "sint r < 10"
    using assms by (simp_all add: rank_ok_def MAX_GUILD_RANKS_def word_sle_eq word_sless_alt)
  then have "uint r = sint r" by (simp add: uint_sint take_bit_int_eq_self)
  then show ?thesis using \<open>sint r < 10\<close> by (simp add: MAX_GUILD_RANKS_def unat_eq_nat_uint)
qed

definition guild_ok :: "Guild \<Rightarrow> bool" where
  "guild_ok g \<longleftrightarrow> length (Ranks g) = MAX_GUILD_RANKS \<and> length (Members g) \<le> MAX_GUILD_MEMBERS \<and>
     distinct (map gm_Name (Members g)) \<and> list_all (\<lambda>m. rank_ok (gm_Rank m)) (Members g)"

definition guild_entry_ok :: "Guild option \<Rightarrow> bool" where
  "guild_entry_ok e = (case e of None \<Rightarrow> True | Some g \<Rightarrow> guild_ok g)"

lemma guild_entry_ok_simps [simp]: "guild_entry_ok None" "guild_entry_ok (Some g) = guild_ok g"
  by (simp_all add: guild_entry_ok_def)

definition guild_inv :: "guild_world \<Rightarrow> bool" where
  "guild_inv w \<longleftrightarrow> guild_fault w \<or> list_all guild_entry_ok (m_GuildList w)"

named_theorems guild_invs \<open>operations keep the invariant of the guilds\<close>

lemma guild_inv_at:
  "guild_inv w \<Longrightarrow> \<not> guild_fault w \<Longrightarrow> i < length (m_GuildList w) \<Longrightarrow> m_GuildList w ! i = Some g \<Longrightarrow> guild_ok g"
  by (force simp: guild_inv_def list_all_length)

lemma guild_inv_same:
  "m_GuildList w' = m_GuildList w \<Longrightarrow> guild_fault w' = guild_fault w \<Longrightarrow> guild_inv w' = guild_inv w"
  by (simp add: guild_inv_def)

lemma guild_inv_emit [guild_invs]: "guild_inv w \<Longrightarrow> guild_inv (g_emit e w)"
  by (simp add: guild_inv_def g_emit_def)

lemma guild_inv_fault [guild_invs]: "guild_inv w \<Longrightarrow> guild_inv (g_fault_if b w)"
  by (simp add: guild_inv_def g_fault_if_def)

lemma guild_inv_on_gpl [guild_invs]: "guild_inv w \<Longrightarrow> guild_inv (on_gpl p f w)"
  by (simp add: guild_inv_def on_gpl_def)

lemma guild_inv_fold [guild_invs]:
  "(\<And>x w. guild_inv w \<Longrightarrow> guild_inv (f x w)) \<Longrightarrow> guild_inv w \<Longrightarrow> guild_inv (fold f xs w)"
  by (induction xs arbitrary: w) auto

lemma guild_inv_on_guild:
  assumes "guild_inv w" and "\<And>g. m_GuildList w ! i = Some g \<Longrightarrow> guild_ok g \<Longrightarrow> guild_ok (f g)"
  shows "guild_inv (on_guild i f w)"
proof (cases "guild_fault w")
  case False
  with assms(1) have all: "list_all guild_entry_ok (m_GuildList w)" by (simp add: guild_inv_def)
  have "list_all guild_entry_ok ((m_GuildList w)[i := map_option f (m_GuildList w ! i)])"
  proof (rule list_all_updateI [OF all])
    assume "i < length (m_GuildList w)"
    then have "guild_entry_ok (m_GuildList w ! i)" using all by (simp add: list_all_length)
    then show "guild_entry_ok (map_option f (m_GuildList w ! i))"
      using assms(2) by (auto simp: guild_entry_ok_def split: option.splits)
  qed
  then show ?thesis by (simp add: guild_inv_def on_guild_def)
qed (simp add: guild_inv_def on_guild_def)

lemma hit_index:
  "first_index (guild_hit P) gs = Some i \<Longrightarrow> i < length gs \<and> (\<exists>g. gs ! i = Some g \<and> P g)"
  using first_index_Some [of "guild_hit P" gs i] by (auto simp: guild_hit_def split: option.splits)

lemma GuildFromId_Some:
  "GuildFromId w gid = Some i \<Longrightarrow> i < length (m_GuildList w) \<and> (\<exists>g. m_GuildList w ! i = Some g \<and> guild_id g = gid)"
  unfolding GuildFromId_def by (drule hit_index) auto

lemma GuildFromName_Some:
  "GuildFromName w name = Some i \<Longrightarrow>
   i < length (m_GuildList w) \<and> (\<exists>g. m_GuildList w ! i = Some g \<and> guild_Name g = name)"
  unfolding GuildFromName_def by (drule hit_index) auto

lemma GuildFromName_pending_Some:
  "GuildFromName_pending w name p = Some i \<Longrightarrow>
   i < length (m_GuildList w) \<and> (\<exists>g. m_GuildList w ! i = Some g \<and> guild_Name g = name \<and> pending g = p)"
  unfolding GuildFromName_pending_def by (drule hit_index) auto

lemma guild_inv_SendGuildMessage [guild_invs]: "guild_inv w \<Longrightarrow> guild_inv (SendGuildMessage p t a b w)"
  by (simp add: SendGuildMessage_def Let_def guild_invs)

lemma guild_inv_founders_msg [guild_invs]: "guild_inv w \<Longrightarrow> guild_inv (SendMessageToFounders g t a b w)"
  unfolding SendMessageToFounders_def by (rule guild_invs) (auto split: option.splits intro: guild_invs)

lemma guild_inv_members_msg [guild_invs]: "guild_inv w \<Longrightarrow> guild_inv (SendMessageToGuildMembers gid og t a b c w)"
  unfolding SendMessageToGuildMembers_def by (rule guild_invs) (auto intro: guild_invs)

lemma guild_inv_chat [guild_invs]: "guild_inv w \<Longrightarrow> guild_inv (GuildChat gid m c w)"
  by (auto simp: GuildChat_def split: option.splits intro!: guild_invs)

lemma guild_inv_saves [guild_invs]:
  "guild_inv w \<Longrightarrow> guild_inv (SaveGuildInfo_msg g w)"
  "guild_inv w \<Longrightarrow> guild_inv (SaveGuildMember_msg gid m r w)"
  "guild_inv w \<Longrightarrow> guild_inv (SaveNewGuild g w)"
  by (auto simp: SaveGuildInfo_msg_def SaveGuildMember_msg_def SaveNewGuild_def Let_def intro!: guild_invs)

lemma default_ranks_ok: "length (map default_rank [0..<MAX_GUILD_RANKS]) = MAX_GUILD_RANKS"
  by simp

lemma guild_inv_AddGuildToList [guild_invs]:
  "guild_inv w \<Longrightarrow> guild_inv (snd (AddGuildToList gid n m a b c w))"
  by (simp add: AddGuildToList_def Let_def guild_inv_def g_fault_if_def guild_ok_def)

lemma guild_inv_remove_loop: "guild_inv w \<Longrightarrow> guild_inv (remove_guild_loop is gid og d w)"
proof (induction "is" gid og d w rule: remove_guild_loop.induct)
  case (2 i "is" gid origin disbanded w)
  have "guild_inv (w\<lparr>m_GuildList := (m_GuildList w)[i := None]\<rparr>)"
    using 2(3) by (auto simp: guild_inv_def intro!: list_all_updateI)
  then show ?case using 2 by (simp add: Let_def guild_invs)
qed simp

lemma guild_inv_RemoveGuildFromList [guild_invs]: "guild_inv w \<Longrightarrow> guild_inv (RemoveGuildFromList gid og d w)"
  by (simp add: RemoveGuildFromList_def guild_inv_remove_loop)

lemma guild_inv_AddRankToGuild [guild_invs]:
  "guild_inv w \<Longrightarrow> guild_inv (AddRankToGuild gid r n f a b c w)"
  by (auto simp: AddRankToGuild_def guild_ok_def split: option.splits
      intro!: guild_inv_fault guild_inv_on_guild)

lemma ranks_loop_length: "ranks_loop cs i to rs = Some rs' \<Longrightarrow> length rs' = length rs"
  by (induction cs i to rs rule: ranks_loop.induct) (auto simp: Let_def split: if_splits nat.splits)

lemma guild_inv_AddRanksToGuild [guild_invs]:
  assumes "guild_inv w"
  shows "guild_inv (AddRanksToGuild gid r w)"
proof (cases "GuildFromId w gid")
  case (Some i)
  from GuildFromId_Some [OF Some] obtain g where g: "m_GuildList w ! i = Some g" by blast
  show ?thesis using assms Some g
    by (auto simp: AddRanksToGuild_def guild_ok_def split: option.splits
        intro!: guild_inv_fault guild_inv_on_guild dest: ranks_loop_length)
qed (simp add: AddRanksToGuild_def assms)

lemma guild_ok_enter:
  assumes "guild_ok g" "length (Members g) < MAX_GUILD_MEMBERS" "GetMemberIndex g (gm_Name m) = None" "rank_ok (gm_Rank m)"
  shows "guild_ok (enter_member m g)"
  using assms gl.distinct_enter [of g m] by (simp add: guild_ok_def enter_member_def)

lemma guild_ok_delete: "guild_ok g \<Longrightarrow> guild_ok (delete_member k g)"
  using gl.distinct_delete [of g k]
  by (auto simp: guild_ok_def delete_member_def list_all_iff dest: in_set_takeD in_set_dropD)

lemma guild_inv_AddMember:
  assumes w: "guild_inv w" and r: "rank_ok rank"
  shows "guild_inv (snd (AddMemberToGuild gid n av rank a c t w))"
proof (cases "GuildFromId w gid")
  case (Some i)
  from GuildFromId_Some [OF Some] obtain g where i: "i < length (m_GuildList w)" and g: "m_GuildList w ! i = Some g"
    by blast
  define m where "m = \<lparr>gm_Name = strncpy_text 16 n, gm_Rank = rank, gm_Contribution = c, gm_Active = a,
    gm_Tag = strncpy_text 32 t, gm_avatar_id = av\<rparr>"
  have en: "(\<lambda>g. g\<lparr>Members := Members g @ [m]\<rparr>) = enter_member m" by (simp add: fun_eq_iff enter_member_def)
  show ?thesis
  proof (cases "unterminated 16 n")
    case True
    then show ?thesis using w Some
      by (auto simp: AddMemberToGuild_def Let_def guild_inv_def g_fault_if_def)
  next
    case False
    then have n: "gm_Name m = n" by (simp add: m_def strncpy_text_def unterminated_def)
    have rm: "gm_Rank m = rank" by (simp add: m_def)
    have ok: "guild_inv (on_guild i (enter_member m) w)"
      if "length (Members g) < MAX_GUILD_MEMBERS" "GetMemberIndex g n = None"
      by (rule guild_inv_on_guild [OF w]) (use that g n rm r in \<open>auto intro: guild_ok_enter\<close>)
    show ?thesis
      unfolding AddMemberToGuild_def Some Let_def m_def [symmetric] en option.case g option.sel
      using ok w by (simp add: guild_inv_fault)
  qed
qed (simp add: AddMemberToGuild_def w)

lemma guild_inv_RemoveMember [guild_invs]:
  assumes w: "guild_inv w"
  shows "guild_inv (snd (RemoveMemberFromGuild gid n w))"
proof -
  have de: "(\<lambda>g. g\<lparr>Members := take k (Members g) @ drop (Suc k) (Members g)\<rparr>) = delete_member k" for k
    by (simp add: fun_eq_iff delete_member_def)
  show ?thesis
    by (auto simp: RemoveMemberFromGuild_def Let_def de split: option.splits
        intro!: guild_invs guild_inv_on_guild guild_ok_delete w)
qed

lemma guild_inv_SetupGuildInfo [guild_invs]: "guild_inv w \<Longrightarrow> guild_inv (SetupGuildInfo p gid r False w)"
  by (auto simp: SetupGuildInfo_def Let_def split: option.splits intro!: guild_invs)

lemma rank_ok_founder: "rank_ok 9" "rank_ok 5" "rank_ok 0"
  by (simp_all add: rank_ok_def MAX_GUILD_RANKS_def word_sle_eq word_sless_alt)

lemma guild_inv_CreateGuild [guild_invs]:
  assumes "guild_inv w"
  shows "guild_inv (CreateGuild fs n w)"
proof -
  obtain gid w1 where e: "AddGuildToList (-1) n (take 79 (asc ''Welcome to '' @ n)) 0 0 True w = (gid, w1)" by force
  then have "guild_inv w1" using guild_inv_AddGuildToList [OF assms] by (metis snd_conv)
  then have "guild_inv (fold (\<lambda>i w. case fs ! i of None \<Rightarrow> w
      | Some p \<Rightarrow> snd (AddMemberToGuild gid (player_name w p) (gp_CharacterID (gpl w p))
                         (if i = 0 then 9 else 5) False 0 [] w)) [0..<6] w1)"
    by (rule guild_inv_fold [rotated]) (auto split: option.splits intro!: guild_inv_AddMember rank_ok_founder)
  then show ?thesis by (simp only: CreateGuild_def Let_def e prod.case)
qed

lemma guild_inv_founders_online:
  "guild_inv w \<Longrightarrow> guild_inv (snd (snd (founders_online g ms fs w)))"
  by (induction g ms fs w rule: founders_online.induct) (auto simp: guild_invs split: option.splits)

lemma guild_inv_found_guild [guild_invs]:
  assumes "guild_inv w"
  shows "guild_inv (found_guild i fs w)"
proof -
  have "guild_inv (on_guild i (\<lambda>g. g\<lparr>guild_id := m_NextGuild w, pending := False\<rparr>) (w\<lparr>m_NextGuild := m_NextGuild w + 1\<rparr>))"
    by (rule guild_inv_on_guild) (use assms in \<open>auto simp: guild_inv_def guild_ok_def\<close>)
  then show ?thesis
    unfolding found_guild_def Let_def by (intro guild_invs) (auto intro!: guild_invs)
qed

lemma guild_ok_update_member:
  assumes "guild_ok g" and "k < length (Members g)" and "gm_Name m = gm_Name (Members g ! k)" and "rank_ok (gm_Rank m)"
  shows "guild_ok (g\<lparr>Members := (Members g)[k := m]\<rparr>)"
proof -
  have "map gm_Name ((Members g)[k := m]) = map gm_Name (Members g)"
    using assms by (simp add: map_update list_update_same_conv)
  moreover have "list_all (\<lambda>m. rank_ok (gm_Rank m)) ((Members g)[k := m])"
    using assms by (intro list_all_updateI) (simp_all add: guild_ok_def)
  ultimately show ?thesis using assms(1) by (simp add: guild_ok_def)
qed

lemma guild_inv_accept_mark:
  assumes "guild_inv w" and k: "GetGuildMember (the_guild w i) n = Some k" and i: "m_GuildList w ! i = Some g"
  shows "guild_inv (on_guild i (\<lambda>g. g\<lparr>Members := (Members g)[k := (Members g ! k)\<lparr>gm_Active := a\<rparr>]\<rparr>) w)"
proof (rule guild_inv_on_guild [OF assms(1)])
  fix x assume x: "m_GuildList w ! i = Some x" and ok: "guild_ok x"
  have kl: "k < length (Members x)"
    using k x gl.lookup_Some [of x n k] by (simp add: GetGuildMember_index)
  have "rank_ok (gm_Rank (Members x ! k))" using ok kl by (simp add: guild_ok_def list_all_length)
  with ok kl show "guild_ok (x\<lparr>Members := (Members x)[k := (Members x ! k)\<lparr>gm_Active := a\<rparr>]\<rparr>)"
    by (intro guild_ok_update_member) simp_all
qed

lemma guild_inv_CheckGuildCreationAccepted [guild_invs]:
  assumes w: "guild_inv w"
  shows "guild_inv (snd (CheckGuildCreationAccepted n p w))"
proof (cases "GuildFromName_pending w n True")
  case (Some i)
  from GuildFromName_pending_Some [OF Some] obtain g where i: "m_GuildList w ! i = Some g" by blast
  show ?thesis
  proof (cases "GetGuildMember (the_guild w i) p")
    case k: (Some k)
    define w1 where "w1 = on_guild i (\<lambda>g. g\<lparr>Members := (Members g)[k := (Members g ! k)\<lparr>gm_Active := True\<rparr>]\<rparr>) w"
    obtain ab fs w2 where f: "founders_online (the_guild w1 i) (Members (the_guild w1 i)) [] w1 = (ab, fs, w2)"
      using prod_cases3 by blast
    have w1: "guild_inv w1" unfolding w1_def by (rule guild_inv_accept_mark [OF w k i])
    then have "guild_inv w2" using guild_inv_founders_online [OF w1] f by (metis snd_conv)
    then show ?thesis
      unfolding CheckGuildCreationAccepted_def Some option.case k Let_def w1_def [symmetric] f prod.case
      using w1 by (auto intro!: guild_invs)
  qed (simp add: CheckGuildCreationAccepted_def Some w)
qed (simp add: CheckGuildCreationAccepted_def w)

lemma guild_inv_list [guild_invs]:
  "guild_inv w \<Longrightarrow> guild_inv (HandleListAllGuildMembers me w)"
  "guild_inv w \<Longrightarrow> guild_inv (HandleCurrentPermissions me w)"
  "guild_inv w \<Longrightarrow> guild_inv (SendGuildMOTD me w)"
  "guild_inv w \<Longrightarrow> guild_inv (SendGuildSimpleSectorClient me t op w)"
  "guild_inv w \<Longrightarrow> guild_inv (SendGuildRecruitConfirmSector me r op w)"
  "guild_inv w \<Longrightarrow> guild_inv (HandleGuildRankNamesRequestClient me w)"
  by (auto simp: HandleListAllGuildMembers_def HandleCurrentPermissions_def SendGuildMOTD_def Let_def
      SendGuildSimpleSectorClient_def SendGuildRecruitConfirmSector_def HandleGuildRankNamesRequestClient_def
      split: option.splits intro!: guild_invs)

lemma guild_inv_if_permission:
  assumes "guild_inv w" and "guild_inv w \<Longrightarrow> guild_inv (yes w)" and "guild_inv w \<Longrightarrow> guild_inv (no w)"
  shows "guild_inv (if_permission me i flag yes no w)"
  using assms by (auto simp: if_permission_def guild_inv_fault split: option.splits)

lemma guild_inv_on_info:
  "guild_inv w \<Longrightarrow> guild_inv (on_guild i (\<lambda>g. g\<lparr>guild_MOTD := m\<rparr>) w)"
  "guild_inv w \<Longrightarrow> guild_inv (on_guild i (\<lambda>g. g\<lparr>PublicStats := b\<rparr>) w)"
  by (rule guild_inv_on_guild; simp add: guild_ok_def)+

lemma guild_inv_HandleGuildMOTD [guild_invs]: "guild_inv w \<Longrightarrow> guild_inv (HandleGuildMOTD me m w)"
  by (auto simp: HandleGuildMOTD_def Let_def split: option.splits
      intro!: guild_inv_if_permission guild_invs guild_inv_on_info)

lemma guild_inv_HandlePublicStats [guild_invs]: "guild_inv w \<Longrightarrow> guild_inv (HandlePublicStats me m w)"
  by (auto simp: HandlePublicStats_def Let_def split: option.splits
      intro!: guild_inv_if_permission guild_invs guild_inv_on_info)

text \<open>What the messages leave unchanged.\<close>

lemma messages_keep_guilds [simp]:
  "m_GuildList (SendGuildMessage p t a b w) = m_GuildList w"
  "guild_fault (SendGuildMessage p t a b w) = guild_fault w"
  "m_GuildList (g_emit e w) = m_GuildList w"
  "m_GuildList (on_gpl p f w) = m_GuildList w"
  "m_GuildList (g_fault_if c w) = m_GuildList w"
  by (simp_all add: SendGuildMessage_def Let_def g_emit_def on_gpl_def g_fault_if_def)

lemma SetupGuildInfo_keeps_guilds [simp]: "m_GuildList (SetupGuildInfo p gid r False w) = m_GuildList w"
  by (simp add: SetupGuildInfo_def Let_def split: option.splits)

lemma guild_inv_change_rank [guild_invs]:
  assumes w: "guild_inv w"
  shows "guild_inv (change_rank d msg me n w)"
proof (cases "GuildFromId w (m_GuildID (gpl w me))")
  case (Some i)
  from GuildFromId_Some [OF Some] obtain g where g: "m_GuildList w ! i = Some g" by blast
  show ?thesis
  proof (cases "GetGuildMember g n")
    case k: (Some k)
    then have kl: "k < length (Members g)" using gl.lookup_Some by (simp add: GetGuildMember_index)
    show ?thesis
    proof (cases "GetRank g (gm_Rank (Members g ! k) + d)")
      case r: (Some r)
      then have rk: "rank_ok (gm_Rank (Members g ! k) + d)" by (simp add: GetRank_def split: if_splits)
      define w2 where "w2 = SendGuildMessage me msg n (gr_Name r)
        (case GetPlayerFromCharacterID w (gm_avatar_id (Members g ! k)) of None \<Rightarrow> w
         | Some p \<Rightarrow> SetupGuildInfo p (guild_id g) (gm_Rank (Members g ! k)) False
                       (SendGuildMessage p GUILD_MSG_NEW_RANK (gr_Name r) [] w))"
      have w2: "guild_inv w2" unfolding w2_def using w by (auto split: option.splits intro!: guild_invs)
      have gw2: "m_GuildList w2 = m_GuildList w" unfolding w2_def by (simp split: option.splits)
      have "guild_inv (on_guild i (\<lambda>g'. g'\<lparr>Members := (Members g')[k :=
          (Members g ! k)\<lparr>gm_Rank := gm_Rank (Members g ! k) + d\<rparr>]\<rparr>) w2)"
        by (rule guild_inv_on_guild [OF w2]) (use g gw2 kl rk in \<open>auto intro!: guild_ok_update_member\<close>)
      then show ?thesis
        unfolding change_rank_def Some option.case g option.sel k Let_def r w2_def [symmetric]
        by (intro guild_invs)
    qed (simp add: change_rank_def Some g k w)
  qed (simp add: change_rank_def Some g w)
qed (simp add: change_rank_def w)

lemma guild_inv_ask_member [guild_invs]:
  assumes "guild_inv w" and "\<And>a b m r. guild_inv (decide a b m r w)"
  shows "guild_inv (ask_member usage decide me n w)"
  using assms by (auto simp: ask_member_def Let_def split: option.splits intro!: guild_invs)

lemma guild_inv_members [guild_invs]:
  assumes w: "guild_inv w"
  shows "guild_inv (HandlePromoteMember me n c w)" "guild_inv (HandleDemoteMember me n c w)"
    "guild_inv (HandleRemoveMember me n c w)" "guild_inv (HandleLeaveGuild me c w)"
    "guild_inv (HandleDisbandGuild me c w)" "guild_inv (HandleGMDisbandGuild me n c w)"
  using w
  by (auto simp: HandlePromoteMember_def HandleDemoteMember_def HandleRemoveMember_def HandleLeaveGuild_def
      HandleDisbandGuild_def HandleGMDisbandGuild_def Let_def split: option.splits
      intro!: guild_inv_if_permission guild_invs)

lemma guild_inv_recruit [guild_invs]:
  assumes w: "guild_inv w"
  shows "guild_inv (HandleRecruitMember me n w)" "guild_inv (HandleRecruitMember2 me r acc w)"
  using w
  by (auto simp: HandleRecruitMember_def HandleRecruitMember2_def Let_def split: option.splits
      intro!: guild_inv_if_permission guild_invs guild_inv_AddMember rank_ok_founder)

lemma guild_inv_founders_loop:
  "guild_inv w \<Longrightarrow> guild_inv (snd (snd (founders_loop me g xs fs ok w)))"
  by (induction me g xs fs ok w rule: founders_loop.induct) (auto simp: guild_invs split: option.splits)

lemma guild_inv_HandleCreateGuild [guild_invs]:
  assumes w: "guild_inv w"
  shows "guild_inv (HandleCreateGuild me n w)"
proof -
  define fs0 where "fs0 = [Some me, None, None, None, None, None]"
  obtain fs okc w1 where f: "(case Option.bind (GetGroupFromID (group_world w)
      (ucast (p_GroupID (player (group_world w) me)))) (group_at (group_world w)) of
        None \<Rightarrow> (fs0, 0, w) | Some g \<Rightarrow> founders_loop me g [0..<6] fs0 0 w) = (fs, okc, w1)"
    using prod_cases3 by blast
  have "guild_inv w1"
    using w f guild_inv_founders_loop [OF w] by (auto split: option.splits) (metis snd_conv)
  then have "guild_inv (CreateGuild fs m (fold (\<lambda>f w. case f of None \<Rightarrow> w
      | Some p \<Rightarrow> SendGuildSimpleSectorClient p GUILD_CREATE_CONFIRM m w) fs w1))" for m
    by (intro guild_invs) (auto split: option.splits intro!: guild_invs)
  then show ?thesis
    using w \<open>guild_inv w1\<close> unfolding HandleCreateGuild_def fs0_def [symmetric] Let_def f prod.case
    by (simp add: guild_invs split: option.split)
qed

section \<open>All steps\<close>

text \<open>
  Every way a client reaches the guild code: the two command lines, the four packets, guild
  chat, and the message of the day at login.
\<close>

inductive guild_step :: "guild_world \<Rightarrow> guild_world \<Rightarrow> bool" where
  command: "guild_step w (HandleGuildCommand me param w)"
| gm_command: "guild_step w (HandleGuildGMCommand me param w)"
| simple: "guild_step w (HandleGuildSimpleClientSector me data w)"
| leader_accept: "guild_step w (HandleGuildLeaderAcceptClient me data w)"
| recruit_accept: "guild_step w (HandleRecruitAcceptClient me data w)"
| rank_names: "guild_step w (HandleGuildRankNamesRequestClient me w)"
| chat: "guild_step w (GuildChat gid m True w)"
| motd: "guild_step w (SendGuildMOTD me w)"

definition row_ok :: "guild_row \<Rightarrow> bool" where
  "row_ok r \<longleftrightarrow> list_all (\<lambda>m. rank_ok (row_rank m)) (row_members r)"

inductive guild_reachable :: "guild_world \<Rightarrow> bool" where
  start: "m_GuildList w = [] \<Longrightarrow> list_all row_ok rows \<Longrightarrow> guild_reachable (LoadGuildsFromSQL rows w)"
| step: "guild_reachable w \<Longrightarrow> guild_step w w' \<Longrightarrow> guild_reachable w'"

lemma guild_inv_commands:
  assumes w: "guild_inv w"
  shows "guild_inv (HandleGuildCommand me param w)" "guild_inv (HandleGuildGMCommand me param w)"
  using w by (simp_all add: HandleGuildCommand_def HandleGuildGMCommand_def Let_def guild_invs)

lemma guild_inv_packets:
  assumes w: "guild_inv w"
  shows "guild_inv (HandleGuildSimpleClientSector me data w)"
    "guild_inv (HandleGuildLeaderAcceptClient me data w)"
    "guild_inv (HandleRecruitAcceptClient me data w)"
  using w
  by (simp_all add: HandleGuildSimpleClientSector_def guild_confirmation_def HandleGuildLeaderAcceptClient_def
      HandleRecruitAcceptClient_def Let_def guild_invs split: option.split)

lemma guild_inv_step: "guild_step w w' \<Longrightarrow> guild_inv w \<Longrightarrow> guild_inv w'"
  by (induction rule: guild_step.induct) (simp_all add: guild_inv_commands guild_inv_packets guild_invs)

lemma guild_inv_fold_all:
  "list_all P xs \<Longrightarrow> (\<And>x w. P x \<Longrightarrow> guild_inv w \<Longrightarrow> guild_inv (f x w)) \<Longrightarrow> guild_inv w \<Longrightarrow> guild_inv (fold f xs w)"
  by (induction xs arbitrary: w) auto

lemma guild_inv_load:
  assumes "row_ok r" and "guild_inv w"
  shows "guild_inv (load_guild r w)"
  unfolding load_guild_def Let_def
  by (rule guild_inv_fold_all [OF assms(1) [unfolded row_ok_def]])
    (auto intro!: guild_inv_AddMember guild_invs assms(2))

lemma guild_inv_LoadGuildsFromSQL:
  assumes "m_GuildList w = []" and "list_all row_ok rows"
  shows "guild_inv (LoadGuildsFromSQL rows w)"
proof -
  have "guild_inv w" using assms(1) by (simp add: guild_inv_def)
  then have "guild_inv (fold load_guild rows w)"
    using guild_inv_fold_all [OF assms(2), of load_guild] guild_inv_load by blast
  then show ?thesis
    unfolding LoadGuildsFromSQL_def Let_def by (auto split: option.split intro!: guild_invs)
qed

lemma guild_reachable_inv: "guild_reachable w \<Longrightarrow> guild_inv w"
  by (induction rule: guild_reachable.induct) (simp_all add: guild_inv_LoadGuildsFromSQL guild_inv_step)

end
