(* ===== verification/GuildProps.thy ===== *)
theory GuildProps
  imports GuildInvariants GroupProps
begin

text \<open>
  Correctness of the guild operations: disbanding, leaving, founding, the confirmations, the
  sizes of the list buffers, and the layout of the packets.
\<close>

section \<open>The invariant\<close>

text \<open>
  C23: Whatever commands and packets clients send after the guilds were loaded, unless an array was
  overrun, every guild has its ten ranks and at most 150 members, no two members of a guild have the
  same name, and every member has one of the ranks.
\<close>

theorem guilds_reachable_wf:
  assumes "guild_reachable w" and "\<not> guild_fault w" and "Some g \<in> set (m_GuildList w)"
  shows "length (Ranks g) = MAX_GUILD_RANKS \<and> length (Members g) \<le> MAX_GUILD_MEMBERS \<and>
    distinct (map gm_Name (Members g)) \<and> (\<forall>m \<in> set (Members g). rank_ok (gm_Rank m))"
proof -
  from assms(1) have "guild_inv w" by (rule guild_reachable_inv)
  then have "guild_ok g" using assms(2,3) by (force simp: guild_inv_def list_all_iff)
  then show ?thesis by (simp add: guild_ok_def list_all_iff)
qed

section \<open>What a message does\<close>

lemma msg_players:
  "guild_players (SendGuildMessage p t a b w) =
     (if leaves_guild t then (guild_players w)[p := clear_guild_info (gpl w p)] else guild_players w)"
  "online (SendGuildMessage p t a b w) = online w"
  "group_world (SendGuildMessage p t a b w) = group_world w"
  "m_NextGuild (SendGuildMessage p t a b w) = m_NextGuild w"
  by (simp_all add: SendGuildMessage_def Let_def g_emit_def on_gpl_def)

lemma clear_clear [simp]: "clear_guild_info (clear_guild_info p) = clear_guild_info p"
  by (simp add: clear_guild_info_def)

lemma leaves_disbanded [simp]: "leaves_guild GUILD_MSG_HAS_BEEN_DISBANDED" "leaves_guild GUILD_MSG_YOU_HAVE_DISBANDED"
  "leaves_guild GUILD_MSG_YOU_HAVE_LEFT_GUILD"
  by (simp_all add: leaves_guild_def)

definition told :: "s32 \<Rightarrow> nat option \<Rightarrow> nat \<Rightarrow> guild_player \<Rightarrow> bool" where
  "told gid origin q p \<longleftrightarrow> Some q \<noteq> origin \<and> m_GuildID p = gid"

text \<open>The loop that tells the online members: exactly they are cleared.\<close>

lemma tell_loop:
  fixes gid origin
  defines "F \<equiv> (\<lambda>p w. if (Some p \<noteq> origin \<or> False) \<and> m_GuildID (gpl w p) = gid
                then SendGuildMessage p GUILD_MSG_HAS_BEEN_DISBANDED [] [] w else w)"
  assumes "q < length (guild_players w)" and "list_all (\<lambda>p. p < length (guild_players w)) ps"
  shows "gpl (fold F ps w) q =
           (if q \<in> set ps \<and> told gid origin q (gpl w q) then clear_guild_info (gpl w q) else gpl w q)"
    and "length (guild_players (fold F ps w)) = length (guild_players w)"
    and "m_GuildList (fold F ps w) = m_GuildList w"
    and "online (fold F ps w) = online w"
proof -
  have "gpl (fold F ps w) q =
           (if q \<in> set ps \<and> told gid origin q (gpl w q) then clear_guild_info (gpl w q) else gpl w q) \<and>
        length (guild_players (fold F ps w)) = length (guild_players w) \<and>
        m_GuildList (fold F ps w) = m_GuildList w \<and> online (fold F ps w) = online w"
    using assms(2,3)
  proof (induction ps arbitrary: w)
    case (Cons p ps)
    have "gpl (F p w) q = (if q = p \<and> told gid origin q (gpl w q) then clear_guild_info (gpl w q) else gpl w q)"
      using Cons.prems by (auto simp: F_def told_def msg_players nth_list_update)
    moreover have "length (guild_players (F p w)) = length (guild_players w)" "m_GuildList (F p w) = m_GuildList w"
      "online (F p w) = online w"
      by (simp_all add: F_def msg_players)
    ultimately show ?case
      using Cons.IH [of "F p w"] Cons.prems by (auto simp: told_def)
  qed simp
  then show "gpl (fold F ps w) q =
           (if q \<in> set ps \<and> told gid origin q (gpl w q) then clear_guild_info (gpl w q) else gpl w q)"
    "length (guild_players (fold F ps w)) = length (guild_players w)"
    "m_GuildList (fold F ps w) = m_GuildList w" "online (fold F ps w) = online w" by auto
qed

lemma tell_disbanded:
  fixes gid origin w q
  assumes "list_all (\<lambda>p. p < length (guild_players w)) (online w)"
  defines "w' \<equiv> SendMessageToGuildMembers gid origin GUILD_MSG_HAS_BEEN_DISBANDED [] [] False w"
  shows "q < length (guild_players w) \<Longrightarrow> gpl w' q =
           (if q \<in> set (online w) \<and> told gid origin q (gpl w q) then clear_guild_info (gpl w q) else gpl w q)"
    and "m_GuildList w' = m_GuildList w" and "online w' = online w"
    and "length (guild_players w') = length (guild_players w)"
proof -
  show "q < length (guild_players w) \<Longrightarrow> gpl w' q =
           (if q \<in> set (online w) \<and> told gid origin q (gpl w q) then clear_guild_info (gpl w q) else gpl w q)"
    unfolding w'_def SendMessageToGuildMembers_def by (rule tell_loop(1) [OF _ assms(1)])
next
  have "length (guild_players (fold f ps w)) = length (guild_players w) \<and> m_GuildList (fold f ps w) = m_GuildList w \<and>
      online (fold f ps w) = online w"
    if "\<And>p w. length (guild_players (f p w)) = length (guild_players w) \<and> m_GuildList (f p w) = m_GuildList w \<and>
      online (f p w) = online w" for f and ps :: "nat list"
    using that by (induction ps arbitrary: w) auto
  then show "m_GuildList w' = m_GuildList w" "online w' = online w"
    "length (guild_players w') = length (guild_players w)"
    unfolding w'_def SendMessageToGuildMembers_def by (simp_all add: msg_players)
qed

section \<open>Removing a guild\<close>

abbreviation has_id :: "s32 \<Rightarrow> Guild option \<Rightarrow> bool" where
  "has_id gid \<equiv> guild_hit (\<lambda>g. guild_id g = gid)"

lemma remove_loop_disbanded:
  fixes gid origin w "is"
  assumes "list_all (\<lambda>p. p < length (guild_players w)) (online w)" and "distinct is"
    and "list_all (\<lambda>i. i < length (m_GuildList w)) is"
  defines "w' \<equiv> remove_guild_loop is gid origin True w"
  shows "(\<forall>q < length (guild_players w). gpl w' q =
            (if (\<exists>i \<in> set is. has_id gid (m_GuildList w ! i)) \<and> q \<in> set (online w) \<and> told gid origin q (gpl w q)
             then clear_guild_info (gpl w q) else gpl w q)) \<and>
         length (guild_players w') = length (guild_players w) \<and> online w' = online w \<and>
         length (m_GuildList w') = length (m_GuildList w) \<and>
         (\<forall>j < length (m_GuildList w). m_GuildList w' ! j =
            (if j \<in> set is \<and> has_id gid (m_GuildList w ! j) then None else m_GuildList w ! j))"
  using assms(1-3) unfolding w'_def
proof (induction "is" arbitrary: w)
  case (Cons i "is")
  show ?case
  proof (cases "has_id gid (m_GuildList w ! i)")
    case False
    then show ?thesis using Cons.IH [of w] Cons.prems by (auto split: if_splits)
  next
    case True
    define w1 where "w1 = w\<lparr>m_GuildList := (m_GuildList w)[i := None]\<rparr>"
    define w2 where "w2 = g_emit (SaveDeleteGuild gid)
      (SendMessageToGuildMembers gid origin GUILD_MSG_HAS_BEEN_DISBANDED [] [] False w1)"
    have on1: "list_all (\<lambda>p. p < length (guild_players w1)) (online w1)" using Cons.prems by (simp add: w1_def)
    note t = tell_disbanded [OF on1, where gid = gid and origin = origin]
    have q: "gpl w2 q = (if q \<in> set (online w) \<and> told gid origin q (gpl w q) then clear_guild_info (gpl w q) else gpl w q)"
      if "q < length (guild_players w)" for q
      using t(1) [where q = q] that by (simp add: w2_def g_emit_def w1_def)
    have l: "length (guild_players w2) = length (guild_players w)" "online w2 = online w"
      "m_GuildList w2 = (m_GuildList w)[i := None]"
      using t(2-4) by (simp_all add: w2_def g_emit_def w1_def)
    have r: "remove_guild_loop (i # is) gid origin True w = remove_guild_loop is gid origin True w2"
      using True by (simp add: Let_def w1_def w2_def)
    have i: "i \<notin> set is" "i < length (m_GuildList w)" using Cons.prems by simp_all
    have IH: "(\<forall>q < length (guild_players w2). gpl (remove_guild_loop is gid origin True w2) q =
            (if (\<exists>i \<in> set is. has_id gid (m_GuildList w2 ! i)) \<and> q \<in> set (online w2) \<and> told gid origin q (gpl w2 q)
             then clear_guild_info (gpl w2 q) else gpl w2 q)) \<and>
         length (guild_players (remove_guild_loop is gid origin True w2)) = length (guild_players w2) \<and>
         online (remove_guild_loop is gid origin True w2) = online w2 \<and>
         length (m_GuildList (remove_guild_loop is gid origin True w2)) = length (m_GuildList w2) \<and>
         (\<forall>j < length (m_GuildList w2). m_GuildList (remove_guild_loop is gid origin True w2) ! j =
            (if j \<in> set is \<and> has_id gid (m_GuildList w2 ! j) then None else m_GuildList w2 ! j))"
      by (rule Cons.IH) (use Cons.prems l in auto)
    show ?thesis unfolding r using IH i True
      by (auto simp: l q nth_list_update told_def)
  qed
qed simp

lemma RemoveGuildFromList_disbanded:
  fixes gid origin w
  assumes "list_all (\<lambda>p. p < length (guild_players w)) (online w)"
  defines "w' \<equiv> RemoveGuildFromList gid origin True w"
  shows "m_GuildList w' = map (\<lambda>e. if has_id gid e then None else e) (m_GuildList w)"
    and "q < length (guild_players w) \<Longrightarrow> (\<exists>e \<in> set (m_GuildList w). has_id gid e) \<Longrightarrow>
         gpl w' q = (if q \<in> set (online w) \<and> told gid origin q (gpl w q) then clear_guild_info (gpl w q) else gpl w q)"
proof -
  have all: "distinct [0..<length (m_GuildList w)]"
    "list_all (\<lambda>i. i < length (m_GuildList w)) [0..<length (m_GuildList w)]"
    by (simp_all add: list_all_iff)
  note r = remove_loop_disbanded [OF assms(1) all, of gid origin]
  show "m_GuildList w' = map (\<lambda>e. if has_id gid e then None else e) (m_GuildList w)"
    unfolding w'_def RemoveGuildFromList_def by (rule nth_equalityI) (use r in auto)
  show "gpl w' q = (if q \<in> set (online w) \<and> told gid origin q (gpl w q) then clear_guild_info (gpl w q) else gpl w q)"
    if "q < length (guild_players w)" "\<exists>e \<in> set (m_GuildList w). has_id gid e"
    using r that unfolding w'_def RemoveGuildFromList_def by (auto simp: in_set_conv_nth)
qed

lemma GuildFromId_removed:
  "m_GuildList w' = map (\<lambda>e. if has_id gid e then None else e) (m_GuildList w) \<Longrightarrow> GuildFromId w' gid = None"
  by (auto simp: GuildFromId_def first_index_None guild_hit_def split: option.splits)

lemma not_has_id_map: "map (\<lambda>e. if has_id gid e then None else e) es ! j = es ! j"
  if "j < length es" "\<not> has_id gid (es ! j)"
  using that by simp

text \<open>
  C26: When a member whose rank has the permission confirms that the guild is to be disbanded, no
  guild with its id is left, every other guild is as before, and every online player of the
  guild, the caller included, is in no guild; nobody else is changed. Without the permission no
  guild and no player changes.
\<close>

theorem disband_guild:
  assumes on: "list_all (\<lambda>p. p < length (guild_players w)) (online w)" and me: "me < length (guild_players w)"
    and i: "GuildFromId w (m_GuildID (gpl w me)) = Some i" and g: "m_GuildList w ! i = Some g"
    and perm: "CheckPermission g (player_name w me) PERMISSION_DISBAND = Some b"
  defines "w' \<equiv> HandleDisbandGuild me True w"
  shows "if b
         then GuildFromId w' (guild_id g) = None \<and>
              m_GuildList w' = map (\<lambda>e. if has_id (guild_id g) e then None else e) (m_GuildList w) \<and>
              (\<forall>q < length (guild_players w). gpl w' q =
                 (if (q = me \<or> q \<in> set (online w)) \<and> m_GuildID (gpl w q) = guild_id g
                  then clear_guild_info (gpl w q) else gpl w q))
         else m_GuildList w' = m_GuildList w \<and> guild_players w' = guild_players w"
proof -
  define w1 where "w1 = SendGuildMessage me GUILD_MSG_YOU_HAVE_DISBANDED [] (guild_Name g) w"
  have yes: "w' = RemoveGuildFromList (guild_id g) (Some me) True w1" if b
    unfolding w'_def HandleDisbandGuild_def w1_def using i g perm that by (simp add: if_permission_def Let_def)
  have gid: "guild_id g = m_GuildID (gpl w me)" using GuildFromId_Some [OF i] g by auto
  have il: "i < length (m_GuildList w)" using GuildFromId_Some [OF i] by simp
  have p1: "guild_players w1 = (guild_players w)[me := clear_guild_info (gpl w me)]" and l1: "m_GuildList w1 = m_GuildList w"
    and o1: "online w1 = online w"
    by (simp_all add: w1_def msg_players)
  have on1: "list_all (\<lambda>p. p < length (guild_players w1)) (online w1)" using on by (simp add: p1 o1)
  note R = RemoveGuildFromList_disbanded [OF on1, where gid = "guild_id g" and origin = "Some me"]
  have list: "m_GuildList w' = map (\<lambda>e. if has_id (guild_id g) e then None else e) (m_GuildList w)" if b
    using R(1) yes [OF that] by (simp add: l1)
  have gone: "GuildFromId w' (guild_id g) = None" if b by (rule GuildFromId_removed [OF list [OF that]])
  have players: "gpl w' q = (if (q = me \<or> q \<in> set (online w)) \<and> m_GuildID (gpl w q) = guild_id g
                    then clear_guild_info (gpl w q) else gpl w q)" if b "q < length (guild_players w)" for q
  proof -
    have ex: "\<exists>e \<in> set (m_GuildList w1). has_id (guild_id g) e"
    proof (rule bexI)
      show "has_id (guild_id g) (Some g)" by (simp add: guild_hit_def)
      show "Some g \<in> set (m_GuildList w1)" unfolding l1 using nth_mem [OF il] g by simp
    qed
    have "q < length (guild_players w1)" using that by (simp add: p1)
    note R2 = R(2) [OF this ex]
    show ?thesis
    proof (cases "q = me")
      case True
      have "gpl w1 q = clear_guild_info (gpl w q)" using that True by (simp add: p1)
      then have "gpl w' q = clear_guild_info (gpl w q)"
        unfolding yes [OF that(1)] R2 using True by (simp add: told_def)
      then show ?thesis using True gid by simp
    next
      case False
      then have "gpl w1 q = gpl w q" by (simp add: p1)
      then show ?thesis unfolding yes [OF that(1)] R2 using False by (simp add: o1 told_def)
    qed
  qed
  have "m_GuildList w' = m_GuildList w \<and> guild_players w' = guild_players w" if "\<not> b"
    unfolding w'_def HandleDisbandGuild_def using i g perm that
    by (simp add: if_permission_def g_emit_def)
  then show ?thesis using list gone players by auto
qed

section \<open>Leaving\<close>

lemma delete_is_filter:
  assumes "distinct (map f xs)" and "k < length xs" and "f (xs ! k) = n"
  shows "take k xs @ drop (Suc k) xs = filter (\<lambda>x. f x \<noteq> n) xs"
proof -
  have xs: "xs = take k xs @ xs ! k # drop (Suc k) xs" by (rule id_take_nth_drop [OF assms(2)])
  have d: "distinct (map f (take k xs @ xs ! k # drop (Suc k) xs))" using assms(1) xs by simp
  have "filter (\<lambda>x. f x \<noteq> n) xs = filter (\<lambda>x. f x \<noteq> n) (take k xs @ xs ! k # drop (Suc k) xs)"
    using xs by simp
  also have "\<dots> = take k xs @ drop (Suc k) xs"
  proof -
    have "n \<notin> f ` set (take k xs)" "n \<notin> f ` set (drop (Suc k) xs)" using d by (simp_all add: assms(3))
    then have "filter (\<lambda>x. f x \<noteq> n) (take k xs) = take k xs" "filter (\<lambda>x. f x \<noteq> n) (drop (Suc k) xs) = drop (Suc k) xs"
      by (blast intro!: filter_True)+
    then show ?thesis using assms(3) by simp
  qed
  finally show ?thesis by simp
qed

text \<open>
  A member who confirms that he leaves a guild of two or more is taken off its list, the
  others keep their order and entries, and he is in no guild; no other guild and no other player
  changes.
\<close>

theorem leave_guild:
  assumes me: "me < length (guild_players w)"
    and i: "GuildFromId w (m_GuildID (gpl w me)) = Some i" and g: "m_GuildList w ! i = Some g"
    and dist: "distinct (map gm_Name (Members g))"
    and k: "GetMemberIndex g (player_name w me) = Some k" and two: "2 \<le> length (Members g)"
  defines "w' \<equiv> HandleLeaveGuild me True w"
  shows "m_GuildList w' = (m_GuildList w)[i := Some (g\<lparr>Members := filter (\<lambda>m. gm_Name m \<noteq> player_name w me) (Members g)\<rparr>)] \<and>
         guild_players w' = (guild_players w)[me := clear_guild_info (gpl w me)] \<and> group_world w' = group_world w"
proof -
  define w1 where "w1 = SendGuildMessage me GUILD_MSG_YOU_HAVE_LEFT_GUILD [] (guild_Name g) w"
  have w1: "m_GuildList w1 = m_GuildList w" "group_world w1 = group_world w"
    "guild_players w1 = (guild_players w)[me := clear_guild_info (gpl w me)]"
    by (simp_all add: w1_def msg_players)
  have "GuildFromId w1 (guild_id g) = Some i"
    using i GuildFromId_Some [OF i] g by (simp add: GuildFromId_def w1)
  moreover have "length (Members g) \<noteq> Suc 0" using two by simp
  ultimately have w': "w' = g_fault_if (length (Members g) = MAX_GUILD_MEMBERS) (on_guild i (delete_member k) w1)"
    unfolding w'_def HandleLeaveGuild_def
    by (simp add: i g k w1 w1_def [symmetric] RemoveMemberFromGuild_def Let_def delete_member_def [abs_def])
  from gl.lookup_Some [OF k] have kl: "k < length (Members g)" "gm_Name (Members g ! k) = player_name w me" by auto
  have "m_GuildList w' = (m_GuildList w)[i := Some (g\<lparr>Members := filter (\<lambda>m. gm_Name m \<noteq> player_name w me) (Members g)\<rparr>)]"
    unfolding w' using g delete_is_filter [OF dist kl]
    by (simp add: on_guild_def w1 delete_member_def)
  moreover have "guild_players w' = (guild_players w)[me := clear_guild_info (gpl w me)] \<and> group_world w' = group_world w"
    unfolding w' by (simp add: g_fault_if_def on_guild_def w1)
  ultimately show ?thesis by blast
qed

section \<open>Confirmations\<close>

text \<open>
  A packet as the handler reads it, and the packet of a client, whose fields of type
  \<^verbatim>\<open>long\<close> have four bytes.
\<close>

definition simple_packet :: "clong \<Rightarrow> clong \<Rightarrow> s16 \<Rightarrow> bytes \<Rightarrow> bytes" where
  "simple_packet t gid len name = le_bytes 8 t @ le_bytes 8 gid @ le_bytes 2 len @ name @ [0]"

definition client_packet :: "u32 \<Rightarrow> u32 \<Rightarrow> s16 \<Rightarrow> bytes \<Rightarrow> bytes" where
  "client_packet t gid len name = le_bytes 4 t @ le_bytes 4 gid @ le_bytes 2 len @ name"

lemma read_simple_packet:
  assumes "cstring name"
  shows "read_simple_packet (simple_packet t gid len name) =
    Some \<lparr>gs_type = t, gs_gameid = gid, gs_length = len, optionalparam = name\<rparr>"
  using assms
  by (simp add: read_simple_packet_def simple_packet_def peek_def le_word_le_bytes cstr_of_append_zero)

lemma HandleGuildSimple_packet:
  "cstring name \<Longrightarrow> HandleGuildSimpleClientSector me (simple_packet t gid len name) w = guild_confirmation me t name w"
  by (simp add: HandleGuildSimpleClientSector_def read_simple_packet)

lemma high_half_nonzero:
  fixes gid :: u32 and t :: u32 and c :: clong
  assumes "gid \<noteq> 0" and "uint c < 2 ^ 32"
  shows "le_word (le_bytes 4 t @ le_bytes 4 gid) \<noteq> c"
proof -
  from assms(1) obtain k where k: "bit gid k" by (auto simp: bit_eq_iff)
  then have k32: "k < 32" using bit_imp_le_length by fastforce
  have "bit (le_word (le_bytes 4 t @ le_bytes 4 gid) :: clong) (32 + k)"
  proof -
    have d: "(32 + k) div 8 = 4 + k div 8" "(32 + k) mod 8 = k mod 8" by presburger+
    have "k div 8 < 4" using k32 by simp
    then show ?thesis using k k32 by (simp add: bit_le_word d nth_append bit_le_bytes)
  qed
  moreover have "\<not> bit c (32 + k)"
  proof -
    have "take_bit 32 (uint c) = uint c" using assms(2) by (simp add: take_bit_int_eq_self)
    then have "\<not> bit (uint c) (32 + k)" by (metis bit_take_bit_iff not_add_less1)
    then show ?thesis using k32 by (simp add: bit_uint_iff)
  qed
  ultimately show ?thesis by blast
qed

text \<open>
  The answer a client sends to a dialog, with four-byte fields and a game id other than zero, is
  never taken for a confirmation: no guild and no player changes and nothing is sent. The
  handler reads the first field as eight bytes.
\<close>

theorem guild_answers_misread:
  fixes me t gid len name w
  assumes "gid \<noteq> 0"
  defines "w' \<equiv> HandleGuildSimpleClientSector me (client_packet t gid len name) w"
  shows "m_GuildList w' = m_GuildList w \<and> guild_players w' = guild_players w \<and> guild_log w' = guild_log w"
proof (cases "read_simple_packet (client_packet t gid len name)")
  case None
  then show ?thesis by (simp add: w'_def HandleGuildSimpleClientSector_def g_fault_if_def)
next
  case (Some r)
  have "peek (client_packet t gid len name) 0 8 = Some (le_bytes 4 t @ le_bytes 4 gid)"
    by (simp add: client_packet_def peek_def)
  with Some have r: "gs_type r = le_word (le_bytes 4 t @ le_bytes 4 gid)"
    by (auto simp: read_simple_packet_def bind_eq_Some_conv split: if_splits)
  have "gs_type r \<noteq> c" if "uint c < 2 ^ 32" for c unfolding r by (rule high_half_nonzero [OF assms(1) that])
  then have "guild_confirmation me (gs_type r) (optionalparam r) w = w"
    by (simp add: guild_confirmation_def guild_consts)
  then show ?thesis by (simp add: w'_def HandleGuildSimpleClientSector_def Some)
qed

text \<open>
  A confirmation in the layout that the handler reads is obeyed without a look at the caller's
  rank: any member of a guild raises the rank of any member, his own included, by one.
\<close>

theorem confirmation_promotes:
  fixes me gid len name w
  assumes i: "GuildFromId w (m_GuildID (gpl w me)) = Some i" and g: "m_GuildList w ! i = Some g"
    and k: "GetMemberIndex g name = Some k" and r: "rank_ok (gm_Rank (Members g ! k) + 1)" and "cstring name"
  defines "w' \<equiv> HandleGuildSimpleClientSector me (simple_packet (GUILD_PROMOTE_CONFIRM + 1) gid len name) w"
  shows "m_GuildList w' = (m_GuildList w)[i :=
    Some (g\<lparr>Members := (Members g)[k := (Members g ! k)\<lparr>gm_Rank := gm_Rank (Members g ! k) + 1\<rparr>]\<rparr>)]"
proof -
  have w': "w' = change_rank 1 GUILD_MSG_YOU_HAVE_PROMOTED me name w"
    unfolding w'_def HandleGuildSimple_packet [OF \<open>cstring name\<close>]
    by (simp add: guild_confirmation_def HandlePromoteMember_def)
  have keep: "m_GuildList (HandleListAllGuildMembers me w) = m_GuildList w"
    "m_GuildList (SaveGuildMember_msg x m c w) = m_GuildList w" for w x m c
    by (simp_all add: HandleListAllGuildMembers_def SaveGuildMember_msg_def Let_def split: option.splits)
  have rank: "GetRank g (gm_Rank (Members g ! k) + 1) = Some (Ranks g ! unat (gm_Rank (Members g ! k) + 1))"
    using r by (simp add: GetRank_def)
  show ?thesis
    unfolding w' change_rank_def using i g k rank
    by (simp add: GetGuildMember_index Let_def keep on_guild_def split: option.split)
qed

text \<open>
  Any online player disbands any guild by naming it in a confirmation of the game masters'
  dialog: the handler does not look at the caller's level.
\<close>

theorem anyone_gm_disbands:
  fixes me gid len name w
  assumes on: "list_all (\<lambda>p. p < length (guild_players w)) (online w)"
    and i: "GuildFromName w name = Some i" and g: "m_GuildList w ! i = Some g" and "cstring name"
  defines "w' \<equiv> HandleGuildSimpleClientSector me (simple_packet (GUILD_GM_DISBAND_CONFIRM + 1) gid len name) w"
  shows "GuildFromId w' (guild_id g) = None"
proof -
  have "w' = RemoveGuildFromList (guild_id g) (Some me) True (SendGuildMessage me GUILD_GMMSG_GUILD_DISBANDED [] name w)"
    unfolding w'_def HandleGuildSimple_packet [OF \<open>cstring name\<close>] using i g
    by (simp add: guild_confirmation_def HandleGMDisbandGuild_def guild_consts)
  then have "m_GuildList w' = map (\<lambda>e. if has_id (guild_id g) e then None else e)
      (m_GuildList (SendGuildMessage me GUILD_GMMSG_GUILD_DISBANDED [] name w))"
    using RemoveGuildFromList_disbanded(1) [of "SendGuildMessage me GUILD_GMMSG_GUILD_DISBANDED [] name w"] on
    by (simp add: msg_players leaves_guild_def)
  then show ?thesis by (rule GuildFromId_removed)
qed

section \<open>Recruiting\<close>

text \<open>
  A recruit who accepts when the guild has its 150 members is told that he joined and shown
  the guild on his ship, but he is not on its list: the failure to add him is not looked at.
\<close>

theorem recruit_into_full_guild:
  assumes i: "GuildFromId w (m_GuildID (gpl w me)) = Some i" and g: "m_GuildList w ! i = Some g"
    and full: "length (Members g) = MAX_GUILD_MEMBERS" and r: "r < length (guild_players w)"
  defines "w' \<equiv> HandleRecruitMember2 me r True w"
  shows "m_GuildID (gpl w' r) = guild_id g \<and> ship_GuildName (gpl w' r) = guild_Name g \<and> m_GuildList w' = m_GuildList w"
proof -
  define w1 where "w1 = SendMessageToGuildMembers (guild_id g) (Some me) GUILD_MSG_HAS_BEEN_RECRUITED
    (player_name w r) (guild_Name g) True w"
  have keep: "guild_players (fold f ps w) = guild_players w \<and> m_GuildList (fold f ps w) = m_GuildList w"
    if "\<And>p w. guild_players (f p w) = guild_players w \<and> m_GuildList (f p w) = m_GuildList w" for f and ps :: "nat list"
    using that by (induction ps arbitrary: w) auto
  have w1: "guild_players w1 = guild_players w \<and> m_GuildList w1 = m_GuildList w"
    unfolding w1_def SendMessageToGuildMembers_def by (rule keep) (simp add: msg_players leaves_guild_def)
  have gid: "guild_id g = m_GuildID (gpl w me)" using GuildFromId_Some [OF i] g by auto
  have i1: "GuildFromId v (guild_id g) = Some i" if "m_GuildList v = m_GuildList w" for v
    using i that gid by (simp add: GuildFromId_def)
  have add: "AddMemberToGuild (guild_id g) n a 0 True 0 [] w1 = (-1, w1)" for n a
    using i1 [of w1] w1 g full by (simp add: AddMemberToGuild_def)
  define w2 where "w2 = SetupGuildInfo r (guild_id g) 0 False
    (SendGuildMessage r GUILD_MSG_YOU_HAVE_JOINED_GUILD [] (guild_Name g) w1)"
  define w3 where "w3 = g_emit (SaveGuildId r (m_GuildID (gpl (g_emit (GuildAuxShip r) w2) r)) 0) (g_emit (GuildAuxShip r) w2)"
  have w': "w' = HandleListAllGuildMembers me w3"
    unfolding w'_def HandleRecruitMember2_def i option.case g option.sel Let_def if_True w1_def [symmetric] add snd_conv
      w2_def [symmetric] w3_def ..
  have list: "guild_players (HandleListAllGuildMembers me v) = guild_players v \<and> m_GuildList (HandleListAllGuildMembers me v) = m_GuildList v" for v
    by (simp add: HandleListAllGuildMembers_def Let_def g_emit_def g_fault_if_def split: option.splits)
  have j: "GuildFromId (on_gpl r f (SendGuildMessage r GUILD_MSG_YOU_HAVE_JOINED_GUILD [] (guild_Name g) w1)) (guild_id g) = Some i" for f
    using w1 by (intro i1) simp
  have "gpl w2 r = (gpl w r)\<lparr>m_GuildID := guild_id g, ship_GuildName := guild_Name g, ship_GuildRank := 1,
      ship_GuildRankName := GetRankName g 0, guild_channel := True\<rparr>"
    unfolding w2_def SetupGuildInfo_def Let_def j option.case using r w1 g
    by (simp add: on_gpl_def msg_players leaves_guild_def)
  then show ?thesis
    using list [of w3] w1 unfolding w' by (simp add: w3_def g_emit_def) (simp add: w2_def)
qed

section \<open>Founding\<close>

lemma quiet_msgs:
  assumes "\<not> leaves_guild t"
  shows "guild_players (SendMessageToFounders g t a b w) = guild_players w"
    "m_GuildList (SendMessageToFounders g t a b w) = m_GuildList w"
    "m_NextGuild (SendMessageToFounders g t a b w) = m_NextGuild w"
proof -
  have "guild_players (fold f ps w) = guild_players w \<and> m_GuildList (fold f ps w) = m_GuildList w \<and>
      m_NextGuild (fold f ps w) = m_NextGuild w"
    if "\<And>p w. guild_players (f p w) = guild_players w \<and> m_GuildList (f p w) = m_GuildList w \<and> m_NextGuild (f p w) = m_NextGuild w"
    for f and ps :: "GuildMember list"
    using that by (induction ps arbitrary: w) auto
  then show "guild_players (SendMessageToFounders g t a b w) = guild_players w"
    "m_GuildList (SendMessageToFounders g t a b w) = m_GuildList w"
    "m_NextGuild (SendMessageToFounders g t a b w) = m_NextGuild w"
    unfolding SendMessageToFounders_def using assms by (simp_all add: msg_players split: option.split)
qed

lemma emit_keeps [simp]:
  "guild_players (g_emit e w) = guild_players w" "m_NextGuild (g_emit e w) = m_NextGuild w"
  "online (g_emit e w) = online w" "group_world (g_emit e w) = group_world w"
  by (simp_all add: g_emit_def)

lemma fold_emit_keeps:
  assumes "\<And>x w. guild_players (f x w) = guild_players w \<and> m_GuildList (f x w) = m_GuildList w \<and> m_NextGuild (f x w) = m_NextGuild w"
  shows "guild_players (fold f xs w) = guild_players w \<and> m_GuildList (fold f xs w) = m_GuildList w \<and> m_NextGuild (fold f xs w) = m_NextGuild w"
  using assms by (induction xs arbitrary: w) auto

lemma SaveNewGuild_keeps:
  "guild_players (SaveNewGuild g w) = guild_players w \<and> m_GuildList (SaveNewGuild g w) = m_GuildList w \<and>
   m_NextGuild (SaveNewGuild g w) = m_NextGuild w"
proof -
  define w1 where "w1 = SaveGuildInfo_msg g w"
  have "guild_players w1 = guild_players w \<and> m_GuildList w1 = m_GuildList w \<and> m_NextGuild w1 = m_NextGuild w"
    by (simp add: w1_def SaveGuildInfo_msg_def)
  then show ?thesis
    unfolding SaveNewGuild_def Let_def w1_def [symmetric]
    by (simp add: fold_emit_keeps SaveGuildMember_msg_def)
qed

text \<open>What a founder becomes.\<close>

definition joined :: "Guild \<Rightarrow> s32 \<Rightarrow> guild_player \<Rightarrow> guild_player" where
  "joined g rank p = p\<lparr>m_GuildID := guild_id g, ship_GuildName := guild_Name g, ship_GuildRank := rank + 1,
     ship_GuildRankName := GetRankName g rank, guild_channel := True\<rparr>"

lemma SetupGuildInfo_joined:
  assumes "GuildFromId w (guild_id g) = Some i" and "m_GuildList w ! i = Some g" and "p < length (guild_players w)"
  shows "guild_players (SetupGuildInfo p (guild_id g) rank False w) = (guild_players w)[p := joined g rank (gpl w p)]"
    and "m_GuildList (SetupGuildInfo p (guild_id g) rank False w) = m_GuildList w"
    and "m_NextGuild (SetupGuildInfo p (guild_id g) rank False w) = m_NextGuild w"
proof -
  have "GuildFromId (on_gpl p f w) (guild_id g) = Some i" for f using assms(1) by (simp add: GuildFromId_def)
  then show "guild_players (SetupGuildInfo p (guild_id g) rank False w) = (guild_players w)[p := joined g rank (gpl w p)]"
    "m_NextGuild (SetupGuildInfo p (guild_id g) rank False w) = m_NextGuild w"
    using assms by (simp_all add: SetupGuildInfo_def Let_def on_gpl_def joined_def)
qed simp

lemma setup_founders:
  fixes w g
  defines "F \<equiv> (\<lambda>(p, m) w. g_emit (GuildAuxShip p) (SetupGuildInfo p (guild_id g) (gm_Rank m) False w))"
  assumes "GuildFromId w (guild_id g) = Some i" "m_GuildList w ! i = Some g"
    and "list_all (\<lambda>p. p < length (guild_players w)) fs" and "distinct fs" and "length fs = length ms"
  shows "m_GuildList (fold F (zip fs ms) w) = m_GuildList w \<and> m_NextGuild (fold F (zip fs ms) w) = m_NextGuild w \<and>
    length (guild_players (fold F (zip fs ms) w)) = length (guild_players w) \<and>
    (\<forall>q. q \<notin> set fs \<longrightarrow> gpl (fold F (zip fs ms) w) q = gpl w q) \<and>
    (\<forall>j < length fs. gpl (fold F (zip fs ms) w) (fs ! j) = joined g (gm_Rank (ms ! j)) (gpl w (fs ! j)))"
  using assms(2-)
proof (induction fs arbitrary: w ms)
  case (Cons p fs)
  then obtain m ms' where ms: "ms = m # ms'" by (cases ms) auto
  define w1 where "w1 = F (p, m) w"
  have w1: "m_GuildList w1 = m_GuildList w" "m_NextGuild w1 = m_NextGuild w"
    "guild_players w1 = (guild_players w)[p := joined g (gm_Rank m) (gpl w p)]"
    using SetupGuildInfo_joined [OF Cons.prems(1,2)] Cons.prems(3) by (simp_all add: w1_def F_def)
  have g1: "GuildFromId w1 (guild_id g) = Some i" using Cons.prems(1) by (simp add: GuildFromId_def w1)
  have IH: "m_GuildList (fold F (zip fs ms') w1) = m_GuildList w1 \<and> m_NextGuild (fold F (zip fs ms') w1) = m_NextGuild w1 \<and>
    length (guild_players (fold F (zip fs ms') w1)) = length (guild_players w1) \<and>
    (\<forall>q. q \<notin> set fs \<longrightarrow> gpl (fold F (zip fs ms') w1) q = gpl w1 q) \<and>
    (\<forall>j < length fs. gpl (fold F (zip fs ms') w1) (fs ! j) = joined g (gm_Rank (ms' ! j)) (gpl w1 (fs ! j)))"
    by (rule Cons.IH) (use Cons.prems ms w1 g1 in auto)
  have eq: "fold F (zip (p # fs) ms) w = fold F (zip fs ms') w1" by (simp add: ms w1_def)
  show ?case
    unfolding eq using IH Cons.prems
    by (auto simp: w1 ms nth_Cons split: nat.split) (metis nth_list_update_neq nth_mem)+
qed simp

lemma founders_online_all:
  assumes "length fs0 + length ms \<le> 6"
    and "list_all2 (\<lambda>p m. GetPlayerFromCharacterID w (gm_avatar_id m) = Some p) fs ms"
    and "list_all (\<lambda>p. gp_SectorID (gpl w p) = gp_SectorID (gpl w (hd (fs0 @ fs)))) fs"
  shows "founders_online g ms fs0 w = (False, fs0 @ fs, w)"
  using assms
proof (induction ms arbitrary: fs0 fs)
  case (Cons m ms)
  then obtain p fs' where fs: "fs = p # fs'" by (cases fs) auto
  have same: "fs0 = [] \<or> gp_SectorID (gpl w p) = gp_SectorID (gpl w (hd fs0))"
    using Cons.prems(3) fs by (cases fs0) simp_all
  have "founders_online g ms (fs0 @ [p]) w = (False, (fs0 @ [p]) @ fs', w)"
    by (rule Cons.IH) (use Cons.prems fs in auto)
  then show ?case using Cons.prems(1,2) fs same by auto
qed auto

lemma found_guild_effect:
  assumes i: "i < length (m_GuildList w)" and g: "m_GuildList w ! i = Some g"
    and fresh: "\<forall>a < i. \<not> has_id (m_NextGuild w) (m_GuildList w ! a)"
    and fs: "list_all (\<lambda>p. p < length (guild_players w)) fs" "distinct fs" "length fs = length (Members g)" "fs \<noteq> []"
  defines "g' \<equiv> g\<lparr>guild_id := m_NextGuild w, pending := False\<rparr>"
  defines "w' \<equiv> found_guild i fs w"
  shows "m_GuildList w' = (m_GuildList w)[i := Some g'] \<and> m_NextGuild w' = m_NextGuild w + 1 \<and>
    GuildFromId w' (m_NextGuild w) = Some i \<and>
    gpl w' (fs ! 0) = (joined g' (gm_Rank (Members g ! 0)) (gpl w (fs ! 0)))\<lparr>gp_Credits := gp_Credits (gpl w (fs ! 0)) - 10000\<rparr> \<and>
    (\<forall>j. 0 < j \<and> j < length fs \<longrightarrow> gpl w' (fs ! j) = joined g' (gm_Rank (Members g ! j)) (gpl w (fs ! j))) \<and>
    (\<forall>q. q \<notin> set fs \<longrightarrow> gpl w' q = gpl w q)"
proof -
  define w1 where "w1 = on_guild i (\<lambda>g. g\<lparr>guild_id := m_NextGuild w, pending := False\<rparr>) (w\<lparr>m_NextGuild := m_NextGuild w + 1\<rparr>)"
  define w3 where "w3 = SendMessageToFounders g' GUILD_MSG_YOU_HAVE_JOINED_GUILD [] (guild_Name g') (SaveNewGuild g' w1)"
  define w4 where "w4 = fold (\<lambda>(p, m) w. g_emit (GuildAuxShip p) (SetupGuildInfo p (guild_id g') (gm_Rank m) False w))
    (zip fs (Members g)) w3"
  have w1: "m_GuildList w1 = (m_GuildList w)[i := Some g']" "m_NextGuild w1 = m_NextGuild w + 1" "guild_players w1 = guild_players w"
    by (simp_all add: w1_def on_guild_def g g'_def)
  have w3: "m_GuildList w3 = (m_GuildList w)[i := Some g']" "m_NextGuild w3 = m_NextGuild w + 1" "guild_players w3 = guild_players w"
    using SaveNewGuild_keeps [of g' w1] w1 by (simp_all add: w3_def quiet_msgs leaves_guild_def)
  have found: "GuildFromId v (m_NextGuild w) = Some i" if "m_GuildList v = (m_GuildList w)[i := Some g']" for v
  proof -
    have "first_index (has_id (m_NextGuild w)) ((m_GuildList w)[i := Some g']) = Some i"
      by (rule first_index_update [OF i _ fresh]) (simp add: guild_hit_def g'_def)
    then show ?thesis using that by (simp add: GuildFromId_def)
  qed
  have id: "guild_id g' = m_NextGuild w" by (simp add: g'_def)
  have w4: "m_GuildList w4 = m_GuildList w3 \<and> m_NextGuild w4 = m_NextGuild w3 \<and>
    length (guild_players w4) = length (guild_players w3) \<and> (\<forall>q. q \<notin> set fs \<longrightarrow> gpl w4 q = gpl w3 q) \<and>
    (\<forall>j < length fs. gpl w4 (fs ! j) = joined g' (gm_Rank (Members g ! j)) (gpl w3 (fs ! j)))"
    unfolding w4_def
    by (rule setup_founders [of w3 g' i]) (use found [of w3] w3 fs i id in auto)
  define w5 where "w5 = g_emit (SaveCreditLevel (hd fs)) (on_gpl (hd fs) (\<lambda>x. x\<lparr>gp_Credits := gp_Credits x - 10000\<rparr>) w4)"
  have w': "w' = SendGuildMessage (hd fs) GUILD_MSG_REGISTRATION_FEE_DEDUCTED (asc ''10000'') [] w5"
  proof -
    have gg: "the_guild w1 i = g'" using i by (simp add: w1)
    show ?thesis
      unfolding w'_def found_guild_def Let_def w1_def [symmetric] gg w3_def [symmetric]
      by (simp add: w5_def w4_def id g'_def)
  qed
  have p': "guild_players w' = (guild_players w4)[hd fs := (gpl w4 (hd fs))\<lparr>gp_Credits := gp_Credits (gpl w4 (hd fs)) - 10000\<rparr>]"
    unfolding w' by (simp add: msg_players leaves_guild_def w5_def on_gpl_def)
  have l': "m_GuildList w' = (m_GuildList w)[i := Some g']" "m_NextGuild w' = m_NextGuild w + 1"
    unfolding w' using w4 w3 by (simp_all add: msg_players w5_def) (simp add: on_gpl_def w4 w3)
  have hd: "hd fs = fs ! 0" using fs(4) by (simp add: hd_conv_nth)
  have "fs ! j \<noteq> fs ! 0" if "0 < j" "j < length fs" for j
    using that fs(2) nth_eq_iff_index_eq [of fs j 0] by force
  moreover have "fs ! 0 < length (guild_players w4)" using fs(1,4) w4 w3 by (cases fs) auto
  moreover have "gpl w' q = (if q = fs ! 0 then (gpl w4 q)\<lparr>gp_Credits := gp_Credits (gpl w4 q) - 10000\<rparr> else gpl w4 q)" for q
    using calculation(2) by (simp add: p' hd)
  moreover have "fs ! 0 \<in> set fs" using fs(4) by simp
  moreover have "gp_Credits (joined g' r p) = gp_Credits p" for r p by (simp add: joined_def)
  ultimately show ?thesis
    using w4 w3 l' found [OF l'(1)] fs(4) by auto
qed

text \<open>
  C27: The last founder accepts, everyone is online and in the sector of the first, who has the
  fee: the pending guild gets the next id, is found under it, every founder belongs to it with the
  rank he was entered with, the first pays 10000 credits, and no other player changes. (No guild that stands
  earlier in the list has that id already; that the pending guild itself has it, which is the usual case, does no harm.)
\<close>

theorem guild_founded:
  assumes i: "GuildFromName_pending w name True = Some i" and g: "m_GuildList w ! i = Some g"
    and k: "GetMemberIndex g pname = Some k"
    and others: "\<forall>j < length (Members g). j \<noteq> k \<longrightarrow> gm_Active (Members g ! j)" and six: "length (Members g) \<le> 6"
    and fs: "list_all2 (\<lambda>p m. GetPlayerFromCharacterID w (gm_avatar_id m) = Some p) fs (Members g)" "distinct fs"
    and range: "list_all (\<lambda>p. p < length (guild_players w) \<and> gp_SectorID (gpl w p) = gp_SectorID (gpl w (hd fs))) fs"
    and fee: "10000 \<le> gp_Credits (gpl w (hd fs))"
    and fresh: "\<forall>a < i. \<not> has_id (m_NextGuild w) (m_GuildList w ! a)"
  defines "g' \<equiv> g\<lparr>guild_id := m_NextGuild w, pending := False,
    Members := (Members g)[k := (Members g ! k)\<lparr>gm_Active := True\<rparr>]\<rparr>"
  defines "w' \<equiv> snd (CheckGuildCreationAccepted name pname w)"
  shows "m_GuildList w' = (m_GuildList w)[i := Some g'] \<and> m_NextGuild w' = m_NextGuild w + 1 \<and>
    GuildFromId w' (m_NextGuild w) = Some i \<and>
    gpl w' (fs ! 0) = (joined g' (gm_Rank (Members g ! 0)) (gpl w (fs ! 0)))\<lparr>gp_Credits := gp_Credits (gpl w (fs ! 0)) - 10000\<rparr> \<and>
    (\<forall>j. 0 < j \<and> j < length fs \<longrightarrow> gpl w' (fs ! j) = joined g' (gm_Rank (Members g ! j)) (gpl w (fs ! j))) \<and>
    (\<forall>q. q \<notin> set fs \<longrightarrow> gpl w' q = gpl w q)"
proof -
  define ms where "ms = (Members g)[k := (Members g ! k)\<lparr>gm_Active := True\<rparr>]"
  define g1 where "g1 = g\<lparr>Members := ms\<rparr>"
  define w1 where "w1 = on_guild i (\<lambda>g. g\<lparr>Members := (Members g)[k := (Members g ! k)\<lparr>gm_Active := True\<rparr>]\<rparr>) w"
  from GuildFromName_pending_Some [OF i] have il: "i < length (m_GuildList w)" by simp
  from gl.lookup_Some [OF k] have kl: "k < length (Members g)" by simp
  have w1: "m_GuildList w1 = (m_GuildList w)[i := Some g1]" "guild_players w1 = guild_players w" "online w1 = online w"
    "m_NextGuild w1 = m_NextGuild w"
    by (simp_all add: w1_def on_guild_def g g1_def ms_def)
  have g1: "m_GuildList w1 ! i = Some g1" using il by (simp add: w1)
  have len: "length fs = length (Members g)" using fs(1) by (simp add: list_all2_lengthD)
  have rank: "gm_Rank (ms ! j) = gm_Rank (Members g ! j)" "gm_avatar_id (ms ! j) = gm_avatar_id (Members g ! j)" for j
    using kl by (cases "j = k"; simp add: ms_def)+
  have act: "list_all gm_Active ms" using others kl by (auto simp: list_all_length ms_def nth_list_update)
  have fo: "founders_online g1 ms [] w1 = (False, [] @ fs, w1)"
  proof (rule founders_online_all)
    show "length [] + length ms \<le> 6" using six by (simp add: ms_def)
    show "list_all2 (\<lambda>p m. GetPlayerFromCharacterID w1 (gm_avatar_id m) = Some p) fs ms"
      using fs(1) by (simp add: list_all2_conv_all_nth rank GetPlayerFromCharacterID_def w1) (simp add: ms_def)
    show "list_all (\<lambda>p. gp_SectorID (gpl w1 p) = gp_SectorID (gpl w1 (hd ([] @ fs)))) fs"
      using range by (simp add: w1 list_all_iff)
  qed
  have w': "w' = found_guild i fs w1"
    unfolding w'_def CheckGuildCreationAccepted_def i option.case GetGuildMember_index g option.sel k Let_def
      w1_def [symmetric] g1
    using act fo fee by (simp add: g1_def w1 not_less [symmetric])
  have fresh1: "\<forall>a < i. \<not> has_id (m_NextGuild w1) (m_GuildList w1 ! a)" using fresh by (simp add: w1)
  have "fs \<noteq> []" using kl len by auto
  have g': "g1\<lparr>guild_id := m_NextGuild w, pending := False\<rparr> = g'" by (cases g) (simp add: g'_def g1_def ms_def)
  have r1: "gm_Rank (Members g1 ! j) = gm_Rank (Members g ! j)" for j by (simp add: g1_def rank)
  have l1: "length fs = length (Members g1)" using len by (simp add: g1_def ms_def)
  have "i < length (m_GuildList w1)" using il by (simp add: w1)
  from found_guild_effect [OF this g1 fresh1, of fs, unfolded w1(4) g' r1] show ?thesis
    using fs(2) l1 range \<open>fs \<noteq> []\<close> unfolding w' by (simp add: w1 list_all_iff)
qed

text \<open>
  Pending guilds take their ids from a counter of their own. When an older pending guild
  already has the id that a guild gets at its foundation, the new guild is not the one that is
  found under its id.
\<close>

theorem pending_id_collides:
  fixes w a i fs
  assumes a: "a < i" "m_GuildList w ! a = Some h" "guild_id h = m_NextGuild w"
    and i: "i < length (m_GuildList w)" "m_GuildList w ! i = Some g"
  defines "w' \<equiv> found_guild i fs w"
  shows "guild_id (the_guild w' i) = m_NextGuild w \<and> GuildFromId w' (m_NextGuild w) \<noteq> Some i"
proof -
  have keep: "m_GuildList (fold (\<lambda>(p, m) w. g_emit (GuildAuxShip p) (SetupGuildInfo p x (gm_Rank m) False w)) ps v) = m_GuildList v"
    for x ps v
    by (induction ps arbitrary: v) auto
  have l: "m_GuildList w' = (m_GuildList w)[i := Some (g\<lparr>guild_id := m_NextGuild w, pending := False\<rparr>)]"
    unfolding w'_def found_guild_def Let_def
    by (simp add: keep quiet_msgs leaves_guild_def SaveNewGuild_keeps) (simp add: on_guild_def i)
  have "has_id (m_NextGuild w) (m_GuildList w' ! a)" using a by (simp add: l guild_hit_def)
  then obtain j where "j \<le> a" "GuildFromId w' (m_NextGuild w) = Some j"
    using first_index_le [of a "m_GuildList w'" "has_id (m_NextGuild w)"] a i by (auto simp: GuildFromId_def l)
  then show ?thesis using a i by (simp add: l)
qed

section \<open>The member list\<close>

lemma member_lines_length:
  assumes "\<And>m. m \<in> set ms \<Longrightarrow> length (member_line g m) \<le> 47"
  shows "ms \<noteq> [] \<Longrightarrow> length (member_lines g ms) + 1 \<le> 48 * length ms"
  using assms
proof (induction g ms rule: member_lines.induct)
  case (3 g m m' ms)
  have "length (member_lines g (m' # ms)) + 1 \<le> 48 * length (m' # ms)" by (rule "3.IH") (use "3.prems" in auto)
  moreover have "length (member_line g m) \<le> 47" using "3.prems" by simp
  ultimately show ?case by simp
qed auto

text \<open>
  With names of at most 15 characters and rank names of at most 31 the list of a guild of up to
  150 members fits into both buffers, on the heap and in the scratch buffer.
\<close>

theorem member_list_fits:
  assumes i: "GuildFromId w (m_GuildID (gpl w me)) = Some i" and g: "m_GuildList w ! i = Some g" and ok: "guild_ok g"
    and names: "\<forall>m \<in> set (Members g). length (gm_Name m) \<le> 15" and ranks: "\<forall>r \<in> set (Ranks g). length (gr_Name r) \<le> 31"
  shows "HandleListAllGuildMembers me w = g_emit (GuildMemberList me (member_lines g (Members g))) w"
proof -
  have "length (member_line g m) \<le> 47" if m: "m \<in> set (Members g)" for m
  proof -
    have rk: "rank_ok (gm_Rank m)" using ok m by (simp add: guild_ok_def list_all_iff)
    then have "unat (gm_Rank m) < length (Ranks g)"
      using ok rank_ok_unat by (simp add: guild_ok_def)
    then have "length (GetRankName g (gm_Rank m)) \<le> 31" using ranks rk by (simp add: GetRankName_def)
    then show ?thesis using names m by (auto simp: member_line_def)
  qed
  then have "Members g \<noteq> [] \<Longrightarrow> length (member_lines g (Members g)) + 1 \<le> 48 * length (Members g)"
    by (rule member_lines_length)
  then have "\<not> list_overflows (length (Members g)) (length (member_lines g (Members g)))"
    by (cases "Members g = []") (auto simp: list_overflows_def)
  then show ?thesis unfolding HandleListAllGuildMembers_def i option.case g option.sel Let_def
    by (simp add: g_fault_if_def)
qed

section \<open>Concrete worlds\<close>

text \<open>Two players, A and B, of a guild with the id 7 in which A is the leader and B a recruit.\<close>

definition demo_member :: "bytes \<Rightarrow> s32 \<Rightarrow> clong \<Rightarrow> GuildMember" where
  "demo_member n r a = \<lparr>gm_Name = n, gm_Rank = r, gm_Contribution = 0, gm_Active = True, gm_Tag = [], gm_avatar_id = a\<rparr>"

definition demo_guild :: Guild where
  "demo_guild = \<lparr>guild_id = 7, guild_Name = [83], guild_MOTD = [], guild_Points = 0, guild_Level = 0, PublicStats = True,
     Ranks = map default_rank [0..<MAX_GUILD_RANKS], Members = [demo_member [65] 9 1, demo_member [66] 0 2], pending = False\<rparr>"

definition demo_gp :: "s32 \<Rightarrow> clong \<Rightarrow> guild_player" where
  "demo_gp gid cid = \<lparr>m_GuildID = gid, gp_CharacterID = cid, gp_SectorID = 1, gp_Credits = 20000, gp_AdminLevel = 0,
     gp_TotalLevel = 20, m_Recruiter = None, ship_GuildName = [], ship_GuildRank = 0, ship_GuildRankName = [],
     guild_channel = False\<rparr>"

definition guild_demo :: "Guild option list \<Rightarrow> s32 \<Rightarrow> guild_world" where
  "guild_demo gs gid = \<lparr>group_world = world_of [] [(a_player (-1))\<lparr>p_Name := [65]\<rparr>, (a_player (-1))\<lparr>p_Name := [66]\<rparr>],
     m_GuildList = gs, m_NextGuild = 8, m_NextPendingGuild = 9, guild_players = [demo_gp gid 1, demo_gp gid 2],
     online = [0, 1], guild_log = [], guild_fault = False\<rparr>"

lemmas guild_demo_defs = demo_member_def demo_guild_def demo_gp_def guild_demo_def world_of_def new_world_def a_player_def

lemma demo_lookup: "GuildFromId (guild_demo [None, Some demo_guild] 7) 7 = Some 1"
  by (simp add: GuildFromId_def guild_hit_def guild_demo_defs)

lemma demo_member_index: "GetMemberIndex demo_guild [66] = Some 1" "GetMemberIndex demo_guild [65] = Some 0"
  by (simp_all add: GetMemberIndex_def guild_demo_defs)

lemma demo_default_rank: "default_rank 9 = \<lparr>gr_Name = asc ''Admiral'', PermissionFlags = PERM_LEADER, MaxPromote = 10, MaxRemove = 9, MinDemote = 1\<rparr>"
  by (simp add: default_rank_def rank_Defaults_def)

lemma demo_leader: "CheckPermission demo_guild [65] PERMISSION_DISBAND = Some True"
proof -
  have "rank_ok 9" by (rule rank_ok_founder)
  then show ?thesis
    by (simp add: CheckPermission_def demo_member_index)
      (simp add: demo_guild_def demo_member_def MAX_GUILD_RANKS_def demo_default_rank PERM_LEADER_def PERMISSION_DISBAND_def)
qed

lemma disband_guild_witness:
  "GuildFromId (HandleDisbandGuild 0 True (guild_demo [None, Some demo_guild] 7)) 7 = None \<and>
   m_GuildID (gpl (HandleDisbandGuild 0 True (guild_demo [None, Some demo_guild] 7)) 1) = -1"
proof -
  let ?w = "guild_demo [None, Some demo_guild] 7"
  have "list_all (\<lambda>p. p < length (guild_players ?w)) (online ?w)" "0 < length (guild_players ?w)"
    "GuildFromId ?w (m_GuildID (gpl ?w 0)) = Some 1" "m_GuildList ?w ! 1 = Some demo_guild"
    "CheckPermission demo_guild (player_name ?w 0) PERMISSION_DISBAND = Some True"
    using demo_lookup demo_leader by (simp_all add: guild_demo_def world_of_def new_world_def demo_gp_def)
  note d = disband_guild [OF this]
  have "guild_id demo_guild = 7" "1 \<in> set (online ?w)" "m_GuildID (gpl ?w 1) = 7" "1 < length (guild_players ?w)"
    by (simp_all add: guild_demo_defs)
  with d show ?thesis by (simp add: clear_guild_info_def)
qed

lemma leave_guild_witness:
  "m_GuildList (HandleLeaveGuild 1 True (guild_demo [None, Some demo_guild] 7)) =
     [None, Some (demo_guild\<lparr>Members := [demo_member [65] 9 1]\<rparr>)]"
proof -
  let ?w = "guild_demo [None, Some demo_guild] 7"
  have p: "1 < length (guild_players ?w)" "GuildFromId ?w (m_GuildID (gpl ?w 1)) = Some 1" "m_GuildList ?w ! 1 = Some demo_guild"
    "distinct (map gm_Name (Members demo_guild))" "GetMemberIndex demo_guild (player_name ?w 1) = Some 1"
    "2 \<le> length (Members demo_guild)"
    using demo_lookup demo_member_index by (simp_all add: guild_demo_defs)
  have "player_name ?w 1 = [66]" "m_GuildList ?w = [None, Some demo_guild]" by (simp_all add: guild_demo_defs)
  moreover have "filter (\<lambda>m. gm_Name m \<noteq> [66]) (Members demo_guild) = [demo_member [65] 9 1]"
    by (simp add: demo_guild_def demo_member_def)
  ultimately show ?thesis using leave_guild [OF p] by simp
qed

lemma guild_answers_misread_witness:
  "guild_players (HandleGuildSimpleClientSector 0 (client_packet 10 5 0 []) (guild_demo [None, Some demo_guild] 7)) =
   guild_players (guild_demo [None, Some demo_guild] 7)"
  using guild_answers_misread [of 5 0 10 0 "[]" "guild_demo [None, Some demo_guild] 7"] by simp

lemma confirmation_promotes_witness:
  "m_GuildList (HandleGuildSimpleClientSector 1 (simple_packet 2 0 1 [66]) (guild_demo [None, Some demo_guild] 7)) =
     [None, Some (demo_guild\<lparr>Members := [demo_member [65] 9 1, demo_member [66] 1 2]\<rparr>)]"
proof -
  let ?w = "guild_demo [None, Some demo_guild] 7"
  have m: "Members demo_guild ! 1 = demo_member [66] 0 2" by (simp add: demo_guild_def)
  have "rank_ok 1" by (simp add: rank_ok_def MAX_GUILD_RANKS_def word_sle_eq word_sless_alt)
  then have r: "rank_ok (gm_Rank (Members demo_guild ! 1) + 1)" unfolding m by (simp add: demo_member_def)
  have p: "GuildFromId ?w (m_GuildID (gpl ?w 1)) = Some 1" "m_GuildList ?w ! 1 = Some demo_guild"
    "GetMemberIndex demo_guild [66] = Some 1"
    using demo_lookup demo_member_index by (simp_all add: guild_demo_def demo_gp_def)
  have c: "cstring [66]" by (simp add: cstring_def)
  show ?thesis
    using confirmation_promotes [OF p r c, of 0 1] unfolding m
    by (simp add: GUILD_PROMOTE_CONFIRM_def demo_member_def) (simp add: guild_demo_def demo_guild_def demo_member_def)
qed

lemma anyone_gm_disbands_witness:
  "GuildFromId (HandleGuildSimpleClientSector 1 (simple_packet 14 0 1 [83]) (guild_demo [None, Some demo_guild] 7)) 7 = None"
proof -
  let ?w = "guild_demo [None, Some demo_guild] 7"
  have p: "list_all (\<lambda>p. p < length (guild_players ?w)) (online ?w)" "GuildFromName ?w [83] = Some 1"
    "m_GuildList ?w ! 1 = Some demo_guild" "cstring [83]"
    by (simp_all add: guild_demo_defs GuildFromName_def guild_hit_def cstring_def)
  show ?thesis using anyone_gm_disbands [OF p, of 1 0 1] by (simp add: GUILD_GM_DISBAND_CONFIRM_def demo_guild_def)
qed

lemma member_list_fits_witness:
  "guild_log (HandleListAllGuildMembers 0 (guild_demo [None, Some demo_guild] 7)) =
     [GuildMemberList 0 (member_lines demo_guild (Members demo_guild))]"
proof -
  let ?w = "guild_demo [None, Some demo_guild] 7"
  have "rank_ok 9" "rank_ok 0" by (rule rank_ok_founder)+
  then have ok: "guild_ok demo_guild"
    by (simp add: guild_ok_def demo_guild_def demo_member_def MAX_GUILD_RANKS_def MAX_GUILD_MEMBERS_def)
  have "\<forall>i \<in> set [0..<10]. length (gr_Name (default_rank i)) \<le> 31"
    by (simp add: upt_rec default_rank_def rank_Defaults_def asc_def)
  then have "\<forall>r \<in> set (Ranks demo_guild). length (gr_Name r) \<le> 31" by (simp add: demo_guild_def MAX_GUILD_RANKS_def)
  moreover have "\<forall>m \<in> set (Members demo_guild). length (gm_Name m) \<le> 15" by (simp add: demo_guild_def demo_member_def)
  moreover have "GuildFromId ?w (m_GuildID (gpl ?w 0)) = Some 1" "m_GuildList ?w ! 1 = Some demo_guild"
    using demo_lookup by (simp_all add: guild_demo_def demo_gp_def)
  ultimately show ?thesis using member_list_fits [of ?w 0 1 demo_guild] ok
    by (simp add: g_emit_def) (simp add: guild_demo_def)
qed

definition full_guild :: Guild where
  "full_guild = demo_guild\<lparr>Members := replicate MAX_GUILD_MEMBERS (demo_member [65] 9 1)\<rparr>"

lemma recruit_into_full_guild_witness:
  "m_GuildID (gpl (HandleRecruitMember2 0 1 True (guild_demo [Some full_guild] 7)) 1) = 7 \<and>
   m_GuildList (HandleRecruitMember2 0 1 True (guild_demo [Some full_guild] 7)) = [Some full_guild]"
proof -
  let ?w = "guild_demo [Some full_guild] 7"
  have p: "GuildFromId ?w (m_GuildID (gpl ?w 0)) = Some 0" "m_GuildList ?w ! 0 = Some full_guild"
    "length (Members full_guild) = MAX_GUILD_MEMBERS" "1 < length (guild_players ?w)"
    by (simp_all add: GuildFromId_def guild_hit_def full_guild_def guild_demo_def demo_gp_def demo_guild_def)
  show ?thesis using recruit_into_full_guild [OF p] by (simp add: full_guild_def demo_guild_def) (simp add: guild_demo_def)
qed

definition new_guild :: "s32 \<Rightarrow> bool \<Rightarrow> Guild" where
  "new_guild gid b = demo_guild\<lparr>guild_id := gid, pending := True,
     Members := [demo_member [65] 9 1, (demo_member [66] 5 2)\<lparr>gm_Active := b\<rparr>]\<rparr>"

lemma guild_founded_witness:
  "m_NextGuild (snd (CheckGuildCreationAccepted [83] [66] (guild_demo [Some demo_guild, Some (new_guild 8 False)] (-1)))) = 9 \<and>
   guild_id (new_guild 8 False) = m_NextGuild (guild_demo [Some demo_guild, Some (new_guild 8 False)] (-1)) \<and>
   gp_Credits (gpl (snd (CheckGuildCreationAccepted [83] [66] (guild_demo [Some demo_guild, Some (new_guild 8 False)] (-1)))) 0) = 10000"
proof -
  let ?w = "guild_demo [Some demo_guild, Some (new_guild 8 False)] (-1)"
  have p: "GuildFromName_pending ?w [83] True = Some 1" "m_GuildList ?w ! 1 = Some (new_guild 8 False)"
    "GetMemberIndex (new_guild 8 False) [66] = Some 1"
    by (simp_all add: GuildFromName_pending_def guild_hit_def new_guild_def GetMemberIndex_def guild_demo_defs)
  have q: "\<forall>j < length (Members (new_guild 8 False)). j \<noteq> 1 \<longrightarrow> gm_Active (Members (new_guild 8 False) ! j)"
    "length (Members (new_guild 8 False)) \<le> 6"
    by (auto simp: new_guild_def demo_member_def less_Suc_eq)
  have r: "list_all2 (\<lambda>p m. GetPlayerFromCharacterID ?w (gm_avatar_id m) = Some p) [0, 1] (Members (new_guild 8 False))"
    "distinct [0::nat, 1]"
    "list_all (\<lambda>p. p < length (guild_players ?w) \<and> gp_SectorID (gpl ?w p) = gp_SectorID (gpl ?w (hd [0, 1]))) [0, 1]"
    "10000 \<le> gp_Credits (gpl ?w (hd [0, 1]))"
    "\<forall>a < 1. \<not> has_id (m_NextGuild ?w) (m_GuildList ?w ! a)"
    by (simp_all add: new_guild_def guild_demo_defs GetPlayerFromCharacterID_def guild_hit_def)
  have "m_NextGuild ?w = 8" "gp_Credits (gpl ?w 0) = 20000" by (simp_all add: guild_demo_def demo_gp_def)
  then show ?thesis using guild_founded [OF p q r] by (simp add: new_guild_def)
qed

lemma pending_id_collides_witness:
  "GuildFromId (found_guild 1 [0, 1] (guild_demo [Some (new_guild 8 False), Some (new_guild 9 True)] (-1))) 8 \<noteq> Some 1"
proof -
  let ?w = "guild_demo [Some (new_guild 8 False), Some (new_guild 9 True)] (-1)"
  have "m_GuildList ?w ! 0 = Some (new_guild 8 False)" "guild_id (new_guild 8 False) = m_NextGuild ?w"
    "1 < length (m_GuildList ?w)" "m_GuildList ?w ! 1 = Some (new_guild 9 True)" "m_NextGuild ?w = 8"
    by (simp_all add: guild_demo_def new_guild_def)
  then show ?thesis using pending_id_collides [of 0 1 ?w "new_guild 8 False" "new_guild 9 True" "[0, 1]"] by simp
qed

definition demo_row :: guild_row where
  "demo_row = \<lparr>row_guild_id = 3, row_guild_name = [83], row_motd = [], row_points = 0, row_level = 0, row_public = True,
     row_ranks = [\<lparr>row_id = 31, row_name = [82], row_permissions = 0, row_maxpromote = 0, row_maxremove = 0, row_mindemote = 1\<rparr>],
     row_members = [\<lparr>row_first_name = [65], row_avatar_id = 1, row_rank = 1, row_active = True, row_contribution = 0, row_tag = []\<rparr>]\<rparr>"

lemma guilds_reachable_wf_witness:
  "\<exists>w g. guild_reachable w \<and> Some g \<in> set (m_GuildList w) \<and> map gm_Name (Members g) = [[65]] \<and> length (Ranks g) = 10"
proof -
  let ?w = "LoadGuildsFromSQL [demo_row] (guild_demo [] (-1))"
  have r1: "rank_ok 1" by (simp add: rank_ok_def MAX_GUILD_RANKS_def word_sle_eq word_sless_alt)
  then have "guild_reachable ?w"
    by (intro guild_reachable.start) (simp_all add: guild_demo_def row_ok_def demo_row_def)
  moreover have f: "\<not> guild_fault ?w" "map_option (map gm_Name \<circ> Members) (m_GuildList ?w ! 0) = Some [[65]]" "length (m_GuildList ?w) = 1"
    using r1
    by (simp_all add: LoadGuildsFromSQL_def load_guild_def demo_row_def AddGuildToList_def AddRankToGuild_def AddMemberToGuild_def
        GuildFromId_def guild_hit_def on_guild_def guild_demo_def g_fault_if_def unterminated_def GetMemberIndex_def
        MAX_GUILD_MEMBERS_def strncpy_text_def Let_def)
  then obtain g where g: "m_GuildList ?w ! 0 = Some g" "map gm_Name (Members g) = [[65]]" by auto
  then have "Some g \<in> set (m_GuildList ?w)" using f(3) by (metis nth_mem zero_less_one)
  ultimately have "guild_reachable ?w \<and> Some g \<in> set (m_GuildList ?w) \<and> map gm_Name (Members g) = [[65]] \<and> length (Ranks g) = 10"
    using guilds_reachable_wf [of ?w g] g f(1) by (simp add: MAX_GUILD_RANKS_def)
  then show ?thesis by (intro exI [of _ ?w] exI [of _ g])
qed

end
