(* ===== verification/PlayerTrade.thy ===== *)
theory PlayerTrade
  imports PlayerInventory
begin

text \<open>
  Trade between players: the trade actions of \<^verbatim>\<open>Player::HandleAction\<close>, \<^verbatim>\<open>CancelTrade\<close>,
  \<^verbatim>\<open>ClearTradeWindowForBoth\<close>, the command \<^verbatim>\<open>/trade\<close> and the moves between cargo and trade window of
  \<^verbatim>\<open>HandleInventoryMove\<close> (\<^verbatim>\<open>server/src/PlayerConnection.cpp\<close>), on top of the inventories.

  A pointer to a player is an index into the list of players, so that a player who trades
  with himself is one and the same entry. \<open>get_player\<close> is the result of
  \<^verbatim>\<open>PlayerManager::GetPlayer\<close> on the current player tables. \<^verbatim>\<open>CargoAddItem\<close> gets a pointer into the
  trade window and may change the item there; the model writes it back. The refresh of clients
  (\<^verbatim>\<open>SendAuxShip\<close>, \<^verbatim>\<open>SendAuxPlayer\<close>) is left out; the experience for traded items is an event with the
  items. \<^term>\<open>None\<close> is an access outside an inventory array.
\<close>

section \<open>State\<close>

record ActionPacket =
  ap_GameID :: s32
  ap_Action :: s32
  ap_Target :: s32
  ap_OptionalVar :: s32

datatype trade_event =
    TradeAction nat clong nat
  | TradeMessage nat string
  | SaveTradeChange nat nat
  | SaveCredits nat
  | AwardTradeXP nat "Item list"
  | TradeCreate nat clong
  | TradeRemoveObject nat clong
  | TradeItemBase nat s32

record trade_player =
  tp_GameID :: clong
  tp_inv :: inventory
  m_TradeID :: clong
  m_TradeConfirm :: bool
  TradeMoney :: u64
  Credits :: u64
  tp_AdminLevel :: clong
  tp_Active :: bool
  tp_InSpace :: bool

record trade_world =
  tplayers :: "trade_player list"
  get_player :: "clong \<Rightarrow> nat option"
  trade_log :: "trade_event list"

abbreviation tp :: "trade_world \<Rightarrow> nat \<Rightarrow> trade_player" where
  "tp w i \<equiv> tplayers w ! i"

definition on_tp :: "nat \<Rightarrow> (trade_player \<Rightarrow> trade_player) \<Rightarrow> trade_world \<Rightarrow> trade_world" where
  "on_tp i f w = w\<lparr>tplayers := (tplayers w)[i := f (tplayers w ! i)]\<rparr>"

definition t_emit :: "trade_event \<Rightarrow> trade_world \<Rightarrow> trade_world" where
  "t_emit e w = w\<lparr>trade_log := trade_log w @ [e]\<rparr>"

definition set_inv :: "inventory \<Rightarrow> trade_player \<Rightarrow> trade_player" where
  "set_inv iv p = p\<lparr>tp_inv := iv\<rparr>"

definition on_window :: "nat \<Rightarrow> (Item \<Rightarrow> Item) \<Rightarrow> trade_player \<Rightarrow> trade_player" where
  "on_window x f p = set_inv ((tp_inv p)\<lparr>TradeInv := (TradeInv (tp_inv p))[x := f (TradeInv (tp_inv p) ! x)]\<rparr>) p"

definition set_trade :: "clong \<Rightarrow> trade_player \<Rightarrow> trade_player" where
  "set_trade i p = p\<lparr>m_TradeID := i\<rparr>"

definition set_confirm :: "bool \<Rightarrow> trade_player \<Rightarrow> trade_player" where
  "set_confirm b p = p\<lparr>m_TradeConfirm := b\<rparr>"

definition set_money :: "u64 \<Rightarrow> trade_player \<Rightarrow> trade_player" where
  "set_money n p = p\<lparr>TradeMoney := n\<rparr>"

section \<open>Handing over items\<close>

text \<open>
  One pass of the loops that add the item in slot \<open>x\<close> of the trade window of \<open>giver\<close> to the
  cargo of \<open>taker\<close>. The result of \<^verbatim>\<open>CargoAddItem\<close> is not looked at.
\<close>

definition give_item :: "item_env \<Rightarrow> nat \<Rightarrow> nat \<Rightarrow> nat \<Rightarrow> trade_world \<Rightarrow> trade_world option" where
  "give_item env giver taker x w =
     (if length (TradeInv (tp_inv (tp w giver))) \<le> x then None
      else case CargoAddItem env False (TradeInv (tp_inv (tp w giver)) ! x) (tp_inv (tp w taker)) of
             None \<Rightarrow> None
           | Some (r, it, iv) \<Rightarrow> Some (on_tp giver (on_window x (\<lambda>_. it)) (on_tp taker (set_inv iv) w)))"

primrec give_items :: "item_env \<Rightarrow> nat \<Rightarrow> nat \<Rightarrow> nat list \<Rightarrow> trade_world \<Rightarrow> trade_world option" where
  "give_items env giver taker [] w = Some w"
| "give_items env giver taker (x # xs) w =
     Option.bind (give_item env giver taker x w) (give_items env giver taker xs)"

definition empty_window :: "nat \<Rightarrow> nat \<Rightarrow> trade_world \<Rightarrow> trade_world" where
  "empty_window p x w =
     (if ItemTemplateID (TradeInv (tp_inv (tp w p)) ! x) \<noteq> -1
      then t_emit (SaveTradeChange p x) (on_tp p (on_window x (item_upd AuxItem_Empty)) w) else w)"

definition ClearTradeWindowForBoth :: "nat \<Rightarrow> nat \<Rightarrow> trade_world \<Rightarrow> trade_world" where
  "ClearTradeWindowForBoth me target w =
     fold (\<lambda>x w. empty_window me x (empty_window target x w)) [0..<6] w"

section \<open>Actions\<close>

text \<open>
  Action 20. The message about a player who is already trading does not end the action. The
  partner's side is set to the game id in the packet.
\<close>

definition trade_open :: "nat \<Rightarrow> ActionPacket \<Rightarrow> trade_world \<Rightarrow> trade_world" where
  "trade_open me a w =
     (case get_player w (scast (ap_Target a)) of None \<Rightarrow> w
      | Some target \<Rightarrow>
          let w1 = (if m_TradeID (tp w target) \<noteq> -1
                    then t_emit (TradeMessage me ''That player is already trading with someone!'') w else w);
              w2 = (if tp_Active (tp w me) \<and> scast (ap_Target a) \<noteq> tp_GameID (tp w me) \<and> \<not> tp_InSpace (tp w me)
                    then t_emit (TradeCreate target (tp_GameID (tp w me)))
                           (t_emit (TradeCreate me (tp_GameID (tp w target))) w1)
                    else w1);
              w3 = t_emit (TradeAction target (scast (ap_GameID a)) 0) (t_emit (TradeAction me (scast (ap_Target a)) 0) w2);
              w4 = on_tp me (set_confirm False) (on_tp me (set_trade (scast (ap_Target a))) w3)
          in on_tp target (set_confirm False) (on_tp target (set_trade (scast (ap_GameID a))) w4))"

definition pay :: "nat \<Rightarrow> nat \<Rightarrow> trade_world \<Rightarrow> trade_world" where
  "pay p q w =
     t_emit (SaveCredits p)
       (on_tp p (\<lambda>x. x\<lparr>Credits := Credits x + TradeMoney (tp w q) - TradeMoney (tp w p)\<rparr>) w)"

text \<open>Both confirmed: the part of action 21 from closing the windows on.\<close>

definition remove_objects :: "bool \<Rightarrow> nat \<Rightarrow> nat \<Rightarrow> trade_world \<Rightarrow> trade_world" where
  "remove_objects c me target w =
     (if c then t_emit (TradeRemoveObject target (tp_GameID (tp w me)))
                  (t_emit (TradeRemoveObject me (tp_GameID (tp w target))) w)
      else w)"

definition after_trade :: "nat \<Rightarrow> nat \<Rightarrow> ActionPacket \<Rightarrow> Item list \<Rightarrow> Item list \<Rightarrow> trade_world \<Rightarrow> trade_world" where
  "after_trade me target a mine theirs w =
     (let w6 = ClearTradeWindowForBoth me target w;
          w7 = on_tp me (set_money 0) (on_tp target (set_money 0) w6);
          w8 = t_emit (AwardTradeXP me mine) (t_emit (AwardTradeXP target theirs) w7)
      in remove_objects (tp_Active (tp w8 me) \<and> scast (ap_Target a) \<noteq> tp_GameID (tp w8 me) \<and> \<not> tp_InSpace (tp w8 me))
           me target w8)"

definition complete_trade :: "item_env \<Rightarrow> nat \<Rightarrow> nat \<Rightarrow> ActionPacket \<Rightarrow> trade_world \<Rightarrow> trade_world option" where
  "complete_trade env me target a w =
     (let w1 = t_emit (TradeAction target (scast (ap_GameID a)) 2) (t_emit (TradeAction me (m_TradeID (tp w me)) 2) w);
          w2 = on_tp target (set_trade (-1)) (on_tp me (set_trade (-1)) w1);
          w3 = pay target me (pay me target w2)
      in do {
        w4 \<leftarrow> give_items env target me [0..<6] w3;
        w5 \<leftarrow> give_items env me target [0..<6] w4;
        Some (after_trade me target a (TradeInv (tp_inv (tp w4 me))) (TradeInv (tp_inv (tp w3 target))) w5)
      })"

definition trade_confirm :: "item_env \<Rightarrow> nat \<Rightarrow> ActionPacket \<Rightarrow> trade_world \<Rightarrow> trade_world option" where
  "trade_confirm env me a w =
     (case get_player w (m_TradeID (tp w me)) of None \<Rightarrow> Some w
      | Some target \<Rightarrow> do {
          free \<leftarrow> CargoFreeSpace (tp_inv (tp w me));
          if free < TradeSpaceUsed (tp_inv (tp w target))
          then Some (t_emit (TradeMessage target ''Other player doesnt have enough inventory space!'')
                       (t_emit (TradeMessage me ''You dont have enough inventory space!'') w))
          else do {
            ok \<leftarrow> CanReceiveTradeItems env (tp_inv (tp w target)) (tp_inv (tp w me));
            if \<not> ok
            then Some (t_emit (TradeMessage target ''Other player already has that unique item!'')
                         (t_emit (TradeMessage me ''You already have that unique item!'') w))
            else let w1 = t_emit (TradeAction target 0 5) (t_emit (TradeAction me 0 3) (on_tp me (set_confirm True) w))
                 in if m_TradeConfirm (tp w1 target) then complete_trade env me target a w1 else Some w1
          }
        })"

definition after_cancel :: "nat \<Rightarrow> nat \<Rightarrow> trade_world \<Rightarrow> trade_world" where
  "after_cancel me target w =
     (let w6 = ClearTradeWindowForBoth me target w;
          w7 = on_tp me (set_confirm False) (on_tp target (set_confirm False) w6)
      in remove_objects (\<not> tp_Active (tp w7 me) \<and> m_TradeID (tp w7 me) \<noteq> tp_GameID (tp w7 me)) me target w7)"

definition CancelTrade :: "item_env \<Rightarrow> nat \<Rightarrow> trade_world \<Rightarrow> trade_world option" where
  "CancelTrade env me w =
     (case get_player w (m_TradeID (tp w me)) of None \<Rightarrow> Some w
      | Some target \<Rightarrow>
          let w1 = t_emit (TradeAction target (tp_GameID (tp w me)) 1) (t_emit (TradeAction me (m_TradeID (tp w me)) 1) w);
              w2 = on_tp target (set_trade (-1)) (on_tp me (set_trade (-1)) w1);
              w3 = on_tp me (set_money 0) (on_tp target (set_money 0) w2)
          in do {
            w4 \<leftarrow> give_items env me me [0..<6] w3;
            w5 \<leftarrow> give_items env target target [0..<6] w4;
            Some (after_cancel me target w5)
          })"

text \<open>Action 24. The number is not compared with what the player has, and is sign extended.\<close>

definition trade_money :: "nat \<Rightarrow> ActionPacket \<Rightarrow> trade_world \<Rightarrow> trade_world" where
  "trade_money me a w =
     (case get_player w (m_TradeID (tp w me)) of None \<Rightarrow> w
      | Some target \<Rightarrow>
          let w1 = on_tp me (set_money (scast (ap_OptionalVar a))) w;
              w2 = t_emit (TradeAction target (m_TradeID (tp w1 me)) 4) (t_emit (TradeAction me (m_TradeID (tp w1 me)) 4) w1)
          in on_tp target (set_confirm False) (on_tp me (set_confirm False) w2))"

text \<open>The trade actions of \<^verbatim>\<open>HandleAction\<close>; the others do not touch a trade.\<close>

definition HandleTradeAction :: "item_env \<Rightarrow> nat \<Rightarrow> ActionPacket \<Rightarrow> trade_world \<Rightarrow> trade_world option" where
  "HandleTradeAction env me a w =
     (if ap_Action a = 20 then Some (trade_open me a w)
      else if ap_Action a = 21 then trade_confirm env me a w
      else if ap_Action a = 22 then CancelTrade env me w
      else if ap_Action a = 24 then Some (trade_money me a w)
      else Some w)"

text \<open>
  The command \<^verbatim>\<open>/trade\<close> with the player its parameter names; \<open>near\<close> is the test of the range list.
\<close>

definition trade_command :: "nat \<Rightarrow> nat option \<Rightarrow> bool \<Rightarrow> trade_world \<Rightarrow> trade_world" where
  "trade_command me targetp near w =
     (case targetp of None \<Rightarrow> t_emit (TradeMessage me ''Could not find player %s'') w
      | Some target \<Rightarrow>
          if \<not> near \<and> tp_AdminLevel (tp w me) <s BETA_PLUS
          then t_emit (TradeMessage me ''%s needs to be closer for trade'') w
          else if tp_GameID (tp w target) = tp_GameID (tp w me) \<and> \<not> GM \<le>s tp_AdminLevel (tp w me)
          then t_emit (TradeMessage me ''Cannot trade with yourself!'') w
          else if m_TradeID (tp w target) \<noteq> -1 then t_emit (TradeMessage me ''Target is already trading'') w
          else let w1 = ClearTradeWindowForBoth me target w;
                   w2 = t_emit (TradeAction target (tp_GameID (tp w1 me)) 0)
                          (t_emit (TradeAction me (tp_GameID (tp w1 target)) 0) w1);
                   w3 = on_tp me (set_confirm False) (on_tp me (set_trade (tp_GameID (tp w2 target))) w2)
               in on_tp target (set_confirm False) (on_tp target (set_trade (tp_GameID (tp w3 me))) w3))"

section \<open>Moves between cargo and trade window\<close>

definition IB_CATEGORY_TRADE_GOOD :: s32 where "IB_CATEGORY_TRADE_GOOD = 90"
definition ITEM_FLAGS_NO_TRADE :: s32 where "ITEM_FLAGS_NO_TRADE = 1"

text \<open>What both moves do after the slots were exchanged.\<close>

definition unconfirm :: "nat \<Rightarrow> nat \<Rightarrow> trade_world \<Rightarrow> trade_world" where
  "unconfirm me target w =
     on_tp me (set_confirm False) (on_tp target (set_confirm False)
       (t_emit (TradeAction me 0 6) (t_emit (TradeAction target 0 6) w)))"

definition on_tp_cargo :: "nat \<Rightarrow> (Item \<Rightarrow> Item) \<Rightarrow> trade_player \<Rightarrow> trade_player" where
  "on_tp_cargo i f p = set_inv (on_cargo i f (tp_inv p)) p"

definition save_cargo :: "item_env \<Rightarrow> nat \<Rightarrow> trade_player \<Rightarrow> trade_player" where
  "save_cargo env i p = set_inv (save_cargo_slot env i (tp_inv p)) p"

definition put_in_window :: "item_env \<Rightarrow> nat \<Rightarrow> nat \<Rightarrow> nat \<Rightarrow> Item \<Rightarrow> Item \<Rightarrow> trade_world \<Rightarrow> trade_world" where
  "put_in_window env me f t Source Destination w =
     (case get_player w (m_TradeID (tp w me)) of None \<Rightarrow> w
      | Some target \<Rightarrow>
          let w1 = t_emit (TradeItemBase target (ItemTemplateID Source)) w;
              w2 = on_tp me (on_window t (set_slot Source)) (on_tp me (on_tp_cargo f (set_slot Destination)) w1)
          in t_emit (SaveTradeChange me t) (on_tp me (save_cargo env f) (unconfirm me target w2)))"

definition cargo_to_trade :: "item_env \<Rightarrow> nat \<Rightarrow> InvMove \<Rightarrow> trade_world \<Rightarrow> trade_world option" where
  "cargo_to_trade env me m w =
     (let f = unat (FromSlot m); t = unat (ToSlot m); iv = tp_inv (tp w me)
      in if length (CargoInv iv) \<le> f \<or> length (TradeInv iv) \<le> t then None
         else let Source = CargoInv iv ! f; Destination = TradeInv iv ! t
              in if m_TradeID (tp w me) = -1 then Some w
                 else case (if tp_AdminLevel (tp w me) <s GM then GetItem env (scast (ItemTemplateID Source)) else None) of
                        Some b \<Rightarrow>
                          if ib_Category b = IB_CATEGORY_TRADE_GOOD
                          then Some (t_emit (TradeMessage me ''Cannot trade goods.'') w)
                          else if ib_Flags b AND ITEM_FLAGS_NO_TRADE \<noteq> 0
                          then Some (t_emit (TradeMessage me ''You can not trade an untradeable item.'') w)
                          else Some (put_in_window env me f t Source Destination w)
                      | None \<Rightarrow> Some (put_in_window env me f t Source Destination w))"

text \<open>Back to cargo; the first cargo slot is not accepted.\<close>

definition trade_to_cargo :: "item_env \<Rightarrow> nat \<Rightarrow> InvMove \<Rightarrow> trade_world \<Rightarrow> trade_world option" where
  "trade_to_cargo env me m w =
     (let f = unat (FromSlot m); t = unat (ToSlot m); iv = tp_inv (tp w me)
      in if length (TradeInv iv) \<le> f then None
         else if \<not> (ToInv m = 1 \<and> 0 <s ToSlot m) then Some w
         else if length (CargoInv iv) \<le> t then None
         else let Source = TradeInv iv ! f; Destination = CargoInv iv ! t
              in if m_TradeID (tp w me) = -1 then Some w
                 else case get_player w (m_TradeID (tp w me)) of None \<Rightarrow> Some w
                      | Some target \<Rightarrow>
                          let w1 = t_emit (TradeItemBase target (ItemTemplateID Source)) w;
                              w2 = on_tp me (save_cargo env t) (on_tp me (on_tp_cargo t (set_slot Source)) w1);
                              w3 = t_emit (SaveTradeChange me f) (on_tp me (on_window f (set_slot Destination)) w2)
                          in Some (unconfirm me target w3))"

end
