(* ===== verification/TradeProps.thy ===== *)
theory TradeProps
  imports PlayerTrade InventoryProps
begin

text \<open>
  Correctness of trade: a completed trade exchanges exactly the contents of the two windows and the
  offered credits, a cancelled one returns them; what a player who trades with himself gains, and
  what the unchecked number of credits allows. Taking items into the cargo saves slots, which may
  complete a stage of a mission and then changes items and credits; the theorems on whole trades
  are about players for whom that does not happen (\<^verbatim>\<open>missions_quiet\<close>).
\<close>

section \<open>One item into a cargo with room\<close>

lemma loops_keep_windows:
  assumes q [simp]: "missions_quiet env"
  shows "TradeInv (snd (snd (snd (stack_loop env c my m is cur tr iv)))) = TradeInv iv"
  "TradeInv (snd (snd (fill_loop env c my m is cur tr iv))) = TradeInv iv"
proof -
  have k [simp]: "TradeInv (slot_changed env c i (on_cargo i f iv)) = TradeInv iv" for i f iv
    by (simp add: on_cargo_def)
  show "TradeInv (snd (snd (snd (stack_loop env c my m is cur tr iv)))) = TradeInv iv"
    by (induction "is" arbitrary: cur tr iv) (simp_all add: Let_def)
  show "TradeInv (snd (snd (fill_loop env c my m is cur tr iv))) = TradeInv iv"
    by (induction "is" arbitrary: cur tr iv) simp_all
qed

text \<open>A slot either stays as it is or holds the item that was added.\<close>

definition slotwise :: "s32 \<Rightarrow> inventory \<Rightarrow> inventory \<Rightarrow> bool" where
  "slotwise k iv iv' \<longleftrightarrow> (\<forall>i. CargoInv iv' ! i = CargoInv iv ! i \<or> ItemTemplateID (CargoInv iv' ! i) = k)"

lemma slotwise_refl [simp]: "slotwise k iv iv"
  by (simp add: slotwise_def)

lemma slotwise_trans: "slotwise k iv iv1 \<Longrightarrow> slotwise k iv1 iv2 \<Longrightarrow> slotwise k iv iv2"
  unfolding slotwise_def by metis

lemma slotwise_place:
  assumes "ItemTemplateID (f (CargoInv iv ! i)) = k" and q [simp]: "missions_quiet env"
  shows "slotwise k iv (slot_changed env c i (on_cargo i f iv))"
  unfolding slotwise_def
proof
  fix j
  show "CargoInv (slot_changed env c i (on_cargo i f iv)) ! j = CargoInv iv ! j \<or>
      ItemTemplateID (CargoInv (slot_changed env c i (on_cargo i f iv)) ! j) = k"
    using assms by (cases "i = j"; cases "i < length (CargoInv iv)") (simp_all add: list_update_beyond)
qed

lemma stack_loop_slotwise:
  assumes q [simp]: "missions_quiet env"
  shows "slotwise (ItemTemplateID my) iv (snd (snd (snd (stack_loop env c my m is cur tr iv))))"
proof (induction "is" arbitrary: cur tr iv)
  case (Cons i "is")
  let ?it = "CargoInv iv ! i"
  show ?case
  proof (cases "stackable my ?it")
    case True
    then have "ItemTemplateID (stack_full env my m tr ?it) = ItemTemplateID my"
      "ItemTemplateID (stack_rest env my cur tr ?it) = ItemTemplateID my" by (simp_all add: stackable_def)
    then show ?thesis
      using True Cons.IH slotwise_place [of "stack_full env my m tr" iv i "ItemTemplateID my" env c]
        slotwise_place [of "stack_rest env my cur tr" iv i "ItemTemplateID my" env c]
      by (auto simp del: stack_loop.simps simp: stack_loop_Cons intro: slotwise_trans)
  next
    case False
    then show ?thesis using Cons.IH by (simp del: stack_loop.simps add: stack_loop_Cons)
  qed
qed simp

lemma fill_loop_slotwise:
  assumes q [simp]: "missions_quiet env"
  shows "slotwise (ItemTemplateID my) iv (snd (snd (fill_loop env c my m is cur tr iv)))"
proof (induction "is" arbitrary: cur tr iv)
  case (Cons i "is")
  show ?case
    using Cons.IH slotwise_place [of "fill_full env my m tr" iv i "ItemTemplateID my" env c]
      slotwise_place [of "fill_rest env my cur tr" iv i "ItemTemplateID my" env c]
    by (auto intro: slotwise_trans)
qed simp

lemma fill_loop_once:
  "\<not> m < cur \<Longrightarrow> snd (snd (fill_loop env c my m is cur tr iv)) = iv \<or>
     (\<exists>i \<in> set is. snd (snd (fill_loop env c my m is cur tr iv)) = slot_changed env c i (on_cargo i (fill_rest env my cur tr) iv))"
  by (induction "is" arbitrary: iv) auto

lemma empties_one:
  assumes "distinct is" and "\<And>j. j \<noteq> i \<Longrightarrow> CargoInv iv' ! j = CargoInv iv ! j"
  shows "empties is iv \<le> empties is iv' + 1"
proof -
  let ?E = "\<lambda>iv. {j \<in> set is. ItemTemplateID (CargoInv iv ! j) = -1}"
  have "?E iv \<subseteq> insert i (?E iv')" using assms(2) by auto
  then have "card (?E iv) \<le> card (insert i (?E iv'))" by (intro card_mono) auto
  also have "\<dots> \<le> card (?E iv') + 1" by (simp add: card_insert_if)
  finally show ?thesis using assms(1) by (simp add: empties_def distinct_length_filter Int_def conj_commute)
qed

text \<open>What a cargo is like: empty slots and stacks of known items within their limits.\<close>

definition item_known :: "item_env \<Rightarrow> Item \<Rightarrow> bool" where
  "item_known env it \<longleftrightarrow> ItemTemplateID it = -1 \<or>
     0 <s ItemTemplateID it \<and> (case GetItem env (scast (ItemTemplateID it)) of None \<Rightarrow> False | Some b \<Rightarrow> StackCount it \<le> MaxStack b)"

definition cargo_stock :: "item_env \<Rightarrow> inventory \<Rightarrow> bool" where
  "cargo_stock env iv \<longleftrightarrow> unat (CargoSpace iv) \<le> length (CargoInv iv) \<and>
     list_all (\<lambda>i. item_known env (CargoInv iv ! i)) (slots iv)"

lemma cargo_stock_ok: "cargo_stock env iv \<Longrightarrow> GetItem env (scast k) = Some b \<Longrightarrow> k \<noteq> -1 \<Longrightarrow> cargo_ok k b iv"
  by (auto simp: cargo_stock_def cargo_ok_def list_all_iff item_known_def fits_def)

lemma CargoAddItem_meta:
  assumes "CargoAddItem env c my iv = Some (r, my', iv')" and q [simp]: "missions_quiet env"
  shows "TradeInv iv' = TradeInv iv \<and> ItemTemplateID my' = ItemTemplateID my \<and> StackCount my' = StackCount my"
proof -
  have q: "StackCount (snd (QualityCalculator env it)) = StackCount it" for it
    by (simp add: QualityCalculator_def Let_def split: option.splits)
  have e: "TradeInv (inv_emit x iv) = TradeInv iv" for x by (simp add: inv_emit_def)
  have s: "stack_loop env c m x is cu tr v = (st, cur, tr', iv2) \<Longrightarrow> TradeInv iv2 = TradeInv v" for m x "is" cu tr v st cur tr' iv2
    using loops_keep_windows(1) [OF assms(2), of c m x "is" cu tr v] by simp
  have f: "fill_loop env c m x is cu tr v = (st, cur, iv2) \<Longrightarrow> TradeInv iv2 = TradeInv v" for m x "is" cu tr v st cur iv2
    using loops_keep_windows(2) [OF assms(2), of c m x "is" cu tr v] by simp
  show ?thesis
    using assms by (auto simp: CargoAddItem_def Let_def q e dest!: s f split: if_splits option.splits prod.splits)
qed

lemma CargoAddItem_one:
  assumes stock: "cargo_stock env iv" and b: "GetItem env (scast (ItemTemplateID my)) = Some b" and id: "0 <s ItemTemplateID my"
    and n: "0 < StackCount my" "StackCount my \<le> MaxStack b" and room: "1 \<le> empties (slots iv) iv" and q [simp]: "missions_quiet env"
  obtains my' iv' where "CargoAddItem env c my iv = Some (0, my', iv')"
    "cargo_stock env iv'" "CargoSpace iv' = CargoSpace iv" "SecureInv iv' = SecureInv iv"
    "empties (slots iv) iv \<le> empties (slots iv') iv' + 1"
    "\<And>k. k \<noteq> -1 \<Longrightarrow> total k (CargoInv iv') = total k (CargoInv iv) + cnt k my"
proof -
  let ?k = "ItemTemplateID my" and ?m = "MaxStack b"
  have k1: "?k \<noteq> -1" using id by auto
  have ok: "cargo_ok ?k b iv" by (rule cargo_stock_ok [OF stock b k1])
  have lim: "unat (StackCount my) + 2 ^ 16 < 2 ^ 32" using n(2) MaxStack_less [of b] by (simp add: word_le_nat_alt)
  obtain r my' iv' left where add: "CargoAddItem env c my iv = Some (r, my', iv')"
    and c: "conserve ?k ?m (slots iv) (unat (StackCount my)) iv left iv'"
    and out: "r = 0 \<and> left = 0 \<or> r = -3 \<and> (0 < left \<or> StackCount my = 0) \<and>
       left + empties (slots iv) iv * unat ?m + (if 1 < ?m then stack_room my ?m (slots iv) iv else 0) = unat (StackCount my)"
    using CargoAddItem_outcome [OF b ok lim q, of c] by blast
  have r: "r = 0 \<and> left = 0"
  proof (rule ccontr)
    assume "\<not> (r = 0 \<and> left = 0)"
    define E where "E = empties (slots iv) iv * unat ?m"
    have "unat ?m \<le> E" using room by (simp add: E_def)
    moreover have "left + E \<le> unat (StackCount my)" "0 < left \<or> StackCount my = 0"
      using out \<open>\<not> (r = 0 \<and> left = 0)\<close> unfolding E_def [symmetric] by auto
    moreover have "unat (StackCount my) \<le> unat ?m" "0 < unat (StackCount my)"
      using n by (simp_all add: word_le_nat_alt word_less_nat_alt)
    ultimately show False by auto
  qed
  have o: "only_slots (slots iv) iv iv'" using c by (simp add: conserve_def)
  then have sp: "CargoSpace iv' = CargoSpace iv" "SecureInv iv' = SecureInv iv" "length (CargoInv iv') = length (CargoInv iv)"
    by (simp_all add: only_slots_def)
  have space: "unat (CargoSpace iv) \<le> length (CargoInv iv)" using stock by (simp add: cargo_stock_def)
  obtain my2 iv1 stored cur tr iv2 filled cur' iv3 where
      my2: "ItemTemplateID my2 = ?k" "Quality my2 = Quality my" "BuilderName my2 = BuilderName my" and iv1: "CargoInv iv1 = CargoInv iv"
      and s: "(if 1 < ?m then stack_loop env c my2 ?m (slots iv) (StackCount my) (TradeStack my) iv1
        else (False, StackCount my, TradeStack my, iv1)) = (stored, cur, tr, iv2)"
      and f: "fill_loop env c my2 ?m (slots iv) cur tr iv2 = (filled, cur', iv3)"
      and ad2: "CargoAddItem env c my iv = Some (if stored then (0, my2, iv2) else (if filled then 0 else -3, my2, iv3))"
    using CargoAddItem_loops [OF b space, of c] by metis
  have iv': "iv' = (if stored then iv2 else iv3)" using add ad2 by (simp split: if_splits)
  have sw2: "slotwise ?k iv iv2"
    using s stack_loop_slotwise [OF q, of my2 iv1 c ?m "slots iv" "StackCount my" "TradeStack my"] my2(1) iv1
    by (auto simp: slotwise_def split: if_splits)
  have sw3: "slotwise ?k iv2 iv3" using fill_loop_slotwise [OF q, of my2 iv2 c ?m "slots iv" cur tr] f my2(1) by simp
  have sw: "slotwise ?k iv iv'" unfolding iv' using sw2 slotwise_trans [OF sw2 sw3] by simp
  have stock': "cargo_stock env iv'"
  proof -
    have "item_known env (CargoInv iv' ! i)" if i: "i \<in> set (slots iv)" for i
    proof (cases "CargoInv iv' ! i = CargoInv iv ! i")
      case True
      then show ?thesis using stock i by (simp add: cargo_stock_def list_all_iff)
    next
      case False
      then have id': "ItemTemplateID (CargoInv iv' ! i) = ?k" using sw by (auto simp: slotwise_def)
      have "fits ?k ?m (CargoInv iv' ! i)" using c ok i by (auto simp: conserve_def cargo_ok_def list_all_iff)
      then show ?thesis using id' id b by (simp add: item_known_def fits_def)
    qed
    then show ?thesis using space sp by (simp add: cargo_stock_def list_all_iff)
  qed
  have e2: "empties (slots iv) iv2 = empties (slots iv) iv"
    using s stack_loop_ids [of env c my2 ?m] iv1 space by (intro empties_ids) (auto split: if_splits)
  have e: "empties (slots iv) iv \<le> empties (slots iv) iv' + 1"
  proof (cases stored)
    case True
    then show ?thesis using e2 iv' by simp
  next
    case False
    have fit: "\<forall>i \<in> set (slots iv). i < length (CargoInv iv1) \<and> fits (ItemTemplateID my2) ?m (CargoInv iv1 ! i)"
      using ok iv1 my2(1) by (auto simp: cargo_ok_def list_all_iff)
    have "unat cur \<le> unat (StackCount my)"
      using s False stack_loop_left [of env c my2 ?m "slots iv" "StackCount my" "TradeStack my" iv1 cur tr iv2] fit lim MaxStack_less [of b]
      by (auto split: if_splits)
    then have "\<not> ?m < cur" using n(2) by (simp add: word_le_nat_alt word_less_nat_alt)
    from fill_loop_once [OF this, of env c my2 "slots iv" tr iv2] f
    consider "iv3 = iv2" | i where "iv3 = slot_changed env c i (on_cargo i (fill_rest env my2 cur tr) iv2)" by auto
    then have "empties (slots iv) iv2 \<le> empties (slots iv) iv3 + 1"
    proof cases
      case 2
      show ?thesis by (rule empties_one [of _ i]) (simp_all add: 2)
    qed simp
    then show ?thesis using False iv' e2 by simp
  qed
  have tot: "total k (CargoInv iv') = total k (CargoInv iv) + cnt k my" if "k \<noteq> -1" for k
  proof -
    have "amt k (slots iv) iv' = amt k (slots iv) iv + cnt k my"
      using c r that by (auto simp: conserve_def cnt_def)
    then show ?thesis using total_slots [OF space o, of k] by simp
  qed
  show thesis using that [of my' iv'] add r stock' sp e tot by simp
qed

section \<open>Handing over a window\<close>

text \<open>What can be in a trade window: nothing, or a stack of a known item.\<close>

definition window_item :: "item_env \<Rightarrow> Item \<Rightarrow> bool" where
  "window_item env it \<longleftrightarrow> item_known env it \<and> (ItemTemplateID it \<noteq> -1 \<longrightarrow> 0 < StackCount it)"

definition kind :: "Item \<Rightarrow> s32 \<times> u32" where
  "kind it = (ItemTemplateID it, StackCount it)"

abbreviation tinv :: "trade_world \<Rightarrow> nat \<Rightarrow> inventory" where
  "tinv w p \<equiv> tp_inv (tp w p)"

definition window_ok :: "item_env \<Rightarrow> inventory \<Rightarrow> bool" where
  "window_ok env iv \<longleftrightarrow> length (TradeInv iv) = 6 \<and> list_all (window_item env) (TradeInv iv)"

definition offered :: "Item list \<Rightarrow> nat list \<Rightarrow> nat" where
  "offered ws xs = length (filter (\<lambda>x. ItemTemplateID (ws ! x) \<noteq> -1) xs)"

text \<open>
  Between two worlds: nothing but inventories changes; \<open>taker\<close> gained \<open>gain k\<close> items of every
  kind \<open>k\<close> in his cargo, nobody else's cargo changed its numbers, and the windows hold the same items.
\<close>

definition meta :: "trade_player \<Rightarrow> clong \<times> clong \<times> bool \<times> u64 \<times> u64 \<times> clong \<times> bool \<times> bool" where
  "meta p = (tp_GameID p, m_TradeID p, m_TradeConfirm p, TradeMoney p, Credits p, tp_AdminLevel p, tp_Active p, tp_InSpace p)"

definition handed_at :: "item_env \<Rightarrow> (s32 \<Rightarrow> nat) option \<Rightarrow> trade_player \<Rightarrow> trade_player \<Rightarrow> bool" where
  "handed_at env gain p p' \<longleftrightarrow>
     meta p' = meta p \<and> map kind (TradeInv (tp_inv p')) = map kind (TradeInv (tp_inv p)) \<and>
     SecureInv (tp_inv p') = SecureInv (tp_inv p) \<and> CargoSpace (tp_inv p') = CargoSpace (tp_inv p) \<and>
     (cargo_stock env (tp_inv p) \<longrightarrow> cargo_stock env (tp_inv p')) \<and>
     (case gain of None \<Rightarrow> CargoInv (tp_inv p') = CargoInv (tp_inv p)
      | Some f \<Rightarrow> \<forall>k. k \<noteq> -1 \<longrightarrow> total k (CargoInv (tp_inv p')) = total k (CargoInv (tp_inv p)) + f k)"

definition handed :: "item_env \<Rightarrow> nat \<Rightarrow> (s32 \<Rightarrow> nat) \<Rightarrow> trade_world \<Rightarrow> trade_world \<Rightarrow> bool" where
  "handed env taker gain w w' \<longleftrightarrow>
     length (tplayers w') = length (tplayers w) \<and> get_player w' = get_player w \<and>
     (\<forall>p < length (tplayers w). handed_at env (if p = taker then Some gain else None) (tp w p) (tp w' p))"

lemma handed_at_refl: "handed_at env (Some (\<lambda>_. 0)) p p" "handed_at env None p p"
  by (simp_all add: handed_at_def)

lemma handed_refl: "handed env taker (\<lambda>_. 0) w w"
  by (simp add: handed_def handed_at_refl)

lemma handed_at_trans:
  "handed_at env (Some f) p p1 \<Longrightarrow> handed_at env (Some g) p1 p2 \<Longrightarrow> handed_at env (Some (\<lambda>k. f k + g k)) p p2"
  "handed_at env None p p1 \<Longrightarrow> handed_at env None p1 p2 \<Longrightarrow> handed_at env None p p2"
  by (simp_all add: handed_at_def)

lemma handed_trans:
  assumes "handed env t f w w1" and "handed env t g w1 w2"
  shows "handed env t (\<lambda>k. f k + g k) w w2"
  unfolding handed_def
proof (intro conjI allI impI)
  fix p assume p: "p < length (tplayers w)"
  have l: "length (tplayers w1) = length (tplayers w)" using assms(1) by (simp add: handed_def)
  show "handed_at env (if p = t then Some (\<lambda>k. f k + g k) else None) (tp w p) (tp w2 p)"
    using assms p l handed_at_trans unfolding handed_def by (cases "p = t") fastforce+
qed (use assms in \<open>simp_all add: handed_def\<close>)

lemma kind_item:
  assumes "kind it' = kind it"
  shows "window_item env it' = window_item env it" "cnt k it' = cnt k it"
    "(ItemTemplateID it' = -1) = (ItemTemplateID it = -1)"
  using assms by (auto simp: kind_def window_item_def item_known_def cnt_def split: option.splits)

lemma give_item_handed:
  assumes g: "giver < length (tplayers w)" and t: "taker < length (tplayers w)" and x: "x < length (TradeInv (tinv w giver))"
    and item: "window_item env (TradeInv (tinv w giver) ! x)" and stock: "cargo_stock env (tinv w taker)"
    and room: "ItemTemplateID (TradeInv (tinv w giver) ! x) \<noteq> -1 \<Longrightarrow> 1 \<le> empties (slots (tinv w taker)) (tinv w taker)" and q [simp]: "missions_quiet env"
  shows "\<exists>w'. give_item env giver taker x w = Some w' \<and> handed env taker (\<lambda>k. cnt k (TradeInv (tinv w giver) ! x)) w w' \<and>
    empties (slots (tinv w taker)) (tinv w taker) \<le> empties (slots (tinv w' taker)) (tinv w' taker) +
      (if ItemTemplateID (TradeInv (tinv w giver) ! x) \<noteq> -1 then 1 else 0)"
proof -
  let ?it = "TradeInv (tinv w giver) ! x" and ?iv = "tinv w taker"
  obtain r it' iv' where add: "CargoAddItem env False ?it ?iv = Some (r, it', iv')"
    and cons: "cargo_stock env iv'" "CargoSpace iv' = CargoSpace ?iv" "SecureInv iv' = SecureInv ?iv"
    and e: "empties (slots ?iv) ?iv \<le> empties (slots iv') iv' + (if ItemTemplateID ?it \<noteq> -1 then 1 else 0)"
    and tot: "\<And>k. k \<noteq> -1 \<Longrightarrow> total k (CargoInv iv') = total k (CargoInv ?iv) + cnt k ?it"
  proof (cases "ItemTemplateID ?it = -1")
    case True
    then show thesis using that [of "-1" ?it ?iv] stock by (simp add: CargoAddItem_def cnt_def)
  next
    case False
    then obtain b where b: "GetItem env (scast (ItemTemplateID ?it)) = Some b" "0 <s ItemTemplateID ?it"
      "0 < StackCount ?it" "StackCount ?it \<le> MaxStack b"
      using item by (auto simp: window_item_def item_known_def split: option.splits)
    obtain it' iv' where a: "CargoAddItem env False ?it ?iv = Some (0, it', iv')" "cargo_stock env iv'"
      "CargoSpace iv' = CargoSpace ?iv" "SecureInv iv' = SecureInv ?iv" "empties (slots ?iv) ?iv \<le> empties (slots iv') iv' + 1"
      "\<And>k. k \<noteq> -1 \<Longrightarrow> total k (CargoInv iv') = total k (CargoInv ?iv) + cnt k ?it"
      using CargoAddItem_one [OF stock b(1-4) room [OF False] q, of False] by blast
    show thesis by (rule that [OF a(1-4)]) (use a(5,6) False in simp_all)
  qed
  note meta = CargoAddItem_meta [OF add q]
  define w1 where "w1 = on_tp taker (set_inv iv') w"
  define w2 where "w2 = on_tp giver (on_window x (\<lambda>_. it')) w1"
  have give: "give_item env giver taker x w = Some w2" using x add by (simp add: give_item_def w1_def w2_def)
  have len: "length (tplayers w2) = length (tplayers w)" by (simp add: w2_def w1_def on_tp_def)
  have inv1: "tinv w1 p = (if p = taker then iv' else tinv w p)" for p
    using t by (simp add: w1_def on_tp_def set_inv_def)
  have win1: "TradeInv (tinv w1 p) = TradeInv (tinv w p)" for p using meta by (simp add: inv1)
  have g1: "giver < length (tplayers w1)" using g by (simp add: w1_def on_tp_def)
  have inv2: "tinv w2 p = (if p = giver then (tinv w1 p)\<lparr>TradeInv := (TradeInv (tinv w p))[x := it']\<rparr> else tinv w1 p)" for p
    using g1 by (simp add: w2_def on_tp_def on_window_def set_inv_def win1)
  have kinds: "map kind (TradeInv (tinv w2 p)) = map kind (TradeInv (tinv w p))" for p
    using meta x by (auto simp: inv2 win1 map_update kind_def list_update_same_conv)
  have meta2: "meta (tp w2 p) = meta (tp w p)" for p
    using t g1 by (simp add: meta_def w2_def w1_def on_tp_def on_window_def set_inv_def nth_list_update)
  have cargo: "CargoInv (tinv w2 p) = CargoInv (tinv w1 p)" "CargoSpace (tinv w2 p) = CargoSpace (tinv w1 p)"
    "SecureInv (tinv w2 p) = SecureInv (tinv w1 p)" for p by (simp_all add: inv2)
  have "cargo_stock env (tinv w2 p) = cargo_stock env (tinv w1 p)" for p by (simp add: cargo_stock_def cargo)
  then have "handed_at env (if p = taker then Some (\<lambda>k. cnt k ?it) else None) (tp w p) (tp w2 p)" for p
    using kinds meta2 cons tot by (simp add: handed_at_def cargo inv1)
  then have h: "handed env taker (\<lambda>k. cnt k ?it) w w2"
    using len by (simp add: handed_def) (simp add: w2_def w1_def on_tp_def)
  have "empties (slots (tinv w2 taker)) (tinv w2 taker) = empties (slots iv') iv'" by (simp add: empties_def cargo inv1)
  then show ?thesis using give h e by auto
qed

lemma kinds_nth:
  assumes "map kind ws' = map kind ws" and "x < length ws"
  shows "kind (ws' ! x) = kind (ws ! x)"
  using assms by (metis length_map nth_map)

lemma handed_window:
  assumes "handed env taker f w w'" and "p < length (tplayers w)"
  shows "map kind (TradeInv (tinv w' p)) = map kind (TradeInv (tinv w p))"
    and "cargo_stock env (tinv w p) \<Longrightarrow> cargo_stock env (tinv w' p)"
  using assms by (auto simp: handed_def handed_at_def)

lemma window_kinds:
  assumes "map kind ws' = map kind ws"
  shows "list_all (window_item env) ws' = list_all (window_item env) ws" "total k ws' = total k ws"
    "\<forall>x \<in> set xs. x < length ws \<Longrightarrow> offered ws' xs = offered ws xs"
proof -
  have l: "length ws' = length ws" using assms map_eq_imp_length_eq by blast
  have "kind (ws' ! x) = kind (ws ! x)" if "x < length ws" for x using kinds_nth [OF assms that] .
  note k = kind_item [OF this]
  show "list_all (window_item env) ws' = list_all (window_item env) ws" by (simp add: list_all_length l k(1))
  have "map (cnt k) ws' = map (cnt k) ws" by (rule nth_equalityI) (simp_all add: l k(2))
  then show "total k ws' = total k ws" by (simp add: total_def)
  show "offered ws' xs = offered ws xs" if "\<forall>x \<in> set xs. x < length ws"
    unfolding offered_def using that k(3) by (intro arg_cong [where f = length] filter_cong) auto
qed

lemma give_items_handed:
  assumes g: "giver < length (tplayers w)" and t: "taker < length (tplayers w)"
    and xs: "\<forall>x \<in> set xs. x < length (TradeInv (tinv w giver))"
    and win: "list_all (window_item env) (TradeInv (tinv w giver))" and stock: "cargo_stock env (tinv w taker)"
    and room: "offered (TradeInv (tinv w giver)) xs \<le> empties (slots (tinv w taker)) (tinv w taker)" and q [simp]: "missions_quiet env"
  shows "\<exists>w'. give_items env giver taker xs w = Some w' \<and>
    handed env taker (\<lambda>k. \<Sum>x\<leftarrow>xs. cnt k (TradeInv (tinv w giver) ! x)) w w' \<and>
    empties (slots (tinv w taker)) (tinv w taker) \<le> empties (slots (tinv w' taker)) (tinv w' taker) + offered (TradeInv (tinv w giver)) xs"
  using assms
proof (induction xs arbitrary: w)
  case Nil
  then show ?case by (simp add: handed_refl offered_def)
next
  case (Cons x xs)
  let ?ws = "TradeInv (tinv w giver)"
  have x: "x < length ?ws" using Cons.prems by simp
  have off: "offered ?ws (x # xs) = (if ItemTemplateID (?ws ! x) \<noteq> -1 then 1 else 0) + offered ?ws xs" by (simp add: offered_def)
  obtain w1 where w1: "give_item env giver taker x w = Some w1" "handed env taker (\<lambda>k. cnt k (?ws ! x)) w w1"
    "empties (slots (tinv w taker)) (tinv w taker) \<le> empties (slots (tinv w1 taker)) (tinv w1 taker) +
      (if ItemTemplateID (?ws ! x) \<noteq> -1 then 1 else 0)"
  proof -
    have "window_item env (?ws ! x)" using Cons.prems(4) x by (simp add: list_all_length)
    moreover have "1 \<le> empties (slots (tinv w taker)) (tinv w taker)" if "ItemTemplateID (?ws ! x) \<noteq> -1"
      using Cons.prems(6) off that by simp
    ultimately show thesis using give_item_handed [OF Cons.prems(1,2) x _ Cons.prems(5) _ q] that by blast
  qed
  have k1: "map kind (TradeInv (tinv w1 giver)) = map kind ?ws" by (rule handed_window [OF w1(2) Cons.prems(1)])
  have l1: "length (tplayers w1) = length (tplayers w)" "length (TradeInv (tinv w1 giver)) = length ?ws"
    using w1(2) k1 map_eq_imp_length_eq by (auto simp: handed_def) 
  have o1: "offered (TradeInv (tinv w1 giver)) xs = offered ?ws xs"
    by (rule window_kinds(3) [OF k1]) (use Cons.prems(3) in simp)
  have "\<exists>w'. give_items env giver taker xs w1 = Some w' \<and>
    handed env taker (\<lambda>k. \<Sum>x\<leftarrow>xs. cnt k (TradeInv (tinv w1 giver) ! x)) w1 w' \<and>
    empties (slots (tinv w1 taker)) (tinv w1 taker) \<le> empties (slots (tinv w' taker)) (tinv w' taker) + offered (TradeInv (tinv w1 giver)) xs"
  proof (rule Cons.IH)
    show "list_all (window_item env) (TradeInv (tinv w1 giver))" using window_kinds(1) [OF k1] Cons.prems(4) by simp
    show "cargo_stock env (tinv w1 taker)" by (rule handed_window(2) [OF w1(2) Cons.prems(2) Cons.prems(5)])
    show "offered (TradeInv (tinv w1 giver)) xs \<le> empties (slots (tinv w1 taker)) (tinv w1 taker)"
      using w1(3) Cons.prems(6) off o1 by (simp split: if_splits)
  qed (use Cons.prems l1 in auto)
  then obtain w' where w': "give_items env giver taker xs w1 = Some w'"
    "handed env taker (\<lambda>k. \<Sum>x\<leftarrow>xs. cnt k (TradeInv (tinv w1 giver) ! x)) w1 w'"
    "empties (slots (tinv w1 taker)) (tinv w1 taker) \<le> empties (slots (tinv w' taker)) (tinv w' taker) + offered (TradeInv (tinv w1 giver)) xs"
    by blast
  have "map (\<lambda>x. cnt k (TradeInv (tinv w1 giver) ! x)) xs = map (\<lambda>x. cnt k (?ws ! x)) xs" for k
  proof (rule map_cong)
    fix y assume "y \<in> set xs"
    then have "kind (TradeInv (tinv w1 giver) ! y) = kind (?ws ! y)" using kinds_nth [OF k1] Cons.prems(3) by simp
    then show "cnt k (TradeInv (tinv w1 giver) ! y) = cnt k (?ws ! y)" by (rule kind_item(2))
  qed simp
  then have sm: "(\<Sum>x\<leftarrow>xs. cnt k (TradeInv (tinv w1 giver) ! x)) = (\<Sum>x\<leftarrow>xs. cnt k (?ws ! x))" for k
    by (rule arg_cong)
  have "handed env taker (\<lambda>k. \<Sum>x\<leftarrow>x # xs. cnt k (?ws ! x)) w w'"
    using handed_trans [OF w1(2) w'(2)] unfolding sm by simp
  then show ?case using w1 w' off o1 by auto
qed

lemma all_slots: "length ws = 6 \<Longrightarrow> (\<Sum>x\<leftarrow>[0..<6]. cnt k (ws ! x)) = total k ws"
  unfolding total_def by (metis map_nth map_map comp_apply length_map nth_map map_eq_conv)

section \<open>Clearing the windows\<close>

text \<open>Everything about a player but the contents of his window and the log.\<close>

definition rest :: "trade_player \<Rightarrow> trade_player" where
  "rest p = p\<lparr>tp_inv := (tp_inv p)\<lparr>TradeInv := []\<rparr>\<rparr>"

lemma on_window_simps [simp]:
  "TradeInv (tp_inv (on_window x f p)) = (TradeInv (tp_inv p))[x := f (TradeInv (tp_inv p) ! x)]"
  "rest (on_window x f p) = rest p"
  by (simp_all add: on_window_def set_inv_def rest_def)

lemma empty_window_effect:
  assumes "p < length (tplayers w)" and "x < length (TradeInv (tinv w p))"
  defines "w' \<equiv> empty_window p x w"
  shows "ItemTemplateID (TradeInv (tinv w' p) ! x) = -1"
    and "length (tplayers w') = length (tplayers w)"
    and "get_player w' = get_player w"
    and "rest (tp w' q) = rest (tp w q)"
    and "length (TradeInv (tinv w' q)) = length (TradeInv (tinv w q))"
    and "y \<noteq> x \<or> q \<noteq> p \<Longrightarrow> TradeInv (tinv w' q) ! y = TradeInv (tinv w q) ! y"
    and "q \<noteq> p \<Longrightarrow> tp w' q = tp w q"
  using assms(1,2) unfolding w'_def
  by (auto simp: empty_window_def t_emit_def on_tp_def nth_list_update)

text \<open>One step of the clearing loop, and the whole loop.\<close>

definition cleared :: "nat set \<Rightarrow> nat set \<Rightarrow> trade_world \<Rightarrow> trade_world \<Rightarrow> bool" where
  "cleared P X w w' \<longleftrightarrow> length (tplayers w') = length (tplayers w) \<and> get_player w' = get_player w \<and>
     (\<forall>q. rest (tp w' q) = rest (tp w q) \<and> length (TradeInv (tinv w' q)) = length (TradeInv (tinv w q)) \<and>
        (q \<notin> P \<longrightarrow> tp w' q = tp w q)) \<and>
     (\<forall>q \<in> P. \<forall>x \<in> X. ItemTemplateID (TradeInv (tinv w' q) ! x) = -1)"

lemma cleared_step:
  assumes "cleared P X w w1" and "P = {me, target}" and "me < length (tplayers w)" "target < length (tplayers w)"
    and "\<forall>q \<in> P. x < length (TradeInv (tinv w q))"
  shows "cleared P (insert x X) w (empty_window me x (empty_window target x w1))"
proof -
  have l1: "length (tplayers w1) = length (tplayers w)" "\<And>q. length (TradeInv (tinv w1 q)) = length (TradeInv (tinv w q))"
    using assms(1) by (simp_all add: cleared_def)
  have t: "target < length (tplayers w1)" "x < length (TradeInv (tinv w1 target))" using assms l1 by simp_all
  note a = empty_window_effect [OF t]
  define w2 where "w2 = empty_window target x w1"
  have m: "me < length (tplayers w2)" "x < length (TradeInv (tinv w2 me))"
    using assms l1 a(2,5) by (simp_all add: w2_def)
  note b = empty_window_effect [OF m]
  have z: "ItemTemplateID (TradeInv (tinv (empty_window me x w2) q) ! y) = -1" if "q \<in> P" "y \<in> insert x X" for q y
  proof -
    have pre: "ItemTemplateID (TradeInv (tinv w1 q) ! y) = -1" if "y \<noteq> x"
      using assms(1) \<open>q \<in> P\<close> \<open>y \<in> insert x X\<close> that by (auto simp: cleared_def)
    show ?thesis
    proof (cases "y = x")
      case True
      show ?thesis
      proof (cases "q = me")
        case False
        then have "q = target" using that assms(2) by simp
        then show ?thesis using True a(1) b(6) [of y q] False by (simp add: w2_def)
      qed (use True b(1) in simp)
    next
      case False
      then show ?thesis using pre b(6) [of y q] a(6) [of y q] by (simp add: w2_def)
    qed
  qed
  have "rest (tp (empty_window me x w2) q) = rest (tp w q)" "length (TradeInv (tinv (empty_window me x w2) q)) = length (TradeInv (tinv w q))" for q
    using assms(1) a(4,5) [of q] b(4,5) [of q] by (simp_all add: cleared_def w2_def)
  moreover have "tp (empty_window me x w2) q = tp w q" if "q \<notin> P" for q
    using that assms(1,2) a(7) [of q] b(7) [of q] by (simp add: cleared_def w2_def)
  moreover have "length (tplayers (empty_window me x w2)) = length (tplayers w)" "get_player (empty_window me x w2) = get_player w"
    using assms(1) a(2,3) b(2,3) by (simp_all add: cleared_def w2_def)
  ultimately show ?thesis using z by (simp add: cleared_def w2_def)
qed

lemma ClearTradeWindow_clears:
  assumes "me < length (tplayers w)" "target < length (tplayers w)"
    and "length (TradeInv (tinv w me)) = 6" "length (TradeInv (tinv w target)) = 6"
  shows "cleared {me, target} {0..<6} w (ClearTradeWindowForBoth me target w)"
proof -
  have "cleared {me, target} (X \<union> set xs) w (fold (\<lambda>x w. empty_window me x (empty_window target x w)) xs w1)"
    if "cleared {me, target} X w w1" "\<forall>x \<in> set xs. x < 6" for xs X w1
    using that
  proof (induction xs arbitrary: X w1)
    case (Cons x xs)
    have "cleared {me, target} (insert x X) w (empty_window me x (empty_window target x w1))"
      by (rule cleared_step [OF Cons.prems(1) refl assms(1,2)]) (use Cons.prems(2) assms in auto)
    from Cons.IH [OF this] Cons.prems(2) show ?case by simp
  qed simp
  from this [of "{}" w "[0..<6]"] show ?thesis
    unfolding ClearTradeWindowForBoth_def by (simp add: cleared_def)
qed

section \<open>The checks before a trade\<close>

lemma CargoFreeSpace_stock:
  assumes "cargo_stock env iv"
  shows "CargoFreeSpace iv = Some (empties (slots iv) iv)"
proof -
  have space: "unat (CargoSpace iv) \<le> length (CargoInv iv)" using assms by (simp add: cargo_stock_def)
  have eq: "take (unat (CargoSpace iv)) (CargoInv iv) = map (\<lambda>i. CargoInv iv ! i) (slots iv)"
    using space by (intro nth_equalityI) simp_all
  have "ItemTemplateID (CargoInv iv ! i) \<le>s 0 \<longleftrightarrow> ItemTemplateID (CargoInv iv ! i) = -1" if "i \<in> set (slots iv)" for i
  proof -
    have "item_known env (CargoInv iv ! i)" using assms that by (simp add: cargo_stock_def list_all_iff)
    then show ?thesis by (auto simp: item_known_def word_sle_eq word_sless_alt)
  qed
  then have "filter (\<lambda>i. ItemTemplateID (CargoInv iv ! i) \<le>s 0) (slots iv) =
      filter (\<lambda>i. ItemTemplateID (CargoInv iv ! i) = -1) (slots iv)" by (intro filter_cong) auto
  then show ?thesis
    using space by (simp add: CargoFreeSpace_def cargo_slots_def peek_def eq empties_def filter_map comp_def)
qed

lemma TradeSpaceUsed_offered:
  assumes "window_ok env iv"
  shows "TradeSpaceUsed iv = offered (TradeInv iv) [0..<6]"
proof -
  have l: "length (TradeInv iv) = 6" using assms by (simp add: window_ok_def)
  have "filter (\<lambda>it. 0 <s ItemTemplateID it) (TradeInv iv) = filter (\<lambda>it. ItemTemplateID it \<noteq> -1) (TradeInv iv)"
    using assms by (intro filter_cong) (auto simp: window_ok_def list_all_iff window_item_def item_known_def word_sless_alt)
  moreover have "filter (\<lambda>it. ItemTemplateID it \<noteq> -1) (TradeInv iv) =
      map (\<lambda>x. TradeInv iv ! x) (filter (\<lambda>x. ItemTemplateID (TradeInv iv ! x) \<noteq> -1) [0..<6])"
    using l by (metis (no_types, lifting) comp_apply filter_cong filter_map map_nth)
  ultimately show ?thesis using l by (simp add: TradeSpaceUsed_def offered_def)
qed

section \<open>A completed trade\<close>

text \<open>After the windows are cleared, both endings change one more field of the two players.\<close>

lemma clear_effect:
  fixes me target w f g q
  assumes "me < length (tplayers w)" "target < length (tplayers w)"
    and "length (TradeInv (tinv w me)) = 6" "length (TradeInv (tinv w target)) = 6"
    and p': "tplayers w' = tplayers (on_tp me f (on_tp target f (ClearTradeWindowForBoth me target w)))"
    and f: "\<And>p. f (f p) = f p" "\<And>p. rest (f p) = f (rest p)" "\<And>p. TradeInv (tp_inv (f p)) = TradeInv (tp_inv p)"
  shows "length (tplayers w') = length (tplayers w)"
    and "q \<in> {me, target} \<Longrightarrow> rest (tp w' q) = f (rest (tp w q)) \<and>
           list_all (\<lambda>it. ItemTemplateID it = -1) (TradeInv (tinv w' q))"
proof -
  define w6 where "w6 = ClearTradeWindowForBoth me target w"
  have c: "cleared {me, target} {0..<6} w w6" unfolding w6_def by (rule ClearTradeWindow_clears [OF assms(1-4)])
  have l6: "length (tplayers w6) = length (tplayers w)" using c by (simp add: cleared_def)
  show "length (tplayers w') = length (tplayers w)" using p' l6 by (simp add: on_tp_def w6_def)
  show "rest (tp w' q) = f (rest (tp w q)) \<and> list_all (\<lambda>it. ItemTemplateID it = -1) (TradeInv (tinv w' q))"
    if q: "q \<in> {me, target}"
  proof -
    have tpq: "tp w' q = f (tp w6 q)"
      using assms(1,2) l6 q f(1) unfolding p' by (auto simp: on_tp_def nth_list_update w6_def)
    have "rest (tp w6 q) = rest (tp w q)" "length (TradeInv (tinv w6 q)) = length (TradeInv (tinv w q))"
      "\<forall>x \<in> {0..<6}. ItemTemplateID (TradeInv (tinv w6 q) ! x) = -1"
      using c q by (auto simp: cleared_def)
    moreover have "length (TradeInv (tinv w q)) = 6" using q assms by auto
    ultimately show ?thesis unfolding tpq by (simp add: f(2,3) list_all_length)
  qed
qed

lemma after_trade_effect:
  fixes me target a xs ys w q
  assumes "me < length (tplayers w)" "target < length (tplayers w)"
    and "length (TradeInv (tinv w me)) = 6" "length (TradeInv (tinv w target)) = 6"
  defines "w' \<equiv> after_trade me target a xs ys w"
  shows "q \<in> {me, target} \<Longrightarrow> rest (tp w' q) = (rest (tp w q))\<lparr>TradeMoney := 0\<rparr> \<and>
           list_all (\<lambda>it. ItemTemplateID it = -1) (TradeInv (tinv w' q))"
  using clear_effect(2) [OF assms(1-4), of w' "set_money 0" q]
  by (simp add: w'_def after_trade_def Let_def remove_objects_def t_emit_def set_money_def rest_def)

lemma after_cancel_effect:
  fixes me target w q
  assumes "me < length (tplayers w)" "target < length (tplayers w)"
    and "length (TradeInv (tinv w me)) = 6" "length (TradeInv (tinv w target)) = 6"
  defines "w' \<equiv> after_cancel me target w"
  shows "q \<in> {me, target} \<Longrightarrow> rest (tp w' q) = (rest (tp w q))\<lparr>m_TradeConfirm := False\<rparr> \<and>
           list_all (\<lambda>it. ItemTemplateID it = -1) (TradeInv (tinv w' q))"
  using clear_effect(2) [OF assms(1-4), of w' "set_confirm False" q]
  by (simp add: w'_def after_cancel_def Let_def remove_objects_def t_emit_def set_confirm_def rest_def)

lemma rest_fields:
  assumes "rest p' = (rest p)\<lparr>TradeMoney := x\<rparr>"
  shows "CargoInv (tp_inv p') = CargoInv (tp_inv p)" "SecureInv (tp_inv p') = SecureInv (tp_inv p)"
    "Credits p' = Credits p" "m_TradeID p' = m_TradeID p" "TradeMoney p' = x"
  using assms by (cases p; cases p'; cases "tp_inv p"; cases "tp_inv p'"; simp add: rest_def)+

lemma rest_fields_confirm:
  assumes "rest p' = (rest p)\<lparr>m_TradeConfirm := x\<rparr>"
  shows "CargoInv (tp_inv p') = CargoInv (tp_inv p)" "SecureInv (tp_inv p') = SecureInv (tp_inv p)"
    "Credits p' = Credits p" "m_TradeID p' = m_TradeID p" "m_TradeConfirm p' = x"
  using assms by (cases p; cases p'; cases "tp_inv p"; cases "tp_inv p'"; simp add: rest_def)+

text \<open>The state right before the items are handed over.\<close>

definition paid :: "nat \<Rightarrow> nat \<Rightarrow> ActionPacket \<Rightarrow> trade_world \<Rightarrow> trade_world" where
  "paid me target a w =
     pay target me (pay me target (on_tp target (set_trade (-1)) (on_tp me (set_trade (-1))
       (t_emit (TradeAction target (scast (ap_GameID a)) 2) (t_emit (TradeAction me (m_TradeID (tp w me)) 2) w)))))"

lemma complete_trade_paid:
  "complete_trade env me target a w = do {
     w4 \<leftarrow> give_items env target me [0..<6] (paid me target a w);
     w5 \<leftarrow> give_items env me target [0..<6] w4;
     Some (after_trade me target a (TradeInv (tinv w4 me)) (TradeInv (tinv (paid me target a w) target)) w5)
   }"
  by (simp add: complete_trade_def paid_def Let_def)

lemma paid_players:
  assumes "me < length (tplayers w)" "target < length (tplayers w)" "me \<noteq> target"
  shows "tplayers (paid me target a w) = (tplayers w)
     [me := (tp w me)\<lparr>m_TradeID := -1, Credits := Credits (tp w me) + TradeMoney (tp w target) - TradeMoney (tp w me)\<rparr>,
      target := (tp w target)\<lparr>m_TradeID := -1, Credits := Credits (tp w target) + TradeMoney (tp w me) - TradeMoney (tp w target)\<rparr>]"
    and "get_player (paid me target a w) = get_player w"
proof -
  show "get_player (paid me target a w) = get_player w" by (simp add: paid_def pay_def on_tp_def t_emit_def)
  show "tplayers (paid me target a w) = (tplayers w)
     [me := (tp w me)\<lparr>m_TradeID := -1, Credits := Credits (tp w me) + TradeMoney (tp w target) - TradeMoney (tp w me)\<rparr>,
      target := (tp w target)\<lparr>m_TradeID := -1, Credits := Credits (tp w target) + TradeMoney (tp w me) - TradeMoney (tp w target)\<rparr>]"
    by (rule nth_equalityI) (use assms in \<open>auto simp: paid_def pay_def on_tp_def t_emit_def set_trade_def nth_list_update\<close>)
qed

lemma window_six: "window_ok env iv \<Longrightarrow> \<forall>x \<in> set [0..<6]. x < length (TradeInv iv)"
  by (simp add: window_ok_def)

lemma handed_atD:
  "handed env t f w w' \<Longrightarrow> p < length (tplayers w) \<Longrightarrow> handed_at env (if p = t then Some f else None) (tp w p) (tp w' p)"
  by (simp add: handed_def)

lemma handed_at_None: "handed_at env None p p' \<Longrightarrow> handed_at env (Some (\<lambda>_. 0)) p p'"
  by (simp add: handed_at_def)

text \<open>Both hand-overs, the second from a window that the first has not changed.\<close>

lemma give_window:
  assumes "giver < length (tplayers w)" "taker < length (tplayers w)" "window_ok env (tinv w giver)" "cargo_stock env (tinv w taker)"
    and "offered (TradeInv (tinv w giver)) [0..<6] \<le> empties (slots (tinv w taker)) (tinv w taker)" and q [simp]: "missions_quiet env"
  obtains w' where "give_items env giver taker [0..<6] w = Some w'"
    "handed env taker (\<lambda>k. total k (TradeInv (tinv w giver))) w w'"
    "empties (slots (tinv w taker)) (tinv w taker) \<le> empties (slots (tinv w' taker)) (tinv w' taker) + offered (TradeInv (tinv w giver)) [0..<6]"
proof -
  have "length (TradeInv (tinv w giver)) = 6" using assms(3) by (simp add: window_ok_def)
  from all_slots [OF this] show thesis
    using give_items_handed [OF assms(1,2) window_six [OF assms(3)] _ assms(4,5) q] assms(3) that by (auto simp: window_ok_def)
qed

lemma handed_at_window:
  assumes "handed_at env f p p'"
  shows "window_ok env (tp_inv p') = window_ok env (tp_inv p)" "total k (TradeInv (tp_inv p')) = total k (TradeInv (tp_inv p))"
    "window_ok env (tp_inv p) \<Longrightarrow> offered (TradeInv (tp_inv p')) [0..<6] = offered (TradeInv (tp_inv p)) [0..<6]"
proof -
  have k: "map kind (TradeInv (tp_inv p')) = map kind (TradeInv (tp_inv p))" using assms by (simp add: handed_at_def)
  have "length (TradeInv (tp_inv p')) = length (TradeInv (tp_inv p))" using k map_eq_imp_length_eq by blast
  then show "window_ok env (tp_inv p') = window_ok env (tp_inv p)" "total k (TradeInv (tp_inv p')) = total k (TradeInv (tp_inv p))"
    using window_kinds(1,2) [OF k] by (simp_all add: window_ok_def)
  show "offered (TradeInv (tp_inv p')) [0..<6] = offered (TradeInv (tp_inv p)) [0..<6]" if "window_ok env (tp_inv p)"
    by (rule window_kinds(3) [OF k window_six [OF that]])
qed

lemma hand_over_both:
  assumes me: "me < length (tplayers w)" and target: "target < length (tplayers w)" and ne: "me \<noteq> target"
    and win: "window_ok env (tinv w me)" "window_ok env (tinv w target)"
    and stock: "cargo_stock env (tinv w me)" "cargo_stock env (tinv w target)"
    and room: "offered (TradeInv (tinv w target)) [0..<6] \<le> empties (slots (tinv w me)) (tinv w me)"
      "offered (TradeInv (tinv w me)) [0..<6] \<le> empties (slots (tinv w target)) (tinv w target)" and q [simp]: "missions_quiet env"
  obtains w4 w5 where "give_items env target me [0..<6] w = Some w4" "give_items env me target [0..<6] w4 = Some w5"
    "length (tplayers w5) = length (tplayers w)"
    "handed_at env (Some (\<lambda>k. total k (TradeInv (tinv w target)))) (tp w me) (tp w5 me)"
    "handed_at env (Some (\<lambda>k. total k (TradeInv (tinv w me)))) (tp w target) (tp w5 target)"
proof -
  obtain w4 where w4: "give_items env target me [0..<6] w = Some w4"
    and h4: "handed env me (\<lambda>k. total k (TradeInv (tinv w target))) w w4"
    using give_window [OF target me win(2) stock(1) room(1) q] by blast
  have l4: "length (tplayers w4) = length (tplayers w)" using h4 by (simp add: handed_def)
  have m4: "handed_at env (Some (\<lambda>k. total k (TradeInv (tinv w target)))) (tp w me) (tp w4 me)"
    and t4: "handed_at env None (tp w target) (tp w4 target)"
    using handed_atD [OF h4 me] handed_atD [OF h4 target] ne by simp_all
  have st: "cargo_stock env (tinv w4 target)" using t4 stock(2) by (simp add: handed_at_def)
  have em: "empties (slots (tinv w4 target)) (tinv w4 target) = empties (slots (tinv w target)) (tinv w target)"
    using t4 by (simp add: handed_at_def empties_def)
  obtain w5 where w5: "give_items env me target [0..<6] w4 = Some w5"
    and h5: "handed env target (\<lambda>k. total k (TradeInv (tinv w4 me))) w4 w5"
    by (rule give_window [of me w4 target env])
      (use me target l4 handed_at_window [OF m4] win(1) st em room(2) in auto)
  have m5: "handed_at env None (tp w4 me) (tp w5 me)"
    and t5: "handed_at env (Some (\<lambda>k. total k (TradeInv (tinv w4 me)))) (tp w4 target) (tp w5 target)"
    using handed_atD [OF h5, of me] handed_atD [OF h5, of target] me target l4 ne by simp_all
  show thesis
  proof (rule that [OF w4 w5])
    show "length (tplayers w5) = length (tplayers w)" using h5 l4 by (simp add: handed_def)
    show "handed_at env (Some (\<lambda>k. total k (TradeInv (tinv w target)))) (tp w me) (tp w5 me)"
      using handed_at_trans(1) [OF m4 handed_at_None [OF m5]] by simp
    show "handed_at env (Some (\<lambda>k. total k (TradeInv (tinv w me)))) (tp w target) (tp w5 target)"
      using handed_at_trans(1) [OF handed_at_None [OF t4] t5] by (simp add: handed_at_window(2) [OF m4])
  qed
qed

lemma complete_trade_exchanges:
  assumes me: "me < length (tplayers w)" and target: "target < length (tplayers w)" and ne: "me \<noteq> target"
    and win: "window_ok env (tinv w me)" "window_ok env (tinv w target)"
    and stock: "cargo_stock env (tinv w me)" "cargo_stock env (tinv w target)"
    and room: "offered (TradeInv (tinv w target)) [0..<6] \<le> empties (slots (tinv w me)) (tinv w me)"
      "offered (TradeInv (tinv w me)) [0..<6] \<le> empties (slots (tinv w target)) (tinv w target)" and q [simp]: "missions_quiet env"
  shows "\<exists>w'. complete_trade env me target a w = Some w' \<and>
    (\<forall>k. k \<noteq> -1 \<longrightarrow>
       total k (CargoInv (tinv w' me)) = total k (CargoInv (tinv w me)) + total k (TradeInv (tinv w target)) \<and>
       total k (CargoInv (tinv w' target)) = total k (CargoInv (tinv w target)) + total k (TradeInv (tinv w me))) \<and>
    (\<forall>p \<in> {me, target}. list_all (\<lambda>it. ItemTemplateID it = -1) (TradeInv (tinv w' p)) \<and>
       SecureInv (tinv w' p) = SecureInv (tinv w p) \<and> m_TradeID (tp w' p) = -1 \<and> TradeMoney (tp w' p) = 0) \<and>
    Credits (tp w' me) = Credits (tp w me) + TradeMoney (tp w target) - TradeMoney (tp w me) \<and>
    Credits (tp w' target) = Credits (tp w target) + TradeMoney (tp w me) - TradeMoney (tp w target)"
proof -
  define w3 where "w3 = paid me target a w"
  note p3 = paid_players [OF me target ne, where a = a, folded w3_def]
  have l3: "length (tplayers w3) = length (tplayers w)" by (simp add: p3)
  have m3: "tp w3 me = (tp w me)\<lparr>m_TradeID := -1, Credits := Credits (tp w me) + TradeMoney (tp w target) - TradeMoney (tp w me)\<rparr>"
    "tp w3 target = (tp w target)\<lparr>m_TradeID := -1, Credits := Credits (tp w target) + TradeMoney (tp w me) - TradeMoney (tp w target)\<rparr>"
    using me target ne by (simp_all add: p3)
  obtain w4 w5 where w4: "give_items env target me [0..<6] w3 = Some w4" and w5: "give_items env me target [0..<6] w4 = Some w5"
    and l5: "length (tplayers w5) = length (tplayers w3)"
    and hm: "handed_at env (Some (\<lambda>k. total k (TradeInv (tinv w3 target)))) (tp w3 me) (tp w5 me)"
    and ht: "handed_at env (Some (\<lambda>k. total k (TradeInv (tinv w3 me)))) (tp w3 target) (tp w5 target)"
    by (rule hand_over_both [of me w3 target env]) (use me target ne win stock room l3 m3 in simp_all)
  have len5: "length (TradeInv (tinv w5 me)) = 6" "length (TradeInv (tinv w5 target)) = 6"
    using handed_at_window(1) [OF hm] handed_at_window(1) [OF ht] win m3 by (simp_all add: window_ok_def)
  define w' where "w' = after_trade me target a (TradeInv (tinv w4 me)) (TradeInv (tinv w3 target)) w5"
  note e = after_trade_effect [OF _ _ len5, where a = a and xs = "TradeInv (tinv w4 me)" and ys = "TradeInv (tinv w3 target)",
      folded w'_def]
  have ct: "complete_trade env me target a w = Some w'"
    by (simp add: complete_trade_paid w3_def [symmetric] w4 w5 w'_def)
  have eme: "rest (tp w' me) = (rest (tp w5 me))\<lparr>TradeMoney := 0\<rparr>" "list_all (\<lambda>it. ItemTemplateID it = -1) (TradeInv (tinv w' me))"
    and eta: "rest (tp w' target) = (rest (tp w5 target))\<lparr>TradeMoney := 0\<rparr>" "list_all (\<lambda>it. ItemTemplateID it = -1) (TradeInv (tinv w' target))"
    using e [of me] e [of target] me target l5 l3 by auto
  have "total k (CargoInv (tinv w' me)) = total k (CargoInv (tinv w me)) + total k (TradeInv (tinv w target)) \<and>
        total k (CargoInv (tinv w' target)) = total k (CargoInv (tinv w target)) + total k (TradeInv (tinv w me))" if "k \<noteq> -1" for k
    using hm ht that m3 by (simp add: rest_fields [OF eme(1)] rest_fields [OF eta(1)] handed_at_def)
  moreover have "SecureInv (tinv w' me) = SecureInv (tinv w me)" "m_TradeID (tp w' me) = -1" "TradeMoney (tp w' me) = 0"
    "Credits (tp w' me) = Credits (tp w me) + TradeMoney (tp w target) - TradeMoney (tp w me)"
    using hm m3(1) by (simp_all add: rest_fields [OF eme(1)] handed_at_def meta_def)
  moreover have "SecureInv (tinv w' target) = SecureInv (tinv w target)" "m_TradeID (tp w' target) = -1" "TradeMoney (tp w' target) = 0"
    "Credits (tp w' target) = Credits (tp w target) + TradeMoney (tp w me) - TradeMoney (tp w target)"
    using ht m3(2) by (simp_all add: rest_fields [OF eta(1)] handed_at_def meta_def)
  ultimately show ?thesis using ct eme(2) eta(2) by simp
qed

definition confirmed :: "nat \<Rightarrow> nat \<Rightarrow> trade_world \<Rightarrow> trade_world" where
  "confirmed me target w = t_emit (TradeAction target 0 5) (t_emit (TradeAction me 0 3) (on_tp me (set_confirm True) w))"

lemma confirmed_players:
  "me < length (tplayers w) \<Longrightarrow> tplayers (confirmed me target w) = (tplayers w)[me := (tp w me)\<lparr>m_TradeConfirm := True\<rparr>]"
  "get_player (confirmed me target w) = get_player w"
  by (simp_all add: confirmed_def t_emit_def on_tp_def set_confirm_def)

lemma trade_confirm_completes:
  assumes "get_player w (m_TradeID (tp w me)) = Some target"
    and "window_ok env (tinv w target)" "cargo_stock env (tinv w me)"
    and "TradeSpaceUsed (tinv w target) \<le> empties (slots (tinv w me)) (tinv w me)"
    and "CanReceiveTradeItems env (tinv w target) (tinv w me) = Some True"
    and "m_TradeConfirm (tp (confirmed me target w) target)"
  shows "trade_confirm env me a w = complete_trade env me target a (confirmed me target w)"
  using assms CargoFreeSpace_stock [OF assms(3)] by (simp add: trade_confirm_def confirmed_def [symmetric] not_less)

text \<open>
  C15: The second player confirms: the two windows change owners. Each gets into his cargo exactly
  what was in the other's window, of every kind of item; both windows are empty, the vaults
  untouched and the trade is over; each one's credits change by the other's offer less his own, so
  that their sum stays the same. (The cargo of both is assumed to have room, and the items to be
  acceptable to the player who confirms last: only he is checked at that moment. \<open>missions_quiet\<close>: no
  stage of a mission of either is completed by the items, which would change items and credits in between.)
\<close>

theorem trade_exchanges:
  assumes me: "me < length (tplayers w)" and target: "target < length (tplayers w)" and ne: "me \<noteq> target"
    and partner: "get_player w (m_TradeID (tp w me)) = Some target" and conf: "m_TradeConfirm (tp w target)"
    and win: "window_ok env (tinv w me)" "window_ok env (tinv w target)"
    and stock: "cargo_stock env (tinv w me)" "cargo_stock env (tinv w target)"
    and room: "TradeSpaceUsed (tinv w target) \<le> empties (slots (tinv w me)) (tinv w me)"
      "TradeSpaceUsed (tinv w me) \<le> empties (slots (tinv w target)) (tinv w target)"
    and uniq: "CanReceiveTradeItems env (tinv w target) (tinv w me) = Some True" and q [simp]: "missions_quiet env"
  shows "\<exists>w'. trade_confirm env me a w = Some w' \<and>
    (\<forall>k. k \<noteq> -1 \<longrightarrow>
       total k (CargoInv (tinv w' me)) = total k (CargoInv (tinv w me)) + total k (TradeInv (tinv w target)) \<and>
       total k (CargoInv (tinv w' target)) = total k (CargoInv (tinv w target)) + total k (TradeInv (tinv w me))) \<and>
    (\<forall>p \<in> {me, target}. list_all (\<lambda>it. ItemTemplateID it = -1) (TradeInv (tinv w' p)) \<and>
       SecureInv (tinv w' p) = SecureInv (tinv w p) \<and> m_TradeID (tp w' p) = -1) \<and>
    Credits (tp w' me) = Credits (tp w me) + TradeMoney (tp w target) - TradeMoney (tp w me) \<and>
    Credits (tp w' me) + Credits (tp w' target) = Credits (tp w me) + Credits (tp w target)"
proof -
  let ?w = "confirmed me target w"
  have p: "tp ?w me = (tp w me)\<lparr>m_TradeConfirm := True\<rparr>" "tp ?w target = tp w target" "length (tplayers ?w) = length (tplayers w)"
    using me ne by (simp_all add: confirmed_players)
  have "trade_confirm env me a w = complete_trade env me target a ?w"
    by (rule trade_confirm_completes) (use partner win stock room uniq conf p in simp_all)
  moreover obtain w' where w': "complete_trade env me target a ?w = Some w'"
    and eff: "(\<forall>k. k \<noteq> -1 \<longrightarrow>
       total k (CargoInv (tinv w' me)) = total k (CargoInv (tinv ?w me)) + total k (TradeInv (tinv ?w target)) \<and>
       total k (CargoInv (tinv w' target)) = total k (CargoInv (tinv ?w target)) + total k (TradeInv (tinv ?w me))) \<and>
    (\<forall>p \<in> {me, target}. list_all (\<lambda>it. ItemTemplateID it = -1) (TradeInv (tinv w' p)) \<and>
       SecureInv (tinv w' p) = SecureInv (tinv ?w p) \<and> m_TradeID (tp w' p) = -1 \<and> TradeMoney (tp w' p) = 0) \<and>
    Credits (tp w' me) = Credits (tp ?w me) + TradeMoney (tp ?w target) - TradeMoney (tp ?w me) \<and>
    Credits (tp w' target) = Credits (tp ?w target) + TradeMoney (tp ?w me) - TradeMoney (tp ?w target)"
    using complete_trade_exchanges [of me ?w target env a] me target ne win stock room p TradeSpaceUsed_offered [OF win(1)]
      TradeSpaceUsed_offered [OF win(2)] by auto
  moreover have "Credits (tp w' me) + Credits (tp w' target) = Credits (tp w me) + Credits (tp w target)"
    using eff p by simp
  ultimately show ?thesis using p by (intro exI [of _ w']) simp
qed

section \<open>A player who trades with himself\<close>

lemma hand_over_self:
  assumes me: "me < length (tplayers w)" and win: "window_ok env (tinv w me)" and stock: "cargo_stock env (tinv w me)"
    and room: "2 * offered (TradeInv (tinv w me)) [0..<6] \<le> empties (slots (tinv w me)) (tinv w me)" and q [simp]: "missions_quiet env"
  obtains w4 w5 where "give_items env me me [0..<6] w = Some w4" "give_items env me me [0..<6] w4 = Some w5"
    "length (tplayers w5) = length (tplayers w)"
    "handed_at env (Some (\<lambda>k. 2 * total k (TradeInv (tinv w me)))) (tp w me) (tp w5 me)"
proof -
  obtain w4 where w4: "give_items env me me [0..<6] w = Some w4" and h4: "handed env me (\<lambda>k. total k (TradeInv (tinv w me))) w w4"
    and e4: "empties (slots (tinv w me)) (tinv w me) \<le> empties (slots (tinv w4 me)) (tinv w4 me) + offered (TradeInv (tinv w me)) [0..<6]"
    by (rule give_window [OF me me win stock]) (use room in auto)
  have l4: "length (tplayers w4) = length (tplayers w)" using h4 by (simp add: handed_def)
  have m4: "handed_at env (Some (\<lambda>k. total k (TradeInv (tinv w me)))) (tp w me) (tp w4 me)"
    using handed_atD [OF h4 me] by simp
  have st: "cargo_stock env (tinv w4 me)" using m4 stock by (simp add: handed_at_def)
  obtain w5 where w5: "give_items env me me [0..<6] w4 = Some w5" and h5: "handed env me (\<lambda>k. total k (TradeInv (tinv w4 me))) w4 w5"
    by (rule give_window [of me w4 me env]) (use me l4 handed_at_window [OF m4] win st e4 room in auto)
  have m5: "handed_at env (Some (\<lambda>k. total k (TradeInv (tinv w4 me)))) (tp w4 me) (tp w5 me)"
    using handed_atD [OF h5, of me] me l4 by simp
  have "length (tplayers w5) = length (tplayers w)" using h5 l4 by (simp add: handed_def)
  then show thesis
    using that [OF w4 w5] handed_at_trans(1) [OF m4 m5] by (simp add: handed_at_window(2) [OF m4] mult_2)
qed

text \<open>
  C40: A player who sends the trade action with his own game id as the target and then confirms
  gets everything in his trade window twice: the action does not refuse it, his one confirmation
  counts for both sides, and both loops add the items of the same window to the same cargo. (The
  command line refuses a trade with oneself. \<open>missions_quiet\<close>: the exact numbers are those without a
  stage of a mission that the items complete.)
\<close>

theorem self_trade_duplicates:
  assumes me: "me < length (tplayers w)" and self: "get_player w (tp_GameID (tp w me)) = Some me"
    and ids: "scast (ap_Target a) = tp_GameID (tp w me)" "scast (ap_GameID a) = tp_GameID (tp w me)"
    and win: "window_ok env (tinv w me)" and stock: "cargo_stock env (tinv w me)"
    and room: "2 * TradeSpaceUsed (tinv w me) \<le> empties (slots (tinv w me)) (tinv w me)"
    and uniq: "CanReceiveTradeItems env (tinv w me) (tinv w me) = Some True" and q [simp]: "missions_quiet env"
  shows "\<exists>w'. trade_confirm env me b (trade_open me a w) = Some w' \<and>
    (\<forall>k. k \<noteq> -1 \<longrightarrow> total k (CargoInv (tinv w' me)) = total k (CargoInv (tinv w me)) + 2 * total k (TradeInv (tinv w me))) \<and>
    list_all (\<lambda>it. ItemTemplateID it = -1) (TradeInv (tinv w' me)) \<and> Credits (tp w' me) = Credits (tp w me)"
proof -
  define w1 where "w1 = trade_open me a w"
  have w1: "tplayers w1 = (tplayers w)[me := (tp w me)\<lparr>m_TradeID := tp_GameID (tp w me), m_TradeConfirm := False\<rparr>]"
    "get_player w1 = get_player w"
    using me self ids by (simp_all add: w1_def trade_open_def Let_def on_tp_def t_emit_def set_trade_def set_confirm_def)
  define w2 where "w2 = confirmed me me w1"
  have w2: "tplayers w2 = (tplayers w)[me := (tp w me)\<lparr>m_TradeID := tp_GameID (tp w me), m_TradeConfirm := True\<rparr>]"
    using me confirmed_players(1) [of me w1 me] by (simp add: w2_def w1)
  have "trade_confirm env me b w1 = complete_trade env me me b (confirmed me me w1)"
    by (rule trade_confirm_completes) (use me self win stock room uniq w1 w2 in \<open>simp_all add: w2_def [symmetric]\<close>)
  then have tc: "trade_confirm env me b w1 = complete_trade env me me b w2" by (simp add: w2_def)
  define w3 where "w3 = paid me me b w2"
  have w3: "tplayers w3 = (tplayers w)[me := (tp w me)\<lparr>m_TradeConfirm := True, m_TradeID := -1\<rparr>]"
    using me by (simp add: w3_def paid_def pay_def on_tp_def t_emit_def set_trade_def w2)
  then have i3: "tinv w3 me = tinv w me" "me < length (tplayers w3)" "Credits (tp w3 me) = Credits (tp w me)" using me by simp_all
  obtain w4 w5 where w4: "give_items env me me [0..<6] w3 = Some w4" and w5: "give_items env me me [0..<6] w4 = Some w5"
    and l5: "length (tplayers w5) = length (tplayers w3)"
    and h: "handed_at env (Some (\<lambda>k. 2 * total k (TradeInv (tinv w3 me)))) (tp w3 me) (tp w5 me)"
    by (rule hand_over_self [of me w3 env]) (use i3 win stock room TradeSpaceUsed_offered [OF win] in auto)
  have len5: "length (TradeInv (tinv w5 me)) = 6" using handed_at_window(1) [OF h] win i3 by (simp add: window_ok_def)
  define w' where "w' = after_trade me me b (TradeInv (tinv w4 me)) (TradeInv (tinv w3 me)) w5"
  have e: "rest (tp w' me) = (rest (tp w5 me))\<lparr>TradeMoney := 0\<rparr>" "list_all (\<lambda>it. ItemTemplateID it = -1) (TradeInv (tinv w' me))"
    using after_trade_effect [OF _ _ len5 len5, of me] i3 l5 by (auto simp: w'_def)
  have "trade_confirm env me b w1 = Some w'"
    by (simp add: tc complete_trade_paid w3_def [symmetric] w4 w5 w'_def)
  moreover have "Credits (tp w' me) = Credits (tp w me)" using h i3 by (simp add: rest_fields [OF e(1)] handed_at_def meta_def)
  moreover have "total k (CargoInv (tinv w' me)) = total k (CargoInv (tinv w me)) + 2 * total k (TradeInv (tinv w me))" if "k \<noteq> -1" for k
    using h that i3 by (simp add: rest_fields [OF e(1)] handed_at_def)
  ultimately show ?thesis using e(2) by (simp add: w1_def)
qed

section \<open>Credits, cancelling, and a third player\<close>

text \<open>
  The number of credits a client offers is taken as it is. Whatever number \<open>n\<close> he sends, also one
  he does not have or a negative one, once both confirm his credits fall by \<open>n\<close> and the other's grow
  by \<open>n\<close>, in 64-bit arithmetic: with a negative \<open>n\<close> he takes the other's credits.
\<close>

theorem trade_money_unchecked:
  fixes me target w a b env
  assumes me: "me < length (tplayers w)" and target: "target < length (tplayers w)" and ne: "me \<noteq> target"
    and partner: "get_player w (m_TradeID (tp w me)) = Some target"
    and none: "list_all (\<lambda>it. ItemTemplateID it = -1) (TradeInv (tinv w me))" "list_all (\<lambda>it. ItemTemplateID it = -1) (TradeInv (tinv w target))"
    and six: "length (TradeInv (tinv w me)) = 6" "length (TradeInv (tinv w target)) = 6"
    and stock: "cargo_stock env (tinv w me)" "cargo_stock env (tinv w target)" and zero: "TradeMoney (tp w target) = 0" and q [simp]: "missions_quiet env"
  defines "w1 \<equiv> trade_money me a w"
  shows "\<exists>w'. complete_trade env me target b w1 = Some w' \<and>
    Credits (tp w' me) = Credits (tp w me) - scast (ap_OptionalVar a) \<and>
    Credits (tp w' target) = Credits (tp w target) + scast (ap_OptionalVar a)"
proof -
  have w1: "tplayers w1 = (tplayers w)[me := (tp w me)\<lparr>TradeMoney := scast (ap_OptionalVar a), m_TradeConfirm := False\<rparr>,
      target := (tp w target)\<lparr>m_TradeConfirm := False\<rparr>]"
    using partner me target ne
    by (simp add: w1_def trade_money_def Let_def on_tp_def t_emit_def set_money_def set_confirm_def)
  have p: "tp w1 me = (tp w me)\<lparr>TradeMoney := scast (ap_OptionalVar a), m_TradeConfirm := False\<rparr>"
    "tp w1 target = (tp w target)\<lparr>m_TradeConfirm := False\<rparr>" "length (tplayers w1) = length (tplayers w)"
    using me target ne by (simp_all add: w1)
  have win: "window_ok env (tinv w me)" "window_ok env (tinv w target)"
    using none six by (simp_all add: window_ok_def list_all_iff window_item_def item_known_def)
  have "offered (TradeInv (tinv w q)) [0..<6] = 0" if "q \<in> {me, target}" for q
    using none six that by (auto simp: offered_def list_all_length)
  then show ?thesis
    using complete_trade_exchanges [of me w1 target env b] me target ne win stock p zero by auto
qed

text \<open>The state in which a cancelled trade returns the items, and both hand-overs there.\<close>

definition closed :: "nat \<Rightarrow> nat \<Rightarrow> trade_world \<Rightarrow> trade_world" where
  "closed me target w =
     on_tp me (set_money 0) (on_tp target (set_money 0) (on_tp target (set_trade (-1)) (on_tp me (set_trade (-1))
       (t_emit (TradeAction target (tp_GameID (tp w me)) 1) (t_emit (TradeAction me (m_TradeID (tp w me)) 1) w)))))"

lemma CancelTrade_closed:
  assumes "get_player w (m_TradeID (tp w me)) = Some target"
  shows "CancelTrade env me w = do {
     w4 \<leftarrow> give_items env me me [0..<6] (closed me target w);
     w5 \<leftarrow> give_items env target target [0..<6] w4;
     Some (after_cancel me target w5)
   }"
  using assms by (simp add: CancelTrade_def closed_def Let_def)

lemma closed_players:
  assumes "me < length (tplayers w)" "target < length (tplayers w)"
  shows "p \<in> {me, target} \<Longrightarrow> tp (closed me target w) p = (tp w p)\<lparr>m_TradeID := -1, TradeMoney := 0\<rparr>"
    and "length (tplayers (closed me target w)) = length (tplayers w)"
  using assms by (auto simp: closed_def on_tp_def t_emit_def set_money_def set_trade_def nth_list_update)

lemma hand_back_both:
  assumes me: "me < length (tplayers w)" and target: "target < length (tplayers w)" and ne: "me \<noteq> target"
    and win: "window_ok env (tinv w me)" "window_ok env (tinv w target)"
    and stock: "cargo_stock env (tinv w me)" "cargo_stock env (tinv w target)"
    and room: "offered (TradeInv (tinv w me)) [0..<6] \<le> empties (slots (tinv w me)) (tinv w me)"
      "offered (TradeInv (tinv w target)) [0..<6] \<le> empties (slots (tinv w target)) (tinv w target)" and q [simp]: "missions_quiet env"
  obtains w4 w5 where "give_items env me me [0..<6] w = Some w4" "give_items env target target [0..<6] w4 = Some w5"
    "length (tplayers w5) = length (tplayers w)"
    "\<And>p. p \<in> {me, target} \<Longrightarrow> handed_at env (Some (\<lambda>k. total k (TradeInv (tinv w p)))) (tp w p) (tp w5 p)"
proof -
  obtain w4 where w4: "give_items env me me [0..<6] w = Some w4" and h4: "handed env me (\<lambda>k. total k (TradeInv (tinv w me))) w w4"
    using give_window [OF me me win(1) stock(1) room(1) q] by blast
  have l4: "length (tplayers w4) = length (tplayers w)" using h4 by (simp add: handed_def)
  have m4: "handed_at env (Some (\<lambda>k. total k (TradeInv (tinv w me)))) (tp w me) (tp w4 me)"
    and t4: "handed_at env None (tp w target) (tp w4 target)"
    using handed_atD [OF h4 me] handed_atD [OF h4 target] ne by simp_all
  have st: "cargo_stock env (tinv w4 target)" using t4 stock(2) by (simp add: handed_at_def)
  have em: "empties (slots (tinv w4 target)) (tinv w4 target) = empties (slots (tinv w target)) (tinv w target)"
    using t4 by (simp add: handed_at_def empties_def)
  obtain w5 where w5: "give_items env target target [0..<6] w4 = Some w5"
    and h5: "handed env target (\<lambda>k. total k (TradeInv (tinv w4 target))) w4 w5"
    by (rule give_window [of target w4 target env])
      (use target l4 handed_at_window [OF t4] win(2) st em room(2) in auto)
  have m5: "handed_at env None (tp w4 me) (tp w5 me)"
    and t5: "handed_at env (Some (\<lambda>k. total k (TradeInv (tinv w4 target)))) (tp w4 target) (tp w5 target)"
    using handed_atD [OF h5, of me] handed_atD [OF h5, of target] me target l4 ne by simp_all
  have "handed_at env (Some (\<lambda>k. total k (TradeInv (tinv w me)))) (tp w me) (tp w5 me)"
    using handed_at_trans(1) [OF m4 handed_at_None [OF m5]] by simp
  moreover have "handed_at env (Some (\<lambda>k. total k (TradeInv (tinv w target)))) (tp w target) (tp w5 target)"
    using handed_at_trans(1) [OF handed_at_None [OF t4] t5] by (simp add: handed_at_window(2) [OF t4])
  moreover have "length (tplayers w5) = length (tplayers w)" using h5 l4 by (simp add: handed_def)
  ultimately show thesis by (intro that [OF w4 w5]) auto
qed

text \<open>
  C28: A cancelled trade gives each of the two players back what is in his own window, when his cargo
  has room (which \<open>CancelTrade\<close> does not check) and no stage of a mission is completed by taking the
  items back; the windows are empty afterwards and both are free to trade again.
\<close>

theorem cancel_returns:
  assumes me: "me < length (tplayers w)" and target: "target < length (tplayers w)" and ne: "me \<noteq> target"
    and partner: "get_player w (m_TradeID (tp w me)) = Some target"
    and win: "window_ok env (tinv w me)" "window_ok env (tinv w target)"
    and stock: "cargo_stock env (tinv w me)" "cargo_stock env (tinv w target)"
    and room: "TradeSpaceUsed (tinv w me) \<le> empties (slots (tinv w me)) (tinv w me)"
      "TradeSpaceUsed (tinv w target) \<le> empties (slots (tinv w target)) (tinv w target)" and q [simp]: "missions_quiet env"
  shows "\<exists>w'. CancelTrade env me w = Some w' \<and>
    (\<forall>p \<in> {me, target}. list_all (\<lambda>it. ItemTemplateID it = -1) (TradeInv (tinv w' p)) \<and> m_TradeID (tp w' p) = -1 \<and>
       Credits (tp w' p) = Credits (tp w p) \<and>
       (\<forall>k. k \<noteq> -1 \<longrightarrow> total k (CargoInv (tinv w' p)) = total k (CargoInv (tinv w p)) + total k (TradeInv (tinv w p))))"
proof -
  define w3 where "w3 = closed me target w"
  note p3 = closed_players [OF me target, folded w3_def]
  obtain w4 w5 where w4: "give_items env me me [0..<6] w3 = Some w4" and w5: "give_items env target target [0..<6] w4 = Some w5"
    and l5: "length (tplayers w5) = length (tplayers w3)"
    and h: "\<And>p. p \<in> {me, target} \<Longrightarrow> handed_at env (Some (\<lambda>k. total k (TradeInv (tinv w3 p)))) (tp w3 p) (tp w5 p)"
    by (rule hand_back_both [of me w3 target env])
      (use me target ne win stock room p3 TradeSpaceUsed_offered [OF win(1)] TradeSpaceUsed_offered [OF win(2)] in auto)
  have len5: "length (TradeInv (tinv w5 me)) = 6" "length (TradeInv (tinv w5 target)) = 6"
    using handed_at_window(1) [OF h [of me]] handed_at_window(1) [OF h [of target]] win p3 by (simp_all add: window_ok_def)
  define w' where "w' = after_cancel me target w5"
  have ct: "CancelTrade env me w = Some w'" by (simp add: CancelTrade_closed [OF partner] w3_def [symmetric] w4 w5 w'_def)
  have e: "rest (tp w' p) = (rest (tp w5 p))\<lparr>m_TradeConfirm := False\<rparr>" "list_all (\<lambda>it. ItemTemplateID it = -1) (TradeInv (tinv w' p))"
    if "p \<in> {me, target}" for p
    using after_cancel_effect [of me w5 target p] me target l5 len5 that p3(2) by (simp_all add: w'_def)
  have "m_TradeID (tp w' p) = -1 \<and> Credits (tp w' p) = Credits (tp w p) \<and>
      (\<forall>k. k \<noteq> -1 \<longrightarrow> total k (CargoInv (tinv w' p)) = total k (CargoInv (tinv w p)) + total k (TradeInv (tinv w p)))"
    if "p \<in> {me, target}" for p
    using h [OF that] p3(1) [OF that] by (simp add: rest_fields_confirm [OF e(1) [OF that]] handed_at_def meta_def)
  then show ?thesis using ct e(2) by (intro exI [of _ w']) simp
qed

text \<open>
  A third player breaks into a trade. When \<open>me\<close> sends the trade action for somebody who is already
  trading, the message \<open>That player is already trading with someone!\<close> goes out, but his partner is
  replaced all the same and his confirmation is withdrawn; the partner he had still holds his id.
\<close>

theorem trade_hijack:
  assumes "me < length (tplayers w)" "v < length (tplayers w)" "p < length (tplayers w)" "distinct [me, v, p]"
    and "get_player w (scast (ap_Target a)) = Some v" and "m_TradeID (tp w v) = tp_GameID (tp w p)" "tp_GameID (tp w p) \<noteq> -1"
    and "m_TradeID (tp w p) = scast (ap_Target a)"
  shows "(let w' = trade_open me a w in
    TradeMessage me ''That player is already trading with someone!'' \<in> set (trade_log w') \<and>
    m_TradeID (tp w' v) = scast (ap_GameID a) \<and> m_TradeID (tp w' me) = scast (ap_Target a) \<and> \<not> m_TradeConfirm (tp w' v) \<and>
    m_TradeID (tp w' p) = scast (ap_Target a))"
  using assms by (auto simp: trade_open_def Let_def on_tp_def t_emit_def set_trade_def set_confirm_def)

section \<open>Filling the window\<close>

text \<open>Exchanging a cargo slot with a window slot, in either order.\<close>

lemma window_exchange:
  assumes "c < length (CargoInv iv)" "x < length (TradeInv iv)"
    and "CargoInv iv' = (CargoInv iv)[c := set_slot (TradeInv iv ! x) old]" "TradeInv iv' = (TradeInv iv)[x := set_slot (CargoInv iv ! c) old']"
  shows "total k (CargoInv iv') + total k (TradeInv iv') = total k (CargoInv iv) + total k (TradeInv iv)"
  using total_update [OF assms(1), of k "set_slot (TradeInv iv ! x) old"] total_update [OF assms(2), of k "set_slot (CargoInv iv ! c) old'"]
  by (simp add: assms(3,4))

lemma keep_saves:
  assumes "missions_keep env k"
  shows "total k (CargoInv (save_cargo_slot env i iv)) = total k (CargoInv iv)" "TradeInv (save_cargo_slot env i iv) = TradeInv iv"
  using assms by (simp_all add: save_cargo_slot_def missions_keep_def inv_emit_def)

definition window_step :: "item_env \<Rightarrow> nat \<Rightarrow> nat \<Rightarrow> trade_world \<Rightarrow> trade_world \<Rightarrow> bool" where
  "window_step env me target w w' \<longleftrightarrow> \<not> m_TradeConfirm (tp w' me) \<and> \<not> m_TradeConfirm (tp w' target) \<and>
     (\<forall>k. missions_keep env k \<longrightarrow> total k (CargoInv (tinv w' me)) + total k (TradeInv (tinv w' me)) =
        total k (CargoInv (tinv w me)) + total k (TradeInv (tinv w me)))"

lemma put_in_window_step:
  assumes "me < length (tplayers w)" "target < length (tplayers w)" "get_player w (m_TradeID (tp w me)) = Some target"
    and "c < length (CargoInv (tinv w me))" "x < length (TradeInv (tinv w me))"
  shows "window_step env me target w (put_in_window env me c x (CargoInv (tinv w me) ! c) (TradeInv (tinv w me) ! x) w)"
proof -
  let ?w' = "put_in_window env me c x (CargoInv (tinv w me) ! c) (TradeInv (tinv w me) ! x) w"
  define mid where "mid = (tinv w me)\<lparr>
    CargoInv := (CargoInv (tinv w me))[c := set_slot (TradeInv (tinv w me) ! x) (CargoInv (tinv w me) ! c)],
    TradeInv := (TradeInv (tinv w me))[x := set_slot (CargoInv (tinv w me) ! c) (TradeInv (tinv w me) ! x)]\<rparr>"
  have "tinv ?w' me = save_cargo_slot env c mid" "\<not> m_TradeConfirm (tp ?w' me)" "\<not> m_TradeConfirm (tp ?w' target)"
    using assms
    by (simp_all add: put_in_window_def Let_def unconfirm_def on_tp_def t_emit_def on_window_def on_tp_cargo_def on_cargo_def
        set_inv_def set_confirm_def save_cargo_def nth_list_update mid_def)
  moreover have "total k (CargoInv mid) + total k (TradeInv mid) = total k (CargoInv (tinv w me)) + total k (TradeInv (tinv w me))" for k
    by (rule window_exchange [OF assms(4,5)]) (simp_all add: mid_def)
  ultimately show ?thesis by (simp add: window_step_def keep_saves)
qed

lemma trade_to_cargo_step:
  assumes "me < length (tplayers w)" "target < length (tplayers w)" "get_player w (m_TradeID (tp w me)) = Some target"
    and "trade_to_cargo env me m w = Some w'"
  shows "w' = w \<or> window_step env me target w w'"
proof (cases "w' = w")
  case ne: False
  let ?c = "unat (ToSlot m)" and ?x = "unat (FromSlot m)"
  have b: "?c < length (CargoInv (tinv w me))" "?x < length (TradeInv (tinv w me))"
    using assms(4) ne by (auto simp: trade_to_cargo_def Let_def split: if_splits)
  define mid where "mid = save_cargo_slot env ?c ((tinv w me)\<lparr>
    CargoInv := (CargoInv (tinv w me))[?c := set_slot (TradeInv (tinv w me) ! ?x) (CargoInv (tinv w me) ! ?c)]\<rparr>)"
  have "tinv w' me = mid\<lparr>TradeInv := (TradeInv mid)[?x := set_slot (CargoInv (tinv w me) ! ?c) (TradeInv mid ! ?x)]\<rparr>"
    "\<not> m_TradeConfirm (tp w' me)" "\<not> m_TradeConfirm (tp w' target)"
    using assms ne b
    by (auto simp: trade_to_cargo_def Let_def unconfirm_def on_tp_def t_emit_def on_window_def on_tp_cargo_def on_cargo_def
        set_inv_def set_confirm_def save_cargo_def mid_def nth_list_update split: if_splits)
  moreover have "total k (CargoInv mid) + total k ((TradeInv mid)[?x := set_slot (CargoInv (tinv w me) ! ?c) (TradeInv mid ! ?x)]) =
      total k (CargoInv (tinv w me)) + total k (TradeInv (tinv w me))" if "missions_keep env k" for k
  proof -
    have "total k (CargoInv mid) = total k ((CargoInv (tinv w me))[?c := set_slot (TradeInv (tinv w me) ! ?x) (CargoInv (tinv w me) ! ?c)])"
      "TradeInv mid = TradeInv (tinv w me)" using keep_saves [OF that] by (simp_all add: mid_def)
    then show ?thesis
      using window_exchange [OF b, of "mid\<lparr>
          CargoInv := (CargoInv (tinv w me))[?c := set_slot (TradeInv (tinv w me) ! ?x) (CargoInv (tinv w me) ! ?c)],
          TradeInv := (TradeInv (tinv w me))[?x := set_slot (CargoInv (tinv w me) ! ?c) (TradeInv (tinv w me) ! ?x)]\<rparr>"] by simp
  qed
  ultimately show ?thesis by (simp add: window_step_def)
qed simp

text \<open>
  C29: A move of an item between cargo and trade window during a trade leaves nothing confirmed: whatever
  was confirmed before is no longer confirmed by either player. It creates and destroys no item
  of any kind, but of kinds that a stage of a mission, completed by saving the cargo slot, hands out or takes.
  (The command \<open>/trade\<close>, which empties windows, is not such a move.)
\<close>

theorem window_moves_unconfirm:
  assumes "me < length (tplayers w)" "target < length (tplayers w)" "get_player w (m_TradeID (tp w me)) = Some target"
    and "cargo_to_trade env me m w = Some w' \<or> trade_to_cargo env me m w = Some w'"
    and "TradeInv (tinv w' me) \<noteq> TradeInv (tinv w me)"
  shows "\<not> m_TradeConfirm (tp w' me) \<and> \<not> m_TradeConfirm (tp w' target) \<and>
    (\<forall>k. missions_keep env k \<longrightarrow> total k (CargoInv (tinv w' me)) + total k (TradeInv (tinv w' me)) =
       total k (CargoInv (tinv w me)) + total k (TradeInv (tinv w me)))"
proof -
  have "window_step env me target w w'"
  proof (cases "trade_to_cargo env me m w = Some w'")
    case True
    then show ?thesis using trade_to_cargo_step [OF assms(1-3)] assms(5) by auto
  next
    case False
    then have t: "cargo_to_trade env me m w = Some w'" using assms(4) by simp
    have "w' = put_in_window env me (unat (FromSlot m)) (unat (ToSlot m)) (CargoInv (tinv w me) ! unat (FromSlot m))
        (TradeInv (tinv w me) ! unat (ToSlot m)) w \<and>
      unat (FromSlot m) < length (CargoInv (tinv w me)) \<and> unat (ToSlot m) < length (TradeInv (tinv w me))"
      using t assms(5) by (auto simp: cargo_to_trade_def Let_def t_emit_def split: if_splits option.splits)
    then show ?thesis using put_in_window_step [OF assms(1-3)] by simp
  qed
  then show ?thesis by (simp add: window_step_def)
qed

section \<open>Three players\<close>

definition demo_trader :: "clong \<Rightarrow> clong \<Rightarrow> Item list \<Rightarrow> Item list \<Rightarrow> u64 \<Rightarrow> trade_player" where
  "demo_trader i partner cargo window n =
     \<lparr>tp_GameID = i, tp_inv = (demo_inv cargo [])\<lparr>TradeInv := window @ replicate (6 - length window) EmptyItem\<rparr>,
      m_TradeID = partner, m_TradeConfirm = True, TradeMoney = n, Credits = 1000, tp_AdminLevel = 0, tp_Active = True,
      tp_InSpace = True\<rparr>"

definition demo_market :: trade_world where
  "demo_market = \<lparr>tplayers =
       [demo_trader 100 200 [demo_item [] 8, EmptyItem, EmptyItem] [demo_item [] 5] 30,
        demo_trader 200 100 [EmptyItem, EmptyItem] [EmptyItem, demo_item [] 7] 0,
        demo_trader 300 (-1) [EmptyItem] [] 0],
     get_player = (\<lambda>i. if i = 100 then Some 0 else if i = 200 then Some 1 else if i = 300 then Some 2 else None),
     trade_log = []\<rparr>"

lemma demo_market_ok:
  "window_ok demo_env (tinv demo_market 0)" "window_ok demo_env (tinv demo_market 1)"
  "cargo_stock demo_env (tinv demo_market 0)" "cargo_stock demo_env (tinv demo_market 1)"
  by code_simp+

lemma demo_market_room:
  "TradeSpaceUsed (tinv demo_market 1) \<le> empties (slots (tinv demo_market 0)) (tinv demo_market 0)"
  "TradeSpaceUsed (tinv demo_market 0) \<le> empties (slots (tinv demo_market 1)) (tinv demo_market 1)"
  "TradeSpaceUsed (tinv demo_market 0) \<le> empties (slots (tinv demo_market 0)) (tinv demo_market 0)"
  "TradeSpaceUsed (tinv demo_market 1) \<le> empties (slots (tinv demo_market 1)) (tinv demo_market 1)"
  "2 * TradeSpaceUsed (tinv demo_market 0) \<le> empties (slots (tinv demo_market 0)) (tinv demo_market 0)"
  "CanReceiveTradeItems demo_env (tinv demo_market 1) (tinv demo_market 0) = Some True"
  "CanReceiveTradeItems demo_env (tinv demo_market 0) (tinv demo_market 0) = Some True"
  by code_simp+

lemma demo_market_totals:
  "total 5 (CargoInv (tinv demo_market 0)) = 8" "total 5 (TradeInv (tinv demo_market 0)) = 5"
  "total 5 (CargoInv (tinv demo_market 1)) = 0" "total 5 (TradeInv (tinv demo_market 1)) = 7"
  by code_simp+

lemma demo_market_players:
  "0 < length (tplayers demo_market)" "1 < length (tplayers demo_market)" "(0 :: nat) \<noteq> 1"
  "get_player demo_market (m_TradeID (tp demo_market 0)) = Some 1" "m_TradeConfirm (tp demo_market 1)"
  "get_player demo_market (tp_GameID (tp demo_market 0)) = Some 0"
  by (simp_all add: demo_market_def demo_trader_def)

lemma demo_market_purses:
  "Credits (tp demo_market 0) = 1000" "Credits (tp demo_market 1) = 1000"
  "TradeMoney (tp demo_market 0) = 30" "TradeMoney (tp demo_market 1) = 0"
  by (simp_all add: demo_market_def demo_trader_def)

definition demo_action :: "s32 \<Rightarrow> s32 \<Rightarrow> s32 \<Rightarrow> ActionPacket" where
  "demo_action i t n = \<lparr>ap_GameID = i, ap_Action = 20, ap_Target = t, ap_OptionalVar = n\<rparr>"

theorem trade_exchanges_witness:
  "\<exists>w'. trade_confirm demo_env 0 (demo_action 100 200 0) demo_market = Some w' \<and>
     total 5 (CargoInv (tinv w' 0)) = 15 \<and> total 5 (CargoInv (tinv w' 1)) = 5 \<and>
     Credits (tp w' 0) = 970 \<and> Credits (tp w' 0) + Credits (tp w' 1) = 2000"
  using trade_exchanges [OF demo_market_players(1-5) demo_market_ok demo_market_room(1,2,6) demo_quiet, of "demo_action 100 200 0",
      unfolded demo_market_purses] demo_market_totals
  by (elim exE conjE) (erule allE [of _ 5], auto)

theorem self_trade_duplicates_witness:
  "\<exists>w'. trade_confirm demo_env 0 (demo_action 100 100 0) (trade_open 0 (demo_action 100 100 0) demo_market) = Some w' \<and>
     total 5 (CargoInv (tinv w' 0)) = 18 \<and> total 5 (TradeInv (tinv demo_market 0)) = 5"
proof -
  have ids: "scast (ap_Target (demo_action 100 100 0)) = tp_GameID (tp demo_market 0)"
    "scast (ap_GameID (demo_action 100 100 0)) = tp_GameID (tp demo_market 0)"
    by (simp_all add: demo_action_def demo_market_def demo_trader_def)
  show ?thesis
    using self_trade_duplicates [OF demo_market_players(1,6) ids demo_market_ok(1,3) demo_market_room(5,7) demo_quiet, of "demo_action 100 100 0"]
      demo_market_totals
    by (elim exE conjE) (erule allE [of _ 5], auto)
qed

theorem cancel_returns_witness:
  "\<exists>w'. CancelTrade demo_env 0 demo_market = Some w' \<and> total 5 (CargoInv (tinv w' 0)) = 13 \<and> total 5 (CargoInv (tinv w' 1)) = 7"
proof -
  obtain w' where w': "CancelTrade demo_env 0 demo_market = Some w'"
    and k: "\<forall>p \<in> {0, 1}. \<forall>k. k \<noteq> -1 \<longrightarrow>
      total k (CargoInv (tinv w' p)) = total k (CargoInv (tinv demo_market p)) + total k (TradeInv (tinv demo_market p))"
    using cancel_returns [OF demo_market_players(1-4) demo_market_ok demo_market_room(3,4) demo_quiet] by blast
  have "total 5 (CargoInv (tinv w' p)) = total 5 (CargoInv (tinv demo_market p)) + total 5 (TradeInv (tinv demo_market p))"
    if "p \<in> {0, 1}" for p
    using k that by auto
  from this [of 0] this [of 1] show ?thesis using w' demo_market_totals by auto
qed

definition demo_purse :: trade_world where
  "demo_purse = demo_market\<lparr>tplayers := [demo_trader 100 200 [EmptyItem] [] 0, demo_trader 200 100 [EmptyItem] [] 0]\<rparr>"

theorem trade_money_unchecked_witness:
  "\<exists>w'. complete_trade demo_env 0 1 (demo_action 100 200 0) (trade_money 0 (demo_action 100 200 (-400)) demo_purse) = Some w' \<and>
     Credits (tp w' 0) = 1400 \<and> Credits (tp w' 1) = 600"
proof -
  have f: "cargo_stock demo_env (tinv demo_purse 0)" "cargo_stock demo_env (tinv demo_purse 1)"
    "list_all (\<lambda>it. ItemTemplateID it = -1) (TradeInv (tinv demo_purse 0))"
    "list_all (\<lambda>it. ItemTemplateID it = -1) (TradeInv (tinv demo_purse 1))"
    "length (TradeInv (tinv demo_purse 0)) = 6" "length (TradeInv (tinv demo_purse 1)) = 6" by code_simp+
  have n: "scast (ap_OptionalVar (demo_action 100 200 (-400))) = (-400 :: u64)" by (simp add: demo_action_def)
  have p: "length (tplayers demo_purse) = 2" "get_player demo_purse (m_TradeID (tp demo_purse 0)) = Some 1" "TradeMoney (tp demo_purse 1) = 0"
    "Credits (tp demo_purse 0) = 1000" "Credits (tp demo_purse 1) = 1000"
    by (simp_all add: demo_purse_def demo_market_def demo_trader_def)
  show ?thesis
    using trade_money_unchecked [of 0 demo_purse 1 demo_env "demo_action 100 200 0" "demo_action 100 200 (-400)"] f p(3,5)
    by (simp add: p n)
qed

theorem trade_hijack_witness:
  "m_TradeID (tp (trade_open 2 (demo_action 300 100 0) demo_market) 0) = 300"
  using trade_hijack [of 2 demo_market 0 1 "demo_action 300 100 0"]
  by (simp add: Let_def demo_market_def demo_trader_def demo_action_def)

definition demo_move :: InvMove where
  "demo_move = \<lparr>FromInv = 1, FromSlot = 0, ToInv = 16, ToSlot = 3, Num = 8\<rparr>"

theorem window_moves_unconfirm_witness:
  "\<exists>w'. cargo_to_trade demo_env 0 demo_move demo_market = Some w' \<and> \<not> m_TradeConfirm (tp w' 0) \<and> \<not> m_TradeConfirm (tp w' 1) \<and>
     total 5 (CargoInv (tinv w' 0)) + total 5 (TradeInv (tinv w' 0)) = 13"
proof -
  define w' where "w' = the (cargo_to_trade demo_env 0 demo_move demo_market)"
  have "cargo_to_trade demo_env 0 demo_move demo_market \<noteq> None" by code_simp
  then have w': "cargo_to_trade demo_env 0 demo_move demo_market = Some w'" by (simp add: w'_def)
  have "ItemTemplateID (TradeInv (tinv (the (cargo_to_trade demo_env 0 demo_move demo_market)) 0) ! 3) = 5"
    "ItemTemplateID (TradeInv (tinv demo_market 0) ! 3) = -1" by code_simp+
  then have ne: "TradeInv (tinv w' 0) \<noteq> TradeInv (tinv demo_market 0)" unfolding w'_def [symmetric] by auto
  show ?thesis
    using window_moves_unconfirm [OF demo_market_players(1,2,4) disjI1 [OF w'] ne] w' demo_market_totals
      missions_quiet_keep [OF demo_quiet, of 5] by auto
qed

end
