(* ===== verification/ReliableSend.thy ===== *)
theory ReliableSend
  imports MessageQueue
begin

text \<open>
  The sending side of the reliable stream to a client (\<^verbatim>\<open>server/src/PlayerConnection.cpp\<close>,
  \<^verbatim>\<open>server/src/UDPConnection.cpp\<close>): \<^verbatim>\<open>Player::SendOpcode\<close> queues an opcode,
  \<^verbatim>\<open>SendPacketCache\<close> forms the next numbered datagram from the queue, in chunks when one opcode is
  larger than a datagram, and keeps it in a ring of 64 entries; \<^verbatim>\<open>ReSendOpcodes\<close> answers a request for
  datagrams the proxy has missed.

  The player's buffers are byte lists of their size; \<^term>\<open>None\<close> is an access outside one of them,
  or a loop that does not end. A datagram is its header fields and its payload. The
  processing of input at the beginning of \<^verbatim>\<open>SendPacketCache\<close> is left out.
\<close>

section \<open>Datagrams\<close>

record Datagram =
  udp_size :: s16
  udp_opcode :: s16
  udp_player_id :: s32
  packet_sequence :: s32
  udp_payload :: bytes

definition UDP_HEADER_SIZE :: nat where "UDP_HEADER_SIZE = 12"
definition UDP_BUFFER_SEND_SIZE :: nat where "UDP_BUFFER_SEND_SIZE = 16384"

definition PACKET_SEQUENCE :: s16 where "PACKET_SEQUENCE = 0x2016"
definition PACKET_C_SEQUENCE :: s16 where "PACKET_C_SEQUENCE = 0x201A"

text \<open>
  \<^verbatim>\<open>UDP_Connection::SendOpcode\<close> for a player. A message that does not fit is reported, but the
  bytes behind the buffer are sent all the same.
\<close>

definition udp_SendOpcode :: "s16 \<Rightarrow> s32 \<Rightarrow> bytes \<Rightarrow> clong \<Rightarrow> Datagram option" where
  "udp_SendOpcode opcode player data sequence_num =
     (if UDP_BUFFER_SEND_SIZE < length data + UDP_HEADER_SIZE then None
      else Some \<lparr>udp_size = of_nat (length data + UDP_HEADER_SIZE), udp_opcode = opcode, udp_player_id = player,
                 packet_sequence = ucast sequence_num, udp_payload = data\<rparr>)"

section \<open>State\<close>

definition RESEND_ELEMENTS :: nat where "RESEND_ELEMENTS = 64"
definition MAXIMUM_PACKET_CACHE :: nat where "MAXIMUM_PACKET_CACHE = 10240"
definition PERIODIC_CACHE_SEND_SIZE :: nat where "PERIODIC_CACHE_SEND_SIZE = 512"
definition PERIODIC_CACHE_SEND_SIZE_OPT :: nat where "PERIODIC_CACHE_SEND_SIZE_OPT = 1400"

record st_resend =
  rs_data :: "nat option"
  rs_length :: nat
  rs_packet_num :: u32
  rs_message :: u32

definition null_resend :: st_resend where
  "null_resend = \<lparr>rs_data = None, rs_length = 0, rs_packet_num = 0, rs_message = 0\<rparr>"

record sender =
  m_UDPQueue :: queue_state
  m_RSendQueue :: queue_state
  m_OpcodeFormingBuffer :: bytes
  m_PacketSplitBuffer :: bytes
  m_PacketSplitRemaining :: nat
  m_PeriodicCacheSize :: nat
  m_PacketSequenceNum :: clong
  m_ResendIndex :: nat
  m_ResendQueue :: "st_resend list"
  m_UDPConnection :: bool
  snd_GameID :: clong
  wire :: "Datagram list"

section \<open>Queueing an opcode\<close>

type_synonym opcode = "s16 \<times> bytes"

text \<open>An opcode as the server puts it into the stream.\<close>

definition opcode_bytes :: "opcode \<Rightarrow> bytes" where
  "opcode_bytes f = le_bytes 2 (of_nat (length (snd f) + 4) :: s16) @ le_bytes 2 (fst f) @ snd f"

lemma length_opcode_bytes [simp]: "length (opcode_bytes f) = length (snd f) + 4"
  by (simp add: opcode_bytes_def)

lemma opcode_bytes_not_Nil [simp]: "opcode_bytes f \<noteq> []"
  by (metis add_is_0 length_opcode_bytes list.size(3) zero_neq_numeral)

definition Player_SendOpcode :: "u32 \<Rightarrow> s16 \<Rightarrow> bytes \<Rightarrow> sender \<Rightarrow> sender option" where
  "Player_SendOpcode tick opcode data s =
     (if 600 < m_EntriesInQueue (fst (m_UDPQueue s)) then Some s
      else do {
        b1 \<leftarrow> poke (m_OpcodeFormingBuffer s) 0 (le_bytes 2 (of_nat (length data + 4) :: s16));
        b2 \<leftarrow> poke b1 2 (le_bytes 2 opcode);
        b3 \<leftarrow> poke b2 4 data;
        packet \<leftarrow> peek b3 0 (length data + 4);
        (p, q) \<leftarrow> Add tick packet (snd_GameID s) (m_UDPQueue s);
        Some (s\<lparr>m_OpcodeFormingBuffer := b3, m_UDPQueue := q\<rparr>)
      })"

definition HandlePacketOptRequest :: "bytes option \<Rightarrow> (bytes \<Rightarrow> bytes \<Rightarrow> bool) \<Rightarrow> bytes \<Rightarrow> bytes \<Rightarrow> bytes \<Rightarrow> sender \<Rightarrow> sender" where
  "HandlePacketOptRequest param same_ignoring_case ON OFF lac s =
     (let toggled = (if m_PeriodicCacheSize s = PERIODIC_CACHE_SEND_SIZE then PERIODIC_CACHE_SEND_SIZE_OPT
                     else PERIODIC_CACHE_SEND_SIZE)
      in s\<lparr>m_PeriodicCacheSize :=
            (case param of None \<Rightarrow> toggled
             | Some p \<Rightarrow> if same_ignoring_case p ON then PERIODIC_CACHE_SEND_SIZE_OPT
                         else if same_ignoring_case p OFF then PERIODIC_CACHE_SEND_SIZE
                         else if p = lac then PERIODIC_CACHE_SEND_SIZE_OPT else toggled)\<rparr>)"

section \<open>Forming the next datagram\<close>

text \<open>Another chunk of an opcode that was split up.\<close>

definition continue_split :: "sender \<Rightarrow> (nat \<times> sender) option" where
  "continue_split s =
     (let small = m_PacketSplitRemaining s < m_PeriodicCacheSize s;
          cumulative = (if small then m_PacketSplitRemaining s else m_PeriodicCacheSize s);
          remaining = (if small then 0 else m_PacketSplitRemaining s - m_PeriodicCacheSize s)
      in do {
        chunk \<leftarrow> peek (m_PacketSplitBuffer s) 0 cumulative;
        forming \<leftarrow> poke (m_OpcodeFormingBuffer s) 0 chunk;
        split \<leftarrow> (if 0 < remaining
                 then Option.bind (peek (m_PacketSplitBuffer s) (m_PeriodicCacheSize s) remaining)
                        (poke (m_PacketSplitBuffer s) 0)
                 else Some (m_PacketSplitBuffer s));
        Some (cumulative, s\<lparr>m_PacketSplitRemaining := remaining, m_OpcodeFormingBuffer := forming,
                            m_PacketSplitBuffer := split\<rparr>)
      })"

text \<open>The next opcode is larger than a datagram: the first chunk. The result of the read is not looked at.\<close>

definition start_split :: "sender \<Rightarrow> (nat \<times> sender) option" where
  "start_split s = do {
     (r, q) \<leftarrow> CheckQueue MAXIMUM_PACKET_CACHE (m_UDPQueue s);
     split1 \<leftarrow> (case cr_data r of Some d \<Rightarrow> poke (m_PacketSplitBuffer s) 0 d | None \<Rightarrow> Some (m_PacketSplitBuffer s));
     let remaining = cr_length r - m_PeriodicCacheSize s;
     chunk \<leftarrow> peek split1 0 (m_PeriodicCacheSize s);
     forming \<leftarrow> poke (m_OpcodeFormingBuffer s) 0 chunk;
     moved \<leftarrow> peek split1 (m_PeriodicCacheSize s) remaining;
     split2 \<leftarrow> poke split1 0 moved;
     Some (m_PeriodicCacheSize s,
       s\<lparr>m_UDPQueue := q, m_PacketSplitRemaining := remaining, m_OpcodeFormingBuffer := forming,
         m_PacketSplitBuffer := split2\<rparr>)
   }"

text \<open>Opcodes that fit together: the loop that fills the datagram.\<close>

partial_function (option) fill_datagram ::
    "nat \<Rightarrow> nat \<Rightarrow> bytes \<Rightarrow> queue_state \<Rightarrow> (nat \<times> bytes \<times> queue_state) option" where
  "fill_datagram cache cumulative buf q =
     Option.bind (CheckQueue (cache - cumulative) q) (\<lambda>(r, q1).
       if \<not> cr_success r then Some (cumulative, buf, q1)
       else Option.bind (case cr_data r of Some d \<Rightarrow> poke buf cumulative d | None \<Rightarrow> Some buf) (\<lambda>buf1.
         if cache - (cumulative + cr_length r) \<le> CheckNextQueueSize q1
         then Some (cumulative + cr_length r, buf1, q1)
         else fill_datagram cache (cumulative + cr_length r) buf1 q1))"

definition send_formed :: "u32 \<Rightarrow> s16 \<Rightarrow> nat \<Rightarrow> sender \<Rightarrow> sender option" where
  "send_formed tick opcode cumulative s =
     (if \<not> (m_UDPConnection s \<and> 0 < cumulative) then Some s
      else do {
        payload \<leftarrow> peek (m_OpcodeFormingBuffer s) 0 cumulative;
        d \<leftarrow> udp_SendOpcode opcode (ucast (snd_GameID s)) payload (m_PacketSequenceNum s);
        (p, rq) \<leftarrow> Add tick payload (snd_GameID s) (m_RSendQueue s);
        first \<leftarrow> peek (m_OpcodeFormingBuffer s) 0 4;
        let entry = \<lparr>rs_data = Some p, rs_length = cumulative, rs_packet_num = ucast (m_PacketSequenceNum s),
                     rs_message = le_word first\<rparr>;
        let next = m_ResendIndex s + 1;
        Some (s\<lparr>wire := wire s @ [d], m_RSendQueue := rq,
                m_ResendQueue := (m_ResendQueue s)[m_ResendIndex s := entry],
                m_PacketSequenceNum := m_PacketSequenceNum s + 1,
                m_ResendIndex := (if RESEND_ELEMENTS \<le> next then 0 else next)\<rparr>)
      })"

definition SendPacketCache :: "u32 \<Rightarrow> sender \<Rightarrow> sender option" where
  "SendPacketCache tick s =
     (if 0 < m_PacketSplitRemaining s then do {
        (cumulative, s1) \<leftarrow> continue_split s;
        send_formed tick PACKET_C_SEQUENCE cumulative s1
      }
      else if m_PeriodicCacheSize s < CheckNextQueueSize (m_UDPQueue s) then do {
        (cumulative, s1) \<leftarrow> start_split s;
        send_formed tick PACKET_SEQUENCE cumulative s1
      }
      else do {
        (cumulative, buf, q) \<leftarrow> fill_datagram (m_PeriodicCacheSize s) 0 (m_OpcodeFormingBuffer s) (m_UDPQueue s);
        send_formed tick PACKET_SEQUENCE cumulative (s\<lparr>m_OpcodeFormingBuffer := buf, m_UDPQueue := q\<rparr>)
      })"

section \<open>Answering a request for missed datagrams\<close>

text \<open>
  Every requested number is answered once: from the ring, when the entry is there and the first four bytes
  still match, or with an empty datagram.
\<close>

definition resend_blank :: "u32 \<Rightarrow> sender \<Rightarrow> sender option" where
  "resend_blank packet_num s = do {
     d \<leftarrow> udp_SendOpcode PACKET_SEQUENCE (ucast (snd_GameID s)) [] (ucast packet_num);
     Some (s\<lparr>wire := wire s @ [d]\<rparr>)
   }"

definition resend_one :: "u32 \<Rightarrow> sender \<Rightarrow> sender option" where
  "resend_one packet_num s =
     (case first_index (\<lambda>e. rs_packet_num e = packet_num) (m_ResendQueue s) of
        None \<Rightarrow> resend_blank packet_num s
      | Some i \<Rightarrow>
          let e = m_ResendQueue s ! i
          in case rs_data e of None \<Rightarrow> resend_blank packet_num s
             | Some p \<Rightarrow> do {
                 first \<leftarrow> peek (m_Buffer (snd (m_RSendQueue s))) p 4;
                 if rs_message e = le_word first
                 then do {
                   (data, rq) \<leftarrow> RetreiveMessage (rs_length e) (Some p) (m_RSendQueue s);
                   payload \<leftarrow> data;
                   d \<leftarrow> udp_SendOpcode PACKET_SEQUENCE (ucast (snd_GameID s)) payload (ucast packet_num);
                   Some (s\<lparr>m_RSendQueue := rq, wire := wire s @ [d]\<rparr>)
                 }
                 else resend_blank packet_num s
               })"

primrec resend_all :: "u32 list \<Rightarrow> sender \<Rightarrow> sender option" where
  "resend_all [] s = Some s"
| "resend_all (n # ns) s = Option.bind (resend_one n s) (resend_all ns)"

text \<open>The numbers the loop runs over: none when the end of the range wraps round.\<close>

definition resend_range :: "u32 \<Rightarrow> u32 \<Rightarrow> u32 list" where
  "resend_range start count = map (\<lambda>i. start + of_nat i) [0..<unat (start + count) - unat start]"

definition resend_request :: "bytes \<Rightarrow> s16 \<Rightarrow> (u32 \<times> u32) option" where
  "resend_request data len = do {
     a \<leftarrow> peek data 0 4;
     b \<leftarrow> peek data 4 4;
     c \<leftarrow> (if 16 \<le>s len \<and> le_word b = (0 :: u32) then peek data 8 4 else Some b);
     let count = (le_word c :: u32);
     Some (le_word a, if count < 1 then 1 else if of_nat RESEND_ELEMENTS < count then of_nat RESEND_ELEMENTS else count)
   }"

definition ReSendOpcodes :: "bytes \<Rightarrow> s16 \<Rightarrow> sender \<Rightarrow> sender option" where
  "ReSendOpcodes data len s =
     (if len <s 8 then Some s
      else do {
        (start, count) \<leftarrow> resend_request data len;
        if m_UDPConnection s then resend_all (resend_range start count) s else Some s
      })"

end
