(* ===== verification/SendProps.thy ===== *)
theory SendProps
  imports ReliableSend
begin

text \<open>
  What the server puts on the wire. \<open>next_datagram\<close> is the abstract sender: it knows the rest of an opcode
  that is being split and the queued opcodes, and says what the next datagram carries; a tick of
  \<^verbatim>\<open>Player::SendPacketCache\<close> with its buffers, rings and indices implements it.
\<close>

section \<open>The queue a sender reads\<close>

lemma ucast_sequence: "ucast (of_nat n :: clong) = (of_nat n :: s32)"
  by (simp add: unsigned_of_nat word_of_nat_eq_iff)

lemma CheckQueue_next:
  assumes "queue_inv st" and "queue_abs st = (b, pid) # xs" and "length b \<le> B"
  shows "\<exists>st'. CheckQueue B st =
      Some (\<lparr>cr_success = True, cr_length = length b, cr_player_id = pid, cr_data = Some b\<rparr>, st') \<and>
    queue_inv st' \<and> queue_abs st' = xs"
proof -
  obtain q cb where st: "st = (q, cb)" by (cases st)
  obtain W0 E0 where h: "queue_holds W0 E0 ((b, pid) # xs) q cb"
    using assms queue_abs_holds st by (auto simp: queue_inv_def)
  show ?thesis using CheckQueue_holds [OF h assms(3)] st queue_abs_holds by (auto simp: queue_inv_def) blast
qed

lemma queue_empty_indices:
  assumes "queue_inv st" and "queue_abs st = []"
  shows "m_ReadIndex (fst st) = m_WriteIndex (fst st)"
proof -
  obtain W0 E0 where "queue_holds W0 E0 [] (fst st) (snd st)"
    using assms queue_abs_holds by (fastforce simp: queue_inv_def)
  then show ?thesis by (simp add: queue_holds_def)
qed

lemma CheckQueue_empty:
  assumes "queue_inv st" and "queue_abs st = []"
  shows "CheckQueue B st = Some (\<lparr>cr_success = False, cr_length = 0, cr_player_id = 0, cr_data = None\<rparr>, st)"
  using queue_empty_indices [OF assms] by (cases st) (simp add: CheckQueue_def Let_def)

lemma CheckNextQueueSize_next:
  assumes "queue_inv st"
  shows "CheckNextQueueSize st = (case queue_abs st of [] \<Rightarrow> 0 | x # xs \<Rightarrow> length (fst x))"
proof (cases "queue_abs st")
  case Nil
  then show ?thesis using queue_empty_indices [OF assms] by (cases st) (simp add: CheckNextQueueSize_def)
next
  case (Cons x xs)
  obtain q cb where st: "st = (q, cb)" by (cases st)
  obtain W0 E0 where h: "queue_holds W0 E0 (x # xs) q cb"
    using assms Cons queue_abs_holds st by (auto simp: queue_inv_def)
  have r: "m_ReadIndex q < m_QueueIndexSize q" "Suc (length xs) < m_QueueIndexSize q"
    "m_WriteIndex q = (m_ReadIndex q + Suc (length xs)) mod m_QueueIndexSize q"
    "m_Queue q ! m_ReadIndex q = Some (E0 mod m_MessageSlots cb)"
    "length_of (m_EntryBuffer cb ! (E0 mod m_MessageSlots cb)) = length (fst x)"
    using h by (auto simp: queue_holds_def entry_holds_def)
  have "(m_ReadIndex q + 0) mod m_QueueIndexSize q \<noteq> (m_ReadIndex q + Suc (length xs)) mod m_QueueIndexSize q"
    using r(2) by (intro mod_shift_neq) auto
  then have "m_ReadIndex q \<noteq> m_WriteIndex q" using r(1,3) by simp
  then show ?thesis using r st Cons by (simp add: CheckNextQueueSize_def)
qed

text \<open>A queue that is only written to, like the one for datagrams already sent, takes any message.\<close>

lemma Add_defined:
  assumes "cb_wf cb" and "length b \<le> m_Size cb"
  shows "\<exists>p q' cb'. Add tick b pid (q, cb) = Some (p, q', cb') \<and> cb_wf cb' \<and> m_Size cb' = m_Size cb"
proof -
  obtain e cb1 where g: "GetNextEntry tick cb = (e, cb1)" by (cases "GetNextEntry tick cb")
  note wf1 = GetNextEntry_wf [OF assms(1) g]
  have s1: "m_Size cb1 = m_Size cb" using wf1 by (simp add: m_Size_def)
  then obtain cb2 where w: "cb_Write b cb1 = Some (m_WritePtr cb1, cb2)"
    using cb_Write_defined [of cb1 b] wf1 assms(2) by auto
  have "cb_wf cb2" using cb_Write_wf [OF _ _ w] wf1 assms(2) s1 by simp
  moreover have "m_Size cb2 = m_Size cb" using cb_Write_frame [OF w] s1 by simp
  ultimately show ?thesis using g w
    by (auto simp: Add_def Let_def cb_wf_def m_Size_def m_MessageSlots_def)
qed

section \<open>The abstract sender\<close>

text \<open>
  The first opcode goes into the datagram when it fits, each further one when it leaves at least one byte
  free.
\<close>

fun fill_spec :: "nat \<Rightarrow> bytes list \<Rightarrow> bytes \<times> bytes list" where
  "fill_spec space [] = ([], [])"
| "fill_spec space [m] = (m, [])"
| "fill_spec space (m # m2 # ms) =
     (if space - length m \<le> length m2 then (m, m2 # ms)
      else let (p, rest) = fill_spec (space - length m) (m2 # ms) in (m @ p, rest))"

type_synonym outgoing = "bytes \<times> bytes list"

definition next_datagram :: "nat \<Rightarrow> outgoing \<Rightarrow> s16 \<times> bytes \<times> outgoing" where
  "next_datagram cache st =
     (let (rest, msgs) = st
      in if rest \<noteq> [] then (PACKET_C_SEQUENCE, take cache rest, drop cache rest, msgs)
         else (case msgs of
                 [] \<Rightarrow> (PACKET_SEQUENCE, [], [], [])
               | m # ms \<Rightarrow>
                   if cache < length m then (PACKET_SEQUENCE, take cache m, drop cache m, ms)
                   else let (p, ms') = fill_spec cache msgs in (PACKET_SEQUENCE, p, [], ms')))"

lemma fill_spec_bytes: "fill_spec space ms = (p, rest) \<Longrightarrow> concat ms = p @ concat rest"
  by (induction space ms arbitrary: p rule: fill_spec.induct) (auto split: if_splits prod.splits)

lemma fill_spec_length:
  "fill_spec space (m # ms) = (p, rest) \<Longrightarrow> length m \<le> space \<Longrightarrow> length p \<le> space"
proof (induction space "m # ms" arbitrary: m ms p rule: fill_spec.induct)
  case (3 space m m2 ms)
  show ?case
  proof (cases "space - length m \<le> length m2")
    case False
    then obtain p' where p': "fill_spec (space - length m) (m2 # ms) = (p', rest)" "p = m @ p'"
      using 3(2) by (auto split: prod.splits)
    have "length p' \<le> space - length m" using 3(1) [OF False p'(1)] False by simp
    then show ?thesis using p'(2) 3(3) by simp
  qed (use 3 in auto)
qed auto

lemma fill_spec_set: "fill_spec space ms = (p, rest) \<Longrightarrow> set rest \<subseteq> set ms"
  by (induction space ms arbitrary: p rule: fill_spec.induct) (auto split: if_splits prod.splits)

lemma next_datagram_length:
  assumes "next_datagram cache st = (opcode, payload, st')"
  shows "length payload \<le> cache"
  using assms fill_spec_length [of cache] by (force simp: next_datagram_def split: if_splits prod.splits list.splits)

section \<open>Filling a datagram\<close>

lemma fill_datagram_empty:
  assumes "queue_inv q" and "queue_abs q = []"
  shows "fill_datagram cache cum buf q = Some (cum, buf, q)"
  by (subst fill_datagram.simps) (simp add: CheckQueue_empty [OF assms])

lemma poke_extend:
  assumes "cum + length m \<le> length buf"
  shows "\<exists>buf'. poke buf cum m = Some buf' \<and> length buf' = length buf \<and> take (cum + length m) buf' = take cum buf @ m"
proof -
  have "take (cum + length m) (take cum buf @ m @ drop (cum + length m) buf) = take cum buf @ m"
    using assms by simp
  then show ?thesis using assms by (simp add: poke_def)
qed

lemma fill_datagram_spec:
  assumes "queue_inv q" and "map fst (queue_abs q) = m # ms" and "length m \<le> cache - cum" and "cum \<le> cache"
    and "cache \<le> length buf" and "fill_spec (cache - cum) (m # ms) = (p, rest)"
  shows "\<exists>buf' q'. fill_datagram cache cum buf q = Some (cum + length p, buf', q') \<and> length buf' = length buf \<and>
    take (cum + length p) buf' = take cum buf @ p \<and> queue_inv q' \<and> map fst (queue_abs q') = rest"
  using assms
proof (induction ms arbitrary: m cum buf q p)
  case (Cons m2 ms)
  have room_Cons: "cum + length m \<le> length buf" using Cons.prems(3-5) by linarith
  obtain pid xs where xs: "queue_abs q = (m, pid) # xs" "map fst xs = m2 # ms"
    using Cons.prems(2) by (cases "queue_abs q") auto
  obtain q1 where q1: "CheckQueue (cache - cum) q =
      Some (\<lparr>cr_success = True, cr_length = length m, cr_player_id = pid, cr_data = Some m\<rparr>, q1)"
    "queue_inv q1" "queue_abs q1 = xs"
    using CheckQueue_next [OF Cons.prems(1) xs(1) Cons.prems(3)] by blast
  obtain buf1 where buf1: "poke buf cum m = Some buf1" "length buf1 = length buf"
    "take (cum + length m) buf1 = take cum buf @ m"
    using poke_extend [OF room_Cons] by blast
  have "CheckNextQueueSize q1 = length m2"
    using CheckNextQueueSize_next [OF q1(2)] q1(3) xs(2) by (auto split: list.splits)
  then have step: "fill_datagram cache cum buf q =
      (if cache - (cum + length m) \<le> length m2 then Some (cum + length m, buf1, q1)
       else fill_datagram cache (cum + length m) buf1 q1)"
    by (subst fill_datagram.simps) (simp add: q1(1) buf1(1))
  have msgs1: "map fst (queue_abs q1) = m2 # ms" using q1(3) xs(2) by simp
  show ?case
  proof (cases "cache - (cum + length m) \<le> length m2")
    case True
    then have "p = m" "rest = m2 # ms" using Cons.prems(6) by auto
    then show ?thesis using step True buf1 q1(2) msgs1 by auto
  next
    case False
    then obtain p' where p': "fill_spec (cache - (cum + length m)) (m2 # ms) = (p', rest)" "p = m @ p'"
      using Cons.prems(6) by (auto split: prod.splits)
    have "\<exists>buf' q'. fill_datagram cache (cum + length m) buf1 q1 = Some (cum + length m + length p', buf', q') \<and>
        length buf' = length buf1 \<and> take (cum + length m + length p') buf' = take (cum + length m) buf1 @ p' \<and>
        queue_inv q' \<and> map fst (queue_abs q') = rest"
      using False Cons.prems(3-5) p'(1) buf1(2)
      by (intro Cons.IH [OF q1(2) msgs1]) auto
    then show ?thesis using step False p'(2) buf1(2,3) by (auto simp: add.assoc)
  qed
next
  case Nil
  have room_Nil: "cum + length m \<le> length buf" using Nil.prems(3-5) by linarith
  obtain pid where xs: "queue_abs q = [(m, pid)]" using Nil.prems(2) by (cases "queue_abs q") auto
  obtain q1 where q1: "CheckQueue (cache - cum) q =
      Some (\<lparr>cr_success = True, cr_length = length m, cr_player_id = pid, cr_data = Some m\<rparr>, q1)"
    "queue_inv q1" "queue_abs q1 = []"
    using CheckQueue_next [OF Nil.prems(1) xs Nil.prems(3)] by blast
  obtain buf1 where buf1: "poke buf cum m = Some buf1" "length buf1 = length buf"
    "take (cum + length m) buf1 = take cum buf @ m"
    using poke_extend [OF room_Nil] by blast
  have "CheckNextQueueSize q1 = 0" using CheckNextQueueSize_next [OF q1(2)] q1(3) by simp
  then have "fill_datagram cache cum buf q = Some (cum + length m, buf1, q1)"
    by (subst fill_datagram.simps) (simp add: q1(1) buf1(1) fill_datagram_empty [OF q1(2,3)])
  then show ?case using Nil.prems(6) buf1 q1 by auto
qed

section \<open>A tick implements the abstract sender\<close>

definition sender_ok :: "sender \<Rightarrow> bool" where
  "sender_ok s \<longleftrightarrow> queue_inv (m_UDPQueue s) \<and>
     (\<forall>m \<in> set (map fst (queue_abs (m_UDPQueue s))). m \<noteq> [] \<and> length m \<le> 8192) \<and>
     length (m_OpcodeFormingBuffer s) = 8192 \<and> length (m_PacketSplitBuffer s) = MAXIMUM_PACKET_CACHE \<and>
     m_PacketSplitRemaining s \<le> MAXIMUM_PACKET_CACHE \<and>
     (m_PeriodicCacheSize s = PERIODIC_CACHE_SEND_SIZE \<or> m_PeriodicCacheSize s = PERIODIC_CACHE_SEND_SIZE_OPT) \<and>
     cb_wf (snd (m_RSendQueue s)) \<and> PERIODIC_CACHE_SEND_SIZE_OPT \<le> m_Size (snd (m_RSendQueue s)) \<and> m_UDPConnection s"

definition sender_abs :: "sender \<Rightarrow> outgoing" where
  "sender_abs s = (take (m_PacketSplitRemaining s) (m_PacketSplitBuffer s), map fst (queue_abs (m_UDPQueue s)))"

definition formed :: "s16 \<Rightarrow> bytes \<Rightarrow> sender \<Rightarrow> Datagram" where
  "formed opcode payload s =
     \<lparr>udp_size = of_nat (length payload + UDP_HEADER_SIZE), udp_opcode = opcode,
      udp_player_id = ucast (snd_GameID s), packet_sequence = ucast (m_PacketSequenceNum s), udp_payload = payload\<rparr>"

text \<open>What a tick does to the rest of the sender when it sends \<open>ds\<close>.\<close>

definition sent :: "Datagram list \<Rightarrow> sender \<Rightarrow> sender \<Rightarrow> bool" where
  "sent ds s s' \<longleftrightarrow> sender_ok s' \<and> wire s' = wire s @ ds \<and>
     m_PacketSequenceNum s' = m_PacketSequenceNum s + of_nat (length ds) \<and>
     m_PeriodicCacheSize s' = m_PeriodicCacheSize s \<and> snd_GameID s' = snd_GameID s"

lemma sender_msgs: "sender_ok s \<Longrightarrow> m \<in> set (snd (sender_abs s)) \<Longrightarrow> m \<noteq> [] \<and> length m \<le> 8192"
  unfolding sender_ok_def sender_abs_def snd_conv by blast

lemma cache_bounds:
  assumes "sender_ok s"
  shows "0 < m_PeriodicCacheSize s" "m_PeriodicCacheSize s \<le> 1400" "m_PeriodicCacheSize s \<le> m_Size (snd (m_RSendQueue s))"
  using assms by (auto simp: sender_ok_def PERIODIC_CACHE_SEND_SIZE_def PERIODIC_CACHE_SEND_SIZE_OPT_def)

lemma send_formed_ok:
  assumes ok: "sender_ok s" and cum: "0 < cum" "cum \<le> m_PeriodicCacheSize s"
  shows "\<exists>s'. send_formed tick opcode cum s = Some s' \<and>
    sent [formed opcode (take cum (m_OpcodeFormingBuffer s)) s] s s' \<and> sender_abs s' = sender_abs s"
proof -
  let ?payload = "take cum (m_OpcodeFormingBuffer s)"
  note b = cache_bounds [OF ok]
  have len: "length (m_OpcodeFormingBuffer s) = 8192" "length ?payload = cum"
    using ok cum b(2) by (auto simp: sender_ok_def)
  have pk: "peek (m_OpcodeFormingBuffer s) 0 cum = Some ?payload" "peek (m_OpcodeFormingBuffer s) 0 4 \<noteq> None"
    using len(1) cum b(2) by (simp_all add: peek_def)
  then obtain first where first: "peek (m_OpcodeFormingBuffer s) 0 4 = Some first" by auto
  have d: "udp_SendOpcode opcode (ucast (snd_GameID s)) ?payload (m_PacketSequenceNum s) = Some (formed opcode ?payload s)"
    using cum b(2) len(2) by (simp add: udp_SendOpcode_def formed_def UDP_BUFFER_SEND_SIZE_def UDP_HEADER_SIZE_def)
  obtain q cb where q: "m_RSendQueue s = (q, cb)" by (cases "m_RSendQueue s")
  obtain p q' cb' where a: "Add tick ?payload (snd_GameID s) (q, cb) = Some (p, q', cb')" "cb_wf cb'" "m_Size cb' = m_Size cb"
    using Add_defined [of cb ?payload tick "snd_GameID s" q] ok cum b(3) len(2) q by (auto simp: sender_ok_def)
  have r: "PERIODIC_CACHE_SEND_SIZE_OPT \<le> m_Size cb" using ok q by (simp add: sender_ok_def)
  show ?thesis using ok cum(1) pk(1) first d a q r
    by (simp add: send_formed_def sender_ok_def sent_def sender_abs_def Let_def)
qed

lemma poke_front:
  assumes "length xs \<le> length buf"
  shows "poke buf 0 xs = Some (xs @ drop (length xs) buf)"
  using assms by (simp add: poke_def)

lemma take_drop_split:
  assumes "n \<le> length buf" and "c \<le> n"
  shows "take (n - c) (drop c buf) = drop c (take n buf)"
  using assms by (simp add: drop_take)

lemma continue_split_ok:
  assumes ok: "sender_ok s" and r: "0 < m_PacketSplitRemaining s" and abs: "sender_abs s = (rest, msgs)"
  shows "\<exists>s'. continue_split s = Some (length (take (m_PeriodicCacheSize s) rest), s') \<and> sent [] s s' \<and>
    take (length (take (m_PeriodicCacheSize s) rest)) (m_OpcodeFormingBuffer s') = take (m_PeriodicCacheSize s) rest \<and>
    sender_abs s' = (drop (m_PeriodicCacheSize s) rest, msgs) \<and>
    formed opcode payload s' = formed opcode payload s"
proof -
  let ?n = "m_PacketSplitRemaining s" and ?c = "m_PeriodicCacheSize s" and ?buf = "m_PacketSplitBuffer s"
  have b: "?n \<le> length ?buf" "length (m_OpcodeFormingBuffer s) = 8192" "?c \<le> 1400"
    using ok cache_bounds [OF ok] by (auto simp: sender_ok_def)
  have rest: "rest = take ?n ?buf" "length rest = ?n" and msgs: "msgs = map fst (queue_abs (m_UDPQueue s))"
    using abs b by (auto simp: sender_abs_def)
  define k where "k = length (take ?c rest)"
  have k: "k = min ?c ?n" "take ?c rest = take k ?buf" "k \<le> 8192" "k \<le> length ?buf" "?c \<le> length ?buf \<or> ?n < ?c"
    using rest b by (auto simp: k_def min_def)
  have chunk: "peek ?buf 0 k = Some (take k ?buf)" using k(4) by (simp add: peek_def)
  have form: "poke (m_OpcodeFormingBuffer s) 0 (take k ?buf) = Some (take k ?buf @ drop k (m_OpcodeFormingBuffer s))"
    using poke_front [of "take k ?buf" "m_OpcodeFormingBuffer s"] k b by simp
  show ?thesis
  proof (cases "?n \<le> ?c")
    case True
    then have "k = ?n" using k(1) by simp
    then show ?thesis using True chunk form ok b rest msgs k(2) r
      by (auto simp: continue_split_def Let_def sent_def sender_ok_def sender_abs_def formed_def k_def [symmetric])
  next
    case False
    let ?moved = "take (?n - ?c) (drop ?c ?buf)"
    have "k = ?c" using False k(1) by simp
    moreover have "peek ?buf ?c (?n - ?c) = Some ?moved" using False b by (simp add: peek_def)
    moreover have "poke ?buf 0 ?moved = Some (?moved @ drop (?n - ?c) ?buf)"
      using poke_front [of ?moved ?buf] False b by simp
    moreover have "take (?n - ?c) (?moved @ drop (?n - ?c) ?buf) = drop ?c rest"
      using False b rest(1) by (simp add: drop_take)
    ultimately show ?thesis using False chunk form ok b rest(2) msgs k(2)
      by (auto simp: continue_split_def Let_def sent_def sender_ok_def sender_abs_def formed_def k_def [symmetric])
  qed
qed

lemma start_split_ok:
  assumes ok: "sender_ok s" and abs: "sender_abs s = ([], m # ms)" and big: "m_PeriodicCacheSize s < length m"
  shows "\<exists>s'. start_split s = Some (m_PeriodicCacheSize s, s') \<and> sent [] s s' \<and>
    take (m_PeriodicCacheSize s) (m_OpcodeFormingBuffer s') = take (m_PeriodicCacheSize s) m \<and>
    sender_abs s' = (drop (m_PeriodicCacheSize s) m, ms) \<and> formed opcode payload s' = formed opcode payload s"
proof -
  let ?c = "m_PeriodicCacheSize s" and ?buf = "m_PacketSplitBuffer s"
  have msgs: "map fst (queue_abs (m_UDPQueue s)) = m # ms" using abs by (simp add: sender_abs_def)
  then obtain pid xs where xs: "queue_abs (m_UDPQueue s) = (m, pid) # xs" "map fst xs = ms"
    by (cases "queue_abs (m_UDPQueue s)") auto
  have q: "queue_inv (m_UDPQueue s)" and m: "length m \<le> 8192" and b: "length ?buf = 10240"
      "length (m_OpcodeFormingBuffer s) = 8192" "?c \<le> 1400"
    using ok xs(1) cache_bounds [OF ok] by (auto simp: sender_ok_def MAXIMUM_PACKET_CACHE_def)
  obtain q1 where q1: "CheckQueue MAXIMUM_PACKET_CACHE (m_UDPQueue s) =
      Some (\<lparr>cr_success = True, cr_length = length m, cr_player_id = pid, cr_data = Some m\<rparr>, q1)"
    "queue_inv q1" "queue_abs q1 = xs"
    using CheckQueue_next [OF q xs(1), of MAXIMUM_PACKET_CACHE] m by (auto simp: MAXIMUM_PACKET_CACHE_def)
  define split1 where "split1 = m @ drop (length m) ?buf"
  have s1: "poke ?buf 0 m = Some split1" "length split1 = 10240"
    using poke_front [of m ?buf] m b by (simp_all add: split1_def)
  have chunk: "peek split1 0 ?c = Some (take ?c m)" using big s1(2) m by (simp add: peek_def split1_def)
  have form: "poke (m_OpcodeFormingBuffer s) 0 (take ?c m) = Some (take ?c m @ drop ?c (m_OpcodeFormingBuffer s))"
    using poke_front [of "take ?c m" "m_OpcodeFormingBuffer s"] b big by simp
  have moved: "peek split1 ?c (length m - ?c) = Some (drop ?c m)" using big s1(2) m by (simp add: peek_def split1_def)
  have s2: "poke split1 0 (drop ?c m) = Some (drop ?c m @ drop (length m - ?c) split1)"
    using poke_front [of "drop ?c m" split1] s1(2) m by simp
  have "\<forall>x \<in> set xs. fst x \<noteq> [] \<and> length (fst x) \<le> 8192" and "length m - ?c \<le> 10240"
    using ok xs(1) m unfolding sender_ok_def by auto
  then show ?thesis using ok q1 s1 chunk form moved s2 b m xs(2) big
    by (simp add: start_split_def Let_def sent_def sender_ok_def sender_abs_def formed_def MAXIMUM_PACKET_CACHE_def)
qed

lemma fill_ok:
  assumes ok: "sender_ok s" and abs: "sender_abs s = ([], m # ms)" and small: "length m \<le> m_PeriodicCacheSize s"
    and spec: "fill_spec (m_PeriodicCacheSize s) (m # ms) = (p, rest)"
  shows "\<exists>buf q. fill_datagram (m_PeriodicCacheSize s) 0 (m_OpcodeFormingBuffer s) (m_UDPQueue s) = Some (length p, buf, q) \<and>
    take (length p) buf = p \<and> sent [] s (s\<lparr>m_OpcodeFormingBuffer := buf, m_UDPQueue := q\<rparr>) \<and>
    sender_abs (s\<lparr>m_OpcodeFormingBuffer := buf, m_UDPQueue := q\<rparr>) = ([], rest)"
proof -
  have msgs: "map fst (queue_abs (m_UDPQueue s)) = m # ms" and q: "queue_inv (m_UDPQueue s)"
    and rest0: "take (m_PacketSplitRemaining s) (m_PacketSplitBuffer s) = []"
    using ok abs by (auto simp: sender_abs_def sender_ok_def)
  have c: "m_PeriodicCacheSize s \<le> length (m_OpcodeFormingBuffer s)"
    using ok cache_bounds(2) [OF ok] by (simp add: sender_ok_def)
  obtain buf q' where r: "fill_datagram (m_PeriodicCacheSize s) 0 (m_OpcodeFormingBuffer s) (m_UDPQueue s) = Some (length p, buf, q')"
    "length buf = length (m_OpcodeFormingBuffer s)" "take (length p) buf = p" "queue_inv q'" "map fst (queue_abs q') = rest"
    using fill_datagram_spec [OF q msgs _ _ c, of 0 p rest] small spec by auto
  have "set rest \<subseteq> set (m # ms)" using spec by (rule fill_spec_set)
  moreover have "\<forall>m' \<in> set (m # ms). m' \<noteq> [] \<and> length m' \<le> 8192" using ok msgs unfolding sender_ok_def by simp
  ultimately have "\<forall>m' \<in> set rest. m' \<noteq> [] \<and> length m' \<le> 8192" by blast
  then have "\<forall>x \<in> set (queue_abs q'). fst x \<noteq> [] \<and> length (fst x) \<le> 8192" unfolding r(5) [symmetric] by simp
  then show ?thesis using r rest0 ok by (simp add: sent_def sender_ok_def sender_abs_def)
qed

lemma sent_trans: "sent [] s s1 \<Longrightarrow> sent ds s1 s2 \<Longrightarrow> sent ds s s2"
  by (simp add: sent_def)

lemma formed_sent: "sent [] s s1 \<Longrightarrow> formed opcode payload s1 = formed opcode payload s"
  by (simp add: sent_def formed_def)

lemma send_after:
  assumes "sent [] s s1" and "0 < length p" and "length p \<le> m_PeriodicCacheSize s" and "take (length p) (m_OpcodeFormingBuffer s1) = p"
  shows "\<exists>s'. send_formed tick opcode (length p) s1 = Some s' \<and> sender_abs s' = sender_abs s1 \<and> sent [formed opcode p s] s s'"
  using send_formed_ok [of s1 "length p" tick opcode] assms sent_trans [OF assms(1)] formed_sent [OF assms(1)]
  by (fastforce simp: sent_def)

lemma continue_send:
  assumes ok: "sender_ok s" and r: "rest \<noteq> []" and abs: "sender_abs s = (rest, msgs)"
  shows "\<exists>s'. SendPacketCache tick s = Some s' \<and> sender_abs s' = (drop (m_PeriodicCacheSize s) rest, msgs) \<and>
    sent [formed PACKET_C_SEQUENCE (take (m_PeriodicCacheSize s) rest) s] s s'"
proof -
  have n: "0 < m_PacketSplitRemaining s" using r abs by (auto simp: sender_abs_def)
  let ?p = "take (m_PeriodicCacheSize s) rest"
  obtain s1 where s1: "continue_split s = Some (length ?p, s1)" "sent [] s s1"
    "take (length ?p) (m_OpcodeFormingBuffer s1) = ?p" "sender_abs s1 = (drop (m_PeriodicCacheSize s) rest, msgs)"
    using continue_split_ok [OF ok n abs] by blast
  have "0 < length ?p" "length ?p \<le> m_PeriodicCacheSize s" using r cache_bounds(1) [OF ok] by auto
  from send_after [OF s1(2) this s1(3), of tick PACKET_C_SEQUENCE] s1(1,4) n show ?thesis
    by (auto simp: SendPacketCache_def)
qed

lemma start_send:
  assumes ok: "sender_ok s" and abs: "sender_abs s = ([], m # ms)" and big: "m_PeriodicCacheSize s < length m"
  shows "\<exists>s'. SendPacketCache tick s = Some s' \<and> sender_abs s' = (drop (m_PeriodicCacheSize s) m, ms) \<and>
    sent [formed PACKET_SEQUENCE (take (m_PeriodicCacheSize s) m) s] s s'"
proof -
  have n: "m_PacketSplitRemaining s = 0" "CheckNextQueueSize (m_UDPQueue s) = length m"
    using abs ok CheckNextQueueSize_next [of "m_UDPQueue s"]
    by (auto simp: sender_abs_def sender_ok_def MAXIMUM_PACKET_CACHE_def split: list.splits)
  let ?p = "take (m_PeriodicCacheSize s) m"
  obtain s1 where s1: "start_split s = Some (length ?p, s1)" "sent [] s s1"
    "take (length ?p) (m_OpcodeFormingBuffer s1) = ?p" "sender_abs s1 = (drop (m_PeriodicCacheSize s) m, ms)"
    using start_split_ok [OF ok abs big] big by auto
  have "0 < length ?p" "length ?p \<le> m_PeriodicCacheSize s" using big cache_bounds(1) [OF ok] by auto
  from send_after [OF s1(2) this s1(3), of tick PACKET_SEQUENCE] s1(1,4) n big show ?thesis
    by (auto simp: SendPacketCache_def)
qed

lemma fill_send:
  assumes ok: "sender_ok s" and abs: "sender_abs s = ([], m # ms)" and small: "length m \<le> m_PeriodicCacheSize s"
    and spec: "fill_spec (m_PeriodicCacheSize s) (m # ms) = (p, rest)"
  shows "\<exists>s'. SendPacketCache tick s = Some s' \<and> sender_abs s' = ([], rest) \<and> sent [formed PACKET_SEQUENCE p s] s s' \<and> p \<noteq> []"
proof -
  have n: "m_PacketSplitRemaining s = 0" "CheckNextQueueSize (m_UDPQueue s) = length m" and m: "m \<noteq> []"
    using abs ok CheckNextQueueSize_next [of "m_UDPQueue s"]
    by (auto simp: sender_abs_def sender_ok_def MAXIMUM_PACKET_CACHE_def split: list.splits)
  obtain buf q where f: "fill_datagram (m_PeriodicCacheSize s) 0 (m_OpcodeFormingBuffer s) (m_UDPQueue s) = Some (length p, buf, q)"
    "take (length p) buf = p" "sent [] s (s\<lparr>m_OpcodeFormingBuffer := buf, m_UDPQueue := q\<rparr>)"
    "sender_abs (s\<lparr>m_OpcodeFormingBuffer := buf, m_UDPQueue := q\<rparr>) = ([], rest)"
    using fill_ok [OF ok abs small spec] by blast
  have p: "p \<noteq> []" using spec m by (cases ms) (auto split: if_splits prod.splits)
  have "0 < length p" "length p \<le> m_PeriodicCacheSize s" using p fill_spec_length [OF spec small] by auto
  from send_after [OF f(3) this, of tick PACKET_SEQUENCE] f n small p show ?thesis
    by (auto simp: SendPacketCache_def)
qed

lemma idle_send:
  assumes ok: "sender_ok s" and abs: "sender_abs s = ([], [])"
  shows "\<exists>s'. SendPacketCache tick s = Some s' \<and> sender_abs s' = ([], []) \<and> sent [] s s'"
proof -
  have q: "queue_inv (m_UDPQueue s)" "queue_abs (m_UDPQueue s) = []" and n: "m_PacketSplitRemaining s = 0"
    using abs ok by (auto simp: sender_abs_def sender_ok_def MAXIMUM_PACKET_CACHE_def)
  then show ?thesis using fill_datagram_empty [OF q] CheckNextQueueSize_next [OF q(1)] ok abs
    by (auto simp: SendPacketCache_def send_formed_def sent_def)
qed

lemma tick_implements:
  assumes "sender_ok s" and "next_datagram (m_PeriodicCacheSize s) (sender_abs s) = (opcode, payload, st')"
  shows "\<exists>s'. SendPacketCache tick s = Some s' \<and> sender_abs s' = st' \<and>
    sent (if payload = [] then [] else [formed opcode payload s]) s s'"
proof -
  obtain rest msgs where abs: "sender_abs s = (rest, msgs)" by (cases "sender_abs s")
  note b = cache_bounds(1) [OF assms(1)] and spec = assms(2) [unfolded abs]
  consider (more) "rest \<noteq> []" | (none) "rest = []" "msgs = []"
    | (big) m ms where "rest = []" "msgs = m # ms" "m_PeriodicCacheSize s < length m"
    | (small) m ms where "rest = []" "msgs = m # ms" "length m \<le> m_PeriodicCacheSize s"
    by (metis list.exhaust not_le)
  then show ?thesis
  proof cases
    case more
    then show ?thesis using continue_send [OF assms(1) _ abs, of tick] spec b by (auto simp: next_datagram_def)
  next
    case none
    then show ?thesis using idle_send [OF assms(1), of tick] abs spec by (auto simp: next_datagram_def)
  next
    case (big m ms)
    then show ?thesis using start_send [OF assms(1) _ big(3), of ms tick] spec abs b by (auto simp: next_datagram_def)
  next
    case (small m ms)
    then show ?thesis using fill_send [OF assms(1) _ small(3), of ms _ _ tick] spec abs
      by (auto simp: next_datagram_def split: prod.splits)
  qed
qed

text \<open>C3: a tick of the sender implements the abstract one. Whatever is queued and however much of a split
  opcode is left, \<^verbatim>\<open>SendPacketCache\<close> puts exactly the datagram on the wire that the abstract sender forms,
  numbered with the next number, or nothing when there is nothing to send, and leaves the rest for the
  ticks to come.\<close>

theorem SendPacketCache_refines:
  assumes "sender_ok s" and "next_datagram (m_PeriodicCacheSize s) (sender_abs s) = (opcode, payload, st')"
  shows "\<exists>s'. SendPacketCache tick s = Some s' \<and> sender_abs s' = st' \<and>
    sent (if payload = [] then [] else [formed opcode payload s]) s s'"
  using assms by (rule tick_implements)

section \<open>Queueing\<close>

lemma poke_fits: "i + length xs \<le> length m \<Longrightarrow> \<exists>m'. poke m i xs = Some m' \<and> length m' = length m"
  by (simp add: poke_def)

lemma write_opcode:
  assumes "length data + 4 \<le> length buf"
  shows "\<exists>b1 b2 b3. poke buf 0 (le_bytes 2 (of_nat (length data + 4) :: s16)) = Some b1 \<and> poke b1 2 (le_bytes 2 opcode) = Some b2 \<and>
    poke b2 4 data = Some b3 \<and> length b3 = length buf \<and> peek b3 0 (length data + 4) = Some (opcode_bytes (opcode, data))"
proof -
  let ?l = "le_bytes 2 (of_nat (length data + 4) :: s16)" and ?o = "le_bytes 2 opcode"
  obtain b1 where b1: "poke buf 0 ?l = Some b1" "length b1 = length buf"
    using poke_fits [of 0 ?l buf] assms by auto
  obtain b2 where b2: "poke b1 2 ?o = Some b2" "length b2 = length buf"
    using poke_fits [of 2 ?o b1] assms b1(2) by auto
  obtain b3 where b3: "poke b2 4 data = Some b3" "length b3 = length buf"
    using poke_fits [of 4 data b2] assms b2(2) by auto
  have "peek b3 0 2 = Some ?l" "peek b3 2 2 = Some ?o" "peek b3 4 (length data) = Some data"
    using peek_poke_disjoint [OF b3(1), of 0 2] peek_poke_disjoint [OF b2(1), of 0 2] peek_poke_same [OF b1(1)]
      peek_poke_disjoint [OF b3(1), of 2 2] peek_poke_same [OF b2(1)] peek_poke_same [OF b3(1)] by simp_all
  then have "peek b3 0 4 = Some (?l @ ?o)" "peek b3 4 (length data) = Some data"
    using peek_appendI [of b3 0 ?l ?o] by (simp_all add: numeral_2_eq_2 [symmetric])
  then have "peek b3 0 (length data + 4) = Some ((?l @ ?o) @ data)"
    using peek_appendI [of b3 0 "?l @ ?o" data] by (simp add: add.commute)
  then show ?thesis using b1(1) b2(1) b3 by (auto simp: opcode_bytes_def)
qed

lemma Add_count: "Add tick b pid st = Some (p, q', cb') \<Longrightarrow> m_EntriesInQueue q' = m_EntriesInQueue (fst st) + 1"
  by (auto simp: Add_def Let_def push_slot_def bind_eq_Some_conv split: prod.splits if_splits)

text \<open>The room that is left in the queue of a sender.\<close>

definition room_for :: "opcode list \<Rightarrow> sender \<Rightarrow> bool" where
  "room_for fs s \<longleftrightarrow> unat (m_EntriesInQueue (fst (m_UDPQueue s))) + length fs \<le> 600 \<and>
     length (queue_abs (m_UDPQueue s)) + length fs \<le> mq_slots (m_UDPQueue s) \<and>
     length (concat (snd (sender_abs s))) + length (concat (map opcode_bytes fs)) \<le> m_Size (snd (m_UDPQueue s)) \<and>
     list_all (\<lambda>f. length (opcode_bytes f) \<le> 8192) fs"

lemma Player_SendOpcode_ok:
  assumes ok: "sender_ok s" and room: "room_for (f # fs) s"
  shows "\<exists>s'. Player_SendOpcode tick (fst f) (snd f) s = Some s' \<and> sender_ok s' \<and> room_for fs s' \<and>
    sender_abs s' = (fst (sender_abs s), snd (sender_abs s) @ [opcode_bytes f]) \<and>
    m_PacketSequenceNum s' = m_PacketSequenceNum s \<and> m_PeriodicCacheSize s' = m_PeriodicCacheSize s \<and> wire s' = wire s \<and>
    m_RSendQueue s' = m_RSendQueue s \<and> m_ResendQueue s' = m_ResendQueue s \<and> m_ResendIndex s' = m_ResendIndex s"
proof -
  have buf: "length (snd f) + 4 \<le> length (m_OpcodeFormingBuffer s)" using ok room by (simp add: sender_ok_def room_for_def)
  obtain b1 b2 b3 where b: "poke (m_OpcodeFormingBuffer s) 0 (le_bytes 2 (of_nat (length (snd f) + 4) :: s16)) = Some b1"
    "poke b1 2 (le_bytes 2 (fst f)) = Some b2" "poke b2 4 (snd f) = Some b3" "length b3 = length (m_OpcodeFormingBuffer s)"
    "peek b3 0 (length (snd f) + 4) = Some (opcode_bytes f)"
    using write_opcode [OF buf, of "fst f"] by auto
  have bytes: "sum_list (map (\<lambda>x. length (fst x)) (queue_abs (m_UDPQueue s))) = length (concat (snd (sender_abs s)))"
    by (simp add: sender_abs_def length_concat comp_def)
  obtain p q cb where a: "Add tick (opcode_bytes f) (snd_GameID s) (m_UDPQueue s) = Some (p, q, cb)"
    "queue_inv (q, cb)" "queue_abs (q, cb) = queue_abs (m_UDPQueue s) @ [(opcode_bytes f, snd_GameID s)]"
    "mq_slots (q, cb) = mq_slots (m_UDPQueue s)" "m_Size cb = m_Size (snd (m_UDPQueue s))"
    using mq.enq_ok [of "m_UDPQueue s" "(opcode_bytes f, snd_GameID s)" tick] ok room bytes
    by (auto simp: mq_enq_def sender_ok_def room_for_def)
  let ?s = "s\<lparr>m_OpcodeFormingBuffer := b3, m_UDPQueue := (q, cb)\<rparr>"
  have n: "unat (m_EntriesInQueue (fst (m_UDPQueue s))) \<le> 599" using room by (simp add: room_for_def)
  then have "\<not> 600 < m_EntriesInQueue (fst (m_UDPQueue s))" by (simp add: word_less_nat_alt)
  then have "Player_SendOpcode tick (fst f) (snd f) s = Some ?s"
    using b a(1) by (simp add: Player_SendOpcode_def)
  moreover have "sender_ok ?s" using ok a b(4) room by (auto simp: sender_ok_def room_for_def)
  moreover have abs: "sender_abs ?s = (fst (sender_abs s), snd (sender_abs s) @ [opcode_bytes f])"
    using a(3) by (simp add: sender_abs_def)
  moreover have "unat (m_EntriesInQueue q) = unat (m_EntriesInQueue (fst (m_UDPQueue s))) + 1"
    unfolding Add_count [OF a(1)] using n by (simp add: unat_word_ariths)
  then have "room_for fs ?s" using room a abs by (simp add: room_for_def)
  ultimately show ?thesis by auto
qed

section \<open>A sender at the beginning of a session\<close>

definition new_sender :: sender where
  "new_sender = \<lparr>m_UDPQueue = (new_MessageQueue 800 True, new_CircularBuffer (replicate 4096 0) 0 64 True),
     m_RSendQueue = (new_MessageQueue 0 False, new_CircularBuffer (replicate 4096 0) 0 64 False),
     m_OpcodeFormingBuffer = replicate 8192 0, m_PacketSplitBuffer = replicate MAXIMUM_PACKET_CACHE 0,
     m_PacketSplitRemaining = 0, m_PeriodicCacheSize = PERIODIC_CACHE_SEND_SIZE, m_PacketSequenceNum = 0, m_ResendIndex = 0,
     m_ResendQueue = replicate RESEND_ELEMENTS null_resend, m_UDPConnection = True, snd_GameID = 0, wire = []\<rparr>"

lemma new_sender_ok: "sender_ok new_sender"
  using queue_inv_new [of "replicate 4096 0" 64 800 True 0 True]
  by (simp add: sender_ok_def new_sender_def new_CircularBuffer_def cb_wf_def m_Size_def m_MessageSlots_def
      PERIODIC_CACHE_SEND_SIZE_OPT_def)

lemma new_sender_queue: "queue_abs (m_UDPQueue new_sender) = []"
  using queue_inv_new(2) [of "replicate 4096 0" 64 800 True 0 True] by (simp add: new_sender_def)

lemma new_sender_abs: "sender_abs new_sender = ([], [])"
  using new_sender_queue by (simp add: sender_abs_def) (simp add: new_sender_def)

lemma new_sender_cache: "m_PeriodicCacheSize new_sender = 512"
  by (simp add: new_sender_def PERIODIC_CACHE_SEND_SIZE_def)

lemma new_sender_room:
  assumes "length fs \<le> 60" and "length (concat (map opcode_bytes fs)) \<le> 4096"
  shows "room_for fs new_sender"
proof -
  have "length (opcode_bytes f) \<le> 8192" if "f \<in> set fs" for f
    using member_le_sum_list [of "length (opcode_bytes f)" "map (length \<circ> opcode_bytes) fs"] that assms(2)
    by (simp add: length_concat comp_def)
  then show ?thesis using assms new_sender_queue
    by (simp add: room_for_def new_sender_abs list_all_iff)
      (simp add: new_sender_def mq_slots_def m_QueueIndexSize_def m_MessageSlots_def m_Size_def new_MessageQueue_def
        new_CircularBuffer_def)
qed

text \<open>One opcode of 604 bytes is queued: the first tick sends 512 bytes of it and the second the rest.\<close>

theorem SendPacketCache_refines_witness:
  "\<exists>s s'. Player_SendOpcode 1 0x1B (replicate 600 7) new_sender = Some s \<and> SendPacketCache 2 s = Some s' \<and>
     sender_abs s' = (drop 512 (opcode_bytes (0x1B, replicate 600 7)), []) \<and>
     sent [formed PACKET_SEQUENCE (take 512 (opcode_bytes (0x1B, replicate 600 7))) s] s s'"
proof -
  let ?f = "(0x1B, replicate 600 7) :: opcode"
  have "room_for [?f] new_sender" by (intro new_sender_room) simp_all
  from Player_SendOpcode_ok [OF new_sender_ok this, of 1] obtain s where
    s: "Player_SendOpcode 1 0x1B (replicate 600 7) new_sender = Some s" "sender_ok s" "sender_abs s = ([], [opcode_bytes ?f])"
      "m_PeriodicCacheSize s = 512"
    by (auto simp: new_sender_abs new_sender_cache)
  have "next_datagram (m_PeriodicCacheSize s) (sender_abs s) =
      (PACKET_SEQUENCE, take 512 (opcode_bytes ?f), drop 512 (opcode_bytes ?f), [])"
    using s(3,4) by (simp add: next_datagram_def)
  from SendPacketCache_refines [OF s(2) this, of 2] s(1) show ?thesis by auto
qed

end
