(* ===== verification/ResendProps.thy ===== *)
theory ResendProps
  imports SendProps
begin

text \<open>
  The ring of datagrams that were sent: the answer to a request for a datagram that got lost carries what the
  datagram carried, as long as the ring still holds it, and every number that is asked for is answered.
\<close>

section \<open>What a tick writes to the ring\<close>

lemma Add_virtual:
  assumes wf: "cb_wf cb" and len: "length b \<le> m_Size cb" and W: "at_vpos W cb" and a: "Add tick b pid (q, cb) = Some (p, q', cb')"
  shows "p = m_WritePtr cb" "at_vpos (W + length b) cb'" "cb_wf cb'" "m_Size cb' = m_Size cb"
    and "k < length b \<Longrightarrow> vbyte cb' (W + k) = b ! k"
    and "W + length b \<le> t + m_Size cb \<Longrightarrow> t < W \<Longrightarrow> vbyte cb' t = vbyte cb t"
proof -
  obtain e cb1 where g: "GetNextEntry tick cb = (e, cb1)" by (cases "GetNextEntry tick cb")
  note wf1 = GetNextEntry_wf [OF wf g]
  have s1: "m_Size cb1 = m_Size cb" using wf1 by (simp add: m_Size_def)
  obtain s cb2 where w: "cb_Write b cb1 = Some (s, cb2)" "p = s" "m_Buffer cb' = m_Buffer cb2" "m_WritePtr cb' = m_WritePtr cb2"
    "m_EntryIndex cb' = m_EntryIndex cb2" "length (m_EntryBuffer cb') = length (m_EntryBuffer cb2)"
    using a g by (auto simp: Add_def Let_def bind_eq_Some_conv)
  have len1: "length b \<le> m_Size cb1" and W1: "at_vpos W cb1" using len W wf1 s1 by (simp_all add: at_vpos_def)
  note v = cb_Write_virtual [OF conjunct1 [OF wf1] len1 w(1) W1] and fr = cb_Write_frame [OF w(1)]
  have same: "m_Size cb' = m_Size cb2" "vbyte cb' t = vbyte cb2 t" "at_vpos U cb' = at_vpos U cb2" for t U
    using w(3,4) by (simp_all add: m_Size_def vbyte_def at_vpos_def)
  show "p = m_WritePtr cb" using fr w(2) wf1 by simp
  show "at_vpos (W + length b) cb'" using v(1) same by simp
  show "cb_wf cb'" using cb_Write_wf [OF conjunct1 [OF wf1] len1 w(1)] w(4-6) same by (simp add: cb_wf_def m_MessageSlots_def)
  show "m_Size cb' = m_Size cb" using same fr s1 by simp
  show "k < length b \<Longrightarrow> vbyte cb' (W + k) = b ! k" using v(2) same by simp
  show "W + length b \<le> t + m_Size cb \<Longrightarrow> t < W \<Longrightarrow> vbyte cb' t = vbyte cb t"
    using v(3) [of t] same s1 wf1 by (simp add: vbyte_def)
qed

text \<open>The part of the sender that the answers come from, after one more datagram.\<close>

definition ring_step :: "u32 \<Rightarrow> bytes \<Rightarrow> u32 \<Rightarrow> sender \<Rightarrow> sender \<Rightarrow> bool" where
  "ring_step tick payload first s s' \<longleftrightarrow>
     (\<exists>p. Add tick payload (snd_GameID s) (m_RSendQueue s) = Some (p, m_RSendQueue s') \<and>
        m_ResendQueue s' = (m_ResendQueue s)[m_ResendIndex s :=
          \<lparr>rs_data = Some p, rs_length = length payload, rs_packet_num = ucast (m_PacketSequenceNum s), rs_message = first\<rparr>] \<and>
        m_ResendIndex s' = (if RESEND_ELEMENTS \<le> m_ResendIndex s + 1 then 0 else m_ResendIndex s + 1))"

definition ring_same :: "sender \<Rightarrow> sender \<Rightarrow> bool" where
  "ring_same s s' \<longleftrightarrow> m_RSendQueue s' = m_RSendQueue s \<and> m_ResendQueue s' = m_ResendQueue s \<and> m_ResendIndex s' = m_ResendIndex s"

definition prepared :: "sender \<Rightarrow> sender \<Rightarrow> bool" where
  "prepared s s1 \<longleftrightarrow> ring_same s s1 \<and> wire s1 = wire s \<and> m_PacketSequenceNum s1 = m_PacketSequenceNum s \<and>
     snd_GameID s1 = snd_GameID s"

lemma SendPacketCache_prepares:
  assumes "SendPacketCache tick s = Some s'"
  shows "\<exists>opcode cum s1. send_formed tick opcode cum s1 = Some s' \<and> prepared s s1"
proof -
  have "prepared s s1" if "continue_split s = Some (cum, s1) \<or> start_split s = Some (cum, s1)" for cum s1
    using that by (auto simp: continue_split_def start_split_def prepared_def ring_same_def Let_def bind_eq_Some_conv
        split: prod.splits if_splits)
  moreover have "prepared s (s\<lparr>m_OpcodeFormingBuffer := buf, m_UDPQueue := q\<rparr>)" for buf q
    by (simp add: prepared_def ring_same_def)
  ultimately show ?thesis
    using assms unfolding SendPacketCache_def
    by (auto simp: bind_eq_Some_conv split: if_splits prod.splits) blast+
qed

lemma send_formed_step:
  assumes "send_formed tick opcode cum s1 = Some s'"
  shows "(wire s' = wire s1 \<and> ring_same s1 s') \<or>
    (\<exists>payload d first. wire s' = wire s1 @ [d] \<and> udp_payload d = payload \<and> ring_step tick payload first s1 s' \<and>
       d = formed opcode payload s1 \<and> (4 \<le> length payload \<longrightarrow> first = le_word (take 4 payload)))"
proof (cases "m_UDPConnection s1 \<and> 0 < cum")
  case True
  obtain payload d p rq first where x: "peek (m_OpcodeFormingBuffer s1) 0 cum = Some payload"
    "udp_SendOpcode opcode (ucast (snd_GameID s1)) payload (m_PacketSequenceNum s1) = Some d"
    "Add tick payload (snd_GameID s1) (m_RSendQueue s1) = Some (p, rq)" "peek (m_OpcodeFormingBuffer s1) 0 4 = Some first"
    and s': "s' = s1\<lparr>wire := wire s1 @ [d], m_RSendQueue := rq,
        m_ResendQueue := (m_ResendQueue s1)[m_ResendIndex s1 := \<lparr>rs_data = Some p, rs_length = cum,
          rs_packet_num = ucast (m_PacketSequenceNum s1), rs_message = le_word first\<rparr>],
        m_PacketSequenceNum := m_PacketSequenceNum s1 + 1,
        m_ResendIndex := (if RESEND_ELEMENTS \<le> m_ResendIndex s1 + 1 then 0 else m_ResendIndex s1 + 1)\<rparr>"
    using assms True by (auto simp: send_formed_def bind_eq_Some_conv Let_def)
  have len: "cum = length payload" using peek_length [OF x(1)] by simp
  have d: "d = formed opcode payload s1" using x(2) by (auto simp: udp_SendOpcode_def formed_def split: if_splits)
  have "first = take 4 payload" if "4 \<le> length payload"
  proof -
    have "payload = take cum (m_OpcodeFormingBuffer s1)" "first = take 4 (m_OpcodeFormingBuffer s1)"
      using x(1,4) by (auto simp: peek_def split: if_splits)
    then show ?thesis using that unfolding len [symmetric] by (simp add: min_absorb1)
  qed
  then show ?thesis using x(3) s' len d by (auto simp: ring_step_def formed_def)
next
  case False
  then show ?thesis using assms by (auto simp: send_formed_def ring_same_def)
qed

lemma ring_step_size:
  assumes "sender_ok s" and "ring_step tick payload first s s'" and "length payload \<le> m_Size (snd (m_RSendQueue s))"
  shows "m_Size (snd (m_RSendQueue s')) = m_Size (snd (m_RSendQueue s))"
  using assms Add_virtual(4) [of "snd (m_RSendQueue s)" payload "m_WritePtr (snd (m_RSendQueue s))" tick "snd_GameID s"
      "fst (m_RSendQueue s)" _ "fst (m_RSendQueue s')" "snd (m_RSendQueue s')"]
  by (auto simp: ring_step_def sender_ok_def at_vpos_def)

text \<open>A tick writes one datagram to the wire and to the ring, or none to both.\<close>

lemma tick_ring:
  assumes ok: "sender_ok s" and t: "SendPacketCache tick s = Some s'"
  shows "sender_ok s' \<and> snd_GameID s' = snd_GameID s \<and>
    ((wire s' = wire s \<and> m_PacketSequenceNum s' = m_PacketSequenceNum s \<and> ring_same s s') \<or>
     (\<exists>opcode payload first. wire s' = wire s @ [formed opcode payload s] \<and> ring_step tick payload first s s' \<and>
        m_PacketSequenceNum s' = m_PacketSequenceNum s + 1 \<and> length payload \<le> m_Size (snd (m_RSendQueue s)) \<and>
        (4 \<le> length payload \<longrightarrow> first = le_word (take 4 payload))))"
proof -
  obtain opcode cum s1 where s1: "send_formed tick opcode cum s1 = Some s'" "prepared s s1"
    using SendPacketCache_prepares [OF t] by blast
  obtain op2 payload st' where n: "next_datagram (m_PeriodicCacheSize s) (sender_abs s) = (op2, payload, st')"
    by (cases "next_datagram (m_PeriodicCacheSize s) (sender_abs s)")
  have sent: "sent (if payload = [] then [] else [formed op2 payload s]) s s'"
    using tick_implements [OF ok n, of tick] t by auto
  have len: "length payload \<le> m_PeriodicCacheSize s" using next_datagram_length [OF n] .
  then have len: "length payload \<le> m_Size (snd (m_RSendQueue s))" using cache_bounds(3) [OF ok] by simp
  from send_formed_step [OF s1(1)] show ?thesis
  proof (elim disjE exE conjE)
    assume "wire s' = wire s1" "ring_same s1 s'"
    then show ?thesis using sent s1(2) by (auto simp: sent_def prepared_def ring_same_def split: if_splits)
  next
    fix pl d first
    assume x: "wire s' = wire s1 @ [d]" "udp_payload d = pl" "ring_step tick pl first s1 s'" "d = formed opcode pl s1"
      "4 \<le> length pl \<longrightarrow> first = le_word (take 4 pl)"
    have d: "d = formed op2 payload s" "payload \<noteq> []" and seq: "m_PacketSequenceNum s' = m_PacketSequenceNum s + 1"
      using sent x(1) s1(2) by (auto simp: sent_def prepared_def split: if_splits)
    then have "pl = payload" using x(2) by (simp add: formed_def)
    moreover have eqs: "m_RSendQueue s1 = m_RSendQueue s" "m_ResendQueue s1 = m_ResendQueue s"
      "m_ResendIndex s1 = m_ResendIndex s" "m_PacketSequenceNum s1 = m_PacketSequenceNum s" "snd_GameID s1 = snd_GameID s"
      using s1(2) by (simp_all add: prepared_def ring_same_def)
    moreover have "ring_step tick pl first s s'" using x(3) unfolding ring_step_def eqs .
    ultimately show ?thesis using sent d seq x(1,5) len s1(2) by (auto simp: sent_def prepared_def)
  qed
qed

section \<open>What the ring holds\<close>

text \<open>Entry \<open>i\<close> of the ring is the last datagram whose number is \<open>i\<close> modulo 64; \<open>N\<close> is the next number.\<close>

definition ring_ok :: "nat \<Rightarrow> sender \<Rightarrow> bool" where
  "ring_ok N s \<longleftrightarrow> length (m_ResendQueue s) = 64 \<and> m_ResendIndex s = N mod 64 \<and> m_PacketSequenceNum s = of_nat N \<and>
     (\<forall>k < N. N \<le> k + 64 \<longrightarrow> rs_packet_num (m_ResendQueue s ! (k mod 64)) = of_nat k) \<and>
     (\<forall>i < 64. N \<le> i \<longrightarrow> m_ResendQueue s ! i = null_resend)"

lemma ring_ok_new: "ring_ok 0 new_sender"
  by (simp add: ring_ok_def new_sender_def RESEND_ELEMENTS_def)

lemma same_residue:
  assumes "(k::nat) mod 64 = n mod 64" and "k \<le> n" and "n < k + 64"
  shows "k = n"
proof -
  have "64 dvd n - k" using assms(1,2) by (metis mod_eq_dvd_iff_nat)
  then show ?thesis using assms(2,3) by (auto dest: dvd_imp_le)
qed

lemma ring_ok_step:
  assumes r: "ring_ok N s" and t: "ring_step tick payload first s s'" "m_PacketSequenceNum s' = m_PacketSequenceNum s + 1"
  shows "ring_ok (Suc N) s'"
proof -
  obtain p where q: "m_ResendQueue s' = (m_ResendQueue s)[N mod 64 :=
      \<lparr>rs_data = Some p, rs_length = length payload, rs_packet_num = of_nat N, rs_message = first\<rparr>]"
    and idx: "m_ResendIndex s' = (if 64 \<le> N mod 64 + 1 then 0 else N mod 64 + 1)"
    using r t(1) by (auto simp: ring_step_def ring_ok_def RESEND_ELEMENTS_def ucast_sequence)
  have len: "N mod 64 < length (m_ResendQueue s)" using r by (simp add: ring_ok_def)
  have "rs_packet_num (m_ResendQueue s' ! (k mod 64)) = of_nat k" if k: "k < Suc N" "Suc N \<le> k + 64" for k
  proof (cases "k = N")
    case False
    then have "k mod 64 \<noteq> N mod 64" using k same_residue [of k N] by auto
    then show ?thesis using r k False by (simp add: q ring_ok_def)
  qed (use len q in simp)
  moreover have "m_ResendQueue s' ! i = null_resend" if "i < 64" "Suc N \<le> i" for i
    using r that by (simp add: q ring_ok_def)
  moreover have "m_ResendIndex s' = Suc N mod 64" using idx by (auto simp: mod_Suc)
  ultimately show ?thesis using r t(2) q by (simp add: ring_ok_def)
qed

text \<open>Datagram \<open>n\<close> is in the ring, its bytes at \<open>p\<close>; the writer has come to the virtual position \<open>W\<close>.\<close>

definition held :: "nat \<Rightarrow> bytes \<Rightarrow> nat \<Rightarrow> nat \<Rightarrow> sender \<Rightarrow> bool" where
  "held n payload p W s \<longleftrightarrow>
     m_ResendQueue s ! (n mod 64) = \<lparr>rs_data = Some p, rs_length = length payload, rs_packet_num = of_nat n,
       rs_message = le_word (take 4 payload)\<rparr> \<and>
     (let cb = snd (m_RSendQueue s)
      in at_vpos W cb \<and> p \<le> m_Size cb \<and> p + length payload \<le> W \<and> W \<le> p + m_Size cb \<and>
         (\<forall>j < length payload. vbyte cb (p + j) = payload ! j))"

lemma held_new:
  assumes ok: "sender_ok s" and r: "ring_ok N s" and t: "ring_step tick payload (le_word (take 4 payload)) s s'"
    and len: "length payload \<le> m_Size (snd (m_RSendQueue s))"
  shows "held N payload (m_WritePtr (snd (m_RSendQueue s))) (m_WritePtr (snd (m_RSendQueue s)) + length payload) s'"
proof -
  obtain q cb where rq: "m_RSendQueue s = (q, cb)" by (cases "m_RSendQueue s")
  obtain q' cb' where rq': "m_RSendQueue s' = (q', cb')" by (cases "m_RSendQueue s'")
  obtain p where p: "Add tick payload (snd_GameID s) (q, cb) = Some (p, q', cb')"
    and e: "m_ResendQueue s' = (m_ResendQueue s)[N mod 64 := \<lparr>rs_data = Some p, rs_length = length payload,
      rs_packet_num = of_nat N, rs_message = le_word (take 4 payload)\<rparr>]"
    using t r rq rq' by (auto simp: ring_step_def ring_ok_def ucast_sequence)
  have wf: "cb_wf cb" and l: "length payload \<le> m_Size cb" and W: "at_vpos (m_WritePtr cb) cb"
    using ok len rq by (simp_all add: sender_ok_def at_vpos_def)
  note v = Add_virtual [OF wf l W p]
  have "m_WritePtr cb \<le> m_Size cb" "N mod 64 < length (m_ResendQueue s)" using wf r by (auto simp: cb_wf_def ring_ok_def)
  then show ?thesis using v e rq rq' l by (simp add: held_def)
qed

lemma held_step:
  assumes ok: "sender_ok s" and r: "ring_ok N s" and h: "held n payload p W s" and t: "ring_step tick pl first s s'"
    and len: "length pl \<le> m_Size (snd (m_RSendQueue s))" and n: "n < N" "N < n + 64"
    and room: "W + length pl \<le> p + m_Size (snd (m_RSendQueue s))"
  shows "held n payload p (W + length pl) s'"
proof -
  obtain q cb where rq: "m_RSendQueue s = (q, cb)" by (cases "m_RSendQueue s")
  obtain q' cb' where rq': "m_RSendQueue s' = (q', cb')" by (cases "m_RSendQueue s'")
  obtain a v where p: "Add tick pl (snd_GameID s) (q, cb) = Some (a, q', cb')"
    and e: "m_ResendQueue s' = (m_ResendQueue s)[N mod 64 := v]"
    using t r rq rq' by (auto simp: ring_step_def ring_ok_def)
  have wf: "cb_wf cb" and l: "length pl \<le> m_Size cb" and W: "at_vpos W cb" "p + length payload \<le> W"
    using ok len h rq by (auto simp: sender_ok_def held_def Let_def)
  note v = Add_virtual [OF wf l W(1) p]
  have "n mod 64 \<noteq> N mod 64" using same_residue [of n N] n by auto
  moreover have "vbyte cb' (p + j) = vbyte cb (p + j)" if "j < length payload" for j
    using that W(2) room rq by (intro v(6)) auto
  ultimately show ?thesis using h v e rq rq' room by (simp add: held_def Let_def)
qed

section \<open>Ticks\<close>

primrec send_ticks :: "nat \<Rightarrow> u32 \<Rightarrow> sender \<Rightarrow> sender option" where
  "send_ticks 0 tick s = Some s"
| "send_ticks (Suc k) tick s = Option.bind (SendPacketCache tick s) (send_ticks k (tick + 1))"

definition payload_bytes :: "Datagram list \<Rightarrow> nat" where
  "payload_bytes ds = sum_list (map (\<lambda>d. length (udp_payload d)) ds)"

lemma tick_payload:
  assumes ok: "sender_ok s" and t: "SendPacketCache tick s = Some s'" and w: "wire s' = wire s @ [d]"
  shows "length (udp_payload d) \<le> 1400"
proof -
  obtain op2 payload st' where n: "next_datagram (m_PeriodicCacheSize s) (sender_abs s) = (op2, payload, st')"
    by (cases "next_datagram (m_PeriodicCacheSize s) (sender_abs s)")
  have "sent (if payload = [] then [] else [formed op2 payload s]) s s'" using tick_implements [OF ok n, of tick] t by auto
  then have "d = formed op2 payload s" using w by (auto simp: sent_def split: if_splits)
  then show ?thesis using next_datagram_length [OF n] cache_bounds(2) [OF ok] by (simp add: formed_def)
qed

lemma held_ticks_size:
  "send_ticks k tick s = Some s' \<Longrightarrow> sender_ok s \<Longrightarrow> m_Size (snd (m_RSendQueue s')) = m_Size (snd (m_RSendQueue s))"
proof (induction k arbitrary: s tick)
  case (Suc k)
  then obtain s1 where s1: "SendPacketCache tick s = Some s1" "send_ticks k (tick + 1) s1 = Some s'"
    by (auto simp: bind_eq_Some_conv)
  note t = tick_ring [OF Suc.prems(2) s1(1)]
  then have "m_Size (snd (m_RSendQueue s1)) = m_Size (snd (m_RSendQueue s))"
    using ring_step_size [OF Suc.prems(2)] by (auto simp: ring_same_def)
  then show ?case using Suc.IH [OF s1(2)] t by simp
qed simp

lemma ticks_extend: "sender_ok s \<Longrightarrow> send_ticks k tick s = Some s' \<Longrightarrow> \<exists>ds. wire s' = wire s @ ds"
proof (induction k arbitrary: s tick)
  case (Suc k)
  then obtain s1 where s1: "SendPacketCache tick s = Some s1" "send_ticks k (tick + 1) s1 = Some s'"
    by (auto simp: bind_eq_Some_conv)
  note t = tick_ring [OF Suc.prems(1) s1(1)]
  obtain ds where "wire s' = wire s1 @ ds" using Suc.IH [OF _ s1(2)] t by blast
  then show ?case using t by (metis append.assoc)
qed simp

lemma held_ticks:
  assumes "send_ticks k tick s = Some s'" and "sender_ok s" and "ring_ok N s" and "held n payload p W s" and "n < N"
    and "wire s' = wire s @ ds" and "N + length ds \<le> n + 64" and "W + payload_bytes ds \<le> p + m_Size (snd (m_RSendQueue s))"
  shows "sender_ok s' \<and> ring_ok (N + length ds) s' \<and> held n payload p (W + payload_bytes ds) s' \<and>
    snd_GameID s' = snd_GameID s"
  using assms
proof (induction k arbitrary: s N W ds tick)
  case (Suc k)
  obtain s1 where s1: "SendPacketCache tick s = Some s1" "send_ticks k (tick + 1) s1 = Some s'"
    using Suc.prems(1) by (auto simp: bind_eq_Some_conv)
  note t = tick_ring [OF Suc.prems(2) s1(1)]
  have ok1: "sender_ok s1" "snd_GameID s1 = snd_GameID s" using t by auto
  obtain es where es: "wire s' = wire s1 @ es" using ticks_extend [OF ok1(1) s1(2)] by blast
  from t consider (none) "wire s1 = wire s" "m_PacketSequenceNum s1 = m_PacketSequenceNum s" "ring_same s s1"
    | (one) opcode pl first where "wire s1 = wire s @ [formed opcode pl s]" "ring_step tick pl first s s1"
      "m_PacketSequenceNum s1 = m_PacketSequenceNum s + 1" "length pl \<le> m_Size (snd (m_RSendQueue s))"
    by blast
  then show ?case
  proof cases
    case none
    have "ring_ok N s1" "held n payload p W s1" using Suc.prems(3,4) none by (simp_all add: ring_ok_def held_def ring_same_def)
    moreover have "es = ds" "m_RSendQueue s1 = m_RSendQueue s" using es none Suc.prems(6) by (simp_all add: ring_same_def)
    ultimately show ?thesis using Suc.IH [OF s1(2) ok1(1), of N W ds] Suc.prems es ok1(2) by simp
  next
    case one
    have ds: "ds = formed opcode pl s # es" using es one(1) Suc.prems(6) by simp
    then have b: "payload_bytes ds = length pl + payload_bytes es" by (simp add: payload_bytes_def formed_def)
    have size: "m_Size (snd (m_RSendQueue s1)) = m_Size (snd (m_RSendQueue s))"
      using ring_step_size [OF Suc.prems(2) one(2,4)] .
    have "ring_ok (Suc N) s1" by (rule ring_ok_step [OF Suc.prems(3) one(2,3)])
    moreover have "held n payload p (W + length pl) s1"
      using held_step [OF Suc.prems(2-4) one(2,4)] Suc.prems(5,7,8) ds b by simp
    ultimately show ?thesis
      using Suc.IH [OF s1(2) ok1(1), of "Suc N" "W + length pl" es] Suc.prems(5,7,8) es ds b size ok1(2) by (simp add: add.assoc)
  qed
qed (simp add: payload_bytes_def)

section \<open>The answer\<close>

lemma ring_index:
  assumes r: "ring_ok N s" and n: "n < N" "N \<le> n + 64" and N: "N < 2 ^ 32"
  shows "first_index (\<lambda>e. rs_packet_num e = of_nat n) (m_ResendQueue s) = Some (n mod 64)"
proof -
  let ?P = "\<lambda>e. rs_packet_num e = (of_nat n :: u32)"
  have hit: "n mod 64 < length (m_ResendQueue s)" "?P (m_ResendQueue s ! (n mod 64))"
    using r n by (auto simp: ring_ok_def)
  then obtain j where j: "j \<le> n mod 64" "first_index ?P (m_ResendQueue s) = Some j" using first_index_le [of "n mod 64" "m_ResendQueue s" ?P, OF hit] by blast
  have Pj: "?P (m_ResendQueue s ! j)" "j < 64" using first_index_Some [OF j(2)] r by (auto simp: ring_ok_def)
  have "j = n mod 64"
  proof (cases "N \<le> j")
    case True
    then have "m_ResendQueue s ! j = null_resend" using r Pj(2) by (simp add: ring_ok_def)
    then have "(of_nat n :: u32) = of_nat 0" using Pj(1) by (simp add: null_resend_def)
    then have "n = 0" using n(1) N by (subst (asm) word_of_nat_eq_iff) (simp add: take_bit_nat_eq_self)
    then show ?thesis using j(1) by simp
  next
    case False
    define k where "k = N - 1 - (N - 1 - j) mod 64"
    have k: "k < N" "N \<le> k + 64" using False by (auto simp: k_def)
    define m where "m = N - 1 - j"
    have "m = 64 * (m div 64) + m mod 64" "N - 1 = j + m" using False by (simp_all add: m_def)
    then have "k = j + 64 * (m div 64)" unfolding k_def m_def [symmetric] by linarith
    then have kj: "k mod 64 = j" using Pj(2) by simp
    then have "(of_nat k :: u32) = of_nat n" using r k Pj(1) by (auto simp: ring_ok_def)
    then have "k = n" using k(1) n(1) N by (subst (asm) word_of_nat_eq_iff) (simp add: take_bit_nat_eq_self)
    then show ?thesis using kj by simp
  qed
  then show ?thesis using j(2) by simp
qed

lemma resend_one_held:
  assumes ok: "sender_ok s" and r: "ring_ok N s" and h: "held n payload p W s" and n: "n < N" "N \<le> n + 64" and N: "N < 2 ^ 32"
    and p: "4 \<le> length payload" "p + 4 \<le> m_Size (snd (m_RSendQueue s))" "length payload \<le> 1400"
  shows "\<exists>s'. resend_one (of_nat n) s = Some s' \<and>
    wire s' = wire s @ [\<lparr>udp_size = of_nat (length payload + UDP_HEADER_SIZE), udp_opcode = PACKET_SEQUENCE,
      udp_player_id = ucast (snd_GameID s), packet_sequence = of_nat n, udp_payload = payload\<rparr>]"
proof -
  obtain q cb where rq: "m_RSendQueue s = (q, cb)" by (cases "m_RSendQueue s")
  have wf: "cb_wf cb" and e: "m_ResendQueue s ! (n mod 64) = \<lparr>rs_data = Some p, rs_length = length payload,
      rs_packet_num = of_nat n, rs_message = le_word (take 4 payload)\<rparr>"
    and b: "\<forall>j < length payload. vbyte cb (p + j) = payload ! j" "p \<le> m_Size cb" "length payload \<le> m_Size cb"
    using ok h rq by (auto simp: sender_ok_def held_def Let_def)
  have "peek (m_Buffer cb) p 4 = Some (take 4 payload)"
  proof (rule peek_eqI)
    fix k assume k: "k < (4::nat)"
    have "(p + k) mod m_Size cb = p + k" using p(2) rq k by simp
    have "k < length payload" using k p(1) by simp
    then have "vbyte cb (p + k) = payload ! k" using b(1) by blast
    then show "m_Buffer cb ! (p + k) = take 4 payload ! k" using k \<open>(p + k) mod m_Size cb = p + k\<close> by (simp add: vbyte_def)
  qed (use p rq in \<open>auto simp: m_Size_def\<close>)
  moreover have "map (\<lambda>k. vbyte cb (p + k)) [0..<length payload] = payload" using b(1) by (intro nth_equalityI) auto
  then have "cb_Read (Some p) (length payload) cb = Some (Some payload, cb\<lparr>cb_EntriesInQueue := cb_EntriesInQueue cb - 1\<rparr>)"
    using cb_Read_virtual [OF wf b(2,3) refl] by simp
  moreover have "udp_SendOpcode PACKET_SEQUENCE (ucast (snd_GameID s)) payload (ucast (of_nat n :: u32)) =
      Some \<lparr>udp_size = of_nat (length payload + UDP_HEADER_SIZE), udp_opcode = PACKET_SEQUENCE,
        udp_player_id = ucast (snd_GameID s), packet_sequence = of_nat n, udp_payload = payload\<rparr>"
    using p(3) by (simp add: udp_SendOpcode_def UDP_BUFFER_SEND_SIZE_def UDP_HEADER_SIZE_def unsigned_of_nat word_of_nat_eq_iff)
  ultimately show ?thesis
    using ring_index [OF r n N] e rq by (simp add: resend_one_def Let_def RetreiveMessage_def del: of_nat_add)
qed

text \<open>A request for \<open>count\<close> numbers from \<open>start\<close>.\<close>

definition request :: "nat \<Rightarrow> nat \<Rightarrow> bytes" where
  "request start count = le_bytes 4 (of_nat start :: u32) @ le_bytes 4 (of_nat count :: u32)"

lemma resend_request_ok:
  assumes "1 \<le> count" and "count \<le> 64"
  shows "resend_request (request start count) 8 = Some (of_nat start, of_nat count)"
proof -
  have w: "le_word (le_bytes 4 v) = v" for v :: u32 by (rule le_word_le_bytes) simp
  have c: "unat (of_nat count :: u32) = count" using assms(2) by (simp add: unat_of_nat)
  have "\<not> (of_nat count :: u32) < 1" "\<not> (64 :: u32) < of_nat count"
    using assms c by (simp_all add: word_less_nat_alt)
  then show ?thesis
    by (simp add: resend_request_def request_def peek_def w word_sle_eq RESEND_ELEMENTS_def Let_def)
qed

lemma resend_range_ok:
  assumes "start + count < 2 ^ 32"
  shows "resend_range (of_nat start) (of_nat count) = map of_nat [start..<start + count]"
proof -
  have "unat (of_nat start + of_nat count :: u32) = start + count"
    using assms by (simp add: unat_of_nat unat_word_ariths)
  moreover have "unat (of_nat start :: u32) = start" using assms by (simp add: unat_of_nat)
  ultimately have "resend_range (of_nat start) (of_nat count) = map (\<lambda>i. of_nat (start + i)) [0..<count]"
    by (simp add: resend_range_def)
  also have "\<dots> = map of_nat (map (\<lambda>i. start + i) [0..<count])" by simp
  also have "map (\<lambda>i. start + i) [0..<count] = [start..<start + count]"
    by (rule nth_equalityI) simp_all
  finally show ?thesis .
qed

lemma ReSendOpcodes_one:
  assumes "n + 1 < 2 ^ 32" and "m_UDPConnection s"
  shows "ReSendOpcodes (request n 1) 8 s = resend_one (of_nat n) s"
proof -
  have "Option.bind x (resend_all []) = x" for x :: "sender option" by (cases x) simp_all
  then show ?thesis using assms resend_request_ok [of 1 n] resend_range_ok [of n 1]
    by (simp add: ReSendOpcodes_def word_sless_alt)
qed

text \<open>C7: a lost datagram can be asked for again. After a datagram was sent, and any further ticks, the answer
  to a request for its number carries exactly the bytes it carried, as a plain datagram, as long as fewer
  than 64 datagrams and no more bytes than the ring has were sent since; the datagram has at least four
  bytes and its first four do not cross the end of the ring.\<close>

theorem resend_returns_sent:
  assumes "sender_ok s" and "ring_ok N s" and "SendPacketCache t s = Some s1" and "wire s1 = wire s @ [d]"
    and "send_ticks k t' s1 = Some s2" and "wire s2 = wire s1 @ ds" and "length ds < 64" and "N + 64 < 2 ^ 32"
    and "length (udp_payload d) + payload_bytes ds \<le> m_Size (snd (m_RSendQueue s))"
    and "4 \<le> length (udp_payload d)" and "m_WritePtr (snd (m_RSendQueue s)) + 4 \<le> m_Size (snd (m_RSendQueue s))"
  shows "\<exists>s3. ReSendOpcodes (request N 1) 8 s2 = Some s3 \<and> wire s3 = wire s2 @ [d\<lparr>udp_opcode := PACKET_SEQUENCE\<rparr>]"
proof -
  let ?p = "m_WritePtr (snd (m_RSendQueue s))" and ?size = "m_Size (snd (m_RSendQueue s))"
  obtain opcode pl first where t: "d = formed opcode pl s" "ring_step t pl first s s1"
    "m_PacketSequenceNum s1 = m_PacketSequenceNum s + 1" "length pl \<le> ?size" "4 \<le> length pl \<longrightarrow> first = le_word (take 4 pl)"
    and ok1: "sender_ok s1" "snd_GameID s1 = snd_GameID s"
    using tick_ring [OF assms(1,3)] assms(4) by auto
  have pl: "udp_payload d = pl" "packet_sequence d = of_nat N" "udp_player_id d = ucast (snd_GameID s)"
    "udp_size d = of_nat (length pl + UDP_HEADER_SIZE)"
    using t(1) assms(2) by (simp_all add: formed_def ring_ok_def ucast_sequence)
  have r1: "ring_ok (Suc N) s1" by (rule ring_ok_step [OF assms(2) t(2,3)])
  have "held N pl ?p (?p + length pl) s1" using held_new [OF assms(1,2) _ t(4)] t(2,5) assms(10) pl(1) by simp
  moreover have size1: "m_Size (snd (m_RSendQueue s1)) = ?size" by (rule ring_step_size [OF assms(1) t(2,4)])
  ultimately have h2: "sender_ok s2 \<and> ring_ok (Suc N + length ds) s2 \<and> held N pl ?p (?p + length pl + payload_bytes ds) s2 \<and>
      snd_GameID s2 = snd_GameID s1"
    using assms(5-7,9) pl(1) by (intro held_ticks [OF _ ok1(1) r1]) auto
  have size2: "m_Size (snd (m_RSendQueue s2)) = ?size" using held_ticks_size [OF assms(5) ok1(1)] size1 by simp
  have short: "length pl \<le> 1400" using tick_payload [OF assms(1,3)] assms(4) pl(1) by simp
  obtain s3 where "resend_one (of_nat N) s2 = Some s3" "wire s3 = wire s2 @ [\<lparr>udp_size = of_nat (length pl + UDP_HEADER_SIZE),
      udp_opcode = PACKET_SEQUENCE, udp_player_id = ucast (snd_GameID s2), packet_sequence = of_nat N, udp_payload = pl\<rparr>]"
    using resend_one_held [of s2 "Suc N + length ds" N pl] h2 assms(7,8,10,11) pl(1) size2 short by auto
  moreover have "m_UDPConnection s2" using h2 by (simp add: sender_ok_def)
  ultimately show ?thesis using ReSendOpcodes_one [of N s2] assms(8) pl h2 ok1(2) by simp
qed

theorem resend_returns_sent_witness:
  "\<exists>s s1 s2 s3 d. Player_SendOpcode 1 0x20 [1, 2] new_sender = Some s \<and> SendPacketCache 2 s = Some s1 \<and> wire s1 = wire s @ [d] \<and>
     send_ticks 1 3 s1 = Some s2 \<and> ReSendOpcodes (request 0 1) 8 s2 = Some s3 \<and>
     wire s3 = wire s2 @ [d\<lparr>udp_opcode := PACKET_SEQUENCE\<rparr>]"
proof -
  let ?f = "(0x20, [1, 2]) :: opcode"
  have room: "room_for [?f] new_sender" by (intro new_sender_room) simp_all
  obtain s where s: "Player_SendOpcode 1 0x20 [1, 2] new_sender = Some s" "sender_ok s" "sender_abs s = ([], [opcode_bytes ?f])"
    "m_PeriodicCacheSize s = 512" and same: "m_RSendQueue s = m_RSendQueue new_sender" "m_ResendQueue s = m_ResendQueue new_sender"
    "m_ResendIndex s = m_ResendIndex new_sender" "m_PacketSequenceNum s = m_PacketSequenceNum new_sender"
    using Player_SendOpcode_ok [OF new_sender_ok room, of 1] by (auto simp: new_sender_abs new_sender_cache)
  have "ring_ok 0 s" using ring_ok_new same by (simp add: ring_ok_def)
  have spec: "fill_spec (m_PeriodicCacheSize s) [opcode_bytes ?f] = (opcode_bytes ?f, [])" by simp
  obtain s1 where s1: "SendPacketCache 2 s = Some s1" "sender_abs s1 = ([], [])" "sent [formed PACKET_SEQUENCE (opcode_bytes ?f) s] s s1"
    using fill_send [OF s(2,3) _ spec, of 2] s(4) by auto
  let ?d = "formed PACKET_SEQUENCE (opcode_bytes ?f) s"
  obtain s2 where s2: "SendPacketCache 3 s1 = Some s2" "sent [] s1 s2"
    using idle_send [OF _ s1(2), of 3] s1(3) by (auto simp: sent_def)
  have w: "wire s1 = wire s @ [?d]" and w2: "wire s2 = wire s1 @ []" and t: "send_ticks 1 3 s1 = Some s2"
    using s1(3) s2 by (simp_all add: sent_def)
  have d: "length (udp_payload ?d) = 6" by (simp add: formed_def)
  have "m_WritePtr (snd (m_RSendQueue s)) = 0" "m_Size (snd (m_RSendQueue s)) = 4096"
    by (simp_all add: same new_sender_def new_CircularBuffer_def m_Size_def)
  then show ?thesis
    using resend_returns_sent [OF s(2) \<open>ring_ok 0 s\<close> s1(1) w t w2] d s(1) s1(1) w t by (auto simp: payload_bytes_def)
qed

definition ring_readable :: "sender \<Rightarrow> bool" where
  "ring_readable s \<longleftrightarrow> cb_wf (snd (m_RSendQueue s)) \<and>
     (\<forall>e \<in> set (m_ResendQueue s). \<forall>p. rs_data e = Some p \<longrightarrow> p + 4 \<le> m_Size (snd (m_RSendQueue s)) \<and>
        rs_length e \<le> m_Size (snd (m_RSendQueue s)) \<and> rs_length e \<le> 1400)"

definition answered :: "u32 \<Rightarrow> sender \<Rightarrow> sender \<Rightarrow> bool" where
  "answered n s s' \<longleftrightarrow> (\<exists>d. wire s' = wire s @ [d] \<and> packet_sequence d = n) \<and> ring_readable s' \<and> m_UDPConnection s' = m_UDPConnection s"

lemma ucast_number: "ucast (ucast (n :: u32) :: clong) = (n :: s32)"
  by (rule bit_word_eqI) (simp add: bit_ucast_iff)

lemma udp_SendOpcode_number:
  "length data \<le> 1400 \<Longrightarrow> \<exists>d. udp_SendOpcode opcode player data (ucast (n :: u32)) = Some d \<and> packet_sequence d = n"
  by (simp add: udp_SendOpcode_def UDP_BUFFER_SEND_SIZE_def UDP_HEADER_SIZE_def ucast_number)

lemma resend_blank_answers:
  assumes "ring_readable s"
  shows "\<exists>s'. resend_blank n s = Some s' \<and> answered n s s'"
  using udp_SendOpcode_number [of "[]" PACKET_SEQUENCE "ucast (snd_GameID s)" n] assms
  by (auto simp: resend_blank_def answered_def ring_readable_def)

lemma resend_one_answers:
  assumes "ring_readable s"
  shows "\<exists>s'. resend_one n s = Some s' \<and> answered n s s'"
proof (cases "first_index (\<lambda>e. rs_packet_num e = n) (m_ResendQueue s)")
  case None
  then show ?thesis using resend_blank_answers [OF assms] by (simp add: resend_one_def)
next
  case (Some i)
  define e where "e = m_ResendQueue s ! i"
  show ?thesis
  proof (cases "rs_data e")
    case None
    then show ?thesis using Some resend_blank_answers [OF assms] by (simp add: resend_one_def e_def)
  next
    case data: (Some p)
    obtain q cb where rq: "m_RSendQueue s = (q, cb)" by (cases "m_RSendQueue s")
    have "e \<in> set (m_ResendQueue s)" using first_index_Some [OF Some] by (simp add: e_def)
    then have p: "p + 4 \<le> m_Size cb" "rs_length e \<le> m_Size cb" "rs_length e \<le> 1400" and wf: "cb_wf cb"
      using assms data rq by (auto simp: ring_readable_def)
    obtain first where first: "peek (m_Buffer cb) p 4 = Some first" using p(1) by (auto simp: peek_def m_Size_def)
    have "p \<le> m_Size cb" using p(1) by simp
    then obtain payload where rd: "cb_Read (Some p) (rs_length e) cb =
        Some (Some payload, cb\<lparr>cb_EntriesInQueue := cb_EntriesInQueue cb - 1\<rparr>)" "length payload = rs_length e"
      using cb_Read_virtual [OF wf _ p(2), of p p] by auto
    obtain d where d: "udp_SendOpcode PACKET_SEQUENCE (ucast (snd_GameID s)) payload (ucast n) = Some d" "packet_sequence d = n"
      using udp_SendOpcode_number [of payload PACKET_SEQUENCE "ucast (snd_GameID s)" n] rd(2) p(3) by auto
    let ?s = "s\<lparr>m_RSendQueue := (q, cb\<lparr>cb_EntriesInQueue := cb_EntriesInQueue cb - 1\<rparr>), wire := wire s @ [d]\<rparr>"
    have "answered n s ?s" using d assms rq
      by (auto simp: answered_def ring_readable_def cb_wf_def m_Size_def m_MessageSlots_def)
    moreover have "resend_one n s = (if rs_message e = le_word first then Some ?s else resend_blank n s)"
      using Some data rq first rd d by (simp add: resend_one_def e_def [symmetric] Let_def RetreiveMessage_def)
    ultimately show ?thesis using resend_blank_answers [OF assms] by auto
  qed
qed

lemma resend_all_answers:
  "ring_readable s \<Longrightarrow> \<exists>s' ds. resend_all ns s = Some s' \<and> wire s' = wire s @ ds \<and> map packet_sequence ds = ns"
proof (induction ns arbitrary: s)
  case (Cons n ns)
  obtain s1 d where s1: "resend_one n s = Some s1" "wire s1 = wire s @ [d]" "packet_sequence d = n" "ring_readable s1"
    using resend_one_answers [OF Cons.prems, of n] by (auto simp: answered_def)
  obtain s' ds where "resend_all ns s1 = Some s'" "wire s' = wire s1 @ ds" "map packet_sequence ds = ns"
    using Cons.IH [OF s1(4)] by blast
  then show ?case using s1 by (intro exI [of _ s'] exI [of _ "d # ds"]) simp
qed simp

text \<open>C9: every number that is asked for is answered once, in order, by the datagram the ring still has or by a
  blank one, so that the proxy can go on: a request for up to 64 numbers from \<open>start\<close> is answered by that many
  datagrams, numbered from \<open>start\<close>, when the range does not pass the largest number and the ring's entries lie
  four bytes or more before its end.\<close>

theorem every_number_answered:
  assumes "ring_readable s" and "m_UDPConnection s" and "1 \<le> count" and "count \<le> 64" and "start + count < 2 ^ 32"
  shows "\<exists>s' ds. ReSendOpcodes (request start count) 8 s = Some s' \<and> wire s' = wire s @ ds \<and>
    map packet_sequence ds = map of_nat [start..<start + count]"
  using resend_all_answers [OF assms(1), of "map of_nat [start..<start + count]"] assms(2)
  by (simp add: ReSendOpcodes_def word_sless_alt resend_request_ok [OF assms(3,4)] resend_range_ok [OF assms(5)])

theorem every_number_answered_witness:
  "\<exists>s' ds. ReSendOpcodes (request 5 3) 8 new_sender = Some s' \<and> wire s' = ds \<and> map packet_sequence ds = [5, 6, 7]"
proof -
  have "ring_readable new_sender" and c: "m_UDPConnection new_sender" and w: "wire new_sender = []"
    by (simp_all add: ring_readable_def new_sender_def new_CircularBuffer_def cb_wf_def m_Size_def m_MessageSlots_def
        null_resend_def)
  moreover have "map of_nat [5..<5 + 3] = [5, 6, 7 :: u32]" by (simp add: upt_rec)
  ultimately show ?thesis using every_number_answered [of new_sender 3 5] by simp
qed

text \<open>
  A request whose range passes the largest number is not answered at all. This is what the proxy sends when
  the first datagrams after a handoff are lost, as it then waits for number -1.
\<close>

lemma unanswered:
  assumes "start < 2 ^ 32" and "2 ^ 32 \<le> start + count" and "1 \<le> count" and "count \<le> 64"
  shows "ReSendOpcodes (request start count) 8 s = Some s"
proof -
  have "unat (of_nat start :: u32) = start" using assms(1) by (simp add: unat_of_nat)
  moreover have "unat (of_nat start + of_nat count :: u32) = (start + count) mod 2 ^ 32"
    by (simp add: unat_of_nat unat_word_ariths mod_add_eq)
  moreover have "(start + count) mod 2 ^ 32 \<le> start"
    using assms by (simp add: mod_if) linarith
  ultimately have "resend_range (of_nat start) (of_nat count) = []" by (simp add: resend_range_def)
  then show ?thesis by (simp add: ReSendOpcodes_def word_sless_alt resend_request_ok [OF assms(3,4)])
qed

end
