(* ===== verification/ReliableReceive.thy ===== *)
theory ReliableReceive
  imports ReliableSend
begin

text \<open>
  The receiving side of the reliable stream, in the proxy
  (\<^verbatim>\<open>proxy/UDPProxyToClient_linux.cpp\<close>): numbered datagrams are kept until all earlier ones were
  forwarded, missing ones are asked for again, split opcodes are put together, and the opcodes in a
  datagram go to the client one by one.

  \<^verbatim>\<open>std::map\<close> is a list of pairs sorted by key; \<^verbatim>\<open>m_Packets[k]\<close> inserts an empty slot for a key that
  is not there. The opcodes that the proxy turns into other packets (mining beams, objects, the galaxy
  map) are events. The options for debugging (dropping, replacing and dumping opcodes) are
  off. Reassembly runs on the client object of the global plane; the flags that other opcodes set on the
  other planes are events as well.
\<close>

section \<open>State\<close>

datatype slot = PACKET_BLANK | PACKET_DONE | PACKET_RE_REQUESTED | Stored Datagram

type_synonym packets = "(u64 \<times> slot) list"

fun put :: "u64 \<Rightarrow> slot \<Rightarrow> packets \<Rightarrow> packets" where
  "put k v [] = [(k, v)]"
| "put k v ((a, b) # ps) = (if k < a then (k, v) # (a, b) # ps else if k = a then (k, v) # ps else (a, b) # put k v ps)"

definition slot_at :: "packets \<Rightarrow> u64 \<Rightarrow> slot" where
  "slot_at ps k = (case map_of ps k of None \<Rightarrow> PACKET_BLANK | Some v \<Rightarrow> v)"

definition touch :: "u64 \<Rightarrow> packets \<Rightarrow> packets" where
  "touch k ps = put k (slot_at ps k) ps"

datatype proxy_event =
    ResendRequest s32 s32
  | StageAck bytes
  | Fabricate s16 bytes
  | ServeGalaxyMap
  | LogoffConfirmed
  | HandoffSeen bytes
  | StartSeen

record proxy =
  m_Packets :: packets
  m_CurrentPacketNum :: clong
  m_PacketTimeout :: s16
  m_PacketDropThisSession :: s16
  m_PacketTimer :: u32
  m_PacketResendTimer :: u64
  m_SplitPacketLength :: int
  m_SplitPacketStart :: u64
  m_SplitHeader :: Datagram
  m_SplitPayload :: bytes
  m_ConnectionActive :: bool
  m_LoginComplete :: bool
  m_SectorConnection :: bool
  g_ShuttingDown :: bool
  g_Packet_Opt_requested :: bool
  to_client :: "(s16 \<times> bytes \<times> s32) list"
  events :: "proxy_event list"

definition SPLIT_BUFFER_SIZE :: nat where "SPLIT_BUFFER_SIZE = 16384"
definition PACKET_RESEND_INTERVAL_MS :: u64 where "PACKET_RESEND_INTERVAL_MS = 300"

definition px_emit :: "proxy_event \<Rightarrow> proxy \<Rightarrow> proxy" where
  "px_emit e px = px\<lparr>events := events px @ [e]\<rparr>"

definition put_slot :: "u64 \<Rightarrow> slot \<Rightarrow> proxy \<Rightarrow> proxy" where
  "put_slot k v px = px\<lparr>m_Packets := put k v (m_Packets px)\<rparr>"

definition header_size :: "proxy \<Rightarrow> nat" where
  "header_size px = (if g_Packet_Opt_requested px then 1400 else 512)"

section \<open>The opcodes in a datagram\<close>

text \<open>\<open>frame\<close> is what follows the header of the opcode in the datagram.\<close>

definition HandleCustomOpcode :: "s16 \<Rightarrow> bytes \<Rightarrow> s16 \<Rightarrow> proxy \<Rightarrow> (bool \<times> proxy) option" where
  "HandleCustomOpcode opcode frame len px =
     (if opcode = 0x1B then Some (len <s 8, px)
      else if opcode = 0x2020 then map_option (\<lambda>b. (True, px_emit (StageAck b) px)) (peek frame 0 4)
      else if opcode = 0x100A then Some (True, px\<lparr>g_ShuttingDown := True\<rparr>)
      else if opcode = 0x2011
      then Some (True, px_emit ServeGalaxyMap (px\<lparr>m_PacketDropThisSession := 0, m_PacketTimer := 100\<rparr>))
      else if opcode \<in> {0x2012, 0x2018, 0x2019} then Some (True, px_emit (Fabricate opcode frame) px)
      else if opcode \<in> {0x2013, 0x2014, 0x2025, 0x202A, 0x202B, 0x202D, 0x202E} then Some (True, px)
      else Some (False, px))"

definition IncommingOpcodePreProcessing :: "s16 \<Rightarrow> bytes \<Rightarrow> proxy \<Rightarrow> proxy" where
  "IncommingOpcodePreProcessing opcode body px =
     (if opcode = 0xBA then px_emit LogoffConfirmed px
      else if opcode = 0x3A then px_emit (HandoffSeen body) (px\<lparr>m_Packets := [], m_CurrentPacketNum := -1\<rparr>)
      else if opcode = 0x05 then px_emit StartSeen px
      else px)"

text \<open>\<^verbatim>\<open>Connection::SendResponse\<close> rejects the huge length that \<open>length - 4\<close> becomes below 4.\<close>

definition forward_opcode :: "s16 \<Rightarrow> bytes \<Rightarrow> s16 \<Rightarrow> s32 \<Rightarrow> proxy \<Rightarrow> proxy" where
  "forward_opcode opcode frame len seq px =
     (let body = take (unat len - 4) frame;
          px1 = IncommingOpcodePreProcessing opcode body px
      in if len <s 4 then px1 else px1\<lparr>to_client := to_client px1 @ [(opcode, body, seq)]\<rparr>)"

text \<open>
  The loop over the opcodes. It does not advance at an opcode of length 0.
\<close>

partial_function (option) walk_opcodes :: "bytes \<Rightarrow> s32 \<Rightarrow> nat \<Rightarrow> proxy \<Rightarrow> (bool \<times> proxy) option" where
  "walk_opcodes payload seq index px =
     (if \<not> (index < length payload \<and> \<not> g_ShuttingDown px) then Some (True, px)
      else Option.bind (peek payload index 4) (\<lambda>h.
        let len = le_word (take 2 h) :: s16; opcode = le_word (drop 2 h) :: s16
        in if int (length payload - index) < sint len \<or> len <s 0 then Some (True, px)
           else Option.bind (HandleCustomOpcode opcode (drop (index + 4) payload) len px) (\<lambda>(consumed, px1).
             if consumed then walk_opcodes payload seq (index + unat len) px1
             else if 0 <s opcode \<and> opcode \<le> 0xFE
             then walk_opcodes payload seq (index + unat len) (forward_opcode opcode (drop (index + 4) payload) len seq px1)
             else Some (False, px1))))"

definition SendClientPacketSequence :: "bytes \<Rightarrow> s32 \<Rightarrow> proxy \<Rightarrow> (bool \<times> proxy) option" where
  "SendClientPacketSequence payload seq px =
     (if \<not> m_SectorConnection px then Some (False, px) else walk_opcodes payload seq 0 px)"

section \<open>Forwarding what is ready\<close>

definition RequestResend :: "u64 \<Rightarrow> u64 \<Rightarrow> clong \<Rightarrow> proxy \<Rightarrow> proxy" where
  "RequestResend tick start count px =
     px_emit (ResendRequest (ucast start) (ucast count)) (px\<lparr>m_PacketResendTimer := tick\<rparr>)"

text \<open>
  One stored datagram. The result is \<open>None\<close> in the first component when all chunks of a split opcode
  have to be sent again, and otherwise whether the datagram counts as processed. (The loop that
  marks the chunks compares unsigned numbers and does not end when the current number is -1.)
\<close>

definition start_reassembly :: "Datagram \<Rightarrow> nat \<Rightarrow> proxy \<Rightarrow> proxy option" where
  "start_reassembly d len px =
     map_option (\<lambda>chunk. px\<lparr>m_SplitPacketLength := int len - int (header_size px), m_SplitHeader := d,
                            m_SplitPayload := chunk, m_SplitPacketStart := m_CurrentPacketNum px\<rparr>)
       (peek (udp_payload d) 0 (header_size px))"

definition u64_range :: "u64 \<Rightarrow> u64 \<Rightarrow> u64 list" where
  "u64_range a b = map of_nat [unat a..<unat b + 1]"

definition ask_again :: "u64 \<Rightarrow> proxy \<Rightarrow> proxy" where
  "ask_again tick px =
     (let start = m_SplitPacketStart px;
          px1 = fold (\<lambda>i. put_slot i PACKET_RE_REQUESTED) (u64_range start (m_CurrentPacketNum px)) px
      in RequestResend tick start (m_CurrentPacketNum px1 - start + 1) (px1\<lparr>m_CurrentPacketNum := start\<rparr>))"

definition add_chunk :: "Datagram \<Rightarrow> proxy \<Rightarrow> proxy option" where
  "add_chunk d px =
     (let payload = m_SplitPayload px @ udp_payload d
      in if SPLIT_BUFFER_SIZE < UDP_HEADER_SIZE + length payload then None
         else Some (px\<lparr>m_SplitPayload := payload,
                       m_SplitPacketLength := m_SplitPacketLength px - int (length (udp_payload d))\<rparr>))"

definition process_packet :: "u64 \<Rightarrow> bool \<Rightarrow> Datagram \<Rightarrow> proxy \<Rightarrow> (bool option \<times> proxy) option" where
  "process_packet tick continuation d px =
     (if udp_size d \<le>s of_nat UDP_HEADER_SIZE then Some (Some True, px\<lparr>m_SplitPacketLength := 0\<rparr>)
      else if m_SplitPacketLength px = 0
      then do {
        h \<leftarrow> peek (udp_payload d) 0 2;
        let len = unat (le_word h :: s16);
        if header_size px < len \<and> len < 20000
        then map_option (\<lambda>px1. (Some True, px1)) (start_reassembly d len px)
        else if continuation then Some (Some True, px)
        else map_option (\<lambda>(ok, px1). (Some ok, px1)) (SendClientPacketSequence (udp_payload d) (packet_sequence d) px)
      }
      else do {
        px1 \<leftarrow> add_chunk d px;
        if 0 < m_SplitPacketLength px1 then Some (Some True, px1)
        else do {
          (ok, px2) \<leftarrow> SendClientPacketSequence (m_SplitPayload px1) (packet_sequence (m_SplitHeader px1)) px1;
          let px3 = px2\<lparr>m_SplitPacketLength := 0\<rparr>;
          if ok then Some (Some True, px3)
          else if m_CurrentPacketNum px3 = -1 then None
          else Some (None, ask_again tick px3)
        }
      })"

text \<open>The end of the loop body; the current number may have been changed by an opcode in the datagram.\<close>

definition finish_packet :: "bool \<Rightarrow> proxy \<Rightarrow> proxy" where
  "finish_packet ok px =
     (let px1 = px\<lparr>m_PacketTimeout := 0\<rparr>
      in if ok then (put_slot (m_CurrentPacketNum px1) PACKET_DONE px1)\<lparr>m_CurrentPacketNum := m_CurrentPacketNum px1 + 1\<rparr>
         else put_slot (m_CurrentPacketNum px1) PACKET_BLANK px1)"

definition prune :: "proxy \<Rightarrow> proxy" where
  "prune px = px\<lparr>m_Packets := dropWhile (\<lambda>(k, _). k + 64 < m_CurrentPacketNum px) (m_Packets px)\<rparr>"

partial_function (option) DrainReadyPackets :: "u64 \<Rightarrow> bool \<Rightarrow> proxy \<Rightarrow> proxy option" where
  "DrainReadyPackets tick continuation px =
     (case slot_at (m_Packets px) (m_CurrentPacketNum px) of
        Stored d \<Rightarrow>
          Option.bind (process_packet tick continuation d px) (\<lambda>(r, px1).
            case r of None \<Rightarrow> Some px1
            | Some ok \<Rightarrow> DrainReadyPackets tick continuation (finish_packet ok px1))
      | _ \<Rightarrow> Some (prune (px\<lparr>m_Packets := touch (m_CurrentPacketNum px) (m_Packets px)\<rparr>)))"

section \<open>A datagram arrives\<close>

definition reset_stream :: "proxy \<Rightarrow> proxy" where
  "reset_stream px = px\<lparr>m_CurrentPacketNum := 0, m_Packets := [], m_PacketDropThisSession := 0, m_PacketTimer := 100\<rparr>"

definition skip_packet :: "proxy \<Rightarrow> proxy" where
  "skip_packet px = px\<lparr>m_CurrentPacketNum := m_CurrentPacketNum px + 1, m_PacketTimeout := 0\<rparr>"

definition request_hole :: "u64 \<Rightarrow> proxy \<Rightarrow> proxy" where
  "request_hole tick px =
     (let px1 = RequestResend tick (m_CurrentPacketNum px) 1 (put_slot (m_CurrentPacketNum px) PACKET_RE_REQUESTED px);
          px2 = px1\<lparr>m_PacketDropThisSession := m_PacketDropThisSession px1 + 1\<rparr>
      in px2\<lparr>m_PacketTimer := (if 500 <s m_PacketDropThisSession px2 then 2000
                               else if 40 <s m_PacketDropThisSession px2 then 500 else m_PacketTimer px2)\<rparr>)"

definition SendPacketSequence :: "u64 \<Rightarrow> Datagram \<Rightarrow> bool \<Rightarrow> proxy \<Rightarrow> proxy option" where
  "SendPacketSequence tick d continuation px =
     (let seq = scast (packet_sequence d) :: clong;
          px1 = (if packet_sequence d = 0 then reset_stream px else px)
      in if \<not> m_ConnectionActive px1 then Some px1
         else if udp_size d <s 0 then None
         else
           let px2 = put_slot seq (Stored d) px1
           in if m_CurrentPacketNum px2 + 30 <s seq then Some px2
              else if m_CurrentPacketNum px2 <s seq
              then
                let px3 = px2\<lparr>m_PacketTimeout := m_PacketTimeout px2 + 1,
                              m_Packets := touch (m_CurrentPacketNum px2) (m_Packets px2)\<rparr>;
                    head = slot_at (m_Packets px3) (m_CurrentPacketNum px3)
                in if head = PACKET_BLANK
                   then Some (if 10 <s m_PacketTimeout px3 then skip_packet px3 else request_hole tick px3)
                   else if head = PACKET_RE_REQUESTED \<and> 10 <s m_PacketTimeout px3 then Some (skip_packet px3)
                   else DrainReadyPackets tick continuation px3
              else DrainReadyPackets tick continuation px2)"

text \<open>\<^verbatim>\<open>DispatchServerDatagram\<close> for the two opcodes of the stream.\<close>

definition DispatchServerDatagram :: "u64 \<Rightarrow> Datagram \<Rightarrow> proxy \<Rightarrow> proxy option" where
  "DispatchServerDatagram tick d px =
     (if unat (udp_size d - of_nat UDP_HEADER_SIZE) \<noteq> length (udp_payload d) then Some px
      else if udp_opcode d = PACKET_SEQUENCE then SendPacketSequence tick d False px
      else if udp_opcode d = PACKET_C_SEQUENCE then SendPacketSequence tick d True px
      else Some px)"

section \<open>The timer\<close>

definition PumpPacketResend :: "u64 \<Rightarrow> proxy \<Rightarrow> proxy option" where
  "PumpPacketResend tick px =
     (let cur = m_CurrentPacketNum px
      in if \<not> m_LoginComplete px \<or> \<not> m_ConnectionActive px \<or> m_Packets px = [] \<or> fst (last (m_Packets px)) \<le> cur
         then Some px
         else
           let px1 = px\<lparr>m_Packets := touch cur (m_Packets px)\<rparr>; head = slot_at (m_Packets px1) cur
           in if head \<noteq> PACKET_BLANK \<and> head \<noteq> PACKET_RE_REQUESTED then DrainReadyPackets tick False px1
              else if tick - m_PacketResendTimer px1 < PACKET_RESEND_INTERVAL_MS then Some px1
              else
                let px2 = px1\<lparr>m_PacketTimeout := m_PacketTimeout px1 + 1\<rparr>
                in if 10 <s m_PacketTimeout px2 then DrainReadyPackets tick False (skip_packet px2)
                   else
                     let count = (case find (\<lambda>(k, _). cur < k) (m_Packets px2) of Some (k, _) \<Rightarrow> k - cur | None \<Rightarrow> 1);
                         px3 = put_slot cur PACKET_RE_REQUESTED px2
                     in Some (RequestResend tick cur count (px3\<lparr>m_PacketDropThisSession := m_PacketDropThisSession px3 + 1\<rparr>)))"

end
