(* ===== verification/ReceiveProps.thy ===== *)
theory ReceiveProps
  imports ReliableReceive
begin

text \<open>
  What the proxy forwards. The opcodes of a well-formed datagram are forwarded one by one; under any
  loss, repetition and reordering the client gets the datagrams in order, each at most once, and only as
  they were sent; a hole that is filled releases everything that was waiting behind it.
\<close>

section \<open>The map of slots\<close>

lemma map_of_put: "map_of (put k v ps) = (map_of ps)(k \<mapsto> v)"
  by (induction ps) (auto simp: fun_eq_iff)

lemma slot_at_put [simp]: "slot_at (put k v ps) x = (if x = k then v else slot_at ps x)"
  by (simp add: slot_at_def map_of_put)

lemma slot_at_touch [simp]: "slot_at (touch k ps) x = slot_at ps x"
  by (simp add: touch_def)

lemma slot_at_Nil [simp]: "slot_at [] x = PACKET_BLANK"
  by (simp add: slot_at_def)

lemma fst_set_put: "fst ` set (put k v ps) = insert k (fst ` set ps)"
  by (induction k v ps rule: put.induct) (simp_all add: insert_commute)

lemma put_not_Nil [simp]: "put k v ps \<noteq> []"
  by (cases "(k, v, ps)" rule: put.cases) auto

definition keys_sorted :: "packets \<Rightarrow> bool" where
  "keys_sorted ps \<longleftrightarrow> sorted_wrt (<) (map fst ps)"

lemma keys_sorted_Nil [simp]: "keys_sorted []"
  by (simp add: keys_sorted_def)

lemma keys_sorted_put: "keys_sorted ps \<Longrightarrow> keys_sorted (put k v ps)"
proof (induction ps)
  case (Cons p ps)
  obtain a b where p: "p = (a, b)" by (cases p)
  have "keys_sorted (put k v ps)" using Cons by (simp add: keys_sorted_def)
  moreover have "\<forall>x \<in> fst ` set (put k v ps). a < x" if "a < k"
    using that Cons.prems p fst_set_put [of k v ps] by (auto simp: keys_sorted_def)
  ultimately show ?case using Cons.prems p by (auto simp: keys_sorted_def)
qed (simp add: keys_sorted_def)

lemma keys_sorted_touch: "keys_sorted ps \<Longrightarrow> keys_sorted (touch k ps)"
  by (simp add: touch_def keys_sorted_put)

text \<open>The slots that hold a datagram.\<close>

definition stored :: "packets \<Rightarrow> u64 set" where
  "stored ps = {k. \<exists>d. slot_at ps k = Stored d}"

lemma finite_stored [simp]: "finite (stored ps)"
proof (rule finite_subset)
  show "stored ps \<subseteq> fst ` set ps"
    by (auto simp: stored_def slot_at_def split: option.splits dest: map_of_SomeD) (metis fst_conv image_eqI map_of_SomeD)
qed simp

lemma slot_at_dropWhile:
  assumes "keys_sorted ps" and "slot_at (dropWhile P ps) k = Stored d"
  shows "slot_at ps k = Stored d"
  using assms
proof (induction ps)
  case (Cons p ps)
  obtain a b where p: "p = (a, b)" by (cases p)
  show ?case
  proof (cases "P p")
    case True
    have "slot_at ps k = Stored d"
      using Cons True by (simp add: keys_sorted_def)
    moreover have "k \<noteq> a"
    proof
      assume "k = a"
      have "k \<in> fst ` set ps"
        using \<open>slot_at ps k = Stored d\<close> by (auto simp: slot_at_def split: option.splits dest: map_of_SomeD) (metis fst_conv image_eqI map_of_SomeD)
      then show False using Cons.prems(1) p \<open>k = a\<close> by (auto simp: keys_sorted_def)
    qed
    ultimately show ?thesis by (simp add: p slot_at_def)
  next
    case False
    then show ?thesis using Cons.prems(2) by simp
  qed
qed simp

section \<open>The opcodes of a datagram\<close>

text \<open>Opcodes for the client, other than the handoff, which ends the stream.\<close>

definition game_opcode :: "opcode \<Rightarrow> bool" where
  "game_opcode f \<longleftrightarrow> 0 <s fst f \<and> fst f \<le> 0xFE \<and> fst f \<noteq> 0x3A \<and> length (snd f) + 4 < 2 ^ 15 \<and>
     (fst f = 0x1B \<longrightarrow> 4 \<le> length (snd f))"

definition client_opcode :: "opcode \<Rightarrow> bool" where
  "client_opcode f \<longleftrightarrow> game_opcode f \<or> fst f = 0x3A \<and> length (snd f) + 4 < 2 ^ 15"

lemma client_opcodeD:
  assumes "client_opcode f"
  shows "0 <s fst f" "fst f \<le> 0xFE" "length (snd f) + 4 < 2 ^ 15" "fst f = 0x1B \<Longrightarrow> 4 \<le> length (snd f)"
  using assms by (auto simp: client_opcode_def game_opcode_def word_sless_alt)

lemma game_client: "game_opcode f \<Longrightarrow> client_opcode f"
  by (simp add: client_opcode_def)

definition deliver :: "s32 \<Rightarrow> opcode \<Rightarrow> proxy \<Rightarrow> proxy" where
  "deliver seq f px =
     (let px1 = IncommingOpcodePreProcessing (fst f) (snd f) px
      in px1\<lparr>to_client := to_client px1 @ [(fst f, snd f, seq)]\<rparr>)"

text \<open>Everything of the proxy that forwarding an opcode leaves alone.\<close>

definition control :: "proxy \<Rightarrow> proxy" where
  "control px = px\<lparr>to_client := [], events := []\<rparr>"

lemma control_eqD:
  assumes "control px' = control px"
  shows "m_Packets px' = m_Packets px" "m_CurrentPacketNum px' = m_CurrentPacketNum px" "m_PacketTimeout px' = m_PacketTimeout px"
    "m_SplitPacketLength px' = m_SplitPacketLength px" "m_ConnectionActive px' = m_ConnectionActive px"
    "m_SectorConnection px' = m_SectorConnection px" "g_ShuttingDown px' = g_ShuttingDown px"
    "g_Packet_Opt_requested px' = g_Packet_Opt_requested px" "header_size px' = header_size px"
  using assms by (cases px; cases px'; simp add: control_def header_size_def)+

lemma deliver_control: "game_opcode f \<Longrightarrow> control (deliver seq f px) = control px"
  by (simp add: control_def deliver_def IncommingOpcodePreProcessing_def px_emit_def game_opcode_def Let_def)

lemma deliver_client: "game_opcode f \<Longrightarrow> to_client (deliver seq f px) = to_client px @ [(fst f, snd f, seq)]"
  by (simp add: deliver_def IncommingOpcodePreProcessing_def px_emit_def game_opcode_def Let_def)

lemma deliver_all:
  assumes "list_all game_opcode fs"
  shows "control (fold (deliver seq) fs px) = control px"
    and "to_client (fold (deliver seq) fs px) = to_client px @ map (\<lambda>f. (fst f, snd f, seq)) fs"
  using assms
proof (induction fs arbitrary: px)
  case (Cons f fs)
  { case 1 then show ?case using Cons.IH(1) [of "deliver seq f px"] by (simp add: deliver_control) }
  { case 2 then show ?case using Cons.IH(2) [of "deliver seq f px"] by (simp add: deliver_client) }
qed simp_all

lemma forward_opcode_deliver:
  assumes "client_opcode f"
  shows "forward_opcode (fst f) (snd f @ rest) (of_nat (length (snd f) + 4)) seq px = deliver seq f px"
proof -
  have n: "length (snd f) + 4 < 2 ^ 15" using client_opcodeD(3) [OF assms] .
  have "\<not> (of_nat (length (snd f) + 4) :: s16) <s 4"
    by (simp only: word_sless_alt sint_short_length [OF n]) simp
  then show ?thesis
    unfolding forward_opcode_def deliver_def unat_short_length [OF n] by (simp add: Let_def)
qed

lemma client_opcode_not_custom:
  assumes "client_opcode f"
  shows "HandleCustomOpcode (fst f) frame (of_nat (length (snd f) + 4)) px = Some (False, px)"
proof -
  have n: "length (snd f) + 4 < 2 ^ 15" using client_opcodeD(3) [OF assms] .
  have "\<not> (of_nat (length (snd f) + 4) :: s16) <s 8" if "fst f = 0x1B"
    using client_opcodeD(4) [OF assms that] by (simp only: word_sless_alt sint_short_length [OF n]) simp
  moreover have "fst f \<noteq> x" if "0xFE < x" for x using client_opcodeD(2) [OF assms] that by auto
  ultimately show ?thesis by (auto simp: HandleCustomOpcode_def)
qed

lemma walk_one:
  assumes "client_opcode f" and "\<not> g_ShuttingDown px"
  shows "walk_opcodes (pre @ opcode_bytes f @ rest) seq (length pre) px =
    walk_opcodes (pre @ opcode_bytes f @ rest) seq (length (pre @ opcode_bytes f)) (deliver seq f px)"
proof -
  let ?n = "length (snd f) + 4"
  have n: "?n < 2 ^ 15" and g: "0 <s fst f \<and> fst f \<le> 0xFE" using client_opcodeD(1-3) [OF assms(1)] by auto
  have head: "peek (pre @ opcode_bytes f @ rest) (length pre) 4 =
      Some (le_bytes 2 (of_nat ?n :: s16) @ le_bytes 2 (fst f))"
    by (simp add: peek_def opcode_bytes_def)
  have body: "drop 4 (opcode_bytes f) = snd f" by (simp add: opcode_bytes_def)
  have w: "le_word (le_bytes 2 v) = v" for v :: s16 by (rule le_word_le_bytes) simp
  have "\<not> int (length (pre @ opcode_bytes f @ rest) - length pre) < sint (of_nat ?n :: s16)"
    and "\<not> (of_nat ?n :: s16) <s 0"
    by (simp_all only: word_sless_alt sint_short_length [OF n]) simp_all
  then show ?thesis
    using assms(2) g
    by (subst walk_opcodes.simps)
      (simp add: head body w client_opcode_not_custom [OF assms(1)] unat_short_length [OF n]
        forward_opcode_deliver [OF assms(1)] Let_def del: of_nat_add)
qed

lemma walk_end: "walk_opcodes payload seq (length payload) px = Some (True, px)"
  by (subst walk_opcodes.simps) simp

lemma walk_clients:
  assumes "list_all client_opcode fs" and "\<not> g_ShuttingDown px"
  shows "walk_opcodes (pre @ concat (map opcode_bytes fs)) seq (length pre) px =
    Some (True, fold (deliver seq) fs px)"
  using assms
proof (induction fs arbitrary: pre px)
  case (Cons f fs)
  have "g_ShuttingDown (deliver seq f px) = g_ShuttingDown px"
    by (simp add: deliver_def IncommingOpcodePreProcessing_def px_emit_def Let_def)
  then show ?case
    using walk_one [of f px pre "concat (map opcode_bytes fs)" seq]
      Cons.IH [of "deliver seq f px" "pre @ opcode_bytes f"] Cons.prems by simp
qed (simp add: walk_end)

lemma game_clients: "list_all game_opcode fs \<Longrightarrow> list_all client_opcode fs"
  by (auto simp: list_all_iff game_client)

section \<open>Draining the stored datagrams\<close>

text \<open>
  The datagram with number \<open>n\<close> that carries the opcodes \<open>fs\<close>; without opcodes it is the blank that the
  server sends for a datagram it no longer has.
\<close>

definition stream_datagram :: "nat \<Rightarrow> opcode list \<Rightarrow> Datagram" where
  "stream_datagram n fs =
     \<lparr>udp_size = of_nat (UDP_HEADER_SIZE + length (concat (map opcode_bytes fs))), udp_opcode = PACKET_SEQUENCE,
      udp_player_id = 0, packet_sequence = of_nat n, udp_payload = concat (map opcode_bytes fs)\<rparr>"

definition fits :: "opcode list \<Rightarrow> bool" where
  "fits fs \<longleftrightarrow> list_all game_opcode fs \<and> length (concat (map opcode_bytes fs)) \<le> PERIODIC_CACHE_SEND_SIZE"

definition sent_as :: "nat \<Rightarrow> opcode list \<Rightarrow> (s16 \<times> bytes \<times> s32) list" where
  "sent_as n fs = map (\<lambda>f. (fst f, snd f, of_nat n)) fs"

definition ready :: "proxy \<Rightarrow> bool" where
  "ready px \<longleftrightarrow> m_SplitPacketLength px = 0 \<and> m_SectorConnection px \<and> m_ConnectionActive px \<and> \<not> g_ShuttingDown px"

lemma ready_control:
  assumes "control px' = control px"
  shows "ready px' = ready px"
  by (simp add: ready_def control_eqD [OF assms])

lemma stream_datagram_size:
  assumes "fits fs"
  shows "sint (udp_size (stream_datagram n fs)) = int (12 + length (concat (map opcode_bytes fs)))"
proof -
  have "12 + length (concat (map opcode_bytes fs)) < 2 ^ 15"
    using assms by (simp add: fits_def PERIODIC_CACHE_SEND_SIZE_def)
  then show ?thesis by (simp only: stream_datagram_def Datagram.simps UDP_HEADER_SIZE_def sint_short_length)
qed

lemma first_opcode_length:
  assumes "client_opcode f"
  shows "peek (opcode_bytes f @ rest) 0 2 = Some (le_bytes 2 (of_nat (length (snd f) + 4) :: s16))"
    and "unat (le_word (le_bytes 2 (of_nat (length (snd f) + 4) :: s16)) :: s16) = length (snd f) + 4"
proof -
  have n: "length (snd f) + 4 < 2 ^ 15" by (rule client_opcodeD(3) [OF assms])
  show "peek (opcode_bytes f @ rest) 0 2 = Some (le_bytes 2 (of_nat (length (snd f) + 4) :: s16))"
    by (simp add: peek_def opcode_bytes_def)
  have "le_word (le_bytes 2 v) = v" for v :: s16 by (rule le_word_le_bytes) simp
  then show "unat (le_word (le_bytes 2 (of_nat (length (snd f) + 4) :: s16)) :: s16) = length (snd f) + 4"
    using unat_short_length [OF n] by simp
qed

text \<open>A datagram of whole opcodes that is not too long to be one.\<close>

lemma process_whole:
  assumes "ready px" and "list_all client_opcode (f # fs)" and "udp_payload d = concat (map opcode_bytes (f # fs))"
    and "\<not> udp_size d \<le>s of_nat UDP_HEADER_SIZE" and "length (udp_payload d) \<le> header_size px"
  shows "process_packet tick False d px = Some (Some True, fold (deliver (packet_sequence d)) (f # fs) px)"
proof -
  have g: "client_opcode f" using assms(2) by simp
  have "\<not> header_size px < length (snd f) + 4" using assms(3,5) by simp
  moreover have "SendClientPacketSequence (udp_payload d) (packet_sequence d) px =
      Some (True, fold (deliver (packet_sequence d)) (f # fs) px)"
    using walk_clients [of "f # fs" px "[]"] assms(1-3) by (simp add: SendClientPacketSequence_def ready_def)
  ultimately show ?thesis
    using assms(1,3,4) first_opcode_length(1) [OF g, of "concat (map opcode_bytes fs)"] first_opcode_length(2) [OF g]
    by (simp add: process_packet_def ready_def Let_def del: of_nat_add)
qed

lemma process_stream_datagram:
  assumes "ready px" and "fits fs"
  shows "process_packet tick False (stream_datagram n fs) px = Some (Some True, fold (deliver (of_nat n)) fs px)"
proof (cases fs)
  case Nil
  then show ?thesis using assms
    by (simp add: process_packet_def stream_datagram_def UDP_HEADER_SIZE_def ready_def word_sle_eq)
next
  case (Cons f gs)
  have "\<not> udp_size (stream_datagram n fs) \<le>s of_nat UDP_HEADER_SIZE"
    using stream_datagram_size [OF assms(2), of n] Cons by (simp add: word_sle_eq UDP_HEADER_SIZE_def)
  moreover have "length (udp_payload (stream_datagram n fs)) \<le> header_size px"
    using assms(2) by (simp add: stream_datagram_def header_size_def fits_def PERIODIC_CACHE_SEND_SIZE_def)
  ultimately show ?thesis
    using process_whole [of px f gs "stream_datagram n fs" tick] game_client [of f] game_clients [of gs] assms Cons
    by (simp add: stream_datagram_def fits_def)
qed

lemma drain_one:
  assumes "ready px" and "fits fs" and "slot_at (m_Packets px) (m_CurrentPacketNum px) = Stored (stream_datagram n fs)"
  shows "DrainReadyPackets tick False px =
    DrainReadyPackets tick False (finish_packet True (fold (deliver (of_nat n)) fs px))"
  by (subst DrainReadyPackets.simps) (simp add: assms process_stream_datagram)

lemma drain_stop:
  assumes "\<And>d. slot_at (m_Packets px) (m_CurrentPacketNum px) \<noteq> Stored d"
  shows "DrainReadyPackets tick b px = Some (prune (px\<lparr>m_Packets := touch (m_CurrentPacketNum px) (m_Packets px)\<rparr>))"
  using assms by (subst DrainReadyPackets.simps) (auto split: slot.splits)

lemma finish_delivered:
  assumes "fits fs" and "px' = finish_packet True (fold (deliver seq) fs px)"
  shows "m_Packets px' = put (m_CurrentPacketNum px) PACKET_DONE (m_Packets px)"
    and "m_CurrentPacketNum px' = m_CurrentPacketNum px + 1"
    and "ready px' = ready px"
    and "to_client px' = to_client px @ map (\<lambda>f. (fst f, snd f, seq)) fs"
proof -
  have g: "list_all game_opcode fs" using assms(1) by (simp add: fits_def)
  note c = control_eqD [OF deliver_all(1) [OF g, of seq px]]
  show "m_Packets px' = put (m_CurrentPacketNum px) PACKET_DONE (m_Packets px)"
    and "m_CurrentPacketNum px' = m_CurrentPacketNum px + 1"
    and "to_client px' = to_client px @ map (\<lambda>f. (fst f, snd f, seq)) fs"
    by (simp_all add: assms(2) finish_packet_def put_slot_def c Let_def deliver_all(2) [OF g])
  show "ready px' = ready px"
    by (simp add: assms(2) finish_packet_def put_slot_def c Let_def ready_def)
qed

text \<open>What a drain leaves of the slots.\<close>

definition slots_from :: "packets \<Rightarrow> packets \<Rightarrow> u64 \<Rightarrow> bool" where
  "slots_from ps ps' cur \<longleftrightarrow> (\<forall>k d. slot_at ps' k = Stored d \<longrightarrow> slot_at ps k = Stored d) \<and>
     fst ` set ps' \<subseteq> insert cur (fst ` set ps)"

lemma keys_sorted_dropWhile: "keys_sorted ps \<Longrightarrow> keys_sorted (dropWhile P ps)"
  by (induction ps) (auto simp: keys_sorted_def)

lemma slots_from_prune:
  assumes "keys_sorted (m_Packets px)" and "px' = prune (px\<lparr>m_Packets := touch cur (m_Packets px)\<rparr>)"
  shows "slots_from (m_Packets px) (m_Packets px') cur \<and> keys_sorted (m_Packets px')"
proof -
  have "keys_sorted (touch cur (m_Packets px))" by (rule keys_sorted_touch [OF assms(1)])
  moreover have "set (m_Packets px') \<subseteq> set (touch cur (m_Packets px))"
    using assms(2) by (auto simp: prune_def dest: set_dropWhileD)
  then have "fst ` set (m_Packets px') \<subseteq> insert cur (fst ` set (m_Packets px))"
    by (metis fst_set_put image_mono touch_def)
  ultimately show ?thesis
    using assms(2) by (auto simp: slots_from_def prune_def keys_sorted_dropWhile dest: slot_at_dropWhile)
qed

lemma slots_from_done:
  assumes "slots_from (put k PACKET_DONE ps) ps' cur" and "k \<in> fst ` set ps"
  shows "slots_from ps ps' cur"
  using assms(1) unfolding slots_from_def fst_set_put insert_absorb [OF assms(2)] by (auto split: if_splits)

lemma drain_run:
  assumes "ready px" and "keys_sorted (m_Packets px)" and "m_CurrentPacketNum px = of_nat c" and "c + m < 2 ^ 64"
    and "\<And>n. c \<le> n \<Longrightarrow> n < c + m \<Longrightarrow> fits (G n) \<and> slot_at (m_Packets px) (of_nat n) = Stored (stream_datagram n (G n))"
    and "\<And>d. slot_at (m_Packets px) (of_nat (c + m)) \<noteq> Stored d"
  shows "\<exists>px'. DrainReadyPackets tick False px = Some px' \<and> ready px' \<and> m_CurrentPacketNum px' = of_nat (c + m) \<and>
    to_client px' = to_client px @ concat (map (\<lambda>n. sent_as n (G n)) [c..<c + m]) \<and>
    keys_sorted (m_Packets px') \<and> slots_from (m_Packets px) (m_Packets px') (of_nat (c + m))"
  using assms
proof (induction m arbitrary: c px)
  case 0
  let ?px = "prune (px\<lparr>m_Packets := touch (m_CurrentPacketNum px) (m_Packets px)\<rparr>)"
  have "DrainReadyPackets tick False px = Some ?px" using 0 by (intro drain_stop) simp
  moreover have "ready ?px = ready px" "m_CurrentPacketNum ?px = m_CurrentPacketNum px" "to_client ?px = to_client px"
    by (simp_all add: prune_def ready_def)
  ultimately show ?case using 0 slots_from_prune [OF 0(2) refl, of "m_CurrentPacketNum px"] by auto
next
  case (Suc m)
  let ?px = "finish_packet True (fold (deliver (of_nat c)) (G c) px)"
  have c: "fits (G c)" "slot_at (m_Packets px) (m_CurrentPacketNum px) = Stored (stream_datagram c (G c))"
    using Suc.prems(3) Suc.prems(5) [of c] by auto
  note f = finish_delivered [OF c(1) refl, of "of_nat c" px]
  have new: "slot_at (m_Packets ?px) (of_nat n) = slot_at (m_Packets px) (of_nat n)" if "c < n" "n \<le> c + Suc m" for n
  proof -
    have "(of_nat n :: u64) \<noteq> of_nat c"
      using that Suc.prems(4) by (simp add: word_of_nat_eq_iff take_bit_nat_eq_self)
    then show ?thesis using Suc.prems(3) by (simp add: f(1))
  qed
  have r: "ready ?px" and k: "keys_sorted (m_Packets ?px)" and n: "m_CurrentPacketNum ?px = of_nat (Suc c)"
    using Suc.prems(1-3) by (simp_all add: f keys_sorted_put)
  have bound: "Suc c + m < 2 ^ 64" using Suc.prems(4) by simp
  have stop: "slot_at (m_Packets ?px) (of_nat (Suc c + m)) \<noteq> Stored d" for d
    using new [of "Suc c + m"] Suc.prems(6) [of d] by (simp only: add_Suc_right add_Suc) simp
  have stored: "fits (G i) \<and> slot_at (m_Packets ?px) (of_nat i) = Stored (stream_datagram i (G i))"
    if "Suc c \<le> i" "i < Suc c + m" for i
    using new [of i] Suc.prems(5) [of i] that by simp
  obtain px' where px': "DrainReadyPackets tick False ?px = Some px'" "ready px'" "m_CurrentPacketNum px' = of_nat (Suc c + m)"
    "to_client px' = to_client ?px @ concat (map (\<lambda>n. sent_as n (G n)) [Suc c..<Suc c + m])"
    "keys_sorted (m_Packets px')" "slots_from (m_Packets ?px) (m_Packets px') (of_nat (Suc c + m))"
    using Suc.IH [OF r k n bound stored stop] by blast
  have "m_CurrentPacketNum px \<in> fst ` set (m_Packets px)"
    using c(2) by (auto simp: slot_at_def split: option.splits dest!: map_of_SomeD intro: rev_image_eqI)
  then have "slots_from (m_Packets px) (m_Packets px') (of_nat (c + Suc m))"
    using px'(6) slots_from_done by (simp add: f(1) add.assoc)
  moreover have "to_client px' = to_client px @ concat (map (\<lambda>n. sent_as n (G n)) [c..<c + Suc m])"
    using px'(4) upt_conv_Cons [of c "c + Suc m"] by (simp add: f(4) sent_as_def del: upt_Suc)
  ultimately show ?case using px' drain_one [OF Suc.prems(1) c] by auto
qed

end
