(* ===== verification/StreamProps.thy ===== *)
theory StreamProps
  imports ReceiveProps
begin

text \<open>
  What the receiving side of the stream promises when the network loses, repeats and reorders datagrams:
  an invariant of the proxy over all runs of arrivals and timer ticks, and the recovery of a hole.
\<close>

section \<open>The invariant\<close>

text \<open>
  The server's datagram with number \<open>n\<close> carries the opcodes \<open>F n\<close>. The slots hold only datagrams as they
  were sent, or blanks; what was delivered, after \<open>B\<close>, which came before the last reset of the stream, are
  the datagrams of increasing numbers below the current one.
\<close>

definition MAX_SEQUENCE :: nat where "MAX_SEQUENCE = 2 ^ 31"

definition slots_ok :: "(nat \<Rightarrow> opcode list) \<Rightarrow> packets \<Rightarrow> bool" where
  "slots_ok F ps \<longleftrightarrow> keys_sorted ps \<and> (\<forall>k \<in> fst ` set ps. unat k \<le> MAX_SEQUENCE) \<and>
     (\<forall>k d. slot_at ps k = Stored d \<longrightarrow>
        (\<exists>n < MAX_SEQUENCE. k = of_nat n \<and> (d = stream_datagram n (F n) \<or> d = stream_datagram n [])))"

definition delivered_below :: "(nat \<Rightarrow> opcode list) \<Rightarrow> (s16 \<times> bytes \<times> s32) list \<Rightarrow> nat \<Rightarrow> (s16 \<times> bytes \<times> s32) list \<Rightarrow> bool" where
  "delivered_below F B c sent \<longleftrightarrow>
     (\<exists>ns. sorted_wrt (<) ns \<and> (\<forall>n \<in> set ns. n < c) \<and> sent = B @ concat (map (\<lambda>n. sent_as n (F n)) ns))"

definition stream_inv :: "(nat \<Rightarrow> opcode list) \<Rightarrow> (s16 \<times> bytes \<times> s32) list \<Rightarrow> nat \<Rightarrow> proxy \<Rightarrow> bool" where
  "stream_inv F B c px \<longleftrightarrow> ready px \<and> slots_ok F (m_Packets px) \<and> m_CurrentPacketNum px = of_nat c \<and> c \<le> MAX_SEQUENCE \<and>
     delivered_below F B c (to_client px)"

lemma stream_key:
  assumes "n \<le> MAX_SEQUENCE"
  shows "unat (of_nat n :: u64) = n"
  using assms by (simp add: unat_of_nat MAX_SEQUENCE_def)

lemma slots_ok_Nil [simp]: "slots_ok F []"
  by (simp add: slots_ok_def keys_sorted_def)

lemma slots_okD:
  "slots_ok F ps \<Longrightarrow> slot_at ps k = Stored d \<Longrightarrow>
   \<exists>n < MAX_SEQUENCE. k = of_nat n \<and> (d = stream_datagram n (F n) \<or> d = stream_datagram n [])"
  by (simp add: slots_ok_def)

lemma slots_ok_key: "slots_ok F ps \<Longrightarrow> k \<in> fst ` set ps \<Longrightarrow> unat k \<le> MAX_SEQUENCE"
  unfolding slots_ok_def by blast

lemma slots_ok_mark:
  assumes "slots_ok F ps" and "unat k \<le> MAX_SEQUENCE" and "\<And>d. v \<noteq> Stored d"
  shows "slots_ok F (put k v ps)"
  using assms by (simp add: slots_ok_def keys_sorted_put fst_set_put)

lemma slots_ok_touch:
  assumes "slots_ok F ps" and "unat k \<le> MAX_SEQUENCE"
  shows "slots_ok F (touch k ps)"
  using assms unfolding touch_def slots_ok_def by (simp add: keys_sorted_put fst_set_put)

lemma slots_ok_store:
  assumes "slots_ok F ps" and "n < MAX_SEQUENCE" and "fs = F n \<or> fs = []"
  shows "slots_ok F (put (of_nat n) (Stored (stream_datagram n fs)) ps)"
  using assms stream_key [of n] by (auto simp: slots_ok_def keys_sorted_put fst_set_put)

lemma slots_ok_from:
  assumes "slots_ok F ps" and "slots_from ps ps' cur" and "keys_sorted ps'" and "unat cur \<le> MAX_SEQUENCE"
  shows "slots_ok F ps'"
proof -
  have "fst ` set ps' \<subseteq> insert cur (fst ` set ps)" using assms(2) by (simp only: slots_from_def)
  then have "k = cur \<or> k \<in> fst ` set ps" if "k \<in> fst ` set ps'" for k using that by blast
  then have "unat k \<le> MAX_SEQUENCE" if "k \<in> fst ` set ps'" for k
    using that assms(4) slots_ok_key [OF assms(1), of k] by metis
  then have keys: "\<forall>k \<in> fst ` set ps'. unat k \<le> MAX_SEQUENCE" by (rule ballI)
  have "slot_at ps k = Stored d" if "slot_at ps' k = Stored d" for k d
    using assms(2) that by (simp add: slots_from_def)
  then have "\<forall>k d. slot_at ps' k = Stored d \<longrightarrow>
      (\<exists>n < MAX_SEQUENCE. k = of_nat n \<and> (d = stream_datagram n (F n) \<or> d = stream_datagram n []))"
    using slots_okD [OF assms(1)] by simp
  with assms(3) keys show ?thesis unfolding slots_ok_def by (intro conjI)
qed

lemma delivered_below_mono: "delivered_below F B c sent \<Longrightarrow> c \<le> c' \<Longrightarrow> delivered_below F B c' sent"
  unfolding delivered_below_def by (elim exE) (rule exI, force)

lemma delivered_below_append:
  assumes "delivered_below F B c sent" and "sorted_wrt (<) ms" and "\<forall>n \<in> set ms. c \<le> n \<and> n < c'" and "c \<le> c'"
  shows "delivered_below F B c' (sent @ concat (map (\<lambda>n. sent_as n (F n)) ms))"
proof -
  obtain ns where ns: "sorted_wrt (<) ns" "\<forall>n \<in> set ns. n < c" "sent = B @ concat (map (\<lambda>n. sent_as n (F n)) ns)"
    using assms(1) by (auto simp: delivered_below_def)
  have "sorted_wrt (<) (ns @ ms)" using ns assms by (fastforce simp: sorted_wrt_append)
  moreover have "\<forall>n \<in> set (ns @ ms). n < c'" using ns assms by auto
  ultimately show ?thesis unfolding delivered_below_def using ns(3) by (intro exI [of _ "ns @ ms"]) simp
qed

lemma concat_blanks:
  assumes "\<And>n. n \<in> set ms \<Longrightarrow> G n = F n \<or> G n = []"
  shows "concat (map (\<lambda>n. sent_as n (G n)) ms) = concat (map (\<lambda>n. sent_as n (F n)) (filter (\<lambda>n. G n = F n) ms))"
  using assms by (induction ms) (auto simp: sent_as_def)

lemma drain_keeps:
  assumes inv: "stream_inv F B c px" and fits: "\<And>n. fits (F n)"
  shows "\<exists>px' c'. DrainReadyPackets tick False px = Some px' \<and> stream_inv F B c' px'"
proof -
  let ?stored = "\<lambda>n. \<exists>d. slot_at (m_Packets px) (of_nat n) = Stored d"
  have i: "ready px" "slots_ok F (m_Packets px)" "m_CurrentPacketNum px = of_nat c" "c \<le> MAX_SEQUENCE"
    "delivered_below F B c (to_client px)" using inv by (auto simp: stream_inv_def)
  have key: "n < MAX_SEQUENCE \<and> (\<exists>fs. slot_at (m_Packets px) (of_nat n) = Stored (stream_datagram n fs) \<and> (fs = F n \<or> fs = []))"
    if st: "?stored n" and n: "n \<le> MAX_SEQUENCE" for n
  proof -
    obtain j d where j: "j < MAX_SEQUENCE" "of_nat n = (of_nat j :: u64)" "slot_at (m_Packets px) (of_nat n) = Stored d"
      "d = stream_datagram j (F j) \<or> d = stream_datagram j []"
      using st slots_okD [OF i(2)] by meson
    have "unat (of_nat n :: u64) = unat (of_nat j :: u64)" using j(2) by (rule arg_cong)
    then have "n = j" unfolding stream_key [OF n] stream_key [OF less_imp_le, OF j(1)] .
    then show ?thesis using j(1,3,4) by blast
  qed
  have ex: "\<not> ?stored (c + (MAX_SEQUENCE - c))" using key [of "MAX_SEQUENCE"] i(4) by auto
  define m where "m = (LEAST m. \<not> ?stored (c + m))"
  have stop: "\<not> ?stored (c + m)" unfolding m_def using ex by (rule LeastI)
  have m: "c + m \<le> MAX_SEQUENCE" unfolding m_def using Least_le [of "\<lambda>m. \<not> ?stored (c + m)", OF ex] i(4) by simp
  define G where "G n = (if slot_at (m_Packets px) (of_nat n) = Stored (stream_datagram n (F n)) then F n else [])" for n
  have blanks: "G n = F n \<or> G n = []" for n by (simp add: G_def)
  have G: "fits (G n) \<and> slot_at (m_Packets px) (of_nat n) = Stored (stream_datagram n (G n))"
    if "c \<le> n" "n < c + m" for n
  proof -
    have "?stored n" using not_less_Least [of "n - c" "\<lambda>m. \<not> ?stored (c + m)"] that by (auto simp: m_def)
    then show ?thesis using key [of n] that m fits by (auto simp: G_def fits_def)
  qed
  have m64: "c + m < 2 ^ 64" using m by (simp add: MAX_SEQUENCE_def)
  have sorted: "keys_sorted (m_Packets px)" using i(2) by (simp add: slots_ok_def)
  obtain px' where px': "DrainReadyPackets tick False px = Some px'" "ready px'" "m_CurrentPacketNum px' = of_nat (c + m)"
    "to_client px' = to_client px @ concat (map (\<lambda>n. sent_as n (G n)) [c..<c + m])"
    "keys_sorted (m_Packets px')" "slots_from (m_Packets px) (m_Packets px') (of_nat (c + m))"
    using drain_run [OF i(1) sorted i(3) m64 G, of tick] stop by blast
  have "slots_ok F (m_Packets px')"
    using slots_ok_from [OF i(2) px'(6) px'(5)] stream_key [OF m] m by simp
  moreover have "delivered_below F B (c + m) (to_client px')"
    unfolding px'(4) concat_blanks [OF blanks]
    by (rule delivered_below_append [OF i(5)]) (auto simp: sorted_wrt_filter)
  ultimately have "stream_inv F B (c + m) px'"
    using px'(2,3) m by (simp add: stream_inv_def del: of_nat_add)
  with px'(1) show ?thesis by blast
qed

section \<open>Arrivals and the timer keep the invariant\<close>

lemma stream_key_less:
  assumes "n \<le> MAX_SEQUENCE + 30" and "c \<le> MAX_SEQUENCE + 30"
  shows "(of_nat n :: u64) <s of_nat c \<longleftrightarrow> n < c"
  using assms by (simp add: word_sless_alt signed_of_nat signed_take_bit_int_eq_self MAX_SEQUENCE_def)

lemma stream_seq:
  assumes "n < MAX_SEQUENCE"
  shows "scast (of_nat n :: s32) = (of_nat n :: u64)" and "(of_nat n :: s32) = 0 \<longleftrightarrow> n = 0"
proof -
  have "sint (of_nat n :: s32) = int n"
    using assms by (simp add: signed_of_nat signed_take_bit_int_eq_self MAX_SEQUENCE_def)
  then show "scast (of_nat n :: s32) = (of_nat n :: u64)" by (simp add: scast_eq)
  have "unat (of_nat n :: s32) = n" using assms by (simp add: unat_of_nat MAX_SEQUENCE_def)
  then show "(of_nat n :: s32) = 0 \<longleftrightarrow> n = 0" using unsigned_eq_0_iff [of "of_nat n :: s32", where ?'a = nat] by simp
qed

lemma inv_head_key: "stream_inv F B c px \<Longrightarrow> unat (m_CurrentPacketNum px) \<le> MAX_SEQUENCE"
  by (auto simp: stream_inv_def stream_key)

lemma inv_reset: "stream_inv F B c px \<Longrightarrow> stream_inv F (to_client px) 0 (reset_stream px)"
  by (auto simp: stream_inv_def reset_stream_def ready_def delivered_below_def intro: exI [of _ "[]"])

lemma inv_timeout: "stream_inv F B c px \<Longrightarrow> stream_inv F B c (px\<lparr>m_PacketTimeout := t\<rparr>)"
  by (simp add: stream_inv_def ready_def)

lemma inv_store:
  assumes "stream_inv F B c px" and "n < MAX_SEQUENCE" and "fs = F n \<or> fs = []"
  shows "stream_inv F B c (put_slot (of_nat n) (Stored (stream_datagram n fs)) px)"
  using assms slots_ok_store [of F "m_Packets px" n fs] by (simp add: stream_inv_def ready_def put_slot_def)

lemma inv_touch: "stream_inv F B c px \<Longrightarrow> stream_inv F B c (px\<lparr>m_Packets := touch (m_CurrentPacketNum px) (m_Packets px)\<rparr>)"
  using inv_head_key [of F B c px] by (simp add: stream_inv_def ready_def slots_ok_touch)

lemma inv_mark: "stream_inv F B c px \<Longrightarrow> stream_inv F B c (put_slot (m_CurrentPacketNum px) PACKET_RE_REQUESTED px)"
  using inv_head_key [of F B c px] by (simp add: stream_inv_def ready_def put_slot_def slots_ok_mark)

lemma inv_request:
  "stream_inv F B c px \<Longrightarrow> stream_inv F B c ((RequestResend tick start count px)\<lparr>m_PacketDropThisSession := n\<rparr>)"
  by (simp add: stream_inv_def ready_def RequestResend_def px_emit_def)

lemma inv_hole: "stream_inv F B c px \<Longrightarrow> stream_inv F B c (request_hole tick px)"
  using inv_request [OF inv_mark, of F B c px] 
  by (simp add: stream_inv_def ready_def request_hole_def RequestResend_def put_slot_def px_emit_def Let_def)

lemma inv_skip: "stream_inv F B c px \<Longrightarrow> c < MAX_SEQUENCE \<Longrightarrow> stream_inv F B (Suc c) (skip_packet px)"
  using delivered_below_mono [of F B c "to_client px" "Suc c"]
  by (simp add: stream_inv_def ready_def skip_packet_def)

lemma dispatch_stream_datagram:
  assumes "fits fs"
  shows "DispatchServerDatagram tick (stream_datagram n fs) px = SendPacketSequence tick (stream_datagram n fs) False px"
proof -
  have "12 + length (concat (map opcode_bytes fs)) < 2 ^ 15"
    using assms by (simp add: fits_def PERIODIC_CACHE_SEND_SIZE_def)
  then have "length (concat (map opcode_bytes fs)) < 2 ^ 15" by linarith
  then show ?thesis
    by (simp add: DispatchServerDatagram_def stream_datagram_def UDP_HEADER_SIZE_def unat_short_length)
qed

lemma dispatch_eq:
  assumes fits: "fits fs" and n: "n < MAX_SEQUENCE" and c: "c \<le> MAX_SEQUENCE"
    and px1: "px1 = (if n = 0 then reset_stream px else px)" "m_CurrentPacketNum px1 = of_nat c" "m_ConnectionActive px1"
    and px2: "px2 = put_slot (of_nat n) (Stored (stream_datagram n fs)) px1"
    and px3: "px3 = px2\<lparr>m_PacketTimeout := m_PacketTimeout px2 + 1, m_Packets := touch (m_CurrentPacketNum px2) (m_Packets px2)\<rparr>"
  shows "DispatchServerDatagram tick (stream_datagram n fs) px =
    (if c + 30 < n then Some px2
     else if c < n then
       (if slot_at (m_Packets px3) (m_CurrentPacketNum px3) = PACKET_BLANK
        then Some (if 10 <s m_PacketTimeout px3 then skip_packet px3 else request_hole tick px3)
        else if slot_at (m_Packets px3) (m_CurrentPacketNum px3) = PACKET_RE_REQUESTED \<and> 10 <s m_PacketTimeout px3
        then Some (skip_packet px3) else DrainReadyPackets tick False px3)
     else DrainReadyPackets tick False px2)"
proof -
  have seq: "packet_sequence (stream_datagram n fs) = of_nat n" by (simp add: stream_datagram_def)
  have cur: "m_CurrentPacketNum px2 = of_nat c" using px1 px2 by (simp add: put_slot_def)
  have far: "m_CurrentPacketNum px2 + 30 <s (of_nat n :: u64) \<longleftrightarrow> c + 30 < n"
    using stream_key_less [of "c + 30" n] cur n c by (simp add: add.commute)
  have ahead: "m_CurrentPacketNum px2 <s (of_nat n :: u64) \<longleftrightarrow> c < n"
    using stream_key_less [of c n] cur n c by simp
  have "\<not> udp_size (stream_datagram n fs) <s 0"
    using stream_datagram_size [OF fits, of n] by (simp add: word_sless_alt)
  then show ?thesis
    unfolding dispatch_stream_datagram [OF fits] SendPacketSequence_def Let_def seq stream_seq [OF n]
      px1(1) [symmetric] px2 [symmetric] px3 [symmetric] far ahead
    using px1(3) by simp
qed

lemma arrival_keeps:
  assumes inv: "stream_inv F B c px" and fits: "\<And>n. fits (F n)" and n: "n < MAX_SEQUENCE" "fs = F n \<or> fs = []"
  shows "\<exists>px' c'. DispatchServerDatagram tick (stream_datagram n fs) px = Some px' \<and>
    stream_inv F (if n = 0 then to_client px else B) c' px'"
proof -
  define B1 where "B1 = (if n = 0 then to_client px else B)"
  define c1 where "c1 = (if n = 0 then 0 else c)"
  have fs: "fits fs" using n(2) fits by (auto simp: fits_def)
  define px1 where "px1 = (if n = 0 then reset_stream px else px)"
  define px2 where "px2 = put_slot (of_nat n) (Stored (stream_datagram n fs)) px1"
  define px3 where "px3 = px2\<lparr>m_PacketTimeout := m_PacketTimeout px2 + 1, m_Packets := touch (m_CurrentPacketNum px2) (m_Packets px2)\<rparr>"
  have inv1: "stream_inv F B1 c1 px1" using inv inv_reset [OF inv] by (simp add: px1_def B1_def c1_def)
  have inv2: "stream_inv F B1 c1 px2" unfolding px2_def by (rule inv_store [OF inv1 n])
  have inv3: "stream_inv F B1 c1 px3"
    using inv_timeout [OF inv_touch [OF inv2], of "m_PacketTimeout px2 + 1"] by (cases px2) (simp add: px3_def)
  have cur: "m_CurrentPacketNum px1 = of_nat c1" "c1 \<le> MAX_SEQUENCE" and active: "m_ConnectionActive px1"
    using inv1 unfolding stream_inv_def ready_def by blast+
  have skip: "\<exists>c'. stream_inv F B1 c' (skip_packet px3)" if "c1 < n"
    using inv_skip [OF inv3] that n(1) by (meson order.strict_trans)
  show ?thesis unfolding B1_def [symmetric] dispatch_eq [OF fs n(1) cur(2) px1_def cur(1) active px2_def px3_def]
    using inv2 drain_keeps [OF inv2 fits, of tick] drain_keeps [OF inv3 fits, of tick] skip inv_hole [OF inv3, of tick]
    by (simp split: if_split) blast
qed

lemma last_key_in: "ps \<noteq> [] \<Longrightarrow> fst (last ps) \<in> fst ` set ps"
  by simp

lemma pump_keeps:
  assumes inv: "stream_inv F B c px" and fits: "\<And>n. fits (F n)"
  shows "\<exists>px' c'. PumpPacketResend tick px = Some px' \<and> stream_inv F B c' px'"
proof (cases "\<not> m_LoginComplete px \<or> \<not> m_ConnectionActive px \<or> m_Packets px = [] \<or> fst (last (m_Packets px)) \<le> m_CurrentPacketNum px")
  case True
  then have "PumpPacketResend tick px = Some px" by (simp add: PumpPacketResend_def)
  then show ?thesis using inv by blast
next
  case False
  define px1 where "px1 = px\<lparr>m_Packets := touch (m_CurrentPacketNum px) (m_Packets px)\<rparr>"
  define px2 where "px2 = px1\<lparr>m_PacketTimeout := m_PacketTimeout px1 + 1\<rparr>"
  have inv1: "stream_inv F B c px1" unfolding px1_def by (rule inv_touch [OF inv])
  have inv2: "stream_inv F B c px2" unfolding px2_def by (rule inv_timeout [OF inv1])
  have cur: "m_CurrentPacketNum px2 = m_CurrentPacketNum px" by (simp add: px1_def px2_def)
  have "unat (m_CurrentPacketNum px) < unat (fst (last (m_Packets px)))" using False by (simp add: word_le_nat_alt)
  also have "\<dots> \<le> MAX_SEQUENCE"
    using slots_ok_key [OF _ last_key_in] inv False by (auto simp: stream_inv_def)
  finally have "c < MAX_SEQUENCE" using inv stream_key [of c] by (simp add: stream_inv_def)
  then have inv4: "stream_inv F B (Suc c) (skip_packet px2)" by (rule inv_skip [OF inv2])
  let ?mark = "put_slot (m_CurrentPacketNum px) PACKET_RE_REQUESTED px2"
  let ?ask = "\<lambda>count. (RequestResend tick (m_CurrentPacketNum px) count ?mark)"
  have inv5: "stream_inv F B c (?ask k\<lparr>m_PacketDropThisSession := n\<rparr>)" for k n
    using inv_request [OF inv_mark [OF inv2]] by (simp add: cur)
  have ask: "RequestResend tick s k (p\<lparr>m_PacketDropThisSession := n\<rparr>) = (RequestResend tick s k p)\<lparr>m_PacketDropThisSession := n\<rparr>"
    for s k p n by (simp add: RequestResend_def px_emit_def)
  have "\<exists>k n. PumpPacketResend tick px \<in> {DrainReadyPackets tick False px1, Some px1,
      DrainReadyPackets tick False (skip_packet px2), Some (?ask k\<lparr>m_PacketDropThisSession := n\<rparr>)}"
    using False unfolding PumpPacketResend_def Let_def px1_def [symmetric] px2_def [symmetric] ask
    by (simp split: if_split) blast
  then show ?thesis
    using drain_keeps [OF inv1 fits, of tick] drain_keeps [OF inv4 fits, of tick] inv1 inv5 by (elim exE) auto
qed

section \<open>Runs\<close>

text \<open>
  The network delivers any of the server's datagrams, as it was sent or blank, as often as it likes and in any
  order, and the timer ticks. Every event tells whether it starts the stream again: that is what datagram 0 does
  when the proxy waits for another number; a run counts these.
\<close>

inductive stream_event :: "(nat \<Rightarrow> opcode list) \<Rightarrow> proxy \<Rightarrow> bool \<Rightarrow> proxy \<Rightarrow> bool" for F where
  Arrives: "n < MAX_SEQUENCE \<Longrightarrow> fs = F n \<or> fs = [] \<Longrightarrow>
     DispatchServerDatagram tick (stream_datagram n fs) px = Some px' \<Longrightarrow>
     stream_event F px (n = 0 \<and> m_CurrentPacketNum px \<noteq> 0) px'"
| Ticks: "PumpPacketResend tick px = Some px' \<Longrightarrow> stream_event F px False px'"

inductive stream_run :: "(nat \<Rightarrow> opcode list) \<Rightarrow> proxy \<Rightarrow> nat \<Rightarrow> proxy \<Rightarrow> bool" for F px0 where
  Start: "stream_run F px0 0 px0"
| Step: "stream_run F px0 k px \<Longrightarrow> stream_event F px again px' \<Longrightarrow> stream_run F px0 (if again then Suc k else k) px'"

definition fresh :: "proxy \<Rightarrow> bool" where
  "fresh px \<longleftrightarrow> ready px \<and> m_Packets px = [] \<and> m_CurrentPacketNum px = 0 \<and> to_client px = []"

lemma fresh_inv: "fresh px \<Longrightarrow> stream_inv F [] 0 px"
  by (auto simp: fresh_def stream_inv_def delivered_below_def intro: exI [of _ "[]"])

lemma head_zero:
  assumes "stream_inv F B c px" and "m_CurrentPacketNum px = 0"
  shows "to_client px = B"
proof -
  have "c = 0" using assms stream_key [of c] by (simp add: stream_inv_def)
  then show ?thesis using assms(1) by (auto simp: stream_inv_def delivered_below_def)
qed

text \<open>What the client got in rounds, one more than the times the stream was started again.\<close>

definition in_rounds :: "(nat \<Rightarrow> opcode list) \<Rightarrow> nat \<Rightarrow> (s16 \<times> bytes \<times> s32) list \<Rightarrow> bool" where
  "in_rounds F k sent \<longleftrightarrow> (\<exists>rs. length rs = k \<and> (\<forall>ns \<in> set rs. sorted_wrt (<) ns) \<and>
     sent = concat (map (\<lambda>ns. concat (map (\<lambda>n. sent_as n (F n)) ns)) rs))"

lemma in_rounds_more:
  assumes "in_rounds F k B" and "delivered_below F B c sent"
  shows "in_rounds F (Suc k) sent"
proof -
  obtain rs ns where "length rs = k" "\<forall>ns \<in> set rs. sorted_wrt (<) ns"
      "B = concat (map (\<lambda>ns. concat (map (\<lambda>n. sent_as n (F n)) ns)) rs)"
      "sorted_wrt (<) ns" "sent = B @ concat (map (\<lambda>n. sent_as n (F n)) ns)"
    using assms by (auto simp: in_rounds_def delivered_below_def)
  then show ?thesis unfolding in_rounds_def by (intro exI [of _ "rs @ [ns]"]) auto
qed

lemma run_inv:
  assumes "stream_run F px0 k px" and "fresh px0" and "\<And>n. fits (F n)"
  shows "\<exists>B c. stream_inv F B c px \<and> in_rounds F k B"
  using assms(1)
proof induction
  case Start
  have "in_rounds F 0 []" by (simp add: in_rounds_def)
  then show ?case using fresh_inv assms(2) by blast
next
  case (Step k px again px')
  then obtain B c where c: "stream_inv F B c px" and B: "in_rounds F k B" by blast
  have more: "in_rounds F (Suc k) (to_client px)"
    using c unfolding stream_inv_def by (elim conjE) (rule in_rounds_more [OF B])
  show ?case using Step(2)
  proof cases
    case (Arrives n fs tick)
    obtain c' where c': "stream_inv F (if n = 0 then to_client px else B) c' px'"
      using arrival_keeps [OF c assms(3) Arrives(2,3), of tick] Arrives(4) by auto
    have "in_rounds F (if again then Suc k else k) (if n = 0 then to_client px else B)"
      using B more head_zero [OF c] Arrives(1) by auto
    then show ?thesis using c' by blast
  next
    case (Ticks tick)
    then show ?thesis using pump_keeps [OF c assms(3), of tick] B by auto
  qed
qed

section \<open>Properties\<close>

text \<open>C2: in order, at most once, and only as sent. However the network loses, repeats and reorders the
  datagrams of the stream, what the client has received at any time are the opcodes of some of the
  server's datagrams, each of them complete, in increasing order of their numbers; when datagram 0
  starts the stream again, \<open>k\<close> times so far, the order begins anew, so there are \<open>k + 1\<close> such sequences one after the other.
  (For a stream of datagrams of whole opcodes from 1 to 0xFE other than the handoff: no split opcodes,
  which lose opcodes under reordering, and no opcodes for the proxy itself.)\<close>

theorem delivered_in_order:
  assumes "stream_run F px0 k px" and "fresh px0" and "\<And>n. fits (F n)"
  shows "\<exists>rs. length rs = Suc k \<and> (\<forall>ns \<in> set rs. sorted_wrt (<) ns) \<and>
    to_client px = concat (map (\<lambda>ns. concat (map (\<lambda>n. sent_as n (F n)) ns)) rs)"
  using run_inv [OF assms] in_rounds_more by (fastforce simp: stream_inv_def in_rounds_def)

definition fresh_proxy :: proxy where
  "fresh_proxy = \<lparr>m_Packets = [], m_CurrentPacketNum = 0, m_PacketTimeout = 0, m_PacketDropThisSession = 0,
     m_PacketTimer = 100, m_PacketResendTimer = 0, m_SplitPacketLength = 0, m_SplitPacketStart = 0,
     m_SplitHeader = \<lparr>udp_size = 0, udp_opcode = 0, udp_player_id = 0, packet_sequence = 0, udp_payload = []\<rparr>,
     m_SplitPayload = [], m_ConnectionActive = True, m_LoginComplete = True, m_SectorConnection = True,
     g_ShuttingDown = False, g_Packet_Opt_requested = False, to_client = [], events = []\<rparr>"

lemma fresh_fresh_proxy: "fresh fresh_proxy"
  by (simp add: fresh_def fresh_proxy_def ready_def)

text \<open>One opcode in each of the datagrams 0, 1 and 2.\<close>

definition hello :: "nat \<Rightarrow> opcode list" where
  "hello n = (if n \<le> 2 then [(0x20, [of_nat n])] else [])"

lemma fits_hello: "fits (hello n)"
  by (simp add: fits_def hello_def game_opcode_def PERIODIC_CACHE_SEND_SIZE_def word_sless_alt)

text \<open>A run in which datagram 2 overtakes datagram 1 and datagram 0 is repeated at the end.\<close>

lemma hello_arrives:
  assumes "stream_run hello fresh_proxy k px" and "n < MAX_SEQUENCE"
  obtains px' where "DispatchServerDatagram tick (stream_datagram n (hello n)) px = Some px'"
    "stream_run hello fresh_proxy (if n = 0 \<and> m_CurrentPacketNum px \<noteq> 0 then Suc k else k) px'"
proof -
  obtain B c where "stream_inv hello B c px" using run_inv [OF assms(1) fresh_fresh_proxy fits_hello] by blast
  then obtain px' where px': "DispatchServerDatagram tick (stream_datagram n (hello n)) px = Some px'"
    using arrival_keeps [where F = hello and n = n and fs = "hello n" and tick = tick, OF _ fits_hello assms(2)] by blast
  show thesis by (rule that [OF px']) (rule Step [OF assms(1)], rule Arrives [OF assms(2) _ px'], simp)
qed

lemma small_sequence: "0 < MAX_SEQUENCE" "1 < MAX_SEQUENCE" "2 < MAX_SEQUENCE"
  by (simp_all add: MAX_SEQUENCE_def)

theorem delivered_in_order_witness:
  "\<exists>px1 px2 px3 px4 k. DispatchServerDatagram 5 (stream_datagram 0 (hello 0)) fresh_proxy = Some px1 \<and>
     DispatchServerDatagram 6 (stream_datagram 2 (hello 2)) px1 = Some px2 \<and>
     DispatchServerDatagram 7 (stream_datagram 1 (hello 1)) px2 = Some px3 \<and>
     DispatchServerDatagram 8 (stream_datagram 0 (hello 0)) px3 = Some px4 \<and>
     (\<exists>rs. length rs = Suc k \<and> (\<forall>ns \<in> set rs. sorted_wrt (<) ns) \<and>
        to_client px4 = concat (map (\<lambda>ns. concat (map (\<lambda>n. sent_as n (hello n)) ns)) rs))"
proof -
  obtain px1 k1 where 1: "DispatchServerDatagram 5 (stream_datagram 0 (hello 0)) fresh_proxy = Some px1"
    "stream_run hello fresh_proxy k1 px1" by (rule hello_arrives [OF Start small_sequence(1)]) blast
  obtain px2 k2 where 2: "DispatchServerDatagram 6 (stream_datagram 2 (hello 2)) px1 = Some px2"
    "stream_run hello fresh_proxy k2 px2" by (rule hello_arrives [OF 1(2) small_sequence(3)]) blast
  obtain px3 k3 where 3: "DispatchServerDatagram 7 (stream_datagram 1 (hello 1)) px2 = Some px3"
    "stream_run hello fresh_proxy k3 px3" by (rule hello_arrives [OF 2(2) small_sequence(2)]) blast
  obtain px4 k4 where 4: "DispatchServerDatagram 8 (stream_datagram 0 (hello 0)) px3 = Some px4"
    "stream_run hello fresh_proxy k4 px4" by (rule hello_arrives [OF 3(2) small_sequence(1)]) blast
  from 1(1) 2(1) 3(1) 4(1) delivered_in_order [OF 4(2) fresh_fresh_proxy fits_hello] show ?thesis by blast
qed

text \<open>C10: every arrival of such a datagram is dealt with. In any state that a run reaches, the handler of a
  datagram of whole opcodes (at most 512 bytes of them, none for the proxy itself, no handoff, no split opcode) returns, for
  every number, 0 included, and whether the datagram is whole or blank; it reads outside no buffer and its loops end.
  (An opcode of length 0 makes the loop over the opcodes run for ever; the server does not form one.)\<close>

theorem arrival_returns:
  assumes "stream_run F px0 k px" and "fresh px0" and "\<And>n. fits (F n)" and "n < MAX_SEQUENCE" and "fs = F n \<or> fs = []"
  shows "\<exists>px'. DispatchServerDatagram tick (stream_datagram n fs) px = Some px'"
proof -
  obtain B c where c: "stream_inv F B c px" using run_inv [OF assms(1-3)] by blast
  show ?thesis using arrival_keeps [OF c assms(3,4,5), of tick] by blast
qed

theorem arrival_returns_witness:
  "\<exists>px1 px2 px3. DispatchServerDatagram 5 (stream_datagram 0 (hello 0)) fresh_proxy = Some px1 \<and>
     DispatchServerDatagram 6 (stream_datagram 2 (hello 2)) px1 = Some px2 \<and>
     DispatchServerDatagram 7 (stream_datagram 1 (hello 1)) px2 = Some px3"
proof -
  obtain px1 k1 where 1: "DispatchServerDatagram 5 (stream_datagram 0 (hello 0)) fresh_proxy = Some px1"
    "stream_run hello fresh_proxy k1 px1" by (rule hello_arrives [OF Start small_sequence(1)]) blast
  obtain px2 k2 where 2: "DispatchServerDatagram 6 (stream_datagram 2 (hello 2)) px1 = Some px2"
    "stream_run hello fresh_proxy k2 px2" by (rule hello_arrives [OF 1(2) small_sequence(3)]) blast
  from arrival_returns [OF 2(2) fresh_fresh_proxy fits_hello small_sequence(2), of "hello 1" 7] 1(1) 2(1) show ?thesis by blast
qed



text \<open>A repeated datagram 0 replays the beginning of the stream. When the network delivers the first
  datagram of the stream once more, at any later time, the client gets its opcodes a second time and the
  proxy goes back to waiting for datagram 1.\<close>

theorem repeated_first_replays:
  assumes "ready px" and "fits fs"
  shows "\<exists>px'. DispatchServerDatagram tick (stream_datagram 0 fs) px = Some px' \<and>
    to_client px' = to_client px @ sent_as 0 fs \<and> m_CurrentPacketNum px' = 1"
proof -
  define px1 where "px1 = put_slot (of_nat 0) (Stored (stream_datagram 0 fs)) (reset_stream px)"
  have px1: "ready px1" "keys_sorted (m_Packets px1)" "m_CurrentPacketNum px1 = of_nat 0" "to_client px1 = to_client px"
    and slot: "slot_at (m_Packets px1) k = (if k = 0 then Stored (stream_datagram 0 fs) else PACKET_BLANK)" for k
    using assms(1) by (simp_all add: px1_def put_slot_def reset_stream_def ready_def keys_sorted_def slot_at_def)
  have "DispatchServerDatagram tick (stream_datagram 0 fs) px = DrainReadyPackets tick False px1"
    using dispatch_eq [OF assms(2) _ _ refl _ _ refl refl, of 0 0 px tick] assms(1)
    by (simp add: MAX_SEQUENCE_def px1_def reset_stream_def ready_def)
  moreover have "fits fs \<and> slot_at (m_Packets px1) (of_nat n) = Stored (stream_datagram n fs)" if "n < 0 + 1" for n
    using that assms(2) slot by simp
  moreover have "slot_at (m_Packets px1) (of_nat (0 + 1)) \<noteq> Stored d" for d using slot by simp
  ultimately show ?thesis
    using drain_run [of px1 0 1 "\<lambda>n. fs" tick] px1 by auto
qed

theorem repeated_first_replays_witness:
  "\<exists>px'. DispatchServerDatagram 5 (stream_datagram 0 (hello 0)) (fresh_proxy\<lparr>m_CurrentPacketNum := 400\<rparr>) = Some px' \<and>
    to_client px' = [(0x20, [0], 0)] \<and> m_CurrentPacketNum px' = 1"
proof -
  have "ready (fresh_proxy\<lparr>m_CurrentPacketNum := 400\<rparr>)" by (simp add: ready_def fresh_proxy_def)
  from repeated_first_replays [OF this fits_hello, of 5 0] show ?thesis
    by (simp add: fresh_proxy_def sent_as_def hello_def)
qed

end
