(* ===== verification/StreamLink.thy ===== *)
theory StreamLink
  imports ResendProps StreamProps
begin

text \<open>
  The two ends of the stream together: a server that ticks and a proxy that gets each datagram as it is
  sent. Everything that was queued, opcodes larger than a datagram included, comes out at the client,
  in order and whole, after a bounded number of ticks.
\<close>

section \<open>One datagram arrives in order\<close>

definition none_stored :: "packets \<Rightarrow> bool" where
  "none_stored ps \<longleftrightarrow> keys_sorted ps \<and> (\<forall>k d. slot_at ps k \<noteq> Stored d)"

definition open_stream :: "nat \<Rightarrow> proxy \<Rightarrow> bool" where
  "open_stream n px \<longleftrightarrow> m_SectorConnection px \<and> m_ConnectionActive px \<and> \<not> g_ShuttingDown px \<and>
     none_stored (m_Packets px) \<and> m_CurrentPacketNum px = of_nat n"

text \<open>Storing a datagram that arrives in order.\<close>

definition accept :: "nat \<Rightarrow> Datagram \<Rightarrow> proxy \<Rightarrow> proxy" where
  "accept n d px = put_slot (of_nat n) (Stored d) (if n = 0 then reset_stream px else px)"

lemma accept_simps [simp]:
  "to_client (accept n d px) = to_client px" "header_size (accept n d px) = header_size px"
  "m_SplitPacketLength (accept n d px) = m_SplitPacketLength px" "m_SplitPayload (accept n d px) = m_SplitPayload px"
  "m_SplitHeader (accept n d px) = m_SplitHeader px" "g_Packet_Opt_requested (accept n d px) = g_Packet_Opt_requested px"
  "m_SectorConnection (accept n d px) = m_SectorConnection px" "m_ConnectionActive (accept n d px) = m_ConnectionActive px"
  "g_ShuttingDown (accept n d px) = g_ShuttingDown px"
  by (simp_all add: accept_def put_slot_def reset_stream_def header_size_def)

lemma accept_current: "m_CurrentPacketNum px = of_nat n \<Longrightarrow> m_CurrentPacketNum (accept n d px) = of_nat n"
  by (simp add: accept_def put_slot_def reset_stream_def)

lemma accept_slots:
  assumes "none_stored (m_Packets px)"
  shows "keys_sorted (m_Packets (accept n d px))"
    and "slot_at (m_Packets (accept n d px)) k = Stored e \<longleftrightarrow> k = of_nat n \<and> d = e"
  using assms by (auto simp: accept_def put_slot_def reset_stream_def none_stored_def keys_sorted_put)

text \<open>What comes in a datagram is what the sender forms.\<close>

definition well_formed :: "nat \<Rightarrow> Datagram \<Rightarrow> bool" where
  "well_formed n d \<longleftrightarrow> (udp_opcode d = PACKET_SEQUENCE \<or> udp_opcode d = PACKET_C_SEQUENCE) \<and>
     udp_size d = of_nat (length (udp_payload d) + UDP_HEADER_SIZE) \<and> udp_payload d \<noteq> [] \<and>
     length (udp_payload d) \<le> PERIODIC_CACHE_SEND_SIZE_OPT \<and> packet_sequence d = of_nat n \<and> n < MAX_SEQUENCE"

lemma well_formed_size:
  assumes "well_formed n d"
  shows "unat (udp_size d - of_nat UDP_HEADER_SIZE) = length (udp_payload d)"
    and "\<not> udp_size d \<le>s of_nat UDP_HEADER_SIZE" and "\<not> udp_size d <s 0"
proof -
  have l: "length (udp_payload d) + UDP_HEADER_SIZE < 2 ^ 15" "udp_size d = of_nat (length (udp_payload d) + UDP_HEADER_SIZE)"
      "0 < length (udp_payload d)"
    using assms by (auto simp: well_formed_def PERIODIC_CACHE_SEND_SIZE_OPT_def UDP_HEADER_SIZE_def)
  then show "unat (udp_size d - of_nat UDP_HEADER_SIZE) = length (udp_payload d)"
    using unat_short_length [of "length (udp_payload d)"] by simp
  have "sint (udp_size d) = int (length (udp_payload d) + UDP_HEADER_SIZE)"
    unfolding l(2) by (rule sint_short_length [OF l(1)])
  then show "\<not> udp_size d \<le>s of_nat UDP_HEADER_SIZE" and "\<not> udp_size d <s 0"
    using l(3) by (simp_all add: word_sle_eq word_sless_alt UDP_HEADER_SIZE_def)
qed

lemma dispatch_current:
  assumes d: "well_formed n d" and active: "m_ConnectionActive px" and cur: "m_CurrentPacketNum px = of_nat n"
  shows "DispatchServerDatagram tick d px = DrainReadyPackets tick (udp_opcode d = PACKET_C_SEQUENCE) (accept n d px)"
proof -
  let ?px = "accept n d px" and ?cont = "udp_opcode d = PACKET_C_SEQUENCE"
  have n: "n < MAX_SEQUENCE" "packet_sequence d = of_nat n" using d by (auto simp: well_formed_def)
  have far: "\<not> m_CurrentPacketNum ?px + 30 <s (of_nat n :: u64)" "\<not> m_CurrentPacketNum ?px <s (of_nat n :: u64)"
    using stream_key_less [of "n + 30" n] stream_key_less [of n n] n(1) accept_current [OF cur, of d]
    by (simp_all add: add.commute)
  have "SendPacketSequence tick d ?cont px = DrainReadyPackets tick ?cont ?px"
    using well_formed_size(3) [OF d] active far n(1)
    by (simp add: SendPacketSequence_def n(2) stream_seq [OF n(1)] accept_def reset_stream_def Let_def)
  moreover have "DispatchServerDatagram tick d px = SendPacketSequence tick d ?cont px"
    using d well_formed_size(1) [OF d]
    by (auto simp: DispatchServerDatagram_def well_formed_def PACKET_SEQUENCE_def PACKET_C_SEQUENCE_def)
  ultimately show ?thesis by simp
qed

lemma in_order_arrival:
  assumes s: "open_stream n px" and d: "well_formed n d"
    and p: "process_packet tick (udp_opcode d = PACKET_C_SEQUENCE) d (accept n d px) = Some (Some True, px1)"
    and keep: "m_Packets px1 = m_Packets (accept n d px)" "m_CurrentPacketNum px1 = of_nat n"
      "m_SectorConnection px1 \<and> m_ConnectionActive px1 \<and> \<not> g_ShuttingDown px1"
  shows "\<exists>px'. DispatchServerDatagram tick d px = Some px' \<and> open_stream (Suc n) px' \<and> to_client px' = to_client px1 \<and>
    m_SplitPacketLength px' = m_SplitPacketLength px1 \<and> m_SplitPayload px' = m_SplitPayload px1 \<and>
    header_size px' = header_size px1"
proof -
  let ?px = "accept n d px" and ?cont = "udp_opcode d = PACKET_C_SEQUENCE"
  define px2 where "px2 = finish_packet True px1"
  define px' where "px' = prune (px2\<lparr>m_Packets := touch (m_CurrentPacketNum px2) (m_Packets px2)\<rparr>)"
  have slots: "none_stored (m_Packets px)" and active: "m_ConnectionActive px" and cur: "m_CurrentPacketNum px = of_nat n"
    using s by (auto simp: open_stream_def)
  note a = accept_slots [OF slots, of n d]
  have two: "m_Packets px2 = put (of_nat n) PACKET_DONE (m_Packets ?px)" "m_CurrentPacketNum px2 = of_nat (Suc n)"
    using keep by (simp_all add: px2_def finish_packet_def put_slot_def Let_def)
  have none2: "none_stored (m_Packets px2)" using a by (auto simp: two(1) none_stored_def keys_sorted_put)
  have "DrainReadyPackets tick ?cont ?px = DrainReadyPackets tick ?cont px2"
    using a(2) [of "of_nat n" d] accept_current [OF cur, of d] p
    by (subst DrainReadyPackets.simps) (simp add: px2_def)
  also have "\<dots> = Some px'" unfolding px'_def using none2 by (intro drain_stop) (simp add: none_stored_def)
  finally have drain: "DrainReadyPackets tick ?cont ?px = Some px'" .
  have "DispatchServerDatagram tick d px = Some px'" using dispatch_current [OF d active cur] drain by simp
  moreover have "none_stored (m_Packets px')"
    using slots_from_prune [of px2 px' "m_CurrentPacketNum px2"] none2
    by (auto simp: none_stored_def slots_from_def px'_def)
  moreover have "to_client px' = to_client px1" "m_SplitPacketLength px' = m_SplitPacketLength px1"
    "m_SplitPayload px' = m_SplitPayload px1" "m_SectorConnection px' = m_SectorConnection px1"
    "m_ConnectionActive px' = m_ConnectionActive px1" "g_ShuttingDown px' = g_ShuttingDown px1"
    "header_size px' = header_size px1" "m_CurrentPacketNum px' = m_CurrentPacketNum px2"
    by (simp_all add: px'_def px2_def prune_def finish_packet_def put_slot_def header_size_def Let_def)
  ultimately show ?thesis using keep(3) two(2) by (simp add: open_stream_def)
qed

section \<open>Putting a split opcode together\<close>

text \<open>An opcode that \<^verbatim>\<open>Player::SendOpcode\<close> takes and the client understands.\<close>

definition sendable :: "opcode \<Rightarrow> bool" where
  "sendable f \<longleftrightarrow> game_opcode f \<and> length (opcode_bytes f) \<le> 8192"

definition client_opcodes :: "proxy \<Rightarrow> opcode list" where
  "client_opcodes px = map (\<lambda>(a, b, c). (a, b)) (to_client px)"

lemma client_deliver_all:
  assumes "list_all game_opcode fs"
  shows "client_opcodes (fold (deliver seq) fs px) = client_opcodes px @ fs"
  by (simp add: client_opcodes_def deliver_all(2) [OF assms] comp_def)

lemma arrival_first_chunk:
  assumes o: "open_stream n px" and d: "well_formed n d" "udp_opcode d = PACKET_SEQUENCE" and f: "sendable f"
    and p: "udp_payload d = take (header_size px) (opcode_bytes f)" "header_size px < length (opcode_bytes f)"
    and idle: "m_SplitPacketLength px = 0"
  shows "\<exists>px'. DispatchServerDatagram tick d px = Some px' \<and> open_stream (Suc n) px' \<and> to_client px' = to_client px \<and>
    m_SplitPacketLength px' = int (length (opcode_bytes f)) - int (header_size px) \<and> m_SplitPayload px' = udp_payload d \<and>
    header_size px' = header_size px"
proof -
  let ?px = "accept n d px"
  define px1 where "px1 = ?px\<lparr>m_SplitPacketLength := int (length (opcode_bytes f)) - int (header_size px), m_SplitHeader := d,
      m_SplitPayload := udp_payload d, m_SplitPacketStart := m_CurrentPacketNum ?px\<rparr>"
  have c: "512 \<le> header_size px" by (simp add: header_size_def)
  have g: "game_opcode f" "length (opcode_bytes f) < 20000" using f by (auto simp: sendable_def)
  have "peek (udp_payload d) 0 2 = peek (opcode_bytes f @ []) 0 2" using p c by (simp add: peek_def)
  then have head: "peek (udp_payload d) 0 2 = Some (le_bytes 2 (of_nat (length (snd f) + 4) :: s16))"
    using first_opcode_length(1) [OF game_client [OF g(1)], of "[]"] by simp
  have all: "peek (udp_payload d) 0 (header_size px) = Some (udp_payload d)" using p by (simp add: peek_def)
  have "process_packet tick False d ?px = Some (Some True, px1)"
    using well_formed_size(2) [OF d(1)] idle head first_opcode_length(2) [OF game_client [OF g(1)]] p(2) g(2) all
    by (simp add: process_packet_def start_reassembly_def px1_def Let_def del: of_nat_add)
  moreover have "udp_opcode d \<noteq> PACKET_C_SEQUENCE" using d(2) by (simp add: PACKET_SEQUENCE_def PACKET_C_SEQUENCE_def)
  moreover have "m_CurrentPacketNum px1 = of_nat n" using accept_current [of px n d] o by (simp add: px1_def open_stream_def)
  ultimately show ?thesis using in_order_arrival [OF o d(1), of tick px1] o
    by (auto simp: px1_def open_stream_def header_size_def)
qed

lemma arrival_chunk:
  assumes o: "open_stream n px" and d: "well_formed n d" "udp_opcode d = PACKET_C_SEQUENCE"
    and p: "UDP_HEADER_SIZE + length (m_SplitPayload px) + length (udp_payload d) \<le> SPLIT_BUFFER_SIZE"
      "int (length (udp_payload d)) < m_SplitPacketLength px"
  shows "\<exists>px'. DispatchServerDatagram tick d px = Some px' \<and> open_stream (Suc n) px' \<and> to_client px' = to_client px \<and>
    m_SplitPacketLength px' = m_SplitPacketLength px - int (length (udp_payload d)) \<and>
    m_SplitPayload px' = m_SplitPayload px @ udp_payload d \<and> header_size px' = header_size px"
proof -
  let ?px = "accept n d px"
  define px1 where "px1 = ?px\<lparr>m_SplitPayload := m_SplitPayload px @ udp_payload d,
      m_SplitPacketLength := m_SplitPacketLength px - int (length (udp_payload d))\<rparr>"
  have "process_packet tick True d ?px = Some (Some True, px1)"
    using well_formed_size(2) [OF d(1)] p by (simp add: process_packet_def add_chunk_def px1_def Let_def)
  moreover have "m_CurrentPacketNum px1 = of_nat n" using accept_current [of px n d] o by (simp add: px1_def open_stream_def)
  ultimately show ?thesis using in_order_arrival [OF o d(1), of tick px1] o d(2)
    by (auto simp: px1_def open_stream_def header_size_def)
qed

lemma process_last_chunk:
  assumes o: "m_SectorConnection px" "m_ConnectionActive px" "\<not> g_ShuttingDown px"
    and d: "well_formed n d" "udp_opcode d = PACKET_C_SEQUENCE" and f: "sendable f"
    and p: "m_SplitPayload px @ udp_payload d = opcode_bytes f" "m_SplitPacketLength px = int (length (udp_payload d))"
  shows "\<exists>px2. process_packet tick True d (accept n d px) = Some (Some True, px2) \<and>
    control px2 = control (accept n d px\<lparr>m_SplitPayload := opcode_bytes f, m_SplitPacketLength := 0\<rparr>) \<and>
    client_opcodes px2 = client_opcodes px @ [f]"
proof -
  let ?px = "accept n d px" and ?seq = "packet_sequence (m_SplitHeader px)"
  define px1 where "px1 = ?px\<lparr>m_SplitPayload := opcode_bytes f, m_SplitPacketLength := 0\<rparr>"
  define px2 where "px2 = deliver ?seq f px1"
  have g: "game_opcode f" and fit: "UDP_HEADER_SIZE + length (opcode_bytes f) \<le> SPLIT_BUFFER_SIZE"
    using f by (auto simp: sendable_def UDP_HEADER_SIZE_def SPLIT_BUFFER_SIZE_def)
  have add: "add_chunk d ?px = Some px1" using fit p by (simp add: add_chunk_def px1_def Let_def)
  have walk: "SendClientPacketSequence (opcode_bytes f) ?seq px1 = Some (True, px2)"
    using walk_clients [of "[f]" px1 "[]"] game_client [of f] g o by (simp add: SendClientPacketSequence_def px2_def px1_def)
  have c: "control px2 = control px1" unfolding px2_def by (rule deliver_control [OF g])
  have "m_SplitPacketLength px \<noteq> 0" using p(2) d(1) by (simp add: well_formed_def)
  moreover have "px2\<lparr>m_SplitPacketLength := 0\<rparr> = px2"
    using control_eqD(4) [OF c] by (cases px2) (simp add: px1_def)
  ultimately have "process_packet tick True d ?px = Some (Some True, px2)"
    using well_formed_size(2) [OF d(1)] add walk by (simp add: process_packet_def px1_def Let_def)
  moreover have "client_opcodes px2 = client_opcodes px @ [f]"
    using client_deliver_all [of "[f]" ?seq px1] g by (simp add: px2_def px1_def client_opcodes_def)
  ultimately show ?thesis using c by (auto simp: px1_def)
qed

lemma arrival_last_chunk:
  assumes o: "open_stream n px" and d: "well_formed n d" "udp_opcode d = PACKET_C_SEQUENCE" and f: "sendable f"
    and p: "m_SplitPayload px @ udp_payload d = opcode_bytes f" "m_SplitPacketLength px = int (length (udp_payload d))"
  shows "\<exists>px'. DispatchServerDatagram tick d px = Some px' \<and> open_stream (Suc n) px' \<and>
    client_opcodes px' = client_opcodes px @ [f] \<and> m_SplitPacketLength px' = 0 \<and> header_size px' = header_size px"
proof -
  have conn: "m_SectorConnection px" "m_ConnectionActive px" "\<not> g_ShuttingDown px" using o by (auto simp: open_stream_def)
  obtain px2 where px2: "process_packet tick True d (accept n d px) = Some (Some True, px2)"
    "control px2 = control (accept n d px\<lparr>m_SplitPayload := opcode_bytes f, m_SplitPacketLength := 0\<rparr>)"
    "client_opcodes px2 = client_opcodes px @ [f]"
    using process_last_chunk [OF conn d f p] by blast
  note c = control_eqD [OF px2(2)]
  have "m_CurrentPacketNum (accept n d px) = of_nat n" using accept_current [of px n d] o by (simp add: open_stream_def)
  then have keep: "m_Packets px2 = m_Packets (accept n d px)" "m_CurrentPacketNum px2 = of_nat n"
    "m_SectorConnection px2 \<and> m_ConnectionActive px2 \<and> \<not> g_ShuttingDown px2"
    using c(1,2,5,6,7) conn by simp_all
  have pr: "process_packet tick (udp_opcode d = PACKET_C_SEQUENCE) d (accept n d px) = Some (Some True, px2)"
    using px2(1) d(2) by simp
  have "header_size px2 = header_size px" using c(9) by (simp add: header_size_def)
  then show ?thesis using in_order_arrival [OF o d(1) pr keep] px2(3) c(4) by (auto simp: client_opcodes_def)
qed

lemma arrival_whole:
  assumes o: "open_stream n px" and d: "well_formed n d" "udp_opcode d = PACKET_SEQUENCE" and fs: "list_all game_opcode fs"
    and p: "udp_payload d = concat (map opcode_bytes fs)" "length (udp_payload d) \<le> header_size px"
    and idle: "m_SplitPacketLength px = 0"
  shows "\<exists>px'. DispatchServerDatagram tick d px = Some px' \<and> open_stream (Suc n) px' \<and>
    client_opcodes px' = client_opcodes px @ fs \<and> m_SplitPacketLength px' = 0 \<and> header_size px' = header_size px"
proof -
  let ?px = "accept n d px"
  obtain g gs where gs: "fs = g # gs" using d(1) p(1) by (cases fs) (auto simp: well_formed_def)
  define px1 where "px1 = fold (deliver (packet_sequence d)) fs ?px"
  have ready1: "ready ?px" using o idle by (simp add: ready_def open_stream_def)
  have "process_packet tick False d ?px = Some (Some True, px1)"
    unfolding px1_def gs using fs p well_formed_size(2) [OF d(1)] gs
    by (intro process_whole [OF ready1]) (simp_all add: game_client game_clients)
  moreover have "udp_opcode d \<noteq> PACKET_C_SEQUENCE" using d(2) by (simp add: PACKET_SEQUENCE_def PACKET_C_SEQUENCE_def)
  moreover note c = control_eqD [OF deliver_all(1) [OF fs, of "packet_sequence d" ?px], folded px1_def]
  moreover have "m_CurrentPacketNum ?px = of_nat n" using accept_current [of px n d] o by (simp add: open_stream_def)
  moreover have "client_opcodes px1 = client_opcodes px @ fs"
    using client_deliver_all [OF fs, of "packet_sequence d" ?px] by (simp add: px1_def client_opcodes_def)
  ultimately show ?thesis
    using in_order_arrival [OF o d(1), of tick px1] ready1 idle by (auto simp: client_opcodes_def ready_def)
qed

text \<open>A whole datagram that is looked at with the flag of a chunk is skipped.\<close>

lemma process_continuation_skips:
  assumes "m_SplitPacketLength px = 0" and "fits (g # gs)"
  shows "process_packet tick True (stream_datagram n (g # gs)) px = Some (Some True, px)"
proof -
  have g: "game_opcode g" using assms(2) by (simp add: fits_def)
  have "\<not> udp_size (stream_datagram n (g # gs)) \<le>s of_nat UDP_HEADER_SIZE"
    using stream_datagram_size [OF assms(2), of n] by (simp add: word_sle_eq UDP_HEADER_SIZE_def)
  moreover have "\<not> header_size px < length (snd g) + 4"
    using assms(2) by (simp add: fits_def header_size_def PERIODIC_CACHE_SEND_SIZE_def)
  moreover have "udp_payload (stream_datagram n (g # gs)) = opcode_bytes g @ concat (map opcode_bytes gs)"
    by (simp add: stream_datagram_def)
  ultimately show ?thesis
    using assms(1) first_opcode_length(1) [OF game_client [OF g], of "concat (map opcode_bytes gs)"] first_opcode_length(2) [OF game_client [OF g]]
    by (simp add: process_packet_def Let_def del: of_nat_add)
qed

section \<open>A tick of both ends\<close>

primrec arrive_all :: "u64 \<Rightarrow> Datagram list \<Rightarrow> proxy \<Rightarrow> proxy option" where
  "arrive_all tick [] px = Some px"
| "arrive_all tick (d # ds) px = Option.bind (DispatchServerDatagram tick d px) (arrive_all tick ds)"

definition tick_both :: "u64 \<Rightarrow> sender \<times> proxy \<Rightarrow> (sender \<times> proxy) option" where
  "tick_both tick st =
     (let (s, px) = st
      in do {
        s' \<leftarrow> SendPacketCache (ucast tick) s;
        px' \<leftarrow> arrive_all tick (drop (length (wire s)) (wire s')) px;
        Some (s', px')
      })"

primrec run_ticks :: "nat \<Rightarrow> u64 \<Rightarrow> sender \<times> proxy \<Rightarrow> (sender \<times> proxy) option" where
  "run_ticks 0 tick st = Some st"
| "run_ticks (Suc k) tick st = Option.bind (tick_both tick st) (run_ticks k (tick + 1))"

definition backlog :: "sender \<Rightarrow> nat" where
  "backlog s = length (fst (sender_abs s)) + length (concat (snd (sender_abs s)))"

text \<open>The two ends agree: \<open>fs\<close> are the opcodes that are queued or under way.\<close>

definition under_way :: "opcode list \<Rightarrow> outgoing \<Rightarrow> proxy \<Rightarrow> bool" where
  "under_way fs out px \<longleftrightarrow> (\<exists>pending. snd out = map opcode_bytes pending \<and>
     (if fst out = [] then m_SplitPacketLength px = 0 \<and> fs = pending
      else \<exists>f. fs = f # pending \<and> m_SplitPacketLength px = int (length (fst out)) \<and> m_SplitPayload px @ fst out = opcode_bytes f))"

definition linked :: "nat \<Rightarrow> opcode list \<Rightarrow> sender \<Rightarrow> proxy \<Rightarrow> bool" where
  "linked n fs s px \<longleftrightarrow> sender_ok s \<and> open_stream n px \<and> m_PacketSequenceNum s = of_nat n \<and>
     header_size px = m_PeriodicCacheSize s \<and> list_all sendable fs \<and> n + backlog s < MAX_SEQUENCE \<and>
     under_way fs (sender_abs s) px"

lemma formed_well_formed:
  assumes "sender_ok s" and "m_PacketSequenceNum s = of_nat n" and "n < MAX_SEQUENCE" and "p \<noteq> []"
    and "length p \<le> m_PeriodicCacheSize s" and "opcode = PACKET_SEQUENCE \<or> opcode = PACKET_C_SEQUENCE"
  shows "well_formed n (formed opcode p s)"
  using assms cache_bounds(2) [OF assms(1)]
  by (simp add: well_formed_def formed_def PERIODIC_CACHE_SEND_SIZE_OPT_def ucast_sequence)

lemma tick_sends:
  assumes s: "SendPacketCache (ucast tick) s = Some s'" and w: "sent [d] s s'" and a: "DispatchServerDatagram tick d px = Some px'"
  shows "tick_both tick (s, px) = Some (s', px')"
  using assms by (simp add: tick_both_def sent_def)

text \<open>What is left after a tick that sent a datagram.\<close>

lemma linked_after:
  assumes l: "linked n fs s px" and w: "sent [d] s s'" and less: "backlog s' < backlog s"
    and o: "open_stream (Suc n) px'" "header_size px' = header_size px"
    and u: "under_way fs' (sender_abs s') px'" "list_all sendable fs'"
  shows "linked (Suc n) fs' s' px'"
  using assms by (simp add: linked_def sent_def add.commute)

lemma fill_spec_prefix:
  "fill_spec space ms = (p, rest) \<Longrightarrow> \<exists>k. p = concat (take k ms) \<and> rest = drop k ms"
proof (induction space ms arbitrary: p rule: fill_spec.induct)
  case (2 space m)
  then show ?case by (intro exI [of _ 1]) auto
next
  case (3 space m m2 ms)
  show ?case
  proof (cases "space - length m \<le> length m2")
    case True
    then show ?thesis using 3(2) by (intro exI [of _ 1]) auto
  next
    case False
    then obtain p' where p': "fill_spec (space - length m) (m2 # ms) = (p', rest)" "p = m @ p'"
      using 3(2) by (auto split: prod.splits)
    then obtain k where "p' = concat (take k (m2 # ms))" "rest = drop k (m2 # ms)" using 3(1) [OF False] by blast
    then show ?thesis using p'(2) by (intro exI [of _ "Suc k"]) simp
  qed
qed simp

lemma tick_split:
  assumes l: "linked n fs s px" and r: "sender_abs s = (rest, msgs)" "rest \<noteq> []"
  shows "\<exists>s' px' fs'. tick_both tick (s, px) = Some (s', px') \<and> linked (Suc n) fs' s' px' \<and>
    client_opcodes px' @ fs' = client_opcodes px @ fs \<and> backlog s' < backlog s"
proof -
  let ?c = "m_PeriodicCacheSize s" and ?d = "formed PACKET_C_SEQUENCE (take (m_PeriodicCacheSize s) rest) s"
  have i: "sender_ok s" "open_stream n px" "m_PacketSequenceNum s = of_nat n" "n < MAX_SEQUENCE" "list_all sendable fs"
    using l by (auto simp: linked_def)
  note c = cache_bounds [OF i(1)]
  obtain f pending where p: "fs = f # pending" "msgs = map opcode_bytes pending" "m_SplitPacketLength px = int (length rest)"
    "m_SplitPayload px @ rest = opcode_bytes f"
    using l r by (auto simp: linked_def under_way_def)
  have f: "sendable f" using i(5) p(1) by simp
  obtain s' where s': "SendPacketCache (ucast tick) s = Some s'" "sender_abs s' = (drop ?c rest, msgs)" "sent [?d] s s'"
    using continue_send [OF i(1) r(2,1)] by blast
  have d: "well_formed n ?d" "udp_opcode ?d = PACKET_C_SEQUENCE" "udp_payload ?d = take ?c rest"
    using formed_well_formed [OF i(1,3,4), of "take ?c rest" PACKET_C_SEQUENCE] r(2) c(1) by (auto simp: formed_def)
  have less: "backlog s' < backlog s" using s'(2) r c(1) by (simp add: backlog_def)
  show ?thesis
  proof (cases "length rest \<le> ?c")
    case True
    have pp: "m_SplitPayload px @ udp_payload ?d = opcode_bytes f" "m_SplitPacketLength px = int (length (udp_payload ?d))"
      using p d(3) True by simp_all
    obtain px' where px': "DispatchServerDatagram tick ?d px = Some px'" "open_stream (Suc n) px'"
      "client_opcodes px' = client_opcodes px @ [f]" "m_SplitPacketLength px' = 0" "header_size px' = header_size px"
      using arrival_last_chunk [OF i(2) d(1,2) f pp] by blast
    have "under_way pending (sender_abs s') px'" using s'(2) True p(2) px'(4) by (simp add: under_way_def)
    then have "linked (Suc n) pending s' px'"
      using linked_after [OF l s'(3) less px'(2,5)] i(5) p(1) by simp
    then show ?thesis using tick_sends [OF s'(1,3) px'(1)] less px'(3) p(1) by auto
  next
    case False
    have pp: "UDP_HEADER_SIZE + length (m_SplitPayload px) + length (udp_payload ?d) \<le> SPLIT_BUFFER_SIZE"
      "int (length (udp_payload ?d)) < m_SplitPacketLength px"
      using p(3) d(3) False arg_cong [OF p(4), of length] f c(2)
      by (auto simp: UDP_HEADER_SIZE_def SPLIT_BUFFER_SIZE_def sendable_def)
    obtain px' where px': "DispatchServerDatagram tick ?d px = Some px'" "open_stream (Suc n) px'"
      "to_client px' = to_client px" "m_SplitPacketLength px' = m_SplitPacketLength px - int (length (udp_payload ?d))"
      "m_SplitPayload px' = m_SplitPayload px @ udp_payload ?d" "header_size px' = header_size px"
      using arrival_chunk [OF i(2) d(1,2) pp] by blast
    have "m_SplitPayload px' @ drop ?c rest = opcode_bytes f" using px'(5) d(3) p(4) by simp
    then have "under_way fs (sender_abs s') px'"
      using s'(2) False p px'(4) d(3) by (auto simp: under_way_def)
    then have "linked (Suc n) fs s' px'" using linked_after [OF l s'(3) less px'(2,6)] i(5) by simp
    then show ?thesis using tick_sends [OF s'(1,3) px'(1)] less px'(3) by (auto simp: client_opcodes_def)
  qed
qed

lemma tick_queue:
  assumes l: "linked n fs s px" and r: "sender_abs s = ([], m # ms)"
  shows "\<exists>s' px' fs'. tick_both tick (s, px) = Some (s', px') \<and> linked (Suc n) fs' s' px' \<and>
    client_opcodes px' @ fs' = client_opcodes px @ fs \<and> backlog s' < backlog s"
proof -
  let ?c = "m_PeriodicCacheSize s"
  have i: "sender_ok s" "open_stream n px" "m_PacketSequenceNum s = of_nat n" "n < MAX_SEQUENCE" "list_all sendable fs"
    and h: "header_size px = ?c" using l by (auto simp: linked_def)
  note c = cache_bounds [OF i(1)]
  have p: "m # ms = map opcode_bytes fs" "m_SplitPacketLength px = 0" using l r by (auto simp: linked_def under_way_def)
  obtain f gs where f: "fs = f # gs" "m = opcode_bytes f" "ms = map opcode_bytes gs" using p(1) by (cases fs) auto
  have g: "sendable f" "list_all game_opcode fs" using i(5) f(1) by (auto simp: sendable_def list_all_iff)
  show ?thesis
  proof (cases "?c < length m")
    case True
    let ?d = "formed PACKET_SEQUENCE (take (m_PeriodicCacheSize s) m) s"
    obtain s' where s': "SendPacketCache (ucast tick) s = Some s'" "sender_abs s' = (drop ?c m, ms)" "sent [?d] s s'"
      using start_send [OF i(1) r True] by blast
    have d: "well_formed n ?d" "udp_opcode ?d = PACKET_SEQUENCE" "udp_payload ?d = take (header_size px) (opcode_bytes f)"
      using formed_well_formed [OF i(1,3,4), of "take ?c m" PACKET_SEQUENCE] True c(1) f(2) h by (auto simp: formed_def)
    have less: "backlog s' < backlog s" using s'(2) r c(1) True by (simp add: backlog_def)
    have big: "header_size px < length (opcode_bytes f)" using True h f(2) by simp
    obtain px' where px': "DispatchServerDatagram tick ?d px = Some px'" "open_stream (Suc n) px'"
      "to_client px' = to_client px" "m_SplitPacketLength px' = int (length (opcode_bytes f)) - int (header_size px)"
      "m_SplitPayload px' = udp_payload ?d" "header_size px' = header_size px"
      using arrival_first_chunk [OF i(2) d(1,2) g(1) d(3) big p(2)] by blast
    have "m_SplitPayload px' @ drop ?c m = opcode_bytes f" using px'(5) d(3) h f(2) by simp
    then have "under_way fs (sender_abs s') px'"
      using s'(2) True f px'(4) h by (simp add: under_way_def)
    then have "linked (Suc n) fs s' px'" using linked_after [OF l s'(3) less px'(2,6)] i(5) by simp
    then show ?thesis using tick_sends [OF s'(1,3) px'(1)] less px'(3) by (auto simp: client_opcodes_def)
  next
    case False
    obtain q rest where q: "fill_spec ?c (m # ms) = (q, rest)" by (cases "fill_spec ?c (m # ms)")
    let ?d = "formed PACKET_SEQUENCE q s"
    obtain s' where s': "SendPacketCache (ucast tick) s = Some s'" "sender_abs s' = ([], rest)" "sent [?d] s s'" "q \<noteq> []"
      using fill_send [OF i(1) r _ q] False by auto
    obtain k where k: "q = concat (map opcode_bytes (take k fs))" "rest = map opcode_bytes (drop k fs)"
      using fill_spec_prefix [OF q] p(1) by (auto simp: take_map drop_map)
    have len: "length q \<le> ?c" using fill_spec_length [OF q] False by simp
    have d: "well_formed n ?d" "udp_opcode ?d = PACKET_SEQUENCE" "udp_payload ?d = concat (map opcode_bytes (take k fs))"
      "length (udp_payload ?d) \<le> header_size px"
      using formed_well_formed [OF i(1,3,4) s'(4) len] k(1) len h by (auto simp: formed_def)
    have less: "backlog s' < backlog s"
      using fill_spec_bytes [OF q] s'(2,4) r by (simp add: backlog_def length_concat [symmetric])
    have gk: "list_all game_opcode (take k fs)" using g(2) by (auto simp: list_all_iff dest: in_set_takeD)
    obtain px' where px': "DispatchServerDatagram tick ?d px = Some px'" "open_stream (Suc n) px'"
      "client_opcodes px' = client_opcodes px @ take k fs" "m_SplitPacketLength px' = 0" "header_size px' = header_size px"
      using arrival_whole [OF i(2) d(1,2) gk d(3,4) p(2)] by blast
    have "under_way (drop k fs) (sender_abs s') px'" using s'(2) k(2) px'(4) by (simp add: under_way_def)
    moreover have "list_all sendable (drop k fs)" using i(5) by (auto simp: list_all_iff dest: in_set_dropD)
    ultimately have "linked (Suc n) (drop k fs) s' px'" using linked_after [OF l s'(3) less px'(2,5)] by simp
    then show ?thesis using tick_sends [OF s'(1,3) px'(1)] less px'(3) by auto
  qed
qed

lemma tick_idle:
  assumes l: "linked n fs s px" and r: "sender_abs s = ([], [])"
  shows "\<exists>s'. tick_both tick (s, px) = Some (s', px) \<and> linked n fs s' px \<and> sender_abs s' = ([], []) \<and> fs = []"
proof -
  have ok: "sender_ok s" and fs: "fs = []" using l r by (auto simp: linked_def under_way_def)
  obtain s' where s': "SendPacketCache (ucast tick) s = Some s'" "sender_abs s' = ([], [])" "sent [] s s'"
    using idle_send [OF ok r] by blast
  have "tick_both tick (s, px) = Some (s', px)" using s' by (simp add: tick_both_def sent_def)
  moreover have "linked n fs s' px" using l s' r by (simp add: linked_def sent_def backlog_def under_way_def)
  ultimately show ?thesis using s'(2) fs by blast
qed

lemma run_ticks_delivers:
  assumes "linked n fs s px" and "backlog s \<le> k"
  shows "\<exists>s' px'. run_ticks k tick (s, px) = Some (s', px') \<and> client_opcodes px' = client_opcodes px @ fs \<and>
    sender_abs s' = ([], [])"
  using assms
proof (induction k arbitrary: n fs s px tick)
  case 0
  have "sender_abs s = ([], [])"
  proof (cases "sender_abs s")
    case (Pair rest msgs)
    have "rest = []" "\<forall>m \<in> set msgs. m = []" using 0(2) Pair by (auto simp: backlog_def)
    moreover have "m \<noteq> []" if "m \<in> set msgs" for m using sender_msgs [of s m] 0(1) Pair that by (simp add: linked_def)
    ultimately show ?thesis using Pair by (cases msgs) auto
  qed
  then show ?case using tick_idle [OF 0(1)] by auto
next
  case (Suc k)
  obtain rest msgs where r: "sender_abs s = (rest, msgs)" by (cases "sender_abs s")
  consider (split) "rest \<noteq> []" | (queue) m ms where "rest = []" "msgs = m # ms" | (idle) "rest = []" "msgs = []"
    by (cases msgs) auto
  then show ?case
  proof cases
    case split
    obtain s1 px1 fs1 where t: "tick_both tick (s, px) = Some (s1, px1)" "linked (Suc n) fs1 s1 px1"
      "client_opcodes px1 @ fs1 = client_opcodes px @ fs" "backlog s1 < backlog s"
      using tick_split [OF Suc.prems(1) r split] by blast
    then show ?thesis using Suc.IH [OF t(2), of "tick + 1"] Suc.prems(2) by auto
  next
    case (queue m ms)
    obtain s1 px1 fs1 where t: "tick_both tick (s, px) = Some (s1, px1)" "linked (Suc n) fs1 s1 px1"
      "client_opcodes px1 @ fs1 = client_opcodes px @ fs" "backlog s1 < backlog s"
      using tick_queue [OF Suc.prems(1)] r queue by blast
    then show ?thesis using Suc.IH [OF t(2), of "tick + 1"] Suc.prems(2) by auto
  next
    case idle
    obtain s1 where t: "tick_both tick (s, px) = Some (s1, px)" "linked n fs s1 px" "sender_abs s1 = ([], [])"
      using tick_idle [OF Suc.prems(1)] r idle by blast
    then show ?thesis using Suc.IH [OF t(2), of "tick + 1"] by (auto simp: backlog_def)
  qed
qed

section \<open>Properties\<close>

primrec send_all :: "u32 \<Rightarrow> opcode list \<Rightarrow> sender \<Rightarrow> sender option" where
  "send_all tick [] s = Some s"
| "send_all tick (f # fs) s = Option.bind (Player_SendOpcode tick (fst f) (snd f) s) (send_all tick fs)"

lemma send_all_ok:
  assumes "sender_ok s" and "room_for fs s"
  shows "\<exists>s'. send_all tick fs s = Some s' \<and> sender_ok s' \<and>
    sender_abs s' = (fst (sender_abs s), snd (sender_abs s) @ map opcode_bytes fs) \<and>
    m_PacketSequenceNum s' = m_PacketSequenceNum s \<and> m_PeriodicCacheSize s' = m_PeriodicCacheSize s"
  using assms
proof (induction fs arbitrary: s)
  case (Cons f fs)
  obtain s1 where s1: "Player_SendOpcode tick (fst f) (snd f) s = Some s1" "sender_ok s1" "room_for fs s1"
    "sender_abs s1 = (fst (sender_abs s), snd (sender_abs s) @ [opcode_bytes f])"
    "m_PacketSequenceNum s1 = m_PacketSequenceNum s" "m_PeriodicCacheSize s1 = m_PeriodicCacheSize s"
    using Player_SendOpcode_ok [OF Cons.prems] by blast
  then show ?case using Cons.IH [OF s1(2,3)] by auto
qed simp

text \<open>C1: what the server sends, the client gets. Opcodes that are queued on an idle link, of any size up to
  the forming buffer and so split over several datagrams where they are large, come out of the proxy one by
  one, whole and in order, after at most as many ticks as they have bytes, when no datagram is lost.\<close>

theorem opcodes_arrive:
  assumes "linked n [] s px" and "list_all sendable fs" and "room_for fs s"
    and "n + length (concat (map opcode_bytes fs)) < MAX_SEQUENCE" and "length (concat (map opcode_bytes fs)) \<le> k"
  shows "\<exists>s1 s' px'. send_all t fs s = Some s1 \<and> run_ticks k tick (s1, px) = Some (s', px') \<and>
    client_opcodes px' = client_opcodes px @ fs \<and> sender_abs s' = ([], [])"
proof -
  have l: "sender_ok s" "under_way [] (sender_abs s) px" using assms(1) by (auto simp: linked_def)
  have idle: "sender_abs s = ([], [])" "m_SplitPacketLength px = 0"
    using l(2) by (cases "sender_abs s"; auto simp: under_way_def split: if_splits)+
  obtain s1 where s1: "send_all t fs s = Some s1" "sender_ok s1" "sender_abs s1 = ([], map opcode_bytes fs)"
    "m_PacketSequenceNum s1 = m_PacketSequenceNum s" "m_PeriodicCacheSize s1 = m_PeriodicCacheSize s"
    using send_all_ok [OF l(1) assms(3), of t] idle(1) by auto
  have b: "backlog s1 = length (concat (map opcode_bytes fs))" using s1(3) by (simp add: backlog_def)
  have "linked n fs s1 px"
    using assms(1,2,4) s1 b idle(2) by (auto simp: linked_def under_way_def)
  from run_ticks_delivers [OF this, of k tick] b assms(5) s1(1) show ?thesis by auto
qed

lemma new_linked: "linked 0 [] new_sender fresh_proxy"
proof -
  have "open_stream 0 fresh_proxy" "header_size fresh_proxy = 512" "m_SplitPacketLength fresh_proxy = 0"
    by (simp_all add: open_stream_def fresh_proxy_def none_stored_def header_size_def)
  moreover have "m_PacketSequenceNum new_sender = 0" "m_PeriodicCacheSize new_sender = 512"
    by (simp_all add: new_sender_def PERIODIC_CACHE_SEND_SIZE_def)
  ultimately show ?thesis
    by (simp add: linked_def new_sender_ok new_sender_abs backlog_def under_way_def MAX_SEQUENCE_def)
qed

theorem opcodes_arrive_witness:
  "\<exists>s1 s' px'. send_all 1 [(0x20, [1, 2]), (0x1B, replicate 600 7), (0x21, [])] new_sender = Some s1 \<and>
     run_ticks 614 3 (s1, fresh_proxy) = Some (s', px') \<and>
     client_opcodes px' = [(0x20, [1, 2]), (0x1B, replicate 600 7), (0x21, [])] \<and> sender_abs s' = ([], [])"
proof -
  let ?fs = "[(0x20, [1, 2]), (0x1B, replicate 600 7), (0x21, [])] :: opcode list"
  have n: "length (concat (map opcode_bytes ?fs)) = 614" by simp
  have "list_all sendable ?fs" by (simp add: sendable_def game_opcode_def word_sless_alt)
  moreover have "room_for ?fs new_sender" by (intro new_sender_room) simp_all
  moreover have "client_opcodes fresh_proxy = []" by (simp add: client_opcodes_def fresh_proxy_def)
  ultimately show ?thesis
    using opcodes_arrive [OF new_linked, of ?fs 614 1 3] n by (auto simp: MAX_SEQUENCE_def)
qed

text \<open>C36: a datagram that was parked behind the end of a split opcode is lost. When the last chunk of a split
  opcode arrives after the plain datagram that follows it, the flag of the chunk is applied to the parked
  datagram too: the split opcode is delivered, and the opcodes of the parked datagram are dropped without
  being asked for again.\<close>

theorem parked_behind_split_lost:
  assumes "m_SectorConnection px" and "m_ConnectionActive px" and "\<not> g_ShuttingDown px" and "keys_sorted (m_Packets px)"
    and "m_CurrentPacketNum px = of_nat c" and "0 < c" and "Suc c < MAX_SEQUENCE"
    and "well_formed c d" and "udp_opcode d = PACKET_C_SEQUENCE" and "sendable f"
    and "m_SplitPayload px @ udp_payload d = opcode_bytes f" and "m_SplitPacketLength px = int (length (udp_payload d))"
    and "slot_at (m_Packets px) (of_nat (Suc c)) = Stored (stream_datagram (Suc c) (g # gs))" and "fits (g # gs)"
    and "\<And>e. slot_at (m_Packets px) (of_nat (Suc (Suc c))) \<noteq> Stored e"
  shows "\<exists>px'. DispatchServerDatagram tick d px = Some px' \<and> client_opcodes px' = client_opcodes px @ [f] \<and>
    m_CurrentPacketNum px' = of_nat (Suc (Suc c))"
proof -
  let ?px = "accept c d px" and ?e = "stream_datagram (Suc c) (g # gs)"
  obtain px2 where px2: "process_packet tick True d ?px = Some (Some True, px2)" "control px2 = control (?px\<lparr>m_SplitPayload :=
      opcode_bytes f, m_SplitPacketLength := 0\<rparr>)" "client_opcodes px2 = client_opcodes px @ [f]"
    using process_last_chunk [of px c d f tick] assms(1-3,8-12) by blast
  note c = control_eqD [OF px2(2)]
  define px3 where "px3 = finish_packet True px2"
  define px4 where "px4 = finish_packet True px3"
  have key: "(of_nat i :: u64) = of_nat j \<longleftrightarrow> i = j" if "i \<le> Suc (Suc c)" "j \<le> Suc (Suc c)" for i j
    using that assms(7) by (auto simp: word_of_nat_eq_iff take_bit_nat_eq_self MAX_SEQUENCE_def)
  have slots: "m_Packets ?px = put (of_nat c) (Stored d) (m_Packets px)" using assms(6) by (simp add: accept_def put_slot_def)
  have cur: "m_CurrentPacketNum ?px = of_nat c" by (rule accept_current [OF assms(5)])
  have three: "m_Packets px3 = put (of_nat c) PACKET_DONE (m_Packets ?px)" "m_CurrentPacketNum px3 = of_nat (Suc c)"
    "m_SplitPacketLength px3 = 0" "header_size px3 = header_size px" "to_client px3 = to_client px2"
    using c cur by (simp_all add: px3_def finish_packet_def put_slot_def Let_def header_size_def)
  have at3: "slot_at (m_Packets px3) (of_nat (Suc c)) = Stored ?e"
    using assms(13) key [of "Suc c" c] by (simp add: three(1) slots del: of_nat_Suc)
  have skip: "process_packet tick True ?e px3 = Some (Some True, px3)"
    by (rule process_continuation_skips [OF three(3) assms(14)])
  have four: "m_Packets px4 = put (of_nat (Suc c)) PACKET_DONE (m_Packets px3)" "m_CurrentPacketNum px4 = of_nat (Suc (Suc c))"
    "to_client px4 = to_client px2"
    using three by (simp_all add: px4_def finish_packet_def put_slot_def Let_def)
  have stop: "slot_at (m_Packets px4) (m_CurrentPacketNum px4) \<noteq> Stored x" for x
    using assms(15) key [of "Suc (Suc c)" "Suc c"] key [of "Suc (Suc c)" c]
    by (simp add: four three(1) slots del: of_nat_Suc)
  have "DrainReadyPackets tick True ?px = DrainReadyPackets tick True px3"
    using px2(1) by (subst DrainReadyPackets.simps) (simp add: cur slots px3_def)
  also have "\<dots> = DrainReadyPackets tick True px4"
    using skip at3 by (subst DrainReadyPackets.simps) (simp add: three(2) px4_def del: of_nat_Suc)
  also note drain_stop [OF stop]
  finally have "DrainReadyPackets tick True ?px = Some (prune (px4\<lparr>m_Packets := touch (m_CurrentPacketNum px4) (m_Packets px4)\<rparr>))" .
  moreover have "DispatchServerDatagram tick d px = DrainReadyPackets tick True ?px"
    using dispatch_current [OF assms(8,2,5), of tick] assms(9) by simp
  ultimately show ?thesis using four px2(3) by (auto simp: prune_def client_opcodes_def)
qed

theorem parked_behind_split_lost_witness:
  "\<exists>px'. DispatchServerDatagram 9
      \<lparr>udp_size = 104, udp_opcode = PACKET_C_SEQUENCE, udp_player_id = 0, packet_sequence = 5,
       udp_payload = drop 512 (opcode_bytes (0x1B, replicate 600 7))\<rparr>
      (fresh_proxy\<lparr>m_CurrentPacketNum := 5, m_SplitPacketLength := 92,
         m_SplitPayload := take 512 (opcode_bytes (0x1B, replicate 600 7)),
         m_Packets := [(6, Stored (stream_datagram 6 [(0x20, [1])]))]\<rparr>) = Some px' \<and>
    client_opcodes px' = [(0x1B, replicate 600 7)] \<and> m_CurrentPacketNum px' = 7"
proof -
  let ?f = "(0x1B, replicate 600 7) :: opcode"
  let ?d = "\<lparr>udp_size = 104, udp_opcode = PACKET_C_SEQUENCE, udp_player_id = 0, packet_sequence = 5,
       udp_payload = drop 512 (opcode_bytes ?f)\<rparr>"
  let ?px = "fresh_proxy\<lparr>m_CurrentPacketNum := 5, m_SplitPacketLength := 92, m_SplitPayload := take 512 (opcode_bytes ?f),
         m_Packets := [(6, Stored (stream_datagram 6 [(0x20, [1])]))]\<rparr>"
  have px: "m_SectorConnection ?px" "m_ConnectionActive ?px" "\<not> g_ShuttingDown ?px" "keys_sorted (m_Packets ?px)"
    "m_CurrentPacketNum ?px = of_nat 5" "(0::nat) < 5" "Suc 5 < MAX_SEQUENCE"
    by (simp_all add: fresh_proxy_def keys_sorted_def MAX_SEQUENCE_def)
  have d: "well_formed 5 ?d" "udp_opcode ?d = PACKET_C_SEQUENCE" "sendable ?f"
    by (simp_all add: well_formed_def UDP_HEADER_SIZE_def PERIODIC_CACHE_SEND_SIZE_OPT_def MAX_SEQUENCE_def sendable_def
        game_opcode_def word_sless_alt)
  have split: "m_SplitPayload ?px @ udp_payload ?d = opcode_bytes ?f" "m_SplitPacketLength ?px = int (length (udp_payload ?d))"
    by simp_all
  have six: "slot_at (m_Packets ?px) (of_nat (Suc 5)) = Stored (stream_datagram (Suc 5) [(0x20, [1])])"
    and seven: "slot_at (m_Packets ?px) (of_nat (Suc (Suc 5))) \<noteq> Stored e" for e
    by (simp_all add: slot_at_def)
  have "fits [(0x20, [1])]" by (simp add: fits_def game_opcode_def PERIODIC_CACHE_SEND_SIZE_def word_sless_alt)
  from parked_behind_split_lost [OF px d split six this seven, of 9] show ?thesis
    by (simp add: client_opcodes_def fresh_proxy_def)
qed

section \<open>The handoff to another sector\<close>




text \<open>
  The entry for number -1, which the handoff leaves, looks to the timer like a datagram that waits behind a
  hole: as soon as the interval is over it asks for all numbers from 0 up to it, a count of -1 in
  the request, which the server cuts down to 64.
\<close>

lemma handoff_floods:
  assumes "m_Packets px = [(0, PACKET_BLANK), (-1, PACKET_DONE)]" and "m_CurrentPacketNum px = 0" and "m_PacketTimeout px = 0"
    and "m_LoginComplete px" and "m_ConnectionActive px" and "\<not> tick - m_PacketResendTimer px < PACKET_RESEND_INTERVAL_MS"
  shows "\<exists>px'. PumpPacketResend tick px = Some px' \<and> events px' = events px @ [ResendRequest 0 (-1)]"
    and "resend_request (le_bytes 4 (0 :: s32) @ le_bytes 4 (-1 :: s32)) 8 = Some (0, 64)"
proof -
  have m1: "ucast (-1 :: u64) = (-1 :: s32)" by (rule bit_word_eqI) (simp add: bit_ucast_iff)
  have t: "touch 0 [(0, PACKET_BLANK), (-1, PACKET_DONE)] = [(0, PACKET_BLANK), (-1 :: u64, PACKET_DONE)]"
    by (simp add: touch_def slot_at_def)
  show "\<exists>px'. PumpPacketResend tick px = Some px' \<and> events px' = events px @ [ResendRequest 0 (-1)]"
    using assms(6) by (simp add: PumpPacketResend_def assms(1-5) t slot_at_def Let_def word_sless_alt RequestResend_def px_emit_def
        put_slot_def word_gt_0 m1)
  show "resend_request (le_bytes 4 (0 :: s32) @ le_bytes 4 (-1 :: s32)) 8 = Some (0, 64)" by code_simp
qed


end
