(* ===== verification/LoginTickets.thy ===== *)
theory LoginTickets
  imports ReliableSend PlayerNodes PacketMethods
begin

text \<open>
  Tickets, session tokens and the authentication of datagrams:
  \<^verbatim>\<open>CheckAuthWrapper\<close> (\<^verbatim>\<open>server/src/AuthWrapper.h\<close>), the stash of session tokens
  (\<^verbatim>\<open>server/src/UDP_Global.cpp\<close>), and the tickets and the rules for names of \<^verbatim>\<open>AccountManager\<close>
  (\<^verbatim>\<open>server/src/AccountManager.cpp\<close>).

  The tables of the account database are functions of the environment, except
  \<^verbatim>\<open>login_ticket\<close>, which these operations write: it is a map from user names, the primary key, to rows. The
  functions of libsodium are parameters. Strings are byte lists without their terminating zero.
\<close>

section \<open>The wrapper of a datagram\<close>

definition kAuthWrapperVersion :: u8 where "kAuthWrapperVersion = 1"
definition kAuthTokenLen :: nat where "kAuthTokenLen = 16"
definition kAuthWrapperLen :: nat where "kAuthWrapperLen = 1 + kAuthTokenLen"
definition kUdpHeaderLen :: nat where "kUdpHeaderLen = 12"
definition kUdpHeaderPlayerIdOff :: nat where "kUdpHeaderPlayerIdOff = 4"

datatype AuthWrapperVerdict =
    Accept bytes
  | DropShortOrOversize
  | DropBadVersion
  | DropTokenMismatch

text \<open>The loop accumulates the differences and never leaves early.\<close>

definition token_difference :: "bytes \<Rightarrow> bytes \<Rightarrow> u8" where
  "token_difference a b = fold (\<lambda>i diff. diff OR (a ! i XOR b ! i)) [0..<kAuthTokenLen] 0"

definition ConstantTimeTokenEqual :: "bytes \<Rightarrow> bytes \<Rightarrow> bool" where
  "ConstantTimeTokenEqual a b \<longleftrightarrow> token_difference a b = 0"

text \<open>
  The lookup of the bound token is an argument, as in the source; it may change the state \<open>'s\<close> (a lookup in
  \<^verbatim>\<open>m_PlayerLookup\<close> inserts missing keys) and may fault.
\<close>

definition CheckAuthWrapper ::
    "bytes \<Rightarrow> nat \<Rightarrow> (s32 \<Rightarrow> 's \<Rightarrow> (bytes option \<times> 's) option) \<Rightarrow> 's \<Rightarrow> (AuthWrapperVerdict \<times> 's) option" where
  "CheckAuthWrapper rec max_buffer bound_token_for s =
     (if length rec < kAuthWrapperLen + kUdpHeaderLen \<or> max_buffer \<le> length rec then Some (DropShortOrOversize, s)
      else if rec ! 0 \<noteq> kAuthWrapperVersion then Some (DropBadVersion, s)
      else
        let body = drop kAuthWrapperLen rec;
            player_id = le_word (take 4 (drop kUdpHeaderPlayerIdOff body)) :: s32
        in if player_id \<noteq> 0 then do {
             (bound, s1) \<leftarrow> bound_token_for player_id s;
             case bound of None \<Rightarrow> Some (DropTokenMismatch, s1)
             | Some b \<Rightarrow> if ConstantTimeTokenEqual b (drop 1 rec) then Some (Accept body, s1)
                         else Some (DropTokenMismatch, s1)
           }
           else Some (Accept body, s))"

section \<open>Session tokens\<close>

definition DtlsPeerKey :: "u32 \<Rightarrow> 16 word \<Rightarrow> u64" where
  "DtlsPeerKey ip port = push_bit 16 (ucast ip) OR ucast port"

record SessionToken =
  st_token :: bytes
  expires_ms :: clong

definition kSessionTokenTtlMs :: clong where "kSessionTokenTtlMs = 5 * 60 * 1000"

type_synonym session_tokens = "u64 \<rightharpoonup> SessionToken"

definition session_key :: "clong \<Rightarrow> s16 \<Rightarrow> u64" where
  "session_key source_addr source_port = DtlsPeerKey (ucast source_addr) source_port"

text \<open>\<open>time\<close> is the number of seconds \<^verbatim>\<open>time(NULL)\<close> returns.\<close>

definition now_ms :: "clong \<Rightarrow> clong" where "now_ms time = time * 1000"

definition prune_tokens :: "clong \<Rightarrow> session_tokens \<Rightarrow> session_tokens" where
  "prune_tokens now m =
     (\<lambda>k. case m k of None \<Rightarrow> None | Some e \<Rightarrow> if expires_ms e <s now then None else Some e)"

definition StashSessionToken :: "clong \<Rightarrow> clong \<Rightarrow> s16 \<Rightarrow> bytes \<Rightarrow> session_tokens \<Rightarrow> session_tokens" where
  "StashSessionToken time source_addr source_port token m =
     (prune_tokens (now_ms time) m)
       (session_key source_addr source_port \<mapsto> \<lparr>st_token = token, expires_ms = now_ms time + kSessionTokenTtlMs\<rparr>)"

definition TakeSessionToken :: "clong \<Rightarrow> clong \<Rightarrow> s16 \<Rightarrow> session_tokens \<Rightarrow> bytes option \<times> session_tokens" where
  "TakeSessionToken time source_addr source_port m =
     (let key = session_key source_addr source_port
      in case m key of None \<Rightarrow> (None, m)
         | Some e \<Rightarrow> (if now_ms time \<le>s expires_ms e then Some (st_token e) else None, m(key := None)))"

section \<open>Tickets\<close>

definition TICKET_EXPIRE_TIME :: "'a::len word" where "TICKET_EXPIRE_TIME = 1800000"

record AccountTicket =
  at_username :: bytes
  at_ticket :: bytes
  expire_time :: u64

definition SetupTickets :: "AccountTicket list" where
  "SetupTickets = replicate 5 \<lparr>at_username = [], at_ticket = [], expire_time = 0\<rparr>"

type_synonym ticket_rows = "bytes \<rightharpoonup> bytes \<times> clong"

record login_env =
  sodium_ready :: bool
  hex2bin :: "bytes \<Rightarrow> bytes option"
  bin2hex :: "bytes \<Rightarrow> bytes"
  upsert_ok :: bool
  account_id :: "bytes \<Rightarrow> clong"
  account_status :: "bytes \<Rightarrow> clong"
  validate_account :: "bytes \<Rightarrow> bytes \<Rightarrow> clong"
  forbidden_name :: "bytes \<Rightarrow> bool"
  name_used :: "bytes \<Rightarrow> bool"
  assignments_complete :: bool
  sector_server :: "s32 \<Rightarrow> (s32 \<times> s16) option"
  mvas_frequency :: "nat \<Rightarrow> bytes \<Rightarrow> u32 option"

definition dash :: u8 where "dash = 45"

text \<open>\<^verbatim>\<open>strncpy_s\<close> and \<^verbatim>\<open>sprintf_s\<close> cut the string to the room without the terminating zero.\<close>

definition StoreTicketRow :: "login_env \<Rightarrow> clong \<Rightarrow> bytes \<Rightarrow> ticket_rows \<Rightarrow> ticket_rows" where
  "StoreTicketRow env time ticket rows =
     (let buf = take 63 ticket
      in case first_index (\<lambda>c. c = dash) buf of None \<Rightarrow> rows
         | Some d \<Rightarrow> if upsert_ok env
                     then rows(take d buf \<mapsto> (drop (d + 1) buf, now_ms time + TICKET_EXPIRE_TIME)) else rows)"

definition ValidateTicketSuffix :: "login_env \<Rightarrow> clong \<Rightarrow> bytes \<Rightarrow> bytes \<Rightarrow> ticket_rows \<Rightarrow> bool" where
  "ValidateTicketSuffix env time username token rows =
     (if username = [] \<or> token = [] then False
      else if \<not> sodium_ready env then False
      else case rows username of None \<Rightarrow> False
           | Some (stored, expires_at) \<Rightarrow>
               if stored = [] then False
               else if expires_at <s now_ms time then False
               else stored = token)"

definition token_of_hex :: "login_env \<Rightarrow> bytes \<Rightarrow> bytes option" where
  "token_of_hex env hex =
     (case hex2bin env hex of None \<Rightarrow> None | Some b \<Rightarrow> if length b = 16 then Some b else None)"

definition GetLoginTokenBinary :: "login_env \<Rightarrow> clong \<Rightarrow> bytes \<Rightarrow> ticket_rows \<Rightarrow> bytes option" where
  "GetLoginTokenBinary env time username rows =
     (if username = [] then None
      else if \<not> sodium_ready env then None
      else case rows username of None \<Rightarrow> None
           | Some (stored, expires_at) \<Rightarrow>
               if stored = [] then None
               else if expires_at <s now_ms time then None
               else token_of_hex env stored)"

definition TokenHexToBinary :: "login_env \<Rightarrow> bytes \<Rightarrow> bytes option" where
  "TokenHexToBinary env hex =
     (if hex = [] then None else if \<not> sodium_ready env then None else token_of_hex env hex)"

text \<open>
  The first ticket that has expired is used again, or one is added. (The test for an empty
  slot looks at the address of an array, which is never null; a slot that was never used has expired.)
\<close>

definition BuildTicket ::
    "login_env \<Rightarrow> clong \<Rightarrow> u64 \<Rightarrow> bytes \<Rightarrow> bytes \<Rightarrow> AccountTicket list \<Rightarrow> ticket_rows \<Rightarrow> bytes \<times> AccountTicket list \<times> ticket_rows" where
  "BuildTicket env time cur_time token_bin username tickets rows =
     (let ticket = take 63 (username @ [dash] @ bin2hex env token_bin);
          entry = \<lparr>at_username = take 63 username, at_ticket = ticket, expire_time = cur_time + TICKET_EXPIRE_TIME\<rparr>;
          tickets' = (case first_index (\<lambda>t. expire_time t < cur_time) tickets of
                        None \<Rightarrow> tickets @ [entry] | Some i \<Rightarrow> tickets[i := entry])
      in (ticket, tickets', StoreTicketRow env time ticket rows))"

text \<open>\<^verbatim>\<open>ProcessTicketInfo\<close> splits a ticket at its last dash.\<close>

definition split_ticket :: "bytes \<Rightarrow> bytes \<times> bytes option" where
  "split_ticket ticket =
     (case last_index (\<lambda>c. c = dash) ticket of None \<Rightarrow> (ticket, None)
      | Some d \<Rightarrow> (take d ticket, Some (drop (d + 1) ticket)))"

section \<open>Accounts and characters\<close>

text \<open>The macros are not parenthesised: \<^verbatim>\<open>ACCOUNT_ID(avatar_id)\<close> divides as intended where it is used alone.\<close>

definition AVATAR_ID :: "clong \<Rightarrow> clong \<Rightarrow> clong" where "AVATAR_ID account slot = account * 5 + slot + 1"

definition GetAvatarID :: "login_env \<Rightarrow> bytes \<Rightarrow> s32 \<Rightarrow> clong" where
  "GetAvatarID env username slot =
     (if 0 \<le>s slot \<and> slot \<le>s 4
      then if account_id env username = -1 then -1 else AVATAR_ID (account_id env username) (scast slot)
      else -1)"

section \<open>The rules for names\<close>

definition G_ERROR_BANNED_ACCOUNT :: "'a::len word" where "G_ERROR_BANNED_ACCOUNT = 0"
definition G_ERROR_NICKNAME_USED :: "'a::len word" where "G_ERROR_NICKNAME_USED = 1"
definition G_ERROR_TOO_SHORT :: "'a::len word" where "G_ERROR_TOO_SHORT = 3"
definition G_ERROR_ONE_VOWEL :: "'a::len word" where "G_ERROR_ONE_VOWEL = 4"
definition G_ERROR_REPEATING_CHAR :: "'a::len word" where "G_ERROR_REPEATING_CHAR = 5"
definition G_ERROR_RESTRICTED_LIST :: "'a::len word" where "G_ERROR_RESTRICTED_LIST = 6"
definition G_ERROR_TICKET_INVALID :: "'a::len word" where "G_ERROR_TICKET_INVALID = 7"
definition G_ERROR_INACTIVE_ACCOUNT :: "'a::len word" where "G_ERROR_INACTIVE_ACCOUNT = 9"
definition G_ERROR_RESTRICTED_SHIP :: "'a::len word" where "G_ERROR_RESTRICTED_SHIP = 10"
definition G_ERROR_NET7_INTERNAL :: "'a::len word" where "G_ERROR_NET7_INTERNAL = 11"
definition G_ERROR_STRESS_TEST_CLOSED :: "'a::len word" where "G_ERROR_STRESS_TEST_CLOSED = 12"

text \<open>\<^verbatim>\<open>isupper\<close> and \<^verbatim>\<open>tolower\<close> of the C locale.\<close>

definition lower :: "u8 \<Rightarrow> u8" where
  "lower c = (if 65 \<le> c \<and> c \<le> 90 then c + 32 else c)"

definition vowels :: "u8 list" where "vowels = map of_char ''aeiouy''"

text \<open>The loop over the name: the error or whether there was a vowel.\<close>

fun name_loop :: "bytes \<Rightarrow> bool \<Rightarrow> u8 \<Rightarrow> u8 \<Rightarrow> clong + bool" where
  "name_loop [] has_vowel last_chr count = Inr has_vowel"
| "name_loop (c # cs) has_vowel last_chr count =
     (let has_vowel1 = has_vowel \<or> c \<in> set vowels;
          chr = lower c
      in if last_chr = chr
         then if count + 1 = 2 then Inl G_ERROR_REPEATING_CHAR else name_loop cs has_vowel1 chr (count + 1)
         else name_loop cs has_vowel1 chr 0)"

record GlobalCreateCharacter =
  character_slot :: u32
  account_username :: bytes
  avatar_first_name :: bytes
  ship_name :: bytes

text \<open>
  The error that \<^verbatim>\<open>CreateCharacter\<close> returns, or the avatar it saves. What it saves, and the starting sector and assets,
  which it reads from tables at indices made of the race, the profession and the ship parts in the message, are left out.
\<close>

definition CreateCharacter :: "login_env \<Rightarrow> GlobalCreateCharacter \<Rightarrow> clong + clong" where
  "CreateCharacter env c =
     (if length (avatar_first_name c) < 3 then Inl G_ERROR_TOO_SHORT
      else case name_loop (avatar_first_name c) False 0 0 of
        Inl e \<Rightarrow> Inl e
      | Inr has_vowel \<Rightarrow>
          if \<not> has_vowel then Inl G_ERROR_ONE_VOWEL
          else if forbidden_name env (avatar_first_name c) then Inl G_ERROR_RESTRICTED_LIST
          else if forbidden_name env (ship_name c) then Inl G_ERROR_RESTRICTED_SHIP
          else if name_used env (avatar_first_name c) then Inl G_ERROR_NICKNAME_USED
          else let avatar = GetAvatarID env (account_username c) (ntohl (character_slot c))
               in if avatar = -1 then Inl G_ERROR_NET7_INTERNAL else Inr avatar)"

end
