(* ===== verification/LoginServer.thy ===== *)
theory LoginServer
  imports LoginTickets
begin

text \<open>
  The server's handling of datagrams around a login (\<^verbatim>\<open>UDP_Global.cpp\<close>,
  \<^verbatim>\<open>UDP_MVAS.cpp\<close>, \<^verbatim>\<open>UDP_Client.cpp\<close>, \<^verbatim>\<open>UDP_Master.cpp\<close>, \<^verbatim>\<open>UDP_SSLcomms.cpp\<close> and the dispatch in
  \<^verbatim>\<open>UDPConnection.cpp\<close> under \<^verbatim>\<open>server/src\<close>; \<^verbatim>\<open>SetupPlayer\<close>, \<^verbatim>\<open>DropPlayerFromGalaxy\<close> and
  \<^verbatim>\<open>CheckForDuplicatePlayers\<close> of \<^verbatim>\<open>PlayerManager.cpp\<close>).

  One record holds what the planes share: the player nodes, the map from
  character ids to node ids, the list of players that are online, the session tokens and the tickets. A message is
  the rest of the receive buffer behind the header, including bytes of earlier datagrams. Packets
  to clients, database writes and calls into other components are events. \<^term>\<open>None\<close> is an access outside a buffer.
\<close>

section \<open>State\<close>

datatype login_event =
    Sent s16 bytes clong s16
  | AvatarListSent clong clong s16
  | LoginConfirmed nat clong clong s16
  | LoginTimeUpdated clong
  | CharacterDeleted clong
  | CharacterSaved clong
  | DatabaseRead nat clong
  | PlayerSaved nat
  | LeaveGroupOf clong s32
  | LoungeReady nat
  | VersionRefused clong
  | PositionUpdate nat bytes
  | FrequencySent nat u32 clong s16
  | PlayerMessage nat s16 s16 bytes
  | HandoffConfirmed nat s32 s16 clong s16
  | PacketOptRequested nat

record login_server =
  m_GlobMemMgr :: gmem
  m_PlayerLookup :: "u64 \<rightharpoonup> u64"
  m_GlobalPlayerList :: "u32 list"
  g_SessionTokens :: session_tokens
  login_ticket :: ticket_rows
  m_Tickets :: "AccountTicket list"
  m_RegisteredAddrs :: "clong list"
  m_SSLIPAddr :: clong
  m_SSLPort :: s16
  m_LoginAttempts :: u64
  login_log :: "login_event list"

text \<open>The clock, the tick count and the random bytes at the time of an arrival.\<close>

record moment =
  time_s :: clong
  tick_ms :: u64
  random_token :: bytes

definition log_event :: "login_event \<Rightarrow> login_server \<Rightarrow> login_server" where
  "log_event e s = s\<lparr>login_log := login_log s @ [e]\<rparr>"

definition send :: "s16 \<Rightarrow> bytes \<Rightarrow> clong \<Rightarrow> s16 \<Rightarrow> login_server \<Rightarrow> login_server" where
  "send opcode payload addr port = log_event (Sent opcode payload addr port)"

definition SendGlobalError :: "s32 \<Rightarrow> clong \<Rightarrow> s16 \<Rightarrow> login_server \<Rightarrow> login_server" where
  "SendGlobalError error = send 0x200E (le_bytes 4 error)"

definition player :: "login_server \<Rightarrow> nat \<Rightarrow> player_node" where
  "player s i = m_PlayerQueueBuf (m_GlobMemMgr s) ! i"

definition on_player :: "nat \<Rightarrow> (player_node \<Rightarrow> player_node) \<Rightarrow> login_server \<Rightarrow> login_server" where
  "on_player i f s =
     s\<lparr>m_GlobMemMgr := (m_GlobMemMgr s)\<lparr>m_PlayerQueueBuf := (m_PlayerQueueBuf (m_GlobMemMgr s))[i := f (player s i)]\<rparr>\<rparr>"

definition find_player :: "s32 \<Rightarrow> login_server \<Rightarrow> (nat option \<times> login_server) option" where
  "find_player game_id s =
     map_option (\<lambda>(p, lookup, g). (p, s\<lparr>m_PlayerLookup := lookup, m_GlobMemMgr := g\<rparr>))
       (GetPlayer (scast game_id) False (m_PlayerLookup s) (m_GlobMemMgr s))"

definition SetPlayerPortIP :: "s16 \<Rightarrow> clong \<Rightarrow> player_node \<Rightarrow> player_node" where
  "SetPlayerPortIP port ip n = n\<lparr>m_Player_Port := port, m_Player_IPAddr := ip\<rparr>"

definition SetAuthToken :: "bytes \<Rightarrow> player_node \<Rightarrow> player_node" where
  "SetAuthToken tok n = n\<lparr>m_AuthToken := tok, m_AuthTokenSet := True\<rparr>"

section \<open>Dropping and setting up a player\<close>

definition DropPlayerFromGalaxy :: "nat \<Rightarrow> login_server \<Rightarrow> login_server option" where
  "DropPlayerFromGalaxy i s =
     (if GameID (player s i) = PLAYER_NODE_AVAILABLE then Some s
      else
        let s1 = log_event (PlayerSaved i) s;
            s2 = s1\<lparr>m_GlobMemMgr := ReleasePlayerNode i (m_GlobMemMgr s1)\<rparr>
        in map_option (\<lambda>l. s2\<lparr>m_GlobalPlayerList := l\<rparr>)
             (UnSetIndex (Some (unat (GameIndex (player s2 i)))) (m_GlobalPlayerList s2)))"

partial_function (option) CheckForDuplicatePlayers :: "nat \<Rightarrow> nat option \<Rightarrow> login_server \<Rightarrow> login_server option" where
  "CheckForDuplicatePlayers me p s =
     Option.bind (GetNextPlayerOnList p (m_GlobMemMgr s) (m_GlobalPlayerList s)) (\<lambda>(found, q, l).
       let s1 = s\<lparr>m_GlobalPlayerList := l\<rparr>
       in if \<not> found then Some s1
          else Option.bind q (\<lambda>j.
            if me \<noteq> j \<and> CharacterID (player s1 j) = CharacterID (player s1 me)
            then Option.bind (DropPlayerFromGalaxy j s1) (CheckForDuplicatePlayers me (Some j))
            else CheckForDuplicatePlayers me (Some j) s1))"

definition SetCharacterID :: "nat \<Rightarrow> clong \<Rightarrow> login_server \<Rightarrow> login_server option" where
  "SetCharacterID i char_id s =
     (let s1 = on_player i (\<lambda>n. n\<lparr>CharacterID := char_id\<rparr>) s
      in if 0 <s char_id then CheckForDuplicatePlayers i None s1 else Some s1)"

text \<open>Of \<^verbatim>\<open>ResetPlayer\<close> what concerns the fields of the model.\<close>

definition ResetPlayer :: "player_node \<Rightarrow> player_node" where
  "ResetPlayer n = n\<lparr>GroupID := -1, MVASIndex := -1, LastAccessTime := 0, AccountUsername := [], m_AuthTokenSet := False\<rparr>"

definition SetupPlayer :: "u64 \<Rightarrow> nat \<Rightarrow> login_server \<Rightarrow> login_server option" where
  "SetupPlayer tick i s =
     (let s1 = on_player i (\<lambda>n. (ResetPlayer n)\<lparr>LastAccessTime := ucast tick\<rparr>) s;
          s2 = s1\<lparr>m_PlayerLookup := (m_PlayerLookup s1)(CharacterID (player s1 i) \<mapsto> scast (GameID (player s1 i)))\<rparr>
      in map_option (\<lambda>l. on_player i (\<lambda>n. n\<lparr>MVASIndex := scast (GameID n)\<rparr>) (s2\<lparr>m_GlobalPlayerList := l\<rparr>))
           (SetIndex (Some (unat (GameIndex (player s2 i)))) (m_GlobalPlayerList s2)))"

definition tag_game_id :: "player_node \<Rightarrow> player_node" where
  "tag_game_id n = n\<lparr>GameID := ucast (CharacterID n OR PLAYER_TAG)\<rparr>"

section \<open>The global plane: tickets and characters\<close>

definition VerifyAccountInfo :: "login_env \<Rightarrow> moment \<Rightarrow> bytes \<Rightarrow> clong \<Rightarrow> s16 \<Rightarrow> login_server \<Rightarrow> login_server option" where
  "VerifyAccountInfo env now msg addr port s = do {
     (ub, index) \<leftarrow> ExtractDataLS msg (replicate 64 0) 0;
     (pb, index1) \<leftarrow> ExtractDataLS msg (replicate 64 0) index;
     let username = cstr_of ub;
     let password = cstr_of pb;
     let account = validate_account env username password;
     if account = -1 then Some (send 0x2001 (map of_char ''Valid=False'' @ [13, 10]) addr port s)
     else
       let s1 = log_event (LoginTimeUpdated account) s;
           (ticket, tickets, rows) = BuildTicket env (time_s now) (tick_ms now) (random_token now) username
                                       (m_Tickets s1) (login_ticket s1);
           s2 = s1\<lparr>m_Tickets := tickets, login_ticket := rows\<rparr>
       in Some (send 0x2001 (map of_char ''Valid=TRUE'' @ [13, 10] @ map of_char ''Ticket='' @ ticket @ [13, 10]) addr port s2)
   }"

definition ProcessTicketInfo ::
    "login_env \<Rightarrow> moment \<Rightarrow> bytes \<Rightarrow> clong \<Rightarrow> s16 \<Rightarrow> login_server \<Rightarrow> bool \<times> login_server" where
  "ProcessTicketInfo env now msg addr port s =
     (let ticket = cstr_of msg; (account_name, suffix) = split_ticket ticket;
          token = (case suffix of None \<Rightarrow> [] | Some t \<Rightarrow> t)
      in if ticket = [] then (False, SendGlobalError G_ERROR_NET7_INTERNAL addr port s)
         else if \<not> ValidateTicketSuffix env (time_s now) account_name token (login_ticket s)
         then (False, SendGlobalError G_ERROR_TICKET_INVALID addr port s)
         else
           let s1 = (case suffix of None \<Rightarrow> s
                     | Some hex \<Rightarrow> (case TokenHexToBinary env hex of None \<Rightarrow> s
                         | Some tok \<Rightarrow> s\<lparr>g_SessionTokens := StashSessionToken (time_s now) addr port tok (g_SessionTokens s)\<rparr>));
               account = account_id env account_name; status = account_status env account_name
           in if status = 0 then (False, SendGlobalError G_ERROR_STRESS_TEST_CLOSED addr port s1)
              else if account = -1 then (False, SendGlobalError G_ERROR_NET7_INTERNAL addr port s1)
              else if status = -2 then (False, SendGlobalError G_ERROR_BANNED_ACCOUNT addr port s1)
              else if status = -1 then (False, SendGlobalError G_ERROR_INACTIVE_ACCOUNT addr port s1)
              else (True, log_event (AvatarListSent account addr port) (log_event (LoginTimeUpdated account) s1)))"

definition allocate_player :: "u64 \<Rightarrow> login_server \<Rightarrow> (nat option \<times> login_server) option" where
  "allocate_player tick s =
     map_option (\<lambda>(p, g). (p, s\<lparr>m_GlobMemMgr := g\<rparr>)) (GetPlayerNode (ucast tick) (m_GlobMemMgr s))"

text \<open>The calls with which \<^verbatim>\<open>HandleGlobalTicketRequest\<close> and \<^verbatim>\<open>HandleSSLLogin\<close> set up the node.\<close>

definition start_player :: "u64 \<Rightarrow> nat \<Rightarrow> clong \<Rightarrow> clong \<Rightarrow> bytes \<Rightarrow> s16 \<Rightarrow> clong \<Rightarrow> login_server \<Rightarrow> login_server option" where
  "start_player tick i avatar_id slot username port addr s = do {
     s1 \<leftarrow> SetCharacterID i avatar_id s;
     s2 \<leftarrow> SetupPlayer tick i (on_player i (\<lambda>n. n\<lparr>m_CharacterSlot := slot\<rparr>) s1);
     Some (on_player i (SetPlayerPortIP port addr)
       (on_player i tag_game_id (on_player i (\<lambda>n. n\<lparr>AccountUsername := username\<rparr>) s2)))
   }"

text \<open>The part of \<^verbatim>\<open>HandleGlobalTicketRequest\<close> that prefers the token of the session to that of the account.\<close>

definition bind_token :: "login_env \<Rightarrow> clong \<Rightarrow> bytes \<Rightarrow> clong \<Rightarrow> s16 \<Rightarrow> nat \<Rightarrow> login_server \<Rightarrow> login_server" where
  "bind_token env time username addr port i s =
     (let (taken, m) = TakeSessionToken time addr port (g_SessionTokens s); s1 = s\<lparr>g_SessionTokens := m\<rparr>
      in case taken of Some tok \<Rightarrow> on_player i (SetAuthToken tok) s1
         | None \<Rightarrow> (case GetLoginTokenBinary env time username (login_ticket s1) of
                      Some tok \<Rightarrow> on_player i (SetAuthToken tok) s1 | None \<Rightarrow> s1))"

definition HandleGlobalTicketRequest ::
    "login_env \<Rightarrow> moment \<Rightarrow> bytes \<Rightarrow> clong \<Rightarrow> s16 \<Rightarrow> login_server \<Rightarrow> login_server option" where
  "HandleGlobalTicketRequest env now msg addr port s = do {
     b \<leftarrow> peek msg 0 4;
     let char_slot = ntohl (le_word b);
     (ub, index) \<leftarrow> ExtractDataLS msg (replicate 128 0) 4;
     let username = cstr_of ub;
     let avatar_id = GetAvatarID env username char_slot;
     if avatar_id = -1 then Some s
     else do {
       (p, s1) \<leftarrow> allocate_player (tick_ms now) s;
       case p of
         None \<Rightarrow> Some (SendGlobalError G_ERROR_NET7_INTERNAL addr port s1)
       | Some i \<Rightarrow> do {
           s4 \<leftarrow> start_player (tick_ms now) i avatar_id (ucast char_slot) username port addr s1;
           Some (log_event (LoginConfirmed i avatar_id addr port)
             (log_event (DatabaseRead i avatar_id) (bind_token env (time_s now) username addr port i s4)))
         }
     }
   }"

definition HandleAvatarCreateRequest ::
    "login_env \<Rightarrow> GlobalCreateCharacter \<Rightarrow> clong \<Rightarrow> s16 \<Rightarrow> login_server \<Rightarrow> login_server" where
  "HandleAvatarCreateRequest env create addr port s =
     (case CreateCharacter env create of
        Inl e \<Rightarrow> SendGlobalError (ucast e) addr port s
      | Inr avatar \<Rightarrow> log_event (AvatarListSent (account_id env (account_username create)) addr port)
                       (log_event (CharacterSaved avatar) s))"

definition HandleAvatarDeleteRequest :: "login_env \<Rightarrow> bytes \<Rightarrow> clong \<Rightarrow> s16 \<Rightarrow> login_server \<Rightarrow> login_server option" where
  "HandleAvatarDeleteRequest env msg addr port s = do {
     (w, index) \<leftarrow> ExtractLong msg 0;
     let slot = ntohl (ucast w);
     (ub, index1) \<leftarrow> ExtractDataLS msg (replicate 64 0) index;
     let username = cstr_of ub;
     Some (log_event (AvatarListSent (account_id env username) addr port)
       (log_event (CharacterDeleted (GetAvatarID env username slot)) s))
   }"

text \<open>
  The fields of \<^verbatim>\<open>GlobalCreateCharacter\<close> are taken from the message by their offsets in the packed structure.
\<close>

definition read_create :: "bytes \<Rightarrow> GlobalCreateCharacter option" where
  "read_create msg = do {
     b \<leftarrow> peek msg 4 4;
     m \<leftarrow> peek msg 0 539;
     Some \<lparr>character_slot = le_word b, account_username = cstr_of (drop 12 msg), avatar_first_name = cstr_of (drop 77 msg),
           ship_name = cstr_of (drop 338 msg)\<rparr>
   }"

definition HandleGlobalOpcode ::
    "login_env \<Rightarrow> moment \<Rightarrow> bytes \<Rightarrow> s16 \<Rightarrow> clong \<Rightarrow> s16 \<Rightarrow> login_server \<Rightarrow> login_server option" where
  "HandleGlobalOpcode env now msg opcode addr port s =
     (if opcode = 0x2000 then VerifyAccountInfo env now msg addr port s
      else if opcode = 0x2002 then Some (snd (ProcessTicketInfo env now msg addr port s))
      else if opcode = 0x2004 then HandleGlobalTicketRequest env now msg addr port s
      else if opcode = 0x200B
      then map_option (\<lambda>c. HandleAvatarCreateRequest env c addr port s) (read_create msg)
      else if opcode = 0x200D then HandleAvatarDeleteRequest env msg addr port s
      else Some s)"

section \<open>The other planes\<close>

definition with_player :: "s32 \<Rightarrow> (nat \<Rightarrow> login_server \<Rightarrow> login_server option) \<Rightarrow> (login_server \<Rightarrow> login_server) \<Rightarrow>
    login_server \<Rightarrow> login_server option" where
  "with_player game_id f absent s =
     Option.bind (find_player game_id s) (\<lambda>(p, s1). case p of Some i \<Rightarrow> f i s1 | None \<Rightarrow> Some (absent s1))"

text \<open>The player to log out is named by the message, not by the header.\<close>

definition HandleLogout :: "bytes \<Rightarrow> login_server \<Rightarrow> login_server option" where
  "HandleLogout msg s = do {
     b \<leftarrow> peek msg 0 8;
     (p, lookup, g) \<leftarrow> GetPlayer (le_word b) False (m_PlayerLookup s) (m_GlobMemMgr s);
     let s1 = s\<lparr>m_PlayerLookup := lookup, m_GlobMemMgr := g\<rparr>;
     case p of None \<Rightarrow> Some s1
     | Some i \<Rightarrow> DropPlayerFromGalaxy i (log_event (LeaveGroupOf (GroupID (player s1 i)) (GameID (player s1 i))) s1)
   }"

definition CURRENT_MVAS :: clong where "CURRENT_MVAS = 174"

text \<open>The first reply sends a field that was never set; it stands as zero here.\<close>

definition HandleMoveAssistRegister :: "login_env \<Rightarrow> bytes \<Rightarrow> clong \<Rightarrow> s16 \<Rightarrow> login_server \<Rightarrow> login_server option" where
  "HandleMoveAssistRegister env msg addr port s = do {
     b \<leftarrow> peek msg 0 8;
     let s1 = s\<lparr>m_LoginAttempts := m_LoginAttempts s + 1\<rparr>;
     Some (if \<not> assignments_complete env then send 0x100B (replicate 8 0) addr port s1
           else if CURRENT_MVAS \<le>s le_word b
           then (let s2 = send 0x1001 (replicate 8 0) addr port s1
                 in if addr \<in> set (m_RegisteredAddrs s2) then s2
                    else s2\<lparr>m_RegisteredAddrs := m_RegisteredAddrs s2 @ [addr]\<rparr>)
           else send 0x1009 (le_bytes 8 CURRENT_MVAS) addr port (log_event (VersionRefused (le_word b)) s1))
   }"

text \<open>
  The positions are floats; the new frequency, when it differs from the player's, is a parameter. (Of the eight bytes sent
  for a frequency four are whatever lies behind it; they stand as zero here.)
\<close>

definition HandleMVASPosReturn ::
    "login_env \<Rightarrow> bytes \<Rightarrow> Datagram \<Rightarrow> clong \<Rightarrow> s16 \<Rightarrow> login_server \<Rightarrow> login_server option" where
  "HandleMVASPosReturn env msg hdr addr port s =
     (let floats = take (if 28 <s udp_size hdr then 24 else 12) msg
      in with_player (udp_player_id hdr)
        (\<lambda>i s1.
          let s2 = on_player i (SetPlayerPortIP port addr)
                    (log_event (PositionUpdate i floats)
                      (on_player i (\<lambda>n. n\<lparr>MVASIndex := scast (udp_player_id hdr)\<rparr>) s1))
          in Some (case mvas_frequency env i floats of None \<Rightarrow> s2
                   | Some f \<Rightarrow> log_event (FrequencySent i f addr port) s2))
        (\<lambda>s1. if IS_PLAYER (scast (udp_player_id hdr)) then s1 else send 0x1007 (le_bytes 8 (20 :: u64)) addr port s1) s)"

definition HandleCommReturn :: "Datagram \<Rightarrow> clong \<Rightarrow> s16 \<Rightarrow> login_server \<Rightarrow> login_server option" where
  "HandleCommReturn hdr addr port =
     with_player (udp_player_id hdr) (\<lambda>i s. Some (on_player i (SetPlayerPortIP port addr) s)) id"

definition HandleLoungeReady :: "Datagram \<Rightarrow> login_server \<Rightarrow> login_server option" where
  "HandleLoungeReady hdr = with_player (udp_player_id hdr) (\<lambda>i s. Some (log_event (LoungeReady i) s)) id"

definition HandleKeepCommsAlive :: "moment \<Rightarrow> Datagram \<Rightarrow> clong \<Rightarrow> s16 \<Rightarrow> login_server \<Rightarrow> login_server option" where
  "HandleKeepCommsAlive now hdr addr port =
     with_player (udp_player_id hdr)
       (\<lambda>i s. Some (on_player i (\<lambda>n. n\<lparr>LastAccessTime := ucast (tick_ms now)\<rparr>) s))
       (send 0x100A (le_bytes 4 (udp_player_id hdr) @ le_bytes 4 (packet_sequence hdr)) addr port)"

definition HandleSSLregister :: "bytes \<Rightarrow> clong \<Rightarrow> s16 \<Rightarrow> login_server \<Rightarrow> login_server option" where
  "HandleSSLregister msg addr port s = do {
     b \<leftarrow> peek msg 0 8;
     Some (if m_SSLIPAddr s \<noteq> 0 \<and> m_SSLIPAddr s \<noteq> addr then s
           else send 0x4001 (le_bytes 8 (of_nat MAX_ONLINE_PLAYERS :: clong)) addr port
                  (s\<lparr>m_SSLIPAddr := addr, m_SSLPort := port\<rparr>))
   }"

definition HandleSSLLogin :: "moment \<Rightarrow> bytes \<Rightarrow> clong \<Rightarrow> s16 \<Rightarrow> login_server \<Rightarrow> login_server option" where
  "HandleSSLLogin now msg addr port s = do {
     (avatar_id, i1) \<leftarrow> ExtractLong msg 0;
     (player_addr, i2) \<leftarrow> ExtractLong msg i1;
     (slot, i3) \<leftarrow> ExtractShort msg i2;
     (ub, i4) \<leftarrow> ExtractDataLS msg (replicate 64 0) i3;
     if addr \<noteq> m_SSLIPAddr s then Some s
     else do {
       (p, s1) \<leftarrow> allocate_player (tick_ms now) s;
       s2 \<leftarrow> (case p of None \<Rightarrow> Some s1
         | Some i \<Rightarrow> start_player (tick_ms now) i avatar_id (scast slot) (cstr_of ub) 0 0 s1);
       Some (send 0x4004 (le_bytes 8 avatar_id) addr port s2)
     }
   }"

definition HandlePlayerCountRQ :: "clong \<Rightarrow> s16 \<Rightarrow> login_server \<Rightarrow> login_server" where
  "HandlePlayerCountRQ addr port s =
     send 0x5001 (le_bytes 4 (of_nat (GetPlayerCount (m_GlobMemMgr s)) :: s32) @ le_bytes 4 (of_nat MAX_ONLINE_PLAYERS :: s32))
       addr port s"

definition HandleMVASOpcode ::
    "login_env \<Rightarrow> moment \<Rightarrow> bytes \<Rightarrow> Datagram \<Rightarrow> clong \<Rightarrow> s16 \<Rightarrow> login_server \<Rightarrow> login_server option" where
  "HandleMVASOpcode env now msg hdr addr port s =
     (let opcode = udp_opcode hdr
      in if opcode = 0x1000 then HandleMoveAssistRegister env msg addr port s
         else if opcode = 0x1004 then HandleMVASPosReturn env msg hdr addr port s
         else if opcode = 0x1008 then HandleLogout msg s
         else if opcode = 0x200F then HandleCommReturn hdr addr port s
         else if opcode = 0x3001 then HandleLoungeReady hdr s
         else if opcode = 0x3005 then HandleKeepCommsAlive now hdr addr port s
         else if opcode = 0x4000 then HandleSSLregister msg addr port s
         else if opcode = 0x4003 then HandleSSLLogin now msg addr port s
         else if opcode = 0x5000 then Some (HandlePlayerCountRQ addr port s)
         else Some s)"

text \<open>A sector connection that is in operation.\<close>

definition ProcessClientOpcode ::
    "moment \<Rightarrow> bytes \<Rightarrow> Datagram \<Rightarrow> clong \<Rightarrow> s16 \<Rightarrow> login_server \<Rightarrow> login_server option" where
  "ProcessClientOpcode now msg hdr addr port =
     with_player (udp_player_id hdr)
       (\<lambda>i s. if m_Player_IPAddr (player s i) \<noteq> addr then Some s
              else if udp_opcode hdr = 0x2006 then Some s
              else if udp_opcode hdr = 0x3005 then HandleKeepCommsAlive now hdr addr port s
              else if udp_opcode hdr = 0x3006 then DropPlayerFromGalaxy i s
              else Some (log_event (PlayerMessage i (udp_opcode hdr) (udp_size hdr) msg) s)) id"

definition HandleMasterOpcode ::
    "login_env \<Rightarrow> bytes \<Rightarrow> Datagram \<Rightarrow> clong \<Rightarrow> s16 \<Rightarrow> login_server \<Rightarrow> login_server option" where
  "HandleMasterOpcode env msg hdr addr port s =
     (if udp_opcode hdr \<noteq> 0x2008 then Some s
      else do {
        b \<leftarrow> peek msg 0 5;
        with_player (udp_player_id hdr)
          (\<lambda>i s1. Some (case sector_server env (le_word (take 4 b)) of None \<Rightarrow> s1
             | Some (ip, sport) \<Rightarrow>
                 (let s2 = log_event (HandoffConfirmed i ip sport addr port) s1
                  in if 0 < last b then log_event (PacketOptRequested i) s2 else s2)))
          (send 0x100A (replicate 4 0) addr port) s
      })"

section \<open>From the wire to the handlers\<close>

datatype plane = MVAS | GLOBAL | SECTOR | MASTER

definition MAX_BUFFER :: nat where "MAX_BUFFER = 25000"

definition read_header :: "bytes \<Rightarrow> Datagram option" where
  "read_header buf = do {
     h \<leftarrow> peek buf 0 12;
     Some \<lparr>udp_size = le_word (take 2 h), udp_opcode = le_word (take 2 (drop 2 h)),
           udp_player_id = le_word (take 4 (drop 4 h)), packet_sequence = le_word (drop 8 h), udp_payload = drop 12 buf\<rparr>
   }"

text \<open>
  The terminating zero is written before the size is compared with the bytes received. (\<^verbatim>\<open>ProcessTicketInfo\<close> also
  writes a zero over the dash of its ticket; that byte of the receive buffer, which only a later message that
  runs past its own end could meet, is not kept.) A sector connection is in operation here.
\<close>

definition handle_datagram ::
    "login_env \<Rightarrow> moment \<Rightarrow> plane \<Rightarrow> bytes \<Rightarrow> Datagram \<Rightarrow> clong \<Rightarrow> s16 \<Rightarrow> login_server \<Rightarrow> login_server option" where
  "handle_datagram env now pl msg hdr addr port s =
     (case pl of MVAS \<Rightarrow> HandleMVASOpcode env now msg hdr addr port s
      | GLOBAL \<Rightarrow> HandleGlobalOpcode env now msg (udp_opcode hdr) addr port s
      | SECTOR \<Rightarrow> ProcessClientOpcode now msg hdr addr port s
      | MASTER \<Rightarrow> HandleMasterOpcode env msg hdr addr port s)"

definition DispatchDatagram ::
    "login_env \<Rightarrow> moment \<Rightarrow> plane \<Rightarrow> bytes \<Rightarrow> nat \<Rightarrow> clong \<Rightarrow> s16 \<Rightarrow> login_server \<Rightarrow> (bytes \<times> login_server) option" where
  "DispatchDatagram env now pl buf received addr port s = do {
     hdr \<leftarrow> read_header buf;
     buf1 \<leftarrow> (if udp_size hdr <s 0 then None else poke buf (unat (udp_size hdr)) [0]);
     let msg = drop UDP_HEADER_SIZE buf1;
     let bytes = unat (udp_size hdr - of_nat UDP_HEADER_SIZE);
     if received \<noteq> bytes + UDP_HEADER_SIZE then Some (buf1, s)
     else map_option (Pair buf1) (handle_datagram env now pl msg hdr addr port s)
   }"

text \<open>The lookup that \<^verbatim>\<open>RunRecvThread\<close> passes to the check.\<close>

definition bound_token :: "s32 \<Rightarrow> login_server \<Rightarrow> (bytes option \<times> login_server) option" where
  "bound_token game_id s =
     map_option (\<lambda>(p, s1). (case p of None \<Rightarrow> None
         | Some i \<Rightarrow> if m_AuthTokenSet (player s1 i) then Some (m_AuthToken (player s1 i)) else None, s1))
       (find_player game_id s)"

text \<open>One decrypted record of a peer; the buffer keeps the bytes of earlier records behind a shorter one.\<close>

definition receive_record ::
    "login_env \<Rightarrow> moment \<Rightarrow> plane \<Rightarrow> bytes \<Rightarrow> clong \<Rightarrow> s16 \<Rightarrow> bytes \<times> login_server \<Rightarrow> (bytes \<times> login_server) option" where
  "receive_record env now pl rec addr port bs = do {
     (verdict, s1) \<leftarrow> CheckAuthWrapper rec MAX_BUFFER bound_token (snd bs);
     case verdict of Accept inner \<Rightarrow> do {
         buf \<leftarrow> poke (fst bs) 0 inner;
         DispatchDatagram env now pl buf (length inner) addr port s1
       }
     | _ \<Rightarrow> Some (fst bs, s1)
   }"

end
