(* ===== verification/LoginProps.thy ===== *)
theory LoginProps
  imports LoginServer
begin

text \<open>
  Properties of the parts of a login: the check of the wrapper, the stash of session tokens as the
  latest unused token of a session, the rules for names, and what becomes of a ticket from its issue to its
  presentation.
\<close>

section \<open>Tokens are compared as a whole\<close>

lemma fold_or_zero: "fold (\<lambda>i diff. diff OR f i) xs d = (0 :: 'a::len word) \<longleftrightarrow> d = 0 \<and> (\<forall>i \<in> set xs. f i = 0)"
  by (induction xs arbitrary: d) (auto simp: or_eq_0_iff)

lemma xor_zero_iff: "(x :: 'a::len word) XOR y = 0 \<longleftrightarrow> x = y"
  by (metis bit.xor_self xor.assoc xor.right_neutral)

lemma ConstantTimeTokenEqual_iff:
  assumes "length a = 16" and "16 \<le> length b"
  shows "ConstantTimeTokenEqual a b \<longleftrightarrow> take 16 b = a"
  using assms by (auto simp: ConstantTimeTokenEqual_def token_difference_def fold_or_zero xor_zero_iff kAuthTokenLen_def
      list_eq_iff_nth_eq)

section \<open>The wrapper\<close>

lemma wrapper_length: "kAuthWrapperLen = 17"
  by (simp add: kAuthWrapperLen_def kAuthTokenLen_def)

definition inner_player_id :: "bytes \<Rightarrow> s32" where
  "inner_player_id inner = le_word (take 4 (drop kUdpHeaderPlayerIdOff inner))"

text \<open>A record as a peer that knows the token forms it.\<close>

definition wrapped :: "bytes \<Rightarrow> bytes \<Rightarrow> bytes" where
  "wrapped tok inner = kAuthWrapperVersion # tok @ inner"

lemma wrapped_drop [simp]:
  "length tok = 16 \<Longrightarrow> drop 17 (wrapped tok inner) = inner"
  "length tok = 16 \<Longrightarrow> take 16 (drop 1 (wrapped tok inner)) = tok"
  by (simp_all add: wrapped_def)

lemma length_wrapped [simp]: "length (wrapped tok inner) = Suc (length tok + length inner)"
  by (simp add: wrapped_def)

lemma unwrap:
  assumes "17 \<le> length rec" and "rec ! 0 = kAuthWrapperVersion"
  shows "rec = wrapped (take 16 (drop 1 rec)) (drop 17 rec)"
proof -
  have "rec = take 1 rec @ take 16 (drop 1 rec) @ drop 17 rec"
    by (metis append_assoc append_take_drop_id drop_drop numeral_eq_Suc numeral_plus_one pred_numeral_simps(2)
        semiring_norm(2) semiring_norm(5) take_add plus_1_eq_Suc)
  moreover have "take 1 rec = [kAuthWrapperVersion]"
    using assms by (cases rec) (auto simp: take_Suc_conv_app_nth)
  ultimately show ?thesis by (simp add: wrapped_def)
qed

text \<open>
  The check accepts exactly the records that consist of the version, a token and a datagram with
  a complete header, that are smaller than the buffer, and whose token is the one bound to the player
  that the header names; a header that names no player passes with any token.
\<close>

lemma CheckAuthWrapper_iff:
  assumes "\<And>game_id b s1. look game_id s = Some (Some b, s1) \<Longrightarrow> length b = 16"
  shows "CheckAuthWrapper rec max_buffer look s = Some (Accept inner, s') \<longleftrightarrow>
    (\<exists>tok. rec = wrapped tok inner \<and> length tok = 16 \<and> 12 \<le> length inner \<and> length rec < max_buffer \<and>
       (if inner_player_id inner = 0 then s' = s else look (inner_player_id inner) s = Some (Some tok, s')))"
    (is "?check = _ \<longleftrightarrow> (\<exists>tok. ?spec tok)")
proof (cases "29 \<le> length rec \<and> length rec < max_buffer \<and> rec ! 0 = kAuthWrapperVersion")
  case False
  then have "?check \<noteq> Some (Accept inner, s')"
    by (auto simp: CheckAuthWrapper_def kAuthWrapperLen_def kUdpHeaderLen_def kAuthTokenLen_def)
  moreover have "\<not> ?spec tok" for tok using False by (auto simp: wrapped_def)
  ultimately show ?thesis by blast
next
  case True
  define tok where "tok = take 16 (drop 1 rec)"
  define body where "body = drop 17 rec"
  have rec: "rec = wrapped tok body" and len: "length tok = 16" "12 \<le> length body"
    using True unwrap [of rec] by (auto simp: tok_def body_def)
  have only: "?spec t \<longleftrightarrow> t = tok \<and> inner = body \<and>
      (if inner_player_id body = 0 then s' = s else look (inner_player_id body) s = Some (Some tok, s'))" for t
    using len True unfolding rec by (auto simp: wrapped_def)
  have cmp: "ConstantTimeTokenEqual b (drop 1 rec) \<longleftrightarrow> tok = b" if "length b = 16" for b
    using ConstantTimeTokenEqual_iff [OF that, of "drop 1 rec"] True unfolding tok_def by fastforce
  have "?check = (if inner_player_id body = 0 then Some (Accept body, s)
      else Option.bind (look (inner_player_id body) s) (\<lambda>(bound, s1). case bound of None \<Rightarrow> Some (DropTokenMismatch, s1)
        | Some b \<Rightarrow> if ConstantTimeTokenEqual b (drop 1 rec) then Some (Accept body, s1) else Some (DropTokenMismatch, s1)))"
    using True unfolding CheckAuthWrapper_def inner_player_id_def body_def wrapper_length kUdpHeaderLen_def Let_def
    by simp
  then show ?thesis
    unfolding only using assms cmp
    by (auto split: option.splits if_splits Option.bind_splits)
qed

section \<open>The stash of session tokens\<close>

lemma push_or_bits:
  "bit (DtlsPeerKey ip port) n \<longleftrightarrow> (if n < 16 then bit port n else n < 48 \<and> bit ip (n - 16))"
  by (auto simp: DtlsPeerKey_def bit_or_iff bit_push_bit_iff bit_ucast_iff dest: bit_imp_le_length)

lemma DtlsPeerKey_inject: "DtlsPeerKey ip port = DtlsPeerKey ip' port' \<longleftrightarrow> ip = ip' \<and> port = port'"
proof
  assume eq: "DtlsPeerKey ip port = DtlsPeerKey ip' port'"
  have "port = port'"
  proof (rule bit_word_eqI)
    fix n assume "n < LENGTH(16)"
    then show "bit port n = bit port' n" using arg_cong [OF eq, of "\<lambda>w. bit w n"] by (simp add: push_or_bits)
  qed
  moreover have "ip = ip'"
  proof (rule bit_word_eqI)
    fix n assume "n < LENGTH(32)"
    then show "bit ip n = bit ip' n" using arg_cong [OF eq, of "\<lambda>w. bit w (n + 16)"] by (simp add: push_or_bits)
  qed
  ultimately show "ip = ip' \<and> port = port'" by simp
qed simp

text \<open>A session is an address and a port; the history is a list of operations with their times, the newest first.\<close>

datatype token_op = Stash clong s16 bytes | Take clong s16

definition same_session :: "clong \<Rightarrow> s16 \<Rightarrow> clong \<Rightarrow> s16 \<Rightarrow> bool" where
  "same_session a p a' p' \<longleftrightarrow> (ucast a :: u32) = ucast a' \<and> p = p'"

lemma session_key_eq: "session_key a p = session_key a' p' \<longleftrightarrow> same_session a p a' p'"
  by (simp add: session_key_def same_session_def DtlsPeerKey_inject)

fun tokens_after :: "(nat \<times> token_op) list \<Rightarrow> session_tokens" where
  "tokens_after [] = Map.empty"
| "tokens_after ((t, Stash a p tok) # h) = StashSessionToken (of_nat t) a p tok (tokens_after h)"
| "tokens_after ((t, Take a p) # h) = snd (TakeSessionToken (of_nat t) a p (tokens_after h))"

text \<open>What is promised: the last token stashed for the session, unless it was taken since.\<close>

fun pending_token :: "clong \<Rightarrow> s16 \<Rightarrow> (nat \<times> token_op) list \<Rightarrow> (nat \<times> bytes) option" where
  "pending_token a p [] = None"
| "pending_token a p ((t, Stash a' p' tok) # h) =
     (if same_session a p a' p' then Some (t, tok) else pending_token a p h)"
| "pending_token a p ((t, Take a' p') # h) = (if same_session a p a' p' then None else pending_token a p h)"

definition newest_first :: "(nat \<times> token_op) list \<Rightarrow> bool" where
  "newest_first h \<longleftrightarrow> sorted_wrt (\<lambda>x y. fst y \<le> fst x) h \<and> (\<forall>x \<in> set h. fst x < 2 ^ 40)"

lemma sint_ms: "n < 2 ^ 50 \<Longrightarrow> sint (of_nat n :: clong) = int n"
  by (simp add: signed_of_nat signed_take_bit_int_eq_self)

lemma now_ms_of_nat: "now_ms (of_nat t) = of_nat (1000 * t)"
  by (simp add: now_ms_def)

lemma expiry_of_nat: "now_ms (of_nat t) + kSessionTokenTtlMs = of_nat (1000 * (t + 300))"
  by (simp add: now_ms_def kSessionTokenTtlMs_def algebra_simps)

lemma ms_less: "t < 2 ^ 40 \<Longrightarrow> t0 < 2 ^ 40 \<Longrightarrow> (of_nat (1000 * (t0 + 300)) <s now_ms (of_nat t)) = (t0 + 300 < t)"
  by (simp only: now_ms_of_nat word_sless_alt) (simp add: sint_ms del: of_nat_add of_nat_mult, arith)

lemma ms_le: "t < 2 ^ 40 \<Longrightarrow> t0 < 2 ^ 40 \<Longrightarrow> (now_ms (of_nat t) \<le>s of_nat (1000 * (t0 + 300))) = (t \<le> t0 + 300)"
  using ms_less [of t t0] by (auto simp: word_sless_alt word_sle_eq)

text \<open>The entry of a session is the pending token, unless it expired and was pruned on the way.\<close>

definition stash_entry :: "nat \<Rightarrow> session_tokens \<Rightarrow> clong \<Rightarrow> s16 \<Rightarrow> (nat \<times> bytes) option \<Rightarrow> bool" where
  "stash_entry now m a p pend \<longleftrightarrow>
     (case pend of None \<Rightarrow> m (session_key a p) = None
      | Some (t0, tok) \<Rightarrow> t0 \<le> now \<and>
          (if t0 + 300 < now then m (session_key a p) \<in> {None, Some \<lparr>st_token = tok, expires_ms = of_nat (1000 * (t0 + 300))\<rparr>}
           else m (session_key a p) = Some \<lparr>st_token = tok, expires_ms = of_nat (1000 * (t0 + 300))\<rparr>))"

lemma stash_entry_later: "stash_entry now m a p pend \<Longrightarrow> now \<le> now' \<Longrightarrow> stash_entry now' m a p pend"
  by (auto simp: stash_entry_def split: option.splits if_splits)

lemma prune_entry:
  assumes "stash_entry t m a p pend" and "t < 2 ^ 40"
  shows "stash_entry t (prune_tokens (now_ms (of_nat t)) m) a p pend"
  using assms ms_less [of t]
  by (auto simp: stash_entry_def prune_tokens_def split: option.splits if_splits)

lemma stash_keeps_entry:
  assumes "stash_entry t m a p pend" and "t < 2 ^ 40"
  shows "stash_entry t (StashSessionToken (of_nat t) a' p' tok m) a p
           (if same_session a p a' p' then Some (t, tok) else pend)"
  using prune_entry [OF assms] unfolding StashSessionToken_def expiry_of_nat
  by (auto simp: stash_entry_def session_key_eq split: option.splits)

lemma take_keeps_entry:
  assumes "stash_entry t m a p pend"
  shows "stash_entry t (snd (TakeSessionToken time a' p' m)) a p (if same_session a p a' p' then None else pend)"
proof (cases "same_session a p a' p'")
  case True
  then have "session_key a p = session_key a' p'" by (simp add: session_key_eq)
  then show ?thesis using True by (auto simp: stash_entry_def TakeSessionToken_def Let_def split: option.splits)
next
  case False
  then have "session_key a p \<noteq> session_key a' p'" by (simp add: session_key_eq)
  then show ?thesis using False assms
    by (auto simp: stash_entry_def TakeSessionToken_def Let_def split: option.splits if_splits)
qed

lemma tokens_after_entry:
  assumes "newest_first h" and "\<forall>x \<in> set h. fst x \<le> now"
  shows "stash_entry now (tokens_after h) a p (pending_token a p h)"
  using assms
proof (induction h arbitrary: now)
  case Nil
  then show ?case by (simp add: stash_entry_def)
next
  case (Cons x h)
  obtain t op where x: "x = (t, op)" by (cases x)
  have "stash_entry t (tokens_after h) a p (pending_token a p h)"
    using Cons.prems by (intro Cons.IH) (auto simp: newest_first_def x)
  moreover have t: "t < 2 ^ 40" "t \<le> now" using Cons.prems by (auto simp: newest_first_def x)
  ultimately have "stash_entry t (tokens_after (x # h)) a p (pending_token a p (x # h))"
    using stash_keeps_entry take_keeps_entry by (cases op) (simp_all add: x)
  then show ?case using t(2) by (rule stash_entry_later)
qed

lemma take_entry:
  assumes "stash_entry t m a p pend" and "t < 2 ^ 40"
  shows "fst (TakeSessionToken (of_nat t) a p m) =
    (case pend of Some (t0, tok) \<Rightarrow> if t \<le> t0 + 300 then Some tok else None | None \<Rightarrow> None)"
  using assms ms_le [of t]
  by (auto simp: stash_entry_def TakeSessionToken_def Let_def split: option.splits if_splits)

text \<open>
  C12: whatever the other sessions stash and take, a session gets back the token it stashed last, once, and
  at most five minutes later.
\<close>

theorem session_tokens_refine:
  assumes "newest_first ((t, Take a p) # h)"
  shows "fst (TakeSessionToken (of_nat t) a p (tokens_after h)) =
    (case pending_token a p h of Some (t0, tok) \<Rightarrow> if t \<le> t0 + 300 then Some tok else None | None \<Rightarrow> None)"
proof (rule take_entry)
  show "stash_entry t (tokens_after h) a p (pending_token a p h)"
    using assms by (intro tokens_after_entry) (auto simp: newest_first_def)
  show "t < 2 ^ 40" using assms by (simp add: newest_first_def)
qed

lemma session_tokens_refine_witness:
  "fst (TakeSessionToken (of_nat 320) 5 7 (tokens_after
      [(310, Take 5 9), (100, Stash 5 9 [3]), (90, Stash 6 7 [4]), (30, Stash 5 7 [1]), (20, Stash 5 7 [2])])) = Some [1]"
  using session_tokens_refine [of 320 5 7 "[(310, Take 5 9), (100, Stash 5 9 [3]), (90, Stash 6 7 [4]),
      (30, Stash 5 7 [1]), (20, Stash 5 7 [2])]"]
  by (simp add: newest_first_def same_session_def)

section \<open>Names\<close>

definition three_alike :: "bytes \<Rightarrow> bool" where
  "three_alike name \<longleftrightarrow> (\<exists>xs c ys. map lower name = xs @ [c, c, c] @ ys)"

definition has_vowel :: "bytes \<Rightarrow> bool" where
  "has_vowel name \<longleftrightarrow> (\<exists>c \<in> set name. c \<in> set vowels)"

text \<open>\<open>run_of\<close> says that three equal elements follow each other.\<close>

fun run_of :: "'a list \<Rightarrow> bool" where
  "run_of (x # y # z # r) \<longleftrightarrow> x = y \<and> y = z \<or> run_of (y # z # r)"
| "run_of _ \<longleftrightarrow> False"

lemma run_of_iff: "run_of l \<longleftrightarrow> (\<exists>xs c ys. l = xs @ [c, c, c] @ ys)"
proof (induction l rule: run_of.induct)
  case (1 x y z r)
  show ?case
  proof
    assume "run_of (x # y # z # r)"
    then consider "x = y \<and> y = z" | "run_of (y # z # r)" by auto
    then show "\<exists>xs c ys. x # y # z # r = xs @ [c, c, c] @ ys"
    proof cases
      case 1
      then have "x # y # z # r = [] @ [x, x, x] @ r" by simp
      then show ?thesis by blast
    next
      case 2
      then obtain xs c ys where "y # z # r = xs @ [c, c, c] @ ys" using "1" by blast
      then have "x # y # z # r = (x # xs) @ [c, c, c] @ ys" by simp
      then show ?thesis by blast
    qed
  next
    assume "\<exists>xs c ys. x # y # z # r = xs @ [c, c, c] @ ys"
    then obtain xs c ys where eq: "x # y # z # r = xs @ [c, c, c] @ ys" by blast
    show "run_of (x # y # z # r)"
    proof (cases xs)
      case Nil
      then show ?thesis using eq by simp
    next
      case (Cons a xs')
      then have "\<exists>xs c ys. y # z # r = xs @ [c, c, c] @ ys" using eq by auto
      then show ?thesis using "1" by simp
    qed
  qed
qed (auto simp: append_eq_Cons_conv Cons_eq_append_conv)

text \<open>What the loop still remembers of the characters before.\<close>

definition remembered :: "u8 \<Rightarrow> u8 \<Rightarrow> bytes" where
  "remembered last_chr count = (if count = 1 then [last_chr, last_chr] else [last_chr])"

lemma run_of_skip: "a \<noteq> b \<Longrightarrow> run_of (a # b # r) = run_of (b # r)"
  by (cases r) auto

lemma run_of_remembered:
  "count = 0 \<or> count = 1 \<Longrightarrow> last_chr \<noteq> c \<Longrightarrow> run_of (remembered last_chr count @ c # r) = run_of (c # r)"
  by (auto simp: remembered_def run_of_skip)

lemma name_loop_spec:
  assumes "count = 0 \<or> count = 1"
  shows "name_loop cs hv last_chr count =
    (if run_of (remembered last_chr count @ map lower cs) then Inl G_ERROR_REPEATING_CHAR else Inr (hv \<or> has_vowel cs))"
  using assms
proof (induction cs arbitrary: hv last_chr count)
  case Nil
  then show ?case by (auto simp: remembered_def has_vowel_def)
next
  case (Cons c cs)
  have vowel: "(hv \<or> c \<in> set vowels \<or> has_vowel cs) = (hv \<or> has_vowel (c # cs))" by (simp add: has_vowel_def)
  show ?case
  proof (cases "last_chr = lower c")
    case same: True
    show ?thesis
    proof (cases "count = 1")
      case True
      then show ?thesis using same by (simp add: remembered_def)
    next
      case False
      then have "count = 0" using Cons.prems by simp
      then show ?thesis using same Cons.IH [of 1 "hv \<or> c \<in> set vowels" "lower c"] vowel
        by (simp add: remembered_def Let_def)
    qed
  next
    case False
    then show ?thesis using Cons.prems Cons.IH [of 0 "hv \<or> c \<in> set vowels" "lower c"] vowel
      run_of_remembered [OF Cons.prems False]
      by (simp add: remembered_def Let_def)
  qed
qed

lemma lower_zero: "lower c = 0 \<longleftrightarrow> c = 0"
proof -
  have "c + 32 \<noteq> 0" if "65 \<le> c" "c \<le> 90" for c :: u8
  proof
    assume "c + 32 = 0"
    then have "c = - 32" by (simp add: eq_neg_iff_add_eq_0)
    then show False using that by simp
  qed
  then show ?thesis by (auto simp: lower_def)
qed

lemma small_slot: "(0 \<le>s slot \<and> slot \<le>s 4) = (slot \<in> {0, 1, 2, 3, 4 :: s32})"
proof -
  have "slot \<in> {0, 1, 2, 3, 4}" if "0 \<le>s slot" "slot \<le>s 4"
  proof -
    have "sint slot \<in> {0, 1, 2, 3, 4}" using that by (auto simp: word_sle_eq)
    moreover have "sint slot = k \<Longrightarrow> slot = word_of_int k" for k by auto
    ultimately show ?thesis by fastforce
  qed
  then show ?thesis by (auto simp: word_sle_eq)
qed

text \<open>
  C25: the outcome of creating a character, on every branch and in the order of the checks: a name needs three
  characters, no character three times in a row whatever its case, a lower-case vowel (a capital one does
  not count), and both names must be allowed and the first unused; then the avatar number follows from
  account and slot.
\<close>

theorem CreateCharacter_outcome:
  assumes "0 \<notin> set (avatar_first_name c)"
  shows "CreateCharacter env c =
    (if length (avatar_first_name c) < 3 then Inl G_ERROR_TOO_SHORT
     else if three_alike (avatar_first_name c) then Inl G_ERROR_REPEATING_CHAR
     else if \<not> has_vowel (avatar_first_name c) then Inl G_ERROR_ONE_VOWEL
     else if forbidden_name env (avatar_first_name c) then Inl G_ERROR_RESTRICTED_LIST
     else if forbidden_name env (ship_name c) then Inl G_ERROR_RESTRICTED_SHIP
     else if name_used env (avatar_first_name c) then Inl G_ERROR_NICKNAME_USED
     else if ntohl (character_slot c) \<in> {0, 1, 2, 3, 4} \<and> account_id env (account_username c) \<noteq> -1 \<and>
             AVATAR_ID (account_id env (account_username c)) (ucast (ntohl (character_slot c))) \<noteq> -1
     then Inr (AVATAR_ID (account_id env (account_username c)) (ucast (ntohl (character_slot c))))
     else Inl G_ERROR_NET7_INTERNAL)"
proof -
  let ?n = "avatar_first_name c" and ?slot = "ntohl (character_slot c)"
  have "run_of (0 # map lower ?n) = run_of (map lower ?n)"
  proof (cases ?n)
    case (Cons x xs)
    then have "0 \<noteq> lower x" using assms lower_zero by (metis list.set_intros(1))
    then show ?thesis using Cons by (simp add: run_of_skip)
  qed simp
  then have loop: "name_loop ?n False 0 0 = (if three_alike ?n then Inl G_ERROR_REPEATING_CHAR else Inr (has_vowel ?n))"
    by (simp add: name_loop_spec remembered_def run_of_iff three_alike_def)
  have slot: "(0 \<le>s ?slot \<and> ?slot \<le>s 4) = (?slot \<in> {0, 1, 2, 3, 4})"
    by (rule small_slot)
  have "scast ?slot = (ucast ?slot :: clong)" if "?slot \<in> {0, 1, 2, 3, 4}" using that by auto
  then show ?thesis unfolding CreateCharacter_def loop GetAvatarID_def slot Let_def
    by auto
qed

lemma CreateCharacter_outcome_witness:
  "CreateCharacter (\<lparr>sodium_ready = True, hex2bin = \<lambda>_. None, bin2hex = id, upsert_ok = True, account_id = \<lambda>_. 9,
     account_status = \<lambda>_. 1, validate_account = \<lambda>_ _. -1, forbidden_name = \<lambda>_. False, name_used = \<lambda>_. False,
     assignments_complete = True, sector_server = \<lambda>_. None, mvas_frequency = \<lambda>_ _. None\<rparr>)
     \<lparr>character_slot = 0, account_username = [98], avatar_first_name = [66, 111, 79, 98], ship_name = []\<rparr> = Inr 46"
  (is "CreateCharacter ?env ?c = _")
proof -
  have "0 \<notin> set (avatar_first_name ?c)" by simp
  moreover have "\<not> three_alike (avatar_first_name ?c)"
    unfolding three_alike_def run_of_iff [symmetric] by (simp add: lower_def)
  moreover have "has_vowel (avatar_first_name ?c)" by (simp add: has_vowel_def vowels_def)
  moreover have "ntohl 0 = 0" by code_simp
  ultimately show ?thesis by (subst CreateCharacter_outcome) (simp_all add: AVATAR_ID_def)
qed

end
