(* ===== verification/TicketProps.thy ===== *)
theory TicketProps
  imports LoginProps
begin

text \<open>
  A ticket from its issue (\<^verbatim>\<open>BuildTicket\<close>, \<^verbatim>\<open>StoreTicketRow\<close>) to its presentation
  (\<^verbatim>\<open>ProcessTicketInfo\<close>): it is accepted for half an hour when the user name has no dash and at most 30
  characters; a name with a dash is locked out and takes away the ticket of another account; a longer name
  is let in without a token for its datagrams.
\<close>

section \<open>Parameters and strings\<close>

text \<open>What libsodium documents of its conversion between bytes and hexadecimal digits.\<close>

definition hex_codec :: "login_env \<Rightarrow> bool" where
  "hex_codec env \<longleftrightarrow>
     (\<forall>t. length (bin2hex env t) = 2 * length t \<and> dash \<notin> set (bin2hex env t) \<and> 0 \<notin> set (bin2hex env t) \<and>
          hex2bin env (bin2hex env t) = Some t) \<and>
     (\<forall>h b. hex2bin env h = Some b \<longrightarrow> length h = 2 * length b)"

lemma hex_codecD:
  assumes "hex_codec env"
  shows "length (bin2hex env t) = 2 * length t" and "dash \<notin> set (bin2hex env t)" and "0 \<notin> set (bin2hex env t)"
    and "hex2bin env (bin2hex env t) = Some t" and "hex2bin env h = Some b \<Longrightarrow> length h = 2 * length b"
  using assms by (simp_all add: hex_codec_def)

lemma first_index_append: "\<forall>y \<in> set a. \<not> P y \<Longrightarrow> P x \<Longrightarrow> first_index P (a @ x # b) = Some (length a)"
  by (induction a) auto

lemma last_index_append: "\<forall>y \<in> set b. \<not> P y \<Longrightarrow> P x \<Longrightarrow> last_index P (a @ x # b) = Some (length a)"
  using first_index_append [of "rev b" P x "rev a"] by (simp add: last_index_def)

lemma ball_neq: "x \<notin> set xs \<Longrightarrow> \<forall>y \<in> set xs. y \<noteq> x"
  by auto

lemma split_ticket_append: "dash \<notin> set hex \<Longrightarrow> split_ticket (name @ dash # hex) = (name, Some hex)"
  by (simp add: split_ticket_def last_index_append [of hex "\<lambda>c. c = dash" dash name] ball_neq)

lemma StoreTicketRow_append:
  assumes "dash \<notin> set name" and "length name + length rest < 63"
  shows "StoreTicketRow env time (name @ dash # rest) rows =
    (if upsert_ok env then rows(name \<mapsto> (rest, now_ms time + TICKET_EXPIRE_TIME)) else rows)"
  using assms by (simp add: StoreTicketRow_def first_index_append [of name "\<lambda>c. c = dash" dash rest] ball_neq Let_def)

text \<open>The millisecond in which a ticket issued in second \<open>t\<close> expires.\<close>

definition ticket_end :: "nat \<Rightarrow> clong" where "ticket_end t = of_nat (1000 * (t + 1800))"

lemma ticket_expiry: "now_ms (of_nat t) + TICKET_EXPIRE_TIME = ticket_end t"
  by (simp add: ticket_end_def now_ms_def TICKET_EXPIRE_TIME_def algebra_simps)

lemma ticket_not_expired:
  "t1 \<le> t + 1800 \<Longrightarrow> t1 < 2 ^ 40 \<Longrightarrow> t < 2 ^ 40 \<Longrightarrow> \<not> ticket_end t <s now_ms (of_nat t1)"
  by (simp only: ticket_end_def now_ms_of_nat word_sless_alt) (simp add: sint_ms del: of_nat_add of_nat_mult)

section \<open>An environment\<close>

text \<open>Hexadecimal digits, and an environment with two accounts for the examples.\<close>

definition hex_digit :: "nat \<Rightarrow> u8" where
  "hex_digit n = of_nat (if n < 10 then 48 + n else 87 + n)"

definition digit_value :: "u8 \<Rightarrow> nat option" where
  "digit_value c = (if 48 \<le> unat c \<and> unat c \<le> 57 then Some (unat c - 48)
                    else if 97 \<le> unat c \<and> unat c \<le> 102 then Some (unat c - 87) else None)"

definition to_hex :: "bytes \<Rightarrow> bytes" where
  "to_hex t = concat (map (\<lambda>b. [hex_digit (unat b div 16), hex_digit (unat b mod 16)]) t)"

fun from_hex :: "bytes \<Rightarrow> bytes option" where
  "from_hex [] = Some []"
| "from_hex [_] = None"
| "from_hex (x # y # r) =
     Option.bind (digit_value x) (\<lambda>a. Option.bind (digit_value y) (\<lambda>b. map_option (\<lambda>bs. of_nat (16 * a + b) # bs) (from_hex r)))"

lemma unat_hex_digit: "n < 16 \<Longrightarrow> unat (hex_digit n) = (if n < 10 then 48 + n else 87 + n)"
  by (auto simp: hex_digit_def unat_of_nat)

lemma digit_value_hex: "n < 16 \<Longrightarrow> digit_value (hex_digit n) = Some n"
  by (auto simp: digit_value_def unat_hex_digit)

lemma hex_digit_plain: "n < 16 \<Longrightarrow> dash \<noteq> hex_digit n \<and> 0 \<noteq> hex_digit n"
  using unat_hex_digit [of n] by (auto simp: dash_def split: if_splits)

lemma byte_digits: "unat (b :: u8) div 16 < 16"
  using unsigned_less [of b] by (simp add: div_less_iff_less_mult)

lemma from_to_hex: "from_hex (to_hex t) = Some t"
proof (induction t)
  case (Cons b t)
  have "(of_nat (16 * (unat b div 16) + unat b mod 16) :: u8) = b"
    by (simp only: mult_div_mod_eq) simp
  then show ?case using Cons byte_digits [of b] by (simp add: to_hex_def digit_value_hex del: of_nat_add of_nat_mult)
qed (simp add: to_hex_def)

lemma from_hex_length: "from_hex h = Some b \<Longrightarrow> length h = 2 * length b"
  by (induction h arbitrary: b rule: from_hex.induct) (auto split: Option.bind_splits)

definition example_env :: login_env where
  "example_env = \<lparr>sodium_ready = True, hex2bin = from_hex, bin2hex = to_hex, upsert_ok = True,
     account_id = (\<lambda>n. if n = [98, 111, 98] then 9 else if n = [97, 110, 110] then 8 else -1), account_status = \<lambda>_. 1,
     validate_account = \<lambda>_ _. -1, forbidden_name = \<lambda>_. False, name_used = \<lambda>_. False,
     assignments_complete = True, sector_server = \<lambda>_. None, mvas_frequency = \<lambda>_ _. None\<rparr>"

lemma example_hex: "hex_codec example_env"
proof -
  have "length (to_hex t) = 2 * length t" for t by (induction t) (simp_all add: to_hex_def)
  moreover have "dash \<notin> set (to_hex t) \<and> 0 \<notin> set (to_hex t)" for t
    by (induction t) (auto simp: to_hex_def hex_digit_plain byte_digits)
  ultimately show ?thesis
    unfolding hex_codec_def example_env_def by (simp add: from_to_hex from_hex_length)
qed

definition empty_server :: login_server where
  "empty_server = \<lparr>m_GlobMemMgr = new_GMemoryHandler (replicate 500 blank_node), m_PlayerLookup = Map.empty,
     m_GlobalPlayerList = replicate 16 0, g_SessionTokens = Map.empty, login_ticket = Map.empty, m_Tickets = SetupTickets,
     m_RegisteredAddrs = [], m_SSLIPAddr = 0, m_SSLPort = 0, m_LoginAttempts = 0, login_log = []\<rparr>"

section \<open>Issue and presentation\<close>

lemma BuildTicket_short:
  assumes "hex_codec env" and "length tok = 16" and "length name \<le> 30"
  shows "fst (BuildTicket env time cur tok name tickets rows) = name @ dash # bin2hex env tok"
    and "snd (snd (BuildTicket env time cur tok name tickets rows)) = StoreTicketRow env time (name @ dash # bin2hex env tok) rows"
  using assms hex_codecD(1) [OF assms(1), of tok] by (simp_all add: BuildTicket_def Let_def)

definition can_enter :: "login_env \<Rightarrow> bytes \<Rightarrow> bool" where
  "can_enter env name \<longleftrightarrow> account_id env name \<noteq> -1 \<and> account_status env name \<notin> {0, -1, -2}"

text \<open>The handler on a ticket whose row is there.\<close>

lemma ProcessTicketInfo_valid:
  assumes "sodium_ready env" and "name \<noteq> []" and "0 \<notin> set name" and "0 \<notin> set hex" and "dash \<notin> set hex"
    and "hex \<noteq> []" and "login_ticket s name = Some (hex, ticket_end t)" and "can_enter env name"
    and "time_s now = of_nat t1" and "t1 \<le> t + 1800" and "t1 < 2 ^ 40" and "t < 2 ^ 40"
  shows "ProcessTicketInfo env now (name @ dash # hex @ 0 # rest) addr port s =
    (True, log_event (AvatarListSent (account_id env name) addr port) (log_event (LoginTimeUpdated (account_id env name))
       (case token_of_hex env hex of None \<Rightarrow> s
        | Some tok \<Rightarrow> s\<lparr>g_SessionTokens := StashSessionToken (time_s now) addr port tok (g_SessionTokens s)\<rparr>)))"
proof -
  have c: "cstr_of (name @ dash # hex @ 0 # rest) = name @ dash # hex"
    using cstr_of_append_zero [of "name @ dash # hex" rest] assms(3,4) by (simp add: cstring_def dash_def)
  have "\<not> ticket_end t <s now_ms (of_nat t1 :: clong)"
    using assms by (intro ticket_not_expired)
  then have v: "ValidateTicketSuffix env (time_s now) name hex (login_ticket s)"
    using assms by (simp add: ValidateTicketSuffix_def)
  have h: "TokenHexToBinary env hex = token_of_hex env hex"
    using assms by (simp add: TokenHexToBinary_def)
  show ?thesis
    using assms(2,8,9) v
    by (simp add: ProcessTicketInfo_def c split_ticket_append [OF assms(5)] h can_enter_def Let_def)
qed

text \<open>
  C13: a ticket is accepted when it is presented within 30 minutes: for the user of an account that exists and may log
  in (\<open>can_enter\<close>: its status is none of 0, -1 and -2), with a name without a dash and of at most 30 characters, the row that \<^verbatim>\<open>BuildTicket\<close> leaves lets \<^verbatim>\<open>ProcessTicketInfo\<close> accept the ticket it
  returned, stash the token that was drawn, and answer with the account's avatars.
\<close>

theorem issued_ticket_accepted:
  assumes "hex_codec env" and "sodium_ready env" and "upsert_ok env"
    and "name \<noteq> []" and "0 \<notin> set name" and "dash \<notin> set name" and "length name \<le> 30" and "length tok = 16"
    and "BuildTicket env (of_nat t) cur tok name tickets rows = (ticket, tickets', login_ticket s)"
    and "can_enter env name" and "time_s now = of_nat t1" and "t1 \<le> t + 1800" and "t1 < 2 ^ 40" and "t < 2 ^ 40"
  shows "ProcessTicketInfo env now (ticket @ 0 # rest) addr port s =
    (True, log_event (AvatarListSent (account_id env name) addr port) (log_event (LoginTimeUpdated (account_id env name))
       (s\<lparr>g_SessionTokens := StashSessionToken (time_s now) addr port tok (g_SessionTokens s)\<rparr>)))"
proof -
  let ?hex = "bin2hex env tok"
  have hex: "length ?hex = 32" "dash \<notin> set ?hex" "0 \<notin> set ?hex" "hex2bin env ?hex = Some tok"
    using hex_codecD [OF assms(1)] assms(8) by auto
  have ticket: "ticket = name @ dash # ?hex"
    and rows: "login_ticket s = StoreTicketRow env (of_nat t) (name @ dash # ?hex) rows"
    using BuildTicket_short [OF assms(1,8,7), of "of_nat t" cur tickets rows] assms(9) by simp_all
  have "login_ticket s name = Some (?hex, ticket_end t)"
    unfolding rows using StoreTicketRow_append [OF assms(6), of ?hex env "of_nat t" rows] assms(3,7) hex(1)
    by (simp add: ticket_expiry)
  then have "ProcessTicketInfo env now (name @ dash # ?hex @ 0 # rest) addr port s =
    (True, log_event (AvatarListSent (account_id env name) addr port) (log_event (LoginTimeUpdated (account_id env name))
       (case token_of_hex env ?hex of None \<Rightarrow> s
        | Some tok \<Rightarrow> s\<lparr>g_SessionTokens := StashSessionToken (time_s now) addr port tok (g_SessionTokens s)\<rparr>)))"
    using assms hex by (intro ProcessTicketInfo_valid [where t = t and ?t1.0 = t1]) auto
  then show ?thesis using hex assms(8) by (simp add: ticket token_of_hex_def)
qed

lemma issued_ticket_accepted_witness:
  "\<exists>ticket tickets rows. BuildTicket example_env (of_nat 1000) 5 (replicate 16 7) [98, 111, 98] SetupTickets Map.empty =
      (ticket, tickets, rows) \<and>
    fst (ProcessTicketInfo example_env \<lparr>time_s = of_nat 2800, tick_ms = 9, random_token = []\<rparr> (ticket @ 0 # []) 1 2
      (empty_server\<lparr>login_ticket := rows\<rparr>))"
proof -
  obtain ticket tickets rows where b: "BuildTicket example_env (of_nat 1000) 5 (replicate 16 7) [98, 111, 98] SetupTickets Map.empty =
      (ticket, tickets, rows)" by (metis prod_cases3)
  have e: "sodium_ready example_env" "upsert_ok example_env" "can_enter example_env [98, 111, 98]"
    by (simp_all add: example_env_def can_enter_def)
  have b': "BuildTicket example_env (of_nat 1000) 5 (replicate 16 7) [98, 111, 98] SetupTickets Map.empty =
      (ticket, tickets, login_ticket (empty_server\<lparr>login_ticket := rows\<rparr>))" using b by simp
  show ?thesis
    using b issued_ticket_accepted [OF example_hex e(1,2) _ _ _ _ _ b' e(3), of
        "\<lparr>time_s = of_nat 2800, tick_ms = 9, random_token = []\<rparr>" 2800 "[]" 1 2]
    by (simp add: dash_def)
qed

text \<open>
  C38: a user name with a dash. The row is stored under the part before the first dash, so it
  replaces the ticket of the account with that name, and the ticket just issued, which is split at
  its last dash, is rejected as invalid.
\<close>

theorem dashed_name_locked_out:
  assumes "hex_codec env" and "upsert_ok env" and "length tok = 16"
    and "dash \<notin> set front" and "0 \<notin> set front" and "0 \<notin> set rear" and "length front + length rear < 30"
    and "rows (front @ dash # rear) = None"
    and "BuildTicket env time cur tok (front @ dash # rear) tickets rows = (ticket, tickets', login_ticket s)"
  shows "login_ticket s = rows(front \<mapsto> (rear @ dash # bin2hex env tok, now_ms time + TICKET_EXPIRE_TIME)) \<and>
    ProcessTicketInfo env now (ticket @ 0 # rest) addr port s = (False, SendGlobalError G_ERROR_TICKET_INVALID addr port s)"
proof -
  let ?hex = "bin2hex env tok"
  have hex: "length ?hex = 32" "dash \<notin> set ?hex" "0 \<notin> set ?hex" using hex_codecD [OF assms(1)] assms(3) by auto
  have "length (front @ dash # rear) \<le> 30" using assms(7) by simp
  note built = BuildTicket_short [OF assms(1,3) this, of time cur tickets rows]
  have ticket: "ticket = (front @ dash # rear) @ dash # ?hex"
    and rows: "login_ticket s = StoreTicketRow env time (front @ dash # rear @ dash # ?hex) rows"
    using built assms(9) by simp_all
  have row: "login_ticket s = rows(front \<mapsto> (rear @ dash # ?hex, now_ms time + TICKET_EXPIRE_TIME))"
    unfolding rows using StoreTicketRow_append [OF assms(4), of "rear @ dash # ?hex" env time rows] assms(2,7) hex(1)
    by simp
  have "cstr_of (ticket @ 0 # rest) = (front @ dash # rear) @ dash # ?hex"
    using cstr_of_append_zero [of "(front @ dash # rear) @ dash # ?hex" rest] assms(5,6) hex(3)
    by (simp add: ticket cstring_def dash_def)
  moreover have "login_ticket s (front @ dash # rear) = None"
    using assms(8) by (simp add: row)
  ultimately show ?thesis
    using split_ticket_append [OF hex(2), of "front @ dash # rear"]
    by (simp add: row ProcessTicketInfo_def ValidateTicketSuffix_def Let_def)
qed

lemma dashed_name_locked_out_witness:
  "\<exists>ticket tickets rows. BuildTicket example_env 1000 5 (replicate 16 7) [98, 111, 98, dash, 120] SetupTickets Map.empty =
      (ticket, tickets, rows) \<and> rows [98, 111, 98] \<noteq> None \<and>
    \<not> fst (ProcessTicketInfo example_env \<lparr>time_s = 1000, tick_ms = 9, random_token = []\<rparr> (ticket @ 0 # []) 1 2
      (empty_server\<lparr>login_ticket := rows\<rparr>))"
proof -
  obtain ticket tickets rows where b: "BuildTicket example_env 1000 5 (replicate 16 7) ([98, 111, 98] @ dash # [120]) SetupTickets
      Map.empty = (ticket, tickets, rows)" by (metis prod_cases3)
  let ?s = "empty_server\<lparr>login_ticket := rows\<rparr>"
  have e: "upsert_ok example_env" by (simp add: example_env_def)
  have b': "BuildTicket example_env 1000 5 (replicate 16 7) ([98, 111, 98] @ dash # [120]) SetupTickets Map.empty =
      (ticket, tickets, login_ticket ?s)" using b by simp
  have "login_ticket ?s [98, 111, 98] \<noteq> None \<and>
      \<not> fst (ProcessTicketInfo example_env \<lparr>time_s = 1000, tick_ms = 9, random_token = []\<rparr> (ticket @ 0 # []) 1 2 ?s)"
    using dashed_name_locked_out [OF example_hex e _ _ _ _ _ _ b', of
        "\<lparr>time_s = 1000, tick_ms = 9, random_token = []\<rparr>" "[]" 1 2]
    by (auto simp: dash_def simp del: login_server.select_convs)
  then show ?thesis using b by auto
qed

text \<open>
  A user name of 31 to 61 characters: the digits of the token are cut off with the end of the ticket. The short
  ticket is still accepted, but neither the session nor the account has a token to bind.
\<close>

lemma long_name_without_token:
  assumes "hex_codec env" and "sodium_ready env" and "upsert_ok env" and "length tok = 16"
    and "0 \<notin> set name" and "dash \<notin> set name" and "30 < length name" and "length name < 62"
    and "BuildTicket env (of_nat t) cur tok name tickets rows = (ticket, tickets', login_ticket s)"
    and "can_enter env name" and "time_s now = of_nat t1" and "t1 \<le> t + 1800" and "t1 < 2 ^ 40" and "t < 2 ^ 40"
  shows "ProcessTicketInfo env now (ticket @ 0 # rest) addr port s =
      (True, log_event (AvatarListSent (account_id env name) addr port) (log_event (LoginTimeUpdated (account_id env name)) s)) \<and>
    GetLoginTokenBinary env (of_nat t1) name (login_ticket s) = None"
proof -
  define hex where "hex = take (62 - length name) (bin2hex env tok)"
  have len: "length (bin2hex env tok) = 32" using hex_codecD(1) [OF assms(1)] assms(4) by simp
  have hex: "0 < length hex" "length hex < 32" "dash \<notin> set hex" "0 \<notin> set hex"
    using hex_codecD(2,3) [OF assms(1), of tok] len assms(7,8) by (auto simp: hex_def dest: in_set_takeD)
  have cut: "take 63 (name @ dash # bin2hex env tok) = name @ dash # hex"
  proof -
    have "63 - length name = Suc (62 - length name)" using assms(8) by linarith
    then show ?thesis using assms(8) by (simp add: hex_def)
  qed
  then have ticket: "ticket = name @ dash # hex" and rows: "login_ticket s = StoreTicketRow env (of_nat t) (name @ dash # hex) rows"
    using assms(9) by (auto simp: BuildTicket_def Let_def)
  have fits: "length name + length hex < 63" using assms(8) len by (simp add: hex_def)
  have row: "login_ticket s name = Some (hex, ticket_end t)"
    unfolding rows using StoreTicketRow_append [OF assms(6) fits, of env "of_nat t" rows] assms(3)
    by (simp add: ticket_expiry)
  have none: "token_of_hex env hex = None"
    using hex_codecD(5) [OF assms(1), of hex] hex(2) by (auto simp: token_of_hex_def split: option.splits)
  have ne: "name \<noteq> []" "hex \<noteq> []" using assms(7) hex(1) by auto
  have "ProcessTicketInfo env now (name @ dash # hex @ 0 # rest) addr port s =
    (True, log_event (AvatarListSent (account_id env name) addr port) (log_event (LoginTimeUpdated (account_id env name))
       (case token_of_hex env hex of None \<Rightarrow> s
        | Some tok \<Rightarrow> s\<lparr>g_SessionTokens := StashSessionToken (time_s now) addr port tok (g_SessionTokens s)\<rparr>)))"
    using assms hex row ne by (intro ProcessTicketInfo_valid [where t = t and ?t1.0 = t1]) auto
  then show ?thesis
    using row none by (simp add: ticket GetLoginTokenBinary_def)
qed

end
