(* ===== verification/LoginInvariants.thy ===== *)
theory LoginInvariants
  imports LoginServer
begin

text \<open>
  The state of the players under the datagrams of a login: every node in use belongs to one character, its id
  leads back to it, and no character is online twice. The set \<open>P\<close> holds the node that is being set up.
\<close>

section \<open>The invariant\<close>

definition live :: "login_server \<Rightarrow> nat \<Rightarrow> bool" where
  "live s j \<longleftrightarrow> node_live (m_GlobMemMgr s) j"

definition token_ok :: "player_node \<Rightarrow> bool" where
  "token_ok n \<longleftrightarrow> (m_AuthTokenSet n \<longrightarrow> length (m_AuthToken n) = 16)"

definition settled :: "login_server \<Rightarrow> nat \<Rightarrow> bool" where
  "settled s j \<longleftrightarrow> token_ok (player s j) \<and> bm_get (m_GlobalPlayerList s) j \<and>
     (\<exists>c. 0 < c \<and> c < 2 ^ 30 \<and> CharacterID (player s j) = of_nat c \<and> GameID (player s j) = of_nat c OR PLAYER_TAG \<and>
          m_PlayerLookup s (of_nat c) = Some (of_nat j OR PLAYER_TAG))"

definition known_nodes :: "(u64 \<rightharpoonup> u64) \<Rightarrow> bool" where
  "known_nodes lookup \<longleftrightarrow> (\<forall>k v. lookup k = Some v \<longrightarrow> v = 0 \<or> (\<exists>i < MAX_ONLINE_PLAYERS. v = of_nat i OR PLAYER_TAG))"

definition players_ok :: "nat set \<Rightarrow> login_server \<Rightarrow> bool" where
  "players_ok P s \<longleftrightarrow> gm_inv (m_GlobMemMgr s) \<and> m_PlayerBufferSize (m_GlobMemMgr s) = MAX_ONLINE_PLAYERS \<and>
     length (m_GlobalPlayerList s) = 16 \<and> known_nodes (m_PlayerLookup s) \<and>
     (\<forall>j. live s j \<and> j \<notin> P \<longrightarrow> settled s j) \<and>
     inj_on (\<lambda>j. CharacterID (player s j)) {j. live s j \<and> j \<notin> P}"

lemma other_fields [simp]:
  "player (s\<lparr>login_log := a\<rparr>) = player s" "player (s\<lparr>g_SessionTokens := b\<rparr>) = player s"
  "player (s\<lparr>login_ticket := c\<rparr>) = player s" "player (s\<lparr>m_Tickets := d\<rparr>) = player s"
  "player (s\<lparr>m_RegisteredAddrs := e\<rparr>) = player s" "player (s\<lparr>m_SSLIPAddr := f\<rparr>) = player s"
  "player (s\<lparr>m_SSLPort := g\<rparr>) = player s" "player (s\<lparr>m_LoginAttempts := h\<rparr>) = player s"
  "player (s\<lparr>m_PlayerLookup := l\<rparr>) = player s" "player (s\<lparr>m_GlobalPlayerList := m\<rparr>) = player s"
  "live (s\<lparr>login_log := a\<rparr>) = live s" "live (s\<lparr>g_SessionTokens := b\<rparr>) = live s"
  "live (s\<lparr>login_ticket := c\<rparr>) = live s" "live (s\<lparr>m_Tickets := d\<rparr>) = live s"
  "live (s\<lparr>m_RegisteredAddrs := e\<rparr>) = live s" "live (s\<lparr>m_SSLIPAddr := f\<rparr>) = live s"
  "live (s\<lparr>m_SSLPort := g\<rparr>) = live s" "live (s\<lparr>m_LoginAttempts := h\<rparr>) = live s"
  "live (s\<lparr>m_PlayerLookup := l\<rparr>) = live s" "live (s\<lparr>m_GlobalPlayerList := m\<rparr>) = live s"
  by (simp_all add: fun_eq_iff player_def live_def)

lemma log_fields [simp]:
  "player (log_event ev s) = player s" "live (log_event ev s) = live s"
  "m_GlobMemMgr (log_event ev s) = m_GlobMemMgr s" "m_GlobalPlayerList (log_event ev s) = m_GlobalPlayerList s"
  "m_PlayerLookup (log_event ev s) = m_PlayerLookup s" "g_SessionTokens (log_event ev s) = g_SessionTokens s"
  "login_ticket (log_event ev s) = login_ticket s"
  by (simp_all add: log_event_def fun_eq_iff player_def live_def)

lemma players_ok_other [simp]:
  "players_ok P (s\<lparr>login_log := a\<rparr>) = players_ok P s" "players_ok P (s\<lparr>g_SessionTokens := b\<rparr>) = players_ok P s"
  "players_ok P (s\<lparr>login_ticket := c\<rparr>) = players_ok P s" "players_ok P (s\<lparr>m_Tickets := d\<rparr>) = players_ok P s"
  "players_ok P (s\<lparr>m_RegisteredAddrs := e\<rparr>) = players_ok P s" "players_ok P (s\<lparr>m_SSLIPAddr := f\<rparr>) = players_ok P s"
  "players_ok P (s\<lparr>m_SSLPort := g\<rparr>) = players_ok P s" "players_ok P (s\<lparr>m_LoginAttempts := h\<rparr>) = players_ok P s"
  by (simp_all add: players_ok_def settled_def)

lemma players_ok_log [simp]:
  "players_ok P (log_event e s) = players_ok P s" "players_ok P (send c d a p s) = players_ok P s"
  "players_ok P (SendGlobalError r a p s) = players_ok P s"
  by (simp_all add: log_event_def send_def SendGlobalError_def)

lemma liveD:
  assumes "players_ok P s" and "live s j"
  shows "j < MAX_ONLINE_PLAYERS" and "j < length (m_PlayerQueueBuf (m_GlobMemMgr s))" and "GameIndex (player s j) = of_nat j"
    and "unat (GameIndex (player s j)) = j"
proof -
  show j: "j < MAX_ONLINE_PLAYERS" "j < length (m_PlayerQueueBuf (m_GlobMemMgr s))"
    using assms by (auto simp: live_def node_live_def players_ok_def m_PlayerBufferSize_def)
  show "GameIndex (player s j) = of_nat j"
    using assms by (auto simp: live_def node_live_def players_ok_def gm_inv_def node_indexed_def player_def)
  then show "unat (GameIndex (player s j)) = j"
    using j by (simp add: unat_of_nat MAX_ONLINE_PLAYERS_def)
qed

section \<open>Changing a node\<close>

lemma gm_inv_update:
  assumes "gm_inv g" and "GameIndex n = GameIndex (m_PlayerQueueBuf g ! i)"
    and "GameID n = PLAYER_NODE_AVAILABLE \<longleftrightarrow> GameID (m_PlayerQueueBuf g ! i) = PLAYER_NODE_AVAILABLE"
  shows "gm_inv (g\<lparr>m_PlayerQueueBuf := (m_PlayerQueueBuf g)[i := n]\<rparr>)"
proof (cases "i < length (m_PlayerQueueBuf g)")
  case True
  then show ?thesis
    using assms length_filter_update [OF True, of "\<lambda>n. GameID n \<noteq> PLAYER_NODE_AVAILABLE" n]
    by (auto simp: gm_inv_def m_PlayerBufferSize_def nth_list_update node_indexed_def split: if_splits)
qed (use assms in \<open>simp add: list_update_beyond not_less\<close>)

lemma player_on_player: "player (on_player i f s) j =
    (if i = j \<and> i < length (m_PlayerQueueBuf (m_GlobMemMgr s)) then f (player s i) else player s j)"
  by (cases "i < length (m_PlayerQueueBuf (m_GlobMemMgr s))")
    (auto simp: player_def on_player_def nth_list_update list_update_beyond not_less)

lemma live_iff: "live s j \<longleftrightarrow> j < m_PlayerBufferSize (m_GlobMemMgr s) \<and> GameID (player s j) \<noteq> PLAYER_NODE_AVAILABLE"
  by (simp add: live_def node_live_def player_def)

lemma on_node_fields [simp]:
  "m_PlayerLookup (on_player i f s) = m_PlayerLookup s" "m_GlobalPlayerList (on_player i f s) = m_GlobalPlayerList s"
  "g_SessionTokens (on_player i f s) = g_SessionTokens s" "login_ticket (on_player i f s) = login_ticket s"
  "login_log (on_player i f s) = login_log s"
  "m_PlayerBufferSize (m_GlobMemMgr (on_player i f s)) = m_PlayerBufferSize (m_GlobMemMgr s)"
  "m_PlayerCount (m_GlobMemMgr (on_player i f s)) = m_PlayerCount (m_GlobMemMgr s)"
  "length (m_PlayerQueueBuf (m_GlobMemMgr (on_player i f s))) = length (m_PlayerQueueBuf (m_GlobMemMgr s))"
  by (simp_all add: on_player_def m_PlayerBufferSize_def)

lemma live_on_player:
  assumes "GameID (f (player s i)) = PLAYER_NODE_AVAILABLE \<longleftrightarrow> GameID (player s i) = PLAYER_NODE_AVAILABLE"
  shows "live (on_player i f s) = live s"
  by (rule ext) (use assms in \<open>auto simp: live_iff player_on_player\<close>)

lemma gm_inv_on_player:
  assumes "gm_inv (m_GlobMemMgr s)" and "GameIndex (f (player s i)) = GameIndex (player s i)"
    and "GameID (f (player s i)) = PLAYER_NODE_AVAILABLE \<longleftrightarrow> GameID (player s i) = PLAYER_NODE_AVAILABLE"
  shows "gm_inv (m_GlobMemMgr (on_player i f s))"
  using gm_inv_update [OF assms(1), of "f (player s i)" i] assms(2,3) by (simp add: on_player_def player_def)

text \<open>A change that leaves the identity of the player alone, and any change of the node being set up.\<close>

definition keeps_identity :: "(player_node \<Rightarrow> player_node) \<Rightarrow> bool" where
  "keeps_identity f \<longleftrightarrow> (\<forall>n. GameID (f n) = GameID n \<and> GameIndex (f n) = GameIndex n \<and> CharacterID (f n) = CharacterID n \<and>
     (token_ok n \<longrightarrow> token_ok (f n)))"

lemma on_player_ok:
  assumes "players_ok P s" and "keeps_identity f"
  shows "players_ok P (on_player i f s)"
proof -
  have f: "\<And>n. GameID (f n) = GameID n" "\<And>n. GameIndex (f n) = GameIndex n" "\<And>n. CharacterID (f n) = CharacterID n"
    "\<And>n. token_ok n \<Longrightarrow> token_ok (f n)" using assms(2) by (auto simp: keeps_identity_def)
  have l: "live (on_player i f s) = live s" by (rule live_on_player) (simp add: f)
  have "settled (on_player i f s) j" if "settled s j" for j
    using that by (auto simp: settled_def player_on_player f)
  moreover have "(\<lambda>j. CharacterID (player (on_player i f s) j)) = (\<lambda>j. CharacterID (player s j))"
    by (auto simp: player_on_player f)
  ultimately show ?thesis
    using assms(1) gm_inv_on_player [of s f i] f unfolding players_ok_def l by auto
qed

lemma on_pending_ok:
  assumes "players_ok P s" and "i \<in> P" and "GameIndex (f (player s i)) = GameIndex (player s i)"
    and "GameID (f (player s i)) = PLAYER_NODE_AVAILABLE \<longleftrightarrow> GameID (player s i) = PLAYER_NODE_AVAILABLE"
  shows "players_ok P (on_player i f s)"
proof -
  have l: "live (on_player i f s) = live s" by (rule live_on_player) (rule assms(4))
  have other: "player (on_player i f s) j = player s j" if "j \<notin> P" for j
    using that assms(2) by (auto simp: player_on_player)
  then have "settled (on_player i f s) j \<longleftrightarrow> settled s j" if "j \<notin> P" for j
    using that by (simp add: settled_def)
  moreover have "inj_on (\<lambda>j. CharacterID (player (on_player i f s) j)) {j. live s j \<and> j \<notin> P} =
      inj_on (\<lambda>j. CharacterID (player s j)) {j. live s j \<and> j \<notin> P}"
    by (rule inj_on_cong) (simp add: other)
  ultimately show ?thesis
    using assms(1) gm_inv_on_player [of s f i] assms(3,4) unfolding players_ok_def l by auto
qed

section \<open>Dropping players\<close>

definition dropped :: "nat \<Rightarrow> login_server \<Rightarrow> login_server" where
  "dropped j s = (log_event (PlayerSaved j) s)\<lparr>m_GlobMemMgr := ReleasePlayerNode j (m_GlobMemMgr s),
     m_GlobalPlayerList := bm_unset (m_GlobalPlayerList s) j\<rparr>"

lemma player_mem [simp]: "player (s\<lparr>m_GlobMemMgr := g\<rparr>) k = m_PlayerQueueBuf g ! k"
  by (simp add: player_def)

lemma released_nth: "m_PlayerQueueBuf (ReleasePlayerNode j g) ! k =
    (if j = k \<and> j < length (m_PlayerQueueBuf g)
     then (if GameID (m_PlayerQueueBuf g ! j) \<noteq> PLAYER_NODE_AVAILABLE \<and> 0 < m_PlayerCount g
           then (m_PlayerQueueBuf g ! j)\<lparr>GameID := PLAYER_NODE_AVAILABLE\<rparr> else m_PlayerQueueBuf g ! j)
          \<lparr>LastAccessTime := 0, AccountUsername := [], CharacterID := -1\<rparr>
     else m_PlayerQueueBuf g ! k)"
  by (cases "j < length (m_PlayerQueueBuf g)")
    (auto simp: ReleasePlayerNode_def Let_def nth_list_update list_update_beyond not_less)

lemma DropPlayerFromGalaxy_live:
  assumes ok: "players_ok P s" and l: "live s j"
  shows "DropPlayerFromGalaxy j s = Some (dropped j s)" and "players_ok P (dropped j s)" and "\<not> live (dropped j s) j"
    and "k \<noteq> j \<Longrightarrow> player (dropped j s) k = player s k" and "k \<noteq> j \<Longrightarrow> live (dropped j s) k = live s k"
    and "GameIndex (player (dropped j s) j) = GameIndex (player s j)"
proof -
  note j = liveD [OF ok l]
  have inv: "gm_inv (m_GlobMemMgr s)" and sz: "m_PlayerBufferSize (m_GlobMemMgr s) = MAX_ONLINE_PLAYERS"
    and L: "length (m_GlobalPlayerList s) = 16" using ok by (auto simp: players_ok_def)
  have used: "GameID (player s j) \<noteq> PLAYER_NODE_AVAILABLE" using l by (simp add: live_def node_live_def player_def)
  have jb: "j < m_PlayerBufferSize (m_GlobMemMgr s)" using j(1) sz by simp
  have rel: "gm_inv (ReleasePlayerNode j (m_GlobMemMgr s))"
    "\<And>k. k \<noteq> j \<Longrightarrow> node_live (ReleasePlayerNode j (m_GlobMemMgr s)) k = node_live (m_GlobMemMgr s) k"
    using ReleasePlayerNode_frees [OF inv jb] by auto
  have dead: "\<not> node_live (ReleasePlayerNode j (m_GlobMemMgr s)) j"
    by (rule ReleasePlayerNode_dead [OF inv jb])
  have pl: "player (dropped j s) k = m_PlayerQueueBuf (ReleasePlayerNode j (m_GlobMemMgr s)) ! k" for k
    by (simp add: dropped_def player_def)
  have lv: "live (dropped j s) k = node_live (ReleasePlayerNode j (m_GlobMemMgr s)) k" for k
    by (simp add: dropped_def live_def)
  show other: "player (dropped j s) k = player s k" if "k \<noteq> j" for k using that by (simp add: pl released_nth player_def [of s])
  show idx: "GameIndex (player (dropped j s) j) = GameIndex (player s j)" by (simp add: pl released_nth player_def [of s])
  show "\<not> live (dropped j s) j" using dead by (simp add: lv)
  show lo: "live (dropped j s) k = live s k" if "k \<noteq> j" for k using rel(2) [OF that] by (simp add: lv live_def [of s])
  let ?r = "(log_event (PlayerSaved j) s)\<lparr>m_GlobMemMgr := ReleasePlayerNode j (m_GlobMemMgr s)\<rparr>"
  have "GameIndex (player ?r j) = GameIndex (player s j)"
    by (simp add: released_nth player_def)
  then show "DropPlayerFromGalaxy j s = Some (dropped j s)"
    using used j(4) SetIndex_bm(2) [OF j(1) L] by (simp add: DropPlayerFromGalaxy_def dropped_def Let_def)
  have un: "bm_get (bm_unset (m_GlobalPlayerList s) j) k \<longleftrightarrow> j \<noteq> k \<and> bm_get (m_GlobalPlayerList s) k" for k
    using L j(1) by (intro bm_get_unset) (simp add: MAX_ONLINE_PLAYERS_def)
  have set: "settled (dropped j s) k" if "settled s k" "k \<noteq> j" for k
    using that un [of k] by (simp add: settled_def other) (simp add: dropped_def)
  have alive: "live (dropped j s) k \<Longrightarrow> k \<noteq> j \<and> live s k" for k using dead lo [of k] lv by metis
  have "inj_on (\<lambda>k. CharacterID (player (dropped j s) k)) {k. live (dropped j s) k \<and> k \<notin> P}"
  proof (rule inj_onI)
    fix x y assume "x \<in> {k. live (dropped j s) k \<and> k \<notin> P}" "y \<in> {k. live (dropped j s) k \<and> k \<notin> P}"
      and "CharacterID (player (dropped j s) x) = CharacterID (player (dropped j s) y)"
    then show "x = y" using ok alive other unfolding players_ok_def inj_on_def by auto
  qed
  moreover have "m_PlayerBufferSize (m_GlobMemMgr (dropped j s)) = MAX_ONLINE_PLAYERS"
    using sz by (simp add: dropped_def m_PlayerBufferSize_def ReleasePlayerNode_def Let_def)
  moreover have "gm_inv (m_GlobMemMgr (dropped j s))" using rel(1) by (simp add: dropped_def)
  moreover have "length (m_GlobalPlayerList (dropped j s)) = 16" "m_PlayerLookup (dropped j s) = m_PlayerLookup s"
    using L by (simp_all add: dropped_def)
  moreover have "\<forall>k. live (dropped j s) k \<and> k \<notin> P \<longrightarrow> settled (dropped j s) k"
    using ok alive set unfolding players_ok_def by blast
  ultimately show "players_ok P (dropped j s)" using ok by (simp add: players_ok_def)
qed

section \<open>Dropping the other instances of a character\<close>

text \<open>From \<open>s\<close> to \<open>s'\<close> only players with the character of node \<open>i\<close> were dropped.\<close>

definition thinned :: "nat \<Rightarrow> login_server \<Rightarrow> login_server \<Rightarrow> bool" where
  "thinned i s s' \<longleftrightarrow> players_ok {i} s' \<and> live s' i \<and> player s' i = player s i \<and> m_PlayerLookup s' = m_PlayerLookup s \<and>
     g_SessionTokens s' = g_SessionTokens s \<and> login_ticket s' = login_ticket s \<and>
     (\<forall>j. j \<noteq> i \<and> live s' j \<longrightarrow> live s j \<and> player s' j = player s j) \<and>
     (\<forall>j. j \<noteq> i \<and> live s j \<and> CharacterID (player s j) \<noteq> CharacterID (player s i) \<longrightarrow> live s' j)"

lemma thinned_trans: "thinned i s s1 \<Longrightarrow> thinned i s1 s2 \<Longrightarrow> thinned i s s2"
  unfolding thinned_def by (metis (full_types))

lemma thinned_list:
  assumes "players_ok {i} s" and "live s i" and "length L = 16"
    and "on_list (m_GlobMemMgr s) L = on_list (m_GlobMemMgr s) (m_GlobalPlayerList s)"
  shows "thinned i s (s\<lparr>m_GlobalPlayerList := L\<rparr>)"
proof -
  have "bm_get L j" if "live s j" "bm_get (m_GlobalPlayerList s) j" for j
    using fun_cong [OF assms(4), of j] liveD(1) [OF assms(1) that(1)] that by (simp add: on_list_def live_def)
  then have "players_ok {i} (s\<lparr>m_GlobalPlayerList := L\<rparr>)"
    using assms(1,3) by (auto simp: players_ok_def settled_def)
  then show ?thesis using assms(2) by (simp add: thinned_def)
qed

lemma thinned_drop:
  assumes "players_ok {i} s" and "live s i" and "live s k" and "k \<noteq> i" and "CharacterID (player s k) = CharacterID (player s i)"
  shows "thinned i s (dropped k s)"
proof -
  note d = DropPlayerFromGalaxy_live [OF assms(1,3)]
  have "j = k \<or> live (dropped k s) j = live s j \<and> player (dropped k s) j = player s j" for j
    using d(4,5) [of j] by blast
  moreover have "m_PlayerLookup (dropped k s) = m_PlayerLookup s" "g_SessionTokens (dropped k s) = g_SessionTokens s"
    "login_ticket (dropped k s) = login_ticket s" by (simp_all add: dropped_def)
  ultimately show ?thesis using d(2,3) assms(2,4,5) unfolding thinned_def by metis
qed

lemma CheckForDuplicatePlayers_thins:
  assumes "players_ok {i} s" and "live s i"
    and "case p of None \<Rightarrow> start = 0 | Some q \<Rightarrow> start = Suc (unat (GameIndex (player s q)))"
  shows "\<exists>s'. CheckForDuplicatePlayers i p s = Some s' \<and> thinned i s s' \<and>
    (\<forall>j. start \<le> j \<and> j \<noteq> i \<and> live s' j \<longrightarrow> CharacterID (player s' j) \<noteq> CharacterID (player s i))"
  using assms
proof (induction "MAX_ONLINE_PLAYERS - start" arbitrary: start p s rule: less_induct)
  case less
  let ?g = "m_GlobMemMgr s" and ?L = "m_GlobalPlayerList s"
  note ok = less.prems(1) and li = less.prems(2)
  have sz: "m_PlayerBufferSize ?g = MAX_ONLINE_PLAYERS" "length ?L = 16" using ok by (simp_all add: players_ok_def)
  have "case p of None \<Rightarrow> start = 0 | Some q \<Rightarrow> start = Suc (unat (GameIndex (m_PlayerQueueBuf ?g ! q)))"
    using less.prems(3) unfolding player_def .
  then obtain found q L where r: "GetNextPlayerOnList p ?g ?L = Some (found, q, L)" "next_found ?g ?L start (found, q, L)"
    using GetNextPlayerOnList_spec [OF sz] by (metis prod_cases3)
  then have L: "length L = 16" "on_list ?g L = on_list ?g ?L" by (auto simp: next_found_def)
  define s1 where "s1 = s\<lparr>m_GlobalPlayerList := L\<rparr>"
  have t1: "thinned i s s1" using thinned_list [OF ok li L] by (simp add: s1_def)
  then have ok1: "players_ok {i} s1" "live s1 i" by (simp_all add: thinned_def)
  have run: "CheckForDuplicatePlayers i p s = (if \<not> found then Some s1 else Option.bind q (\<lambda>j.
      if i \<noteq> j \<and> CharacterID (player s1 j) = CharacterID (player s1 i)
      then Option.bind (DropPlayerFromGalaxy j s1) (CheckForDuplicatePlayers i (Some j))
      else CheckForDuplicatePlayers i (Some j) s1))"
    unfolding s1_def by (subst CheckForDuplicatePlayers.simps) (simp add: r Let_def)
  have listed: "on_list ?g ?L j" if "live s j" "j \<noteq> i" for j
    using ok that liveD(1) [OF ok that(1)] by (auto simp: on_list_def live_def players_ok_def settled_def)
  show ?case
  proof (cases found)
    case False
    then have "\<not> live s j" if "start \<le> j" "j \<noteq> i" for j using r(2) listed that by (auto simp: next_found_def)
    then show ?thesis using run False t1 by (auto simp: thinned_def)
  next
    case True
    then obtain k where k: "q = Some k" "start \<le> k" "on_list ?g ?L k"
        "\<And>j. start \<le> j \<Longrightarrow> j < k \<Longrightarrow> \<not> on_list ?g ?L j"
      using r(2) by (auto simp: next_found_def)
    have lk: "live s k" "k < MAX_ONLINE_PLAYERS" using k(3) by (auto simp: on_list_def live_def)
    have lk1: "live s1 k" "player s1 k = player s k" using lk by (simp_all add: s1_def)
    have idx: "unat (GameIndex (player s k)) = k" by (rule liveD(4) [OF ok lk(1)])
    have before: "\<not> live s j" if "start \<le> j" "j < k" "j \<noteq> i" for j using listed k(4) that by blast
    have smaller: "MAX_ONLINE_PLAYERS - Suc k < MAX_ONLINE_PLAYERS - start" using k(2) lk(2) by linarith
    have finish: "\<exists>s'. CheckForDuplicatePlayers i p s = Some s' \<and> thinned i s s' \<and>
        (\<forall>j. start \<le> j \<and> j \<noteq> i \<and> live s' j \<longrightarrow> CharacterID (player s' j) \<noteq> CharacterID (player s i))"
      if s2: "thinned i s s2" "CheckForDuplicatePlayers i p s = CheckForDuplicatePlayers i (Some k) s2"
        "GameIndex (player s2 k) = GameIndex (player s k)"
        "k \<noteq> i \<Longrightarrow> live s2 k \<Longrightarrow> CharacterID (player s2 k) \<noteq> CharacterID (player s i)" for s2
    proof -
      have "players_ok {i} s2" "live s2 i" and same: "player s2 i = player s i" using s2(1) by (simp_all add: thinned_def)
      moreover have "case Some k of None \<Rightarrow> Suc k = 0 | Some q \<Rightarrow> Suc k = Suc (unat (GameIndex (player s2 q)))"
        using idx s2(3) by simp
      ultimately obtain s' where s': "CheckForDuplicatePlayers i (Some k) s2 = Some s'" "thinned i s2 s'"
          "\<And>j. Suc k \<le> j \<Longrightarrow> j \<noteq> i \<Longrightarrow> live s' j \<Longrightarrow> CharacterID (player s' j) \<noteq> CharacterID (player s i)"
        using less.hyps [OF smaller] by (metis (no_types, lifting))
      have t: "thinned i s s'" by (rule thinned_trans [OF s2(1) s'(2)])
      have "CharacterID (player s' j) \<noteq> CharacterID (player s i)" if j: "start \<le> j" "j \<noteq> i" "live s' j" for j
      proof -
        have l2: "live s2 j" "player s' j = player s2 j" using s'(2) j by (auto simp: thinned_def)
        consider "j < k" | "j = k" | "k < j" by linarith
        then show ?thesis
        proof cases
          case 1
          then show ?thesis using before j t by (auto simp: thinned_def)
        next
          case 2
          then show ?thesis using s2(4) l2 j by simp
        next
          case 3
          then show ?thesis using s'(3) j by simp
        qed
      qed
      then show ?thesis using s'(1) s2(2) t by auto
    qed
    show ?thesis
    proof (cases "i \<noteq> k \<and> CharacterID (player s1 k) = CharacterID (player s1 i)")
      case True
      note d = DropPlayerFromGalaxy_live [OF ok1(1) lk1(1)]
      have "thinned i s1 (dropped k s1)" using True ok1 lk1(1) by (intro thinned_drop) auto
      then have "thinned i s (dropped k s1)" by (rule thinned_trans [OF t1])
      moreover have "CheckForDuplicatePlayers i p s = CheckForDuplicatePlayers i (Some k) (dropped k s1)"
        using run \<open>found\<close> k(1) True d(1) by simp
      ultimately show ?thesis using d(3,6) lk1(2) by (intro finish [of "dropped k s1"]) auto
    next
      case False
      then have "CheckForDuplicatePlayers i p s = CheckForDuplicatePlayers i (Some k) s1"
        using run \<open>found\<close> k(1) by auto
      then show ?thesis using False lk1(2) by (intro finish [OF t1]) (auto simp: s1_def)
    qed
  qed
qed

text \<open>
  The check for duplicates is made for positive numbers only: with number 0, which an SSL record may carry, the node
  becomes character 0 and whoever else is character 0 stays.
\<close>

lemma SetCharacterID_unchecked:
  assumes "c \<le>s 0"
  shows "SetCharacterID i c s = Some (on_player i (\<lambda>n. n\<lparr>CharacterID := c\<rparr>) s)"
  using assms by (simp add: SetCharacterID_def Let_def word_sless_alt word_sle_eq)

lemma SetCharacterID_thins:
  assumes "players_ok {i} s" and "live s i" and "0 < c" and "c < 2 ^ 30"
  shows "\<exists>s'. SetCharacterID i (of_nat c) s = Some s' \<and>
    thinned i (on_player i (\<lambda>n. n\<lparr>CharacterID := of_nat c\<rparr>) s) s' \<and>
    (\<forall>j. j \<noteq> i \<and> live s' j \<longrightarrow> CharacterID (player s' j) \<noteq> of_nat c)"
proof -
  let ?s1 = "on_player i (\<lambda>n. n\<lparr>CharacterID := of_nat c\<rparr>) s"
  have ok: "players_ok {i} ?s1" by (rule on_pending_ok [OF assms(1)]) simp_all
  have l: "live ?s1 i" using assms(2) by (simp add: live_on_player)
  have char: "CharacterID (player ?s1 i) = of_nat c"
    using liveD(2) [OF assms(1,2)] by (simp add: player_on_player)
  have "0 <s (of_nat c :: clong)" using assms(3,4) by (simp add: word_sless_alt signed_of_nat signed_take_bit_int_eq_self)
  then have "SetCharacterID i (of_nat c) s = CheckForDuplicatePlayers i None ?s1"
    by (simp add: SetCharacterID_def Let_def)
  then show ?thesis using CheckForDuplicatePlayers_thins [OF ok l, where p = None and start = 0] char by simp
qed

end
