(* ===== verification/LoginSteps.thy ===== *)
theory LoginSteps
  imports LoginInvariants
begin

text \<open>
  What the handlers do to the players: the entry of a character, the lookup of a player, and the
  preservation of the invariant by every datagram.
\<close>

section \<open>Ids\<close>

lemma tag_not_available30: "c < 2 ^ 30 \<Longrightarrow> (of_nat c OR PLAYER_TAG :: s32) \<noteq> PLAYER_NODE_AVAILABLE"
proof
  assume c: "c < 2 ^ 30" and "(of_nat c OR PLAYER_TAG :: s32) = PLAYER_NODE_AVAILABLE"
  then have "bit (of_nat c OR PLAYER_TAG :: s32) 31" by (simp add: PLAYER_NODE_AVAILABLE_def)
  then show False using bit_of_nat_small [OF c, of 31, where 'a = 32] by (simp add: PLAYER_TAG_def bit_simps)
qed

lemma bit_tagged: "c < 2 ^ 30 \<Longrightarrow> 30 < LENGTH('a) \<Longrightarrow>
    bit (of_nat c OR PLAYER_TAG :: 'a::len word) n \<longleftrightarrow> n = 30 \<or> n < 30 \<and> bit c n"
  using bit_of_nat_small [of c 30 n, where 'a = 'a]
  by (cases "n < 30") (auto simp: bit_or_iff bit_PLAYER_TAG bit_of_nat_iff)

lemma ucast_tagged: "c < 2 ^ 30 \<Longrightarrow> (ucast (of_nat c OR PLAYER_TAG :: clong) :: s32) = of_nat c OR PLAYER_TAG"
  by (rule bit_word_eqI) (auto simp: bit_ucast_iff bit_tagged)

lemma scast_tagged: "c < 2 ^ 30 \<Longrightarrow> (scast (of_nat c OR PLAYER_TAG :: s32) :: clong) = of_nat c OR PLAYER_TAG"
  by (rule bit_word_eqI) (auto simp: bit_signed_iff bit_tagged min_def)

lemma small_bit: "c < 2 ^ 30 \<Longrightarrow> bit c n \<Longrightarrow> n < 30" for c :: nat
  by (metis bit_iff_odd div_less even_zero less_le_trans power_increasing one_le_numeral not_le)

lemma mask_tagged: "c < 2 ^ 30 \<Longrightarrow> (of_nat c OR PLAYER_TAG :: clong) AND 0x3FFFFFFF = of_nat c"
proof -
  assume c: "c < 2 ^ 30"
  have m: "(0x3FFFFFFF :: clong) = mask 30" by (simp add: mask_eq_exp_minus_1)
  show ?thesis
    unfolding m by (rule bit_word_eqI)
      (auto simp: bit_and_iff bit_mask_iff bit_tagged [OF c] bit_of_nat_iff dest: small_bit [OF c])
qed

lemma small_tagged: "i < MAX_ONLINE_PLAYERS \<Longrightarrow> i < 2 ^ 30"
  by (simp add: MAX_ONLINE_PLAYERS_def)

section \<open>Looking a player up\<close>

lemma find_by_key:
  assumes ok: "players_ok P s"
  obtains p l where "GetPlayer w False (m_PlayerLookup s) (m_GlobMemMgr s) = Some (p, l, m_GlobMemMgr s)"
    and "players_ok P (s\<lparr>m_PlayerLookup := l\<rparr>)" and "\<And>i. p = Some i \<Longrightarrow> live s i"
    and "\<And>k v. m_PlayerLookup s k = Some v \<Longrightarrow> l k = Some v"
    and "\<And>i. i < MAX_ONLINE_PLAYERS \<Longrightarrow> m_PlayerLookup s (w AND 0x3FFFFFFF) = Some (of_nat i OR PLAYER_TAG) \<Longrightarrow>
           p = (if live s i then Some i else None)"
proof -
  let ?key = "w AND 0x3FFFFFFF" and ?g = "m_GlobMemMgr s"
  define v where "v = (case m_PlayerLookup s ?key of Some v \<Rightarrow> v | None \<Rightarrow> 0)"
  define l where "l = (m_PlayerLookup s)(?key \<mapsto> v)"
  have kn: "known_nodes (m_PlayerLookup s)" and sz: "m_PlayerBufferSize ?g = MAX_ONLINE_PLAYERS"
    using ok by (simp_all add: players_ok_def)
  have "v = 0 \<or> (\<exists>i < MAX_ONLINE_PLAYERS. v = of_nat i OR PLAYER_TAG)"
    using kn by (auto simp: v_def known_nodes_def split: option.splits)
  moreover have "GetPlayerA 0 False ?g = Some (None, ?g)" by (simp add: GetPlayerA_def IS_PLAYER_def)
  moreover have at: "GetPlayerA (of_nat i OR PLAYER_TAG) False ?g = Some (if live s i then Some i else None, ?g)"
    if "i < MAX_ONLINE_PLAYERS" for i
    using GetPlayerA_tag [of i ?g] that sz by (simp add: live_def MAX_ONLINE_PLAYERS_def)
  ultimately have "\<exists>p. GetPlayerA v False ?g = Some (p, ?g) \<and> (\<forall>i. p = Some i \<longrightarrow> live s i)" by auto
  then obtain p where p: "GetPlayerA v False ?g = Some (p, ?g)" "\<And>i. p = Some i \<Longrightarrow> live s i" by blast
  have keep: "m_PlayerLookup s k = Some u \<Longrightarrow> l k = Some u" for k u by (auto simp: l_def v_def)
  have "known_nodes l"
    using kn \<open>v = 0 \<or> _\<close> by (auto simp: l_def known_nodes_def split: if_splits)
  moreover have "settled (s\<lparr>m_PlayerLookup := l\<rparr>) j" if "settled s j" for j
    using that keep by (auto simp: settled_def)
  ultimately have "players_ok P (s\<lparr>m_PlayerLookup := l\<rparr>)" using ok by (auto simp: players_ok_def)
  moreover have "GetPlayer w False (m_PlayerLookup s) ?g = Some (p, l, ?g)"
    using p(1) by (simp add: GetPlayer_def Let_def l_def v_def)
  moreover have "p = (if live s i then Some i else None)"
    if "i < MAX_ONLINE_PLAYERS" "m_PlayerLookup s ?key = Some (of_nat i OR PLAYER_TAG)" for i
    using at [OF that(1)] p(1) that(2) by (simp add: v_def)
  ultimately show ?thesis using p(2) keep by (intro that)
qed

lemma lookup_only: "s\<lparr>m_PlayerLookup := l, m_GlobMemMgr := m_GlobMemMgr s\<rparr> = s\<lparr>m_PlayerLookup := l\<rparr>"
  by (cases s) simp

lemma find_player_ok:
  assumes ok: "players_ok P s"
  obtains p l where "find_player w s = Some (p, s\<lparr>m_PlayerLookup := l\<rparr>)" and "players_ok P (s\<lparr>m_PlayerLookup := l\<rparr>)"
    and "\<And>i. p = Some i \<Longrightarrow> live s i" and "\<And>k v. m_PlayerLookup s k = Some v \<Longrightarrow> l k = Some v"
proof -
  obtain p l where f: "GetPlayer (scast w) False (m_PlayerLookup s) (m_GlobMemMgr s) = Some (p, l, m_GlobMemMgr s)"
    and rest: "players_ok P (s\<lparr>m_PlayerLookup := l\<rparr>)" "\<And>i. p = Some i \<Longrightarrow> live s i"
    "\<And>k v. m_PlayerLookup s k = Some v \<Longrightarrow> l k = Some v"
    by (rule find_by_key [OF ok, of "scast w"]) (rule that)
  have "find_player w s = Some (p, s\<lparr>m_PlayerLookup := l\<rparr>)" using f by (simp add: find_player_def lookup_only)
  then show ?thesis using rest by (rule that)
qed

text \<open>The id of a player who is online leads to his node.\<close>

lemma find_player_online:
  assumes ok: "players_ok {} s" and l: "live s j"
  shows "\<exists>l. find_player (GameID (player s j)) s = Some (Some j, s\<lparr>m_PlayerLookup := l\<rparr>)"
proof -
  have "settled s j" using ok l by (simp add: players_ok_def)
  then obtain c where c: "c < 2 ^ 30" "GameID (player s j) = of_nat c OR PLAYER_TAG"
      "m_PlayerLookup s (of_nat c) = Some (of_nat j OR PLAYER_TAG)"
    by (auto simp: settled_def)
  let ?w = "scast (GameID (player s j)) :: clong"
  have key: "?w AND 0x3FFFFFFF = of_nat c" using c(1) by (simp add: c(2) scast_tagged mask_tagged)
  obtain p l where f: "GetPlayer ?w False (m_PlayerLookup s) (m_GlobMemMgr s) = Some (p, l, m_GlobMemMgr s)"
    and at: "\<And>i. i < MAX_ONLINE_PLAYERS \<Longrightarrow> m_PlayerLookup s (?w AND 0x3FFFFFFF) = Some (of_nat i OR PLAYER_TAG) \<Longrightarrow>
        p = (if live s i then Some i else None)"
    by (rule find_by_key [OF ok, of ?w]) (rule that)
  have "p = Some j" using at [OF liveD(1) [OF ok l]] c(3) l by (simp add: key)
  then show ?thesis using f by (intro exI [of _ l]) (simp add: find_player_def lookup_only)
qed

section \<open>A character enters\<close>

lemma allocate_player_full:
  "MAX_ONLINE_PLAYERS \<le> m_PlayerCount (m_GlobMemMgr s) \<Longrightarrow> allocate_player tick s = Some (None, s)"
  by (simp add: allocate_player_def GetPlayerNode_def)

lemma allocate_player_free:
  assumes ok: "players_ok {} s" and room: "m_PlayerCount (m_GlobMemMgr s) < MAX_ONLINE_PLAYERS"
  shows "\<exists>i g. allocate_player tick s = Some (Some i, s\<lparr>m_GlobMemMgr := g\<rparr>) \<and> i < MAX_ONLINE_PLAYERS \<and> \<not> live s i \<and>
    players_ok {i} (s\<lparr>m_GlobMemMgr := g\<rparr>) \<and> live (s\<lparr>m_GlobMemMgr := g\<rparr>) i \<and>
    GameID (player (s\<lparr>m_GlobMemMgr := g\<rparr>) i) = of_nat i OR PLAYER_TAG \<and>
    (\<forall>j. j \<noteq> i \<longrightarrow> player (s\<lparr>m_GlobMemMgr := g\<rparr>) j = player s j \<and> live (s\<lparr>m_GlobMemMgr := g\<rparr>) j = live s j)"
proof -
  let ?g = "m_GlobMemMgr s"
  have inv: "gm_inv ?g" and sz: "m_PlayerBufferSize ?g = MAX_ONLINE_PLAYERS" using ok by (simp_all add: players_ok_def)
  obtain k where k: "k < MAX_ONLINE_PLAYERS" "GetPlayerNode (ucast tick) ?g = Some (Some k, take_node (ucast tick) k ?g)"
      "\<not> node_live ?g k" "gm_inv (take_node (ucast tick) k ?g)" "node_live (take_node (ucast tick) k ?g) k"
    using GetPlayerNode_takes [OF inv sz room] by blast
  define g where "g = take_node (ucast tick) k ?g"
  let ?s = "s\<lparr>m_GlobMemMgr := g\<rparr>"
  have kb: "k < length (m_PlayerQueueBuf ?g)" using k(1) sz by (simp add: m_PlayerBufferSize_def)
  have other: "player ?s j = player s j" "live ?s j = live s j" if "j \<noteq> k" for j
    using that by (simp_all add: g_def take_node_def player_def live_def node_live_def m_PlayerBufferSize_def)
  have set: "settled ?s j \<longleftrightarrow> settled s j" if "j \<noteq> k" for j using other [OF that] by (simp add: settled_def)
  have "inj_on (\<lambda>j. CharacterID (player ?s j)) {j. live ?s j \<and> j \<notin> {k}}"
    using ok other unfolding players_ok_def inj_on_def by auto
  moreover have "m_PlayerBufferSize g = MAX_ONLINE_PLAYERS"
    using sz by (simp add: g_def take_node_def m_PlayerBufferSize_def)
  moreover have "\<forall>j. live ?s j \<and> j \<notin> {k} \<longrightarrow> settled ?s j"
    using ok other set by (auto simp: players_ok_def)
  ultimately have "players_ok {k} ?s"
    using ok k(4) by (simp add: players_ok_def g_def)
  moreover have "live ?s k" using k(5) by (simp add: live_def g_def)
  moreover have "\<not> live s k" using k(3) by (simp add: live_def)
  moreover have "GameID (player ?s k) = of_nat k OR PLAYER_TAG"
    using kb by (simp add: g_def take_node_def taken_node_def)
  ultimately show ?thesis
    using k(1,2) other by (intro exI [of _ k] exI [of _ g]) (simp add: allocate_player_def g_def)
qed

text \<open>After \<^verbatim>\<open>SetupPlayer\<close> the node is on the list and its character leads to it.\<close>

definition registered :: "u64 \<Rightarrow> u64 \<Rightarrow> nat \<Rightarrow> login_server \<Rightarrow> login_server" where
  "registered k v i s = s\<lparr>m_PlayerLookup := (m_PlayerLookup s)(k \<mapsto> v), m_GlobalPlayerList := bm_set (m_GlobalPlayerList s) i\<rparr>"

lemma registered_fields [simp]:
  "player (registered k v i s) = player s" "live (registered k v i s) = live s"
  "m_GlobMemMgr (registered k v i s) = m_GlobMemMgr s" "g_SessionTokens (registered k v i s) = g_SessionTokens s"
  "login_ticket (registered k v i s) = login_ticket s" "m_PlayerLookup (registered k v i s) = (m_PlayerLookup s)(k \<mapsto> v)"
  "m_GlobalPlayerList (registered k v i s) = bm_set (m_GlobalPlayerList s) i"
  by (simp_all add: registered_def player_def live_def fun_eq_iff)

lemma registered_ok:
  assumes ok: "players_ok {i} s" and l: "live s i" and v: "v = of_nat i OR PLAYER_TAG"
    and other: "\<And>j. j \<noteq> i \<Longrightarrow> live s j \<Longrightarrow> CharacterID (player s j) \<noteq> k"
  shows "players_ok {i} (registered k v i s)"
proof -
  have i: "i < MAX_ONLINE_PLAYERS" by (rule liveD(1) [OF ok l])
  have bits: "bm_get (bm_set (m_GlobalPlayerList s) i) j \<longleftrightarrow> i = j \<or> bm_get (m_GlobalPlayerList s) j" for j
    using ok i by (intro bm_get_set) (simp add: players_ok_def MAX_ONLINE_PLAYERS_def)
  have "settled (registered k v i s) j" if "settled s j" "j \<noteq> i" "live s j" for j
    using that other [OF that(2,3)] bits [of j] by (auto simp: settled_def)
  moreover have "known_nodes ((m_PlayerLookup s)(k \<mapsto> v))"
    using ok i v by (auto simp: players_ok_def known_nodes_def)
  ultimately show ?thesis using ok by (simp add: players_ok_def)
qed

definition set_up :: "u64 \<Rightarrow> nat \<Rightarrow> login_server \<Rightarrow> login_server" where
  "set_up tick i s =
     on_player i (\<lambda>n. n\<lparr>MVASIndex := scast (GameID n)\<rparr>)
       (registered (CharacterID (player s i)) (scast (GameID (player s i))) i
         (on_player i (\<lambda>n. (ResetPlayer n)\<lparr>LastAccessTime := ucast tick\<rparr>) s))"

lemma SetupPlayer_set_up:
  assumes ok: "players_ok P s" and l: "live s i"
  shows "SetupPlayer tick i s = Some (set_up tick i s)"
proof -
  let ?s1 = "on_player i (\<lambda>n. (ResetPlayer n)\<lparr>LastAccessTime := ucast tick\<rparr>) s"
  have p: "CharacterID (player ?s1 i) = CharacterID (player s i)" "GameID (player ?s1 i) = GameID (player s i)"
    "GameIndex (player ?s1 i) = GameIndex (player s i)"
    using liveD(2) [OF ok l] by (simp_all add: player_on_player ResetPlayer_def)
  have "SetIndex (Some (unat (GameIndex (player ?s1 i)))) (m_GlobalPlayerList s) = Some (bm_set (m_GlobalPlayerList s) i)"
    using SetIndex_bm(1) [OF liveD(1) [OF ok l]] ok by (simp add: p liveD(4) [OF ok l] players_ok_def)
  then show ?thesis
    by (simp add: SetupPlayer_def p Let_def set_up_def registered_def)
qed

lemma set_up_ok:
  assumes ok: "players_ok {i} s" and l: "live s i" and id: "GameID (player s i) = of_nat i OR PLAYER_TAG"
    and other: "\<forall>j. j \<noteq> i \<and> live s j \<longrightarrow> CharacterID (player s j) \<noteq> CharacterID (player s i)"
  shows "players_ok {i} (set_up tick i s)" and "live (set_up tick i s) = live s"
    and "j \<noteq> i \<Longrightarrow> player (set_up tick i s) j = player s j"
    and "GameID (player (set_up tick i s) i) = GameID (player s i)"
    and "CharacterID (player (set_up tick i s) i) = CharacterID (player s i)"
    and "m_AuthTokenSet (player (set_up tick i s) i) = False"
    and "m_PlayerLookup (set_up tick i s) = (m_PlayerLookup s)(CharacterID (player s i) \<mapsto> of_nat i OR PLAYER_TAG)"
    and "bm_get (m_GlobalPlayerList (set_up tick i s)) i"
    and "g_SessionTokens (set_up tick i s) = g_SessionTokens s" and "login_ticket (set_up tick i s) = login_ticket s"
proof -
  let ?f = "\<lambda>n. (ResetPlayer n)\<lparr>LastAccessTime := ucast tick\<rparr>"
  have i: "i < MAX_ONLINE_PLAYERS" "i < length (m_PlayerQueueBuf (m_GlobMemMgr s))" using liveD [OF ok l] by simp_all
  have v: "scast (GameID (player s i)) = (of_nat i OR PLAYER_TAG :: clong)"
    by (simp add: id scast_tagged [OF small_tagged [OF i(1)]])
  have ok1: "players_ok {i} (on_player i ?f s)"
    by (rule on_pending_ok [OF ok]) (simp_all add: ResetPlayer_def)
  have l1: "live (on_player i ?f s) = live s" by (rule live_on_player) (simp add: ResetPlayer_def)
  have "players_ok {i} (registered (CharacterID (player s i)) (scast (GameID (player s i))) i (on_player i ?f s))"
    using l other by (intro registered_ok [OF ok1]) (simp_all add: l1 v player_on_player)
  then show "players_ok {i} (set_up tick i s)"
    unfolding set_up_def by (rule on_pending_ok) simp_all
  show "live (set_up tick i s) = live s" unfolding set_up_def by (subst live_on_player) (simp_all add: l1)
  have "bm_get (bm_set (m_GlobalPlayerList s) i) i"
    using ok i(1) by (subst bm_get_set) (simp_all add: players_ok_def MAX_ONLINE_PLAYERS_def)
  then show "bm_get (m_GlobalPlayerList (set_up tick i s)) i" by (simp add: set_up_def)
qed (use liveD(2) [OF ok l] id in \<open>simp_all add: set_up_def player_on_player ResetPlayer_def
    scast_tagged [OF small_tagged [OF liveD(1) [OF ok l]]]\<close>)

text \<open>From \<open>s\<close> to \<open>s'\<close> the character \<open>c\<close> has come online on node \<open>i\<close>.\<close>

definition entered :: "nat \<Rightarrow> nat \<Rightarrow> login_server \<Rightarrow> login_server \<Rightarrow> bool" where
  "entered i c s s' \<longleftrightarrow> players_ok {} s' \<and> live s' i \<and> CharacterID (player s' i) = of_nat c \<and>
     GameID (player s' i) = of_nat c OR PLAYER_TAG \<and>
     (\<forall>j. j \<noteq> i \<and> live s' j \<longrightarrow> live s j \<and> player s' j = player s j) \<and>
     (\<forall>j. j \<noteq> i \<and> live s j \<and> CharacterID (player s j) \<noteq> of_nat c \<longrightarrow> live s' j) \<and>
     g_SessionTokens s' = g_SessionTokens s \<and> login_ticket s' = login_ticket s"

text \<open>The node that was set up joins the others once its id is that of its character.\<close>

lemma settle:
  assumes ok: "players_ok {i} s" and "settled s i" and "\<And>j. j \<noteq> i \<Longrightarrow> live s j \<Longrightarrow> CharacterID (player s j) \<noteq> CharacterID (player s i)"
  shows "players_ok {} s"
proof -
  have "inj_on (\<lambda>j. CharacterID (player s j)) {j. live s j \<and> j \<notin> {}}"
  proof (rule inj_onI)
    fix x y assume x: "x \<in> {j. live s j \<and> j \<notin> {}}" and y: "y \<in> {j. live s j \<and> j \<notin> {}}"
      and eq: "CharacterID (player s x) = CharacterID (player s y)"
    show "x = y"
    proof (cases "x = i \<or> y = i")
      case True
      then show ?thesis using assms(3) x y eq by (metis mem_Collect_eq)
    next
      case False
      then show ?thesis using ok x y eq by (auto simp: players_ok_def inj_on_def)
    qed
  qed
  then show ?thesis using ok assms(2) by (auto simp: players_ok_def)
qed

lemma start_player_enters:
  assumes ok: "players_ok {i} s" and l: "live s i" and id: "GameID (player s i) = of_nat i OR PLAYER_TAG"
    and c: "0 < c" "c < 2 ^ 30"
  shows "\<exists>s'. start_player tick i (of_nat c) slot username port addr s = Some s' \<and> entered i c s s' \<and>
    AccountUsername (player s' i) = username \<and> m_AuthTokenSet (player s' i) = False"
proof -
  let ?s0 = "on_player i (\<lambda>n. n\<lparr>CharacterID := of_nat c\<rparr>) s"
  obtain s1 where s1: "SetCharacterID i (of_nat c) s = Some s1" "thinned i ?s0 s1"
      "\<And>j. j \<noteq> i \<Longrightarrow> live s1 j \<Longrightarrow> CharacterID (player s1 j) \<noteq> of_nat c"
    using SetCharacterID_thins [OF ok l c] by blast
  have ok1: "players_ok {i} s1" and l1: "live s1 i" using s1(2) by (simp_all add: thinned_def)
  have i: "i < MAX_ONLINE_PLAYERS" "i < length (m_PlayerQueueBuf (m_GlobMemMgr s))"
    using liveD [OF ok l] by simp_all
  have n1: "player s1 i = (player s i)\<lparr>CharacterID := of_nat c\<rparr>"
    using s1(2) i(2) by (simp add: thinned_def player_on_player)
  define s2 where "s2 = on_player i (\<lambda>n. n\<lparr>m_CharacterSlot := slot\<rparr>) s1"
  have ok2: "players_ok {i} s2" unfolding s2_def by (rule on_pending_ok [OF ok1]) simp_all
  have l2: "live s2 i" unfolding s2_def using l1 by (simp add: live_on_player)
  define s3 where "s3 = set_up tick i s2"
  have i2: "i < length (m_PlayerQueueBuf (m_GlobMemMgr s2))" by (rule liveD(2) [OF ok2 l2])
  define s4 where "s4 = on_player i (SetPlayerPortIP port addr)
       (on_player i tag_game_id (on_player i (\<lambda>n. n\<lparr>AccountUsername := username\<rparr>) s3))"
  have run: "start_player tick i (of_nat c) slot username port addr s = Some s4"
    using SetupPlayer_set_up [OF ok2 l2] by (simp add: start_player_def s1(1) s2_def s3_def s4_def)
  have char2: "CharacterID (player s2 i) = of_nat c" and id2: "GameID (player s2 i) = of_nat i OR PLAYER_TAG"
    using i2 n1 id by (simp_all add: s2_def player_on_player)
  have p2: "player s2 j = player s1 j" if "j \<noteq> i" for j using that by (simp add: s2_def player_on_player)
  have lv2: "live s2 = live s1" unfolding s2_def by (simp add: live_on_player)
  have other: "\<forall>j. j \<noteq> i \<and> live s2 j \<longrightarrow> CharacterID (player s2 j) \<noteq> CharacterID (player s2 i)"
    using s1(3) by (simp add: char2 p2 lv2)
  note up = set_up_ok [OF ok2 l2 id2 other, where tick = tick, folded s3_def]
  have i3: "i < length (m_PlayerQueueBuf (m_GlobMemMgr s3))" using up(1,2) l2 by (intro liveD(2) [OF up(1)]) simp
  have l3: "live s3 i" using up(2) l2 by simp
  define s3a where "s3a = on_player i (\<lambda>n. n\<lparr>AccountUsername := username\<rparr>) s3"
  define s3b where "s3b = on_player i tag_game_id s3a"
  have s4: "s4 = on_player i (SetPlayerPortIP port addr) s3b" by (simp add: s4_def s3a_def s3b_def)
  have n3a: "GameID (player s3a i) = of_nat i OR PLAYER_TAG" "CharacterID (player s3a i) = of_nat c"
    "AccountUsername (player s3a i) = username" "m_AuthTokenSet (player s3a i) = False"
    using i3 up(4-6) id2 char2 by (simp_all add: s3a_def player_on_player)
  have i3a: "i < length (m_PlayerQueueBuf (m_GlobMemMgr s3a))" using i3 by (simp add: s3a_def)
  have tagged: "GameID (tag_game_id (player s3a i)) = of_nat c OR PLAYER_TAG"
    by (simp add: tag_game_id_def n3a ucast_tagged [OF c(2)])
  have same_use: "GameID (tag_game_id (player s3a i)) = PLAYER_NODE_AVAILABLE \<longleftrightarrow> GameID (player s3a i) = PLAYER_NODE_AVAILABLE"
    using tag_not_available30 [OF c(2)] tag_not_available30 [OF small_tagged [OF i(1)]] by (simp add: tagged n3a)
  have ok3a: "players_ok {i} s3a" unfolding s3a_def by (rule on_pending_ok [OF up(1)]) simp_all
  have ok3b: "players_ok {i} s3b"
    unfolding s3b_def by (rule on_pending_ok [OF ok3a]) (simp_all add: same_use, simp add: tag_game_id_def)
  have ok4: "players_ok {i} s4" unfolding s4 by (rule on_pending_ok [OF ok3b]) (simp_all add: SetPlayerPortIP_def)
  have live4: "live s4 = live s1"
    unfolding s4 s3b_def
    by (subst live_on_player, simp add: SetPlayerPortIP_def, subst live_on_player, rule same_use)
      (simp add: s3a_def live_on_player up(2) lv2)
  have n4: "GameID (player s4 i) = of_nat c OR PLAYER_TAG" "CharacterID (player s4 i) = of_nat c"
    "AccountUsername (player s4 i) = username" "m_AuthTokenSet (player s4 i) = False"
    using i3a tagged n3a by (simp_all add: s4 s3b_def player_on_player SetPlayerPortIP_def) (simp_all add: tag_game_id_def)
  have p4: "player s4 j = player s1 j" if "j \<noteq> i" for j
    using that p2 up(3) by (simp add: s4 s3b_def s3a_def player_on_player)
  have f4: "m_PlayerLookup s4 = m_PlayerLookup s3" "m_GlobalPlayerList s4 = m_GlobalPlayerList s3"
    "g_SessionTokens s4 = g_SessionTokens s3" "login_ticket s4 = login_ticket s3"
    by (simp_all add: s4 s3b_def s3a_def)
  have f2: "g_SessionTokens s2 = g_SessionTokens s" "login_ticket s2 = login_ticket s"
    using s1(2) by (simp_all add: s2_def thinned_def)
  have "settled s4 i"
    using n4 f4 up(7,8) c char2 by (auto simp: settled_def token_ok_def)
  moreover have "CharacterID (player s4 j) \<noteq> CharacterID (player s4 i)" if "j \<noteq> i" "live s4 j" for j
    using s1(3) that by (simp add: n4 p4 live4)
  ultimately have ok5: "players_ok {} s4" by (rule settle [OF ok4])
  have base: "player ?s0 j = player s j" "live ?s0 j = live s j" if "j \<noteq> i" for j
    using that by (simp_all add: player_on_player live_on_player)
  have t: "live s1 j \<longrightarrow> live s j \<and> player s1 j = player s j"
      "live s j \<and> CharacterID (player s j) \<noteq> of_nat c \<longrightarrow> live s1 j" if "j \<noteq> i" for j
    using s1(2) base [OF that] that i(2) by (auto simp: thinned_def player_on_player)
  have "entered i c s s4"
    unfolding entered_def using ok5 live4 l1 n4 t p4 f4 f2 up(9,10) by auto
  then show ?thesis using run n4 by blast
qed

end
