(* ===== verification/LoginFlow.thy ===== *)
theory LoginFlow
  imports LoginSteps TicketProps
begin

text \<open>
  Runs of the login: every datagram keeps the invariant of the players and changes the stash only for its own
  session; the reachable states; the token that is bound at the selection of a character.
\<close>

section \<open>What a datagram may do\<close>

definition tokens_ok :: "session_tokens \<Rightarrow> bool" where
  "tokens_ok m \<longleftrightarrow> (\<forall>k e. m k = Some e \<longrightarrow> length (st_token e) = 16)"

text \<open>The stash is left alone, or the sender takes or stashes a token.\<close>

definition tokens_step :: "clong \<Rightarrow> clong \<Rightarrow> s16 \<Rightarrow> session_tokens \<Rightarrow> session_tokens \<Rightarrow> bool" where
  "tokens_step time addr port m m' \<longleftrightarrow>
     m' = m \<or> m' = snd (TakeSessionToken time addr port m) \<or>
     (\<exists>tok. length tok = 16 \<and> m' = StashSessionToken time addr port tok m)"

definition login_ok :: "login_server \<Rightarrow> bool" where
  "login_ok s \<longleftrightarrow> players_ok {} s \<and> tokens_ok (g_SessionTokens s)"

lemma tokens_step_ok: "tokens_ok m \<Longrightarrow> tokens_step time a p m m' \<Longrightarrow> tokens_ok m'"
  by (auto simp: tokens_step_def tokens_ok_def TakeSessionToken_def StashSessionToken_def prune_tokens_def Let_def
      split: option.splits if_splits)

text \<open>What most handlers do: the invariant is kept and the stash not touched.\<close>

definition quiet :: "login_server \<Rightarrow> login_server \<Rightarrow> bool" where
  "quiet s s' \<longleftrightarrow> players_ok {} s' \<and> g_SessionTokens s' = g_SessionTokens s"

lemma quiet_refl: "players_ok {} s \<Longrightarrow> quiet s s"
  by (simp add: quiet_def)

lemma quiet_log: "players_ok {} s \<Longrightarrow> quiet s (log_event e s)"
  by (simp add: quiet_def)

lemma send_fields [simp]:
  "g_SessionTokens (send c d a p s) = g_SessionTokens s" "g_SessionTokens (SendGlobalError e a p s) = g_SessionTokens s"
  "login_ticket (SendGlobalError e a p s) = login_ticket s"
  by (simp_all add: send_def SendGlobalError_def)

lemma with_player_quiet:
  assumes ok: "players_ok {} s" and run: "with_player w f absent s = Some s'"
    and f: "\<And>i s1 s2. players_ok {} s1 \<Longrightarrow> live s1 i \<Longrightarrow> f i s1 = Some s2 \<Longrightarrow> quiet s1 s2"
    and absent: "\<And>s1. players_ok {} s1 \<Longrightarrow> quiet s1 (absent s1)"
  shows "quiet s s'"
proof -
  obtain p l where p: "find_player w s = Some (p, s\<lparr>m_PlayerLookup := l\<rparr>)" "players_ok {} (s\<lparr>m_PlayerLookup := l\<rparr>)"
    and live: "\<And>i. p = Some i \<Longrightarrow> live s i"
    by (rule find_player_ok [OF ok, of w]) (rule that)
  have "quiet (s\<lparr>m_PlayerLookup := l\<rparr>) s'"
  proof (cases p)
    case None
    then show ?thesis using run p(1) absent [OF p(2)] by (simp add: with_player_def)
  next
    case (Some i)
    then show ?thesis using run p live f by (simp add: with_player_def)
  qed
  then show ?thesis by (simp add: quiet_def)
qed

lemma on_player_quiet: "players_ok {} s \<Longrightarrow> keeps_identity f \<Longrightarrow> quiet s (on_player i f s)"
  by (simp add: quiet_def on_player_ok)

lemma DropPlayerFromGalaxy_quiet:
  assumes "players_ok {} s" and "live s i" and "DropPlayerFromGalaxy i s = Some s'"
  shows "quiet s s'"
  using DropPlayerFromGalaxy_live(1,2) [OF assms(1,2)] assms(3) by (auto simp: quiet_def dropped_def)

lemma keeps_identity_simps [simp]:
  "keeps_identity (SetPlayerPortIP port addr)" "keeps_identity (\<lambda>n. n\<lparr>LastAccessTime := t\<rparr>)"
  "keeps_identity (\<lambda>n. n\<lparr>MVASIndex := v\<rparr>)" "length tok = 16 \<Longrightarrow> keeps_identity (SetAuthToken tok)"
  by (simp_all add: keeps_identity_def SetPlayerPortIP_def SetAuthToken_def token_ok_def)

section \<open>The handlers of the planes\<close>

lemma HandleKeepCommsAlive_quiet:
  "players_ok {} s \<Longrightarrow> HandleKeepCommsAlive now hdr addr port s = Some s' \<Longrightarrow> quiet s s'"
  unfolding HandleKeepCommsAlive_def
  by (rule with_player_quiet, assumption, assumption) (auto intro!: on_player_ok simp: quiet_def)

lemma HandleLogout_quiet:
  assumes ok: "players_ok {} s" and run: "HandleLogout msg s = Some s'"
  shows "quiet s s'"
proof -
  obtain b where b: "peek msg 0 8 = Some b" using run by (cases "peek msg 0 8") (simp_all add: HandleLogout_def)
  obtain p l where p: "GetPlayer (le_word b) False (m_PlayerLookup s) (m_GlobMemMgr s) = Some (p, l, m_GlobMemMgr s)"
    "players_ok {} (s\<lparr>m_PlayerLookup := l\<rparr>)" and live: "\<And>i. p = Some i \<Longrightarrow> live s i"
    by (rule find_by_key [OF ok, of "le_word b"]) (rule that)
  show ?thesis
  proof (cases p)
    case None
    then show ?thesis using run b p by (auto simp: HandleLogout_def lookup_only quiet_def)
  next
    case (Some i)
    let ?s1 = "s\<lparr>m_PlayerLookup := l\<rparr>"
    let ?s2 = "log_event (LeaveGroupOf (GroupID (player ?s1 i)) (GameID (player ?s1 i))) ?s1"
    have "DropPlayerFromGalaxy i ?s2 = Some s'"
      using run b p Some by (simp add: HandleLogout_def lookup_only player_def)
    then have "quiet ?s2 s'" using p live Some by (intro DropPlayerFromGalaxy_quiet) simp_all
    then show ?thesis by (simp add: quiet_def)
  qed
qed

lemma ProcessClientOpcode_quiet:
  "players_ok {} s \<Longrightarrow> ProcessClientOpcode now msg hdr addr port s = Some s' \<Longrightarrow> quiet s s'"
  unfolding ProcessClientOpcode_def
  by (rule with_player_quiet, assumption, assumption)
    (auto intro: HandleKeepCommsAlive_quiet DropPlayerFromGalaxy_quiet quiet_refl quiet_log split: if_splits)

lemma HandleMasterOpcode_quiet:
  assumes "players_ok {} s" and "HandleMasterOpcode env msg hdr addr port s = Some s'"
  shows "quiet s s'"
proof (cases "udp_opcode hdr = 0x2008")
  case False
  then show ?thesis using assms by (simp add: HandleMasterOpcode_def quiet_refl)
next
  case True
  then obtain b where "peek msg 0 5 = Some b"
    using assms(2) by (cases "peek msg 0 5") (simp_all add: HandleMasterOpcode_def)
  then have "with_player (udp_player_id hdr)
          (\<lambda>i s1. Some (case sector_server env (le_word (take 4 b)) of None \<Rightarrow> s1
             | Some (ip, sport) \<Rightarrow>
                 (let s2 = log_event (HandoffConfirmed i ip sport addr port) s1
                  in if 0 < last b then log_event (PacketOptRequested i) s2 else s2)))
          (send 0x100A (replicate 4 0) addr port) s = Some s'"
    using assms(2) True by (simp add: HandleMasterOpcode_def)
  then show ?thesis
    by (rule with_player_quiet [OF assms(1)]) (auto simp: quiet_def Let_def split: option.splits)
qed

text \<open>
  The SSL login server chooses the character itself, in the record with opcode 0x4003. The code takes any number; the
  runs considered here are those in which it is one that an account can have, positive and below the bit that tags
  players. Two records with number 0 are not such a run: they leave two players with one id (\<open>SetCharacterID_unchecked\<close>).
\<close>

definition ssl_sane :: "plane \<Rightarrow> bytes \<Rightarrow> Datagram \<Rightarrow> bool" where
  "ssl_sane pl msg hdr \<longleftrightarrow> (pl = MVAS \<and> udp_opcode hdr = 0x4003 \<longrightarrow>
     (\<forall>w i. ExtractLong msg 0 = Some (w, i) \<longrightarrow> (\<exists>c. 0 < c \<and> c < 2 ^ 30 \<and> w = of_nat c)))"

lemma start_player_quiet:
  assumes ok: "players_ok {} s" and alloc: "allocate_player tick0 s = Some (Some i, s1)" and c: "0 < c" "c < 2 ^ 30"
  shows "\<exists>s2. start_player tick i (of_nat c) slot username port addr s1 = Some s2 \<and> entered i c s s2 \<and>
    i < MAX_ONLINE_PLAYERS \<and> \<not> live s i \<and> AccountUsername (player s2 i) = username \<and> \<not> m_AuthTokenSet (player s2 i)"
proof -
  have room: "m_PlayerCount (m_GlobMemMgr s) < MAX_ONLINE_PLAYERS"
    using alloc allocate_player_full [of s tick0] by (cases "MAX_ONLINE_PLAYERS \<le> m_PlayerCount (m_GlobMemMgr s)") auto
  obtain g where g: "s1 = s\<lparr>m_GlobMemMgr := g\<rparr>" "i < MAX_ONLINE_PLAYERS" "\<not> live s i" "players_ok {i} s1" "live s1 i"
      "GameID (player s1 i) = of_nat i OR PLAYER_TAG" "\<And>j. j \<noteq> i \<Longrightarrow> player s1 j = player s j \<and> live s1 j = live s j"
    using allocate_player_free [OF ok room, of tick0] alloc by auto
  obtain s2 where s2: "start_player tick i (of_nat c) slot username port addr s1 = Some s2" "entered i c s1 s2"
      "AccountUsername (player s2 i) = username" "m_AuthTokenSet (player s2 i) = False"
    using start_player_enters [OF g(4,5,6) c] by blast
  have "g_SessionTokens s1 = g_SessionTokens s" "login_ticket s1 = login_ticket s" by (simp_all add: g(1))
  then have "entered i c s s2" using s2(2) g(7) unfolding entered_def by metis
  then show ?thesis using s2 g by blast
qed

lemma HandleSSLLogin_quiet:
  assumes ok: "players_ok {} s" and run: "HandleSSLLogin now msg addr port s = Some s'"
    and sane: "\<And>w i. ExtractLong msg 0 = Some (w, i) \<Longrightarrow> \<exists>c. 0 < c \<and> c < 2 ^ 30 \<and> w = of_nat c"
  shows "quiet s s'"
proof -
  obtain w i1 pa i2 slot i3 ub i4 where x: "ExtractLong msg 0 = Some (w, i1)" "ExtractLong msg i1 = Some (pa, i2)"
      "ExtractShort msg i2 = Some (slot, i3)" "ExtractDataLS msg (replicate 64 0) i3 = Some (ub, i4)"
    using run by (auto simp: HandleSSLLogin_def split: Option.bind_splits)
  obtain c where c: "0 < c" "c < 2 ^ 30" "w = of_nat c" using sane [OF x(1)] by blast
  show ?thesis
  proof (cases "addr = m_SSLIPAddr s")
    case False
    then show ?thesis using run x ok by (simp add: HandleSSLLogin_def quiet_refl)
  next
    case True
    obtain p s1 where a: "allocate_player (tick_ms now) s = Some (p, s1)"
      using run x True by (auto simp: HandleSSLLogin_def split: Option.bind_splits)
    show ?thesis
    proof (cases p)
      case None
      then have "s1 = s"
        using a ok allocate_player_full [of s] allocate_player_free [OF ok, of "tick_ms now"]
        by (cases "m_PlayerCount (m_GlobMemMgr s) < MAX_ONLINE_PLAYERS") (auto simp: not_less)
      then show ?thesis using run x True a None ok by (auto simp: HandleSSLLogin_def quiet_def)
    next
      case (Some i)
      obtain s2 where s2: "start_player (tick_ms now) i (of_nat c) (scast slot) (cstr_of ub) 0 0 s1 = Some s2" "entered i c s s2"
        using start_player_quiet [OF ok a [unfolded Some] c(1,2)] by blast
      then have "s' = send 0x4004 (le_bytes 8 w) addr port s2"
        using run x True a Some c(3) by (simp add: HandleSSLLogin_def)
      then show ?thesis using s2(2) by (simp add: quiet_def entered_def)
    qed
  qed
qed

lemma HandleMVASOpcode_quiet:
  assumes ok: "players_ok {} s" and run: "HandleMVASOpcode env now msg hdr addr port s = Some s'"
    and sane: "ssl_sane MVAS msg hdr"
  shows "quiet s s'"
proof -
  have register: "quiet s s'" if "HandleMoveAssistRegister env msg addr port s = Some s'"
    using that ok by (auto simp: HandleMoveAssistRegister_def quiet_def Let_def send_def split: Option.bind_splits if_splits)
  have pos: "quiet s s'" if "HandleMVASPosReturn env msg hdr addr port s = Some s'"
    by (rule with_player_quiet [OF ok that [unfolded HandleMVASPosReturn_def Let_def]])
      (auto simp: quiet_def intro!: on_player_ok split: option.splits if_splits)
  have comm: "quiet s s'" if "HandleCommReturn hdr addr port s = Some s'"
    by (rule with_player_quiet [OF ok that [unfolded HandleCommReturn_def]]) (auto simp: quiet_def intro!: on_player_ok)
  have lounge: "quiet s s'" if "HandleLoungeReady hdr s = Some s'"
    by (rule with_player_quiet [OF ok that [unfolded HandleLoungeReady_def]]) (auto simp: quiet_def)
  have ssl: "quiet s s'" if "HandleSSLregister msg addr port s = Some s'"
    using that ok by (auto simp: HandleSSLregister_def quiet_def send_def split: Option.bind_splits if_splits)
  have login: "quiet s s'" if "HandleSSLLogin now msg addr port s = Some s'" "udp_opcode hdr = 0x4003"
    using that sane by (intro HandleSSLLogin_quiet [OF ok]) (auto simp: ssl_sane_def)
  have count: "quiet s (HandlePlayerCountRQ addr port s)" using ok by (simp add: HandlePlayerCountRQ_def quiet_def)
  show ?thesis
    using run register pos comm lounge ssl login count quiet_refl [OF ok]
      HandleLogout_quiet [OF ok] HandleKeepCommsAlive_quiet [OF ok]
    by (simp add: HandleMVASOpcode_def Let_def split: if_splits)
qed

section \<open>The global plane\<close>

text \<open>Account numbers are small enough for the ids of their characters to keep clear of the tag bits.\<close>

definition accounts_ok :: "login_env \<Rightarrow> bool" where
  "accounts_ok env \<longleftrightarrow> (\<forall>u. account_id env u = -1 \<or> (\<exists>a. account_id env u = of_nat a \<and> 5 * a + 5 < 2 ^ 30))"

lemma GetAvatarID_range:
  assumes "accounts_ok env"
  shows "GetAvatarID env u slot = -1 \<or> (\<exists>c. 0 < c \<and> c < 2 ^ 30 \<and> GetAvatarID env u slot = of_nat c)"
proof (cases "0 \<le>s slot \<and> slot \<le>s 4 \<and> account_id env u \<noteq> -1")
  case False
  then show ?thesis by (auto simp: GetAvatarID_def)
next
  case True
  then obtain a where a: "account_id env u = of_nat a" "5 * a + 5 < 2 ^ 30"
    using assms by (auto simp: accounts_ok_def)
  have "slot \<in> {0, 1, 2, 3, 4}" using True small_slot [of slot] by blast
  then obtain k where k: "k \<le> 4" "(scast slot :: clong) = of_nat k"
  proof -
    have "\<exists>k \<le> 4. (scast slot :: clong) = of_nat k" if "slot \<in> {0, 1, 2, 3, 4}"
      using that
    proof (elim insertE emptyE)
      show "slot = 0 \<Longrightarrow> ?thesis" by (intro exI [of _ 0]) simp
      show "slot = 1 \<Longrightarrow> ?thesis" by (intro exI [of _ 1]) simp
      show "slot = 2 \<Longrightarrow> ?thesis" by (intro exI [of _ 2]) simp
      show "slot = 3 \<Longrightarrow> ?thesis" by (intro exI [of _ 3]) simp
      show "slot = 4 \<Longrightarrow> ?thesis" by (intro exI [of _ 4]) simp
    qed
    then show ?thesis using \<open>slot \<in> _\<close> that by blast
  qed
  have "GetAvatarID env u slot = of_nat (5 * a + k + 1)"
    using True a k by (simp add: GetAvatarID_def AVATAR_ID_def algebra_simps)
  moreover have "5 * a + k + 1 < 2 ^ 30" using a(2) k(1) by linarith
  ultimately show ?thesis by (intro disjI2 exI [of _ "5 * a + k + 1"]) simp
qed

lemma GetLoginTokenBinary_length: "GetLoginTokenBinary env time u rows = Some tok \<Longrightarrow> length tok = 16"
  by (auto simp: GetLoginTokenBinary_def token_of_hex_def split: option.splits if_splits)

lemma TokenHexToBinary_length: "TokenHexToBinary env hex = Some tok \<Longrightarrow> length tok = 16"
  by (auto simp: TokenHexToBinary_def token_of_hex_def split: option.splits if_splits)

lemma TakeSessionToken_length: "tokens_ok m \<Longrightarrow> fst (TakeSessionToken time a p m) = Some tok \<Longrightarrow> length tok = 16"
  by (auto simp: TakeSessionToken_def tokens_ok_def Let_def split: option.splits if_splits)

lemma bind_token_effect:
  assumes ok: "players_ok {} s" and toks: "tokens_ok (g_SessionTokens s)" and l: "live s i"
  shows "players_ok {} (bind_token env time u a p i s)"
    and "g_SessionTokens (bind_token env time u a p i s) = snd (TakeSessionToken time a p (g_SessionTokens s))"
    and "live (bind_token env time u a p i s) = live s"
    and "j \<noteq> i \<Longrightarrow> player (bind_token env time u a p i s) j = player s j"
    and "CharacterID (player (bind_token env time u a p i s) i) = CharacterID (player s i)"
    and "GameID (player (bind_token env time u a p i s) i) = GameID (player s i)"
    and "AccountUsername (player (bind_token env time u a p i s) i) = AccountUsername (player s i)"
    and "fst (TakeSessionToken time a p (g_SessionTokens s)) = Some tok \<Longrightarrow>
      m_AuthTokenSet (player (bind_token env time u a p i s) i) \<and> m_AuthToken (player (bind_token env time u a p i s) i) = tok"
proof -
  let ?s1 = "s\<lparr>g_SessionTokens := snd (TakeSessionToken time a p (g_SessionTokens s))\<rparr>"
  have il: "i < length (m_PlayerQueueBuf (m_GlobMemMgr s))" by (rule liveD(2) [OF ok l])
  have cases: "(\<exists>tok. length tok = 16 \<and> bind_token env time u a p i s = on_player i (SetAuthToken tok) ?s1 \<and>
      (\<forall>t. fst (TakeSessionToken time a p (g_SessionTokens s)) = Some t \<longrightarrow> t = tok)) \<or>
    bind_token env time u a p i s = ?s1 \<and> fst (TakeSessionToken time a p (g_SessionTokens s)) = None"
    using TakeSessionToken_length [OF toks, of time a p] GetLoginTokenBinary_length [of env time u "login_ticket s"]
    by (auto simp: bind_token_def Let_def split: option.splits prod.splits)
  have lv: "live (on_player i (SetAuthToken tok) ?s1) = live s" for tok
    by (subst live_on_player) (simp_all add: SetAuthToken_def)
  show "players_ok {} (bind_token env time u a p i s)"
    using cases ok by (auto intro!: on_player_ok)
  show "live (bind_token env time u a p i s) = live s" using cases lv by auto
  show "g_SessionTokens (bind_token env time u a p i s) = snd (TakeSessionToken time a p (g_SessionTokens s))"
    using cases by auto
  show "player (bind_token env time u a p i s) j = player s j" if "j \<noteq> i"
    using cases that by (auto simp: player_on_player)
  show "CharacterID (player (bind_token env time u a p i s) i) = CharacterID (player s i)"
    "GameID (player (bind_token env time u a p i s) i) = GameID (player s i)"
    "AccountUsername (player (bind_token env time u a p i s) i) = AccountUsername (player s i)"
    using cases il by (auto simp: player_on_player SetAuthToken_def)
  show "m_AuthTokenSet (player (bind_token env time u a p i s) i) \<and> m_AuthToken (player (bind_token env time u a p i s) i) = tok"
    if "fst (TakeSessionToken time a p (g_SessionTokens s)) = Some tok"
    using cases il that by (auto simp: player_on_player SetAuthToken_def)
qed

text \<open>The selection of a character.\<close>

lemma ticket_request_cases:
  assumes ok: "players_ok {} s" and acc: "accounts_ok env" and run: "HandleGlobalTicketRequest env now msg addr port s = Some s'"
  obtains (ignored) "quiet s s'"
  | (enters) i c u s4 where "0 < c" "c < 2 ^ 30" "entered i c s s4" "\<not> live s i"
      "s' = log_event (LoginConfirmed i (of_nat c) addr port)
              (log_event (DatabaseRead i (of_nat c)) (bind_token env (time_s now) u addr port i s4))"
proof -
  obtain b ub index where x: "peek msg 0 4 = Some b" "ExtractDataLS msg (replicate 128 0) 4 = Some (ub, index)"
    using run by (auto simp: HandleGlobalTicketRequest_def Let_def split: Option.bind_splits)
  let ?u = "cstr_of ub" and ?slot = "ntohl (le_word b)"
  consider (none) "GetAvatarID env ?u ?slot = -1" | (some) c where "0 < c" "c < 2 ^ 30" "GetAvatarID env ?u ?slot = of_nat c"
      "GetAvatarID env ?u ?slot \<noteq> -1"
    using GetAvatarID_range [OF acc] by blast
  then show ?thesis
  proof cases
    case none
    then show ?thesis using run x ok ignored by (simp add: HandleGlobalTicketRequest_def Let_def quiet_def)
  next
    case some
    obtain p s1 where a: "allocate_player (tick_ms now) s = Some (p, s1)"
      using run x some(4) by (auto simp: HandleGlobalTicketRequest_def Let_def split: Option.bind_splits)
    show ?thesis
    proof (cases p)
      case None
      then have "s1 = s"
        using a ok allocate_player_full [of s] allocate_player_free [OF ok, of "tick_ms now"]
        by (cases "m_PlayerCount (m_GlobMemMgr s) < MAX_ONLINE_PLAYERS") (auto simp: not_less)
      then show ?thesis
        using run x a None some(4) ok by (intro ignored) (auto simp: HandleGlobalTicketRequest_def Let_def quiet_def)
    next
      case (Some i)
      obtain s4 where s4: "start_player (tick_ms now) i (of_nat c) (ucast ?slot) ?u port addr s1 = Some s4" "entered i c s s4"
          "\<not> live s i"
        using start_player_quiet [OF ok a [unfolded Some] some(1,2)] by blast
      then show ?thesis
        using run x a Some some by (intro enters [OF some(1,2) s4(2,3), of ?u]) (auto simp: HandleGlobalTicketRequest_def Let_def)
    qed
  qed
qed

lemma HandleGlobalTicketRequest_effect:
  assumes ok: "login_ok s" and acc: "accounts_ok env" and run: "HandleGlobalTicketRequest env now msg addr port s = Some s'"
  shows "players_ok {} s' \<and> tokens_step (time_s now) addr port (g_SessionTokens s) (g_SessionTokens s')"
proof -
  have pl: "players_ok {} s" and toks: "tokens_ok (g_SessionTokens s)" using ok by (simp_all add: login_ok_def)
  show ?thesis
  proof (cases rule: ticket_request_cases [OF pl acc run])
    case 1
    then show ?thesis by (simp add: quiet_def tokens_step_def)
  next
    case (2 i c u s4)
    have e: "players_ok {} s4" "live s4 i" "g_SessionTokens s4 = g_SessionTokens s"
      using 2(3) by (simp_all add: entered_def)
    have "tokens_ok (g_SessionTokens s4)" using toks e(3) by simp
    note b = bind_token_effect [OF e(1) this e(2), where env = env and time = "time_s now" and u = u and a = addr and p = port]
    show ?thesis using 2(5) b(1,2) e(3) by (simp add: tokens_step_def)
  qed
qed

lemma ProcessTicketInfo_effect:
  assumes ok: "players_ok {} s"
  shows "players_ok {} (snd (ProcessTicketInfo env now msg addr port s)) \<and>
    tokens_step (time_s now) addr port (g_SessionTokens s) (g_SessionTokens (snd (ProcessTicketInfo env now msg addr port s)))"
  using ok TokenHexToBinary_length
  by (auto simp: ProcessTicketInfo_def tokens_step_def Let_def split: prod.splits option.splits)

lemma handle_datagram_effect:
  assumes ok: "login_ok s" and acc: "accounts_ok env" and sane: "ssl_sane pl msg hdr"
    and run: "handle_datagram env now pl msg hdr addr port s = Some s'"
  shows "login_ok s' \<and> tokens_step (time_s now) addr port (g_SessionTokens s) (g_SessionTokens s')"
proof -
  have pl: "players_ok {} s" and toks: "tokens_ok (g_SessionTokens s)" using ok by (simp_all add: login_ok_def)
  have quiet: "?thesis" if "quiet s s'" using that toks by (simp add: quiet_def login_ok_def tokens_step_def)
  show ?thesis
  proof (cases pl)
    case MVAS
    then show ?thesis using run sane by (intro quiet HandleMVASOpcode_quiet [OF pl]) (simp_all add: handle_datagram_def)
  next
    case SECTOR
    then show ?thesis using run by (intro quiet ProcessClientOpcode_quiet [OF pl]) (simp add: handle_datagram_def)
  next
    case MASTER
    then show ?thesis using run by (intro quiet HandleMasterOpcode_quiet [OF pl]) (simp add: handle_datagram_def)
  next
    case GLOBAL
    have verify: "quiet s s'" if "VerifyAccountInfo env now msg addr port s = Some s'"
      using that pl by (auto simp: VerifyAccountInfo_def quiet_def Let_def split: Option.bind_splits if_splits prod.splits)
    have create: "quiet s (HandleAvatarCreateRequest env cr addr port s)" for cr
      using pl by (simp add: HandleAvatarCreateRequest_def quiet_def split: sum.splits)
    have del: "quiet s s'" if "HandleAvatarDeleteRequest env msg addr port s = Some s'"
      using that pl by (auto simp: HandleAvatarDeleteRequest_def quiet_def Let_def split: Option.bind_splits)
    have "players_ok {} s' \<and> tokens_step (time_s now) addr port (g_SessionTokens s) (g_SessionTokens s')"
      if "HandleGlobalTicketRequest env now msg addr port s = Some s' \<or> s' = snd (ProcessTicketInfo env now msg addr port s)"
      using that HandleGlobalTicketRequest_effect [OF ok acc] ProcessTicketInfo_effect [OF pl] by blast
    then have tokens: ?thesis
      if "HandleGlobalTicketRequest env now msg addr port s = Some s' \<or> s' = snd (ProcessTicketInfo env now msg addr port s)"
      using that tokens_step_ok [OF toks] by (auto simp: login_ok_def)
    show ?thesis
      using run quiet verify create del tokens quiet_refl [OF pl] GLOBAL
      by (simp add: handle_datagram_def HandleGlobalOpcode_def split: if_splits) auto
  qed
qed

end
