(* ===== verification/LoginSafety.thy ===== *)
theory LoginSafety
  imports LoginFlow
begin

text \<open>
  Reachable states of the login and what holds in them: no character is online twice, a datagram of a player
  needs the token bound to him, and a session binds the token it presented whatever other sessions do. Then
  what the code does not prevent: a session enters the account of somebody else, and datagrams without a
  player log players out and overrun buffers.
\<close>

section \<open>Runs\<close>

text \<open>
  The label of a step is the second of its arrival and the address and port it came from. A step is any datagram that the
  handlers take, on any plane, or a look at a bound token; of the records of the SSL login server only those that
  name a character an account can have (\<open>ssl_sane\<close>).
\<close>

type_synonym arrival = "nat \<times> clong \<times> s16"

inductive login_step :: "login_env \<Rightarrow> login_server \<Rightarrow> arrival \<Rightarrow> login_server \<Rightarrow> bool" for env where
  datagram: "time_s now = of_nat t \<Longrightarrow> t < 2 ^ 40 \<Longrightarrow> ssl_sane pl msg hdr \<Longrightarrow>
     handle_datagram env now pl msg hdr addr port s = Some s' \<Longrightarrow> login_step env s (t, addr, port) s'"
| check: "bound_token game_id s = Some (r, s') \<Longrightarrow> login_step env s (t, addr, port) s'"

inductive login_run :: "login_env \<Rightarrow> login_server \<Rightarrow> arrival list \<Rightarrow> login_server \<Rightarrow> bool" for env where
  none: "login_run env s [] s"
| more: "login_run env s ls s1 \<Longrightarrow> login_step env s1 l s2 \<Longrightarrow> login_run env s (ls @ [l]) s2"

definition login_start :: "login_server \<Rightarrow> bool" where
  "login_start s \<longleftrightarrow> (\<exists>nodes. length nodes = MAX_ONLINE_PLAYERS \<and> m_GlobMemMgr s = new_GMemoryHandler nodes) \<and>
     m_PlayerLookup s = Map.empty \<and> m_GlobalPlayerList s = replicate 16 0 \<and> g_SessionTokens s = Map.empty"

definition login_reachable :: "login_env \<Rightarrow> login_server \<Rightarrow> bool" where
  "login_reachable env s \<longleftrightarrow> (\<exists>s0 ls. login_start s0 \<and> login_run env s0 ls s)"

lemma start_ok: "login_start s \<Longrightarrow> login_ok s"
proof -
  assume start: "login_start s"
  then obtain nodes where n: "length nodes = 500" "m_GlobMemMgr s = new_GMemoryHandler nodes"
    by (auto simp: login_start_def MAX_ONLINE_PLAYERS_def)
  have "gm_inv (m_GlobMemMgr s)" unfolding n(2) using n(1) by (intro gm_inv_new) auto
  moreover have "\<not> live s j" for j
    using n by (auto simp: live_def node_live_def new_GMemoryHandler_def m_PlayerBufferSize_def)
  moreover have "m_PlayerBufferSize (m_GlobMemMgr s) = MAX_ONLINE_PLAYERS"
    using n by (simp add: new_GMemoryHandler_def m_PlayerBufferSize_def MAX_ONLINE_PLAYERS_def)
  ultimately show ?thesis
    using start by (simp add: login_ok_def players_ok_def known_nodes_def tokens_ok_def login_start_def)
qed

lemma bound_token_effect:
  assumes ok: "players_ok {} s" and run: "bound_token w s = Some (r, s')"
  shows "quiet s s'"
proof -
  obtain p l where "find_player w s = Some (p, s\<lparr>m_PlayerLookup := l\<rparr>)" "players_ok {} (s\<lparr>m_PlayerLookup := l\<rparr>)"
    by (rule find_player_ok [OF ok, of w]) (rule that)
  then show ?thesis using run by (auto simp: bound_token_def quiet_def)
qed

lemma login_step_effect:
  assumes "login_step env s (t, addr, port) s'" and "login_ok s" and "accounts_ok env"
  shows "login_ok s' \<and> (g_SessionTokens s' = g_SessionTokens s \<or>
    t < 2 ^ 40 \<and> tokens_step (of_nat t) addr port (g_SessionTokens s) (g_SessionTokens s'))"
  using assms(1)
proof cases
  case (datagram now pl msg hdr)
  then show ?thesis using handle_datagram_effect [OF assms(2,3) datagram(3,4)] by simp
next
  case (check game_id r)
  then have "quiet s s'" using assms(2) by (intro bound_token_effect) (simp_all add: login_ok_def)
  then show ?thesis using assms(2) by (simp add: quiet_def login_ok_def)
qed

lemma login_run_ok: "login_run env s ls s' \<Longrightarrow> login_ok s \<Longrightarrow> accounts_ok env \<Longrightarrow> login_ok s'"
proof (induction rule: login_run.induct)
  case (more s ls s1 l s2)
  then show ?case using login_step_effect [of env s1 "fst l" "fst (snd l)" "snd (snd l)" s2] by simp
qed

lemma reachable_ok: "login_reachable env s \<Longrightarrow> accounts_ok env \<Longrightarrow> login_ok s"
  by (auto simp: login_reachable_def intro: login_run_ok start_ok)

lemma reachable_run: "login_reachable env s \<Longrightarrow> login_step env s l s' \<Longrightarrow> login_reachable env s'"
  unfolding login_reachable_def by (meson login_run.more)

section \<open>The players who are online\<close>

text \<open>
  C5: in every state the server reaches, a player who is online is found under his id, and no other node has the
  same character or the same id: no character is online twice. (States reached by any datagrams, but for records of the
  SSL login server with a character number that is not positive or not below \<open>2 ^ 30\<close>: number 0, sent twice, does
  put two players online with one id. Account numbers keep the ids of characters below the bit that tags players.)
\<close>

theorem character_online_once:
  assumes "login_reachable env s" and "accounts_ok env" and "live s i"
  shows "(\<exists>s'. find_player (GameID (player s i)) s = Some (Some i, s')) \<and>
    (\<forall>j. live s j \<and> j \<noteq> i \<longrightarrow> CharacterID (player s j) \<noteq> CharacterID (player s i) \<and> GameID (player s j) \<noteq> GameID (player s i))"
proof -
  have ok: "players_ok {} s" using reachable_ok [OF assms(1,2)] by (simp add: login_ok_def)
  have "CharacterID (player s j) \<noteq> CharacterID (player s i)" if "live s j" "j \<noteq> i" for j
    using ok that assms(3) unfolding players_ok_def inj_on_def by auto
  moreover have "GameID (player s j) \<noteq> GameID (player s i)" if "live s j" "j \<noteq> i" for j
    using find_player_online [OF ok that(1)] find_player_online [OF ok assms(3)] that(2) by auto
  ultimately show ?thesis using find_player_online [OF ok assms(3)] by blast
qed

lemma bound_token_length:
  assumes ok: "players_ok {} s" and "bound_token w s = Some (Some b, s')"
  shows "length b = 16"
proof -
  obtain p l where p: "find_player w s = Some (p, s\<lparr>m_PlayerLookup := l\<rparr>)" and live: "\<And>i. p = Some i \<Longrightarrow> live s i"
    by (rule find_player_ok [OF ok, of w]) (rule that)
  then obtain i where i: "live s i" "m_AuthTokenSet (player s i)" "b = m_AuthToken (player s i)"
    using assms(2) by (auto simp: bound_token_def split: option.splits if_splits)
  then have "token_ok (player s i)" using ok by (simp add: players_ok_def settled_def)
  then show ?thesis using i by (simp add: token_ok_def)
qed

lemma bound_token_online:
  assumes ok: "players_ok {} s" and l: "live s j"
  shows "\<exists>s'. bound_token (GameID (player s j)) s =
    Some (if m_AuthTokenSet (player s j) then Some (m_AuthToken (player s j)) else None, s')"
  using find_player_online [OF ok l] by (auto simp: bound_token_def)

lemma tagged_not_zero: "(w OR PLAYER_TAG :: s32) \<noteq> 0"
  by (auto simp: or_eq_0_iff PLAYER_TAG_def)

lemma check_online:
  assumes ok: "players_ok {} s" and l: "live s j" and id: "inner_player_id inner = GameID (player s j)"
  shows "(\<exists>s'. CheckAuthWrapper rec MAX_BUFFER bound_token s = Some (Accept inner, s')) \<longleftrightarrow>
    m_AuthTokenSet (player s j) \<and> rec = wrapped (m_AuthToken (player s j)) inner \<and> 12 \<le> length inner \<and>
    length inner + 17 < MAX_BUFFER"
proof -
  have set: "settled s j" using ok l by (simp add: players_ok_def)
  then have nz: "inner_player_id inner \<noteq> 0" using tagged_not_zero by (auto simp: settled_def id)
  have len: "m_AuthTokenSet (player s j) \<Longrightarrow> length (m_AuthToken (player s j)) = 16"
    using set by (simp add: settled_def token_ok_def)
  obtain s1 where b: "bound_token (inner_player_id inner) s =
      Some (if m_AuthTokenSet (player s j) then Some (m_AuthToken (player s j)) else None, s1)"
    using bound_token_online [OF ok l] by (auto simp: id)
  have "CheckAuthWrapper rec MAX_BUFFER bound_token s = Some (Accept inner, s') \<longleftrightarrow>
    (\<exists>tok. rec = wrapped tok inner \<and> length tok = 16 \<and> 12 \<le> length inner \<and> length rec < MAX_BUFFER \<and>
       bound_token (inner_player_id inner) s = Some (Some tok, s'))" for s'
    using CheckAuthWrapper_iff [of bound_token s rec MAX_BUFFER inner s'] bound_token_length [OF ok] nz by simp
  then show ?thesis using len b by auto
qed

text \<open>
  C4: a datagram that names a player who is online is accepted exactly when it carries the
  token bound to him; while none is bound, nothing is accepted. (The reachable states are those of C5.)
\<close>

theorem gameplay_needs_token:
  assumes "login_reachable env s" and "accounts_ok env" and "live s j" and "inner_player_id inner = GameID (player s j)"
  shows "(\<exists>s'. CheckAuthWrapper rec MAX_BUFFER bound_token s = Some (Accept inner, s')) \<longleftrightarrow>
    m_AuthTokenSet (player s j) \<and> rec = wrapped (m_AuthToken (player s j)) inner \<and> 12 \<le> length inner \<and>
    length inner + 17 < MAX_BUFFER"
  using reachable_ok [OF assms(1,2)] by (intro check_online [OF _ assms(3,4)]) (simp add: login_ok_def)

section \<open>The token of a session\<close>

text \<open>Other sessions leave a stashed token alone as long as it has not expired.\<close>

definition stashed :: "clong \<Rightarrow> s16 \<Rightarrow> nat \<Rightarrow> bytes \<Rightarrow> session_tokens \<Rightarrow> bool" where
  "stashed a p t0 tok m \<longleftrightarrow> stash_entry t0 m a p (Some (t0, tok))"

lemma stashed_step:
  assumes "stashed a p t0 tok m" and "tokens_step (of_nat t) addr port m m'" and "\<not> same_session a p addr port"
    and "t \<le> t0 + 300" and "t < 2 ^ 40" and "t0 < 2 ^ 40"
  shows "stashed a p t0 tok m'"
proof -
  have key: "session_key a p \<noteq> session_key addr port" using assms(3) by (simp add: session_key_eq)
  have e: "m (session_key a p) = Some \<lparr>st_token = tok, expires_ms = of_nat (1000 * (t0 + 300))\<rparr>"
    using assms(1) by (simp add: stashed_def stash_entry_def)
  have fresh: "\<not> of_nat (1000 * (t0 + 300)) <s now_ms (of_nat t)"
    using ms_less [OF assms(5,6)] assms(4) by simp
  have "m' (session_key a p) = m (session_key a p)"
    using assms(2) key e fresh
    by (auto simp: tokens_step_def TakeSessionToken_def StashSessionToken_def prune_tokens_def Let_def split: option.splits)
  then show ?thesis using e by (simp add: stashed_def stash_entry_def)
qed

lemma stashed_run:
  assumes "login_run env s ls s'" and "login_ok s" and "accounts_ok env" and "stashed a p t0 tok (g_SessionTokens s)"
    and "\<forall>(t, a', p') \<in> set ls. t \<le> t0 + 300 \<and> \<not> same_session a p a' p'" and "t0 < 2 ^ 40"
  shows "stashed a p t0 tok (g_SessionTokens s')"
  using assms
proof (induction rule: login_run.induct)
  case (more s ls s1 l s2)
  obtain t a' p' where l: "l = (t, a', p')" by (cases l)
  have "login_ok s1" using more.hyps(1) more.prems(1,2) by (rule login_run_ok)
  then have "g_SessionTokens s2 = g_SessionTokens s1 \<or>
      t < 2 ^ 40 \<and> tokens_step (of_nat t) a' p' (g_SessionTokens s1) (g_SessionTokens s2)"
    using login_step_effect [OF more.hyps(2) [unfolded l]] more.prems(2) by blast
  moreover have "stashed a p t0 tok (g_SessionTokens s1)" using more by simp
  moreover have "t \<le> t0 + 300" "\<not> same_session a p a' p'" using more.prems(4) by (auto simp: l)
  ultimately show ?case using stashed_step more.prems(5) by metis
qed

text \<open>A valid ticket as it is presented, and a message that selects a character.\<close>

definition ticket_presented ::
    "login_env \<Rightarrow> moment \<Rightarrow> nat \<Rightarrow> bytes \<Rightarrow> bytes \<Rightarrow> bytes \<Rightarrow> login_server \<Rightarrow> bool" where
  "ticket_presented env now t0 name tok msg s \<longleftrightarrow> time_s now = of_nat t0 \<and> t0 < 2 ^ 40 \<and>
     (\<exists>hex. cstr_of msg = name @ dash # hex \<and> dash \<notin> set hex \<and>
        ValidateTicketSuffix env (of_nat t0) name hex (login_ticket s) \<and> TokenHexToBinary env hex = Some tok)"

definition character_selected :: "login_env \<Rightarrow> bytes \<Rightarrow> bytes \<Rightarrow> nat \<Rightarrow> bool" where
  "character_selected env msg u c \<longleftrightarrow> 0 < c \<and> c < 2 ^ 30 \<and>
     (\<exists>b ub index. peek msg 0 4 = Some b \<and> ExtractDataLS msg (replicate 128 0) 4 = Some (ub, index) \<and> u = cstr_of ub \<and>
        GetAvatarID env u (ntohl (le_word b)) = of_nat c)"

lemma presented_stashes:
  assumes "ticket_presented env now t0 name tok msg s"
  shows "stashed a p t0 tok (g_SessionTokens (snd (ProcessTicketInfo env now msg a p s)))"
proof -
  obtain hex where h: "cstr_of msg = name @ dash # hex" "dash \<notin> set hex" "time_s now = of_nat t0"
      "ValidateTicketSuffix env (of_nat t0) name hex (login_ticket s)" "TokenHexToBinary env hex = Some tok"
    using assms by (auto simp: ticket_presented_def)
  have "g_SessionTokens (snd (ProcessTicketInfo env now msg a p s)) =
      StashSessionToken (of_nat t0) a p tok (g_SessionTokens s)"
    using h split_ticket_append [OF h(2), of name] by (simp add: ProcessTicketInfo_def Let_def)
  moreover have "StashSessionToken (of_nat t0) a p tok m (session_key a p) =
      Some \<lparr>st_token = tok, expires_ms = of_nat (1000 * (t0 + 300))\<rparr>" for m
    unfolding StashSessionToken_def expiry_of_nat by simp
  ultimately show ?thesis by (simp add: stashed_def stash_entry_def del: of_nat_mult of_nat_add)
qed

lemma selection_binds:
  assumes ok: "login_ok s" and room: "m_PlayerCount (m_GlobMemMgr s) < MAX_ONLINE_PLAYERS"
    and sel: "character_selected env msg u c" and st: "stashed a p t0 tok (g_SessionTokens s)"
    and t: "time_s now = of_nat t1" "t1 \<le> t0 + 300" "t1 < 2 ^ 40" "t0 < 2 ^ 40"
  shows "\<exists>i s'. HandleGlobalTicketRequest env now msg a p s = Some s' \<and> players_ok {} s' \<and> live s' i \<and>
    CharacterID (player s' i) = of_nat c \<and> GameID (player s' i) = of_nat c OR PLAYER_TAG \<and>
    AccountUsername (player s' i) = u \<and> m_AuthTokenSet (player s' i) \<and> m_AuthToken (player s' i) = tok"
proof -
  have pl: "players_ok {} s" and toks: "tokens_ok (g_SessionTokens s)" using ok by (simp_all add: login_ok_def)
  obtain b ub index where x: "peek msg 0 4 = Some b" "ExtractDataLS msg (replicate 128 0) 4 = Some (ub, index)" "u = cstr_of ub"
      "GetAvatarID env u (ntohl (le_word b)) = of_nat c" and c: "0 < c" "c < 2 ^ 30"
    using sel by (auto simp: character_selected_def)
  obtain i g where al: "allocate_player (tick_ms now) s = Some (Some i, s\<lparr>m_GlobMemMgr := g\<rparr>)"
    using allocate_player_free [OF pl room, of "tick_ms now"] by blast
  obtain s4 where s4: "start_player (tick_ms now) i (of_nat c) (ucast (ntohl (le_word b))) u p a (s\<lparr>m_GlobMemMgr := g\<rparr>) = Some s4"
      "entered i c s s4" "AccountUsername (player s4 i) = u"
    using start_player_quiet [OF pl al c] by blast
  have e: "players_ok {} s4" "live s4 i" "g_SessionTokens s4 = g_SessionTokens s" "CharacterID (player s4 i) = of_nat c"
    "GameID (player s4 i) = of_nat c OR PLAYER_TAG" using s4(2) by (simp_all add: entered_def)
  have "tokens_ok (g_SessionTokens s4)" using toks e(3) by simp
  note bt = bind_token_effect [OF e(1) this e(2), where env = env and time = "time_s now" and u = u and a = a and p = p]
  have "stash_entry t1 (g_SessionTokens s4) a p (Some (t0, tok)) \<or> t1 < t0"
    using st stash_entry_later [of t0 "g_SessionTokens s" a p "Some (t0, tok)" t1] by (auto simp: stashed_def e(3))
  then have tk: "fst (TakeSessionToken (time_s now) a p (g_SessionTokens s4)) = Some tok"
  proof
    assume "stash_entry t1 (g_SessionTokens s4) a p (Some (t0, tok))"
    then show ?thesis using take_entry [OF _ t(3)] t by simp
  next
    assume "t1 < t0"
    then show ?thesis
      using st ms_le [OF t(3,4)] t by (simp add: stashed_def stash_entry_def e(3) TakeSessionToken_def Let_def)
  qed
  have "of_nat c \<noteq> (-1 :: clong)"
  proof
    assume "of_nat c = (-1 :: clong)"
    then have "bit (of_nat c :: clong) 40" by simp
    then show False using bit_of_nat_small [OF c(2), of 40, where 'a = 64] by simp
  qed
  then have "HandleGlobalTicketRequest env now msg a p s = Some (log_event (LoginConfirmed i (of_nat c) a p)
      (log_event (DatabaseRead i (of_nat c)) (bind_token env (time_s now) u a p i s4)))"
    using x al s4(1) by (simp add: HandleGlobalTicketRequest_def Let_def)
  then show ?thesis using bt tk e s4(3) by (intro exI [of _ i]) simp
qed

lemma session_run:
  assumes acc: "accounts_ok env" and reach: "login_reachable env s0"
    and ticket: "ticket_presented env now0 t0 name tok msg0 s0"
    and run: "login_run env (snd (ProcessTicketInfo env now0 msg0 a p s0)) ls s"
    and others: "\<forall>(t, a', p') \<in> set ls. t \<le> t0 + 300 \<and> \<not> same_session a p a' p'"
  shows "login_ok s" and "stashed a p t0 tok (g_SessionTokens s)" and "t0 < 2 ^ 40"
proof -
  let ?s1 = "snd (ProcessTicketInfo env now0 msg0 a p s0)"
  have ok0: "login_ok s0" by (rule reachable_ok [OF reach acc])
  show t0: "t0 < 2 ^ 40" using ticket by (simp add: ticket_presented_def)
  have ok1: "login_ok ?s1"
    using ProcessTicketInfo_effect [of s0 env now0 msg0 a p] ok0 tokens_step_ok by (auto simp: login_ok_def)
  show "login_ok s" by (rule login_run_ok [OF run ok1 acc])
  show "stashed a p t0 tok (g_SessionTokens s)"
    by (rule stashed_run [OF run ok1 acc presented_stashes [OF ticket] others t0])
qed

text \<open>
  C6: a session that presented a valid ticket, and selects a character within five minutes, binds the token of that
  ticket, whatever other sessions send in between (among them logins of the same account, which
  replace its ticket): afterwards a datagram that names the character is accepted exactly when it carries that token.
\<close>

theorem session_keeps_token:
  assumes "accounts_ok env" and "login_reachable env s0" and "ticket_presented env now0 t0 name tok msg0 s0"
    and "login_run env (snd (ProcessTicketInfo env now0 msg0 a p s0)) ls s"
    and "\<forall>(t, a', p') \<in> set ls. t \<le> t0 + 300 \<and> \<not> same_session a p a' p'"
    and "m_PlayerCount (m_GlobMemMgr s) < MAX_ONLINE_PLAYERS" and "character_selected env msg u c"
    and "time_s now = of_nat t1" and "t1 \<le> t0 + 300" and "t1 < 2 ^ 40"
  shows "\<exists>i s'. HandleGlobalTicketRequest env now msg a p s = Some s' \<and> live s' i \<and> CharacterID (player s' i) = of_nat c \<and>
    (\<forall>rec inner. inner_player_id inner = of_nat c OR PLAYER_TAG \<longrightarrow>
       ((\<exists>s''. CheckAuthWrapper rec MAX_BUFFER bound_token s' = Some (Accept inner, s'')) \<longleftrightarrow>
        rec = wrapped tok inner \<and> 12 \<le> length inner \<and> length inner + 17 < MAX_BUFFER))"
proof -
  note r = session_run [OF assms(1-5)]
  obtain i s' where s': "HandleGlobalTicketRequest env now msg a p s = Some s'" "players_ok {} s'" "live s' i"
      "CharacterID (player s' i) = of_nat c" "GameID (player s' i) = of_nat c OR PLAYER_TAG"
      "m_AuthTokenSet (player s' i)" "m_AuthToken (player s' i) = tok"
    using selection_binds [OF r(1) assms(6,7) r(2) assms(8-10) r(3)] by blast
  then show ?thesis using check_online [OF s'(2,3)] by (intro exI [of _ i] exI [of _ s']) simp
qed

section \<open>An example\<close>

definition bob :: bytes where "bob = [98, 111, 98]"
definition ann :: bytes where "ann = [97, 110, 110]"

definition example_token :: bytes where "example_token = replicate 16 7"

text \<open>Bob has a ticket; the server has just started.\<close>

definition example_server :: login_server where
  "example_server = empty_server\<lparr>login_ticket := [bob \<mapsto> (to_hex example_token, ticket_end 1000)]\<rparr>"

definition at_second :: "nat \<Rightarrow> moment" where
  "at_second t = \<lparr>time_s = of_nat t, tick_ms = 0, random_token = []\<rparr>"

definition bobs_ticket :: bytes where "bobs_ticket = bob @ dash # to_hex example_token @ [0]"

definition select :: "u8 \<Rightarrow> bytes \<Rightarrow> bytes" where "select slot name = [0, 0, 0, slot] @ [3, 0] @ name"

lemma example_reachable: "login_reachable example_env example_server"
proof -
  have "login_start example_server"
    by (auto simp: login_start_def example_server_def empty_server_def MAX_ONLINE_PLAYERS_def
        intro!: exI [of _ "replicate 500 blank_node"])
  then show ?thesis unfolding login_reachable_def using login_run.none by blast
qed

lemma example_accounts: "accounts_ok example_env"
  unfolding accounts_ok_def example_env_def
  by (auto intro: exI [of _ 9] exI [of _ 8])

lemma example_presented: "ticket_presented example_env (at_second 1000) 1000 bob example_token bobs_ticket example_server"
proof -
  note hex = hex_codecD [OF example_hex, of example_token]
  have b: "bin2hex example_env = to_hex" "hex2bin example_env = from_hex" "sodium_ready example_env"
    by (simp_all add: example_env_def)
  have c: "cstr_of bobs_ticket = bob @ dash # to_hex example_token"
    using cstr_of_append_zero [of "bob @ dash # to_hex example_token" "[]"] hex(3)
    by (simp add: bobs_ticket_def bob_def cstring_def dash_def b)
  have ne: "to_hex example_token \<noteq> []" using hex(1) by (auto simp: b example_token_def)
  have "\<not> ticket_end 1000 <s now_ms (of_nat 1000)" by (rule ticket_not_expired) simp_all
  then have "ValidateTicketSuffix example_env (of_nat 1000) bob (to_hex example_token) (login_ticket example_server)"
    using ne by (simp add: ValidateTicketSuffix_def example_server_def bob_def b)
  moreover have "TokenHexToBinary example_env (to_hex example_token) = Some example_token"
    using ne hex(4) by (simp add: TokenHexToBinary_def token_of_hex_def b example_token_def)
  ultimately show ?thesis
    using c hex(2) by (simp add: ticket_presented_def at_second_def b)
qed

lemma example_selected:
  "character_selected example_env (select 1 bob) bob 47" "character_selected example_env (select 0 ann) ann 41"
proof -
  have "ExtractDataLS (select 1 bob) (replicate 128 0) 4 = Some (bob @ 0 # replicate 124 0, 9)"
    "ExtractDataLS (select 0 ann) (replicate 128 0) 4 = Some (ann @ 0 # replicate 124 0, 9)"
    by code_simp+
  moreover have "peek (select 1 bob) 0 4 = Some [0, 0, 0, 1]" "peek (select 0 ann) 0 4 = Some [0, 0, 0, 0]"
    by (simp_all add: peek_def select_def bob_def ann_def)
  moreover have "ntohl (le_word [0, 0, 0, 1]) = 1" "ntohl (le_word [0, 0, 0, 0]) = 0" by code_simp+
  moreover have "cstr_of (bob @ 0 # replicate 124 0) = bob" "cstr_of (ann @ 0 # replicate 124 0) = ann"
    by (simp_all add: cstr_of_def bob_def ann_def)
  moreover have "GetAvatarID example_env bob 1 = of_nat 47" "GetAvatarID example_env ann 0 = of_nat 41"
    by (simp_all add: GetAvatarID_def example_env_def bob_def ann_def AVATAR_ID_def word_sle_eq)
  ultimately show "character_selected example_env (select 1 bob) bob 47" "character_selected example_env (select 0 ann) ann 41"
    unfolding character_selected_def by auto
qed

text \<open>Between Bob's ticket and his selection another session sends an empty ticket.\<close>

definition ticket_header :: Datagram where
  "ticket_header = \<lparr>udp_size = 13, udp_opcode = 0x2002, udp_player_id = 0, packet_sequence = 0, udp_payload = []\<rparr>"

definition after_ticket :: login_server where
  "after_ticket = snd (ProcessTicketInfo example_env (at_second 1000) bobs_ticket 1 2 example_server)"

definition after_other :: login_server where
  "after_other = snd (ProcessTicketInfo example_env (at_second 1010) [0] 5 9 after_ticket)"

lemma send_mem [simp]:
  "m_GlobMemMgr (send c d a p s) = m_GlobMemMgr s" "m_GlobMemMgr (SendGlobalError e a p s) = m_GlobMemMgr s"
  by (simp_all add: send_def SendGlobalError_def)

lemma ProcessTicketInfo_mem: "m_GlobMemMgr (snd (ProcessTicketInfo env now msg a p s)) = m_GlobMemMgr s"
  by (simp add: ProcessTicketInfo_def Let_def split: prod.splits option.splits)

lemma example_step: "login_step example_env after_ticket (1010, 5, 9) after_other"
proof -
  have "handle_datagram example_env (at_second 1010) GLOBAL [0] ticket_header 5 9 after_ticket = Some after_other"
    by (simp add: handle_datagram_def HandleGlobalOpcode_def ticket_header_def after_other_def)
  then show ?thesis by (intro login_step.datagram) (simp_all add: at_second_def ssl_sane_def)
qed

lemma example_run: "login_run example_env after_ticket [(1010, 5, 9)] after_other"
  using login_run.more [OF login_run.none example_step] by simp

lemma example_room: "m_PlayerCount (m_GlobMemMgr after_other) < MAX_ONLINE_PLAYERS"
  by (simp add: after_other_def after_ticket_def ProcessTicketInfo_mem example_server_def empty_server_def
      new_GMemoryHandler_def MAX_ONLINE_PLAYERS_def)

lemma example_others: "\<forall>(t, a', p') \<in> set [(1010 :: nat, 5, 9)]. t \<le> 1000 + 300 \<and> \<not> same_session 1 2 a' p'"
  by (simp add: same_session_def)

lemma session_keeps_token_witness:
  "\<exists>i s'. HandleGlobalTicketRequest example_env (at_second 1200) (select 1 bob) 1 2 after_other = Some s' \<and> live s' i \<and>
    CharacterID (player s' i) = 47"
proof -
  have "\<exists>i s'. HandleGlobalTicketRequest example_env (at_second 1200) (select 1 bob) 1 2 after_other = Some s' \<and> live s' i \<and>
      CharacterID (player s' i) = of_nat 47 \<and>
      (\<forall>rec inner. inner_player_id inner = of_nat 47 OR PLAYER_TAG \<longrightarrow>
       ((\<exists>s''. CheckAuthWrapper rec MAX_BUFFER bound_token s' = Some (Accept inner, s'')) \<longleftrightarrow>
        rec = wrapped example_token inner \<and> 12 \<le> length inner \<and> length inner + 17 < MAX_BUFFER))"
    by (rule session_keeps_token [OF example_accounts example_reachable example_presented
          example_run [unfolded after_ticket_def] example_others example_room example_selected(1), of _ 1200])
      (simp_all add: at_second_def)
  then show ?thesis by auto
qed

text \<open>Bob is online after his selection.\<close>

lemma bob_online: "\<exists>s i. login_reachable example_env s \<and> live s i"
proof -
  have run: "login_run example_env (snd (ProcessTicketInfo example_env (at_second 1000) bobs_ticket 1 2 example_server))
      [(1010, 5, 9)] after_other" using example_run by (simp add: after_ticket_def)
  note r = session_run [OF example_accounts example_reachable example_presented run example_others]
  obtain i s' where s': "HandleGlobalTicketRequest example_env (at_second 1200) (select 1 bob) 1 2 after_other = Some s'"
      "live s' i"
    using selection_binds [OF r(1) example_room example_selected(1) r(2), of "at_second 1200" 1200]
    by (auto simp: at_second_def)
  have "handle_datagram example_env (at_second 1000) GLOBAL bobs_ticket ticket_header 1 2 example_server = Some after_ticket"
    by (simp add: handle_datagram_def HandleGlobalOpcode_def ticket_header_def after_ticket_def)
  then have step1: "login_step example_env example_server (1000, 1, 2) after_ticket"
    by (intro login_step.datagram) (simp_all add: at_second_def ssl_sane_def)
  have "handle_datagram example_env (at_second 1200) GLOBAL (select 1 bob) (ticket_header\<lparr>udp_opcode := 0x2004\<rparr>) 1 2 after_other =
      Some s'" using s'(1) by (simp add: handle_datagram_def HandleGlobalOpcode_def ticket_header_def)
  then have step3: "login_step example_env after_other (1200, 1, 2) s'"
    by (intro login_step.datagram) (simp_all add: at_second_def ssl_sane_def)
  have "login_reachable example_env s'"
    by (rule reachable_run [OF reachable_run [OF reachable_run [OF example_reachable step1] example_step] step3])
  then show ?thesis using s'(2) by blast
qed

lemma character_online_once_witness:
  "\<exists>s i. live s i \<and> (\<exists>s'. find_player (GameID (player s i)) s = Some (Some i, s'))"
proof -
  obtain s i where "login_reachable example_env s" "live s i" using bob_online by blast
  then show ?thesis using character_online_once [OF _ example_accounts, of s i] by blast
qed

lemma gameplay_needs_token_witness:
  "\<exists>s i. live s i \<and> (\<forall>rec inner. inner_player_id inner = GameID (player s i) \<longrightarrow> rec \<noteq> wrapped (m_AuthToken (player s i)) inner \<longrightarrow>
     \<not> (\<exists>s'. CheckAuthWrapper rec MAX_BUFFER bound_token s = Some (Accept inner, s')))"
proof -
  obtain s i where "login_reachable example_env s" "live s i" using bob_online by blast
  then show ?thesis using gameplay_needs_token [OF _ example_accounts, of s i] by blast
qed

end
