(* ===== verification/LoginAttacks.thy ===== *)
theory LoginAttacks
  imports LoginSafety
begin

text \<open>
  What the code lets through: a session enters any account by naming it when it selects a character, and datagrams whose
  header names no player, which need no token, log players out, delete characters and overrun buffers.
\<close>

section \<open>Entering another account\<close>

text \<open>
  C34: the account is not that of the ticket. A session that presented a ticket for \<open>name\<close> and selects a character of
  another user is let in as that user: the character is bound to the token of the intruder, and its owner, if online, is dropped.
\<close>

theorem session_enters_any_account:
  assumes "accounts_ok env" and "login_reachable env s0" and "ticket_presented env now0 t0 name tok msg0 s0"
    and "login_run env (snd (ProcessTicketInfo env now0 msg0 a p s0)) ls s"
    and "\<forall>(t, a', p') \<in> set ls. t \<le> t0 + 300 \<and> \<not> same_session a p a' p'"
    and "m_PlayerCount (m_GlobMemMgr s) < MAX_ONLINE_PLAYERS" and "character_selected env msg u c" and "u \<noteq> name"
    and "time_s now = of_nat t1" and "t1 \<le> t0 + 300" and "t1 < 2 ^ 40"
  shows "\<exists>i s'. HandleGlobalTicketRequest env now msg a p s = Some s' \<and> live s' i \<and> AccountUsername (player s' i) = u \<and>
    CharacterID (player s' i) = of_nat c \<and> m_AuthTokenSet (player s' i) \<and> m_AuthToken (player s' i) = tok \<and>
    (\<forall>j. live s' j \<and> j \<noteq> i \<longrightarrow> CharacterID (player s' j) \<noteq> of_nat c)"
proof -
  note r = session_run [OF assms(1-5)]
  obtain i s' where s': "HandleGlobalTicketRequest env now msg a p s = Some s'" "players_ok {} s'" "live s' i"
      "CharacterID (player s' i) = of_nat c" "AccountUsername (player s' i) = u"
      "m_AuthTokenSet (player s' i)" "m_AuthToken (player s' i) = tok"
    using selection_binds [OF r(1) assms(6,7) r(2) assms(9-11) r(3)] by blast
  have "CharacterID (player s' j) \<noteq> of_nat c" if "live s' j" "j \<noteq> i" for j
    using s'(2,3,4) that unfolding players_ok_def inj_on_def by auto
  then show ?thesis using s' by blast
qed

lemma session_enters_any_account_witness:
  "\<exists>i s'. HandleGlobalTicketRequest example_env (at_second 1200) (select 0 ann) 1 2 after_other = Some s' \<and> live s' i \<and>
    AccountUsername (player s' i) = ann \<and> m_AuthToken (player s' i) = example_token"
proof -
  have "ann \<noteq> bob" by (simp add: ann_def bob_def)
  then have "\<exists>i s'. HandleGlobalTicketRequest example_env (at_second 1200) (select 0 ann) 1 2 after_other = Some s' \<and> live s' i \<and>
      AccountUsername (player s' i) = ann \<and> CharacterID (player s' i) = of_nat 41 \<and> m_AuthTokenSet (player s' i) \<and>
      m_AuthToken (player s' i) = example_token \<and> (\<forall>j. live s' j \<and> j \<noteq> i \<longrightarrow> CharacterID (player s' j) \<noteq> of_nat 41)"
    by (intro session_enters_any_account [OF example_accounts example_reachable example_presented
          example_run [unfolded after_ticket_def] example_others example_room example_selected(2), of _ 1200])
      (simp_all add: at_second_def)
  then show ?thesis by blast
qed

section \<open>Datagrams that name no player\<close>

definition udp_packet :: "s16 \<Rightarrow> s32 \<Rightarrow> bytes \<Rightarrow> bytes" where
  "udp_packet opcode game_id body =
     le_bytes 2 (of_nat (12 + length body) :: s16) @ le_bytes 2 opcode @ le_bytes 4 game_id @ le_bytes 4 (0 :: s32) @ body"

lemma length_udp_packet [simp]: "length (udp_packet opcode game_id body) = 12 + length body"
  by (simp add: udp_packet_def)

lemma udp_packet_player: "inner_player_id (udp_packet opcode game_id body) = game_id"
  by (simp add: inner_player_id_def udp_packet_def kUdpHeaderPlayerIdOff_def le_word_le_bytes)

lemma check_without_player:
  assumes "length tok = 16" and "inner_player_id inner = 0" and "12 \<le> length inner" and "length inner + 17 < MAX_BUFFER"
  shows "CheckAuthWrapper (wrapped tok inner) MAX_BUFFER bound_token s = Some (Accept inner, s)"
  using assms by (simp add: CheckAuthWrapper_def wrapper_length kUdpHeaderLen_def inner_player_id_def Let_def)
    (simp add: wrapped_def)

lemma poke_at_front: "length xs \<le> length buf \<Longrightarrow> poke buf 0 xs = Some (xs @ drop (length xs) buf)"
  by (simp add: poke_def)

text \<open>A record without a player reaches its handler whatever its token.\<close>

lemma receive_without_player:
  assumes tok: "length tok = 16" and buf: "length buf = MAX_BUFFER" and len: "length body + 29 < MAX_BUFFER"
  obtains rest hdr buf' where "udp_opcode hdr = opcode"
    and "receive_record env now pl (wrapped tok (udp_packet opcode 0 body)) addr port (buf, s) =
      map_option (Pair buf') (handle_datagram env now pl (body @ 0 # rest) hdr addr port s)"
proof -
  let ?inner = "udp_packet opcode 0 body" and ?n = "12 + length body"
  have n: "?n < 2 ^ 15" "?n + 1 \<le> MAX_BUFFER" using len by (simp_all add: MAX_BUFFER_def)
  define rest where "rest = drop ?n buf"
  have ne: "rest \<noteq> []" "length rest = MAX_BUFFER - ?n" using n buf by (auto simp: rest_def)
  have chk: "CheckAuthWrapper (wrapped tok ?inner) MAX_BUFFER bound_token s = Some (Accept ?inner, s)"
    using tok len by (intro check_without_player) (simp_all add: udp_packet_player)
  have pk: "poke buf 0 ?inner = Some (?inner @ rest)"
    using buf n by (subst poke_at_front) (simp_all add: rest_def)
  define hdr where "hdr = \<lparr>udp_size = of_nat ?n :: s16, udp_opcode = opcode, udp_player_id = 0, packet_sequence = 0,
      udp_payload = body @ rest\<rparr>"
  have hd: "read_header (?inner @ rest) = Some hdr"
    by (simp add: read_header_def peek_def udp_packet_def le_word_le_bytes hdr_def)
  have sz: "unat (udp_size hdr) = ?n" "\<not> udp_size hdr <s 0" "unat (udp_size hdr - of_nat UDP_HEADER_SIZE) + UDP_HEADER_SIZE = ?n"
  proof -
    show "unat (udp_size hdr) = ?n" unfolding hdr_def using unat_short_length [OF n(1)] by simp
    show "\<not> udp_size hdr <s 0" unfolding hdr_def using sint_short_length [OF n(1)] by (simp add: word_sless_alt del: of_nat_add)
    have "udp_size hdr - of_nat UDP_HEADER_SIZE = of_nat (length body)" by (simp add: hdr_def UDP_HEADER_SIZE_def)
    moreover have "unat (of_nat (length body) :: s16) = length body" using n(1) by (intro unat_short_length) simp
    ultimately show "unat (udp_size hdr - of_nat UDP_HEADER_SIZE) + UDP_HEADER_SIZE = ?n" by (simp add: UDP_HEADER_SIZE_def)
  qed
  have zero: "poke (?inner @ rest) ?n [0] = Some (?inner @ 0 # tl rest)"
    using ne by (cases rest) (simp_all add: poke_def)
  have msg: "drop UDP_HEADER_SIZE ?inner = body" "UDP_HEADER_SIZE \<le> ?n"
    by (simp_all add: UDP_HEADER_SIZE_def udp_packet_def)
  have "receive_record env now pl (wrapped tok ?inner) addr port (buf, s) =
      map_option (Pair (?inner @ 0 # tl rest)) (handle_datagram env now pl (body @ 0 # tl rest) hdr addr port s)"
    using sz by (simp add: receive_record_def chk pk DispatchDatagram_def hd zero msg Let_def)
  moreover have "udp_opcode hdr = opcode" by (simp add: hdr_def)
  ultimately show ?thesis by (intro that)
qed

text \<open>A name in a message as the reader takes it into an array of \<open>n\<close> bytes.\<close>

lemma extract_name:
  assumes "length pre = k" and "length name < n" and "length name < 2 ^ 15"
  shows "ExtractDataLS ((pre @ le_bytes 2 (of_nat (length name) :: s16) @ name) @ 0 # rest) (replicate n 0) k =
    Some (name @ 0 # replicate (n - 1 - length name) 0, k + 2 + length name)"
proof -
  have "sint (of_nat (length name) :: s16) = int (length name)" by (rule sint_short_length [OF assms(3)])
  moreover have "drop (length name) (replicate n (0 :: u8)) = 0 # replicate (n - 1 - length name) 0"
    using assms(2) by (cases "n - length name") (auto simp: replicate_Suc [symmetric] simp del: replicate_Suc)
  ultimately show ?thesis
    using assms by (simp add: ExtractDataLS_def peek_def poke_def le_word_le_bytes Let_def)
qed

lemma peek_front: "length xs = n \<Longrightarrow> peek (xs @ ys) 0 n = Some xs"
  by (simp add: peek_def)

text \<open>
  C35: anybody logs out anybody: a log-off datagram carries the id of the player in its body, and its header may name no
  player, so that no token is compared. The player named is dropped, and only he.
\<close>

theorem logout_needs_no_login:
  assumes "login_reachable env s" and "accounts_ok env" and "live s j" and "length tok = 16" and "length buf = MAX_BUFFER"
  shows "\<exists>buf' s'. receive_record env now MVAS
      (wrapped tok (udp_packet 0x1008 0 (le_bytes 8 (scast (GameID (player s j)) :: clong)))) addr port (buf, s) = Some (buf', s') \<and>
    \<not> live s' j \<and> (\<forall>i. i \<noteq> j \<longrightarrow> live s' i = live s i \<and> player s' i = player s i)"
proof -
  have ok: "players_ok {} s" using reachable_ok [OF assms(1,2)] by (simp add: login_ok_def)
  let ?id = "scast (GameID (player s j)) :: clong"
  have len: "length (le_bytes 8 ?id) + 29 < MAX_BUFFER" by (simp add: MAX_BUFFER_def)
  obtain rest hdr buf' where r: "udp_opcode hdr = 0x1008"
    "receive_record env now MVAS (wrapped tok (udp_packet 0x1008 0 (le_bytes 8 ?id))) addr port (buf, s) =
      map_option (Pair buf') (handle_datagram env now MVAS (le_bytes 8 ?id @ 0 # rest) hdr addr port s)"
    by (rule receive_without_player [OF assms(4,5) len, where opcode = "0x1008" and env = env and now = now
          and pl = MVAS and addr = addr and port = port and s = s]) (rule that)
  obtain l where f: "find_player (GameID (player s j)) s = Some (Some j, s\<lparr>m_PlayerLookup := l\<rparr>)"
    using find_player_online [OF ok assms(3)] by blast
  obtain p l' where f': "find_player (GameID (player s j)) s = Some (p, s\<lparr>m_PlayerLookup := l'\<rparr>)"
      "players_ok {} (s\<lparr>m_PlayerLookup := l'\<rparr>)"
    by (rule find_player_ok [OF ok, of "GameID (player s j)"]) (rule that)
  have ok1: "players_ok {} (s\<lparr>m_PlayerLookup := l\<rparr>)" using f f' by simp
  obtain g where g: "GetPlayer ?id False (m_PlayerLookup s) (m_GlobMemMgr s) = Some (Some j, g, m_GlobMemMgr s)"
      "s\<lparr>m_PlayerLookup := g\<rparr> = s\<lparr>m_PlayerLookup := l\<rparr>"
  proof -
    obtain q k where "GetPlayer ?id False (m_PlayerLookup s) (m_GlobMemMgr s) = Some (q, k, m_GlobMemMgr s)"
      by (rule find_by_key [OF ok, of ?id]) (rule that)
    then show ?thesis using f that by (simp add: find_player_def lookup_only)
  qed
  let ?s1 = "log_event (LeaveGroupOf (GroupID (player s j)) (GameID (player s j))) (s\<lparr>m_PlayerLookup := l\<rparr>)"
  have "peek (le_bytes 8 ?id @ 0 # rest) 0 8 = Some (le_bytes 8 ?id)" by (rule peek_front) simp
  then have "handle_datagram env now MVAS (le_bytes 8 ?id @ 0 # rest) hdr addr port s = DropPlayerFromGalaxy j ?s1"
    using g r(1) by (simp add: handle_datagram_def HandleMVASOpcode_def HandleLogout_def le_word_le_bytes lookup_only player_def)
  moreover have "live ?s1 j" "players_ok {} ?s1" using assms(3) ok1 by simp_all
  note d = DropPlayerFromGalaxy_live [OF this(2,1)]
  ultimately have "receive_record env now MVAS (wrapped tok (udp_packet 0x1008 0 (le_bytes 8 ?id))) addr port (buf, s) =
      Some (buf', dropped j ?s1)" using r(2) d(1) by simp
  moreover have "live (dropped j ?s1) i = live s i \<and> player (dropped j ?s1) i = player s i" if "i \<noteq> j" for i
    using d(4,5) [OF that] by simp
  ultimately show ?thesis using d(3) by blast
qed

lemma logout_needs_no_login_witness:
  "\<exists>s j buf' s'. live s j \<and> receive_record example_env (at_second 7) MVAS
      (wrapped (replicate 16 0) (udp_packet 0x1008 0 (le_bytes 8 (scast (GameID (player s j)) :: clong)))) 3 4
      (replicate MAX_BUFFER 0, s) = Some (buf', s') \<and> \<not> live s' j"
proof -
  obtain s j where "login_reachable example_env s" "live s j" using bob_online by blast
  then show ?thesis
    using logout_needs_no_login [OF _ example_accounts, of s j "replicate 16 0" "replicate MAX_BUFFER 0" "at_second 7" 3 4]
    by auto
qed

lemma delete_needs_no_login:
  assumes "length tok = 16" and "length buf = MAX_BUFFER" and "length name < 64" and "cstring name" and slot: "length slot = 4"
  shows "\<exists>buf' s'. receive_record env now GLOBAL
      (wrapped tok (udp_packet 0x200D 0 (slot @ le_bytes 2 (of_nat (length name) :: s16) @ name))) addr port (buf, s) = Some (buf', s') \<and>
    CharacterDeleted (GetAvatarID env name (ntohl (le_word slot))) \<in> set (login_log s')"
proof -
  let ?body = "slot @ le_bytes 2 (of_nat (length name) :: s16) @ name"
  have len: "length ?body + 29 < MAX_BUFFER" using assms(3) slot by (simp add: MAX_BUFFER_def)
  obtain rest hdr buf' where r: "udp_opcode hdr = 0x200D"
    "receive_record env now GLOBAL (wrapped tok (udp_packet 0x200D 0 ?body)) addr port (buf, s) =
      map_option (Pair buf') (handle_datagram env now GLOBAL (?body @ 0 # rest) hdr addr port s)"
    by (rule receive_without_player [OF assms(1,2) len, where opcode = "0x200D" and env = env and now = now
          and pl = GLOBAL and addr = addr and port = port and s = s]) (rule that)
  have x: "ExtractLong (?body @ 0 # rest) 0 = Some (scast (le_word slot :: s32), 4)"
    using slot by (simp add: ExtractLong_def peek_def)
  have y: "ExtractDataLS (?body @ 0 # rest) (replicate 64 0) 4 =
      Some (name @ 0 # replicate (63 - length name) 0, 6 + length name)"
    using extract_name [where pre = slot and k = 4 and n = 64 and name = name and rest = rest] assms(3) slot by simp
  have "cstr_of (name @ 0 # replicate (63 - length name) 0) = name" by (rule cstr_of_append_zero [OF assms(4)])
  moreover have "(ucast (scast (le_word slot :: s32) :: clong) :: s32) = le_word slot"
  proof (rule bit_word_eqI)
    fix n assume "n < LENGTH(32)"
    then have "n < 31 \<or> n = 31" by auto
    then show "bit (ucast (scast (le_word slot :: s32) :: clong) :: s32) n = bit (le_word slot :: s32) n"
      by (auto simp: bit_ucast_iff bit_signed_iff)
  qed
  ultimately show ?thesis
    using r x y by (simp add: handle_datagram_def HandleGlobalOpcode_def HandleAvatarDeleteRequest_def log_event_def Let_def)
qed

text \<open>
  A selection of a character carries the name of its user, which goes into an array of 128 bytes whatever
  its length. A name of 128 bytes or more, in a datagram that names no player and needs no token, writes past that array.
\<close>

theorem long_name_overruns:
  assumes "length tok = 16" and "length buf = MAX_BUFFER" and "length slot = 4" and "128 \<le> length name"
    and "length name + 35 < MAX_BUFFER"
  shows "receive_record env now GLOBAL
      (wrapped tok (udp_packet 0x2004 0 (slot @ le_bytes 2 (of_nat (length name) :: s16) @ name))) addr port (buf, s) = None"
proof -
  let ?body = "slot @ le_bytes 2 (of_nat (length name) :: s16) @ name"
  have len: "length ?body + 29 < MAX_BUFFER" using assms(3,5) by simp
  obtain rest hdr buf' where r: "udp_opcode hdr = 0x2004"
    "receive_record env now GLOBAL (wrapped tok (udp_packet 0x2004 0 ?body)) addr port (buf, s) =
      map_option (Pair buf') (handle_datagram env now GLOBAL (?body @ 0 # rest) hdr addr port s)"
    by (rule receive_without_player [OF assms(1,2) len, where opcode = "0x2004" and env = env and now = now
          and pl = GLOBAL and addr = addr and port = port and s = s]) (rule that)
  have "sint (of_nat (length name) :: s16) = int (length name)"
    using assms(5) by (intro sint_short_length) (simp add: MAX_BUFFER_def)
  then have y: "ExtractDataLS (?body @ 0 # rest) (replicate 128 0) 4 = None"
    using assms(3,4) by (simp add: ExtractDataLS_def peek_def poke_def le_word_le_bytes Let_def)
  have "peek (?body @ 0 # rest) 0 4 = Some slot" using assms(3) by (simp add: peek_def)
  with y show ?thesis
    using r by (simp add: handle_datagram_def HandleGlobalOpcode_def HandleGlobalTicketRequest_def Let_def)
qed

lemma long_name_overruns_witness:
  "receive_record example_env (at_second 7) GLOBAL
      (wrapped (replicate 16 0) (udp_packet 0x2004 0 (replicate 4 0 @ le_bytes 2 (of_nat 128 :: s16) @ replicate 128 65))) 3 4
      (replicate MAX_BUFFER 0, empty_server) = None"
  using long_name_overruns [of "replicate 16 0" "replicate MAX_BUFFER 0" "replicate 4 0" "replicate 128 65" example_env
      "at_second 7" 3 4 empty_server] by (simp add: MAX_BUFFER_def)

end
