(* ===== verification/Experience.thy ===== *)
theory Experience
  imports GroupManager "HOL-Library.Signed_Division"
begin

text \<open>
  Experience and levels: \<^verbatim>\<open>AwardXP\<close> and its three callers in \<^verbatim>\<open>server/src/PlayerExperience.cpp\<close>, the debt
  of experience in \<^verbatim>\<open>server/src/PlayerCombat.cpp\<close>, and the shares of a group
  (\<^verbatim>\<open>GroupCombatXP\<close>, \<^verbatim>\<open>GroupExploreXP\<close> of \<^verbatim>\<open>server/src/GroupManager.cpp\<close>).

  A bar holds the part of the way to the next level as a float. The conversions between bars and
  experience, and the products with float constants, are functions of the environment. Messages, sounds, saves
  and packets are events; \<^term>\<open>None\<close> is an access outside a table.
\<close>

section \<open>Tables\<close>

definition LevelXP :: "nat list" where
  "LevelXP =
     [10000, 12500, 15000, 17500, 20000, 22500, 27500, 32500, 37500, 42500, 47500, 52500, 57500, 62500,
      67500, 72500, 77500, 82500, 87500, 92500, 97500, 102500, 102500, 102500, 102500, 102500, 102500,
      102500, 102500, 102500, 102500, 102500, 112500, 122500, 132500, 142500, 152500, 162500, 182500,
      202500, 222500, 242500, 262500, 282500, 302500, 322500, 342500, 362500, 382500, 402500] @ replicate 60 402500"

definition MOBXP :: "nat list" where
  "MOBXP = [50, 100, 200, 300, 400, 500, 600, 700, 800, 900, 1000, 1200, 1400, 1600, 1800, 2000, 3000, 4000, 5000, 6000, 7000]"

definition xp_needed :: "u32 \<Rightarrow> nat option" where
  "xp_needed level = (if unat level < length LevelXP then Some (LevelXP ! unat level) else None)"

section \<open>State\<close>

datatype experience_type = XP_COMBAT | XP_EXPLORE | XP_TRADE

datatype xp_event =
    Earned experience_type string clong clong "(clong \<times> u32) option"
  | SavedXPDebt u32 u32
  | SavedSkillPoints u32
  | LevelUp experience_type u32
  | SavedAdvanceLevel experience_type u32
  | SavedXPBarLevel experience_type f32
  | SentAuxPlayer
  | DebtReceived u32
  | DebtForgiven u32 u32
  | DebtPaid u32

text \<open>The fields of \<^verbatim>\<open>AuxRPGInfo\<close>, of the player index and of the ship that the operations use.\<close>

record xp_player =
  SkillPoints :: u32
  TotalSkillPoints :: u32
  CombatXP :: f32
  CombatLevel :: u32
  TradeXP :: f32
  TradeLevel :: u32
  ExploreXP :: f32
  ExploreLevel :: u32
  ShipCombatLevel :: u32
  XPDebt :: u32
  m_IncapXPDebt :: u32
  xp_log :: "xp_event list"

text \<open>
  \<^verbatim>\<open>(u32)(bar * LevelXP[level])\<close>, \<^verbatim>\<open>(u32)((1.0f - bar) * LevelXP[level])\<close>, \<^verbatim>\<open>(float)(xp)/(float)(LevelXP[level])\<close>,
  \<^verbatim>\<open>(long)((float)xp*1.5f)\<close> and \<^verbatim>\<open>long((float)xp * BonusXP[i])\<close>, the tables' entries taken as arguments.
\<close>

record xp_env =
  bar_xp :: "f32 \<Rightarrow> nat \<Rightarrow> u32"
  missing_xp :: "f32 \<Rightarrow> nat \<Rightarrow> u32"
  xp_bar :: "clong \<Rightarrow> nat \<Rightarrow> f32"
  times_1_5 :: "clong \<Rightarrow> clong"
  bonus_part :: "nat \<Rightarrow> clong \<Rightarrow> clong"

definition log_xp :: "xp_event \<Rightarrow> xp_player \<Rightarrow> xp_player" where
  "log_xp e p = p\<lparr>xp_log := xp_log p @ [e]\<rparr>"

fun level_of :: "experience_type \<Rightarrow> xp_player \<Rightarrow> u32" where
  "level_of XP_COMBAT p = CombatLevel p"
| "level_of XP_EXPLORE p = ExploreLevel p"
| "level_of XP_TRADE p = TradeLevel p"

fun bar_of :: "experience_type \<Rightarrow> xp_player \<Rightarrow> f32" where
  "bar_of XP_COMBAT p = CombatXP p"
| "bar_of XP_EXPLORE p = ExploreXP p"
| "bar_of XP_TRADE p = TradeXP p"

fun set_bar :: "experience_type \<Rightarrow> f32 \<Rightarrow> xp_player \<Rightarrow> xp_player" where
  "set_bar XP_COMBAT b p = p\<lparr>CombatXP := b\<rparr>"
| "set_bar XP_EXPLORE b p = p\<lparr>ExploreXP := b\<rparr>"
| "set_bar XP_TRADE b p = p\<lparr>TradeXP := b\<rparr>"

fun set_level :: "experience_type \<Rightarrow> u32 \<Rightarrow> xp_player \<Rightarrow> xp_player" where
  "set_level XP_COMBAT l p = p\<lparr>CombatLevel := l, ShipCombatLevel := l\<rparr>"
| "set_level XP_EXPLORE l p = p\<lparr>ExploreLevel := l\<rparr>"
| "set_level XP_TRADE l p = p\<lparr>TradeLevel := l\<rparr>"

definition TotalLevel :: "xp_player \<Rightarrow> clong" where
  "TotalLevel p = ucast (CombatLevel p) + ucast (ExploreLevel p) + ucast (TradeLevel p)"

text \<open>C++ divides towards zero.\<close>

definition quot :: "clong \<Rightarrow> clong \<Rightarrow> clong" where
  "quot a b = word_of_int (sint a sdiv sint b)"

section \<open>Awarding experience\<close>

text \<open>\<^verbatim>\<open>BOOST_XP\<close> is defined, \<^verbatim>\<open>BETA_TESTING\<close> is not.\<close>

definition boost :: "xp_env \<Rightarrow> xp_player \<Rightarrow> clong \<Rightarrow> clong" where
  "boost env p xp =
     (if TotalLevel p <s 75 then xp * 2
      else if TotalLevel p <s 100 then times_1_5 env xp
      else xp)"

definition pay_debt :: "bool \<Rightarrow> clong \<Rightarrow> xp_player \<Rightarrow> clong \<times> (clong \<times> u32) option \<times> xp_player" where
  "pay_debt skip_debt xp_gain p =
     (let debt = XPDebt p
      in if \<not> skip_debt \<and> debt \<noteq> 0 then
           let (gain, rest) =
                 (if debt < ucast xp_gain div 2 then (xp_gain - ucast debt, 0)
                  else (quot xp_gain 2, ucast (ucast debt - quot xp_gain 2)))
           in (gain, Some (gain, rest), log_xp (SavedXPDebt rest (m_IncapXPDebt p)) (p\<lparr>XPDebt := rest\<rparr>))
         else (xp_gain, None, p))"

definition start_xp :: "xp_env \<Rightarrow> experience_type \<Rightarrow> xp_player \<Rightarrow> (clong \<times> xp_player) option" where
  "start_xp env xp_type p =
     (let p1 = (if f_less (bar_of xp_type p) 0 then set_bar xp_type 0 p else p)
      in map_option (\<lambda>n. (ucast (bar_xp env (bar_of xp_type p1) n), p1)) (xp_needed (level_of xp_type p1)))"

partial_function (option) level_loop :: "clong \<Rightarrow> u32 \<Rightarrow> u32 \<Rightarrow> (clong \<times> u32 \<times> u32) option" where
  "level_loop xp level points =
     Option.bind (xp_needed level) (\<lambda>n.
       if of_nat n \<le>s xp then
         (if level < 19 then level_loop (xp - of_nat n) (level + 1) (points + 1)
          else if level < 39 then level_loop (xp - of_nat n) (level + 1) (points + 2)
          else if level < 50 then level_loop (xp - of_nat n) (level + 1) (points + 3)
          else level_loop (xp - of_nat n) level (points + 1))
       else Some (xp, level, points))"

text \<open>Of \<^verbatim>\<open>AwardXP\<close> everything up to the level that is reached.\<close>

definition earn :: "xp_env \<Rightarrow> experience_type \<Rightarrow> string \<Rightarrow> clong \<Rightarrow> clong \<Rightarrow> bool \<Rightarrow> xp_player \<Rightarrow>
    (clong \<times> u32 \<times> u32 \<times> xp_player) option" where
  "earn env xp_type prefix xp_gain group_bonus skip_debt p =
     (let (gain, suffix, p1) = pay_debt skip_debt (boost env p xp_gain) p
      in do {
        (start, p2) \<leftarrow> start_xp env xp_type p1;
        let p3 = log_xp (Earned xp_type prefix gain (boost env p group_bonus) suffix) p2;
        let level = (if 50 < level_of xp_type p3 then 50 else level_of xp_type p3);
        (xp, level', points) \<leftarrow> level_loop (start + gain) level 0;
        Some (xp, level', points, p3)
      })"

definition all_at_50 :: "xp_player \<Rightarrow> bool" where
  "all_at_50 p \<longleftrightarrow> ExploreLevel p = 50 \<and> TradeLevel p = 50 \<and> CombatLevel p = 50"

text \<open>Where experience beyond level 50 goes: all of it to one bar, or half of it to each of two, in this order.\<close>

definition diverted :: "experience_type \<Rightarrow> clong \<Rightarrow> xp_player \<Rightarrow>
    (experience_type \<times> string \<times> clong) \<times> (experience_type \<times> string \<times> clong) option" where
  "diverted xp_type xp p =
     (case xp_type of
        XP_COMBAT \<Rightarrow>
          if ExploreLevel p = 50 then ((XP_TRADE, ''combat xp diverted to trade'', xp), None)
          else if TradeLevel p = 50 then ((XP_EXPLORE, ''combat xp diverted to explore'', xp), None)
          else ((XP_EXPLORE, ''50% of combat xp diverted to explore'', quot xp 2),
                Some (XP_TRADE, ''50% of combat xp diverted to trade'', quot xp 2))
      | XP_EXPLORE \<Rightarrow>
          if CombatLevel p = 50 then ((XP_TRADE, ''explore xp diverted to trade'', xp), None)
          else if TradeLevel p = 50 then ((XP_COMBAT, ''explore xp diverted to combat'', xp), None)
          else ((XP_COMBAT, ''50% of explore xp diverted to combat'', quot xp 2),
                Some (XP_TRADE, ''50% of explore xp diverted to trade'', quot xp 2))
      | XP_TRADE \<Rightarrow>
          if CombatLevel p = 50 then ((XP_EXPLORE, ''trade xp diverted to explore'', xp), None)
          else if ExploreLevel p = 50 then ((XP_COMBAT, ''trade xp diverted to combat'', xp), None)
          else ((XP_COMBAT, ''50% of trade xp diverted to combat'', quot xp 2),
                Some (XP_EXPLORE, ''50% of trade xp diverted to explore'', quot xp 2)))"

text \<open>The end of \<^verbatim>\<open>AwardXP\<close>: the level is stored only here, after what was diverted has been awarded.\<close>

definition gain_levels :: "experience_type \<Rightarrow> u32 \<Rightarrow> u32 \<Rightarrow> xp_player \<Rightarrow> xp_player" where
  "gain_levels xp_type level points p =
     (let p1 = set_level xp_type level p;
          p2 = p1\<lparr>SkillPoints := SkillPoints p1 + points, TotalSkillPoints := TotalSkillPoints p1 + points\<rparr>
      in log_xp (SavedAdvanceLevel xp_type level) (log_xp (LevelUp xp_type level) (log_xp (SavedSkillPoints (SkillPoints p2)) p2)))"

text \<open>With the two lines of the callers that follow the return of \<^verbatim>\<open>AwardXP\<close>.\<close>

definition bank :: "xp_env \<Rightarrow> experience_type \<Rightarrow> clong \<Rightarrow> u32 \<Rightarrow> u32 \<Rightarrow> xp_player \<Rightarrow> xp_player option" where
  "bank env xp_type xp level points p =
     map_option (\<lambda>n.
       let bar = xp_bar env xp n;
           p1 = (if 0 < points then gain_levels xp_type level points p else p)
       in log_xp SentAuxPlayer (set_bar xp_type bar (log_xp (SavedXPBarLevel xp_type bar) p1)))
     (xp_needed level)"

text \<open>\<^verbatim>\<open>AwardCombatXP\<close>, \<^verbatim>\<open>AwardExploreXP\<close> and \<^verbatim>\<open>AwardTradeXP\<close>, by the type.\<close>

partial_function (option) award ::
    "xp_env \<Rightarrow> experience_type \<Rightarrow> string \<Rightarrow> clong \<Rightarrow> clong \<Rightarrow> bool \<Rightarrow> xp_player \<Rightarrow> xp_player option" where
  "award env xp_type prefix xp_gain group_bonus skip_debt p =
     Option.bind (earn env xp_type prefix xp_gain group_bonus skip_debt p) (\<lambda>(xp, level, points, p1).
       if level = 50 \<and> \<not> all_at_50 p1 then
         (case diverted xp_type xp p1 of
            ((t, msg, x), None) \<Rightarrow>
              Option.bind (award env t msg x (-1) True p1) (\<lambda>p2. bank env xp_type 0 level points p2)
          | ((t, msg, x), Some (t', msg', x')) \<Rightarrow>
              Option.bind (award env t msg x (-1) True p1) (\<lambda>p2.
              Option.bind (award env t' msg' x' (-1) True p2) (\<lambda>p3. bank env xp_type 0 level points p3)))
       else bank env xp_type xp level points p1)"

text \<open>Experience for a destroyed mob.\<close>

definition CalculateMOBXP :: "s16 \<Rightarrow> xp_player \<Rightarrow> s16" where
  "CalculateMOBXP mob_level p =
     (let index = ucast (scast mob_level - CombatLevel p + 10) :: s16
      in if index <s 0 then 0 else if 20 <s index then 8000 else of_nat (MOBXP ! unat index))"

section \<open>Debt\<close>

definition CalculateXPDebt :: "xp_env \<Rightarrow> xp_player \<Rightarrow> xp_player option" where
  "CalculateXPDebt env p =
     (if TotalLevel p <s 10 then Some p
      else do {
        c \<leftarrow> xp_needed (CombatLevel p);
        e \<leftarrow> xp_needed (ExploreLevel p);
        t \<leftarrow> xp_needed (TradeLevel p);
        let debt = (missing_xp env (CombatXP p) c + missing_xp env (ExploreXP p) e + missing_xp env (TradeXP p) t) div 30;
        let p1 = p\<lparr>m_IncapXPDebt := debt, XPDebt := debt + XPDebt p\<rparr>;
        Some (log_xp (SavedXPDebt (XPDebt p1) debt) (log_xp (DebtReceived debt) p1))
      })"

text \<open>The loop over the hours a player was away, with the hours that were left when it ended.\<close>

fun forgive_loop :: "u32 \<Rightarrow> nat \<Rightarrow> u32 \<times> nat" where
  "forgive_loop debt 0 = (debt, 0)"
| "forgive_loop debt (Suc hours) = (if debt = 0 then (0, Suc hours) else forgive_loop (debt * 8 div 10) hours)"

definition ForgiveXPDebt :: "s32 \<Rightarrow> xp_player \<Rightarrow> xp_player" where
  "ForgiveXPDebt hours_offline p =
     (if XPDebt p = 0 then p
      else
        let (debt, hours) = forgive_loop (XPDebt p) (nat (sint hours_offline));
            debt' = (if 24 \<le> hours then 0 else debt)
        in if debt' = XPDebt p then p
           else log_xp SentAuxPlayer (log_xp (SavedXPDebt debt' (m_IncapXPDebt p))
             (log_xp (DebtForgiven (XPDebt p - debt') debt') (p\<lparr>XPDebt := debt'\<rparr>))))"

text \<open>What a jumpstart pays of the debt; the level of the skill has been cut to an integer.\<close>

definition JumpStart_debt :: "u32 \<Rightarrow> xp_player \<Rightarrow> xp_player" where
  "JumpStart_debt level p =
     (let due = level * 7 * m_IncapXPDebt p div 100;
          payment = (if XPDebt p < due then XPDebt p else due);
          p1 = log_xp (DebtPaid payment) (p\<lparr>XPDebt := XPDebt p - payment\<rparr>)
      in log_xp (SavedXPDebt (XPDebt p1) (m_IncapXPDebt p1)) p1)"

section \<open>Shares of a group\<close>

text \<open>The player in a slot of the group, if he gets a share.\<close>

definition xp_receiver :: "gworld \<Rightarrow> nat \<Rightarrow> Group \<Rightarrow> nat \<Rightarrow> nat option" where
  "xp_receiver w owner g i =
     (if GroupMember_GameID (Member g ! i) = -1 then None
      else case find_player w (member_id g i) of None \<Rightarrow> None
        | Some q \<Rightarrow>
            if p_Active (player w q) \<and> p_AcceptedGroupInvite (player w q) \<and>
               p_SectorNum (player w q) = p_SectorNum (player w owner) \<and>
               f_less (RangeFrom w q owner) f_40000 \<and> \<not> p_IsIncapacitated (player w q)
            then Some q else None)"

fun award_each :: "xp_env \<Rightarrow> experience_type \<Rightarrow> string \<Rightarrow> clong \<Rightarrow> clong \<Rightarrow> nat list \<Rightarrow> xp_player list \<Rightarrow> xp_player list option" where
  "award_each env t msg share bonus [] ps = Some ps"
| "award_each env t msg share bonus (q # qs) ps =
     Option.bind (award env t msg share bonus False (ps ! q)) (\<lambda>p. award_each env t msg share bonus qs (ps[q := p]))"

text \<open>The shares: \<open>None\<close> when the number of members in range is not an index of \<^verbatim>\<open>BonusXP\<close>.\<close>

definition xp_shares :: "xp_env \<Rightarrow> clong \<Rightarrow> nat \<Rightarrow> (clong \<times> clong) option" where
  "xp_shares env gain in_range =
     (if in_range < 1 \<or> 6 < in_range then None
      else let bonus = bonus_part env (in_range - 1) gain
           in Some (quot (gain + bonus) (of_nat in_range), quot bonus (of_nat in_range)))"

text \<open>\<open>ps\<close> holds the experience of the players of \<open>w\<close>.\<close>

definition GroupExploreXP :: "xp_env \<Rightarrow> gworld \<Rightarrow> nat \<Rightarrow> string \<Rightarrow> clong \<Rightarrow> xp_player list \<Rightarrow> xp_player list option" where
  "GroupExploreXP env w owner msg gain ps =
     (case GetGroupFromID w (ucast (p_GroupID (player w owner))) of
        None \<Rightarrow> map_option (\<lambda>p. ps[owner := p]) (award env XP_EXPLORE msg gain (-1) False (ps ! owner))
      | Some gid \<Rightarrow> do {
          g \<leftarrow> group_at w gid;
          (share, bonus) \<leftarrow> xp_shares env gain (GetMembersInXPRange w owner (Some gid));
          award_each env XP_EXPLORE msg share bonus (List.map_filter (xp_receiver w owner g) [0..<6]) ps
        })"

text \<open>The member whose level counts: the last of the highest ones within range, dead or alive.\<close>

definition in_combat_range :: "gworld \<Rightarrow> nat \<Rightarrow> Group \<Rightarrow> nat \<Rightarrow> nat option" where
  "in_combat_range w owner g i =
     (if GroupMember_GameID (Member g ! i) = -1 then None
      else case find_player w (member_id g i) of None \<Rightarrow> None
        | Some q \<Rightarrow>
            if p_Active (player w q) \<and> p_AcceptedGroupInvite (player w q) \<and>
               p_SectorNum (player w q) = p_SectorNum (player w owner) \<and> f_less (RangeFrom w q owner) f_40000
            then Some q else None)"

definition highest_member :: "gworld \<Rightarrow> nat \<Rightarrow> Group \<Rightarrow> xp_player list \<Rightarrow> nat" where
  "highest_member w owner g ps =
     fold (\<lambda>q best. if CombatLevel (ps ! best) \<le> CombatLevel (ps ! q) then q else best)
       (List.map_filter (in_combat_range w owner g) [0..<6]) owner"

definition GroupCombatXP :: "xp_env \<Rightarrow> gworld \<Rightarrow> nat \<Rightarrow> string \<Rightarrow> s32 \<Rightarrow> xp_player list \<Rightarrow> xp_player list option" where
  "GroupCombatXP env w owner msg mob_level ps =
     (case GetGroupFromID w (ucast (p_GroupID (player w owner))) of
        None \<Rightarrow> map_option (\<lambda>p. ps[owner := p])
          (award env XP_COMBAT msg (scast (CalculateMOBXP (ucast mob_level) (ps ! owner))) (-1) False (ps ! owner))
      | Some gid \<Rightarrow> do {
          g \<leftarrow> group_at w gid;
          let in_range = GetMembersInXPRange w owner (Some gid);
          let judged = (if in_range = 1 then owner else highest_member w owner g ps);
          (share, bonus) \<leftarrow> xp_shares env (scast (CalculateMOBXP (ucast mob_level) (ps ! judged))) in_range;
          award_each env XP_COMBAT msg share bonus (List.map_filter (xp_receiver w owner g) [0..<6]) ps
        })"

end
