(* ===== verification/ExperienceProps.thy ===== *)
theory ExperienceProps
  imports Experience GroupProps
begin

text \<open>
  Properties of experience and levels: the level and the skill points that an award leads to, awards that end,
  the last level being counted many times, the debt after hours away, and the shares of a group.
\<close>

section \<open>The table of levels\<close>

lemma length_LevelXP [simp]: "length LevelXP = 110"
  by (simp add: LevelXP_def)

lemma LevelXP_entries: "\<forall>n \<in> set LevelXP. 10000 \<le> n \<and> n \<le> 402500"
  by (simp add: LevelXP_def)

lemma LevelXP_range: "l \<le> 50 \<Longrightarrow> 10000 \<le> LevelXP ! l \<and> LevelXP ! l \<le> 402500"
  using LevelXP_entries nth_mem [of l LevelXP] by simp

lemma LevelXP_top: "LevelXP ! 49 = 402500" "LevelXP ! 50 = 402500"
  by (simp_all add: LevelXP_def)

text \<open>Experience and skill points from level 0 on.\<close>

definition xp_to :: "nat \<Rightarrow> nat" where "xp_to l = sum_list (take l LevelXP)"

lemma xp_to_Suc: "l \<le> 50 \<Longrightarrow> xp_to (Suc l) = xp_to l + LevelXP ! l"
  by (simp add: xp_to_def take_Suc_conv_app_nth)

definition points_for :: "nat \<Rightarrow> nat" where
  "points_for l = (if l \<le> 19 then l else if l \<le> 39 then 19 + 2 * (l - 19) else 59 + 3 * (l - 39))"

lemma points_for_mono: "l < k \<Longrightarrow> points_for l < points_for k"
  by (auto simp: points_for_def)

lemma points_for_Suc:
  "points_for (Suc l) = points_for l + (if l < 19 then 1 else if l < 39 then 2 else 3)"
  by (auto simp: points_for_def)

lemma points_for_bound: "l \<le> 50 \<Longrightarrow> points_for l \<le> 92"
  by (auto simp: points_for_def)

section \<open>Arithmetic\<close>

lemma unat_u32: "unat (w :: u32) < 2 ^ 32"
  using unsigned_less [of w] by simp

lemma unat_u32_of_nat: "n < 2 ^ 32 \<Longrightarrow> unat (of_nat n :: u32) = n"
  by (simp add: unat_of_nat)

lemma sint_of_nat64: "n < 2 ^ 63 \<Longrightarrow> sint (of_nat n :: clong) = int n"
  by (simp add: signed_of_nat signed_take_bit_int_eq_self)

lemma sle_of_nat64: "m < 2 ^ 63 \<Longrightarrow> n < 2 ^ 63 \<Longrightarrow> (of_nat m :: clong) \<le>s of_nat n \<longleftrightarrow> m \<le> n"
  by (simp add: word_sle_eq sint_of_nat64)

lemma quot_of_nat: "m < 2 ^ 63 \<Longrightarrow> n < 2 ^ 63 \<Longrightarrow> quot (of_nat m) (of_nat n) = of_nat (m div n)"
  by (cases "m = 0"; cases "n = 0")
    (simp_all add: quot_def sint_of_nat64 signed_divide_int_def zdiv_int [symmetric])

lemma half_of_nat: "m < 2 ^ 63 \<Longrightarrow> quot (of_nat m) 2 = of_nat (m div 2)"
  using quot_of_nat [of m 2] by simp

lemma unat_level: "l \<le> 50 \<Longrightarrow> unat (of_nat l :: u32) = l"
  by (simp add: unat_of_nat)

lemma level_less: "l \<le> 50 \<Longrightarrow> k \<le> 50 \<Longrightarrow> (of_nat l :: u32) < of_nat k \<longleftrightarrow> l < k"
  by (simp add: word_less_nat_alt unat_level)

lemma level_eq: "l \<le> 50 \<Longrightarrow> k \<le> 50 \<Longrightarrow> (of_nat l :: u32) = of_nat k \<longleftrightarrow> l = k"
  by (metis unat_level)

lemma xp_needed_level: "l \<le> 50 \<Longrightarrow> xp_needed (of_nat l) = Some (LevelXP ! l)"
  by (simp add: xp_needed_def unat_level)

section \<open>The loop over the levels\<close>

lemma level_loop_step:
  assumes "l \<le> 50" and "x < 2 ^ 63"
  shows "level_loop (of_nat x) (of_nat l) k =
    (if x < LevelXP ! l then Some (of_nat x, of_nat l, k)
     else if l < 50 then level_loop (of_nat (x - LevelXP ! l)) (of_nat (Suc l)) (k + of_nat (points_for (Suc l) - points_for l))
     else level_loop (of_nat (x - LevelXP ! l)) (of_nat l) (k + 1))"
proof -
  have small: "LevelXP ! l < 2 ^ 63" using LevelXP_range [OF assms(1)] by simp
  have "\<not> x < LevelXP ! l \<Longrightarrow> (of_nat x - of_nat (LevelXP ! l) :: clong) = of_nat (x - LevelXP ! l)" by simp
  moreover have "(of_nat l :: u32) < 19 \<longleftrightarrow> l < 19" "(of_nat l :: u32) < 39 \<longleftrightarrow> l < 39" "(of_nat l :: u32) < 50 \<longleftrightarrow> l < 50"
    using level_less [OF assms(1), of 19] level_less [OF assms(1), of 39] level_less [OF assms(1), of 50] by simp_all
  moreover have "(of_nat (points_for (Suc l) - points_for l) :: u32) = (if l < 19 then 1 else if l < 39 then 2 else 3)"
    by (simp add: points_for_Suc)
  ultimately show ?thesis
    by (subst level_loop.simps) (simp add: xp_needed_level [OF assms(1)] sle_of_nat64 [OF small assms(2)] add.commute)
qed

text \<open>
  The loop ends; no experience is lost in it, and each level gives its skill points, the last one for
  every time it is passed.
\<close>

lemma level_loop_reaches:
  assumes "l \<le> 50" and "x < 2 ^ 63"
  shows "\<exists>r l' m. level_loop (of_nat x) (of_nat l) k = Some (of_nat r, of_nat l', k + of_nat (points_for l' - points_for l + m)) \<and>
    l \<le> l' \<and> l' \<le> 50 \<and> r < LevelXP ! l' \<and> xp_to l + x = xp_to l' + m * 402500 + r \<and> (l' < 50 \<longrightarrow> m = 0)"
  using assms
proof (induction x arbitrary: l k rule: less_induct)
  case (less x)
  note step = level_loop_step [OF less.prems, of k]
  consider "x < LevelXP ! l" | "LevelXP ! l \<le> x" "l < 50" | "LevelXP ! l \<le> x" "l = 50" using less.prems(1) by linarith
  then show ?case
  proof cases
    case 1
    then show ?thesis using step less.prems by (intro exI [of _ x] exI [of _ l] exI [of _ 0]) simp
  next
    case 2
    have pos: "x - LevelXP ! l < x" using 2(1) LevelXP_range [OF less.prems(1)] by simp
    have "Suc l \<le> 50" "x - LevelXP ! l < 2 ^ 63" using 2(2) less.prems(2) by auto
    from less.IH [OF pos this, where k = "k + of_nat (points_for (Suc l) - points_for l)"] obtain r l' m where
      r: "level_loop (of_nat (x - LevelXP ! l)) (of_nat (Suc l)) (k + of_nat (points_for (Suc l) - points_for l)) =
          Some (of_nat r, of_nat l', k + of_nat (points_for (Suc l) - points_for l) + of_nat (points_for l' - points_for (Suc l) + m))"
        "Suc l \<le> l'" "l' \<le> 50" "r < LevelXP ! l'" "xp_to (Suc l) + (x - LevelXP ! l) = xp_to l' + m * 402500 + r" "l' < 50 \<longrightarrow> m = 0"
      by blast
    have "points_for l < points_for (Suc l)" by (rule points_for_mono) simp
    moreover have "points_for (Suc l) \<le> points_for l'" using r(2) points_for_mono [of "Suc l" l'] by (cases "Suc l = l'") auto
    ultimately have e: "points_for (Suc l) - points_for l + (points_for l' - points_for (Suc l) + m) = points_for l' - points_for l + m"
      by simp
    have "k + of_nat (points_for (Suc l) - points_for l) + of_nat (points_for l' - points_for (Suc l) + m) =
        k + (of_nat (points_for l' - points_for l + m) :: u32)"
      by (simp only: add.assoc of_nat_add [symmetric] e)
    then have "level_loop (of_nat x) (of_nat l) k = Some (of_nat r, of_nat l', k + of_nat (points_for l' - points_for l + m))"
      using step 2 by (simp only: r(1) not_less [symmetric] if_False if_True simp_thms)
    moreover have "xp_to l + x = xp_to l' + m * 402500 + r" using r(5) 2 xp_to_Suc [OF less.prems(1)] by simp
    ultimately show ?thesis using r(2-4,6) by (intro exI [of _ r] exI [of _ l'] exI [of _ m]) simp
  next
    case 3
    have pos: "x - LevelXP ! l < x" using 3(1) LevelXP_range [OF less.prems(1)] by simp
    have "x - LevelXP ! l < 2 ^ 63" using less.prems(2) by simp
    from less.IH [OF pos _ this, where l = 50 and k = "k + 1"] obtain r l' m where
      r: "level_loop (of_nat (x - LevelXP ! l)) (of_nat 50) (k + 1) =
          Some (of_nat r, of_nat l', k + 1 + of_nat (points_for l' - points_for 50 + m))"
        "50 \<le> l'" "l' \<le> 50" "r < LevelXP ! l'" "xp_to 50 + (x - LevelXP ! l) = xp_to l' + m * 402500 + r"
      by blast
    have l': "l' = 50" using r(2,3) by simp
    have "level_loop (of_nat x) (of_nat l) k = Some (of_nat r, of_nat 50, k + 1 + of_nat m)"
      using step 3 r(1) l' by (simp only: not_less [symmetric] if_False if_True simp_thms less_irrefl diff_self_eq_0 add_0)
    moreover have "k + 1 + of_nat m = k + (of_nat (points_for 50 - points_for l + Suc m) :: u32)" using 3 by simp
    moreover have "xp_to l + x = xp_to 50 + Suc m * 402500 + r" using r(5) 3 l' LevelXP_top by simp
    ultimately show ?thesis
      using r(4) 3 l' by (intro exI [where x = r] exI [where x = "50 :: nat"] exI [where x = "Suc m"]) simp
  qed
qed

section \<open>What the parts of an award change\<close>

lemma xp_fields [simp]:
  "level_of t (log_xp e p) = level_of t p" "bar_of t (log_xp e p) = bar_of t p"
  "SkillPoints (log_xp e p) = SkillPoints p" "XPDebt (log_xp e p) = XPDebt p"
  "level_of t (p\<lparr>XPDebt := d\<rparr>) = level_of t p" "bar_of t (p\<lparr>XPDebt := d\<rparr>) = bar_of t p"
  "level_of t (p\<lparr>SkillPoints := k, TotalSkillPoints := k'\<rparr>) = level_of t p"
  "bar_of t (p\<lparr>SkillPoints := k, TotalSkillPoints := k'\<rparr>) = bar_of t p"
  by (cases t; simp add: log_xp_def)+

lemma xp_setters [simp]:
  "level_of t (set_bar t' b p) = level_of t p" "bar_of t (set_bar t' b p) = (if t = t' then b else bar_of t p)"
  "bar_of t (set_level t' l p) = bar_of t p" "level_of t (set_level t' l p) = (if t = t' then l else level_of t p)"
  "SkillPoints (set_bar t' b p) = SkillPoints p" "SkillPoints (set_level t' l p) = SkillPoints p"
  "XPDebt (set_bar t' b p) = XPDebt p" "XPDebt (set_level t' l p) = XPDebt p"
  by (cases t; cases t'; simp)+

lemma all_at_50_iff: "all_at_50 p \<longleftrightarrow> (\<forall>t. level_of t p = 50)"
  unfolding all_at_50_def by (metis experience_type.exhaust level_of.simps)

lemma all_at_50_log [simp]: "all_at_50 (log_xp e p) = all_at_50 p"
  by (simp add: all_at_50_iff)

lemma gain_levels_fields [simp]:
  "level_of t (gain_levels ty l k p) = (if t = ty then l else level_of t p)"
  "bar_of t (gain_levels ty l k p) = bar_of t p"
  "SkillPoints (gain_levels ty l k p) = SkillPoints p + k" "XPDebt (gain_levels ty l k p) = XPDebt p"
  by (simp_all add: gain_levels_def Let_def)

text \<open>The player after \<^const>\<open>bank\<close>.\<close>

definition banked :: "xp_env \<Rightarrow> experience_type \<Rightarrow> clong \<Rightarrow> nat \<Rightarrow> u32 \<Rightarrow> xp_player \<Rightarrow> xp_player" where
  "banked env ty x l k p =
     log_xp SentAuxPlayer (set_bar ty (xp_bar env x (LevelXP ! l))
       (log_xp (SavedXPBarLevel ty (xp_bar env x (LevelXP ! l))) (if 0 < k then gain_levels ty (of_nat l) k p else p)))"

lemma bank_banked: "l \<le> 50 \<Longrightarrow> bank env ty x (of_nat l) k p = Some (banked env ty x l k p)"
  by (simp add: bank_def banked_def xp_needed_level Let_def)

lemma banked_fields [simp]:
  "level_of t (banked env ty x l k p) = (if t = ty \<and> k \<noteq> 0 then of_nat l else level_of t p)"
  "bar_of t (banked env ty x l k p) = (if t = ty then xp_bar env x (LevelXP ! l) else bar_of t p)"
  "SkillPoints (banked env ty x l k p) = SkillPoints p + k" "XPDebt (banked env ty x l k p) = XPDebt p"
  by (auto simp: banked_def word_gt_0)

lemma pay_debt_fields:
  assumes "pay_debt skip x p = (g, sfx, p1)"
  shows "level_of t p1 = level_of t p" "bar_of t p1 = bar_of t p" "SkillPoints p1 = SkillPoints p"
  using assms by (auto simp: pay_debt_def Let_def split: if_splits)

text \<open>The experience that a bar stands for.\<close>

definition held_xp :: "xp_env \<Rightarrow> experience_type \<Rightarrow> xp_player \<Rightarrow> nat" where
  "held_xp env t p = unat (bar_xp env (bar_of t p) (LevelXP ! unat (level_of t p)))"

lemma earn_reaches:
  assumes "level_of ty p = of_nat l" and "l \<le> 50" and "\<not> f_less (bar_of ty p) 0"
    and "pay_debt skip (boost env p gain) p = (of_nat g, sfx, p1)" and "g < 2 ^ 62"
  obtains r l' m where "earn env ty prefix gain bonus skip p =
      Some (of_nat r, of_nat l', of_nat (points_for l' - points_for l + m), log_xp (Earned ty prefix (of_nat g) (boost env p bonus) sfx) p1)"
    and "l \<le> l'" and "l' \<le> 50" and "r < LevelXP ! l'" and "xp_to l + held_xp env ty p + g = xp_to l' + m * 402500 + r"
    and "l' < 50 \<longrightarrow> m = 0"
proof -
  note f = pay_debt_fields [OF assms(4)]
  let ?h = "held_xp env ty p"
  have "?h < 2 ^ 32" unfolding held_xp_def by (rule unat_u32)
  then have small: "?h + g < 2 ^ 63" using assms(5) by simp
  have "start_xp env ty p1 = Some (of_nat ?h, p1)"
    using assms(1-3) by (simp add: start_xp_def f Let_def xp_needed_level held_xp_def unat_level)
  moreover have "\<not> (50 :: u32) < of_nat l" using level_less [OF _ assms(2), of 50] assms(2) by simp
  moreover obtain r l' m where "level_loop (of_nat (?h + g)) (of_nat l) 0 = Some (of_nat r, of_nat l', 0 + of_nat (points_for l' - points_for l + m))"
    and r: "l \<le> l'" "l' \<le> 50" "r < LevelXP ! l'" "xp_to l + (?h + g) = xp_to l' + m * 402500 + r" "l' < 50 \<longrightarrow> m = 0"
    using level_loop_reaches [OF assms(2) small, of 0] by blast
  ultimately have "earn env ty prefix gain bonus skip p =
      Some (of_nat r, of_nat l', of_nat (points_for l' - points_for l + m), log_xp (Earned ty prefix (of_nat g) (boost env p bonus) sfx) p1)"
    using assms(1,4) by (simp add: earn_def Let_def f)
  then show ?thesis using r by (intro that [of r l' m]) (simp_all add: add.assoc)
qed

section \<open>Where an award leads\<close>

text \<open>
  C17: an award that does not reach level 50 goes through exactly the levels it pays for: experience is neither
  lost nor made between the boost and debt at its beginning and the new bar, each level gives its skill points once, and
  the other bars stay.
\<close>

theorem award_reaches_level:
  assumes "level_of ty p = of_nat l" and "l < 50" and "\<not> f_less (bar_of ty p) 0"
    and "pay_debt skip (boost env p gain) p = (of_nat g, sfx, p1)" and "g < 2 ^ 62"
    and "xp_to l + held_xp env ty p + g < xp_to 50"
  shows "\<exists>q l' r. award env ty prefix gain bonus skip p = Some q \<and> xp_to l + held_xp env ty p + g = xp_to l' + r \<and>
    r < LevelXP ! l' \<and> level_of ty q = of_nat l' \<and> bar_of ty q = xp_bar env (of_nat r) (LevelXP ! l') \<and>
    SkillPoints q = SkillPoints p + of_nat (points_for l' - points_for l) \<and> XPDebt q = XPDebt p1 \<and>
    (\<forall>t. t = ty \<or> level_of t q = level_of t p \<and> bar_of t q = bar_of t p)"
proof -
  note f = pay_debt_fields [OF assms(4)]
  obtain r l' m where e: "earn env ty prefix gain bonus skip p =
      Some (of_nat r, of_nat l', of_nat (points_for l' - points_for l + m), log_xp (Earned ty prefix (of_nat g) (boost env p bonus) sfx) p1)"
    and r: "l \<le> l'" "l' \<le> 50" "r < LevelXP ! l'" "xp_to l + held_xp env ty p + g = xp_to l' + m * 402500 + r" "l' < 50 \<longrightarrow> m = 0"
    using earn_reaches [OF assms(1) _ assms(3-5), of prefix bonus] assms(2) by (metis less_imp_le_nat)
  let ?k = "of_nat (points_for l' - points_for l) :: u32"
  have "l' < 50" using r(2,4) assms(6) by (cases "l' = 50") auto
  then have m: "m = 0" and not50: "(of_nat l' :: u32) \<noteq> 50" using r(5) level_eq [of l' 50] by auto
  define p2 where "p2 = log_xp (Earned ty prefix (of_nat g) (boost env p bonus) sfx) p1"
  define q where "q = banked env ty (of_nat r) l' ?k p2"
  have "award env ty prefix gain bonus skip p = Some q"
    using not50 by (subst award.simps) (simp add: e m bank_banked [OF r(2)] q_def p2_def)
  moreover have "level_of ty q = of_nat l'"
  proof (cases "l = l'")
    case True
    then show ?thesis using assms(1) by (simp add: q_def p2_def f)
  next
    case False
    have "points_for l' - points_for l < 2 ^ 32" using points_for_bound [OF r(2)] by simp
    then have "unat ?k = points_for l' - points_for l" by (simp add: unat_of_nat)
    then have "?k \<noteq> 0" using points_for_mono [of l l'] False r(1) by auto
    then show ?thesis by (simp add: q_def)
  qed
  moreover have "bar_of ty q = xp_bar env (of_nat r) (LevelXP ! l')" "SkillPoints q = SkillPoints p + ?k" "XPDebt q = XPDebt p1"
    "\<forall>t. t = ty \<or> level_of t q = level_of t p \<and> bar_of t q = bar_of t p"
    by (simp_all add: q_def p2_def f)
  ultimately show ?thesis using r(3,4) m by (intro exI [where x = q] exI [where x = l'] exI [where x = r]) simp
qed

section \<open>Awards end\<close>

definition levels_sum :: "xp_player \<Rightarrow> nat" where
  "levels_sum p = unat (CombatLevel p) + unat (ExploreLevel p) + unat (TradeLevel p)"

lemma levels_sum_mono:
  assumes "\<And>t. unat (level_of t p) \<le> unat (level_of t q)"
  shows "levels_sum p \<le> levels_sum q"
  using assms [of XP_COMBAT] assms [of XP_EXPLORE] assms [of XP_TRADE] by (simp add: levels_sum_def)

lemma boost_none:
  assumes "\<And>t. unat (level_of t p) \<le> 50" and "100 \<le> levels_sum p"
  shows "boost env p x = x"
proof -
  have s: "levels_sum p < 2 ^ 63"
    using assms(1) [of XP_COMBAT] assms(1) [of XP_EXPLORE] assms(1) [of XP_TRADE] by (simp add: levels_sum_def)
  have "TotalLevel p = of_nat (levels_sum p)" by (simp add: TotalLevel_def levels_sum_def)
  moreover have "\<not> of_nat (levels_sum p) <s (of_nat 75 :: clong)" "\<not> of_nat (levels_sum p) <s (of_nat 100 :: clong)"
    using assms(2) sint_of_nat64 [OF s] sint_of_nat64 [of 75] sint_of_nat64 [of 100] by (simp_all add: word_sless_alt)
  ultimately show ?thesis by (simp add: boost_def)
qed

lemma pay_debt_le:
  assumes "x < 2 ^ 63"
  shows "\<exists>g sfx p1. pay_debt skip (of_nat x) p = (of_nat g, sfx, p1) \<and> g \<le> x"
proof (cases "\<not> skip \<and> XPDebt p \<noteq> 0")
  case False
  then show ?thesis by (intro exI [where x = x] exI [where x = None] exI [where x = p]) (auto simp: pay_debt_def Let_def)
next
  case True
  show ?thesis
  proof (cases "XPDebt p < (ucast (of_nat x :: clong) :: u32) div 2")
    case less: True
    have "unat (ucast (of_nat x :: clong) :: u32) \<le> x"
      by (simp add: unsigned_ucast_eq unsigned_of_nat take_bit_eq_mod)
    then have "unat (XPDebt p) \<le> x" using less by (simp add: word_less_nat_alt unat_div)
    then have "(of_nat x :: clong) - ucast (XPDebt p) = of_nat (x - unat (XPDebt p))" by simp
    then show ?thesis
      using True less by (intro exI [where x = "x - unat (XPDebt p)"]) (auto simp: pay_debt_def Let_def)
  next
    case False
    then show ?thesis
      using True by (intro exI [where x = "x div 2"]) (auto simp: pay_debt_def Let_def half_of_nat [OF assms])
  qed
qed

lemma xp_to_mono: "l \<le> k \<Longrightarrow> xp_to l \<le> xp_to k"
  unfolding xp_to_def by (metis le_add1 le_add_diff_inverse sum_list_append take_add)

text \<open>The conversions lose less than one point, which holds for numbers of this size, and a full bar is never written.\<close>

definition bars_faithful :: "xp_env \<Rightarrow> bool" where
  "bars_faithful env \<longleftrightarrow> (\<forall>n \<in> set LevelXP. \<forall>x < n. \<not> f_less (xp_bar env (of_nat x) n) 0 \<and>
     unat (bar_xp env (xp_bar env (of_nat x) n) n) < n \<and> (x = 0 \<longrightarrow> bar_xp env (xp_bar env (of_nat x) n) n = 0))"

text \<open>Bars are below the next level, and nothing is held at level 50 while another bar is below it.\<close>

definition bars_ok :: "xp_env \<Rightarrow> xp_player \<Rightarrow> bool" where
  "bars_ok env p \<longleftrightarrow> (\<forall>t. unat (level_of t p) \<le> 50 \<and> \<not> f_less (bar_of t p) 0 \<and>
     (unat (level_of t p) < 50 \<longrightarrow> held_xp env t p < LevelXP ! unat (level_of t p)) \<and>
     (level_of t p = 50 \<and> \<not> all_at_50 p \<longrightarrow> held_xp env t p = 0))"

lemma bars_okD:
  assumes "bars_ok env p"
  shows "unat (level_of t p) \<le> 50" and "\<not> f_less (bar_of t p) 0"
    and "unat (level_of t p) < 50 \<Longrightarrow> held_xp env t p < LevelXP ! unat (level_of t p)"
    and "level_of t p = 50 \<Longrightarrow> \<not> all_at_50 p \<Longrightarrow> held_xp env t p = 0"
  using assms unfolding bars_ok_def by blast+

lemma held_cong: "level_of t p = level_of t q \<Longrightarrow> bar_of t p = bar_of t q \<Longrightarrow> held_xp env t p = held_xp env t q"
  by (simp add: held_xp_def)

lemma bars_ok_cong:
  assumes "\<And>t. level_of t p = level_of t q" and "\<And>t. bar_of t p = bar_of t q"
  shows "bars_ok env p = bars_ok env q"
  unfolding bars_ok_def all_at_50_iff by (simp add: assms held_cong [OF assms])

lemma u32_50: "(w :: u32) = 50 \<longleftrightarrow> unat w = 50"
  by (auto intro: unsigned_word_eqI)

lemma banked_ok:
  assumes "bars_faithful env" and ok: "bars_ok env p" and "l \<le> 50" and "x < LevelXP ! l" and "unat (level_of ty p) \<le> l"
    and "k = 0 \<Longrightarrow> level_of ty p = of_nat l" and "l = 50 \<Longrightarrow> x = 0 \<or> all_at_50 p"
  shows "bars_ok env (banked env ty (of_nat x) l k p)"
proof -
  let ?q = "banked env ty (of_nat x) l k p"
  have lev: "level_of t ?q = (if t = ty then of_nat l else level_of t p)" for t using assms(6) by simp
  have mem: "LevelXP ! l \<in> set LevelXP" using assms(3) by simp
  have bar: "\<not> f_less (xp_bar env (of_nat x) (LevelXP ! l)) 0"
      "unat (bar_xp env (xp_bar env (of_nat x) (LevelXP ! l)) (LevelXP ! l)) < LevelXP ! l"
      "x = 0 \<Longrightarrow> bar_xp env (xp_bar env (of_nat x) (LevelXP ! l)) (LevelXP ! l) = 0"
    using assms(1) mem assms(4) unfolding bars_faithful_def by blast+
  have all: "all_at_50 ?q" if "all_at_50 p"
    using that assms(3,5) unfolding all_at_50_iff by (simp add: lev)
  have other: "held_xp env t ?q = held_xp env t p" if "t \<noteq> ty" for t using that by (intro held_cong) simp_all
  have own: "held_xp env ty ?q = unat (bar_xp env (xp_bar env (of_nat x) (LevelXP ! l)) (LevelXP ! l))"
    by (simp add: held_xp_def lev unat_level [OF assms(3)] del: banked_fields(1))
  have "(of_nat l :: u32) = 50 \<Longrightarrow> l = 50" using level_eq [OF assms(3), of 50] by simp
  then have "held_xp env ty ?q = 0" if "(of_nat l :: u32) = 50" "\<not> all_at_50 ?q" using that assms(7) all own bar(3) by auto
  moreover have "held_xp env t ?q = 0" if "t \<noteq> ty" "level_of t p = 50" "\<not> all_at_50 ?q" for t
    using that all other bars_okD(4) [OF ok] by auto
  moreover have "held_xp env t ?q < LevelXP ! unat (level_of t p)" if "t \<noteq> ty" "unat (level_of t p) < 50" for t
    using that other bars_okD(3) [OF ok] by simp
  ultimately show ?thesis
    unfolding bars_ok_def using bars_okD(1,2) [OF ok] own bar(1,2) assms(3)
    by (auto simp: lev unat_level [OF assms(3)] simp del: banked_fields(1))
qed

lemma diverted_cases:
  "(\<exists>t msg. diverted ty x p = ((t, msg, x), None) \<and> (level_of ty p = 50 \<longrightarrow> \<not> all_at_50 p \<longrightarrow> level_of t p \<noteq> 50)) \<or>
   (\<exists>t msg t' msg'. diverted ty x p = ((t, msg, quot x 2), Some (t', msg', quot x 2)) \<and> level_of t p \<noteq> 50 \<and> level_of t' p \<noteq> 50)"
  by (cases ty) (auto simp: diverted_def all_at_50_def)

text \<open>What an award leaves behind.\<close>

definition awarded :: "xp_env \<Rightarrow> nat \<Rightarrow> xp_player \<Rightarrow> xp_player \<Rightarrow> bool" where
  "awarded env x p q \<longleftrightarrow> bars_ok env q \<and> (\<forall>t. unat (level_of t p) \<le> unat (level_of t q)) \<and>
     (x = 0 \<longrightarrow> (\<forall>t. level_of t q = level_of t p))"

lemma awarded_banked:
  assumes "bars_faithful env" and "awarded env y p p'" and "x = 0 \<Longrightarrow> y = 0" and "l \<le> 50" and "r < LevelXP ! l"
    and "unat (level_of ty p') \<le> l" and "k = 0 \<Longrightarrow> level_of ty p' = of_nat l" and "l = 50 \<Longrightarrow> r = 0 \<or> all_at_50 p'"
    and "x = 0 \<Longrightarrow> level_of ty p = of_nat l"
  shows "awarded env x p (banked env ty (of_nat r) l k p')"
proof -
  have "level_of t (banked env ty (of_nat r) l k p') = (if t = ty then of_nat l else level_of t p')" for t
    using assms(7) by simp
  moreover have "unat (level_of ty p) \<le> l" using assms(2,6) unfolding awarded_def by (meson order_trans)
  ultimately show ?thesis
    using banked_ok [OF assms(1) _ assms(4-8)] assms(2,3,9) unat_level [OF assms(4)] unfolding awarded_def by auto
qed

lemma awarded_cong: "awarded env x p q \<Longrightarrow> (\<And>t. level_of t p' = level_of t p) \<Longrightarrow> awarded env x p' q"
  by (simp add: awarded_def)

lemma bank_50: "bank env ty 0 50 k p = Some (banked env ty (of_nat 0) 50 k p)"
  using bank_banked [of 50 env ty 0 k p] by simp

lemma award_kept:
  assumes "earn env ty prefix gain bonus skip p = Some (xp, level, points, p1)" and "level \<noteq> 50 \<or> all_at_50 p1"
  shows "award env ty prefix gain bonus skip p = bank env ty xp level points p1"
  using assms by (subst award.simps) auto

lemma award_diverted:
  assumes "earn env ty prefix gain bonus skip p = Some (xp, 50, points, p1)" and "\<not> all_at_50 p1"
    and "diverted ty xp p1 = ((t, msg, x), None)" and "award env t msg x (-1) True p1 = Some q"
  shows "award env ty prefix gain bonus skip p = Some (banked env ty (of_nat 0) 50 points q)"
  using assms by (subst award.simps) (simp add: bank_50)

lemma award_halved:
  assumes "earn env ty prefix gain bonus skip p = Some (xp, 50, points, p1)" and "\<not> all_at_50 p1"
    and "diverted ty xp p1 = ((t, msg, x), Some (t', msg', x'))" and "award env t msg x (-1) True p1 = Some q"
    and "award env t' msg' x' (-1) True q = Some q'"
  shows "award env ty prefix gain bonus skip p = Some (banked env ty (of_nat 0) 50 points q')"
  using assms by (subst award.simps) (simp add: bank_50)

lemma award_ends:
  assumes env: "bars_faithful env"
  shows "bars_ok env p \<Longrightarrow> 100 \<le> levels_sum p \<Longrightarrow> x < 2 ^ 40 \<Longrightarrow>
    \<exists>q. award env ty prefix (of_nat x) bonus skip p = Some q \<and> awarded env x p q"
proof (induction "2 * x + (if level_of ty p = 50 then 1 else 0)" arbitrary: x ty p prefix bonus skip rule: less_induct)
  case less
  note D = bars_okD [OF less.prems(1)]
  let ?l = "unat (level_of ty p)"
  obtain g sfx p1 where g: "pay_debt skip (boost env p (of_nat x)) p = (of_nat g, sfx, p1)" "g \<le> x"
    using pay_debt_le [of x skip p] less.prems(3) boost_none [OF D(1) less.prems(2)] by auto
  define p2 where "p2 = log_xp (Earned ty prefix (of_nat g) (boost env p bonus) sfx) p1"
  have same: "level_of t p2 = level_of t p" "bar_of t p2 = bar_of t p" for t by (simp_all add: p2_def pay_debt_fields [OF g(1)])
  have ok2: "bars_ok env p2" and all2: "all_at_50 p2 = all_at_50 p"
    using less.prems(1) bars_ok_cong [of p2 p env] same all_at_50_iff by simp_all
  have sum2: "levels_sum p2 = levels_sum p" by (intro antisym levels_sum_mono) (simp_all add: same)
  have aw2: "awarded env y p p2" for y using ok2 same by (simp add: awarded_def)
  have gg: "g < 2 ^ 62" using g(2) less.prems(3) by simp
  obtain r l' m where e: "earn env ty prefix (of_nat x) bonus skip p = Some (of_nat r, of_nat l', of_nat (points_for l' - points_for ?l + m), p2)"
    and r: "?l \<le> l'" "l' \<le> 50" "r < LevelXP ! l'" "xp_to ?l + held_xp env ty p + g = xp_to l' + m * 402500 + r" "l' < 50 \<longrightarrow> m = 0"
    by (rule earn_reaches [where p = p and ty = ty and l = ?l, OF _ D(1) D(2) g(1) gg, where prefix = prefix and bonus = bonus])
      (auto simp: p2_def)
  let ?k = "of_nat (points_for l' - points_for ?l + m) :: u32"
  have step: "xp_to ?l + LevelXP ! ?l \<le> xp_to l'" if "?l < l'"
    using xp_to_mono [of "Suc ?l" l'] xp_to_Suc [OF D(1)] that by simp
  have stay: "l' = ?l" if "x = 0"
    using that g(2) r(1,4) step D(1,3) [of ty] r(2) by (cases "?l < l'"; cases "?l < 50") auto
  have "xp_to ?l \<le> xp_to l'" by (rule xp_to_mono [OF r(1)])
  then have "m * 402500 \<le> held_xp env ty p + g" using r(4) by linarith
  moreover have "held_xp env ty p < 2 ^ 32" unfolding held_xp_def by (rule unat_u32)
  ultimately have "points_for l' - points_for ?l + m < 2 ^ 32" using points_for_bound [OF r(2)] g(2) less.prems(3) by simp
  then have "unat ?k = points_for l' - points_for ?l + m" by (simp only: unat_u32_of_nat)
  then have k0: "level_of ty p = of_nat l'" if "?k = 0"
    using that points_for_mono [of ?l l'] r(1) by (cases "?l = l'") auto
  show ?case
  proof (cases "l' = 50 \<and> \<not> all_at_50 p")
    case False
    then have "of_nat l' \<noteq> (50 :: u32) \<or> all_at_50 p2" using level_eq [OF r(2), of 50] all2 by auto
    then have "award env ty prefix (of_nat x) bonus skip p = Some (banked env ty (of_nat r) l' ?k p2)"
      using award_kept [OF e] bank_banked [OF r(2)] by simp
    moreover have "awarded env x p (banked env ty (of_nat r) l' ?k p2)"
      by (rule awarded_banked [OF env aw2 _ r(2,3)]) (use False r(1) k0 stay all2 same in \<open>auto simp del: of_nat_add\<close>)
    ultimately show ?thesis by blast
  next
    case True
    have rx: "2 * r + (if level_of ty p = 50 then 0 else 2) \<le> 2 * x"
      using step r(4) g(2) D(3,4) [of ty] True D(1) [of ty] by (cases "?l < 50") (auto simp: u32_50)
    have e50: "earn env ty prefix (of_nat x) bonus skip p = Some (of_nat r, 50, ?k, p2)" "\<not> all_at_50 p2"
      using e True all2 by simp_all
    have x0: "r = 0" if "x = 0" using rx that by simp
    have fin: "awarded env x p (banked env ty (of_nat 0) 50 ?k q)" if "awarded env r p2 q" for q
    proof -
      have q: "awarded env r p q" by (rule awarded_cong [OF that]) (simp add: same)
      have "level_of ty q = 50" if "level_of ty p = 50"
        using q that bars_okD(1) [of env q ty] unfolding awarded_def u32_50 by (metis order_antisym)
      then show ?thesis
        by (intro awarded_banked [OF env q]) (use True k0 stay x0 LevelXP_top q in \<open>auto simp: awarded_def bars_okD(1) u32_50 simp del: of_nat_add\<close>)
    qed
    have r40: "r < 2 ^ 40" using rx less.prems(3) by simp
    have sum_q: "100 \<le> levels_sum q" if "awarded env y p2 q" for y q
      using that levels_sum_mono [of p2 q] less.prems(2) sum2 unfolding awarded_def by simp
    from diverted_cases [of ty "of_nat r" p2] show ?thesis
    proof (elim disjE exE conjE)
      fix t msg assume d: "diverted ty (of_nat r) p2 = ((t, msg, of_nat r), None)"
        "level_of ty p2 = 50 \<longrightarrow> \<not> all_at_50 p2 \<longrightarrow> level_of t p2 \<noteq> 50"
      have "2 * r + (if level_of t p2 = 50 then 1 else 0) < 2 * x + (if level_of ty p = 50 then 1 else 0)"
        using rx d(2) e50(2) same(1) by (auto split: if_splits)
      from less.hyps [OF this ok2 _ r40, of msg "-1" True] obtain q where q: "award env t msg (of_nat r) (-1) True p2 = Some q" "awarded env r p2 q"
        using sum2 less.prems(2) by auto
      show ?thesis using award_diverted [OF e50 d(1) q(1)] fin [OF q(2)] by blast
    next
      fix t msg t' msg' assume d: "diverted ty (of_nat r) p2 = ((t, msg, quot (of_nat r) 2), Some (t', msg', quot (of_nat r) 2))"
        "level_of t p2 \<noteq> 50" "level_of t' p2 \<noteq> 50"
      have h: "quot (of_nat r) 2 = of_nat (r div 2)" using half_of_nat [of r] r40 by simp
      have h40: "r div 2 < 2 ^ 40" using r40 by simp
      have "2 * (r div 2) + (if level_of t p2 = 50 then 1 else 0) < 2 * x + (if level_of ty p = 50 then 1 else 0)"
        using rx d(2) by (auto split: if_splits)
      from less.hyps [OF this ok2 _ h40, of msg "-1" True] obtain q where q: "award env t msg (of_nat (r div 2)) (-1) True p2 = Some q" "awarded env (r div 2) p2 q"
        using sum2 less.prems(2) by auto
      have okq: "bars_ok env q" using q(2) by (simp add: awarded_def)
      have "2 * (r div 2) + (if level_of t' q = 50 then 1 else 0) < 2 * x + (if level_of ty p = 50 then 1 else 0)"
        using rx d(3) q(2) unfolding awarded_def by (cases "r div 2 = 0") (auto split: if_splits)
      from less.hyps [OF this okq sum_q [OF q(2)] h40, of msg' "-1" True] obtain q' where
        q': "award env t' msg' (of_nat (r div 2)) (-1) True q = Some q'" "awarded env (r div 2) q q'" by blast
      have "awarded env r p2 q'"
        using q(2) q'(2) unfolding awarded_def by (metis div_0 order_trans)
      then show ?thesis using award_halved [OF e50 d(1) [unfolded h] q(1) q'(1)] fin by blast
    qed
  qed
qed

text \<open>
  C18: with the boosts of low levels over, an award returns, although it may pass experience on to other bars, which
  may pass it on again; no level falls, no bar reaches its end, and a full discipline holds no experience until all three are full
  (from then on nothing is said of how far a bar may go).
\<close>

theorem award_returns:
  assumes "bars_faithful env" and "bars_ok env p" and "100 \<le> levels_sum p" and "x < 2 ^ 40"
  shows "\<exists>q. award env ty prefix (of_nat x) bonus skip p = Some q \<and> bars_ok env q \<and>
    (\<forall>t. unat (level_of t p) \<le> unat (level_of t q))"
  using award_ends [OF assms] unfolding awarded_def by blast

section \<open>The last level is counted again\<close>

text \<open>Two disciplines are at level 50; the third lacks \<open>d\<close> points.\<close>

definition one_short :: "xp_env \<Rightarrow> experience_type \<Rightarrow> nat \<Rightarrow> xp_player \<Rightarrow> bool" where
  "one_short env ty d p \<longleftrightarrow> 0 < d \<and> d \<le> 402500 \<and> level_of ty p = 49 \<and> held_xp env ty p = 402500 - d \<and>
     (\<forall>t. \<not> f_less (bar_of t p) 0 \<and> (t = ty \<or> level_of t p = 50 \<and> held_xp env t p = 0))"

lemma one_shortD:
  assumes "one_short env ty d p"
  shows "0 < d" "d \<le> 402500" "level_of ty p = 49" "held_xp env ty p = 402500 - d" "\<not> f_less (bar_of t p) 0"
    and "t \<noteq> ty \<Longrightarrow> level_of t p = 50" "t \<noteq> ty \<Longrightarrow> held_xp env t p = 0"
  using assms unfolding one_short_def by blast+

lemma one_short_log [simp]: "one_short env ty d (log_xp e p) = one_short env ty d p"
  unfolding one_short_def by (simp add: held_cong [of _ "log_xp e p" p])

lemma one_short_not_full: "one_short env ty d p \<Longrightarrow> \<not> all_at_50 p"
  using one_shortD(3) [of env ty d p] unfolding all_at_50_iff by (intro notI) (simp add: u32_50)

lemma one_short_unchanged:
  assumes "one_short env ty d p" and "skip \<or> XPDebt p = 0"
  shows "pay_debt skip (boost env p x) p = (x, None, p)"
proof -
  note D = one_shortD [OF assms(1)]
  have lev: "level_of t p = (if t = ty then 49 else 50)" for t using D(3,6) by simp
  have "unat (level_of t p) \<le> 50" for t by (simp add: lev)
  moreover have "100 \<le> levels_sum p"
    using lev [of XP_COMBAT] lev [of XP_EXPLORE] lev [of XP_TRADE] by (simp add: levels_sum_def)
  ultimately have "boost env p x = x" by (intro boost_none)
  then show ?thesis using assms(2) by (auto simp: pay_debt_def Let_def)
qed

text \<open>The two disciplines pass experience to each other.\<close>

fun partner :: "experience_type \<Rightarrow> experience_type" where
  "partner XP_COMBAT = XP_TRADE"
| "partner XP_EXPLORE = XP_TRADE"
| "partner XP_TRADE = XP_EXPLORE"

lemma one_short_partner:
  assumes "one_short env ty d p"
  shows "partner ty \<noteq> ty" and "\<exists>msg. diverted ty x p = ((partner ty, msg, x), None)"
    and "\<exists>msg. diverted (partner ty) x p = ((ty, msg, x), None)"
proof -
  note D = one_shortD(3) [OF assms] one_shortD(6) [OF assms, of XP_COMBAT] one_shortD(6) [OF assms, of XP_EXPLORE]
    one_shortD(6) [OF assms, of XP_TRADE]
  show "partner ty \<noteq> ty" by (cases ty) simp_all
  show "\<exists>msg. diverted ty x p = ((partner ty, msg, x), None)" "\<exists>msg. diverted (partner ty) x p = ((ty, msg, x), None)"
    using D by (cases ty; simp add: diverted_def)+
qed

lemma earn_one_short:
  assumes "one_short env ty d p" and "skip \<or> XPDebt p = 0" and "x < 402500"
  shows "\<exists>p'. earn env ty prefix (of_nat x) bonus skip p =
    Some (if x < d then (of_nat (402500 - d + x), 49, 0, p') else (of_nat (x - d), 50, 3, p')) \<and>
    one_short env ty d p' \<and> SkillPoints p' = SkillPoints p"
proof -
  note D = one_shortD [OF assms(1)]
  obtain r l' m where e: "earn env ty prefix (of_nat x) bonus skip p =
      Some (of_nat r, of_nat l', of_nat (points_for l' - points_for 49 + m), log_xp (Earned ty prefix (of_nat x) (boost env p bonus) None) p)"
    and r: "49 \<le> l'" "l' \<le> 50" "r < LevelXP ! l'" "xp_to 49 + held_xp env ty p + x = xp_to l' + m * 402500 + r" "l' < 50 \<longrightarrow> m = 0"
    by (rule earn_reaches [where l = 49, OF _ _ D(5) one_short_unchanged [OF assms(1,2)], where prefix = prefix and bonus = bonus])
      (use D(3) assms(3) in auto)
  have top: "xp_to 50 = xp_to 49 + 402500" using xp_to_Suc [of 49] LevelXP_top by simp
  have pts: "points_for 50 - points_for 49 = 3" by (simp add: points_for_def)
  let ?p = "log_xp (Earned ty prefix (of_nat x) (boost env p bonus) None) p"
  have "earn env ty prefix (of_nat x) bonus skip p = Some (if x < d then (of_nat (402500 - d + x), 49, 0, ?p) else (of_nat (x - d), 50, 3, ?p))"
  proof (cases "x < d")
    case True
    then have "l' = 49" using r top D(1,2,4) by (cases "l' = 50") auto
    then have "r = 402500 - d + x" "m = 0" using r D(4) by auto
    then show ?thesis using e True \<open>l' = 49\<close> by simp
  next
    case False
    then have l': "l' = 50" using r top D(1,2,4) LevelXP_top by (cases "l' = 49") auto
    then have "x = d + m * 402500 + r" using r(4) top D(2,4) False by simp
    then have "m = 0" "r = x - d" using assms(3) by auto
    then show ?thesis using e False l' pts by simp
  qed
  moreover have "one_short env ty d ?p" "SkillPoints ?p = SkillPoints p" using assms(1) by simp_all
  ultimately show ?thesis by blast
qed

lemma earn_full:
  assumes "one_short env ty d p" and "t \<noteq> ty" and "x < 402500"
  shows "\<exists>p'. earn env t prefix (of_nat x) bonus True p = Some (of_nat x, 50, 0, p') \<and> one_short env ty d p' \<and> SkillPoints p' = SkillPoints p"
proof -
  note D = one_shortD [OF assms(1)]
  obtain r l' m where e: "earn env t prefix (of_nat x) bonus True p =
      Some (of_nat r, of_nat l', of_nat (points_for l' - points_for 50 + m), log_xp (Earned t prefix (of_nat x) (boost env p bonus) None) p)"
    and r: "50 \<le> l'" "l' \<le> 50" "xp_to 50 + held_xp env t p + x = xp_to l' + m * 402500 + r"
    by (rule earn_reaches [where l = 50 and g = x, OF _ _ D(5) one_short_unchanged [OF assms(1)], where prefix = prefix and bonus = bonus])
      (use D(6) assms(2,3) in auto)
  then have "x = m * 402500 + r" "l' = 50" using D(7) [OF assms(2)] by auto
  then have "m = 0" "r = x" using assms(3) by auto
  then show ?thesis using e \<open>l' = 50\<close> assms(1) by simp
qed

lemma one_short_award:
  "one_short env ty d p \<Longrightarrow> skip \<or> XPDebt p = 0 \<Longrightarrow> x < 402500 \<Longrightarrow>
    \<exists>q. award env ty prefix (of_nat x) bonus skip p = Some q \<and> SkillPoints q = SkillPoints p + of_nat (3 * (x div d)) \<and>
      level_of ty q = (if x < d then 49 else 50)"
proof (induction x arbitrary: p prefix bonus skip rule: less_induct)
  case (less x)
  note D = one_shortD [OF less.prems(1)]
  obtain p' where e: "earn env ty prefix (of_nat x) bonus skip p =
      Some (if x < d then (of_nat (402500 - d + x), 49, 0, p') else (of_nat (x - d), 50, 3, p'))"
    and p': "one_short env ty d p'" "SkillPoints p' = SkillPoints p"
    using earn_one_short [OF less.prems] by blast
  show ?case
  proof (cases "x < d")
    case True
    then have "award env ty prefix (of_nat x) bonus skip p = Some (banked env ty (of_nat (402500 - d + x)) 49 0 p')"
      using award_kept [of env ty prefix "of_nat x" bonus skip p _ 49] e bank_banked [of 49] by simp
    then show ?thesis using True p' one_shortD(3) [OF p'(1)] by simp
  next
    case False
    then have e: "earn env ty prefix (of_nat x) bonus skip p = Some (of_nat (x - d), 50, 3, p')" using e by simp
    define t where "t = partner ty"
    have t: "t \<noteq> ty" unfolding t_def by (rule one_short_partner(1) [OF p'(1)])
    obtain msg where d: "diverted ty (of_nat (x - d)) p' = ((t, msg, of_nat (x - d)), None)"
      using one_short_partner(2) [OF p'(1)] unfolding t_def by blast
    have small: "x - d < x" "x - d < 402500" using False D(1) less.prems(3) by auto
    obtain p2 where e2: "earn env t msg (of_nat (x - d)) (-1) True p' = Some (of_nat (x - d), 50, 0, p2)"
      and p2: "one_short env ty d p2" "SkillPoints p2 = SkillPoints p'"
      using earn_full [OF p'(1) t small(2)] by blast
    obtain msg' where d2: "diverted t (of_nat (x - d)) p2 = ((ty, msg', of_nat (x - d)), None)"
      using one_short_partner(3) [OF p2(1)] unfolding t_def by blast
    obtain q where q: "award env ty msg' (of_nat (x - d)) (-1) True p2 = Some q" "SkillPoints q = SkillPoints p2 + of_nat (3 * ((x - d) div d))"
      using less.IH [OF small(1) p2(1) _ small(2)] by blast
    note inner = award_diverted [OF e2 one_short_not_full [OF p2(1)] d2 q(1)]
    note outer = award_diverted [OF e one_short_not_full [OF p'(1)] d inner]
    have "x div d = Suc ((x - d) div d)" using False D(1) by (simp add: le_div_geq)
    then have "SkillPoints p + of_nat (3 * ((x - d) div d)) + 3 = SkillPoints p + of_nat (3 * (x div d))" by simp
    moreover have "(3 :: u32) \<noteq> 0" by simp
    ultimately show ?thesis using outer q(2) p2(2) p'(2) False by simp
  qed
qed

text \<open>
  C33: a player whose other disciplines are at level 50 and who lacks \<open>d\<close> points in the last one gets the three skill points of
  level 50 once for every \<open>d\<close> points of the award: the level is stored only after the rest has been passed
  on, and what is passed on comes back to the discipline while its old level and bar still stand.
\<close>

theorem last_level_repeats:
  assumes "one_short env ty d p" and "skip \<or> XPDebt p = 0" and "d \<le> x" and "x < 402500"
  shows "\<exists>q. award env ty prefix (of_nat x) bonus skip p = Some q \<and> level_of ty q = 50 \<and>
    SkillPoints q = SkillPoints p + of_nat (3 * (x div d))"
  using one_short_award [OF assms(1,2,4), of prefix bonus] assms(3) by auto

section \<open>Examples\<close>

text \<open>Bars that hold the experience itself, a reading that loses nothing.\<close>

definition example_xp :: xp_env where
  "example_xp = \<lparr>bar_xp = (\<lambda>b n. b), missing_xp = (\<lambda>b n. of_nat n - b), xp_bar = (\<lambda>x n. ucast x),
     times_1_5 = (\<lambda>x. x + x div 2), bonus_part = (\<lambda>i x. x * of_nat (2 * i) div 5)\<rparr>"

definition example_player :: "u32 \<Rightarrow> u32 \<Rightarrow> u32 \<Rightarrow> f32 \<Rightarrow> xp_player" where
  "example_player c e t bar =
     \<lparr>SkillPoints = 0, TotalSkillPoints = 0, CombatXP = bar, CombatLevel = c, TradeXP = 0, TradeLevel = t, ExploreXP = 0,
      ExploreLevel = e, ShipCombatLevel = c, XPDebt = 0, m_IncapXPDebt = 0, xp_log = []\<rparr>"

lemma all_types: "(\<forall>t. P t) \<longleftrightarrow> P XP_COMBAT \<and> P XP_EXPLORE \<and> P XP_TRADE"
  by (metis experience_type.exhaust)

lemma example_not_negative: "x < 402500 \<Longrightarrow> \<not> f_less (of_nat x) 0"
proof -
  assume "x < 402500"
  then have "\<not> bit x 31" by (simp add: bit_iff_odd)
  then have "\<not> bit (of_nat x :: f32) 31" by (simp add: bit_of_nat_iff)
  then show ?thesis by (simp add: f_less_def f_key_def)
qed

lemma example_faithful: "bars_faithful example_xp"
proof -
  have "(ucast (of_nat x :: clong) :: u32) = of_nat x" "unat (of_nat x :: u32) = x" if "x < 402500" for x
    using that by (simp_all add: unsigned_of_nat take_bit_nat_eq_self unat_of_nat)
  then show ?thesis
    unfolding bars_faithful_def example_xp_def using LevelXP_entries example_not_negative by fastforce
qed

lemma last_level_repeats_witness:
  "\<exists>q. award example_xp XP_COMBAT ''Defeated:'' 1000 (-1) False (example_player 49 50 50 402490) = Some q \<and>
    SkillPoints q = 300"
proof -
  have "\<not> f_less (402490 :: f32) 0" "\<not> f_less (0 :: f32) 0" using example_not_negative [of 402490] example_not_negative [of 0] by simp_all
  then have "one_short example_xp XP_COMBAT 10 (example_player 49 50 50 402490)"
    unfolding one_short_def
    by (simp add: all_types example_player_def example_xp_def held_xp_def LevelXP_top)
  then show ?thesis
    using last_level_repeats [of example_xp XP_COMBAT 10 "example_player 49 50 50 402490" False 1000 "''Defeated:''" "-1"]
    by (auto simp: example_player_def)
qed

lemma award_returns_witness:
  "\<exists>q. award example_xp XP_TRADE ''Trade:'' 900000 (-1) False (example_player 40 48 30 0) = Some q \<and> bars_ok example_xp q"
proof -
  have "\<not> f_less (0 :: f32) 0" using example_not_negative [of 0] by simp
  moreover have "0 < LevelXP ! 40" "0 < LevelXP ! 48" "0 < LevelXP ! 30" by (simp_all add: LevelXP_def)
  ultimately have "bars_ok example_xp (example_player 40 48 30 0)"
    by (simp add: bars_ok_def all_types all_at_50_def example_player_def example_xp_def held_xp_def)
  moreover have "100 \<le> levels_sum (example_player 40 48 30 0)" by (simp add: levels_sum_def example_player_def)
  ultimately show ?thesis
    using award_returns [OF example_faithful, of "example_player 40 48 30 0" 900000 XP_TRADE "''Trade:''" "-1" False] by auto
qed

lemma award_reaches_level_witness:
  "\<exists>q. award example_xp XP_COMBAT ''Mission:'' 30000 (-1) False (example_player 0 50 50 0) = Some q \<and>
    CombatLevel q = 2 \<and> SkillPoints q = 2"
proof -
  have "\<not> f_less (0 :: f32) 0" using example_not_negative [of 0] by simp
  let ?p = "example_player 0 50 50 0"
  have small: "xp_to 0 = 0" "xp_to 1 = 10000" "xp_to 2 = 22500" "xp_to 3 = 37500" "LevelXP ! 0 = 10000" "LevelXP ! 1 = 12500"
    by (simp_all add: xp_to_def LevelXP_def numeral_2_eq_2 numeral_3_eq_3)
  have far: "37500 \<le> xp_to 50" using xp_to_mono [of 3 50] small by simp
  have "TotalLevel ?p = 100" by (simp add: TotalLevel_def example_player_def)
  then have unchanged: "pay_debt False (boost example_xp ?p 30000) ?p = (of_nat 30000, None, ?p)"
    by (simp add: boost_def pay_debt_def example_player_def word_sless_alt)
  have held: "held_xp example_xp XP_COMBAT ?p = 0" by (simp add: held_xp_def example_player_def example_xp_def)
  obtain q l' r where q: "award example_xp XP_COMBAT ''Mission:'' 30000 (-1) False ?p = Some q" "30000 = xp_to l' + r" "r < LevelXP ! l'"
      "level_of XP_COMBAT q = of_nat l'" "SkillPoints q = SkillPoints ?p + of_nat (points_for l' - points_for 0)"
    using award_reaches_level [of XP_COMBAT ?p 0 False example_xp 30000 30000 None ?p "''Mission:''" "-1"] unchanged held far small
      \<open>\<not> f_less 0 0\<close> by (auto simp: example_player_def)
  have "l' < 3" using xp_to_mono [of 3 l'] q(2) small by (cases "l' < 3") auto
  then have "l' = 2" using q(2,3) small by (auto simp: less_Suc_eq numeral_3_eq_3 numeral_2_eq_2)
  then show ?thesis using q by (auto simp: points_for_def example_player_def)
qed

section \<open>Debt\<close>

text \<open>The loop over the hours ends with no hours left or with no debt: the test for a whole day after it decides nothing.\<close>

lemma forgive_loop_day: "24 \<le> snd (forgive_loop d h) \<Longrightarrow> fst (forgive_loop d h) = 0"
  by (induction d h rule: forgive_loop.induct) (auto split: if_splits)

text \<open>A fifth of the debt, rounded up, is forgiven for each hour; above \<open>2 ^ 29\<close> the product wraps.\<close>

lemma forgive_loop_fifth:
  "unat d < 2 ^ 29 \<Longrightarrow> unat (fst (forgive_loop d h)) = ((\<lambda>n. n * 8 div 10) ^^ h) (unat d)"
proof (induction d h rule: forgive_loop.induct)
  case (2 d h)
  have "unat (d * 8) = unat d * 8" using "2.prems" by (simp add: unat_word_ariths(2))
  then have u: "unat (d * 8 div 10) = unat d * 8 div 10" by (simp add: unat_div)
  have zero: "((\<lambda>n :: nat. n * 8 div 10) ^^ k) 0 = 0" for k by (induction k) simp_all
  show ?case
  proof (cases "d = 0")
    case False
    then show ?thesis using "2.IH" "2.prems" u by (simp add: funpow_Suc_right del: funpow.simps)
  qed (use zero [of "Suc h"] in \<open>simp del: funpow.simps\<close>)
qed simp

section \<open>The shares of a group\<close>

lemma length_map_filter: "length (List.map_filter f xs) = length (filter (\<lambda>i. f i \<noteq> None) xs)"
  by (simp add: List.map_filter_def)

lemma length_filter_le_sum:
  "(\<And>i. i \<in> set xs \<Longrightarrow> A i \<Longrightarrow> B i \<or> C i) \<Longrightarrow> length (filter A xs) \<le> length (filter B xs) + length (filter C xs)"
  by (induction xs) (auto simp: le_SucI)

text \<open>The owner stands in exactly one slot, and ranges are the same in both directions.\<close>

definition owner_in_group :: "gworld \<Rightarrow> nat \<Rightarrow> Group \<Rightarrow> bool" where
  "owner_in_group w owner g \<longleftrightarrow>
     length (filter (\<lambda>i. member_id g i = p_GameID (player w owner)) [0..<6]) = 1 \<and>
     (\<forall>q. f_less (RangeFrom w q owner) f_40000 = f_less (RangeFrom w owner q) f_40000)"

lemma receivers_counted:
  assumes "owner_in_group w owner g" and "group_at w gid = Some g"
  shows "length (List.map_filter (xp_receiver w owner g) [0..<6]) \<le> GetMembersInXPRange w owner (Some gid)"
    and "GetMembersInXPRange w owner (Some gid) \<in> {1..6}"
proof -
  let ?own = "\<lambda>i. member_id g i = p_GameID (player w owner)"
  define counted where "counted = (\<lambda>i. GroupMember_GameID (Member g ! i) \<noteq> -1 \<and> \<not> ?own i \<and>
    (case find_player w (member_id g i) of None \<Rightarrow> False
     | Some q \<Rightarrow> p_SectorNum (player w owner) = p_SectorNum (player w q) \<and> f_less (RangeFrom w owner q) f_40000))"
  have n: "GetMembersInXPRange w owner (Some gid) = 1 + length (filter counted [0..<6])"
    using assms(2) by (simp add: GetMembersInXPRange_def counted_def)
  have one: "length (filter ?own [0..<6]) = 1" using assms(1) by (simp add: owner_in_group_def)
  have "length (filter (\<lambda>i. xp_receiver w owner g i \<noteq> None) [0..<6]) \<le> length (filter counted [0..<6]) + length (filter ?own [0..<6])"
    using assms(1) by (intro length_filter_le_sum)
      (auto simp: xp_receiver_def counted_def owner_in_group_def split: if_splits option.splits)
  then show "length (List.map_filter (xp_receiver w owner g) [0..<6]) \<le> GetMembersInXPRange w owner (Some gid)"
    unfolding length_map_filter n one by simp
  have "length (filter (\<lambda>i. \<not> ?own i) [0..<6]) + length (filter ?own [0..<6]) = 6"
    using sum_length_filter_compl [of ?own "[0..<6]"] by simp
  moreover have "length (filter counted [0..<6]) \<le> length (filter (\<lambda>i. \<not> ?own i) [0..<6]) + length (filter (\<lambda>i. False) [0..<6])"
    by (intro length_filter_le_sum) (simp add: counted_def)
  ultimately show "GetMembersInXPRange w owner (Some gid) \<in> {1..6}" unfolding n one by simp
qed

text \<open>
  The shares with which the members of a group are awarded together are at most the experience and the bonus of the group. (Who is
  counted but gets nothing, because he is incapacitated or has not accepted, leaves his share to nobody. What a
  member gains can be more than his share: the award doubles it at low levels.)
\<close>

theorem group_shares_bounded:
  assumes "GetGroupFromID w (ucast (p_GroupID (player w owner))) = Some gid" and "group_at w gid = Some g"
    and "owner_in_group w owner g" and "n = GetMembersInXPRange w owner (Some gid)"
    and "bonus_part env (n - 1) (of_nat x) = of_nat b" and "x + b < 2 ^ 63"
  shows "GroupExploreXP env w owner msg (of_nat x) ps =
      award_each env XP_EXPLORE msg (of_nat ((x + b) div n)) (of_nat (b div n)) (List.map_filter (xp_receiver w owner g) [0..<6]) ps \<and>
    length (List.map_filter (xp_receiver w owner g) [0..<6]) * ((x + b) div n) \<le> x + b"
proof -
  note r = receivers_counted [OF assms(3,2), folded assms(4)]
  have "xp_shares env (of_nat x) n = Some (of_nat ((x + b) div n), of_nat (b div n))"
    using r(2) assms(5,6) quot_of_nat [of "x + b" n] quot_of_nat [of b n] by (simp add: xp_shares_def)
  then have "GroupExploreXP env w owner msg (of_nat x) ps =
      award_each env XP_EXPLORE msg (of_nat ((x + b) div n)) (of_nat (b div n)) (List.map_filter (xp_receiver w owner g) [0..<6]) ps"
    using assms(1,2,4) by (simp add: GroupExploreXP_def)
  moreover have "length (List.map_filter (xp_receiver w owner g) [0..<6]) * ((x + b) div n) \<le> n * ((x + b) div n)"
    using r(1) by (rule mult_le_mono1)
  moreover have "n * ((x + b) div n) \<le> x + b" by simp
  ultimately show ?thesis by linarith
qed

text \<open>Three members of one group in one place share 400 points and a bonus of 320.\<close>

definition trio_world :: gworld where
  "trio_world = world_of [trio] (map (\<lambda>i. (a_player 0)\<lparr>p_GameID := i, p_Active := True\<rparr>) [1, 2, 3])"

lemma group_shares_bounded_witness:
  "\<exists>rs. GroupExploreXP example_xp trio_world 0 ''Discovered'' 400 (replicate 3 (example_player 9 9 9 0)) =
      award_each example_xp XP_EXPLORE ''Discovered'' 240 106 rs (replicate 3 (example_player 9 9 9 0)) \<and>
    length rs * 240 \<le> 720"
proof -
  have g: "GetGroupFromID trio_world (ucast (p_GroupID (player trio_world 0))) = Some 0" "group_at trio_world 0 = Some trio"
    by (simp_all add: trio_world_def world_of_def new_world_def GetGroupFromID_def group_at_def trio_def new_Group_def a_player_def)
  have six: "[0..<6] = [0, 1, 2, 3, 4, 5 :: nat]" by (simp add: upt_rec)
  have own: "owner_in_group trio_world 0 trio"
    by (simp add: owner_in_group_def six trio_world_def world_of_def new_world_def trio_def a_player_def ucast_u32_minus_one)
  have ids: "GroupMember_GameID (Member trio ! 0) = 1" "GroupMember_GameID (Member trio ! 1) = 2" "GroupMember_GameID (Member trio ! 2) = 3"
      "GroupMember_GameID (Member trio ! 3) = -1" "GroupMember_GameID (Member trio ! 4) = -1" "GroupMember_GameID (Member trio ! 5) = -1"
    by (simp_all add: trio_def)
  have found: "find_player trio_world 2 = Some 1" "find_player trio_world 3 = Some 2"
    by (simp_all add: trio_world_def world_of_def new_world_def)
  have here: "p_SectorNum (player trio_world 0) = 0" "p_SectorNum (player trio_world 1) = 0" "p_SectorNum (player trio_world 2) = 0"
      "p_GameID (player trio_world 0) = 1" "RangeFrom trio_world i j = 0" for i j
    by (simp_all add: trio_world_def world_of_def new_world_def a_player_def)
  have near: "f_less 0 f_40000" by (simp add: f_less_def f_40000_def f_key_def f_nan_def)
  have n: "3 = GetMembersInXPRange trio_world 0 (Some 0)"
    by (simp add: GetMembersInXPRange_def g(2) six ids found here near del: One_nat_def)
  show ?thesis
    using group_shares_bounded [OF g own n, of example_xp 400 320 "''Discovered''" "replicate 3 (example_player 9 9 9 0)"]
    by (auto simp: example_xp_def)
qed

end
