(* ===== verification/Spec2Isabelle.thy ===== *)
theory Spec2Isabelle
  imports MessageQueue PlayerNodes MemorySlots AuxItem AuxLeaves AuxStats GroupProps
    WestwoodRC4 StringManager InventoryProps GuildProps TradeProps StreamLink
    LoginProps TicketProps LoginAttacks ExperienceProps
begin

text \<open>
  The server of an Earth and Beyond emulator (\<^verbatim>\<open>src/server/src\<close>, C++).

  \<^bold>\<open>The program.\<close> Clients talk to the server through a proxy. Packets arrive over UDP, are encrypted
  with RC4 between client and proxy, and are put together and taken apart by the
  functions of \<^verbatim>\<open>PacketMethods.h\<close>. Outgoing messages wait in a \<^verbatim>\<open>MessageQueue\<close>, whose bytes live in a
  \<^verbatim>\<open>CircularBuffer\<close>. On every tick \<^verbatim>\<open>SendPacketCache\<close> packs waiting opcodes into a numbered datagram and keeps
  a copy in a ring; the proxy (\<^verbatim>\<open>src/proxy\<close>) puts the datagrams in order, asks for missing ones, and
  hands the opcodes to the client. Players are nodes of a fixed pool (\<^verbatim>\<open>GMemoryHandler\<close>) and appear in bitmaps (player
  lists, range lists, explored objects) by their index. What a client shows of itself
  and of others is a tree of state objects (\<^verbatim>\<open>AuxClasses\<close>): a setter marks the changed field and all
  ancestors, and \<^verbatim>\<open>BuildPacket\<close> sends only what was marked. On top of this the player manager keeps groups
  and guilds, and the packet handlers of \<^verbatim>\<open>Player\<close> keep the inventories and the trades.

  A player enters by a ticket: the global plane checks the password and issues \<^verbatim>\<open>user-token\<close>, the client presents
  the ticket and selects a character, and from then on every datagram of that player carries the token, which the
  receiving thread compares before any handler sees the datagram.

  \<^bold>\<open>The theories\<close>, in the order in which they build on each other:

  \<^item> \<open>Net7_Prelude\<close>: the integer types of the source (\<open>s32\<close>, \<open>u32\<close>, \<open>u64\<close>, and \<open>clong\<close>, the 64-bit \<^verbatim>\<open>long\<close>),
    byte strings, little-endian encoding, checked array access, and the generic lemmas and collections.
  \<^item> \<open>PacketMethods\<close> (\<^verbatim>\<open>PacketMethods.h\<close>): \<^verbatim>\<open>AddData\<close>, \<^verbatim>\<open>AddDataLS\<close>, \<^verbatim>\<open>AddDataSN\<close>, \<^verbatim>\<open>ExtractLong\<close>, \<^verbatim>\<open>ExtractDataLS\<close> and the
    others, on a buffer and a running index. Written values read back; a string of 32768 bytes or
    more does not.
  \<^item> \<open>CircularBuffer\<close>, \<open>MessageQueue\<close> (\<^verbatim>\<open>MessageQueue.cpp\<close>): the byte ring with its entry ring, and the queue
    on it. The contract of a bounded queue is a locale, interpreted on the model; within the limits of
    slots, entries and bytes the queue refines a first-in-first-out list.
  \<^item> \<open>ReliableSend\<close>, \<open>SendProps\<close>, \<open>ResendProps\<close> (\<^verbatim>\<open>SendOpcode\<close>, \<^verbatim>\<open>SendPacketCache\<close> and \<^verbatim>\<open>ReSendOpcodes\<close> of
    \<^verbatim>\<open>PlayerConnection.cpp\<close>): forming numbered datagrams refines an abstract sender that takes
    messages from a list, whole or in chunks; a datagram that is still in the ring of 64 is sent again
    as it was, and every requested number is answered.
  \<^item> \<open>ReliableReceive\<close>, \<open>ReceiveProps\<close>, \<open>StreamProps\<close> (\<^verbatim>\<open>proxy/UDPProxyToClient_linux.cpp\<close>): the map of numbered
    slots. For datagrams of whole client opcodes, what the client sees is in order and without repetition, whatever the
    order of arrival, except that each arrival of datagram 0, a repeated one too, begins the stream anew;
    a datagram that fills a hole releases all that wait behind it; an arrival returns.
  \<^item> \<open>StreamLink\<close>: the two ends together. What the server queues reaches the client byte by byte and in
    order when no datagram is lost; what happens to datagrams parked behind a split one, and how a
    handoff starts the stream anew.
  \<^item> \<open>IndexBits\<close> (\<^verbatim>\<open>PlayerManager.cpp\<close>, \<^verbatim>\<open>ObjectClass.cpp\<close>, \<^verbatim>\<open>NavTypeClass.cpp\<close>): the three bitmaps implement sets
    of indices; one locale, three interpretations.
  \<^item> \<open>PlayerNodes\<close>, \<open>MemorySlots\<close> (\<^verbatim>\<open>MemoryHandler.cpp\<close>, \<^verbatim>\<open>MemoryHandler.h\<close>): allocation, release and lookup of
    player nodes, the iteration over a player list, pools of reusable objects and of time nodes.
  \<^item> \<open>AuxBase\<close>, \<open>AuxItem\<close>, \<open>AuxLeaves\<close>, \<open>AuxStats\<close>, \<open>AuxObjects\<close>, \<open>AuxGroupMember\<close>, \<open>AuxGroupInfo\<close> (\<^verbatim>\<open>AuxClasses/\<close>):
    flags and their propagation to the root, the item and the other leaf classes, the group block.
    Delta packets keep a receiver in step with the server; the extended packet rebuilds an item.
  \<^item> \<open>GroupManager\<close>, \<open>GroupInvariants\<close>, \<open>GroupProps\<close> (\<^verbatim>\<open>GroupManager.cpp\<close>): groups, invitations, formations. The
    operations as a step relation with an invariant by rule induction; what inviting,
    accepting, leaving, kicking and disbanding do, and where the code goes wrong.
  \<^item> \<open>GuildManager\<close>, \<open>PlayerGuild\<close>, \<open>GuildInvariants\<close>, \<open>GuildProps\<close> (\<^verbatim>\<open>GuildManager.cpp\<close>, \<^verbatim>\<open>PlayerGuild.cpp\<close>,
    \<^verbatim>\<open>Guilds.h\<close>): the guild list and the commands and packets of players. The membership list is a
    locale (\<open>roster\<close>) interpreted on the model; reachable guilds are well-formed; foundation, leaving and
    disbanding; the confirmations that are not checked.
  \<^item> \<open>WestwoodRC4\<close> (\<^verbatim>\<open>WestwoodRC4.cpp\<close>): the cipher equals the textbook one, two ends stay in step.
  \<^item> \<open>StringManager\<close> (\<^verbatim>\<open>StringManager.cpp\<close>): the interning table refines a growing map from strings to
    pointers.
  \<^item> \<open>PlayerInventory\<close>, \<open>InventoryProps\<close> (\<^verbatim>\<open>PlayerInventory.cpp\<close>, \<^verbatim>\<open>HandleInventoryMove\<close> of
    \<^verbatim>\<open>PlayerConnection.cpp\<close>): cargo, vault and their moves; adding, removing and moving are exact in the
    number of items, and the slot numbers of a client stay inside the arrays. Saving a cargo slot runs the check of
    missions (\<^verbatim>\<open>CheckMissions\<close> in \<^verbatim>\<open>PlayerSaves.cpp\<close>), which may complete a stage and hand out or take items in the middle of
    an operation; it is a parameter called where the code calls it. \<open>missions_quiet\<close>: no stage is completed;
    \<open>missions_keep\<close>: completed stages leave the items of one kind alone.
  \<^item> \<open>PlayerTrade\<close>, \<open>TradeProps\<close> (\<^verbatim>\<open>HandleAction\<close>, \<^verbatim>\<open>CancelTrade\<close> and the trade window in \<^verbatim>\<open>PlayerConnection.cpp\<close>): a
    trade exchanges the contents of two windows, a cancelled one returns them, and the window
    does not change under a confirmation; trading with oneself and negative credits. Here too a save runs the check
    of missions, and the numbers are those without a completed stage.
  \<^item> \<open>LoginTickets\<close> (\<^verbatim>\<open>AuthWrapper.h\<close>, the token stash of \<^verbatim>\<open>UDP_Global.cpp\<close>, \<^verbatim>\<open>AccountManager.cpp\<close>): the check of the
    wrapper, session tokens, tickets, the rules for the names of characters.
  \<^item> \<open>LoginServer\<close> (\<^verbatim>\<open>UDPConnection.cpp\<close>, \<^verbatim>\<open>UDP_Global.cpp\<close>, \<^verbatim>\<open>UDP_MVAS.cpp\<close>, \<^verbatim>\<open>UDP_Client.cpp\<close>, \<^verbatim>\<open>UDP_Master.cpp\<close>,
    \<^verbatim>\<open>UDP_SSLcomms.cpp\<close>, \<^verbatim>\<open>PlayerManager.cpp\<close>): a received record from the check to its handler, on the four planes.
  \<^item> \<open>LoginProps\<close>, \<open>TicketProps\<close>: what the check accepts; the stash refines the latest unused token of each
    session; which names are refused and how; a ticket that was issued is accepted until it expires, unless the name of the
    user contains a dash.
  \<^item> \<open>LoginInvariants\<close>, \<open>LoginSteps\<close>, \<open>LoginFlow\<close>: the invariant of the nodes, lookups and the list of players, what each
    operation does to it, and one lemma for all handlers, \<open>handle_datagram_effect\<close>.
  \<^item> \<open>LoginSafety\<close>: records as a step relation, with any bytes on any plane, but for records of the SSL login server,
    which name a character number above 0 and below \<open>2 ^ 30\<close> (\<open>ssl_sane\<close>; the code does not check it, and number
    0 sent twice puts two players online with one id). A character is online at most once; a record that
    names a player and reaches a handler carries the token of that player; a session that presented its ticket gets the token
    of this ticket, whatever other sessions do.
  \<^item> \<open>LoginAttacks\<close>: the ways round it: the name of the account is taken from the packet, logging off and deleting need no token,
    long names overrun their arrays.
  \<^item> \<open>Experience\<close>, \<open>ExperienceProps\<close> (\<^verbatim>\<open>PlayerExperience.cpp\<close>, the debt in \<^verbatim>\<open>PlayerCombat.cpp\<close>, the shares in
    \<^verbatim>\<open>GroupManager.cpp\<close>): awards, levels and skill points. An award goes through exactly the levels it pays for; awards that pass
    experience on to each other return; the last level is counted many times over; the shares of a group sum up to at most what there is to share, before
    the boost of low levels.

  \<^bold>\<open>How state and effects are modelled.\<close> A class is a record of the fields the operations use, and a
  method is a function from the record to the new one. A pointer to a player, group or guild is an index
  into a list, so that two pointers to the same object are the same index. An access outside an
  array is \<open>None\<close>, or a fault mark in the guild world, where \<^verbatim>\<open>strncpy\<close> may leave a string
  unterminated. Packets, messages and save requests are appended to a log in the order in which
  the code sends them. Integers keep their width wherever the code can overflow.

  The two byte rings behind the queues of a sender are shared by all players of the server; the record of
  a sender holds its own view of them, and what other players write there is a change of that view between
  two operations. The lemmas on one sender speak of runs in which nothing was overwritten.

  \<^bold>\<open>Parameters\<close> stand for code that is not part of the model: the single-precision float operations and the
  text of a quality and the check of missions that a save of a cargo slot runs (\<open>item_env\<close>), the branches of \<^verbatim>\<open>HandleInventoryMove\<close> for equipment, vendors,
  manufacturing and loot (\<open>other\<close>), the lookup of players by id and by name, the list of players that are
  online, the test of the range list, and the rows a database query returns. \<open>login_env\<close> holds, for the login, the functions of libsodium
  (\<open>hex2bin\<close>, \<open>bin2hex\<close>), the tables of accounts and forbidden names, the sector servers and the update
  frequency; \<open>xp_env\<close> the float conversions between a bar and its experience; the clock, the tick count and the random bytes come with each arrival (\<open>moment\<close>). Groups, inventories and trades see
  players through their lookup; the login has the lookup itself, \<open>GetPlayer\<close> on the node pool.

  \<^bold>\<open>Bounds and loops.\<close> Array sizes are the constants of the source: 40 cargo and 96 vault slots, six
  trade slots, six group members, ten ranks and 150 members of a guild. Two loops of the source have
  no bound of their own, the search for a free player node and the iteration over a player list. They are
  partial functions into an option type, and it is proved that they return: the first when the pool has a free
  node, the second always. So are the loops that fill a datagram, walk over its opcodes and forward stored
  datagrams; \<open>arrival_returns\<close> shows that an arrival returns. The walk does not end on an opcode of length 0,
  which is why the lemmas on it ask for well-formed opcodes. Sequence numbers are followed up to
  \<open>MAX_SEQUENCE = 2 ^ 31\<close> datagrams, where the 32-bit field of the header would turn negative. That the queue is
  emptied is shown for as many ticks as there are bytes waiting, each of which sends at least one. The lemmas on buffers assume lengths below \<open>2 ^ 63\<close>, which no allocation exceeds;
  those on stacks assume that a stack leaves room for one more full stack below \<open>2 ^ 32\<close>. The lemmas on logins assume times below
  \<open>2 ^ 40\<close> seconds, so that milliseconds fit the 64-bit \<^verbatim>\<open>long\<close>, and account numbers so small that the ids of characters lie below the
  bit that tags players (\<open>accounts_ok\<close>); the same is assumed of the numbers in SSL records (\<open>ssl_sane\<close>). Dropping duplicates is a loop over the iteration of the list, again a partial function; it is shown to return.
  Awards of experience call each other without a bound; they return for players whose levels sum up to 100, where awards are no longer boosted, and
  awards below \<open>2 ^ 40\<close>, when conversions lose less than one point (\<open>bars_faithful\<close>, which floats satisfy for numbers of this size).

  \<^bold>\<open>Not modelled.\<close> Combat, movement, skills, manufacturing, equipment effects and the formulas for the size of an award are float
  arithmetic, random numbers and timers. Persistence and loading are SQL. Missions are scripts from the database: where saving
  a cargo slot checks them, the model calls a parameter on the inventory, and what a completed stage pays in credits and
  experience is left out. Sockets, DTLS itself, start-up and threads are left out, and of the proxy everything
  but the reliable stream: opcodes that it turns into other packets are events. The player's own
  input at the beginning of \<^verbatim>\<open>SendPacketCache\<close> is not modelled: it dispatches to some two hundred handlers, most of which
  act on the parts named above. Mutexes are left out, except that the race of two threads in \<^verbatim>\<open>StringManager\<close> is
  stated as an interleaving. Of the login, the registration of sector servers (\<^verbatim>\<open>ProcessServerValidation\<close>), the pictures of characters on the avatar list
  and the starting sector and ship, which are read from tables by race and profession, are left out: they are SQL rows copied into packets. The composite state
  objects (ship, player and inventory blocks) follow the pattern of the group block and are not repeated. The equipment and vendor branches of the
  inventory handler need the item database and equip effects.
\<close>

end
